(* ===== verification/Dango_Prelude.thy ===== *)
theory Dango_Prelude
  imports Main "HOL-Library.Word" "HOL-Library.Sublist" "HOL-Library.Multiset"
begin

text \<open>
  Shared vocabulary of the development: the Go types the packages use, the pieces of Go's
  standard library that several components call (\<^verbatim>\<open>strings.HasPrefix\<close>,
  \<^verbatim>\<open>strings.Contains\<close>, maps, \<^verbatim>\<open>select\<close>), and generic lemmas on lists,
  association lists and words.

  A Go \<^verbatim>\<open>string\<close> and a \<^verbatim>\<open>[]byte\<close> are both byte sequences, hence \<open>string\<close>
  (lists of 8-bit characters).  A Go \<^verbatim>\<open>map\<close> is an association list with distinct keys:
  the position of a key stands for Go's unspecified iteration order, and every theorem is
  stated for all such lists, hence for all iteration orders.
\<close>

section \<open>Go types\<close>

type_synonym u64 = "64 word"
type_synonym bytes = string
type_synonym ('k, 'v) gomap = "('k \<times> 'v) list"
type_synonym ('e, 'a) result = "'e + 'a"

named_theorems gomap_simps \<open>equations for association-list maps\<close>
named_theorems wf_intros \<open>well-formedness is kept by an operation\<close>
named_theorems step_simps \<open>unfolding of one operation\<close>

section \<open>Maps\<close>

definition map_get :: "('k, 'v) gomap \<Rightarrow> 'k \<Rightarrow> 'v option" where
  "map_get m k = map_of m k"

fun map_set :: "('k, 'v) gomap \<Rightarrow> 'k \<Rightarrow> 'v \<Rightarrow> ('k, 'v) gomap" where
  "map_set [] k v = [(k, v)]"
| "map_set ((k', v') # m) k v = (if k' = k then (k, v) # m else (k', v') # map_set m k v)"

definition map_delete :: "('k, 'v) gomap \<Rightarrow> 'k \<Rightarrow> ('k, 'v) gomap" where
  "map_delete m k = filter (\<lambda>p. fst p \<noteq> k) m"

definition map_has :: "('k, 'v) gomap \<Rightarrow> 'k \<Rightarrow> bool" where
  "map_has m k \<longleftrightarrow> k \<in> set (map fst m)"

definition map_keys :: "('k, 'v) gomap \<Rightarrow> 'k list" where
  "map_keys m = map fst m"

definition map_ok :: "('k, 'v) gomap \<Rightarrow> bool" where
  "map_ok m \<longleftrightarrow> distinct (map fst m)"

lemma map_get_empty [simp]: "map_get [] k = None"
  by (simp add: map_get_def)

lemma map_get_Cons [simp]: "map_get ((k', v) # m) k = (if k' = k then Some v else map_get m k)"
  by (simp add: map_get_def)

lemma map_get_set [simp, gomap_simps]:
  "map_get (map_set m k v) k' = (if k' = k then Some v else map_get m k')"
  by (induction m k v rule: map_set.induct) auto

lemma keys_map_set [simp, gomap_simps]:
  "set (map fst (map_set m k v)) = insert k (set (map fst m))"
  by (induction m k v rule: map_set.induct) auto

lemma fst_image_map_set [simp]: "fst ` set (map_set m k v) = insert k (fst ` set m)"
  using keys_map_set [of m k v] by simp

lemma map_ok_empty [simp]: "map_ok []"
  by (simp add: map_ok_def)

lemma map_ok_set [simp, wf_intros]: "map_ok m \<Longrightarrow> map_ok (map_set m k v)"
  by (induction m k v rule: map_set.induct) (auto simp: map_ok_def)

lemma map_ok_delete [simp, wf_intros]: "map_ok m \<Longrightarrow> map_ok (map_delete m k)"
  by (simp add: map_ok_def map_delete_def distinct_map_filter)

lemma map_get_delete [simp, gomap_simps]:
  "map_get (map_delete m k) k' = (if k' = k then None else map_get m k')"
  by (induction m) (auto simp: map_delete_def map_get_def)

lemma map_delete_Nil [simp]: "map_delete [] k = []"
  by (simp add: map_delete_def)

lemma keys_map_delete [simp, gomap_simps]:
  "set (map fst (map_delete m k)) = set (map fst m) - {k}"
  by (auto simp: map_delete_def)

lemma map_has_iff: "map_has m k \<longleftrightarrow> map_get m k \<noteq> None"
  by (simp add: map_has_def map_get_def map_of_eq_None_iff)

lemma map_has_empty [simp]: "\<not> map_has [] k"
  by (simp add: map_has_def)

lemma map_has_set [simp]: "map_has (map_set m k v) k' \<longleftrightarrow> k' = k \<or> map_has m k'"
  by (simp add: map_has_iff)

lemma map_has_delete [simp]: "map_has (map_delete m k) k' \<longleftrightarrow> k' \<noteq> k \<and> map_has m k'"
  by (simp add: map_has_iff)

lemma map_get_mem: "map_get m k = Some v \<Longrightarrow> (k, v) \<in> set m"
  by (simp add: map_get_def map_of_SomeD)

lemma map_get_mem_iff: "map_ok m \<Longrightarrow> map_get m k = Some v \<longleftrightarrow> (k, v) \<in> set m"
  by (simp add: map_get_def map_ok_def)

lemma set_map_set: "set (map_set m k v) \<subseteq> insert (k, v) (set m)"
  by (induction m k v rule: map_set.induct) auto

lemma set_map_delete: "set (map_delete m k) \<subseteq> set m"
  by (auto simp: map_delete_def)

lemma mem_map_delete: "(a, b) \<in> set (map_delete m k) \<longleftrightarrow> a \<noteq> k \<and> (a, b) \<in> set m"
  by (auto simp: map_delete_def)

lemma length_map_set:
  "length (map_set m k v) = (if map_has m k then length m else Suc (length m))"
  by (induction m k v rule: map_set.induct) (auto simp: map_has_def)

lemma list_all2_in_set2: "list_all2 P xs ys \<Longrightarrow> y \<in> set ys \<Longrightarrow> \<exists>x \<in> set xs. P x y"
  by (induction rule: list_all2_induct) auto

section \<open>Strings\<close>

definition HasPrefix :: "string \<Rightarrow> string \<Rightarrow> bool" where
  "HasPrefix s p \<longleftrightarrow> take (length p) s = p"

definition HasSuffix :: "string \<Rightarrow> string \<Rightarrow> bool" where
  "HasSuffix s p \<longleftrightarrow> length p \<le> length s \<and> drop (length s - length p) s = p"

fun Contains :: "string \<Rightarrow> string \<Rightarrow> bool" where
  "Contains [] sub \<longleftrightarrow> sub = []"
| "Contains (c # cs) sub \<longleftrightarrow> HasPrefix (c # cs) sub \<or> Contains cs sub"

definition ContainsAny :: "string \<Rightarrow> string \<Rightarrow> bool" where
  "ContainsAny s chars \<longleftrightarrow> (\<exists>c \<in> set s. c \<in> set chars)"

lemma HasPrefix_iff: "HasPrefix s p \<longleftrightarrow> (\<exists>r. s = p @ r)"
  by (metis HasPrefix_def append_eq_conv_conj append_take_drop_id)

lemma HasPrefix_append [simp]: "HasPrefix (p @ r) p"
  by (simp add: HasPrefix_def)

lemma HasPrefix_Nil [simp]: "HasPrefix s []"
  by (simp add: HasPrefix_def)

lemma HasSuffix_iff: "HasSuffix s p \<longleftrightarrow> (\<exists>r. s = r @ p)"
  unfolding HasSuffix_def
  by (metis append_eq_conv_conj append_take_drop_id diff_add_inverse2 le_add2 length_append length_drop
      diff_diff_cancel)

lemma Contains_iff: "Contains s sub \<longleftrightarrow> (\<exists>a b. s = a @ sub @ b)"
proof (induction s)
  case (Cons c cs)
  have "(\<exists>a b. c # cs = a @ sub @ b) \<longleftrightarrow>
      HasPrefix (c # cs) sub \<or> (\<exists>a b. cs = a @ sub @ b)" (is "?L \<longleftrightarrow> ?R")
  proof
    assume ?L
    then obtain a b where ab: "c # cs = a @ sub @ b" by blast
    then show ?R by (cases a) (auto simp: HasPrefix_iff)
  next
    assume ?R
    then show ?L by (metis HasPrefix_iff append_Cons append_Nil)
  qed
  with Cons.IH show ?case by simp
qed auto

section \<open>Lists\<close>

lemma set_tlD: "x \<in> set (tl xs) \<Longrightarrow> x \<in> set xs"
  by (cases xs) auto

lemma sorted_wrt_snoc:
  "sorted_wrt R (xs @ [x]) \<longleftrightarrow> sorted_wrt R xs \<and> (\<forall>y \<in> set xs. R y x)"
  by (auto simp: sorted_wrt_append)

section \<open>Transition systems\<close>

inductive reach :: "('s \<Rightarrow> bool) \<Rightarrow> ('s \<Rightarrow> 's \<Rightarrow> bool) \<Rightarrow> 's \<Rightarrow> bool"
  for start :: "'s \<Rightarrow> bool" and step :: "'s \<Rightarrow> 's \<Rightarrow> bool" where
  reach_start: "start s \<Longrightarrow> reach start step s"
| reach_step: "reach start step s \<Longrightarrow> step s t \<Longrightarrow> reach start step t"

text \<open>
  The contract of an inductive invariant: it holds where runs begin and every step keeps it.
  Each component with a step relation interprets it on its own relation and invariant.
\<close>

locale inductive_invariant =
  fixes start :: "'s \<Rightarrow> bool" and step :: "'s \<Rightarrow> 's \<Rightarrow> bool" and inv :: "'s \<Rightarrow> bool"
  assumes base: "start s \<Longrightarrow> inv s"
    and preserve: "inv s \<Longrightarrow> step s t \<Longrightarrow> inv t"
begin

lemma reach_inv: "reach start step s \<Longrightarrow> inv s"
  by (induction rule: reach.induct) (auto intro: base preserve)

lemma steps_inv: "step\<^sup>*\<^sup>* s t \<Longrightarrow> inv s \<Longrightarrow> inv t"
  by (induction rule: rtranclp_induct) (auto intro: preserve)

end

end
