(* ===== verification/Go_Json.thy ===== *)
theory Go_Json
  imports Dango_Prelude
begin

text \<open>
  The part of Go's \<^verbatim>\<open>encoding/json\<close> that decides whether a byte string is one JSON
  value: \<^verbatim>\<open>json.Valid\<close>, the byte-at-a-time scanner the standard library runs.  Every
  place where the stream and store packages accept or refuse a payload
  (\<^verbatim>\<open>Event.prepare\<close>, \<^verbatim>\<open>marshalDelta\<close>,
  \<^verbatim>\<open>validateJSONEventLogEvent\<close>) calls it.  The lemmas at the end say which byte
  strings are JSON string literals, the fact behind joining string deltas in a merge hub.
\<close>

section \<open>The scanner\<close>

datatype parse_state = ParseObjectKey | ParseObjectValue | ParseArrayValue

datatype scan_state =
    BeginValueOrEmpty | BeginValue | BeginStringOrEmpty | BeginString | EndValue | EndTop
  | InString | InStringEsc | InStringEscU nat
  | Neg | S1 | S0 | Dot | Dot0 | SE | ESign | E0
  | Literal string

record scanner =
  sc_step :: scan_state
  sc_parse :: "parse_state list"   \<comment> \<open>the top of the stack first\<close>
  sc_endTop :: bool

definition maxNestingDepth :: nat where
  "maxNestingDepth = 10000"

definition scan_init :: scanner where
  "scan_init = \<lparr>sc_step = BeginValue, sc_parse = [], sc_endTop = False\<rparr>"

definition isSpace :: "char \<Rightarrow> bool" where
  "isSpace c \<longleftrightarrow> c = CHR '' '' \<or> c = CHR 0x09 \<or> c = CHR 0x0D \<or> c = CHR 0x0A"

definition isDigit :: "char \<Rightarrow> bool" where
  "isDigit c \<longleftrightarrow> c \<in> set ''0123456789''"

definition isHex :: "char \<Rightarrow> bool" where
  "isHex c \<longleftrightarrow> c \<in> set ''0123456789abcdefABCDEF''"

definition isControl :: "char \<Rightarrow> bool" where
  "isControl c \<longleftrightarrow> (of_char c :: nat) < 32"

definition quote :: char where
  "quote = CHR 0x22"

definition backslash :: char where
  "backslash = CHR 0x5C"

definition push_parse :: "scanner \<Rightarrow> scan_state \<Rightarrow> parse_state \<Rightarrow> scanner option" where
  "push_parse s st ps =
     (if length (sc_parse s) < maxNestingDepth
      then Some (s\<lparr>sc_step := st, sc_parse := ps # sc_parse s\<rparr>) else None)"

definition pop_parse :: "scanner \<Rightarrow> scanner" where
  "pop_parse s =
     (let rest = tl (sc_parse s) in
      if rest = [] then s\<lparr>sc_parse := rest, sc_step := EndTop, sc_endTop := True\<rparr>
      else s\<lparr>sc_parse := rest, sc_step := EndValue\<rparr>)"

definition state_end_top :: "scanner \<Rightarrow> char \<Rightarrow> scanner option" where
  "state_end_top s c = (if isSpace c then Some s else None)"

definition state_end_value :: "scanner \<Rightarrow> char \<Rightarrow> scanner option" where
  "state_end_value s c =
     (case sc_parse s of
        [] \<Rightarrow> state_end_top (s\<lparr>sc_step := EndTop, sc_endTop := True\<rparr>) c
      | ps # rest \<Rightarrow>
          if isSpace c then Some (s\<lparr>sc_step := EndValue\<rparr>)
          else (case ps of
              ParseObjectKey \<Rightarrow>
                if c = CHR '':'' then Some (s\<lparr>sc_parse := ParseObjectValue # rest, sc_step := BeginValue\<rparr>)
                else None
            | ParseObjectValue \<Rightarrow>
                if c = CHR '','' then Some (s\<lparr>sc_parse := ParseObjectKey # rest, sc_step := BeginString\<rparr>)
                else if c = CHR ''}'' then Some (pop_parse s)
                else None
            | ParseArrayValue \<Rightarrow>
                if c = CHR '','' then Some (s\<lparr>sc_step := BeginValue\<rparr>)
                else if c = CHR '']'' then Some (pop_parse s)
                else None))"

definition state_begin_value :: "scanner \<Rightarrow> char \<Rightarrow> scanner option" where
  "state_begin_value s c =
     (if isSpace c then Some s
      else if c = CHR ''{'' then push_parse s BeginStringOrEmpty ParseObjectKey
      else if c = CHR ''['' then push_parse s BeginValueOrEmpty ParseArrayValue
      else if c = quote then Some (s\<lparr>sc_step := InString\<rparr>)
      else if c = CHR ''-'' then Some (s\<lparr>sc_step := Neg\<rparr>)
      else if c = CHR ''0'' then Some (s\<lparr>sc_step := S0\<rparr>)
      else if c = CHR ''t'' then Some (s\<lparr>sc_step := Literal ''rue''\<rparr>)
      else if c = CHR ''f'' then Some (s\<lparr>sc_step := Literal ''alse''\<rparr>)
      else if c = CHR ''n'' then Some (s\<lparr>sc_step := Literal ''ull''\<rparr>)
      else if isDigit c then Some (s\<lparr>sc_step := S1\<rparr>)
      else None)"

definition state_begin_string :: "scanner \<Rightarrow> char \<Rightarrow> scanner option" where
  "state_begin_string s c =
     (if isSpace c then Some s
      else if c = quote then Some (s\<lparr>sc_step := InString\<rparr>) else None)"

definition state_0 :: "scanner \<Rightarrow> char \<Rightarrow> scanner option" where
  "state_0 s c =
     (if c = CHR ''.'' then Some (s\<lparr>sc_step := Dot\<rparr>)
      else if c = CHR ''e'' \<or> c = CHR ''E'' then Some (s\<lparr>sc_step := SE\<rparr>)
      else state_end_value s c)"

definition state_esign :: "scanner \<Rightarrow> char \<Rightarrow> scanner option" where
  "state_esign s c = (if isDigit c then Some (s\<lparr>sc_step := E0\<rparr>) else None)"

fun scan_step :: "scanner \<Rightarrow> char \<Rightarrow> scanner option" where
  "scan_step s c =
     (case sc_step s of
        BeginValueOrEmpty \<Rightarrow>
          if isSpace c then Some s
          else if c = CHR '']'' then state_end_value s c else state_begin_value s c
      | BeginValue \<Rightarrow> state_begin_value s c
      | BeginStringOrEmpty \<Rightarrow>
          if isSpace c then Some s
          else if c = CHR ''}''
          then state_end_value (s\<lparr>sc_parse := ParseObjectValue # tl (sc_parse s)\<rparr>) c
          else state_begin_string s c
      | BeginString \<Rightarrow> state_begin_string s c
      | EndValue \<Rightarrow> state_end_value s c
      | EndTop \<Rightarrow> state_end_top s c
      | InString \<Rightarrow>
          if c = quote then Some (s\<lparr>sc_step := EndValue\<rparr>)
          else if c = backslash then Some (s\<lparr>sc_step := InStringEsc\<rparr>)
          else if isControl c then None else Some s
      | InStringEsc \<Rightarrow>
          if c \<in> set ''bfnrt/'' \<or> c = backslash \<or> c = quote then Some (s\<lparr>sc_step := InString\<rparr>)
          else if c = CHR ''u'' then Some (s\<lparr>sc_step := InStringEscU 3\<rparr>)
          else None
      | InStringEscU n \<Rightarrow>
          if isHex c then Some (s\<lparr>sc_step := (if n = 0 then InString else InStringEscU (n - 1))\<rparr>)
          else None
      | Neg \<Rightarrow>
          if c = CHR ''0'' then Some (s\<lparr>sc_step := S0\<rparr>)
          else if isDigit c then Some (s\<lparr>sc_step := S1\<rparr>) else None
      | S1 \<Rightarrow> if isDigit c then Some (s\<lparr>sc_step := S1\<rparr>) else state_0 s c
      | S0 \<Rightarrow> state_0 s c
      | Dot \<Rightarrow> if isDigit c then Some (s\<lparr>sc_step := Dot0\<rparr>) else None
      | Dot0 \<Rightarrow>
          if isDigit c then Some s
          else if c = CHR ''e'' \<or> c = CHR ''E'' then Some (s\<lparr>sc_step := SE\<rparr>)
          else state_end_value s c
      | SE \<Rightarrow>
          if c = CHR ''+'' \<or> c = CHR ''-'' then Some (s\<lparr>sc_step := ESign\<rparr>) else state_esign s c
      | ESign \<Rightarrow> state_esign s c
      | E0 \<Rightarrow> if isDigit c then Some s else state_end_value s c
      | Literal l \<Rightarrow>
          (case l of
             [] \<Rightarrow> None
           | x # xs \<Rightarrow>
               if c = x then Some (s\<lparr>sc_step := (if xs = [] then EndValue else Literal xs)\<rparr>)
               else None))"

declare scan_step.simps [simp del]

fun scan_run :: "scanner \<Rightarrow> bytes \<Rightarrow> scanner option" where
  "scan_run s [] = Some s"
| "scan_run s (c # cs) = (case scan_step s c of None \<Rightarrow> None | Some s' \<Rightarrow> scan_run s' cs)"

definition scan_eof :: "scanner \<Rightarrow> bool" where
  "scan_eof s \<longleftrightarrow>
     (sc_endTop s \<or> (case scan_step s (CHR '' '') of None \<Rightarrow> False | Some s' \<Rightarrow> sc_endTop s'))"

definition json_Valid :: "bytes \<Rightarrow> bool" where
  "json_Valid data \<longleftrightarrow> (case scan_run scan_init data of None \<Rightarrow> False | Some s \<Rightarrow> scan_eof s)"

section \<open>String literals\<close>

text \<open>\<open>str_body\<close>: the bytes that may stand between the quotes of a JSON string.\<close>

definition str_scanner :: scanner where
  "str_scanner = \<lparr>sc_step = InString, sc_parse = [], sc_endTop = False\<rparr>"

definition str_body :: "bytes \<Rightarrow> bool" where
  "str_body b \<longleftrightarrow> scan_run str_scanner b = Some str_scanner"

lemma scan_run_append:
  "scan_run s (xs @ ys) = (case scan_run s xs of None \<Rightarrow> None | Some s' \<Rightarrow> scan_run s' ys)"
  by (induction xs arbitrary: s) (auto split: option.splits)

lemma str_body_Nil [simp]: "str_body []"
  by (simp add: str_body_def)

lemma str_body_append: "str_body a \<Longrightarrow> str_body b \<Longrightarrow> str_body (a @ b)"
  by (simp add: str_body_def scan_run_append)

lemma scan_init_quote: "scan_step scan_init quote = Some str_scanner"
  by (simp add: scan_step.simps scan_init_def state_begin_value_def quote_def isSpace_def str_scanner_def)

lemma str_scanner_quote: "scan_step str_scanner quote = Some (str_scanner\<lparr>sc_step := EndValue\<rparr>)"
  by (simp add: scan_step.simps str_scanner_def)

lemma str_closed_eof: "scan_eof (str_scanner\<lparr>sc_step := EndValue\<rparr>)"
  by (simp add: scan_eof_def scan_step.simps state_end_value_def state_end_top_def str_scanner_def
      isSpace_def)

lemma json_Valid_string: "str_body b \<Longrightarrow> json_Valid (quote # b @ [quote])"
  by (simp add: json_Valid_def scan_init_quote scan_run_append str_body_def str_scanner_quote
      str_closed_eof)

text \<open>After the closing quote of a top-level string only white space may follow.\<close>

definition after_value :: "scanner \<Rightarrow> bool" where
  "after_value s \<longleftrightarrow> sc_parse s = [] \<and> (sc_step s = EndValue \<or> sc_step s = EndTop)"

lemma scan_step_EndValue: "sc_step s = EndValue \<Longrightarrow> scan_step s c = state_end_value s c"
  by (simp add: scan_step.simps)

lemma scan_step_EndTop: "sc_step s = EndTop \<Longrightarrow> scan_step s c = state_end_top s c"
  by (simp add: scan_step.simps)

lemma scan_step_InString:
  "sc_step s = InString \<Longrightarrow> scan_step s c =
     (if c = quote then Some (s\<lparr>sc_step := EndValue\<rparr>)
      else if c = backslash then Some (s\<lparr>sc_step := InStringEsc\<rparr>)
      else if isControl c then None else Some s)"
  by (simp add: scan_step.simps)

lemma scan_step_InStringEsc:
  "sc_step s = InStringEsc \<Longrightarrow> scan_step s c =
     (if c \<in> set ''bfnrt/'' \<or> c = backslash \<or> c = quote then Some (s\<lparr>sc_step := InString\<rparr>)
      else if c = CHR ''u'' then Some (s\<lparr>sc_step := InStringEscU 3\<rparr>)
      else None)"
  by (simp add: scan_step.simps)

lemma scan_step_InStringEscU:
  "sc_step s = InStringEscU n \<Longrightarrow> scan_step s c =
     (if isHex c then Some (s\<lparr>sc_step := (if n = 0 then InString else InStringEscU (n - 1))\<rparr>)
      else None)"
  by (simp add: scan_step.simps)

lemmas string_steps =
  scan_step_EndValue scan_step_EndTop scan_step_InString scan_step_InStringEsc scan_step_InStringEscU

lemma after_value_step:
  assumes "after_value s" and "scan_step s c = Some s'"
  shows "isSpace c \<and> after_value s'"
proof (cases "sc_step s = EndValue")
  case True
  with assms show ?thesis
    by (auto simp: after_value_def string_steps state_end_value_def state_end_top_def split: if_splits)
next
  case False
  with assms show ?thesis
    by (auto simp: after_value_def string_steps state_end_top_def split: if_splits)
qed

lemma after_value_run:
  "after_value s \<Longrightarrow> scan_run s cs = Some s' \<Longrightarrow> list_all isSpace cs"
  by (induction cs arbitrary: s) (auto split: option.splits dest: after_value_step)

definition in_string :: "scanner \<Rightarrow> bool" where
  "in_string s \<longleftrightarrow> sc_parse s = [] \<and> \<not> sc_endTop s \<and>
     (sc_step s = InString \<or> sc_step s = InStringEsc \<or> (\<exists>n. sc_step s = InStringEscU n))"

lemma in_string_step:
  assumes "in_string s" and "scan_step s c = Some s'"
  shows "in_string s' \<or> (c = quote \<and> s = str_scanner \<and> after_value s')"
proof -
  consider "sc_step s = InString" | "sc_step s = InStringEsc" | n where "sc_step s = InStringEscU n"
    using assms(1) by (auto simp: in_string_def)
  then show ?thesis
  proof cases
    case 1
    with assms have "s = str_scanner" by (simp add: in_string_def str_scanner_def)
    with 1 assms show ?thesis
      by (auto simp: in_string_def after_value_def string_steps split: if_splits)
  next
    case 2
    with assms show ?thesis by (auto simp: in_string_def string_steps split: if_splits)
  next
    case 3
    with assms show ?thesis by (auto simp: in_string_def string_steps split: if_splits)
  qed
qed

lemma in_string_run:
  assumes "in_string s" and "scan_run s cs = Some s'" and "\<not> in_string s'"
  shows "\<exists>b ws. cs = b @ quote # ws \<and> scan_run s b = Some str_scanner \<and> list_all isSpace ws"
  using assms
proof (induction cs arbitrary: s)
  case Nil
  then show ?case by simp
next
  case (Cons c cs)
  then obtain t where t: "scan_step s c = Some t" and run: "scan_run t cs = Some s'"
    by (auto split: option.splits)
  from in_string_step [OF Cons.prems(1) t] show ?case
  proof
    assume "in_string t"
    from Cons.IH [OF this run Cons.prems(3)] obtain b ws where
      "cs = b @ quote # ws" "scan_run t b = Some str_scanner" "list_all isSpace ws" by blast
    then have "c # cs = (c # b) @ quote # ws \<and> scan_run s (c # b) = Some str_scanner
        \<and> list_all isSpace ws"
      using t by simp
    then show ?thesis by blast
  next
    assume a: "c = quote \<and> s = str_scanner \<and> after_value t"
    with run have "list_all isSpace cs" by (blast dest: after_value_run)
    with a have "c # cs = [] @ quote # cs \<and> scan_run s [] = Some str_scanner \<and> list_all isSpace cs"
      by simp
    then show ?thesis by blast
  qed
qed

lemma in_string_str_scanner: "in_string str_scanner"
  by (simp add: in_string_def str_scanner_def)

lemma in_string_not_eof: "in_string s \<Longrightarrow> \<not> scan_eof s"
  by (auto simp: in_string_def scan_eof_def string_steps quote_def backslash_def isHex_def
      split: if_splits option.splits)

text \<open>
  A valid JSON value that starts and ends with a quote (and has at least two bytes) is a
  string literal: what lies between the quotes is a string body.
\<close>

lemma json_Valid_quoted:
  assumes "json_Valid d" and "2 \<le> length d" and "hd d = quote" and "last d = quote"
  shows "\<exists>b. d = quote # b @ [quote] \<and> str_body b"
proof -
  from assms(2,3) obtain cs where d: "d = quote # cs" and ne: "cs \<noteq> []"
    by (metis One_nat_def Suc_1 Suc_le_length_iff length_0_conv list.sel(1) not_one_le_zero)
  from assms(1) obtain s where run: "scan_run str_scanner cs = Some s" and eof: "scan_eof s"
    by (auto simp: json_Valid_def d scan_init_quote split: option.splits)
  from eof have "\<not> in_string s" using in_string_not_eof by blast
  from in_string_run [OF in_string_str_scanner run this] obtain b ws where
    cs: "cs = b @ quote # ws" and b: "scan_run str_scanner b = Some str_scanner"
    and ws: "list_all isSpace ws" by blast
  have "ws = []"
  proof (rule ccontr)
    assume "ws \<noteq> []"
    with ws have "isSpace (last ws)" by (simp add: list_all_iff)
    moreover from \<open>ws \<noteq> []\<close> have "last ws = quote" using assms(4) by (simp add: d cs)
    ultimately show False by (simp add: isSpace_def quote_def)
  qed
  with cs d b show ?thesis by (simp add: str_body_def)
qed

end
