(* ===== verification/Stream_Event.thy ===== *)
theory Stream_Event
  imports Go_Json
begin

text \<open>
  \<^verbatim>\<open>stream/event.go\<close>, \<^verbatim>\<open>stream/filter.go\<close> and the payload helpers of
  \<^verbatim>\<open>stream/writer.go\<close>: the event record, the checks and defaults \<^verbatim>\<open>prepare\<close>
  applies before an event enters a stream, scope merging, and subscriber filters.

  \<^verbatim>\<open>json.RawMessage\<close> is \<open>bytes option\<close> (\<open>None\<close> is the nil slice).  A
  \<^verbatim>\<open>map[string]any\<close> value is kept as the cases the packages build: an unsigned
  integer, a string, any other value \<^verbatim>\<open>json.Marshal\<close> accepts (by its encoding), or a
  value it refuses.  Time is nanoseconds since Go's zero time, UTC.
\<close>

section \<open>Constants\<close>

definition StatusPending :: string where "StatusPending = ''pending''"
definition StatusRunning :: string where "StatusRunning = ''running''"
definition StatusCompleted :: string where "StatusCompleted = ''completed''"
definition StatusFailed :: string where "StatusFailed = ''failed''"

definition EventStatusProgress :: string where "EventStatusProgress = ''status.progress''"
definition EventStatusFailed :: string where "EventStatusFailed = ''status.failed''"
definition EventRunnerPhaseChanged :: string where
  "EventRunnerPhaseChanged = ''runner.phase.changed''"
definition EventMergeBundle :: string where "EventMergeBundle = ''merge.bundle''"

section \<open>Data\<close>

type_synonym time = int

datatype any_val = AnyUint u64 | AnyString string | AnyJSON bytes | AnyUnmarshalable

datatype ctx_error = Canceled | DeadlineExceeded

datatype stream_error =
    ErrClosed
  | ErrInvalidEvent string
  | ErrInvalidMerge
  | ErrSubscriberOverflow
  | ErrBufferFull
  | ErrUpstreamRegistered
  | ErrDecodeBatch
  | ErrEmptyBatch
  | ErrEncodeBatch
  | ErrMarshal
  | ErrCtx ctx_error

record source =
  Layer :: string
  ID :: string
  ParentID :: string

record scope =
  RequestID :: string
  RunnerID :: string
  NodeID :: string
  SessionID :: string

record event =
  EventType :: string
  From :: source
  SequenceNumber :: u64
  Status :: string
  Delta :: "bytes option"
  LogicalTime :: u64
  Timestamp :: time
  Scope :: scope
  Metadata :: "(string, any_val) gomap option"

definition empty_scope :: scope where
  "empty_scope = \<lparr>RequestID = [], RunnerID = [], NodeID = [], SessionID = []\<rparr>"

definition empty_source :: source where
  "empty_source = \<lparr>Layer = [], ID = [], ParentID = []\<rparr>"

definition zero_event :: event where
  "zero_event = \<lparr>EventType = [], From = empty_source, SequenceNumber = 0, Status = [],
     Delta = None, LogicalTime = 0, Timestamp = 0, Scope = empty_scope, Metadata = None\<rparr>"

definition time_IsZero :: "time \<Rightarrow> bool" where
  "time_IsZero t \<longleftrightarrow> t = 0"

text \<open>\<^verbatim>\<open>Time.MarshalJSON\<close> refuses years outside 0 to 9999.\<close>

definition time_marshalable :: "time \<Rightarrow> bool" where
  "time_marshalable t \<longleftrightarrow> - 31622400000000000 \<le> t \<and> t < 315537897600000000000"

definition metadata_marshalable :: "(string, any_val) gomap option \<Rightarrow> bool" where
  "metadata_marshalable m \<longleftrightarrow>
     (case m of None \<Rightarrow> True | Some kvs \<Rightarrow> list_all (\<lambda>(k, v). v \<noteq> AnyUnmarshalable) kvs)"

definition event_marshalable :: "event \<Rightarrow> bool" where
  "event_marshalable ev \<longleftrightarrow>
     time_marshalable (Timestamp ev) \<and> metadata_marshalable (Metadata ev)
     \<and> (case Delta ev of None \<Rightarrow> True | Some d \<Rightarrow> json_Valid d)"

section \<open>Scope and prepare\<close>

definition or_default :: "string \<Rightarrow> string \<Rightarrow> string" where
  "or_default s d = (if s = [] then d else s)"

definition mergeScope :: "scope \<Rightarrow> scope \<Rightarrow> scope" where
  "mergeScope base override =
     \<lparr>RequestID = or_default (RequestID override) (RequestID base),
      RunnerID = or_default (RunnerID override) (RunnerID base),
      NodeID = or_default (NodeID override) (NodeID base),
      SessionID = or_default (SessionID override) (SessionID base)\<rparr>"

definition prepare :: "event \<Rightarrow> scope \<Rightarrow> u64 \<Rightarrow> u64 \<Rightarrow> time \<Rightarrow> (stream_error, event) result" where
  "prepare ev sc sequence logicalTime now =
     (if EventType ev = [] then Inl (ErrInvalidEvent ''missing event_type'')
      else if Layer (From ev) = [] then Inl (ErrInvalidEvent ''missing from.layer'')
      else if Status ev = [] then Inl (ErrInvalidEvent ''missing status'')
      else
        let ev = (if Delta ev = None then ev\<lparr>Delta := Some ''null''\<rparr> else ev) in
        if \<not> json_Valid (the (Delta ev)) then Inl (ErrInvalidEvent ''invalid delta JSON'')
        else
          let ev = ev\<lparr>SequenceNumber := sequence, LogicalTime := logicalTime\<rparr>;
              ev = (if time_IsZero (Timestamp ev) then ev\<lparr>Timestamp := now\<rparr> else ev);
              ev = ev\<lparr>Scope := mergeScope sc (Scope ev)\<rparr>
          in if \<not> event_marshalable ev then Inl (ErrInvalidEvent ''marshal'') else Inr ev)"

section \<open>Filters\<close>

record source_selector =
  sel_Layer :: string
  sel_ID :: string
  sel_ParentID :: string

record event_filter =
  EventTypes :: "string list"
  Prefixes :: "string list"
  Sources :: "source_selector list"
  Statuses :: "string list"
  filter_Scope :: scope

definition empty_filter :: event_filter where
  "empty_filter = \<lparr>EventTypes = [], Prefixes = [], Sources = [], Statuses = [],
     filter_Scope = empty_scope\<rparr>"

definition matchEventType :: "event_filter \<Rightarrow> string \<Rightarrow> bool" where
  "matchEventType f eventType =
     (if EventTypes f = [] \<and> Prefixes f = [] then True
      else if list_ex (\<lambda>want. eventType = want) (EventTypes f) then True
      else if list_ex (\<lambda>p. HasPrefix eventType p) (Prefixes f) then True
      else False)"

definition selector_matches :: "source_selector \<Rightarrow> source \<Rightarrow> bool" where
  "selector_matches sel src =
     (if sel_Layer sel \<noteq> [] \<and> sel_Layer sel \<noteq> Layer src then False
      else if sel_ID sel \<noteq> [] \<and> sel_ID sel \<noteq> ID src then False
      else if sel_ParentID sel \<noteq> [] \<and> sel_ParentID sel \<noteq> ParentID src then False
      else True)"

definition matchSource :: "event_filter \<Rightarrow> source \<Rightarrow> bool" where
  "matchSource f src =
     (if Sources f = [] then True else list_ex (\<lambda>sel. selector_matches sel src) (Sources f))"

definition matchStatus :: "event_filter \<Rightarrow> string \<Rightarrow> bool" where
  "matchStatus f st = (if Statuses f = [] then True else list_ex (\<lambda>want. st = want) (Statuses f))"

definition matchScope :: "event_filter \<Rightarrow> scope \<Rightarrow> bool" where
  "matchScope f sc =
     (if RequestID (filter_Scope f) \<noteq> [] \<and> RequestID (filter_Scope f) \<noteq> RequestID sc then False
      else if RunnerID (filter_Scope f) \<noteq> [] \<and> RunnerID (filter_Scope f) \<noteq> RunnerID sc then False
      else if NodeID (filter_Scope f) \<noteq> [] \<and> NodeID (filter_Scope f) \<noteq> NodeID sc then False
      else if SessionID (filter_Scope f) \<noteq> [] \<and> SessionID (filter_Scope f) \<noteq> SessionID sc then False
      else True)"

definition Match :: "event_filter \<Rightarrow> event \<Rightarrow> bool" where
  "Match f ev =
     (if \<not> matchEventType f (EventType ev) then False
      else if \<not> matchSource f (From ev) then False
      else if \<not> matchStatus f (Status ev) then False
      else matchScope f (Scope ev))"

section \<open>Payload helpers of the writer\<close>

text \<open>
  The delta argument of a writer: nil, an encoded message, or another value with the outcome
  of \<^verbatim>\<open>json.Marshal\<close> on it.
\<close>

datatype delta_arg = DeltaNil | DeltaRaw bytes | DeltaValue "bytes option"

fun marshalDelta :: "delta_arg \<Rightarrow> (stream_error, bytes) result" where
  "marshalDelta DeltaNil = Inr ''null''"
| "marshalDelta (DeltaRaw raw) =
     (if \<not> json_Valid raw then Inl (ErrInvalidEvent []) else Inr raw)"
| "marshalDelta (DeltaValue None) = Inl ErrMarshal"
| "marshalDelta (DeltaValue (Some b)) = Inr b"

definition cloneMetadata :: "(string, any_val) gomap option \<Rightarrow> (string, any_val) gomap option" where
  "cloneMetadata metadata =
     (case metadata of None \<Rightarrow> None
      | Some kvs \<Rightarrow> Some (fold (\<lambda>(k, v) out. map_set out k v) kvs []))"

section \<open>Lemmas\<close>

lemma mergeScope_empty_base [simp]: "mergeScope empty_scope s = s"
  by (simp add: mergeScope_def empty_scope_def or_default_def)

lemma mergeScope_empty_override [simp]: "mergeScope s empty_scope = s"
  by (simp add: mergeScope_def empty_scope_def or_default_def)

lemma mergeScope_assoc: "mergeScope a (mergeScope b c) = mergeScope (mergeScope a b) c"
  by (simp add: mergeScope_def or_default_def)

lemma mergeScope_idem [simp]: "mergeScope a (mergeScope a b) = mergeScope a b"
  by (simp add: mergeScope_def or_default_def)

lemma Match_empty_filter [simp]: "Match empty_filter ev"
  by (simp add: Match_def empty_filter_def matchEventType_def matchSource_def matchStatus_def
      matchScope_def empty_scope_def)

lemma json_Valid_null: "json_Valid ''null''"
  by (simp add: json_Valid_def scan_init_def scan_step.simps state_begin_value_def isSpace_def
      isDigit_def quote_def scan_eof_def state_end_value_def state_end_top_def)

text \<open>What every prepared event satisfies.\<close>

definition event_valid :: "event \<Rightarrow> bool" where
  "event_valid ev \<longleftrightarrow> EventType ev \<noteq> [] \<and> Layer (From ev) \<noteq> [] \<and> Status ev \<noteq> []
     \<and> (\<exists>d. Delta ev = Some d \<and> json_Valid d) \<and> event_marshalable ev"

definition with_defaults :: "event \<Rightarrow> scope \<Rightarrow> u64 \<Rightarrow> u64 \<Rightarrow> time \<Rightarrow> event" where
  "with_defaults ev sc sequence logicalTime now =
     ev\<lparr>Delta := Some (case Delta ev of None \<Rightarrow> ''null'' | Some d \<Rightarrow> d),
        SequenceNumber := sequence, LogicalTime := logicalTime,
        Timestamp := (if Timestamp ev = 0 then now else Timestamp ev),
        Scope := mergeScope sc (Scope ev)\<rparr>"

lemma prepare_Inr_iff:
  "prepare ev sc sequence lt now = Inr ev' \<longleftrightarrow>
     EventType ev \<noteq> [] \<and> Layer (From ev) \<noteq> [] \<and> Status ev \<noteq> []
     \<and> event_marshalable (with_defaults ev sc sequence lt now)
     \<and> ev' = with_defaults ev sc sequence lt now"
proof (cases "Delta ev")
  case None
  then show ?thesis
    by (auto simp: prepare_def with_defaults_def Let_def time_IsZero_def json_Valid_null)
next
  case (Some d)
  then have [simp]: "with_defaults ev sc sequence lt now =
      ev\<lparr>SequenceNumber := sequence, LogicalTime := lt,
         Timestamp := (if Timestamp ev = 0 then now else Timestamp ev),
         Scope := mergeScope sc (Scope ev)\<rparr>"
    by (simp add: with_defaults_def)
  show ?thesis
    using Some
    by (auto simp: prepare_def Let_def time_IsZero_def event_marshalable_def split: if_splits)
qed

lemma prepare_valid: "prepare ev sc sequence lt now = Inr ev' \<Longrightarrow> event_valid ev'"
  by (auto simp: prepare_Inr_iff event_valid_def with_defaults_def event_marshalable_def)

lemma prepare_fields:
  assumes "prepare ev sc sequence lt now = Inr ev'"
  shows "SequenceNumber ev' = sequence" "LogicalTime ev' = lt" "EventType ev' = EventType ev"
    "From ev' = From ev" "Status ev' = Status ev" "Scope ev' = mergeScope sc (Scope ev)"
    "Metadata ev' = Metadata ev"
  using assms by (auto simp: prepare_Inr_iff with_defaults_def)

lemma prepare_error:
  assumes "prepare ev sc sequence lt now = Inl e"
  shows "\<exists>why. e = ErrInvalidEvent why"
  using assms by (auto simp: prepare_def Let_def split: if_splits)

lemma marshalDelta_raw_valid: "marshalDelta (DeltaRaw raw) = Inr b \<Longrightarrow> json_Valid b \<and> b = raw"
  by (auto split: if_splits)

lemma fold_map_set_distinct:
  "distinct (map fst (out @ kvs)) \<Longrightarrow> fold (\<lambda>(k, v) out. map_set out k v) kvs out = out @ kvs"
proof (induction kvs arbitrary: out)
  case (Cons kv kvs)
  obtain k v where kv: "kv = (k, v)" by force
  have "map_set out k v = out @ [(k, v)]"
    using Cons.prems unfolding kv by (induction out) auto
  with Cons.IH [of "out @ [(k, v)]"] Cons.prems kv show ?case by simp
qed simp

lemma cloneMetadata_id: "(\<And>kvs. m = Some kvs \<Longrightarrow> map_ok kvs) \<Longrightarrow> cloneMetadata m = m"
  by (cases m) (auto simp: cloneMetadata_def map_ok_def fold_map_set_distinct [of "[]", simplified])

end
