(* ===== verification/Go_Strings.thy ===== *)
theory Go_Strings
  imports Dango_Prelude
begin

text \<open>
  The functions of Go's \<^verbatim>\<open>strings\<close> package that cut text: \<^verbatim>\<open>TrimSpace\<close>,
  \<^verbatim>\<open>Fields\<close>, \<^verbatim>\<open>Join\<close>, \<^verbatim>\<open>IndexByte\<close> and \<^verbatim>\<open>LastIndex\<close>, on byte
  strings.  White space is Unicode white space, given by the UTF-8 encodings of its runes.
\<close>

definition wsRunes :: "string list" where
  "wsRunes = [[CHR '' ''], [CHR 0x09], [CHR 0x0A], [CHR 0x0B], [CHR 0x0C], [CHR 0x0D],
     [CHR 0xC2, CHR 0x85], [CHR 0xC2, CHR 0xA0], [CHR 0xE1, CHR 0x9A, CHR 0x80],
     [CHR 0xE2, CHR 0x80, CHR 0x80], [CHR 0xE2, CHR 0x80, CHR 0x81], [CHR 0xE2, CHR 0x80, CHR 0x82],
     [CHR 0xE2, CHR 0x80, CHR 0x83], [CHR 0xE2, CHR 0x80, CHR 0x84], [CHR 0xE2, CHR 0x80, CHR 0x85],
     [CHR 0xE2, CHR 0x80, CHR 0x86], [CHR 0xE2, CHR 0x80, CHR 0x87], [CHR 0xE2, CHR 0x80, CHR 0x88],
     [CHR 0xE2, CHR 0x80, CHR 0x89], [CHR 0xE2, CHR 0x80, CHR 0x8A], [CHR 0xE2, CHR 0x80, CHR 0xA8],
     [CHR 0xE2, CHR 0x80, CHR 0xA9], [CHR 0xE2, CHR 0x80, CHR 0xAF], [CHR 0xE2, CHR 0x81, CHR 0x9F],
     [CHR 0xE3, CHR 0x80, CHR 0x80]]"

text \<open>The white-space rune a text starts with, among the encodings \<open>ws\<close>.\<close>

definition leading :: "string list \<Rightarrow> string \<Rightarrow> string option" where
  "leading ws s = find (HasPrefix s) ws"

lemma leading_Some: "leading ws s = Some w \<Longrightarrow> w \<in> set ws \<and> HasPrefix s w"
  by (auto simp: leading_def find_Some_iff)

function trim_left :: "string list \<Rightarrow> string \<Rightarrow> string" where
  "trim_left ws s =
     (case leading ws s of
        None \<Rightarrow> s
      | Some w \<Rightarrow> if w = [] \<or> s = [] then s else trim_left ws (drop (length w) s))"
  by pat_completeness auto
termination
  by (relation "measure (\<lambda>(_, s). length s)") auto

declare trim_left.simps [simp del]

definition TrimSpace :: "string \<Rightarrow> string" where
  "TrimSpace s = rev (trim_left (map rev wsRunes) (rev (trim_left wsRunes s)))"

text \<open>\<^verbatim>\<open>Fields\<close>: maximal runs without white space; \<open>cur\<close> is the field being read, reversed.\<close>

function fields_loop :: "string \<Rightarrow> string \<Rightarrow> string list" where
  "fields_loop cur s =
     (if s = [] then (if cur = [] then [] else [rev cur])
      else
        (case leading wsRunes s of
           Some w \<Rightarrow>
             if w = [] then [] else (if cur = [] then [] else [rev cur]) @ fields_loop [] (drop (length w) s)
         | None \<Rightarrow> fields_loop (hd s # cur) (tl s)))"
  by pat_completeness auto
termination
  by (relation "measure (\<lambda>(_, s). length s)") auto

declare fields_loop.simps [simp del]

definition Fields :: "string \<Rightarrow> string list" where
  "Fields s = fields_loop [] s"

fun Join :: "string list \<Rightarrow> string \<Rightarrow> string" where
  "Join [] sep = []"
| "Join [x] sep = x"
| "Join (x # xs) sep = x @ sep @ Join xs sep"

definition IndexByte :: "string \<Rightarrow> char \<Rightarrow> nat option" where
  "IndexByte s c = (let i = length (takeWhile (\<lambda>x. x \<noteq> c) s) in if i < length s then Some i else None)"

fun LastIndex :: "string \<Rightarrow> string \<Rightarrow> nat option" where
  "LastIndex [] sub = (if sub = [] then Some 0 else None)"
| "LastIndex (c # cs) sub =
     (case LastIndex cs sub of
        Some i \<Rightarrow> Some (Suc i)
      | None \<Rightarrow> if HasPrefix (c # cs) sub then Some 0 else None)"

text \<open>\<^verbatim>\<open>strconv.Itoa\<close> of a natural number.\<close>

fun itoa_digits :: "nat \<Rightarrow> string" where
  "itoa_digits n = (if n < 10 then [char_of (48 + n)] else itoa_digits (n div 10) @ [char_of (48 + n mod 10)])"

declare itoa_digits.simps [simp del]

section \<open>Lemmas\<close>

lemma takeWhile_before: "c \<notin> set pre \<Longrightarrow> takeWhile (\<lambda>x. x \<noteq> c) (pre @ c # s) = pre"
  by (induction pre) auto

lemma takeWhile_absent: "c \<notin> set s \<Longrightarrow> takeWhile (\<lambda>x. x \<noteq> c) s = s"
  by (induction s) auto

lemma IndexByte_append: "c \<notin> set pre \<Longrightarrow> IndexByte (pre @ c # s) c = Some (length pre)"
  by (simp add: IndexByte_def takeWhile_before)

lemma IndexByte_None: "c \<notin> set s \<Longrightarrow> IndexByte s c = None"
  by (simp add: IndexByte_def takeWhile_absent)

lemma wsRunes_nonempty: "w \<in> set wsRunes \<Longrightarrow> w \<noteq> []"
  by (auto simp: wsRunes_def)

text \<open>Trimming before a byte that is part of no white-space rune only shortens what precedes it.\<close>

lemma prefix_before:
  assumes "HasPrefix (a @ c # b) w" and "c \<notin> set w"
  shows "length w \<le> length a"
proof (rule ccontr)
  assume "\<not> ?thesis"
  then have l: "length a < length w" by simp
  from assms(1) obtain r where "a @ c # b = w @ r" by (auto simp: HasPrefix_iff)
  then have "(a @ c # b) ! length a = w ! length a" using l by (simp add: nth_append)
  then have "c = w ! length a" by simp
  with l assms(2) show False by (metis nth_mem)
qed

lemma trim_left_before:
  assumes "\<forall>w \<in> set ws. c \<notin> set w"
  shows "\<exists>a'. trim_left ws (a @ c # b) = a' @ c # b \<and> suffix a' a"
proof (induction "length a" arbitrary: a rule: less_induct)
  case less
  let ?s = "a @ c # b"
  show ?case
  proof (cases "leading ws ?s")
    case None
    then show ?thesis by (auto simp: trim_left.simps [of ws ?s])
  next
    case (Some w)
    from leading_Some [OF Some] assms prefix_before have len: "length w \<le> length a" by blast
    show ?thesis
    proof (cases "w = []")
      case True
      with Some show ?thesis by (auto simp: trim_left.simps [of ws ?s])
    next
      case False
      have "length (drop (length w) a) < length a" using False len by (cases w) auto
      from less [OF this] obtain a' where a': "trim_left ws (drop (length w) a @ c # b) = a' @ c # b"
        "suffix a' (drop (length w) a)" by auto
      have "trim_left ws ?s = trim_left ws (drop (length w) ?s)"
        using Some False by (subst trim_left.simps) simp
      with len a' suffix_drop suffix_order.order_trans show ?thesis by fastforce
    qed
  qed
qed

lemma TrimSpace_between:
  assumes "\<forall>w \<in> set wsRunes. c \<notin> set w" "\<forall>w \<in> set wsRunes. d \<notin> set w"
  shows "\<exists>a' e'. TrimSpace (a @ c # mid @ d # e) = a' @ c # mid @ d # e' \<and> suffix a' a \<and> prefix e' e"
proof -
  from trim_left_before [OF assms(1), of a "mid @ d # e"] obtain a' where
    a': "trim_left wsRunes (a @ c # mid @ d # e) = a' @ c # mid @ d # e" "suffix a' a" by auto
  have r: "rev (a' @ c # mid @ d # e) = rev e @ d # rev (a' @ c # mid)" by simp
  have ws': "\<forall>w \<in> set (map rev wsRunes). d \<notin> set w" using assms(2) by auto
  from trim_left_before [OF ws', of "rev e" "rev (a' @ c # mid)"] obtain e' where
    e': "trim_left (map rev wsRunes) (rev e @ d # rev (a' @ c # mid)) = e' @ d # rev (a' @ c # mid)"
    "suffix e' (rev e)" by auto
  have "TrimSpace (a @ c # mid @ d # e) = rev (e' @ d # rev (a' @ c # mid))"
    unfolding TrimSpace_def a'(1) r e'(1) ..
  then have "TrimSpace (a @ c # mid @ d # e) = a' @ c # mid @ d # rev e'" by simp
  moreover have "prefix (rev e') e" using e'(2) by (simp add: suffix_to_prefix)
  ultimately show ?thesis using a'(2) by blast
qed

text \<open>Trimmed text has no white space at its ends, and newlines around it are trimmed again.\<close>

lemma trim_left_suffix: "suffix (trim_left ws s) s"
proof (induction ws s rule: trim_left.induct)
  case (1 ws s)
  show ?case
  proof (cases "\<exists>w. leading ws s = Some w \<and> w \<noteq> [] \<and> s \<noteq> []")
    case True
    then obtain w where w: "leading ws s = Some w" "w \<noteq> []" "s \<noteq> []" by blast
    then have "suffix (trim_left ws (drop (length w) s)) (drop (length w) s)" using 1 by blast
    then show ?thesis using w suffix_drop suffix_order.order_trans by (subst trim_left.simps) fastforce
  next
    case False
    then show ?thesis by (subst trim_left.simps) (auto split: option.splits)
  qed
qed

lemma trim_left_done: "[] \<notin> set ws \<Longrightarrow> leading ws (trim_left ws s) = None"
proof (induction ws s rule: trim_left.induct)
  case (1 ws s)
  show ?case
  proof (cases "leading ws s")
    case None
    then show ?thesis by (simp add: trim_left.simps [of ws s])
  next
    case (Some w)
    then have "w \<in> set ws" "HasPrefix s w" using leading_Some by blast+
    then have ne: "w \<noteq> []" "s \<noteq> []" using "1.prems" by (auto simp: HasPrefix_iff)
    then show ?thesis using "1.IH" [OF Some] Some "1.prems" by (simp add: trim_left.simps [of ws s])
  qed
qed

lemma trim_left_none: "leading ws s = None \<Longrightarrow> trim_left ws s = s"
  by (simp add: trim_left.simps)

lemma leading_prefix: "leading ws t = None" if "leading ws s = None" "prefix t s"
  using that by (auto simp: leading_def find_None_iff HasPrefix_iff prefix_def)

lemma trim_left_step:
  assumes "w \<in> set ws" "[] \<notin> set ws" "\<forall>v \<in> set ws. HasPrefix (w @ s) v \<longrightarrow> v = w"
  shows "trim_left ws (w @ s) = trim_left ws s"
proof -
  have "leading ws (w @ s) \<noteq> None" using assms(1) by (auto simp: leading_def find_None_iff HasPrefix_iff)
  then obtain v where v: "leading ws (w @ s) = Some v" by blast
  then have "v = w" using leading_Some [OF v] assms(3) by blast
  moreover have "w \<noteq> []" using assms(1,2) by auto
  ultimately show ?thesis using v by (subst trim_left.simps) simp
qed

lemma wsRunes_newline: "v \<in> set wsRunes \<Longrightarrow> CHR 0x0A \<in> set v \<Longrightarrow> v = [CHR 0x0A]"
  by (auto simp: wsRunes_def)

lemma wsRunes_no_empty: "[] \<notin> set wsRunes" "[] \<notin> set (map rev wsRunes)"
  by (auto simp: wsRunes_def)

lemma HasPrefix_head: "HasPrefix (c # s) v \<Longrightarrow> v \<noteq> [] \<Longrightarrow> c \<in> set v"
  by (cases v) (auto simp: HasPrefix_iff)

lemma trim_newline:
  "trim_left wsRunes (CHR 0x0A # s) = trim_left wsRunes s" "trim_left (map rev wsRunes) (CHR 0x0A # s) = trim_left (map rev wsRunes) s"
proof -
  have m: "[CHR 0x0A] \<in> set wsRunes" "[CHR 0x0A] \<in> set (map rev wsRunes)" by (simp_all add: wsRunes_def)
  have one: "v = [CHR 0x0A]" if "v \<in> set wsRunes" "HasPrefix (CHR 0x0A # s) v" for v
    using wsRunes_newline [OF that(1)] HasPrefix_head [OF that(2)] that(1) wsRunes_no_empty(1) by metis
  have two: "v = [CHR 0x0A]" if v: "v \<in> set (map rev wsRunes)" "HasPrefix (CHR 0x0A # s) v" for v
  proof -
    obtain u where u: "u \<in> set wsRunes" "v = rev u" using v(1) by auto
    moreover have "CHR 0x0A \<in> set v" using HasPrefix_head [OF v(2)] v(1) wsRunes_no_empty(2) by metis
    ultimately show ?thesis using wsRunes_newline [of u] by simp
  qed
  show "trim_left wsRunes (CHR 0x0A # s) = trim_left wsRunes s"
    using trim_left_step [OF m(1) wsRunes_no_empty(1), of s] one by simp
  show "trim_left (map rev wsRunes) (CHR 0x0A # s) = trim_left (map rev wsRunes) s"
    using trim_left_step [OF m(2) wsRunes_no_empty(2), of s] two by simp
qed

lemma TrimSpace_ends:
  "leading wsRunes (TrimSpace s) = None" "leading (map rev wsRunes) (rev (TrimSpace s)) = None"
proof -
  let ?u = "trim_left wsRunes s"
  have "suffix (trim_left (map rev wsRunes) (rev ?u)) (rev ?u)" by (rule trim_left_suffix)
  then have "prefix (TrimSpace s) ?u" by (simp add: TrimSpace_def suffix_to_prefix)
  then show "leading wsRunes (TrimSpace s) = None" using leading_prefix trim_left_done [OF wsRunes_no_empty(1)] by blast
  show "leading (map rev wsRunes) (rev (TrimSpace s)) = None"
    using trim_left_done [OF wsRunes_no_empty(2)] by (simp add: TrimSpace_def)
qed

lemma TrimSpace_idem: "TrimSpace (TrimSpace s) = TrimSpace s"
  using TrimSpace_ends [of s] by (simp add: TrimSpace_def [of "TrimSpace s"] trim_left_none)

lemma TrimSpace_newlines: "TrimSpace (CHR 0x0A # TrimSpace s @ [CHR 0x0A]) = TrimSpace s"
proof (cases "TrimSpace s = []")
  case False
  let ?t = "TrimSpace s"
  have "leading wsRunes (?t @ [CHR 0x0A]) = None"
  proof (rule ccontr)
    assume "leading wsRunes (?t @ [CHR 0x0A]) \<noteq> None"
    then obtain w where w: "w \<in> set wsRunes" "HasPrefix (?t @ [CHR 0x0A]) w" using leading_Some by blast
    have "\<not> HasPrefix ?t w" using TrimSpace_ends(1) [of s] w(1) by (auto simp: leading_def find_None_iff)
    then have "w = ?t @ [CHR 0x0A]" using w(2) by (auto simp: HasPrefix_iff append_eq_append_conv2 append_eq_Cons_conv Cons_eq_append_conv)
    then show False using wsRunes_newline [OF w(1)] False by simp
  qed
  then show ?thesis using TrimSpace_ends(2) [of s] by (simp add: TrimSpace_def [of "_ # _"] trim_newline trim_left_none)
next
  case True
  have "leading wsRunes [] = None" "leading (map rev wsRunes) [] = None" by (simp_all add: leading_def find_None_iff wsRunes_def HasPrefix_iff)
  then show ?thesis using True by (simp add: TrimSpace_def [of "_ # _"] trim_newline trim_left_none)
qed

lemma Join_length_single: "Join xs [c] = [] \<longleftrightarrow> xs = [] \<or> xs = [[]]"
  by (induction xs "[c]" rule: Join.induct) auto

end
