(* ===== verification/Stream_Bundle.thy ===== *)
theory Stream_Bundle
  imports Stream_Event Go_Strings
begin

text \<open>
  \<^verbatim>\<open>stream/bundle.go\<close> and the frame data of \<^verbatim>\<open>stream/frame.go\<close>: merge
  bundles, their expansion into logical events, and the metadata a merged event carries.

  The JSON encoding of a batch is a parameter \<open>codec\<close>: \<^verbatim>\<open>json.Marshal\<close> and
  \<^verbatim>\<open>json.Unmarshal\<close> of the struct \<^verbatim>\<open>EventBatch\<close>.  What the code relies on
  is \<open>codec_roundtrip\<close>: a batch of marshalable events encodes to valid JSON and decodes to
  a batch with the same tick and, position by position, events with the same type, source,
  numbers, status, time and scope, whose delta is the compacted text of the delta
  (\<open>json_compact\<close>: \<^verbatim>\<open>json.Marshal\<close> compacts a raw message and escapes the HTML
  characters) and whose metadata has the same keys and strings; the text of any other metadata value
  is read as an \<^verbatim>\<open>any\<close>, by the parameter \<open>rd\<close>.
\<close>

section \<open>Batches\<close>

record event_batch =
  TickID :: u64
  Events :: "event list"

record codec =
  encode :: "event_batch \<Rightarrow> bytes option"
  decode :: "bytes \<Rightarrow> event_batch option"

definition EncodeEventBatch :: "codec \<Rightarrow> event_batch \<Rightarrow> (stream_error, bytes) result" where
  "EncodeEventBatch cd bundle =
     (case encode cd bundle of None \<Rightarrow> Inl ErrEncodeBatch | Some d \<Rightarrow> Inr d)"

definition DecodeEventBatch :: "codec \<Rightarrow> bytes option \<Rightarrow> (stream_error, event_batch) result" where
  "DecodeEventBatch cd delta =
     (case Option.bind delta (decode cd) of None \<Rightarrow> Inl ErrDecodeBatch | Some b \<Rightarrow> Inr b)"

definition isValidEventBatch :: "event_batch \<Rightarrow> bool" where
  "isValidEventBatch bundle \<longleftrightarrow> 0 < length (Events bundle)"

definition ExpandBundleEvent :: "codec \<Rightarrow> event \<Rightarrow> (stream_error, event list) result" where
  "ExpandBundleEvent cd event =
     (if EventType event \<noteq> EventMergeBundle then Inr [event]
      else (case DecodeEventBatch cd (Delta event) of
          Inl e \<Rightarrow> Inl e
        | Inr bundle \<Rightarrow>
            if \<not> isValidEventBatch bundle then Inl ErrEmptyBatch
            else Inr (map (\<lambda>e. e\<lparr>Scope := mergeScope (Scope event) (Scope e)\<rparr>) (Events bundle))))"

definition FilterBundleEvent ::
  "codec \<Rightarrow> event \<Rightarrow> event_filter \<Rightarrow> (stream_error, event list) result" where
  "FilterBundleEvent cd event flt =
     (case ExpandBundleEvent cd event of
        Inl e \<Rightarrow> Inl e
      | Inr events \<Rightarrow> Inr (filter (Match flt) events))"

section \<open>Frames\<close>

record delivery_frame =
  frame_TickID :: u64
  frame_Events :: "event list"

definition upstream_key :: string where
  "upstream_key = ''upstream_sequence_number''"

definition prepareMergedEvent :: "event \<Rightarrow> event" where
  "prepareMergedEvent event =
     (let upstreamSequence = SequenceNumber event;
          metadata = (case cloneMetadata (Metadata event) of None \<Rightarrow> [] | Some m \<Rightarrow> m);
          metadata = map_set metadata upstream_key (AnyUint upstreamSequence)
      in event\<lparr>SequenceNumber := 0, Metadata := Some metadata\<rparr>)"

definition prepareBundledMergedEvent :: "event \<Rightarrow> scope \<Rightarrow> event" where
  "prepareBundledMergedEvent event downstreamScope =
     (let event = prepareMergedEvent event
      in event\<lparr>Scope := mergeScope downstreamScope (Scope event)\<rparr>)"

definition normalizeDirectFrame :: "event \<Rightarrow> delivery_frame" where
  "normalizeDirectFrame event =
     \<lparr>frame_TickID = 0, frame_Events = [prepareMergedEvent event]\<rparr>"

definition normalizeTickFrame :: "event list \<Rightarrow> u64 \<Rightarrow> delivery_frame" where
  "normalizeTickFrame items tickID = \<lparr>frame_TickID = tickID, frame_Events = items\<rparr>"

section \<open>The codec contract\<close>

definition same_envelope :: "event \<Rightarrow> event \<Rightarrow> bool" where
  "same_envelope a b \<longleftrightarrow>
     EventType a = EventType b \<and> From a = From b \<and> SequenceNumber a = SequenceNumber b
     \<and> Status a = Status b \<and> LogicalTime a = LogicalTime b \<and> Timestamp a = Timestamp b
     \<and> Scope a = Scope b"

text \<open>\<^verbatim>\<open>json.Marshal\<close> of a raw message: white space outside strings is dropped, and the
  characters \<^verbatim>\<open><\<close>, \<^verbatim>\<open>>\<close>, \<^verbatim>\<open>&\<close> and the two Unicode line separators are
  escaped.  The state says whether the text is inside a string, and behind a backslash there.\<close>

datatype compact_state = OutsideString | InsideString | BehindBackslash

fun compact_next :: "compact_state \<Rightarrow> char \<Rightarrow> compact_state" where
  "compact_next OutsideString c = (if c = quote then InsideString else OutsideString)"
| "compact_next InsideString c =
     (if c = quote then OutsideString else if c = backslash then BehindBackslash else InsideString)"
| "compact_next BehindBackslash c = InsideString"

fun compact_from :: "compact_state \<Rightarrow> bytes \<Rightarrow> bytes" where
  "compact_from st [] = []"
| "compact_from st (c # cs) =
     (if c = CHR ''<'' then backslash # ''u003c'' @ compact_from (compact_next st c) cs
      else if c = CHR ''>'' then backslash # ''u003e'' @ compact_from (compact_next st c) cs
      else if c = CHR ''&'' then backslash # ''u0026'' @ compact_from (compact_next st c) cs
      else if c = CHR 0xE2 \<and> take 2 cs = [CHR 0x80, CHR 0xA8]
        then backslash # ''u2028'' @ compact_from (compact_next st c) (drop 2 cs)
      else if c = CHR 0xE2 \<and> take 2 cs = [CHR 0x80, CHR 0xA9]
        then backslash # ''u2029'' @ compact_from (compact_next st c) (drop 2 cs)
      else if st = OutsideString \<and> isSpace c then compact_from st cs
      else c # compact_from (compact_next st c) cs)"

definition json_compact :: "bytes \<Rightarrow> bytes" where
  "json_compact = compact_from OutsideString"

text \<open>What a decoded event has of the payload of the encoded one.  \<open>rd\<close> is
  \<^verbatim>\<open>json.Unmarshal\<close> of a text into an \<^verbatim>\<open>any\<close>.\<close>

fun reread :: "(bytes \<Rightarrow> any_val) \<Rightarrow> any_val \<Rightarrow> any_val" where
  "reread rd (AnyUint n) = rd (itoa_digits (unat n))"
| "reread rd (AnyString s) = AnyString s"
| "reread rd (AnyJSON b) = rd b"
| "reread rd AnyUnmarshalable = AnyUnmarshalable"

definition metadata_get :: "event \<Rightarrow> string \<Rightarrow> any_val option" where
  "metadata_get ev k = Option.bind (Metadata ev) (\<lambda>kvs. map_get kvs k)"

definition same_payload :: "(bytes \<Rightarrow> any_val) \<Rightarrow> event \<Rightarrow> event \<Rightarrow> bool" where
  "same_payload rd a b \<longleftrightarrow>
     Delta a = Some (case Delta b of None \<Rightarrow> ''null'' | Some d \<Rightarrow> json_compact d)
     \<and> (\<forall>k. metadata_get a k = map_option (reread rd) (metadata_get b k))"

definition same_event :: "(bytes \<Rightarrow> any_val) \<Rightarrow> event \<Rightarrow> event \<Rightarrow> bool" where
  "same_event rd a b \<longleftrightarrow> same_envelope a b \<and> same_payload rd a b"

definition codec_roundtrip :: "codec \<Rightarrow> (bytes \<Rightarrow> any_val) \<Rightarrow> event_batch \<Rightarrow> bool" where
  "codec_roundtrip cd rd b \<longleftrightarrow>
     (\<exists>d b'. encode cd b = Some d \<and> json_Valid d \<and> decode cd d = Some b'
        \<and> TickID b' = TickID b \<and> list_all2 (same_event rd) (Events b') (Events b))"

section \<open>Lemmas\<close>

lemma Match_same_event: "same_event rd a b \<Longrightarrow> Match f a = Match f b"
  by (simp add: same_event_def same_envelope_def Match_def)

lemma same_event_scope: "same_event rd a b \<Longrightarrow> same_event rd (a\<lparr>Scope := sc\<rparr>) (b\<lparr>Scope := sc\<rparr>)"
  by (simp add: same_event_def same_envelope_def same_payload_def metadata_get_def)

lemma prepareMergedEvent_simps [simp]:
  "EventType (prepareMergedEvent e) = EventType e" "From (prepareMergedEvent e) = From e"
  "Status (prepareMergedEvent e) = Status e" "Delta (prepareMergedEvent e) = Delta e"
  "Scope (prepareMergedEvent e) = Scope e" "SequenceNumber (prepareMergedEvent e) = 0"
  "Timestamp (prepareMergedEvent e) = Timestamp e" "LogicalTime (prepareMergedEvent e) = LogicalTime e"
  by (simp_all add: prepareMergedEvent_def Let_def)

lemma prepareBundledMergedEvent_simps [simp]:
  "EventType (prepareBundledMergedEvent e sc) = EventType e"
  "From (prepareBundledMergedEvent e sc) = From e"
  "Status (prepareBundledMergedEvent e sc) = Status e"
  "Delta (prepareBundledMergedEvent e sc) = Delta e"
  "Scope (prepareBundledMergedEvent e sc) = mergeScope sc (Scope e)"
  "SequenceNumber (prepareBundledMergedEvent e sc) = 0"
  by (simp_all add: prepareBundledMergedEvent_def Let_def)

lemma prepareMergedEvent_upstream:
  "\<exists>m. Metadata (prepareMergedEvent e) = Some m
     \<and> map_get m upstream_key = Some (AnyUint (SequenceNumber e))"
  by (simp add: prepareMergedEvent_def Let_def)

lemma Expand_plain [simp]:
  "EventType e \<noteq> EventMergeBundle \<Longrightarrow> ExpandBundleEvent cd e = Inr [e]"
  by (simp add: ExpandBundleEvent_def)

lemma Filter_plain:
  "EventType e \<noteq> EventMergeBundle \<Longrightarrow>
   FilterBundleEvent cd e f = Inr (if Match f e then [e] else [])"
  by (simp add: FilterBundleEvent_def)

lemma Expand_nonempty: "ExpandBundleEvent cd e = Inr es \<Longrightarrow> es \<noteq> []"
  by (auto simp: ExpandBundleEvent_def isValidEventBatch_def split: if_splits sum.splits)

lemma Expand_encoded:
  assumes "codec_roundtrip cd rd b" and "Events b \<noteq> []" and "encode cd b = Some d"
    and "EventType e = EventMergeBundle" and "Delta e = Some d"
  shows "\<exists>es. ExpandBundleEvent cd e = Inr es
     \<and> list_all2 (\<lambda>x y. same_event rd x (y\<lparr>Scope := mergeScope (Scope e) (Scope y)\<rparr>)) es (Events b)"
proof -
  from assms(1,3) obtain b' where b': "decode cd d = Some b'"
    and env: "list_all2 (same_event rd) (Events b') (Events b)"
    by (auto simp: codec_roundtrip_def)
  from env assms(2) have ne: "Events b' \<noteq> []" by auto
  let ?up = "\<lambda>x. x\<lparr>Scope := mergeScope (Scope e) (Scope x)\<rparr>"
  have "ExpandBundleEvent cd e = Inr (map ?up (Events b'))"
    using assms(4,5) b' ne by (simp add: ExpandBundleEvent_def DecodeEventBatch_def isValidEventBatch_def)
  moreover have "list_all2 (\<lambda>x y. same_event rd x (?up y)) (map ?up (Events b')) (Events b)"
    unfolding list.rel_map using env
    by (rule list.rel_mono_strong) (auto simp: same_event_def same_envelope_def same_payload_def metadata_get_def)
  ultimately show ?thesis by blast
qed

lemma Filter_same_event:
  assumes "list_all2 (\<lambda>x y. same_event rd x (g y)) es ys"
  shows "list_all2 (\<lambda>x y. same_event rd x (g y)) (filter (Match f) es)
     (filter (\<lambda>y. Match f (g y)) ys)"
  using assms by (induction rule: list_all2_induct) (auto simp: Match_same_event)

end
