(* ===== verification/Stream_Core.thy ===== *)
theory Stream_Core
  imports Stream_Bundle
begin

text \<open>
  \<^verbatim>\<open>stream/stream.go\<close>, \<^verbatim>\<open>stream/subscription.go\<close>, \<^verbatim>\<open>stream/writer.go\<close>
  and \<^verbatim>\<open>emitFrame\<close> of \<^verbatim>\<open>stream/frame.go\<close>: the event bus itself.

  \<^verbatim>\<open>Emit\<close>, \<^verbatim>\<open>Subscribe\<close>, \<^verbatim>\<open>Replay\<close> and the second half of
  \<^verbatim>\<open>Cancel\<close> and \<^verbatim>\<open>Close\<close> run under \<^verbatim>\<open>deliveryMu\<close>, so each is one
  state transformer here; the first halves of \<^verbatim>\<open>Cancel\<close> and \<^verbatim>\<open>Close\<close>, which
  close the done channels without that lock, are transformers of their own, so that every
  interleaving with an \<^verbatim>\<open>Emit\<close> is expressible.

  Subscription objects outlive their registration, so the state keeps a store \<open>subs\<close> of all
  objects ever created beside the ids \<open>subscribers\<close> that are attached.  A subscription's
  channel is its queue of undelivered events, its capacity, and the number of goroutines
  blocked in \<^verbatim>\<open>Next\<close> (an unbuffered send needs one).  Go's \<^verbatim>\<open>select\<close> picks any
  ready case: the pick is an argument, and theorems hold for every pick.  A call that would
  wait for a lock its own goroutine holds never returns; that is the value \<open>None\<close>.
\<close>

section \<open>Data\<close>

definition defaultBufferLimit :: nat where "defaultBufferLimit = 1024"
definition defaultSubscriberBuffer :: int where "defaultSubscriberBuffer = 16"

definition OverflowDropNewest :: string where "OverflowDropNewest = ''drop_newest''"
definition OverflowError :: string where "OverflowError = ''error''"

record config =
  BufferLimit :: int
  DisableBuffer :: bool

definition DefaultConfig :: config where
  "DefaultConfig = \<lparr>BufferLimit = int defaultBufferLimit, DisableBuffer = False\<rparr>"

record subscribe_settings =
  replayFrom :: u64
  replayLast :: int
  noReplay :: bool
  sub_buffer :: int
  set_overflowPolicy :: string
  rawStream :: bool

record subscription =
  sub_filter :: event_filter
  expanded :: bool
  queue :: "event list"
  capacity :: nat
  receivers :: nat
  done_closed :: bool
  events_closed :: bool
  overflowPolicy :: string

record stream =
  st_scope :: scope
  bufferLimit :: nat
  nextSeq :: u64
  nextLogicalTime :: u64
  nextSubID :: u64
  closed :: bool
  buffer :: "event list"
  subs :: "(u64, subscription) gomap"
  subscribers :: "u64 list"

definition New :: "scope \<Rightarrow> config \<Rightarrow> stream" where
  "New sc cfg =
     \<lparr>st_scope = sc,
      bufferLimit = (if DisableBuffer cfg then 0
                     else if BufferLimit cfg > 0 then nat (BufferLimit cfg)
                     else defaultBufferLimit),
      nextSeq = 0, nextLogicalTime = 0, nextSubID = 0, closed = False, buffer = [],
      subs = [], subscribers = []\<rparr>"

section \<open>Subscribe options\<close>

datatype subscribe_option =
    WithReplayFrom u64
  | WithReplayLast int
  | WithNoReplay
  | WithSubscriberBuffer int
  | WithOverflowPolicy string
  | WithRawStream

fun apply_option :: "subscribe_option \<Rightarrow> subscribe_settings \<Rightarrow> subscribe_settings" where
  "apply_option (WithReplayFrom sequence) st = st\<lparr>replayFrom := sequence, noReplay := False\<rparr>"
| "apply_option (WithReplayLast n) st =
     st\<lparr>replayLast := (if n < 0 then 0 else n), noReplay := False\<rparr>"
| "apply_option WithNoReplay st = st\<lparr>noReplay := True\<rparr>"
| "apply_option (WithSubscriberBuffer n) st = st\<lparr>sub_buffer := n\<rparr>"
| "apply_option (WithOverflowPolicy p) st = st\<lparr>set_overflowPolicy := p\<rparr>"
| "apply_option WithRawStream st = st\<lparr>rawStream := True\<rparr>"

definition zero_settings :: subscribe_settings where
  "zero_settings = \<lparr>replayFrom = 0, replayLast = 0, noReplay = False, sub_buffer = 0,
     set_overflowPolicy = [], rawStream = False\<rparr>"

section \<open>Sending to one subscription\<close>

datatype select_case = SelSend | SelDone | SelCtx

datatype send_outcome = SendOk | SendDone | SendCtx ctx_error | SendFull | SendPanic

definition select_pick :: "nat \<Rightarrow> 'a list \<Rightarrow> 'a option" where
  "select_pick k ready = (if ready = [] then None else Some (ready ! (k mod length ready)))"

definition has_room :: "subscription \<Rightarrow> bool" where
  "has_room sub \<longleftrightarrow> length (queue sub) < capacity sub + receivers sub"

definition send_ready :: "ctx_error option \<Rightarrow> subscription \<Rightarrow> select_case list" where
  "send_ready ctx sub =
     (if has_room sub \<or> events_closed sub then [SelSend] else [])
     @ (if done_closed sub then [SelDone] else [])
     @ (case ctx of None \<Rightarrow> [] | Some _ \<Rightarrow> [SelCtx])"

text \<open>One \<^verbatim>\<open>select\<close> with a default branch; sending on a closed channel panics.\<close>

definition send_select ::
  "nat \<Rightarrow> ctx_error option \<Rightarrow> subscription \<Rightarrow> event \<Rightarrow> send_outcome \<times> subscription" where
  "send_select k ctx sub event =
     (case select_pick k (send_ready ctx sub) of
        None \<Rightarrow> (SendFull, sub)
      | Some SelSend \<Rightarrow>
          if events_closed sub then (SendPanic, sub)
          else (SendOk, sub\<lparr>queue := queue sub @ [event]\<rparr>)
      | Some SelDone \<Rightarrow> (SendDone, sub)
      | Some SelCtx \<Rightarrow> (SendCtx (the ctx), sub))"

datatype send_result = SrOk | SrErr stream_error | SrPanic

fun send_all ::
  "(nat \<Rightarrow> nat) \<Rightarrow> ctx_error option \<Rightarrow> nat \<Rightarrow> subscription \<Rightarrow> event list \<Rightarrow> send_result \<times> subscription" where
  "send_all ch ctx i sub [] = (SrOk, sub)"
| "send_all ch ctx i sub (e # es) =
     (case send_select (ch i) ctx sub e of
        (SendOk, sub') \<Rightarrow> send_all ch ctx (Suc i) sub' es
      | (SendDone, sub') \<Rightarrow> (SrOk, sub')
      | (SendCtx err, sub') \<Rightarrow> (SrErr (ErrCtx err), sub')
      | (SendFull, sub') \<Rightarrow>
          if overflowPolicy sub = OverflowError then (SrErr ErrSubscriberOverflow, sub')
          else send_all ch ctx (Suc i) sub' es
      | (SendPanic, sub') \<Rightarrow> (SrPanic, sub'))"

definition sendExpanded ::
  "codec \<Rightarrow> (nat \<Rightarrow> nat) \<Rightarrow> ctx_error option \<Rightarrow> subscription \<Rightarrow> event \<Rightarrow> send_result \<times> subscription" where
  "sendExpanded cd ch ctx sub event =
     (case FilterBundleEvent cd event (sub_filter sub) of
        Inl e \<Rightarrow> (SrErr e, sub)
      | Inr events \<Rightarrow> send_all ch ctx 0 sub events)"

definition send ::
  "codec \<Rightarrow> (nat \<Rightarrow> nat) \<Rightarrow> ctx_error option \<Rightarrow> subscription \<Rightarrow> event \<Rightarrow> send_result \<times> subscription" where
  "send cd ch ctx sub event =
     (if expanded sub \<and> EventType event = EventMergeBundle then sendExpanded cd ch ctx sub event
      else (case send_select (ch 0) ctx sub event of
          (SendOk, sub') \<Rightarrow> (SrOk, sub')
        | (SendDone, sub') \<Rightarrow> (SrOk, sub')
        | (SendCtx err, sub') \<Rightarrow> (SrErr (ErrCtx err), sub')
        | (SendFull, sub') \<Rightarrow>
            if overflowPolicy sub = OverflowError then (SrErr ErrSubscriberOverflow, sub')
            else (SrOk, sub')
        | (SendPanic, sub') \<Rightarrow> (SrPanic, sub')))"

section \<open>Emit\<close>

definition appendBufferLocked :: "stream \<Rightarrow> event \<Rightarrow> stream" where
  "appendBufferLocked s event =
     (if bufferLimit s = 0 then s
      else if length (buffer s) = bufferLimit s then s\<lparr>buffer := tl (buffer s) @ [event]\<rparr>
      else s\<lparr>buffer := buffer s @ [event]\<rparr>)"

definition sub_matches :: "stream \<Rightarrow> event \<Rightarrow> u64 \<Rightarrow> bool" where
  "sub_matches s prepared sid =
     (case map_get (subs s) sid of
        None \<Rightarrow> False
      | Some sub \<Rightarrow>
          if expanded sub \<and> EventType prepared = EventMergeBundle then True
          else Match (sub_filter sub) prepared)"

fun deliver ::
  "codec \<Rightarrow> (u64 \<Rightarrow> nat \<Rightarrow> nat) \<Rightarrow> ctx_error option \<Rightarrow> event \<Rightarrow> u64 list \<Rightarrow> stream \<Rightarrow> send_result \<times> stream" where
  "deliver cd sched ctx prepared [] s = (SrOk, s)"
| "deliver cd sched ctx prepared (sid # ids) s =
     (case map_get (subs s) sid of
        None \<Rightarrow> deliver cd sched ctx prepared ids s
      | Some sub \<Rightarrow>
          (case send cd (sched sid) ctx sub prepared of
             (SrOk, sub') \<Rightarrow>
               deliver cd sched ctx prepared ids (s\<lparr>subs := map_set (subs s) sid sub'\<rparr>)
           | (r, sub') \<Rightarrow> (r, s\<lparr>subs := map_set (subs s) sid sub'\<rparr>)))"

definition Emit ::
  "codec \<Rightarrow> (u64 \<Rightarrow> nat \<Rightarrow> nat) \<Rightarrow> ctx_error option \<Rightarrow> time \<Rightarrow> stream \<Rightarrow> event \<Rightarrow> send_result \<times> stream" where
  "Emit cd sched ctx now s event =
     (if closed s then (SrErr ErrClosed, s)
      else
        let sequence = nextSeq s + 1;
            logicalTime = nextLogicalTime s + 1
        in (case prepare event (st_scope s) sequence logicalTime now of
              Inl e \<Rightarrow> (SrErr e, s)
            | Inr prepared \<Rightarrow>
                let matches = filter (sub_matches s prepared) (subscribers s);
                    s = appendBufferLocked
                          (s\<lparr>nextSeq := sequence, nextLogicalTime := logicalTime\<rparr>) prepared
                in deliver cd sched ctx prepared matches s))"

section \<open>Replay\<close>

definition oldestBufferedSequenceLocked :: "stream \<Rightarrow> u64" where
  "oldestBufferedSequenceLocked s =
     (if length (buffer s) = 0 then 0 else SequenceNumber (buffer s ! 0))"

definition defaultReplayStartLocked :: "stream \<Rightarrow> u64" where
  "defaultReplayStartLocked s =
     (let oldest = oldestBufferedSequenceLocked s in
      if oldest > 0 then oldest
      else if bufferLimit s = 0 \<or> nextSeq s = 0 then 0
      else let limit = of_nat (bufferLimit s) in
        if nextSeq s > limit then nextSeq s - limit + 1 else 1)"

definition replayStartLocked :: "stream \<Rightarrow> subscribe_settings \<Rightarrow> u64" where
  "replayStartLocked s settings =
     (if noReplay settings then 0
      else if replayFrom settings = 0 \<and> replayLast settings = 0 then defaultReplayStartLocked s
      else
        let from = replayFrom settings in
        if replayLast settings > 0 \<and> nextSeq s > 0 then
          let last = of_int (replayLast settings);
              lastFrom = (if nextSeq s \<ge> last then nextSeq s - last + 1 else 1)
          in if lastFrom > from then lastFrom else from
        else from)"

definition replayLocked :: "stream \<Rightarrow> event_filter \<Rightarrow> subscribe_settings \<Rightarrow> event list" where
  "replayLocked s flt settings =
     (let from = replayStartLocked s settings in
      if from = 0 then []
      else filter (\<lambda>ev. \<not> SequenceNumber ev < from \<and> Match flt ev) (buffer s))"

fun filter_bundles ::
  "codec \<Rightarrow> event_filter \<Rightarrow> event list \<Rightarrow> event list \<Rightarrow> (stream_error, event list) result" where
  "filter_bundles cd flt res [] = Inr res"
| "filter_bundles cd flt res (e # es) =
     (case FilterBundleEvent cd e flt of
        Inl err \<Rightarrow> Inl err
      | Inr events \<Rightarrow> filter_bundles cd flt (res @ events) es)"

definition replayLogicalLocked ::
  "codec \<Rightarrow> stream \<Rightarrow> event_filter \<Rightarrow> subscribe_settings \<Rightarrow> (stream_error, event list) result" where
  "replayLogicalLocked cd s flt settings =
     filter_bundles cd flt [] (replayLocked s empty_filter settings)"

definition replay_for ::
  "codec \<Rightarrow> stream \<Rightarrow> event_filter \<Rightarrow> subscribe_settings \<Rightarrow> (stream_error, event list) result" where
  "replay_for cd s flt settings =
     (if rawStream settings then Inr (replayLocked s flt settings)
      else replayLogicalLocked cd s flt settings)"

definition Replay ::
  "codec \<Rightarrow> stream \<Rightarrow> event_filter \<Rightarrow> subscribe_option list \<Rightarrow> (stream_error, event list) result" where
  "Replay cd s flt opts = replay_for cd s flt (fold apply_option opts zero_settings)"

section \<open>Cancel, Close, Subscribe, Next\<close>

definition upd_sub :: "u64 \<Rightarrow> (subscription \<Rightarrow> subscription) \<Rightarrow> stream \<Rightarrow> stream" where
  "upd_sub sid f s =
     (case map_get (subs s) sid of None \<Rightarrow> s | Some sub \<Rightarrow> s\<lparr>subs := map_set (subs s) sid (f sub)\<rparr>)"

definition closeDone :: "subscription \<Rightarrow> subscription" where
  "closeDone sub = sub\<lparr>done_closed := True\<rparr>"

definition closeEvents :: "subscription \<Rightarrow> subscription" where
  "closeEvents sub = sub\<lparr>events_closed := True\<rparr>"

definition Cancel_locked :: "u64 \<Rightarrow> stream \<Rightarrow> stream" where
  "Cancel_locked sid s = upd_sub sid closeEvents (s\<lparr>subscribers := removeAll sid (subscribers s)\<rparr>)"

text \<open>\<open>held\<close>: the calling goroutine already owns \<^verbatim>\<open>deliveryMu\<close>.\<close>

definition Cancel :: "bool \<Rightarrow> u64 \<Rightarrow> stream \<Rightarrow> stream option" where
  "Cancel held sid s =
     (let s = upd_sub sid closeDone s in if held then None else Some (Cancel_locked sid s))"

definition Close_begin :: "stream \<Rightarrow> stream" where
  "Close_begin s =
     (if closed s then s else fold (\<lambda>sid. upd_sub sid closeDone) (subscribers s) (s\<lparr>closed := True\<rparr>))"

definition Close_end :: "u64 list \<Rightarrow> stream \<Rightarrow> stream" where
  "Close_end ids s =
     fold (\<lambda>sid s. upd_sub sid closeEvents (s\<lparr>subscribers := removeAll sid (subscribers s)\<rparr>)) ids s"

definition Close :: "stream \<Rightarrow> stream" where
  "Close s = (if closed s then s else Close_end (subscribers s) (Close_begin s))"

fun catch_up ::
  "codec \<Rightarrow> (nat \<Rightarrow> nat) \<Rightarrow> u64 \<Rightarrow> stream \<Rightarrow> event list \<Rightarrow> (stream_error, u64) result option \<times> stream" where
  "catch_up cd ch sid s [] = (Some (Inr sid), s)"
| "catch_up cd ch sid s (e # es) =
     (case map_get (subs s) sid of
        None \<Rightarrow> (Some (Inr sid), s)
      | Some sub \<Rightarrow>
          (case send cd ch None sub e of
             (SrOk, sub') \<Rightarrow> catch_up cd ch sid (s\<lparr>subs := map_set (subs s) sid sub'\<rparr>) es
           | (SrErr err, sub') \<Rightarrow>
               (case Cancel True sid (s\<lparr>subs := map_set (subs s) sid sub'\<rparr>) of
                  None \<Rightarrow> (None, upd_sub sid closeDone (s\<lparr>subs := map_set (subs s) sid sub'\<rparr>))
                | Some s' \<Rightarrow> (Some (Inl err), s'))
           | (SrPanic, sub') \<Rightarrow> (None, s)))"

text \<open>
  The result is \<open>None\<close> when the call never returns; otherwise the error or the new
  subscription's sid.
\<close>

definition Subscribe ::
  "codec \<Rightarrow> (nat \<Rightarrow> nat) \<Rightarrow> stream \<Rightarrow> event_filter \<Rightarrow> subscribe_option list
     \<Rightarrow> (stream_error, u64) result option \<times> stream" where
  "Subscribe cd ch s flt opts =
     (let settings = zero_settings\<lparr>sub_buffer := defaultSubscriberBuffer,
                                   set_overflowPolicy := OverflowDropNewest\<rparr>;
          settings = fold apply_option opts settings;
          settings = (if sub_buffer settings < 0 then settings\<lparr>sub_buffer := 0\<rparr> else settings)
      in if closed s then (Some (Inl ErrClosed), s)
         else
           let sid = nextSubID s + 1 in
           (case replay_for cd s flt settings of
              Inl err \<Rightarrow> (Some (Inl err), s)
            | Inr replay \<Rightarrow>
                let buf = nat (sub_buffer settings);
                    buf = (if rawStream settings \<and> buf < length replay then length replay else buf);
                    sub = \<lparr>sub_filter = flt, expanded = \<not> rawStream settings, queue = [],
                           capacity = buf, receivers = 0, done_closed = False, events_closed = False,
                           overflowPolicy = set_overflowPolicy settings\<rparr>
                in catch_up cd ch sid
                     (s\<lparr>nextSubID := sid, subs := map_set (subs s) sid sub,
                        subscribers := subscribers s @ [sid]\<rparr>) replay))"

datatype next_result = NextEvent event | NextClosed | NextErr ctx_error | NextBlock

text \<open>\<open>Next\<close>: receive, or see the context's end; \<open>NextBlock\<close> while neither is ready.\<close>

definition Next ::
  "nat \<Rightarrow> ctx_error option \<Rightarrow> subscription \<Rightarrow> next_result \<times> subscription" where
  "Next k ctx sub =
     (case select_pick k
             ((if queue sub \<noteq> [] \<or> events_closed sub then [SelSend] else [])
              @ (case ctx of None \<Rightarrow> [] | Some _ \<Rightarrow> [SelCtx])) of
        None \<Rightarrow> (NextBlock, sub)
      | Some SelSend \<Rightarrow>
          (case queue sub of
             [] \<Rightarrow> (NextClosed, sub)
           | e # es \<Rightarrow> (NextEvent e, sub\<lparr>queue := es\<rparr>))
      | Some SelDone \<Rightarrow> (NextBlock, sub)
      | Some SelCtx \<Rightarrow> (NextErr (the ctx), sub))"

section \<open>Frames and writers\<close>

definition emitFrame ::
  "codec \<Rightarrow> (u64 \<Rightarrow> nat \<Rightarrow> nat) \<Rightarrow> ctx_error option \<Rightarrow> time \<Rightarrow> stream \<Rightarrow> delivery_frame
     \<Rightarrow> send_result \<times> stream" where
  "emitFrame cd sched ctx now downstream frame =
     (if length (frame_Events frame) = 0 then (SrOk, downstream)
      else if length (frame_Events frame) = 1 \<and> frame_TickID frame = 0
      then Emit cd sched ctx now downstream (frame_Events frame ! 0)
      else
        (case EncodeEventBatch cd \<lparr>TickID = frame_TickID frame, Events = frame_Events frame\<rparr> of
           Inl e \<Rightarrow> (SrErr e, downstream)
         | Inr delta \<Rightarrow>
             Emit cd sched ctx now downstream
               (zero_event\<lparr>EventType := EventMergeBundle,
                           From := empty_source\<lparr>Layer := ''hub''\<rparr>,
                           Status := StatusCompleted, Delta := Some delta\<rparr>)))"

definition Writer_Emit ::
  "codec \<Rightarrow> (u64 \<Rightarrow> nat \<Rightarrow> nat) \<Rightarrow> ctx_error option \<Rightarrow> time \<Rightarrow> source \<Rightarrow> string option \<Rightarrow> stream
     \<Rightarrow> string \<Rightarrow> delta_arg \<Rightarrow> (string, any_val) gomap option \<Rightarrow> send_result \<times> stream" where
  "Writer_Emit cd sched ctx now src status_fn s eventType delta metadata =
     (case marshalDelta delta of
        Inl e \<Rightarrow> (SrErr e, s)
      | Inr raw \<Rightarrow>
          let st = (case status_fn of None \<Rightarrow> StatusRunning | Some v \<Rightarrow> v)
          in Emit cd sched ctx now s
               (zero_event\<lparr>EventType := eventType, From := src, Status := st,
                           Delta := Some raw, Metadata := cloneMetadata metadata\<rparr>))"

definition Writer_Status ::
  "codec \<Rightarrow> (u64 \<Rightarrow> nat \<Rightarrow> nat) \<Rightarrow> ctx_error option \<Rightarrow> time \<Rightarrow> source \<Rightarrow> stream \<Rightarrow> string \<Rightarrow> delta_arg
     \<Rightarrow> send_result \<times> stream" where
  "Writer_Status cd sched ctx now src s st delta =
     (case marshalDelta delta of
        Inl e \<Rightarrow> (SrErr e, s)
      | Inr raw \<Rightarrow>
          Emit cd sched ctx now s
            (zero_event\<lparr>EventType := EventStatusProgress, From := src, Status := st,
                        Delta := Some raw\<rparr>))"

end
