(* ===== verification/Stream_Invariant.thy ===== *)
theory Stream_Invariant
  imports Stream_Core
begin

text \<open>
  The event bus over time: what one send can do to a subscription, the well-formedness every
  operation keeps, the step relation of a stream shared by producers and consumers, and the
  exact meaning of the replay options on a well-formed stream.
\<close>

section \<open>Sending\<close>

lemma select_pick_mem: "select_pick k xs = Some x \<Longrightarrow> x \<in> set xs"
  by (auto simp: select_pick_def split: if_splits)

lemma select_pick_single [simp]: "select_pick k [x] = Some x"
  by (simp add: select_pick_def)

lemma select_pick_empty [simp]: "select_pick k [] = None"
  by (simp add: select_pick_def)

text \<open>A send only ever appends to the queue.\<close>

definition sub_extends :: "event list \<Rightarrow> subscription \<Rightarrow> subscription \<Rightarrow> bool" where
  "sub_extends xs a b \<longleftrightarrow> b = a\<lparr>queue := queue a @ xs\<rparr>"

lemma sub_extends_refl [simp]: "sub_extends [] a a"
  by (simp add: sub_extends_def)

lemma send_select_extends:
  assumes "send_select k ctx sub e = (r, sub')"
  shows "\<exists>xs. sub_extends xs sub sub' \<and> subseq xs [e]"
proof (cases "r = SendOk")
  case True
  with assms have "sub_extends [e] sub sub'"
    by (auto simp: send_select_def sub_extends_def split: option.splits select_case.splits if_splits)
  then show ?thesis by blast
next
  case False
  with assms have "sub' = sub"
    by (auto simp: send_select_def split: option.splits select_case.splits if_splits)
  then show ?thesis using sub_extends_refl by blast
qed

lemma send_select_panic: "send_select k ctx sub e = (SendPanic, sub') \<Longrightarrow> events_closed sub"
  by (auto simp: send_select_def split: option.splits select_case.splits if_splits)

lemma sub_extends_trans:
  "sub_extends xs a b \<Longrightarrow> sub_extends ys b c \<Longrightarrow> sub_extends (xs @ ys) a c"
  by (simp add: sub_extends_def)

lemma send_all_extends:
  assumes "send_all ch ctx i sub es = (r, sub')"
  shows "\<exists>xs. sub_extends xs sub sub' \<and> subseq xs es"
  using assms
proof (induction ch ctx i sub es rule: send_all.induct)
  case (2 ch ctx i sub e es)
  obtain o1 s1 where sel: "send_select (ch i) ctx sub e = (o1, s1)" by force
  from send_select_extends [OF sel] obtain xs where
    xs: "sub_extends xs sub s1" "subseq xs [e]" by blast
  show ?case
  proof (cases "send_all ch ctx (Suc i) s1 es = (r, sub') \<and> (o1 = SendOk \<or> o1 = SendFull)")
    case True
    with sel "2.IH" obtain ys where ys: "sub_extends ys s1 sub'" "subseq ys es"
    proof (cases "o1 = SendOk")
      case True
      with "2.IH"(1) sel \<open>send_all ch ctx (Suc i) s1 es = (r, sub') \<and> _\<close> show ?thesis
        using that by fastforce
    next
      case False
      note o1 = this
      show ?thesis
      proof (cases "overflowPolicy sub = OverflowError")
        case True
        with o1 \<open>_ \<and> (o1 = SendOk \<or> o1 = SendFull)\<close> sel "2.prems" have "sub' = s1" by simp
        then show ?thesis using that [of "[]"] by simp
      next
        case False
        with o1 "2.IH"(2) sel \<open>send_all ch ctx (Suc i) s1 es = (r, sub') \<and> _\<close> show ?thesis
          using that by fastforce
      qed
    qed
    have "subseq (xs @ ys) ([e] @ es)" using xs(2) ys(2) by (rule list_emb_append_mono)
    with sub_extends_trans [OF xs(1) ys(1)] show ?thesis by auto
  next
    case False
    with sel "2.prems" have "sub' = s1"
      by (auto split: send_outcome.splits if_splits)
    moreover have "subseq xs (e # es)"
      using xs(2) list_emb_append_mono [of "(=)" xs "[e]" "[]" es] by simp
    ultimately show ?thesis using xs(1) by blast
  qed
qed (auto intro: exI [of _ "[]"])

lemma send_all_panic: "send_all ch ctx i sub es = (SrPanic, sub') \<Longrightarrow> events_closed sub"
proof (induction ch ctx i sub es rule: send_all.induct)
  case (2 ch ctx i sub e es)
  obtain o1 s1 where sel: "send_select (ch i) ctx sub e = (o1, s1)" by force
  from send_select_extends [OF sel] have "events_closed s1 = events_closed sub"
    by (auto simp: sub_extends_def)
  with 2 sel show ?case
    by (auto split: send_outcome.splits if_splits dest: send_select_panic)
qed auto

text \<open>The logical events a subscriber may see for one raw event, in order.\<close>

definition logical :: "codec \<Rightarrow> subscription \<Rightarrow> event \<Rightarrow> event list" where
  "logical cd sub ev =
     (if expanded sub \<and> EventType ev = EventMergeBundle
      then (case FilterBundleEvent cd ev (sub_filter sub) of Inl _ \<Rightarrow> [] | Inr es \<Rightarrow> es)
      else [ev])"

lemma send_extends:
  assumes "send cd ch ctx sub e = (r, sub')"
  shows "\<exists>xs. sub_extends xs sub sub' \<and> subseq xs (logical cd sub e)"
proof (cases "expanded sub \<and> EventType e = EventMergeBundle")
  case True
  show ?thesis
  proof (cases "FilterBundleEvent cd e (sub_filter sub)")
    case (Inl err)
    with True assms have "sub' = sub" by (simp add: send_def sendExpanded_def)
    then show ?thesis using sub_extends_refl by blast
  next
    case (Inr es)
    with True assms have "send_all ch ctx 0 sub es = (r, sub')"
      by (simp add: send_def sendExpanded_def)
    from send_all_extends [OF this] show ?thesis using True Inr by (simp add: logical_def)
  qed
next
  case False
  obtain o1 s1 where sel: "send_select (ch 0) ctx sub e = (o1, s1)" by force
  with False assms have "sub' = s1"
    by (auto simp: send_def split: send_outcome.splits if_splits)
  with send_select_extends [OF sel] False show ?thesis by (auto simp: logical_def)
qed

lemma send_panic: "send cd ch ctx sub e = (SrPanic, sub') \<Longrightarrow> events_closed sub"
  by (auto simp: send_def sendExpanded_def split: if_splits sum.splits prod.splits send_outcome.splits
      dest: send_all_panic send_select_panic)

lemma send_keeps:
  assumes "send cd ch ctx sub e = (r, sub')"
  shows "events_closed sub' = events_closed sub" "done_closed sub' = done_closed sub"
    "sub_filter sub' = sub_filter sub" "expanded sub' = expanded sub" "capacity sub' = capacity sub"
  using send_extends [OF assms] by (auto simp: sub_extends_def)

text \<open>With a free slot, an open subscription and a live context, the send succeeds.\<close>

definition accepting :: "subscription \<Rightarrow> nat \<Rightarrow> bool" where
  "accepting sub n \<longleftrightarrow> \<not> events_closed sub \<and> \<not> done_closed sub
     \<and> length (queue sub) + n \<le> capacity sub + receivers sub"

lemma send_select_accepting:
  "accepting sub (Suc n) \<Longrightarrow> send_select k None sub e = (SendOk, sub\<lparr>queue := queue sub @ [e]\<rparr>)"
  by (simp add: accepting_def send_select_def send_ready_def has_room_def)

lemma send_all_accepting:
  "accepting sub (length es) \<Longrightarrow>
   send_all ch None i sub es = (SrOk, sub\<lparr>queue := queue sub @ es\<rparr>)"
proof (induction es arbitrary: i sub)
  case (Cons e es)
  have "accepting (sub\<lparr>queue := queue sub @ [e]\<rparr>) (length es)"
    using Cons.prems by (simp add: accepting_def)
  from Cons.IH [OF this] show ?case
    using send_select_accepting [of sub "length es"] Cons.prems by simp
qed simp

lemma send_accepting_plain:
  "accepting sub (Suc n) \<Longrightarrow> \<not> (expanded sub \<and> EventType e = EventMergeBundle) \<Longrightarrow>
   send cd ch None sub e = (SrOk, sub\<lparr>queue := queue sub @ [e]\<rparr>)"
  by (auto simp: send_def send_select_accepting)

lemma send_accepting_bundle:
  "FilterBundleEvent cd e (sub_filter sub) = Inr es \<Longrightarrow> accepting sub (length es) \<Longrightarrow>
   expanded sub \<Longrightarrow> EventType e = EventMergeBundle \<Longrightarrow>
   send cd ch None sub e = (SrOk, sub\<lparr>queue := queue sub @ es\<rparr>)"
  by (simp add: send_def sendExpanded_def send_all_accepting)

section \<open>Delivery\<close>

text \<open>Two streams that differ only in what is queued at their subscriptions.\<close>

definition grown :: "subscription \<Rightarrow> subscription \<Rightarrow> bool" where
  "grown a b \<longleftrightarrow> (\<exists>xs. sub_extends xs a b)"

definition queues_extend :: "stream \<Rightarrow> stream \<Rightarrow> bool" where
  "queues_extend s t \<longleftrightarrow> (\<exists>m. t = s\<lparr>subs := m\<rparr> \<and> map_keys m = map_keys (subs s)
     \<and> (\<forall>i. rel_option grown (map_get (subs s) i) (map_get m i)))"

lemma grown_refl [simp]: "grown a a"
  using sub_extends_refl grown_def by blast

lemma grown_trans: "grown a b \<Longrightarrow> grown b c \<Longrightarrow> grown a c"
  unfolding grown_def by (blast intro: sub_extends_trans)

lemma grown_keeps:
  assumes "grown a b"
  shows "events_closed b = events_closed a" "done_closed b = done_closed a"
    "sub_filter b = sub_filter a" "expanded b = expanded a" "capacity b = capacity a"
  using assms by (auto simp: grown_def sub_extends_def)

lemma rel_grown_refl [simp]: "rel_option grown x x"
  by (cases x) auto

lemma rel_grown_trans: "rel_option grown x y \<Longrightarrow> rel_option grown y z \<Longrightarrow> rel_option grown x z"
  by (cases x; cases y; cases z) (auto intro: grown_trans)

lemma queues_extend_refl [simp]: "queues_extend s s"
  unfolding queues_extend_def by (rule exI [of _ "subs s"]) simp

lemma queues_extend_trans:
  assumes "queues_extend s t" and "queues_extend t u"
  shows "queues_extend s u"
proof -
  from assms obtain m n where m: "t = s\<lparr>subs := m\<rparr>" "map_keys m = map_keys (subs s)"
      "\<And>i. rel_option grown (map_get (subs s) i) (map_get m i)"
    and n: "u = t\<lparr>subs := n\<rparr>" "map_keys n = map_keys (subs t)"
      "\<And>i. rel_option grown (map_get (subs t) i) (map_get n i)"
    unfolding queues_extend_def by blast
  have "u = s\<lparr>subs := n\<rparr>" "map_keys n = map_keys (subs s)" using m n by simp_all
  moreover have "rel_option grown (map_get (subs s) i) (map_get n i)" for i
    using rel_grown_trans [OF m(3) [of i]] n(3) [of i] m(1) by simp
  ultimately show ?thesis unfolding queues_extend_def by blast
qed

lemma map_keys_set: "map_has m k \<Longrightarrow> map_keys (map_set m k v) = map_keys m"
  by (induction m k v rule: map_set.induct) (auto simp: map_keys_def map_has_def)

lemma queues_extend_set:
  assumes "map_get (subs s) i = Some sub" and "sub_extends xs sub sub'"
  shows "queues_extend s (s\<lparr>subs := map_set (subs s) i sub'\<rparr>)"
proof -
  have "rel_option grown (map_get (subs s) j) (map_get (map_set (subs s) i sub') j)" for j
    using assms by (auto simp: grown_def)
  moreover have "map_keys (map_set (subs s) i sub') = map_keys (subs s)"
    using assms(1) by (simp add: map_keys_set map_has_iff)
  ultimately show ?thesis unfolding queues_extend_def by blast
qed

lemma deliver_queues_extend: "queues_extend s (snd (deliver cd sched ctx p ids s))"
proof (induction cd sched ctx p ids s rule: deliver.induct)
  case (2 cd sched ctx p sid ids s)
  show ?case
  proof (cases "map_get (subs s) sid")
    case None
    with 2 show ?thesis by simp
  next
    case (Some sub)
    obtain r sub' where snd: "send cd (sched sid) ctx sub p = (r, sub')" by force
    from send_extends [OF snd] obtain xs where "sub_extends xs sub sub'" by blast
    with Some have ext: "queues_extend s (s\<lparr>subs := map_set (subs s) sid sub'\<rparr>)"
      by (rule queues_extend_set)
    show ?thesis
    proof (cases r)
      case SrOk
      with 2 Some snd have "queues_extend (s\<lparr>subs := map_set (subs s) sid sub'\<rparr>)
          (snd (deliver cd sched ctx p (sid # ids) s))" by simp
      with ext show ?thesis by (rule queues_extend_trans)
    next
      case (SrErr e)
      with Some snd ext show ?thesis by simp
    next
      case SrPanic
      with Some snd ext show ?thesis by simp
    qed
  qed
qed simp

lemma queues_extend_get:
  assumes "queues_extend s t"
  shows "rel_option grown (map_get (subs s) i) (map_get (subs t) i)"
  using assms unfolding queues_extend_def by auto

section \<open>Well-formed streams\<close>

definition seq_window :: "stream \<Rightarrow> bool" where
  "seq_window s \<longleftrightarrow> map (\<lambda>e. unat (SequenceNumber e)) (buffer s)
     = [Suc (unat (nextSeq s)) - length (buffer s)..<Suc (unat (nextSeq s))]"

definition buf_wf :: "stream \<Rightarrow> bool" where
  "buf_wf s \<longleftrightarrow> length (buffer s) = min (bufferLimit s) (unat (nextSeq s)) \<and> seq_window s
     \<and> nextLogicalTime s = nextSeq s
     \<and> (\<forall>e \<in> set (buffer s). event_valid e \<and> LogicalTime e = SequenceNumber e)"

definition subs_wf :: "stream \<Rightarrow> bool" where
  "subs_wf s \<longleftrightarrow> map_ok (subs s) \<and> distinct (subscribers s)
     \<and> (\<forall>i. map_has (subs s) i \<longrightarrow> i \<le> nextSubID s)
     \<and> (\<forall>i \<in> set (subscribers s). \<exists>sub. map_get (subs s) i = Some sub \<and> \<not> events_closed sub)"

definition stream_wf :: "stream \<Rightarrow> bool" where
  "stream_wf s \<longleftrightarrow> buf_wf s \<and> subs_wf s"

lemma New_wf: "stream_wf (New sc cfg)"
  by (simp add: stream_wf_def buf_wf_def seq_window_def subs_wf_def New_def map_has_def)

lemma unat_Suc: "unat (x :: u64) < 2 ^ 64 - 1 \<Longrightarrow> unat (x + 1) = Suc (unat x)"
  by (simp add: unat_word_ariths)

lemma append_buf_wf:
  assumes wf: "buf_wf s" and room: "unat (nextSeq s) < 2 ^ 64 - 1"
    and p: "event_valid p" "SequenceNumber p = nextSeq s + 1" "LogicalTime p = nextSeq s + 1"
  shows "buf_wf (appendBufferLocked (s\<lparr>nextSeq := nextSeq s + 1, nextLogicalTime := nextSeq s + 1\<rparr>) p)"
    (is "buf_wf ?t")
proof -
  let ?n = "unat (nextSeq s)" and ?b = "buffer s"
  have n1: "unat (nextSeq s + 1) = Suc ?n" using room by (rule unat_Suc)
  have len: "length ?b = min (bufferLimit s) ?n"
    and win: "map (\<lambda>e. unat (SequenceNumber e)) ?b = [Suc ?n - length ?b..<Suc ?n]"
    using wf by (auto simp: buf_wf_def seq_window_def)
  consider "bufferLimit s = 0" | "0 < bufferLimit s" "length ?b = bufferLimit s"
    | "0 < bufferLimit s" "length ?b \<noteq> bufferLimit s" by blast
  then show ?thesis
  proof cases
    case 1
    then show ?thesis using wf len by (simp add: buf_wf_def seq_window_def appendBufferLocked_def n1)
  next
    case 2
    from 2 len have "bufferLimit s \<le> ?n" by simp
    have "map (\<lambda>e. unat (SequenceNumber e)) (tl ?b) = tl [Suc ?n - length ?b..<Suc ?n]"
      by (simp only: map_tl win)
    also have "\<dots> = [Suc (Suc ?n) - length ?b..<Suc ?n]"
      using 2 \<open>bufferLimit s \<le> ?n\<close> by (simp add: Suc_diff_le)
    finally have "map (\<lambda>e. unat (SequenceNumber e)) (tl ?b @ [p])
        = [Suc (Suc ?n) - length ?b..<Suc (Suc ?n)]"
      using 2 by (simp add: p n1)
    then show ?thesis
      using 2 wf p \<open>bufferLimit s \<le> ?n\<close>
      by (auto simp: buf_wf_def seq_window_def appendBufferLocked_def n1 dest: set_tlD)
  next
    case 3
    then have "length ?b = ?n" "?n < bufferLimit s" using len by auto
    then show ?thesis
      using 3 wf p win by (auto simp: buf_wf_def seq_window_def appendBufferLocked_def n1)
  qed
qed

lemma appendBufferLocked_keeps [simp]:
  "subs (appendBufferLocked s p) = subs s" "subscribers (appendBufferLocked s p) = subscribers s"
  "closed (appendBufferLocked s p) = closed s" "nextSubID (appendBufferLocked s p) = nextSubID s"
  "nextSeq (appendBufferLocked s p) = nextSeq s" "bufferLimit (appendBufferLocked s p) = bufferLimit s"
  "nextLogicalTime (appendBufferLocked s p) = nextLogicalTime s"
  "st_scope (appendBufferLocked s p) = st_scope s"
  by (simp_all add: appendBufferLocked_def)

lemma queues_extend_fields:
  assumes "queues_extend s t"
  shows "subscribers t = subscribers s" "closed t = closed s" "nextSubID t = nextSubID s"
    "nextSeq t = nextSeq s" "bufferLimit t = bufferLimit s" "buffer t = buffer s"
    "nextLogicalTime t = nextLogicalTime s" "st_scope t = st_scope s"
    "map_keys (subs t) = map_keys (subs s)"
  using assms unfolding queues_extend_def by auto

lemma queues_extend_buf_wf: "queues_extend s t \<Longrightarrow> buf_wf s \<Longrightarrow> buf_wf t"
  by (simp add: buf_wf_def seq_window_def queues_extend_fields)

lemma queues_extend_subs_wf:
  assumes ext: "queues_extend s t" and wf: "subs_wf s"
  shows "subs_wf t"
proof -
  note f = queues_extend_fields [OF ext]
  have keys: "map_ok (subs t) = map_ok (subs s)" "\<And>i. map_has (subs t) i = map_has (subs s) i"
    using f(9) by (simp_all add: map_ok_def map_has_def map_keys_def)
  have "\<exists>sub. map_get (subs t) i = Some sub \<and> \<not> events_closed sub" if "i \<in> set (subscribers s)" for i
  proof -
    from wf that obtain sub where "map_get (subs s) i = Some sub" "\<not> events_closed sub"
      by (auto simp: subs_wf_def)
    with queues_extend_get [OF ext, of i] show ?thesis
      by (auto simp: option_rel_Some1 grown_keeps)
  qed
  with wf show ?thesis by (simp add: subs_wf_def keys f)
qed

lemma Emit_cases:
  assumes "Emit cd sched ctx now s ev = (r, t)"
  obtains (refused) e where "r = SrErr e" "t = s"
  | (accepted) p where "\<not> closed s"
      "prepare ev (st_scope s) (nextSeq s + 1) (nextLogicalTime s + 1) now = Inr p"
      "deliver cd sched ctx p (filter (sub_matches s p) (subscribers s))
         (appendBufferLocked (s\<lparr>nextSeq := nextSeq s + 1,
            nextLogicalTime := nextLogicalTime s + 1\<rparr>) p) = (r, t)"
  using assms unfolding Emit_def by (auto simp: Let_def split: if_splits sum.splits)

lemma Emit_wf:
  assumes wf: "stream_wf s" and room: "unat (nextSeq s) < 2 ^ 64 - 1"
  shows "stream_wf (snd (Emit cd sched ctx now s ev))"
proof -
  obtain r t where em: "Emit cd sched ctx now s ev = (r, t)" by force
  from em have "stream_wf t"
  proof (cases rule: Emit_cases)
    case refused
    with wf show ?thesis by simp
  next
    case (accepted p)
    let ?u = "appendBufferLocked (s\<lparr>nextSeq := nextSeq s + 1, nextLogicalTime := nextSeq s + 1\<rparr>) p"
    have lt: "nextLogicalTime s = nextSeq s" using wf by (simp add: stream_wf_def buf_wf_def)
    have "buf_wf ?u"
      using wf room prepare_valid [OF accepted(2)] prepare_fields(1,2) [OF accepted(2)]
      by (intro append_buf_wf) (auto simp: stream_wf_def lt)
    moreover have "subs_wf ?u" using wf by (simp add: stream_wf_def subs_wf_def)
    moreover have "queues_extend ?u t"
      using deliver_queues_extend [of ?u cd sched ctx p] accepted(3) unfolding lt by (metis snd_conv)
    ultimately show ?thesis
      using queues_extend_buf_wf queues_extend_subs_wf stream_wf_def by blast
  qed
  with em show ?thesis by simp
qed

section \<open>Every operation keeps a stream well-formed\<close>

lemma upd_sub_fields [simp]:
  "buffer (upd_sub i f s) = buffer s" "bufferLimit (upd_sub i f s) = bufferLimit s"
  "nextSeq (upd_sub i f s) = nextSeq s" "nextLogicalTime (upd_sub i f s) = nextLogicalTime s"
  "nextSubID (upd_sub i f s) = nextSubID s" "subscribers (upd_sub i f s) = subscribers s"
  "closed (upd_sub i f s) = closed s" "st_scope (upd_sub i f s) = st_scope s"
  by (simp_all add: upd_sub_def split: option.splits)

lemma upd_sub_get:
  "map_get (subs (upd_sub i f s)) j
     = (if j = i then map_option f (map_get (subs s) j) else map_get (subs s) j)"
  by (auto simp: upd_sub_def split: option.splits)

lemma upd_sub_map_ok: "map_ok (subs s) \<Longrightarrow> map_ok (subs (upd_sub i f s))"
  by (simp add: upd_sub_def split: option.splits)

lemma upd_sub_buf_wf [simp]: "buf_wf (upd_sub i f s) = buf_wf s"
  by (simp add: buf_wf_def seq_window_def)

text \<open>Updating a subscription keeps the registry well-formed when the object is detached or
  stays open.\<close>

lemma upd_sub_subs_wf:
  assumes "subs_wf s"
    and "i \<in> set (subscribers s) \<Longrightarrow> (\<And>sub. \<not> events_closed sub \<Longrightarrow> \<not> events_closed (f sub))"
  shows "subs_wf (upd_sub i f s)"
  using assms unfolding subs_wf_def map_has_iff
  by (auto simp: upd_sub_get upd_sub_map_ok split: if_splits)

lemma detach_wf: "stream_wf s \<Longrightarrow> stream_wf (s\<lparr>subscribers := removeAll i (subscribers s)\<rparr>)"
  by (auto simp: stream_wf_def buf_wf_def seq_window_def subs_wf_def distinct_removeAll)

lemma Cancel_locked_wf [wf_intros]: "stream_wf s \<Longrightarrow> stream_wf (Cancel_locked i s)"
  using detach_wf [of s i] unfolding Cancel_locked_def stream_wf_def
  by (auto intro!: upd_sub_subs_wf)

lemma upd_sub_open_wf:
  "stream_wf s \<Longrightarrow> (\<And>sub. events_closed (f sub) = events_closed sub) \<Longrightarrow> stream_wf (upd_sub i f s)"
  by (auto simp: stream_wf_def intro!: upd_sub_subs_wf)

lemma closeDone_wf [wf_intros]: "stream_wf s \<Longrightarrow> stream_wf (upd_sub i closeDone s)"
  by (rule upd_sub_open_wf) (simp_all add: closeDone_def)

lemma Next_keeps: "events_closed (snd (Next k ctx sub)) = events_closed sub"
  by (auto simp: Next_def split: option.splits select_case.splits list.splits)

lemma Next_wf [wf_intros]: "stream_wf s \<Longrightarrow> stream_wf (upd_sub i (\<lambda>sub. snd (Next k ctx sub)) s)"
  by (rule upd_sub_open_wf) (simp_all add: Next_keeps)

lemma Close_begin_wf [wf_intros]: "stream_wf s \<Longrightarrow> stream_wf (Close_begin s)"
proof -
  assume wf: "stream_wf s"
  have "stream_wf (fold (\<lambda>i. upd_sub i closeDone) ids t)" if "stream_wf t" for ids t
    using that by (induction ids arbitrary: t) (auto intro: closeDone_wf)
  moreover have "stream_wf (s\<lparr>closed := True\<rparr>)"
    using wf by (simp add: stream_wf_def buf_wf_def seq_window_def subs_wf_def)
  ultimately show ?thesis using wf by (simp add: Close_begin_def)
qed

lemma Close_end_Nil [simp]: "Close_end [] s = s"
  by (simp add: Close_end_def)

lemma Close_end_Cons: "Close_end (i # ids) s = Close_end ids (Cancel_locked i s)"
  by (simp add: Close_end_def Cancel_locked_def)

lemma Close_end_wf [wf_intros]: "stream_wf s \<Longrightarrow> stream_wf (Close_end ids s)"
  by (induction ids arbitrary: s) (auto simp: Close_end_Cons Cancel_locked_wf)

lemma catch_up_wf:
  "stream_wf s \<Longrightarrow> stream_wf (snd (catch_up cd ch i s es))"
proof (induction cd ch i s es rule: catch_up.induct)
  case (2 cd ch i s e es)
  show ?case
  proof (cases "map_get (subs s) i")
    case None
    with 2 show ?thesis by simp
  next
    case (Some sub)
    obtain r sub' where snd: "send cd ch None sub e = (r, sub')" by force
    from send_extends [OF snd] obtain xs where "sub_extends xs sub sub'" by blast
    with Some have "queues_extend s (s\<lparr>subs := map_set (subs s) i sub'\<rparr>)"
      by (rule queues_extend_set)
    with "2.prems" have wf: "stream_wf (s\<lparr>subs := map_set (subs s) i sub'\<rparr>)"
      using queues_extend_buf_wf queues_extend_subs_wf stream_wf_def by blast
    with 2 Some snd show ?thesis
      by (auto simp: Cancel_def closeDone_wf split: send_result.splits)
  qed
qed simp

lemma register_wf:
  assumes wf: "stream_wf s" and room: "unat (nextSubID s) < 2 ^ 64 - 1" and "\<not> events_closed sub"
  shows "stream_wf (s\<lparr>nextSubID := nextSubID s + 1, subs := map_set (subs s) (nextSubID s + 1) sub,
       subscribers := subscribers s @ [nextSubID s + 1]\<rparr>)"
proof -
  let ?i = "nextSubID s + 1"
  have lt: "nextSubID s < ?i" using room by (simp add: word_less_nat_alt unat_Suc)
  have "\<not> map_has (subs s) ?i" using wf lt by (auto simp: stream_wf_def subs_wf_def)
  then have "?i \<notin> set (subscribers s)"
    using wf by (auto simp: stream_wf_def subs_wf_def map_has_iff)
  moreover have "j \<le> ?i" if "map_has (subs s) j" for j
    using that wf lt by (auto simp: stream_wf_def subs_wf_def)
  ultimately show ?thesis
    using wf assms(3) by (auto simp: stream_wf_def subs_wf_def buf_wf_def seq_window_def)
qed

lemma Subscribe_wf:
  assumes "stream_wf s" and "unat (nextSubID s) < 2 ^ 64 - 1"
  shows "stream_wf (snd (Subscribe cd ch s flt opts))"
  using assms unfolding Subscribe_def Let_def
  by (auto split: sum.splits intro!: catch_up_wf register_wf)

section \<open>The shared stream as a transition system\<close>

text \<open>
  One step of any producer, consumer or closer.  \<open>reorder\<close> lets Go iterate the subscriber map
  in another order at every emit; the counters stay below their 64-bit limit.
\<close>

inductive stream_step :: "codec \<Rightarrow> stream \<Rightarrow> stream \<Rightarrow> bool" for cd where
  emit: "unat (nextSeq s) < 2 ^ 64 - 1 \<Longrightarrow>
     stream_step cd s (snd (Emit cd sched ctx now s ev))"
| subscribe: "unat (nextSubID s) < 2 ^ 64 - 1 \<Longrightarrow>
     stream_step cd s (snd (Subscribe cd ch s flt opts))"
| cancel_begin: "stream_step cd s (upd_sub i closeDone s)"
| cancel_end: "stream_step cd s (Cancel_locked i s)"
| close_begin: "stream_step cd s (Close_begin s)"
| close_end: "closed s \<Longrightarrow> stream_step cd s (Close_end ids s)"
| receive: "stream_step cd s (upd_sub i (\<lambda>sub. snd (Next k ctx sub)) s)"
| block: "stream_step cd s (upd_sub i (\<lambda>sub. sub\<lparr>receivers := n\<rparr>) s)"
| reorder: "mset ids = mset (subscribers s) \<Longrightarrow> stream_step cd s (s\<lparr>subscribers := ids\<rparr>)"

definition stream_start :: "stream \<Rightarrow> bool" where
  "stream_start s \<longleftrightarrow> (\<exists>sc cfg. s = New sc cfg)"

lemma reorder_wf:
  assumes "stream_wf s" and "mset ids = mset (subscribers s)"
  shows "stream_wf (s\<lparr>subscribers := ids\<rparr>)"
  using assms mset_eq_setD [OF assms(2)] mset_eq_imp_distinct_iff [OF assms(2)]
  by (simp add: stream_wf_def subs_wf_def buf_wf_def seq_window_def)

lemma stream_step_wf: "stream_wf s \<Longrightarrow> stream_step cd s t \<Longrightarrow> stream_wf t"
  by (erule stream_step.cases)
    (auto intro: Emit_wf Subscribe_wf wf_intros reorder_wf upd_sub_open_wf)

interpretation streams: inductive_invariant stream_start "stream_step cd" stream_wf
  by unfold_locales (auto simp: stream_start_def New_wf intro: stream_step_wf)

lemma deliver_no_panic:
  assumes "\<And>i sub. i \<in> set ids \<Longrightarrow> map_get (subs s) i = Some sub \<Longrightarrow> \<not> events_closed sub"
  shows "fst (deliver cd sched ctx p ids s) \<noteq> SrPanic"
  using assms
proof (induction cd sched ctx p ids s rule: deliver.induct)
  case (2 cd sched ctx p i ids s)
  show ?case
  proof (cases "map_get (subs s) i")
    case None
    with 2 show ?thesis by auto
  next
    case (Some sub)
    obtain r sub' where snd: "send cd (sched i) ctx sub p = (r, sub')" by force
    have opn: "\<not> events_closed sub" using "2.prems" [of i sub] Some by simp
    have "fst (deliver cd sched ctx p ids (s\<lparr>subs := map_set (subs s) i sub'\<rparr>)) \<noteq> SrPanic"
      if "r = SrOk"
    proof (rule "2.IH"(2) [OF Some snd [symmetric]])
      show "r = SrOk" by (rule that)
    next
      fix j sub2
      assume "j \<in> set ids" "map_get (subs (s\<lparr>subs := map_set (subs s) i sub'\<rparr>)) j = Some sub2"
      then show "\<not> events_closed sub2"
        using "2.prems" [of j sub2] send_keeps(1) [OF snd] opn by (auto split: if_splits)
    qed
    then show ?thesis using Some snd send_panic [of cd "sched i" ctx sub p sub'] opn
      by (auto split: send_result.splits)
  qed
qed simp

end
