(* ===== verification/Stream_Theorems.thy ===== *)
theory Stream_Theorems
  imports Stream_Invariant
begin

text \<open>
  The promises of the event bus: numbering and the replay window, fan-out, replay options,
  subscription catch-up, and closing.
\<close>

section \<open>Replay over a window of consecutive numbers\<close>

lemma filter_from_window:
  "map g xs = [a..<a + length xs] \<Longrightarrow>
   filter (\<lambda>x. m \<le> g x \<and> P x) xs = filter P (drop (m - a) xs)"
proof (induction xs arbitrary: a)
  case (Cons x xs)
  from Cons.prems have gx: "g x = a" and rest: "map g xs = [Suc a..<Suc a + length xs]"
    using upt_conv_Cons [of a "a + length (x # xs)"] by (simp_all del: upt_Suc)
  show ?case
  proof (cases "m \<le> a")
    case True
    with Cons.IH [OF rest] gx show ?thesis by simp
  next
    case False
    then obtain k where "m - a = Suc k" "m - Suc a = k"
      by (metis Suc_diff_Suc not_le_imp_less)
    with Cons.IH [OF rest] gx False show ?thesis by simp
  qed
qed simp

lemma wf_window:
  assumes "buf_wf s"
  shows "map (\<lambda>e. unat (SequenceNumber e)) (buffer s) =
     [Suc (unat (nextSeq s)) - length (buffer s)..<
      Suc (unat (nextSeq s)) - length (buffer s) + length (buffer s)]"
    and "length (buffer s) \<le> unat (nextSeq s)"
  using assms by (auto simp: buf_wf_def seq_window_def)

lemma replay_from:
  assumes "buf_wf s"
  shows "filter (\<lambda>e. \<not> SequenceNumber e < n \<and> Match f e) (buffer s)
     = filter (Match f) (drop (unat n + length (buffer s) - Suc (unat (nextSeq s))) (buffer s))"
proof -
  have "filter (\<lambda>e. \<not> SequenceNumber e < n \<and> Match f e) (buffer s)
      = filter (\<lambda>e. unat n \<le> unat (SequenceNumber e) \<and> Match f e) (buffer s)"
    by (simp add: not_less word_le_nat_alt)
  also have "\<dots> = filter (Match f)
      (drop (unat n - (Suc (unat (nextSeq s)) - length (buffer s))) (buffer s))"
    by (rule filter_from_window [OF wf_window(1) [OF assms]])
  also have "unat n - (Suc (unat (nextSeq s)) - length (buffer s))
      = unat n + length (buffer s) - Suc (unat (nextSeq s))"
    using wf_window(2) [OF assms] by simp
  finally show ?thesis .
qed

lemma buffer_all_positive:
  assumes "buf_wf s" and "buffer s \<noteq> []"
  shows "unat (SequenceNumber (buffer s ! 0)) = Suc (unat (nextSeq s)) - length (buffer s)"
proof -
  have "map (\<lambda>e. unat (SequenceNumber e)) (buffer s) ! 0
      = [Suc (unat (nextSeq s)) - length (buffer s)..<
      Suc (unat (nextSeq s)) - length (buffer s) + length (buffer s)] ! 0"
    by (simp only: wf_window(1) [OF assms(1)])
  then show ?thesis using assms(2) by (simp del: upt_Suc)
qed

lemma replay_default:
  assumes "buf_wf s" and "\<not> noReplay st" and "replayFrom st = 0" and "replayLast st = 0"
  shows "replayLocked s f st = filter (Match f) (buffer s)"
proof (cases "buffer s = []")
  case True
  then show ?thesis by (simp add: replayLocked_def Let_def)
next
  case False
  let ?o = "SequenceNumber (buffer s ! 0)"
  have o: "unat ?o = Suc (unat (nextSeq s)) - length (buffer s)"
    by (rule buffer_all_positive [OF assms(1) False])
  with wf_window(2) [OF assms(1)] have pos: "?o > 0" by (simp add: word_less_nat_alt)
  then have start: "replayStartLocked s st = ?o"
    using assms(2-4) False
    by (simp add: replayStartLocked_def defaultReplayStartLocked_def oldestBufferedSequenceLocked_def)
  have "replayLocked s f st = filter (\<lambda>e. \<not> SequenceNumber e < ?o \<and> Match f e) (buffer s)"
    using pos by (auto simp: replayLocked_def start Let_def)
  also have "\<dots> = filter (Match f) (buffer s)"
    using replay_from [OF assms(1), of ?o f] o wf_window(2) [OF assms(1)] by simp
  finally show ?thesis .
qed

lemma unat_of_int_nonneg: "0 \<le> k \<Longrightarrow> k < 2 ^ 64 \<Longrightarrow> unat (of_int k :: u64) = nat k"
  by (simp add: unat_eq_nat_uint uint_word_of_int)

lemma replay_last:
  assumes wf: "buf_wf s" and st: "\<not> noReplay st" "replayFrom st = 0" "replayLast st = k"
    and k: "0 < k" "k < 2 ^ 63"
  shows "replayLocked s f st = filter (Match f) (drop (length (buffer s) - nat k) (buffer s))"
proof (cases "nextSeq s = 0")
  case True
  with wf have "buffer s = []" by (simp add: buf_wf_def)
  then show ?thesis by (simp add: replayLocked_def Let_def)
next
  case False
  let ?N = "unat (nextSeq s)" and ?w = "of_int k :: u64"
  have w: "unat ?w = nat k" using k by (intro unat_of_int_nonneg) auto
  have npos: "nextSeq s > 0" using False by (simp add: word_neq_0_conv)
  define fr where "fr = (if nextSeq s \<ge> ?w then nextSeq s - ?w + 1 else 1)"
  have "unat fr = (if nat k \<le> ?N then Suc (?N - nat k) else 1)"
  proof (cases "nat k \<le> ?N")
    case True
    then have le: "?w \<le> nextSeq s" using w by (simp add: word_le_nat_alt)
    have sub: "unat (nextSeq s - ?w) = ?N - nat k" using le w by (simp add: unat_sub)
    have "?N < 2 ^ 64" using unsigned_less [of "nextSeq s"] by simp
    moreover have "0 < nat k" using k by simp
    ultimately have "?N - nat k < 2 ^ 64 - 1" using True by linarith
    then show ?thesis using True le sub unat_Suc [of "nextSeq s - ?w"] by (simp add: fr_def)
  next
    case False
    then show ?thesis using w by (simp add: fr_def word_le_nat_alt)
  qed
  moreover from this have fpos: "fr > 0" by (simp add: word_less_nat_alt split: if_splits)
  moreover have "replayStartLocked s st = fr"
    using st k npos fpos by (simp add: replayStartLocked_def fr_def Let_def)
  ultimately have "replayLocked s f st = filter (Match f)
      (drop ((if nat k \<le> ?N then Suc (?N - nat k) else 1) + length (buffer s) - Suc ?N) (buffer s))"
    using replay_from [OF wf, of fr f] by (simp add: replayLocked_def Let_def)
  also have "(if nat k \<le> ?N then Suc (?N - nat k) else 1) + length (buffer s) - Suc ?N
      = length (buffer s) - nat k"
    using wf_window(2) [OF wf] k by auto
  finally show ?thesis .
qed

text \<open>C1. On a well-formed stream the replay options mean what they say, over raw frames:
  no range option replays every buffered event the filter matches; \<^verbatim>\<open>WithReplayFrom(n)\<close>
  those with sequence number at least \<open>n\<close>; \<^verbatim>\<open>WithReplayLast(k)\<close>, \<open>k > 0\<close>, the
  matching ones among the last \<open>k\<close> buffered; \<^verbatim>\<open>WithNoReplay\<close> none.\<close>

theorem replay_options_exact:
  assumes "stream_wf s" and "0 < n" and "0 < k" and "k < 2 ^ 63"
  shows "Replay cd s f [WithRawStream] = Inr (filter (Match f) (buffer s))
    \<and> Replay cd s f [WithRawStream, WithReplayFrom n]
        = Inr (filter (\<lambda>e. n \<le> SequenceNumber e \<and> Match f e) (buffer s))
    \<and> Replay cd s f [WithRawStream, WithReplayLast k]
        = Inr (filter (Match f) (drop (length (buffer s) - nat k) (buffer s)))
    \<and> Replay cd s f [WithRawStream, WithNoReplay] = Inr []"
proof -
  have wf: "buf_wf s" using assms(1) by (simp add: stream_wf_def)
  have "replayLocked s f (zero_settings\<lparr>rawStream := True, replayFrom := n\<rparr>)
      = filter (\<lambda>e. n \<le> SequenceNumber e \<and> Match f e) (buffer s)"
    using assms(2) by (auto simp: replayLocked_def replayStartLocked_def zero_settings_def Let_def not_less)
  moreover have "replayLocked s f (zero_settings\<lparr>rawStream := True, noReplay := True\<rparr>) = []"
    by (simp add: replayLocked_def replayStartLocked_def)
  ultimately show ?thesis
    using replay_default [OF wf, of "zero_settings\<lparr>rawStream := True\<rparr>" f]
      replay_last [OF wf, of "zero_settings\<lparr>rawStream := True, replayLast := k\<rparr>" k f] assms(3,4)
    by (simp add: Replay_def replay_for_def zero_settings_def)
qed

text \<open>\<^verbatim>\<open>WithReplayLast(0)\<close> does not replay the last zero events: it replays the
  whole buffer, like no option at all.\<close>

theorem replay_last_zero_replays_all:
  assumes "stream_wf s"
  shows "Replay cd s f [WithRawStream, WithReplayLast 0] = Inr (filter (Match f) (buffer s))"
  using replay_default [of s "zero_settings\<lparr>rawStream := True, replayLast := 0, noReplay := False\<rparr>" f] assms
  by (simp add: Replay_def replay_for_def zero_settings_def stream_wf_def)

section \<open>Catch-up of a new subscription\<close>

lemma filter_bundles_plain:
  "\<forall>e \<in> set es. EventType e \<noteq> EventMergeBundle \<Longrightarrow>
   filter_bundles cd f res es = Inr (res @ filter (Match f) es)"
  by (induction es arbitrary: res) (auto simp: Filter_plain)

lemma Replay_plain:
  assumes "stream_wf s" and "\<forall>e \<in> set (buffer s). EventType e \<noteq> EventMergeBundle"
  shows "Replay cd s f [] = Inr (filter (Match f) (buffer s))"
proof -
  have "replayLocked s empty_filter zero_settings = buffer s"
    using replay_default [of s zero_settings empty_filter] assms(1)
    by (simp add: zero_settings_def stream_wf_def)
  with assms(2) show ?thesis
    by (simp add: Replay_def replay_for_def replayLogicalLocked_def zero_settings_def
        filter_bundles_plain)
qed

definition fresh_sub :: "subscription \<Rightarrow> bool" where
  "fresh_sub sub \<longleftrightarrow> \<not> events_closed sub \<and> \<not> done_closed sub \<and> receivers sub = 0"

lemma send_fresh_full:
  assumes "fresh_sub sub" and "capacity sub \<le> length (queue sub)"
    and "EventType e \<noteq> EventMergeBundle"
  shows "send cd ch None sub e =
     ((if overflowPolicy sub = OverflowError then SrErr ErrSubscriberOverflow else SrOk), sub)"
  using assms by (simp add: fresh_sub_def send_def send_select_def send_ready_def has_room_def)

lemma send_fresh_room:
  assumes "fresh_sub sub" and "length (queue sub) < capacity sub"
    and "EventType e \<noteq> EventMergeBundle"
  shows "send cd ch None sub e = (SrOk, sub\<lparr>queue := queue sub @ [e]\<rparr>)"
  using assms by (intro send_accepting_plain [where n = 0]) (auto simp: accepting_def fresh_sub_def)

lemma catch_up_spec:
  assumes "map_get (subs s) i = Some sub" and "fresh_sub sub"
    and "\<forall>e \<in> set es. EventType e \<noteq> EventMergeBundle" and "length (queue sub) \<le> capacity sub"
  shows "if overflowPolicy sub = OverflowError \<and> capacity sub < length (queue sub) + length es
     then fst (catch_up cd ch i s es) = None
     else fst (catch_up cd ch i s es) = Some (Inr i)
       \<and> map_get (subs (snd (catch_up cd ch i s es))) i
           = Some (sub\<lparr>queue := queue sub @ take (capacity sub - length (queue sub)) es\<rparr>)"
  using assms
proof (induction es arbitrary: s sub)
  case (Cons e es)
  have plain: "EventType e \<noteq> EventMergeBundle" using Cons.prems(3) by simp
  show ?case
  proof (cases "length (queue sub) < capacity sub")
    case True
    let ?sub = "sub\<lparr>queue := queue sub @ [e]\<rparr>"
    let ?s = "s\<lparr>subs := map_set (subs s) i ?sub\<rparr>"
    have eq: "catch_up cd ch i s (e # es) = catch_up cd ch i ?s es"
      using Cons.prems(1) send_fresh_room [OF Cons.prems(2) True plain, of cd ch] by simp
    have tk: "take (capacity sub - length (queue sub)) (e # es)
        = e # take (capacity sub - length (queue ?sub)) es"
      using Suc_diff_Suc [OF True, symmetric] by simp
    from Cons.IH [of ?s ?sub] Cons.prems True show ?thesis
      unfolding eq tk by (simp add: fresh_sub_def)
  next
    case False
    then have full: "capacity sub \<le> length (queue sub)" by simp
    note snd = send_fresh_full [OF Cons.prems(2) full plain, of cd ch]
    show ?thesis
    proof (cases "overflowPolicy sub = OverflowError")
      case True
      with Cons.prems(1,4) snd full show ?thesis by (simp add: Cancel_def)
    next
      case False
      have eq: "catch_up cd ch i s (e # es) = catch_up cd ch i (s\<lparr>subs := map_set (subs s) i sub\<rparr>) es"
        using Cons.prems(1) snd False by simp
      from Cons.IH [of "s\<lparr>subs := map_set (subs s) i sub\<rparr>" sub] Cons.prems False full
      show ?thesis unfolding eq by simp
    qed
  qed
qed simp

lemma Subscribe_open:
  assumes "\<not> closed s" and "st = fold apply_option opts
      (zero_settings\<lparr>sub_buffer := defaultSubscriberBuffer, set_overflowPolicy := OverflowDropNewest\<rparr>)"
    and "0 \<le> sub_buffer st" and "replay_for cd s flt st = Inr es"
    and "cap = (if rawStream st \<and> nat (sub_buffer st) < length es then length es else nat (sub_buffer st))"
  shows "Subscribe cd ch s flt opts = catch_up cd ch (nextSubID s + 1)
     (s\<lparr>nextSubID := nextSubID s + 1,
        subs := map_set (subs s) (nextSubID s + 1)
          \<lparr>sub_filter = flt, expanded = \<not> rawStream st, queue = [], capacity = cap, receivers = 0,
           done_closed = False, events_closed = False, overflowPolicy = set_overflowPolicy st\<rparr>,
        subscribers := subscribers s @ [nextSubID s + 1]\<rparr>) es"
  using assms by (simp add: Subscribe_def Let_def)

text \<open>Catch-up of a subscriber with the default options: the channel holds 16 events and
  nobody reads during \<^verbatim>\<open>Subscribe\<close>, so of the replayed logical events exactly the first 16
  are queued and the rest are dropped, although the call succeeds.\<close>

theorem subscribe_default_truncates_replay:
  assumes "\<not> closed s"
    and "Replay cd s flt [] = Inr es"
    and "\<forall>e \<in> set es. EventType e \<noteq> EventMergeBundle"
  shows "fst (Subscribe cd ch s flt []) = Some (Inr (nextSubID s + 1))
    \<and> (\<exists>sub. map_get (subs (snd (Subscribe cd ch s flt []))) (nextSubID s + 1) = Some sub
         \<and> queue sub = take 16 es)"
proof -
  let ?st = "zero_settings\<lparr>sub_buffer := defaultSubscriberBuffer,
    set_overflowPolicy := OverflowDropNewest\<rparr>"
  have "replay_for cd s flt ?st = replay_for cd s flt zero_settings"
    by (simp add: replay_for_def replayLogicalLocked_def replayLocked_def replayStartLocked_def
        zero_settings_def)
  with assms(2) have "replay_for cd s flt ?st = Inr es" by (simp add: Replay_def)
  from Subscribe_open [OF assms(1), of ?st "[]" cd flt es 16, OF _ _ this]
  have eq: "Subscribe cd ch s flt [] = catch_up cd ch (nextSubID s + 1)
     (s\<lparr>nextSubID := nextSubID s + 1,
        subs := map_set (subs s) (nextSubID s + 1)
          \<lparr>sub_filter = flt, expanded = True, queue = [], capacity = 16, receivers = 0,
           done_closed = False, events_closed = False, overflowPolicy = OverflowDropNewest\<rparr>,
        subscribers := subscribers s @ [nextSubID s + 1]\<rparr>) es"
    by (simp add: defaultSubscriberBuffer_def zero_settings_def)
  show ?thesis
    unfolding eq
    using catch_up_spec [OF _ _ assms(3), of _ "nextSubID s + 1" "\<lparr>sub_filter = flt, expanded = True,
        queue = [], capacity = 16, receivers = 0, done_closed = False, events_closed = False,
        overflowPolicy = OverflowDropNewest\<rparr>"]
    by (simp add: fresh_sub_def OverflowDropNewest_def OverflowError_def)
qed

text \<open>A subscriber that asks for overflow errors and whose buffer is smaller than its
  catch-up never gets its subscription: \<^verbatim>\<open>Subscribe\<close> calls \<^verbatim>\<open>sub.Cancel()\<close> while it
  holds \<^verbatim>\<open>deliveryMu\<close>, which \<^verbatim>\<open>Cancel\<close> locks again, and the call does not return.\<close>

theorem subscribe_overflow_error_deadlocks:
  assumes "\<not> closed s" and "0 \<le> n"
    and "Replay cd s flt [] = Inr es" and "nat n < length es"
    and "\<forall>e \<in> set es. EventType e \<noteq> EventMergeBundle"
  shows "fst (Subscribe cd ch s flt [WithSubscriberBuffer n, WithOverflowPolicy OverflowError]) = None"
proof -
  let ?st = "zero_settings\<lparr>sub_buffer := n, set_overflowPolicy := OverflowError\<rparr>"
  have "replay_for cd s flt ?st = replay_for cd s flt zero_settings"
    by (simp add: replay_for_def replayLogicalLocked_def replayLocked_def replayStartLocked_def
        zero_settings_def)
  with assms(3) have rep: "replay_for cd s flt ?st = Inr es" by (simp add: Replay_def)
  from Subscribe_open [OF assms(1), of ?st "[WithSubscriberBuffer n, WithOverflowPolicy OverflowError]"
      cd flt es "nat n", OF _ _ rep] assms(2)
  have eq: "Subscribe cd ch s flt [WithSubscriberBuffer n, WithOverflowPolicy OverflowError]
     = catch_up cd ch (nextSubID s + 1)
     (s\<lparr>nextSubID := nextSubID s + 1,
        subs := map_set (subs s) (nextSubID s + 1)
          \<lparr>sub_filter = flt, expanded = True, queue = [], capacity = nat n, receivers = 0,
           done_closed = False, events_closed = False, overflowPolicy = OverflowError\<rparr>,
        subscribers := subscribers s @ [nextSubID s + 1]\<rparr>) es"
    by (simp add: zero_settings_def)
  show ?thesis
    unfolding eq
    using catch_up_spec [OF _ _ assms(5), of _ "nextSubID s + 1" "\<lparr>sub_filter = flt, expanded = True,
        queue = [], capacity = nat n, receivers = 0, done_closed = False, events_closed = False,
        overflowPolicy = OverflowError\<rparr>"] assms(4)
    by (simp add: fresh_sub_def)
qed

section \<open>Emit\<close>

text \<open>C1. In every reachable state of a stream shared by any number of producers and
  consumers, the replay buffer holds the most recent events: as many as the limit or the number
  of accepted events allow, with consecutive sequence numbers ending at the last one assigned,
  each with its logical time equal to its sequence number and a valid payload.\<close>

theorem reachable_replay_window:
  assumes "reach stream_start (stream_step cd) s"
  shows "length (buffer s) = min (bufferLimit s) (unat (nextSeq s))
    \<and> map (\<lambda>e. unat (SequenceNumber e)) (buffer s)
        = [Suc (unat (nextSeq s)) - length (buffer s)..<Suc (unat (nextSeq s))]
    \<and> (\<forall>e \<in> set (buffer s). LogicalTime e = SequenceNumber e \<and> event_valid e)"
  using streams.reach_inv [OF assms] by (auto simp: stream_wf_def buf_wf_def seq_window_def)

lemma Emit_no_panic:
  assumes wf: "subs_wf s"
  shows "fst (Emit cd sched ctx now s ev) \<noteq> SrPanic"
proof -
  obtain r t where em: "Emit cd sched ctx now s ev = (r, t)" by force
  from em have "r \<noteq> SrPanic"
  proof (cases rule: Emit_cases)
    case (accepted p)
    let ?u = "appendBufferLocked (s\<lparr>nextSeq := nextSeq s + 1, nextLogicalTime := nextLogicalTime s + 1\<rparr>) p"
    have "fst (deliver cd sched ctx p (filter (sub_matches s p) (subscribers s)) ?u) \<noteq> SrPanic"
      using wf by (intro deliver_no_panic) (auto simp: subs_wf_def)
    with accepted(3) show ?thesis by simp
  qed auto
  with em show ?thesis by simp
qed

text \<open>No interleaving of emits, subscriptions, cancellations and closes makes
  \<^verbatim>\<open>Emit\<close> send on a closed channel, which would panic.\<close>

theorem emit_never_panics:
  assumes "reach stream_start (stream_step cd) s"
  shows "fst (Emit cd sched ctx now s ev) \<noteq> SrPanic"
  using streams.reach_inv [OF assms] by (simp add: stream_wf_def Emit_no_panic)

lemma deliver_all:
  assumes "distinct ids"
    and "\<And>i. i \<in> set ids \<Longrightarrow> \<exists>sub. map_get (subs s) i = Some sub
       \<and> send cd (sched i) ctx sub p = (SrOk, sub\<lparr>queue := queue sub @ logical cd sub p\<rparr>)"
  shows "fst (deliver cd sched ctx p ids s) = SrOk
    \<and> (\<forall>i. map_get (subs (snd (deliver cd sched ctx p ids s))) i =
        (if i \<in> set ids then map_option (\<lambda>sub. sub\<lparr>queue := queue sub @ logical cd sub p\<rparr>) (map_get (subs s) i)
         else map_get (subs s) i))"
  using assms
proof (induction ids arbitrary: s)
  case (Cons j ids)
  from Cons.prems(2) [of j] obtain sub where j: "map_get (subs s) j = Some sub"
    "send cd (sched j) ctx sub p = (SrOk, sub\<lparr>queue := queue sub @ logical cd sub p\<rparr>)" by auto
  let ?s = "s\<lparr>subs := map_set (subs s) j (sub\<lparr>queue := queue sub @ logical cd sub p\<rparr>)\<rparr>"
  have eq: "deliver cd sched ctx p (j # ids) s = deliver cd sched ctx p ids ?s" using j by simp
  have "fst (deliver cd sched ctx p ids ?s) = SrOk
    \<and> (\<forall>i. map_get (subs (snd (deliver cd sched ctx p ids ?s))) i =
        (if i \<in> set ids then map_option (\<lambda>sub. sub\<lparr>queue := queue sub @ logical cd sub p\<rparr>) (map_get (subs ?s) i)
         else map_get (subs ?s) i))"
    using Cons.prems by (intro Cons.IH) auto
  with Cons.prems(1) j show ?case unfolding eq by auto
qed simp

definition can_take :: "codec \<Rightarrow> subscription \<Rightarrow> event \<Rightarrow> bool" where
  "can_take cd sub p \<longleftrightarrow> accepting sub (length (logical cd sub p))
     \<and> (expanded sub \<and> EventType p = EventMergeBundle \<longrightarrow>
          (\<exists>es. FilterBundleEvent cd p (sub_filter sub) = Inr es))"

lemma send_can_take:
  assumes "can_take cd sub p"
  shows "send cd ch None sub p = (SrOk, sub\<lparr>queue := queue sub @ logical cd sub p\<rparr>)"
proof (cases "expanded sub \<and> EventType p = EventMergeBundle")
  case True
  with assms obtain es where "FilterBundleEvent cd p (sub_filter sub) = Inr es"
    by (auto simp: can_take_def)
  with assms True show ?thesis by (simp add: can_take_def logical_def send_accepting_bundle)
next
  case False
  with assms have "accepting sub (Suc 0)" by (auto simp: can_take_def logical_def)
  with False show ?thesis by (auto simp: logical_def send_accepting_plain)
qed

lemma Emit_delivers:
  assumes "stream_wf s" and "\<not> closed s"
    and "prepare ev (st_scope s) (nextSeq s + 1) (nextLogicalTime s + 1) now = Inr p"
    and "\<forall>i \<in> set (subscribers s). \<forall>sub. map_get (subs s) i = Some sub \<longrightarrow> sub_matches s p i \<longrightarrow> can_take cd sub p"
  shows "fst (Emit cd sched None now s ev) = SrOk
    \<and> (\<forall>i. map_get (subs (snd (Emit cd sched None now s ev))) i =
        (if i \<in> set (subscribers s) \<and> sub_matches s p i
         then map_option (\<lambda>sub. sub\<lparr>queue := queue sub @ logical cd sub p\<rparr>) (map_get (subs s) i)
         else map_get (subs s) i))"
proof -
  let ?ids = "filter (sub_matches s p) (subscribers s)"
  let ?u = "appendBufferLocked (s\<lparr>nextSeq := nextSeq s + 1, nextLogicalTime := nextLogicalTime s + 1\<rparr>) p"
  have em: "Emit cd sched None now s ev = deliver cd sched None p ?ids ?u"
    using assms(2,3) by (simp add: Emit_def)
  have "fst (deliver cd sched None p ?ids ?u) = SrOk
    \<and> (\<forall>i. map_get (subs (snd (deliver cd sched None p ?ids ?u))) i =
        (if i \<in> set ?ids then map_option (\<lambda>sub. sub\<lparr>queue := queue sub @ logical cd sub p\<rparr>) (map_get (subs ?u) i)
         else map_get (subs ?u) i))"
  proof (rule deliver_all)
    show "distinct ?ids" using assms(1) by (simp add: stream_wf_def subs_wf_def)
    fix i assume i: "i \<in> set ?ids"
    with assms(1) obtain sub where sub: "map_get (subs s) i = Some sub"
      by (auto simp: stream_wf_def subs_wf_def)
    with assms(4) i have "can_take cd sub p" by auto
    with sub show "\<exists>sub. map_get (subs ?u) i = Some sub
       \<and> send cd (sched i) None sub p = (SrOk, sub\<lparr>queue := queue sub @ logical cd sub p\<rparr>)"
      by (auto simp: send_can_take)
  qed
  then show ?thesis unfolding em by (simp add: conj_commute)
qed

text \<open>C2. Fan-out without loss: when the event is accepted and every attached subscriber it
  matches has room for its logical events, \<^verbatim>\<open>Emit\<close> succeeds, each of those subscribers
  gets exactly its logical events appended to its queue in order, and no other subscription
  changes.\<close>

theorem emit_delivers_to_all:
  assumes "stream_wf s" and "\<not> closed s"
    and "prepare ev (st_scope s) (nextSeq s + 1) (nextLogicalTime s + 1) now = Inr p"
    and "\<forall>i \<in> set (subscribers s). \<forall>sub. map_get (subs s) i = Some sub \<longrightarrow> sub_matches s p i \<longrightarrow> can_take cd sub p"
  shows "fst (Emit cd sched None now s ev) = SrOk
    \<and> (\<forall>i. map_get (subs (snd (Emit cd sched None now s ev))) i =
        (if i \<in> set (subscribers s) \<and> sub_matches s p i
         then map_option (\<lambda>sub. sub\<lparr>queue := queue sub @ logical cd sub p\<rparr>) (map_get (subs s) i)
         else map_get (subs s) i))"
  using assms by (rule Emit_delivers)

text \<open>An accepted event is numbered and recorded whatever its subscribers do: the counter
  advances by one and the buffer is the last \<open>bufferLimit\<close> events of the old buffer followed by
  the prepared event, also when delivery returns an error; a refused event leaves the stream as
  it was.\<close>

theorem emit_records_event:
  assumes "stream_wf s"
  shows "case prepare ev (st_scope s) (nextSeq s + 1) (nextLogicalTime s + 1) now of
      Inl e \<Rightarrow> Emit cd sched ctx now s ev = (SrErr (if closed s then ErrClosed else e), s)
    | Inr p \<Rightarrow>
        if closed s then Emit cd sched ctx now s ev = (SrErr ErrClosed, s)
        else nextSeq (snd (Emit cd sched ctx now s ev)) = nextSeq s + 1
          \<and> buffer (snd (Emit cd sched ctx now s ev))
              = drop (Suc (length (buffer s)) - bufferLimit s) (buffer s @ [p])
          \<and> subscribers (snd (Emit cd sched ctx now s ev)) = subscribers s"
proof (cases "prepare ev (st_scope s) (nextSeq s + 1) (nextLogicalTime s + 1) now")
  case (Inl e)
  then show ?thesis by (simp add: Emit_def)
next
  case (Inr p)
  let ?u = "appendBufferLocked (s\<lparr>nextSeq := nextSeq s + 1, nextLogicalTime := nextLogicalTime s + 1\<rparr>) p"
  have le: "length (buffer s) \<le> bufferLimit s" using assms by (simp add: stream_wf_def buf_wf_def)
  have buf: "buffer ?u = drop (Suc (length (buffer s)) - bufferLimit s) (buffer s @ [p])"
  proof (cases "bufferLimit s = 0")
    case True
    with le show ?thesis by (simp add: appendBufferLocked_def)
  next
    case False
    with le show ?thesis
      by (cases "buffer s") (auto simp: appendBufferLocked_def Suc_diff_le)
  qed
  have "queues_extend ?u (snd (deliver cd sched ctx p (filter (sub_matches s p) (subscribers s)) ?u))"
    by (rule deliver_queues_extend)
  from queues_extend_fields [OF this] Inr buf show ?thesis by (simp add: Emit_def)
qed

text \<open>Fan-out is not isolated: when the first matching subscriber in iteration order is
  full and asked for overflow errors, \<^verbatim>\<open>Emit\<close> returns its error at once and no other
  subscriber receives the event, even one with room.\<close>

theorem emit_overflow_starves_others:
  assumes "\<not> closed s"
    and "prepare ev (st_scope s) (nextSeq s + 1) (nextLogicalTime s + 1) now = Inr p"
    and "EventType p \<noteq> EventMergeBundle"
    and "filter (sub_matches s p) (subscribers s) = i # ids"
    and "map_get (subs s) i = Some sub" and "fresh_sub sub"
    and "capacity sub \<le> length (queue sub)" and "overflowPolicy sub = OverflowError"
  shows "fst (Emit cd sched None now s ev) = SrErr ErrSubscriberOverflow
    \<and> (\<forall>j. map_get (subs (snd (Emit cd sched None now s ev))) j = map_get (subs s) j)"
  using assms send_fresh_full [OF assms(6,7,3), of cd "sched i"] by (simp add: Emit_def)

section \<open>Close\<close>

lemma Close_begin_fields:
  "\<not> closed s \<Longrightarrow> closed (Close_begin s) \<and> subscribers (Close_begin s) = subscribers s
     \<and> buffer (Close_begin s) = buffer s \<and> nextSeq (Close_begin s) = nextSeq s"
proof -
  have "closed (fold (\<lambda>i. upd_sub i closeDone) ids t) = closed t
      \<and> subscribers (fold (\<lambda>i. upd_sub i closeDone) ids t) = subscribers t
      \<and> buffer (fold (\<lambda>i. upd_sub i closeDone) ids t) = buffer t
      \<and> nextSeq (fold (\<lambda>i. upd_sub i closeDone) ids t) = nextSeq t" for ids t
    by (induction ids arbitrary: t) auto
  then show "\<not> closed s \<Longrightarrow> ?thesis" by (simp add: Close_begin_def)
qed

lemma Cancel_locked_fields [simp]:
  "closed (Cancel_locked i s) = closed s" "buffer (Cancel_locked i s) = buffer s"
  "nextSeq (Cancel_locked i s) = nextSeq s"
  "subscribers (Cancel_locked i s) = removeAll i (subscribers s)"
  by (simp_all add: Cancel_locked_def)

lemma Close_end_fields:
  "closed (Close_end ids s) = closed s \<and> buffer (Close_end ids s) = buffer s
     \<and> nextSeq (Close_end ids s) = nextSeq s
     \<and> set (subscribers (Close_end ids s)) = set (subscribers s) - set ids"
  by (induction ids arbitrary: s) (auto simp: Close_end_Cons)

text \<open>\<^verbatim>\<open>Close\<close> detaches every subscriber, keeps the replay buffer, and makes every
  later \<^verbatim>\<open>Emit\<close> and \<^verbatim>\<open>Subscribe\<close> fail with \<^verbatim>\<open>ErrClosed\<close> and change
  nothing.\<close>

theorem close_rejects_later_use:
  assumes "\<not> closed s"
  shows "subscribers (Close s) = [] \<and> buffer (Close s) = buffer s
    \<and> Emit cd sched ctx now (Close s) ev = (SrErr ErrClosed, Close s)
    \<and> Subscribe cd ch (Close s) flt opts = (Some (Inl ErrClosed), Close s)"
proof -
  have c: "closed (Close s)" "buffer (Close s) = buffer s" "set (subscribers (Close s)) = {}"
    using assms Close_begin_fields [OF assms] Close_end_fields [of "subscribers s" "Close_begin s"]
    by (auto simp: Close_def)
  then show ?thesis by (simp add: Emit_def Subscribe_def Let_def)
qed

section \<open>Concrete streams\<close>

definition ex_codec :: codec where
  "ex_codec = \<lparr>encode = (\<lambda>_. None), decode = (\<lambda>_. None)\<rparr>"

definition ex_event :: event where
  "ex_event = zero_event\<lparr>EventType := ''status.progress'', From := empty_source\<lparr>Layer := ''skill''\<rparr>,
     Status := ''running''\<rparr>"

definition ex_stream :: "nat \<Rightarrow> stream" where
  "ex_stream n = ((\<lambda>s. snd (Emit ex_codec (\<lambda>_ _. 0) None 1 s ex_event)) ^^ n) (New empty_scope DefaultConfig)"

lemma ex_stream_Suc: "ex_stream (Suc n) = snd (Emit ex_codec (\<lambda>_ _. 0) None 1 (ex_stream n) ex_event)"
  by (simp add: ex_stream_def)

lemma ex_prepare:
  "prepare ex_event empty_scope q l 1 = Inr (ex_event\<lparr>Delta := Some ''null'', SequenceNumber := q,
     LogicalTime := l, Timestamp := 1\<rparr>)"
  by (simp add: prepare_Inr_iff with_defaults_def ex_event_def zero_event_def empty_source_def
      event_marshalable_def time_marshalable_def metadata_marshalable_def json_Valid_null)

lemma ex_stream_eq:
  assumes "n \<le> 1024"
  shows "ex_stream n = (New empty_scope DefaultConfig)\<lparr>nextSeq := of_nat n, nextLogicalTime := of_nat n,
     buffer := map (\<lambda>k. ex_event\<lparr>Delta := Some ''null'', SequenceNumber := of_nat k,
       LogicalTime := of_nat k, Timestamp := 1\<rparr>) [1..<Suc n]\<rparr>"
  using assms
proof (induction n)
  case 0
  then show ?case by (simp add: ex_stream_def New_def)
next
  case (Suc n)
  then show ?case
    by (simp add: ex_stream_Suc Emit_def New_def DefaultConfig_def defaultBufferLimit_def ex_prepare
        appendBufferLocked_def add.commute Let_def)
qed

lemma ex_stream_reach: "n \<le> 1024 \<Longrightarrow> reach stream_start (stream_step ex_codec) (ex_stream n)"
proof (induction n)
  case 0
  then show ?case by (auto simp: ex_stream_def stream_start_def intro: reach.reach_start)
next
  case (Suc n)
  have "unat (of_nat n :: u64) < 2 ^ 64 - 1"
    using Suc.prems by (simp add: unat_of_nat)
  then have "unat (nextSeq (ex_stream n)) < 2 ^ 64 - 1"
    using Suc.prems by (simp add: ex_stream_eq)
  then have "stream_step ex_codec (ex_stream n) (ex_stream (Suc n))"
    unfolding ex_stream_Suc by (rule stream_step.emit)
  with Suc show ?case by (auto intro: reach.reach_step)
qed

lemma ex_stream_wf: "n \<le> 1024 \<Longrightarrow> stream_wf (ex_stream n)"
  using streams.reach_inv ex_stream_reach by blast

theorem replay_options_exact_witness:
  "Replay ex_codec (ex_stream 3) empty_filter [WithRawStream, WithReplayLast 2]
     = Inr (drop 1 (buffer (ex_stream 3)))
   \<and> map SequenceNumber (buffer (ex_stream 3)) = [1, 2, 3]"
  using replay_options_exact [OF ex_stream_wf [of 3], of 1 2 ex_codec empty_filter]
  by (simp add: ex_stream_eq upt_rec)

theorem replay_last_zero_replays_all_witness:
  "Replay ex_codec (ex_stream 3) empty_filter [WithRawStream, WithReplayLast 0]
     = Inr (buffer (ex_stream 3)) \<and> length (buffer (ex_stream 3)) = 3"
  using replay_last_zero_replays_all [OF ex_stream_wf [of 3], of ex_codec empty_filter]
  by (simp add: ex_stream_eq)

lemma ex_plain: "n \<le> 1024 \<Longrightarrow> \<forall>e \<in> set (buffer (ex_stream n)). EventType e \<noteq> EventMergeBundle"
  by (auto simp: ex_stream_eq ex_event_def EventMergeBundle_def)

lemma ex_Replay: "n \<le> 1024 \<Longrightarrow> Replay ex_codec (ex_stream n) empty_filter [] = Inr (buffer (ex_stream n))"
  by (simp add: Replay_plain ex_stream_wf ex_plain)

lemma ex_open: "n \<le> 1024 \<Longrightarrow> \<not> closed (ex_stream n)"
  by (simp add: ex_stream_eq New_def)

lemma ex_length: "n \<le> 1024 \<Longrightarrow> length (buffer (ex_stream n)) = n"
  by (simp add: ex_stream_eq)

theorem subscribe_default_truncates_replay_witness:
  "\<exists>sub. map_get (subs (snd (Subscribe ex_codec (\<lambda>_. 0) (ex_stream 20) empty_filter []))) 1 = Some sub
     \<and> queue sub = take 16 (buffer (ex_stream 20)) \<and> length (buffer (ex_stream 20)) = 20"
proof -
  have "nextSubID (ex_stream 20) = 0" by (simp add: ex_stream_eq New_def)
  with subscribe_default_truncates_replay [OF ex_open [of 20] ex_Replay [of 20] ex_plain, of "\<lambda>_. 0"]
  show ?thesis by (simp add: ex_length)
qed

theorem subscribe_overflow_error_deadlocks_witness:
  "fst (Subscribe ex_codec (\<lambda>_. 0) (ex_stream 3) empty_filter
     [WithSubscriberBuffer 2, WithOverflowPolicy OverflowError]) = None"
  using subscribe_overflow_error_deadlocks [OF ex_open [of 3] _ ex_Replay [of 3] _ ex_plain, of 2 "\<lambda>_. 0"]
  by (simp add: ex_length)

theorem reachable_replay_window_witness:
  "reach stream_start (stream_step ex_codec) (ex_stream 3)
   \<and> length (buffer (ex_stream 3)) = min (bufferLimit (ex_stream 3)) (unat (nextSeq (ex_stream 3)))"
  using reachable_replay_window [OF ex_stream_reach [of 3]] ex_stream_reach [of 3] by simp

theorem emit_never_panics_witness:
  "reach stream_start (stream_step ex_codec) (ex_stream 3)
   \<and> fst (Emit ex_codec (\<lambda>_ _. 0) None 1 (ex_stream 3) ex_event) \<noteq> SrPanic"
  using emit_never_panics [OF ex_stream_reach [of 3]] ex_stream_reach [of 3] by simp

text \<open>A stream with two raw subscribers: the first is full and wants overflow errors.\<close>

definition ex_sub :: "nat \<Rightarrow> string \<Rightarrow> subscription" where
  "ex_sub cap policy = \<lparr>sub_filter = empty_filter, expanded = False, queue = [], capacity = cap,
     receivers = 0, done_closed = False, events_closed = False, overflowPolicy = policy\<rparr>"

definition ex_two :: "nat \<Rightarrow> stream" where
  "ex_two cap = (New empty_scope DefaultConfig)\<lparr>nextSubID := 2,
     subs := [(1, ex_sub cap OverflowError), (2, ex_sub 4 OverflowDropNewest)], subscribers := [1, 2]\<rparr>"

definition ex_prepared :: event where
  "ex_prepared = ex_event\<lparr>Delta := Some ''null'', SequenceNumber := 1, LogicalTime := 1, Timestamp := 1\<rparr>"

lemma ex_two_facts:
  "stream_wf (ex_two cap)" "\<not> closed (ex_two cap)"
  "prepare ex_event (st_scope (ex_two cap)) (nextSeq (ex_two cap) + 1) (nextLogicalTime (ex_two cap) + 1) 1
     = Inr ex_prepared"
  "filter (sub_matches (ex_two cap) ex_prepared) (subscribers (ex_two cap)) = [1, 2]"
  "EventType ex_prepared \<noteq> EventMergeBundle"
  by (simp_all add: ex_two_def stream_wf_def buf_wf_def subs_wf_def seq_window_def New_def map_ok_def
      map_has_def ex_sub_def ex_prepare ex_prepared_def sub_matches_def EventMergeBundle_def)
    (simp add: ex_event_def)

theorem emit_delivers_to_all_witness:
  "fst (Emit ex_codec (\<lambda>_ _. 0) None 1 (ex_two 1) ex_event) = SrOk
   \<and> map_option queue (map_get (subs (snd (Emit ex_codec (\<lambda>_ _. 0) None 1 (ex_two 1) ex_event))) 2)
       = Some [ex_prepared]"
proof -
  have take: "\<forall>i \<in> set (subscribers (ex_two 1)). \<forall>sub. map_get (subs (ex_two 1)) i = Some sub \<longrightarrow>
      sub_matches (ex_two 1) ex_prepared i \<longrightarrow> can_take ex_codec sub ex_prepared"
    by (auto simp: ex_two_def ex_sub_def can_take_def accepting_def logical_def split: if_splits)
  have "sub_matches (ex_two 1) ex_prepared 2"
    using ex_two_facts(4) [of 1] by (metis filter_eq_ConsD filter_set list.set_intros(1,2) set_filter mem_Collect_eq)
  with emit_delivers_to_all [OF ex_two_facts(1-3) take, of "\<lambda>_ _. 0"] show ?thesis
    by (simp add: ex_two_def ex_sub_def logical_def)
qed

theorem emit_records_event_witness:
  "stream_wf (ex_two 0) \<and> buffer (snd (Emit ex_codec (\<lambda>_ _. 0) None 1 (ex_two 0) ex_event)) = [ex_prepared]"
  using emit_records_event [OF ex_two_facts(1), where cap1 = 0 and ev = ex_event and now = 1
      and cd = ex_codec and sched = "\<lambda>_ _. 0" and ctx = None] ex_two_facts(1-3) [of 0]
  by (simp add: ex_two_def New_def DefaultConfig_def defaultBufferLimit_def)

theorem emit_overflow_starves_others_witness:
  "fst (Emit ex_codec (\<lambda>_ _. 0) None 1 (ex_two 0) ex_event) = SrErr ErrSubscriberOverflow
   \<and> map_get (subs (snd (Emit ex_codec (\<lambda>_ _. 0) None 1 (ex_two 0) ex_event))) 2
       = Some (ex_sub 4 OverflowDropNewest)"
  using emit_overflow_starves_others [OF ex_two_facts(2,3,5,4), of 0 "ex_sub 0 OverflowError" ex_codec
      "\<lambda>_ _. 0"]
  by (simp add: ex_two_def ex_sub_def fresh_sub_def)

theorem close_rejects_later_use_witness:
  "\<not> closed (ex_two 1) \<and> subscribers (Close (ex_two 1)) = []
   \<and> Emit ex_codec (\<lambda>_ _. 0) None 1 (Close (ex_two 1)) ex_event = (SrErr ErrClosed, Close (ex_two 1))"
  using close_rejects_later_use [OF ex_two_facts(2) [of 1], of ex_codec] ex_two_facts(2) by blast

end
