(* ===== verification/Fifo_Spec.thy ===== *)
theory Fifo_Spec
  imports Dango_Prelude
begin

text \<open>
  The contract of a FIFO queue, over its abstraction to the list of waiting elements: enqueue
  appends (or refuses), dequeue removes the oldest, and both keep the representation invariant.
  The per-upstream buffers of the merge hub promise it.
\<close>

locale fifo_queue =
  fixes enq :: "'q \<Rightarrow> 'a \<Rightarrow> 'q option"
    and deq :: "'q \<Rightarrow> ('a \<times> 'q) option"
    and contents :: "'q \<Rightarrow> 'a list"
    and invar :: "'q \<Rightarrow> bool"
  assumes enq_Some: "invar q \<Longrightarrow> enq q x = Some q' \<Longrightarrow> invar q' \<and> contents q' = contents q @ [x]"
    and deq_Some: "invar q \<Longrightarrow> deq q = Some (x, q') \<Longrightarrow> invar q' \<and> contents q = x # contents q'"
    and deq_None: "invar q \<Longrightarrow> deq q = None \<Longrightarrow> contents q = []"
begin

fun enqs :: "'q \<Rightarrow> 'a list \<Rightarrow> 'q option" where
  "enqs q [] = Some q"
| "enqs q (x # xs) = (case enq q x of None \<Rightarrow> None | Some q' \<Rightarrow> enqs q' xs)"

fun deqs :: "nat \<Rightarrow> 'q \<Rightarrow> 'a list \<times> 'q" where
  "deqs 0 q = ([], q)"
| "deqs (Suc n) q =
     (case deq q of None \<Rightarrow> ([], q) | Some (x, q') \<Rightarrow> (case deqs n q' of (xs, q'') \<Rightarrow> (x # xs, q'')))"

lemma enqs_contents: "invar q \<Longrightarrow> enqs q xs = Some q' \<Longrightarrow> invar q' \<and> contents q' = contents q @ xs"
proof (induction xs arbitrary: q)
  case (Cons x xs)
  then obtain q1 where q1: "enq q x = Some q1" "enqs q1 xs = Some q'"
    by (auto split: option.splits)
  from enq_Some [OF Cons.prems(1) q1(1)] Cons.IH [OF _ q1(2)] show ?case by simp
qed simp

lemma deqs_contents:
  "invar q \<Longrightarrow> deqs n q = (xs, q') \<Longrightarrow>
   invar q' \<and> xs = take n (contents q) \<and> contents q' = drop n (contents q)"
proof (induction n arbitrary: q xs q')
  case (Suc n)
  show ?case
  proof (cases "deq q")
    case None
    with Suc.prems deq_None [OF Suc.prems(1) None] show ?thesis by simp
  next
    case (Some a)
    obtain x q1 where a: "a = (x, q1)" by force
    obtain ys q2 where d: "deqs n q1 = (ys, q2)" by force
    note q1 = deq_Some [OF Suc.prems(1) Some [unfolded a]]
    from Suc.IH [OF _ d] q1 Suc.prems(2) Some a d show ?thesis by simp
  qed
qed simp

text \<open>What goes in comes out, in order.\<close>

lemma fifo_order:
  "invar q \<Longrightarrow> contents q = [] \<Longrightarrow> enqs q xs = Some q' \<Longrightarrow> fst (deqs (length xs) q') = xs"
proof -
  assume q: "invar q" "contents q = []" "enqs q xs = Some q'"
  obtain ys q2 where d: "deqs (length xs) q' = (ys, q2)" by force
  from deqs_contents [OF _ d] enqs_contents [OF q(1,3)] q(2) d show ?thesis by simp
qed

end

end
