(* ===== verification/Stream_Merge.thy ===== *)
theory Stream_Merge
  imports Stream_Theorems Fifo_Spec
begin

text \<open>
  \<^verbatim>\<open>stream/merge.go\<close>: per-upstream FIFOs, the joining of adjacent string deltas, the
  merge hub that emits one bundle per tick, and the goroutines that feed it.

  The hub's methods run under its mutex, so each is one state transformer on \<open>merge_hub\<close>.
  \<^verbatim>\<open>flushTick\<close> releases the mutex before it emits; the emit is part of the same
  transformer here because the popped items are already private to it.  A feeding goroutine is
  the function from what \<^verbatim>\<open>sub.Next\<close> returned to the hub calls it then makes.  The hub
  context's cancellation is the flag \<open>hub_canceled\<close>.
\<close>

section \<open>Join keys and deltas\<close>

record upstream_identity =
  up_layer :: string
  up_id :: string

record join_key =
  jk_upstream :: upstream_identity
  jk_eventType :: string
  jk_status :: string

definition upstreamIdentityOf :: "source \<Rightarrow> upstream_identity" where
  "upstreamIdentityOf src = \<lparr>up_layer = Layer src, up_id = ID src\<rparr>"

definition joinKeyOf :: "event \<Rightarrow> join_key" where
  "joinKeyOf event = \<lparr>jk_upstream = upstreamIdentityOf (From event), jk_eventType = EventType event,
     jk_status = Status event\<rparr>"

definition delta_bytes :: "event \<Rightarrow> bytes" where
  "delta_bytes e = (case Delta e of None \<Rightarrow> [] | Some d \<Rightarrow> d)"

definition isJoinableStringDelta :: "bytes \<Rightarrow> bool" where
  "isJoinableStringDelta delta =
     (if length delta < 2 then False
      else delta ! 0 = quote \<and> delta ! (length delta - 1) = quote)"

definition canJoinDeltas :: "bytes \<Rightarrow> bytes \<Rightarrow> bool" where
  "canJoinDeltas prevDelta nextDelta \<longleftrightarrow>
     isJoinableStringDelta prevDelta \<and> isJoinableStringDelta nextDelta"

definition canJoinEvents :: "event \<Rightarrow> event \<Rightarrow> bool" where
  "canJoinEvents base nxt \<longleftrightarrow>
     joinKeyOf base = joinKeyOf nxt \<and> canJoinDeltas (delta_bytes base) (delta_bytes nxt)"

section \<open>Upstream FIFOs\<close>

definition defaultMergePerUpstreamBufferDepth :: int where
  "defaultMergePerUpstreamBufferDepth = 4096"

record upstream_fifo =
  fifo_identity :: upstream_identity
  maxDepth :: int
  fifo_events :: "event list"

definition newUpstreamFIFO :: "upstream_identity \<Rightarrow> int \<Rightarrow> upstream_fifo" where
  "newUpstreamFIFO identity depth =
     \<lparr>fifo_identity = identity,
      maxDepth = (if depth \<le> 0 then defaultMergePerUpstreamBufferDepth else depth),
      fifo_events = []\<rparr>"

definition fifo_enqueue :: "upstream_fifo \<Rightarrow> event \<Rightarrow> (stream_error, upstream_fifo) result" where
  "fifo_enqueue f event =
     (if int (length (fifo_events f)) \<ge> maxDepth f then Inl ErrBufferFull
      else Inr (f\<lparr>fifo_events := fifo_events f @ [event]\<rparr>))"

definition fifo_pop :: "upstream_fifo \<Rightarrow> event option \<times> upstream_fifo" where
  "fifo_pop f =
     (case fifo_events f of
        [] \<Rightarrow> (None, f)
      | event # rest \<Rightarrow> (Some event, f\<lparr>fifo_events := rest\<rparr>))"

fun join_count :: "event \<Rightarrow> event list \<Rightarrow> nat" where
  "join_count base [] = 0"
| "join_count base (e # es) = (if canJoinEvents base e then Suc (join_count base es) else 0)"

text \<open>\<^verbatim>\<open>d[1:len(d)-1]\<close>\<close>

definition inner :: "bytes \<Rightarrow> bytes" where
  "inner d = drop 1 (take (length d - 1) d)"

definition popJoinedHead :: "upstream_fifo \<Rightarrow> event option \<times> upstream_fifo" where
  "popJoinedHead f =
     (case fifo_pop f of
        (None, f) \<Rightarrow> (None, f)
      | (Some event, f) \<Rightarrow>
          let joinCount = join_count event (fifo_events f) in
          if joinCount = 0 then (Some event, f)
          else
            let joined = [quote] @ inner (delta_bytes event)
                  @ concat (map (\<lambda>e. inner (delta_bytes e)) (take joinCount (fifo_events f)))
                  @ [quote]
            in (Some (event\<lparr>Delta := Some joined\<rparr>),
                f\<lparr>fifo_events := drop joinCount (fifo_events f)\<rparr>))"

section \<open>Merge configuration\<close>

record merge_window_config =
  TickDuration :: int
  PerUpstreamBufferDepth :: int

definition defaultMergeTickDuration :: int where
  "defaultMergeTickDuration = 10 * 1000000"

definition defaultMergeWindowConfig :: merge_window_config where
  "defaultMergeWindowConfig =
     \<lparr>TickDuration = 0, PerUpstreamBufferDepth = defaultMergePerUpstreamBufferDepth\<rparr>"

definition defaultHubMergeWindowConfig :: merge_window_config where
  "defaultHubMergeWindowConfig =
     \<lparr>TickDuration = defaultMergeTickDuration,
      PerUpstreamBufferDepth = defaultMergePerUpstreamBufferDepth\<rparr>"

definition normalizeMergeWindowConfig :: "merge_window_config \<Rightarrow> merge_window_config" where
  "normalizeMergeWindowConfig cfg =
     (if PerUpstreamBufferDepth cfg \<le> 0
      then cfg\<lparr>PerUpstreamBufferDepth := defaultMergePerUpstreamBufferDepth\<rparr> else cfg)"

type_synonym merge_hub_key = "int \<times> int"

definition mergeHubKeyOf :: "merge_window_config \<Rightarrow> merge_hub_key" where
  "mergeHubKeyOf cfg =
     (let cfg = normalizeMergeWindowConfig cfg in (TickDuration cfg, PerUpstreamBufferDepth cfg))"

section \<open>The hub\<close>

record merge_hub =
  downstream_scope :: scope
  tickDuration :: int
  perUpstreamBufferDepth :: int
  tickCounter :: u64
  fifosByIdentity :: "(upstream_identity, upstream_fifo) gomap"
  subscriptions :: "(upstream_identity, u64) gomap"
  pendingRegistrations :: int
  hub_canceled :: bool
  hub_err :: "stream_error option"

definition newMergeHub :: "scope \<Rightarrow> int \<Rightarrow> int \<Rightarrow> merge_hub" where
  "newMergeHub downstream tick perUpstreamDepth =
     \<lparr>downstream_scope = downstream, tickDuration = tick,
      perUpstreamBufferDepth =
        (if perUpstreamDepth \<le> 0 then defaultMergePerUpstreamBufferDepth else perUpstreamDepth),
      tickCounter = 0, fifosByIdentity = [], subscriptions = [], pendingRegistrations = 0,
      hub_canceled = False, hub_err = None\<rparr>"

definition idleLocked :: "merge_hub \<Rightarrow> bool" where
  "idleLocked h \<longleftrightarrow> pendingRegistrations h = 0 \<and> length (subscriptions h) = 0
     \<and> length (fifosByIdentity h) = 0"

definition cancel_if :: "bool \<Rightarrow> merge_hub \<Rightarrow> merge_hub" where
  "cancel_if stop h = (if stop then h\<lparr>hub_canceled := True\<rparr> else h)"

definition beginRegistration :: "merge_hub \<Rightarrow> merge_hub" where
  "beginRegistration h = h\<lparr>pendingRegistrations := pendingRegistrations h + 1\<rparr>"

definition drop_pending :: "merge_hub \<Rightarrow> merge_hub" where
  "drop_pending h =
     (if pendingRegistrations h > 0 then h\<lparr>pendingRegistrations := pendingRegistrations h - 1\<rparr> else h)"

definition cancelPendingRegistration :: "merge_hub \<Rightarrow> merge_hub" where
  "cancelPendingRegistration h = (let h = drop_pending h in cancel_if (idleLocked h) h)"

definition registerPendingUpstream ::
  "merge_hub \<Rightarrow> upstream_identity \<Rightarrow> u64 \<Rightarrow> stream_error option \<times> merge_hub" where
  "registerPendingUpstream h identity sub =
     (let h = drop_pending h in
      if hub_canceled h then (Some (ErrCtx Canceled), h)
      else if map_has (fifosByIdentity h) identity then (Some ErrUpstreamRegistered, h)
      else (None,
            h\<lparr>fifosByIdentity := map_set (fifosByIdentity h) identity
                 (newUpstreamFIFO identity (perUpstreamBufferDepth h)),
              subscriptions := map_set (subscriptions h) identity sub\<rparr>))"

definition hub_enqueue ::
  "merge_hub \<Rightarrow> upstream_identity \<Rightarrow> event \<Rightarrow> stream_error option \<times> merge_hub" where
  "hub_enqueue h identity event =
     (case map_get (fifosByIdentity h) identity of
        None \<Rightarrow> (Some ErrInvalidMerge, h)
      | Some fifo \<Rightarrow>
          (case fifo_enqueue fifo (prepareBundledMergedEvent event (downstream_scope h)) of
             Inl e \<Rightarrow> (Some e, h)
           | Inr fifo' \<Rightarrow>
               (None, h\<lparr>fifosByIdentity := map_set (fifosByIdentity h) identity fifo'\<rparr>)))"

definition closeUpstream :: "merge_hub \<Rightarrow> upstream_identity \<Rightarrow> merge_hub" where
  "closeUpstream h identity =
     (let h = h\<lparr>subscriptions := map_delete (subscriptions h) identity\<rparr>;
          h = (case map_get (fifosByIdentity h) identity of
                 Some fifo \<Rightarrow>
                   if length (fifo_events fifo) = 0
                   then h\<lparr>fifosByIdentity := map_delete (fifosByIdentity h) identity\<rparr> else h
               | None \<Rightarrow> h)
      in cancel_if (idleLocked h) h)"

definition unregisterUpstream :: "merge_hub \<Rightarrow> upstream_identity \<Rightarrow> merge_hub" where
  "unregisterUpstream h identity =
     (let h = h\<lparr>subscriptions := map_delete (subscriptions h) identity,
                fifosByIdentity := map_delete (fifosByIdentity h) identity\<rparr>
      in cancel_if (idleLocked h) h)"

definition hasFIFO :: "merge_hub \<Rightarrow> upstream_identity \<Rightarrow> bool" where
  "hasFIFO h identity \<longleftrightarrow> map_has (fifosByIdentity h) identity"

definition stopIfIdle :: "merge_hub \<Rightarrow> merge_hub" where
  "stopIfIdle h = cancel_if (idleLocked h) h"

definition hub_setErr :: "merge_hub \<Rightarrow> stream_error \<Rightarrow> merge_hub" where
  "hub_setErr h err =
     (if hub_err h = None \<and> err \<noteq> ErrCtx Canceled then h\<lparr>hub_err := Some err\<rparr> else h)"

definition hub_Stop :: "merge_hub \<Rightarrow> merge_hub" where
  "hub_Stop h = h\<lparr>hub_canceled := True\<rparr>"

definition active :: "merge_hub \<Rightarrow> bool" where
  "active h \<longleftrightarrow> \<not> hub_canceled h"

text \<open>The collection loop of \<^verbatim>\<open>flushTick\<close>, one FIFO at a time.\<close>

fun collect ::
  "(upstream_identity, u64) gomap \<Rightarrow> (upstream_identity, upstream_fifo) gomap
     \<Rightarrow> event list \<times> (upstream_identity, upstream_fifo) gomap" where
  "collect act [] = ([], [])"
| "collect act ((identity, fifo) # m) =
     (case popJoinedHead fifo of (ev, fifo') \<Rightarrow>
      (case collect act m of (items, m') \<Rightarrow>
        ((case ev of Some e \<Rightarrow> e # items | None \<Rightarrow> items),
         (if length (fifo_events fifo') = 0 \<and> \<not> map_has act identity then m'
          else (identity, fifo') # m'))))"

definition flushTick ::
  "codec \<Rightarrow> (u64 \<Rightarrow> u64 \<Rightarrow> nat \<Rightarrow> nat) \<Rightarrow> (u64 \<Rightarrow> time) \<Rightarrow> merge_hub \<Rightarrow> stream
     \<Rightarrow> bool \<times> merge_hub \<times> stream" where
  "flushTick cd sched clock h ds =
     (if length (fifosByIdentity h) = 0 then (False, h, ds)
      else
        (case collect (subscriptions h) (fifosByIdentity h) of (items, m) \<Rightarrow>
           let h = h\<lparr>fifosByIdentity := m\<rparr>;
               stop = idleLocked h;
               h = h\<lparr>tickCounter := tickCounter h + 1\<rparr>;
               tickID = tickCounter h
           in if length items = 0 then (False, cancel_if stop h, ds)
              else
                (case emitFrame cd (sched tickID) (if hub_canceled h then Some Canceled else None)
                        (clock tickID) ds (normalizeTickFrame items tickID) of
                   (SrOk, ds) \<Rightarrow> (True, cancel_if stop h, ds)
                 | (SrErr err, ds) \<Rightarrow> (False, cancel_if stop (hub_setErr h err), ds)
                 | (SrPanic, ds) \<Rightarrow> (False, h, ds))))"

section \<open>FIFO lemmas\<close>

lemma join_count_takeWhile: "join_count base es = length (takeWhile (canJoinEvents base) es)"
  by (induction es) auto

lemma take_join_count: "take (join_count base es) es = takeWhile (canJoinEvents base) es"
  by (induction es) auto

lemma drop_join_count: "drop (join_count base es) es = dropWhile (canJoinEvents base) es"
  by (induction es) auto

lemma popJoinedHead_empty: "fifo_events f = [] \<Longrightarrow> popJoinedHead f = (None, f)"
  by (simp add: popJoinedHead_def fifo_pop_def)

lemma popJoinedHead_Cons:
  assumes "fifo_events f = h # rest"
  shows "popJoinedHead f =
    (let js = takeWhile (canJoinEvents h) rest in
     (Some (if js = [] then h
            else h\<lparr>Delta := Some (quote # concat (map (\<lambda>e. inner (delta_bytes e)) (h # js)) @ [quote])\<rparr>),
      f\<lparr>fifo_events := dropWhile (canJoinEvents h) rest\<rparr>))"
proof -
  have "join_count h rest = 0 \<longleftrightarrow> takeWhile (canJoinEvents h) rest = []"
    by (simp add: join_count_takeWhile)
  moreover have "takeWhile (canJoinEvents h) rest = [] \<Longrightarrow> dropWhile (canJoinEvents h) rest = rest"
    by (metis append_Nil takeWhile_dropWhile_id)
  ultimately show ?thesis
    using assms
    by (simp add: popJoinedHead_def fifo_pop_def Let_def take_join_count drop_join_count)
qed

lemma popJoinedHead_None_iff: "fst (popJoinedHead f) = None \<longleftrightarrow> fifo_events f = []"
  by (cases "fifo_events f") (auto simp: popJoinedHead_empty popJoinedHead_Cons Let_def)

lemma popJoinedHead_shrinks:
  "length (fifo_events (snd (popJoinedHead f))) \<le> length (fifo_events f) - 1"
  by (cases "fifo_events f")
    (auto simp: popJoinedHead_empty popJoinedHead_Cons Let_def length_dropWhile_le)

lemma popJoinedHead_keeps:
  "maxDepth (snd (popJoinedHead f)) = maxDepth f"
  "fifo_identity (snd (popJoinedHead f)) = fifo_identity f"
  by (cases "fifo_events f"; auto simp: popJoinedHead_empty popJoinedHead_Cons Let_def)+

lemma joinable_decomp:
  assumes "json_Valid d" and "isJoinableStringDelta d"
  shows "d = quote # inner d @ [quote] \<and> str_body (inner d)"
proof -
  from assms(2) have len: "2 \<le> length d"
    by (simp add: isJoinableStringDelta_def split: if_splits)
  then have "d \<noteq> []" by auto
  with assms(2) have hd: "hd d = quote" and last: "last d = quote"
    by (simp_all add: isJoinableStringDelta_def hd_conv_nth last_conv_nth split: if_splits)
  from json_Valid_quoted [OF assms(1) len hd last] obtain b where
    "d = quote # b @ [quote]" "str_body b" by blast
  moreover from this have "inner d = b" by (simp add: inner_def)
  ultimately show ?thesis by simp
qed

lemma inner_quoted [simp]: "inner (quote # b @ [quote]) = b"
  by (simp add: inner_def)

lemma str_body_concat: "\<forall>b \<in> set bs. str_body b \<Longrightarrow> str_body (concat bs)"
  by (induction bs) (auto intro: str_body_append)

definition fifo_ok :: "upstream_fifo \<Rightarrow> bool" where
  "fifo_ok f \<longleftrightarrow> 0 < maxDepth f \<and> int (length (fifo_events f)) \<le> maxDepth f"

interpretation upstream_fifo: fifo_queue
  "\<lambda>f e. case fifo_enqueue f e of Inl _ \<Rightarrow> None | Inr f' \<Rightarrow> Some f'"
  "\<lambda>f. case fifo_pop f of (None, _) \<Rightarrow> None | (Some e, f') \<Rightarrow> Some (e, f')"
  fifo_events fifo_ok
  by unfold_locales
    (auto simp: fifo_enqueue_def fifo_pop_def fifo_ok_def split: sum.splits if_splits list.splits)

section \<open>Joining deltas\<close>

text \<open>The text an event carries: the body of a string delta, or the delta itself.\<close>

definition text_of :: "event \<Rightarrow> bytes" where
  "text_of e = (if isJoinableStringDelta (delta_bytes e) then inner (delta_bytes e) else delta_bytes e)"

definition valid_delta :: "event \<Rightarrow> bool" where
  "valid_delta e \<longleftrightarrow> (\<exists>d. Delta e = Some d \<and> json_Valid d)"

lemma joinable_quoted: "isJoinableStringDelta (quote # b @ [quote])"
  by (simp add: isJoinableStringDelta_def nth_append)

lemma takeWhile_joinable:
  "e \<in> set (takeWhile (canJoinEvents h) es) \<Longrightarrow>
     isJoinableStringDelta (delta_bytes h) \<and> isJoinableStringDelta (delta_bytes e)
     \<and> joinKeyOf e = joinKeyOf h"
  by (auto dest!: set_takeWhileD simp: canJoinEvents_def canJoinDeltas_def)

lemma valid_delta_body:
  "valid_delta e \<Longrightarrow> isJoinableStringDelta (delta_bytes e) \<Longrightarrow> str_body (inner (delta_bytes e))"
  by (auto simp: valid_delta_def delta_bytes_def dest: joinable_decomp)

lemma joined_spec:
  assumes "fifo_events f = h # rest" and "\<forall>e \<in> set (h # rest). valid_delta e"
    and "popJoinedHead f = (Some e, f')"
  shows "valid_delta e \<and> joinKeyOf e = joinKeyOf h \<and> Scope e = Scope h
    \<and> fifo_events f' = dropWhile (canJoinEvents h) rest
    \<and> text_of e = concat (map text_of (h # takeWhile (canJoinEvents h) rest))"
proof -
  let ?js = "takeWhile (canJoinEvents h) rest"
  note eq = popJoinedHead_Cons [OF assms(1)]
  show ?thesis
  proof (cases "?js = []")
    case True
    with eq assms show ?thesis by (auto simp: Let_def)
  next
    case False
    let ?bodies = "map (\<lambda>e. inner (delta_bytes e)) (h # ?js)"
    have join: "isJoinableStringDelta (delta_bytes x)" if "x \<in> set (h # ?js)" for x
      using that False takeWhile_joinable by (metis list.set_intros(1) neq_Nil_conv set_ConsD)
    have "str_body (inner (delta_bytes x))" if x: "x \<in> set (h # ?js)" for x
    proof (rule valid_delta_body)
      from x set_takeWhileD [of x "canJoinEvents h" rest] have "x \<in> set (h # rest)" by auto
      with assms(2) show "valid_delta x" by blast
    qed (rule join [OF x])
    then have "\<forall>b \<in> set ?bodies. str_body b" by simp
    then have body: "str_body (concat ?bodies)" by (rule str_body_concat)
    from eq False assms(3) have e: "e = h\<lparr>Delta := Some (quote # concat ?bodies @ [quote])\<rparr>"
      and f': "f' = f\<lparr>fifo_events := dropWhile (canJoinEvents h) rest\<rparr>"
      by (auto simp: Let_def)
    have d: "delta_bytes e = quote # concat ?bodies @ [quote]" by (simp add: e delta_bytes_def)
    have "concat ?bodies = concat (map text_of (h # ?js))"
      using join by (simp add: text_of_def cong: map_cong)
    moreover have "text_of e = concat ?bodies"
      unfolding text_of_def d using joinable_quoted inner_quoted by metis
    moreover have "valid_delta e" using json_Valid_string [OF body] by (simp add: valid_delta_def e)
    ultimately show ?thesis by (simp add: e f' joinKeyOf_def)
  qed
qed

text \<open>C3. Joining loses nothing and stays valid: when every queued delta is valid JSON, the
  event \<^verbatim>\<open>popJoinedHead\<close> returns has a valid delta again, keeps the head's join key and
  scope, and its text followed by the texts left in the FIFO is the text that was queued, in
  order.\<close>

theorem join_preserves_text:
  assumes "\<forall>e \<in> set (fifo_events f). valid_delta e"
    and "popJoinedHead f = (Some e, f')"
  shows "valid_delta e \<and> joinKeyOf e = joinKeyOf (hd (fifo_events f))
    \<and> Scope e = Scope (hd (fifo_events f))
    \<and> text_of e @ concat (map text_of (fifo_events f')) = concat (map text_of (fifo_events f))
    \<and> length (fifo_events f') < length (fifo_events f)"
proof -
  from assms(2) obtain h rest where fe: "fifo_events f = h # rest"
    using popJoinedHead_None_iff [of f] by (cases "fifo_events f") auto
  have "concat (map text_of (h # takeWhile (canJoinEvents h) rest))
      @ concat (map text_of (dropWhile (canJoinEvents h) rest)) = concat (map text_of (h # rest))"
    by (simp flip: concat_append map_append)
  moreover have "length (dropWhile (canJoinEvents h) rest) < length (h # rest)"
    by (simp add: length_dropWhile_le le_imp_less_Suc)
  ultimately show ?thesis using joined_spec [OF fe _ assms(2)] assms(1) fe by simp
qed

theorem join_preserves_text_witness:
  "let f = (newUpstreamFIFO \<lparr>up_layer = ''skill'', up_id = []\<rparr> 8)\<lparr>fifo_events :=
        [ex_event\<lparr>Delta := Some (quote # ''ab'' @ [quote])\<rparr>, ex_event\<lparr>Delta := Some (quote # ''c'' @ [quote])\<rparr>]\<rparr>
   in \<exists>e f'. popJoinedHead f = (Some e, f') \<and> text_of e = ''abc'' \<and> fifo_events f' = []"
proof -
  let ?a = "ex_event\<lparr>Delta := Some (quote # ''ab'' @ [quote])\<rparr>"
  let ?b = "ex_event\<lparr>Delta := Some (quote # ''c'' @ [quote])\<rparr>"
  let ?f = "(newUpstreamFIFO \<lparr>up_layer = ''skill'', up_id = []\<rparr> 8)\<lparr>fifo_events := [?a, ?b]\<rparr>"
  have body: "str_body ''ab''" "str_body ''c''"
    by (simp_all add: str_body_def str_scanner_def string_steps quote_def backslash_def isControl_def)
  then have v: "\<forall>e \<in> set (fifo_events ?f). valid_delta e"
    using json_Valid_string [OF body(1)] json_Valid_string [OF body(2)] by (simp add: valid_delta_def)
  have can: "canJoinEvents ?a ?b"
    using joinable_quoted by (simp add: canJoinEvents_def canJoinDeltas_def joinKeyOf_def delta_bytes_def del: append.simps)
  have t: "text_of ?a = ''ab''" "text_of ?b = ''c''"
    using joinable_quoted inner_quoted by (simp_all add: text_of_def delta_bytes_def del: append.simps)
  obtain e f' where p: "popJoinedHead ?f = (Some e, f')"
    using popJoinedHead_None_iff [of ?f] by (cases "popJoinedHead ?f") auto
  have "fifo_events f' = []" using p popJoinedHead_Cons [of ?f ?a "[?b]"] can by (auto simp: Let_def)
  with join_preserves_text [OF v p] p t show ?thesis by (auto simp: Let_def)
qed

end
