(* ===== verification/Stream_Hub.thy ===== *)
theory Stream_Hub
  imports Stream_Merge
begin

text \<open>
  The lifecycle half of \<^verbatim>\<open>stream/merge.go\<close>: how a merge is set up
  (\<^verbatim>\<open>mergeWithConfig\<close>), the goroutines that feed the hub or forward directly
  (\<^verbatim>\<open>runHubWithFirstEvent\<close>, \<^verbatim>\<open>runDirect\<close>), draining of a closed upstream, and the
  hub's invariant.

  A forwarding goroutine is a small state machine whose program counter is \<open>feeder\<close>; one
  transition is one pass of its loop (one \<^verbatim>\<open>sub.Next\<close> and the hub calls that follow), so
  its interleaving with ticks and with other goroutines is a sequence of transitions.
\<close>

section \<open>Merge handles\<close>

datatype feeder = FeedFirst | FeedLoop upstream_identity | FeedDirect | FeedDone

record merge =
  merge_sub :: u64
  merge_pc :: feeder
  merge_err :: "stream_error option"
  merge_hub_mode :: bool

definition merge_setErr :: "merge \<Rightarrow> stream_error option \<Rightarrow> merge" where
  "merge_setErr m err =
     (case err of
        None \<Rightarrow> m
      | Some e \<Rightarrow> if merge_err m = None \<and> e \<noteq> ErrCtx Canceled then m\<lparr>merge_err := Some e\<rparr> else m)"

definition merge_Err :: "merge \<Rightarrow> merge_hub \<Rightarrow> stream_error option" where
  "merge_Err m hub =
     (if merge_err m \<noteq> None then merge_err m
      else if merge_hub_mode m then hub_err hub else None)"

section \<open>Hub lookup\<close>

type_synonym hub_table = "(merge_hub_key, merge_hub) gomap"

definition mergeHub :: "scope \<Rightarrow> hub_table \<Rightarrow> merge_window_config \<Rightarrow> merge_hub \<times> hub_table" where
  "mergeHub sc hubs cfg =
     (let key = mergeHubKeyOf cfg;
          fresh = newMergeHub sc (TickDuration cfg) (PerUpstreamBufferDepth cfg)
      in (case map_get hubs key of
            Some hub \<Rightarrow> if active hub then (hub, hubs) else (fresh, map_set hubs key fresh)
          | None \<Rightarrow> (fresh, map_set hubs key fresh)))"

definition stopMergeHubs :: "hub_table \<Rightarrow> merge_hub list \<times> hub_table" where
  "stopMergeHubs hubs = (map (\<lambda>(_, hub). hub_Stop (hub_setErr hub ErrClosed)) hubs, [])"

text \<open>
  Setting up a merge of \<open>upstream\<close> (\<open>None\<close> for a nil pointer) into the stream with scope \<open>sc\<close>
  and hubs \<open>hubs\<close>; \<open>same\<close> says the two pointers are equal.  As for \<^verbatim>\<open>Subscribe\<close>, the
  outer \<open>None\<close> is a call that never returns.
\<close>

definition mergeWithConfig ::
  "codec \<Rightarrow> (nat \<Rightarrow> nat) \<Rightarrow> (scope \<times> hub_table) option \<Rightarrow> stream option \<Rightarrow> bool \<Rightarrow> event_filter
     \<Rightarrow> merge_window_config \<Rightarrow> subscribe_option list
     \<Rightarrow> ((stream_error, merge) result \<times> stream option \<times> (scope \<times> hub_table) option) option" where
  "mergeWithConfig cd ch down upstream same flt cfg opts =
     (case (down, upstream) of
        (Some (sc, hubs), Some up) \<Rightarrow>
          if same then Some (Inl ErrInvalidMerge, upstream, down)
          else if TickDuration cfg < 0 then Some (Inl ErrInvalidMerge, upstream, down)
          else
            let cfg = normalizeMergeWindowConfig cfg in
            (case Subscribe cd ch up flt opts of
               (None, _) \<Rightarrow> None
             | (Some (Inl err), up) \<Rightarrow> Some (Inl err, Some up, down)
             | (Some (Inr sid), up) \<Rightarrow>
                 if TickDuration cfg = 0 then
                   Some (Inr \<lparr>merge_sub = sid, merge_pc = FeedDirect, merge_err = None,
                              merge_hub_mode = False\<rparr>, Some up, down)
                 else
                   (case mergeHub sc hubs cfg of (hub, hubs) \<Rightarrow>
                      Some (Inr \<lparr>merge_sub = sid, merge_pc = FeedFirst, merge_err = None,
                                 merge_hub_mode = True\<rparr>,
                            Some up,
                            Some (sc, map_set hubs (mergeHubKeyOf cfg) (beginRegistration hub)))))
      | _ \<Rightarrow> Some (Inl ErrInvalidMerge, upstream, down))"

section \<open>Draining a closed upstream\<close>

definition queued :: "merge_hub \<Rightarrow> nat" where
  "queued h = sum_list (map (\<lambda>(_, f). length (fifo_events f)) (fifosByIdentity h))"

lemma collect_queued:
  "collect act m = (items, m') \<Longrightarrow>
   sum_list (map (\<lambda>(_, f). length (fifo_events f)) m') + length items
     \<le> sum_list (map (\<lambda>(_, f). length (fifo_events f)) m)"
proof (induction m arbitrary: items m')
  case (Cons p m)
  obtain identity fifo where p: "p = (identity, fifo)" by force
  obtain its m1 where c: "collect act m = (its, m1)" by force
  obtain ev fifo' where pop: "popJoinedHead fifo = (ev, fifo')" by force
  from popJoinedHead_shrinks [of fifo] popJoinedHead_None_iff [of fifo] pop
  have "length (fifo_events fifo') + (case ev of None \<Rightarrow> 0 | Some _ \<Rightarrow> 1) \<le> length (fifo_events fifo)"
    by (cases "fifo_events fifo") (auto simp: popJoinedHead_empty split: option.splits)
  with Cons.IH [OF c] Cons.prems show ?case
    by (auto simp: p c pop split: option.splits if_splits)
qed simp

lemma flushTick_queued:
  assumes "flushTick cd sched clock h ds = (True, h', ds')"
  shows "queued h' < queued h"
proof -
  obtain items m where c: "collect (subscriptions h) (fifosByIdentity h) = (items, m)" by force
  from assms c have items: "items \<noteq> []" and m: "fifosByIdentity h' = m"
    by (auto simp: flushTick_def Let_def cancel_if_def split: if_splits prod.splits send_result.splits)
  from items have "0 < length items" by simp
  with collect_queued [OF c] show ?thesis by (simp only: queued_def m)
qed

function drain_loop ::
  "codec \<Rightarrow> (u64 \<Rightarrow> u64 \<Rightarrow> nat \<Rightarrow> nat) \<Rightarrow> (u64 \<Rightarrow> time) \<Rightarrow> upstream_identity \<Rightarrow> merge_hub \<Rightarrow> stream
     \<Rightarrow> merge_hub \<times> stream" where
  "drain_loop cd sched clock identity h ds =
     (if hasFIFO h identity then
        (case flushTick cd sched clock h ds of
           (True, h, ds) \<Rightarrow> drain_loop cd sched clock identity h ds
         | (False, h, ds) \<Rightarrow> (h, ds))
      else (h, ds))"
  by pat_completeness auto
termination
  by (relation "measure (\<lambda>(_, _, _, _, h, _). queued h)") (auto dest!: flushTick_queued [OF sym])

declare drain_loop.simps [simp del]

definition drainClosedUpstream ::
  "codec \<Rightarrow> (u64 \<Rightarrow> u64 \<Rightarrow> nat \<Rightarrow> nat) \<Rightarrow> (u64 \<Rightarrow> time) \<Rightarrow> merge_hub \<Rightarrow> upstream_identity \<Rightarrow> stream
     \<Rightarrow> merge_hub \<times> stream" where
  "drainClosedUpstream cd sched clock h identity ds =
     (case drain_loop cd sched clock identity (closeUpstream h identity) ds of
        (h, ds) \<Rightarrow> (stopIfIdle h, ds))"

section \<open>Forwarding goroutines\<close>

definition sub_Next :: "nat \<Rightarrow> ctx_error option \<Rightarrow> u64 \<Rightarrow> stream \<Rightarrow> next_result \<times> stream" where
  "sub_Next k ctx sid up =
     (case map_get (subs up) sid of
        None \<Rightarrow> (NextBlock, up)
      | Some sub \<Rightarrow>
          (case Next k ctx sub of (r, sub') \<Rightarrow> (r, up\<lparr>subs := map_set (subs up) sid sub'\<rparr>)))"

text \<open>The deferred calls: detach from the upstream, take over the hub's error, close done.\<close>

definition feeder_exit :: "merge \<Rightarrow> merge_hub \<Rightarrow> stream \<Rightarrow> merge \<times> stream" where
  "feeder_exit m hub up =
     (case Cancel False (merge_sub m) up of
        None \<Rightarrow> (m, up)
      | Some up \<Rightarrow> ((merge_setErr m (hub_err hub))\<lparr>merge_pc := FeedDone\<rparr>, up))"

definition finish ::
  "merge \<Rightarrow> merge_hub \<Rightarrow> stream \<Rightarrow> stream \<Rightarrow> merge \<times> merge_hub \<times> stream \<times> stream" where
  "finish m hub up ds = (case feeder_exit m hub up of (m, up) \<Rightarrow> (m, hub, up, ds))"

text \<open>
  \<^verbatim>\<open>runHubWithFirstEvent\<close>: \<open>ctx\<close> is the state of \<^verbatim>\<open>readCtx\<close>, which is canceled with
  the merge or with the hub; \<open>k\<close> resolves the selects.
\<close>

definition run_hub_first ::
  "nat \<Rightarrow> ctx_error option \<Rightarrow> merge \<Rightarrow> merge_hub \<Rightarrow> stream \<Rightarrow> stream
     \<Rightarrow> merge \<times> merge_hub \<times> stream \<times> stream" where
  "run_hub_first k ctx m hub up ds =
     (case sub_Next k ctx (merge_sub m) up of
        (NextBlock, up) \<Rightarrow> (m, hub, up, ds)
      | (NextErr err, up) \<Rightarrow>
          finish (merge_setErr m (Some (ErrCtx err))) (cancelPendingRegistration hub) up ds
      | (NextClosed, up) \<Rightarrow> finish m (cancelPendingRegistration hub) up ds
      | (NextEvent firstEvent, up) \<Rightarrow>
          let identity = upstreamIdentityOf (From firstEvent) in
          (case registerPendingUpstream hub identity (merge_sub m) of
             (Some err, hub) \<Rightarrow> finish (merge_setErr m (Some err)) (stopIfIdle hub) up ds
           | (None, hub) \<Rightarrow>
               (case hub_enqueue hub identity firstEvent of
                  (Some err, hub) \<Rightarrow>
                    finish (merge_setErr m (Some err)) (unregisterUpstream hub identity) up ds
                | (None, hub) \<Rightarrow> (m\<lparr>merge_pc := FeedLoop identity\<rparr>, hub, up, ds))))"

definition run_hub_next ::
  "codec \<Rightarrow> (u64 \<Rightarrow> u64 \<Rightarrow> nat \<Rightarrow> nat) \<Rightarrow> (u64 \<Rightarrow> time) \<Rightarrow> nat \<Rightarrow> nat \<Rightarrow> ctx_error option
     \<Rightarrow> upstream_identity \<Rightarrow> merge \<Rightarrow> merge_hub \<Rightarrow> stream \<Rightarrow> stream
     \<Rightarrow> merge \<times> merge_hub \<times> stream \<times> stream" where
  "run_hub_next cd sched clock j k ctx identity m hub up ds =
     (case select_pick j ((case ctx of None \<Rightarrow> [] | Some _ \<Rightarrow> [SelCtx])
                          @ (if hub_canceled hub then [SelDone] else [])) of
        Some SelCtx \<Rightarrow> finish m (unregisterUpstream hub identity) up ds
      | Some _ \<Rightarrow> finish m hub up ds
      | None \<Rightarrow>
          (case sub_Next k ctx (merge_sub m) up of
             (NextBlock, up) \<Rightarrow> (m, hub, up, ds)
           | (NextErr err, up) \<Rightarrow>
               finish (merge_setErr m (Some (ErrCtx err))) (unregisterUpstream hub identity) up ds
           | (NextClosed, up) \<Rightarrow>
               (case drainClosedUpstream cd sched clock hub identity ds of
                  (hub, ds) \<Rightarrow> finish m hub up ds)
           | (NextEvent event, up) \<Rightarrow>
               (case hub_enqueue hub identity event of
                  (Some err, hub) \<Rightarrow>
                    finish (merge_setErr m (Some err)) (unregisterUpstream hub identity) up ds
                | (None, hub) \<Rightarrow> (m, hub, up, ds))))"

definition run_direct ::
  "codec \<Rightarrow> (u64 \<Rightarrow> nat \<Rightarrow> nat) \<Rightarrow> time \<Rightarrow> nat \<Rightarrow> ctx_error option \<Rightarrow> merge \<Rightarrow> stream \<Rightarrow> stream
     \<Rightarrow> merge \<times> stream \<times> stream" where
  "run_direct cd sched now k ctx m up ds =
     (let stop = (\<lambda>m up ds. case Cancel False (merge_sub m) up of
                              None \<Rightarrow> (m, up, ds)
                            | Some up \<Rightarrow> (m\<lparr>merge_pc := FeedDone\<rparr>, up, ds))
      in (case sub_Next k ctx (merge_sub m) up of
            (NextBlock, up) \<Rightarrow> (m, up, ds)
          | (NextErr err, up) \<Rightarrow> stop (merge_setErr m (Some (ErrCtx err))) up ds
          | (NextClosed, up) \<Rightarrow> stop m up ds
          | (NextEvent event, up) \<Rightarrow>
              (case emitFrame cd sched ctx now ds (normalizeDirectFrame event) of
                 (SrOk, ds) \<Rightarrow> (m, up, ds)
               | (SrErr err, ds) \<Rightarrow> stop (merge_setErr m (Some err)) up ds
               | (SrPanic, ds) \<Rightarrow> (m, up, ds))))"

end
