(* ===== verification/Stream_Hub_Theorems.thy ===== *)
theory Stream_Hub_Theorems
  imports Stream_Hub
begin

text \<open>
  The merge hub's invariant over every interleaving of its operations, and what a tick, a drain
  and a late registration do.
\<close>

section \<open>The collection loop, closed form\<close>

definition popped :: "(upstream_identity, upstream_fifo) gomap \<Rightarrow> (upstream_identity, upstream_fifo) gomap" where
  "popped m = map (\<lambda>(i, f). (i, snd (popJoinedHead f))) m"

definition kept :: "(upstream_identity, u64) gomap \<Rightarrow> upstream_identity \<times> upstream_fifo \<Rightarrow> bool" where
  "kept act p \<longleftrightarrow> fifo_events (snd p) \<noteq> [] \<or> map_has act (fst p)"

lemma collect_eq:
  "collect act m =
     (map (\<lambda>(_, f). the (fst (popJoinedHead f))) (filter (\<lambda>(_, f). fifo_events f \<noteq> []) m),
      filter (kept act) (popped m))"
proof (induction m)
  case (Cons p m)
  obtain identity fifo where p: "p = (identity, fifo)" by force
  obtain ev fifo' where pop: "popJoinedHead fifo = (ev, fifo')" by force
  with popJoinedHead_None_iff [of fifo] have "ev = None \<longleftrightarrow> fifo_events fifo = []" by simp
  with Cons.IH show ?case by (auto simp: p pop popped_def kept_def split: option.splits)
qed (simp add: popped_def)

lemma keys_popped [simp]: "map fst (popped m) = map fst m"
  by (simp add: popped_def comp_def split_def)

lemma popped_mem: "(i, f) \<in> set (popped m) \<Longrightarrow> \<exists>g. (i, g) \<in> set m \<and> f = snd (popJoinedHead g)"
  by (auto simp: popped_def)

lemma popped_memI: "(i, f) \<in> set m \<Longrightarrow> (i, snd (popJoinedHead f)) \<in> set (popped m)"
  by (force simp: popped_def)

section \<open>Invariant\<close>

definition hub_wf :: "merge_hub \<Rightarrow> bool" where
  "hub_wf h \<longleftrightarrow>
     map_ok (fifosByIdentity h) \<and> map_ok (subscriptions h)
     \<and> (\<forall>(i, f) \<in> set (fifosByIdentity h). fifo_identity f = i \<and> fifo_ok f
          \<and> (fifo_events f \<noteq> [] \<or> map_has (subscriptions h) i))
     \<and> (\<forall>(i, _) \<in> set (subscriptions h). map_has (fifosByIdentity h) i)
     \<and> 0 \<le> pendingRegistrations h \<and> 0 < perUpstreamBufferDepth h"

inductive hub_step :: "merge_hub \<Rightarrow> merge_hub \<Rightarrow> bool" where
  step_begin: "hub_step h (beginRegistration h)"
| step_cancelPending: "hub_step h (cancelPendingRegistration h)"
| step_register: "registerPendingUpstream h i sub = (r, h') \<Longrightarrow> hub_step h h'"
| step_enqueue: "hub_enqueue h i e = (r, h') \<Longrightarrow> hub_step h h'"
| step_closeUpstream: "hub_step h (closeUpstream h i)"
| step_unregister: "hub_step h (unregisterUpstream h i)"
| step_stopIfIdle: "hub_step h (stopIfIdle h)"
| step_setErr: "hub_step h (hub_setErr h e)"
| step_Stop: "hub_step h (hub_Stop h)"
| step_flush: "flushTick cd sched clock h ds = (r, h', ds') \<Longrightarrow> hub_step h h'"

lemma cancel_if_fields [simp]:
  "fifosByIdentity (cancel_if b h) = fifosByIdentity h"
  "subscriptions (cancel_if b h) = subscriptions h"
  "pendingRegistrations (cancel_if b h) = pendingRegistrations h"
  "perUpstreamBufferDepth (cancel_if b h) = perUpstreamBufferDepth h"
  "downstream_scope (cancel_if b h) = downstream_scope h"
  "hub_err (cancel_if b h) = hub_err h" "tickCounter (cancel_if b h) = tickCounter h"
  by (simp_all add: cancel_if_def)

lemma setErr_fields [simp]:
  "fifosByIdentity (hub_setErr h e) = fifosByIdentity h"
  "subscriptions (hub_setErr h e) = subscriptions h"
  "pendingRegistrations (hub_setErr h e) = pendingRegistrations h"
  "perUpstreamBufferDepth (hub_setErr h e) = perUpstreamBufferDepth h"
  "hub_canceled (hub_setErr h e) = hub_canceled h"
  "downstream_scope (hub_setErr h e) = downstream_scope h" "tickCounter (hub_setErr h e) = tickCounter h"
  by (simp_all add: hub_setErr_def)

lemma drop_pending_fields [simp]:
  "fifosByIdentity (drop_pending h) = fifosByIdentity h"
  "subscriptions (drop_pending h) = subscriptions h"
  "perUpstreamBufferDepth (drop_pending h) = perUpstreamBufferDepth h"
  "hub_canceled (drop_pending h) = hub_canceled h" "hub_err (drop_pending h) = hub_err h"
  "downstream_scope (drop_pending h) = downstream_scope h"
  by (simp_all add: drop_pending_def)

text \<open>The invariant looks at four fields only.\<close>

lemma hub_wf_cong:
  assumes "hub_wf h" "fifosByIdentity h' = fifosByIdentity h" "subscriptions h' = subscriptions h"
    "0 \<le> pendingRegistrations h'" "perUpstreamBufferDepth h' = perUpstreamBufferDepth h"
  shows "hub_wf h'"
  using assms by (simp add: hub_wf_def)

lemma hub_wf_pending: "hub_wf h \<Longrightarrow> 0 \<le> pendingRegistrations h"
  by (simp add: hub_wf_def)

lemma drop_pending_wf: "hub_wf h \<Longrightarrow> hub_wf (drop_pending h)"
  by (auto simp: drop_pending_def intro: hub_wf_cong)

lemma hub_wf_cancel_if [simp]: "hub_wf (cancel_if b h) = hub_wf h"
  by (simp add: hub_wf_def)

lemma hub_wf_setErr [simp]: "hub_wf (hub_setErr h e) = hub_wf h"
  by (simp add: hub_wf_def)

lemma hub_wf_fifo:
  "hub_wf h \<Longrightarrow> map_get (fifosByIdentity h) i = Some f \<Longrightarrow> fifo_identity f = i \<and> fifo_ok f"
  by (auto simp: hub_wf_def dest!: map_get_mem)

lemma newUpstreamFIFO_ok: "fifo_ok (newUpstreamFIFO i d)"
  by (simp add: newUpstreamFIFO_def fifo_ok_def defaultMergePerUpstreamBufferDepth_def)

lemma newMergeHub_wf: "hub_wf (newMergeHub sc tick depth)"
  by (simp add: hub_wf_def newMergeHub_def defaultMergePerUpstreamBufferDepth_def)

lemma hub_register_wf:
  assumes "hub_wf h" "registerPendingUpstream h i sub = (r, h')"
  shows "hub_wf h'"
proof -
  note dp = drop_pending_wf [OF assms(1)]
  have step: "hub_wf (g\<lparr>fifosByIdentity := map_set (fifosByIdentity g) i (newUpstreamFIFO i d),
      subscriptions := map_set (subscriptions g) i sub\<rparr>)" if "hub_wf g" for g d
    using that set_map_set [of "fifosByIdentity g" i "newUpstreamFIFO i d"]
      set_map_set [of "subscriptions g" i sub] newUpstreamFIFO_ok [of i d]
    by (auto 0 3 simp: hub_wf_def newUpstreamFIFO_def)
  from dp step [OF dp, of "perUpstreamBufferDepth h"] assms(2) show ?thesis
    by (auto simp: registerPendingUpstream_def Let_def split: if_splits)
qed

lemma enqueue_wf:
  assumes "hub_wf h" "hub_enqueue h i e = (r, h')"
  shows "hub_wf h'"
proof (cases "h' = h")
  case False
  with assms(2) obtain f f' where f: "map_get (fifosByIdentity h) i = Some f"
    and f': "fifo_enqueue f (prepareBundledMergedEvent e (downstream_scope h)) = Inr f'"
    and h': "h' = h\<lparr>fifosByIdentity := map_set (fifosByIdentity h) i f'\<rparr>"
    by (auto simp: hub_enqueue_def split: option.splits sum.splits)
  have "fifo_identity f' = i" "fifo_ok f'" "fifo_events f' \<noteq> []"
    using hub_wf_fifo [OF assms(1) f] f'
    by (auto simp: fifo_enqueue_def fifo_ok_def split: if_splits)
  with assms(1) set_map_set [of "fifosByIdentity h" i f'] show ?thesis
    by (auto 0 3 simp: hub_wf_def h')
qed (use assms in simp)

lemma unregister_wf: "hub_wf h \<Longrightarrow> hub_wf (unregisterUpstream h i)"
  by (auto 0 3 simp: hub_wf_def unregisterUpstream_def mem_map_delete Let_def)

lemma closeUpstream_wf: "hub_wf h \<Longrightarrow> hub_wf (closeUpstream h i)"
  by (auto 0 3 simp: hub_wf_def closeUpstream_def mem_map_delete Let_def map_get_mem_iff [symmetric]
      split: option.splits) (auto dest!: map_get_mem)

lemma flush_fields:
  assumes "flushTick cd sched clock h ds = (r, h', ds')"
  shows "subscriptions h' = subscriptions h"
    "fifosByIdentity h' = filter (kept (subscriptions h)) (popped (fifosByIdentity h))"
    "pendingRegistrations h' = pendingRegistrations h"
    "perUpstreamBufferDepth h' = perUpstreamBufferDepth h"
  using assms
  by (auto simp: flushTick_def collect_eq Let_def popped_def split: if_splits prod.splits send_result.splits)

lemma fifo_ok_popped: "fifo_ok f \<Longrightarrow> fifo_ok (snd (popJoinedHead f))"
  using popJoinedHead_shrinks [of f] by (auto simp: fifo_ok_def popJoinedHead_keeps)

lemma flush_wf:
  assumes wf: "hub_wf h" and f: "flushTick cd sched clock h ds = (r, h', ds')"
  shows "hub_wf h'"
proof -
  let ?m = "filter (kept (subscriptions h)) (popped (fifosByIdentity h))"
  have "map_ok ?m"
    using wf by (simp add: hub_wf_def map_ok_def distinct_map_filter)
  moreover have "map_has ?m i" if i: "(i, s) \<in> set (subscriptions h)" for i s
  proof -
    from wf i obtain f where "(i, f) \<in> set (popped (fifosByIdentity h))"
      by (fastforce simp: hub_wf_def map_has_def dest: popped_memI)
    then show ?thesis using i by (force simp: map_has_def kept_def)
  qed
  moreover have "fifo_identity f = i \<and> fifo_ok f \<and> (fifo_events f \<noteq> [] \<or> map_has (subscriptions h) i)"
    if "(i, f) \<in> set ?m" for i f
    using that wf popped_mem [of i f "fifosByIdentity h"]
    by (auto simp: kept_def hub_wf_def popJoinedHead_keeps fifo_ok_popped)
  ultimately show ?thesis using wf by (auto simp: hub_wf_def flush_fields [OF f])
qed

interpretation hubs: inductive_invariant
  "\<lambda>h. \<exists>sc tick depth. h = newMergeHub sc tick depth" hub_step hub_wf
proof
  show "hub_wf h" if "\<exists>sc tick depth. h = newMergeHub sc tick depth" for h
    using that newMergeHub_wf by auto
  show "hub_wf t" if "hub_wf s" "hub_step s t" for s t
    using that(2,1)
  proof cases
    case step_begin
    then show ?thesis using that(1) by (simp add: beginRegistration_def hub_wf_def)
  next
    case step_Stop
    then show ?thesis using that(1) by (simp add: hub_Stop_def hub_wf_def)
  next
    case step_cancelPending
    then show ?thesis using that(1) by (simp add: cancelPendingRegistration_def Let_def drop_pending_wf)
  qed (auto simp: stopIfIdle_def
      intro: hub_register_wf enqueue_wf closeUpstream_wf unregister_wf flush_wf)
qed

text \<open>C4. In every state the hub reaches by any interleaving of registrations, enqueues,
  closes and ticks, no FIFO holds more than its depth, every registered upstream has its FIFO,
  and a FIFO whose upstream is gone still holds events: empty FIFOs of closed upstreams are
  removed at once.\<close>

theorem hub_fifos_bounded:
  assumes "reach (\<lambda>h. \<exists>sc tick depth. h = newMergeHub sc tick depth) hub_step h"
  shows "(\<forall>i f. map_get (fifosByIdentity h) i = Some f \<longrightarrow>
       int (length (fifo_events f)) \<le> maxDepth f \<and> fifo_identity f = i
       \<and> (fifo_events f = [] \<longrightarrow> map_has (subscriptions h) i))
    \<and> (\<forall>i. map_has (subscriptions h) i \<longrightarrow> map_has (fifosByIdentity h) i)
    \<and> 0 \<le> pendingRegistrations h"
proof -
  note wf = hubs.reach_inv [OF assms]
  then show ?thesis
    by (auto simp: hub_wf_def fifo_ok_def map_has_def dest!: map_get_mem)
qed

section \<open>Ticks\<close>

lemma map_get_fresh: "k \<notin> fst ` set m \<Longrightarrow> map_get m k = None"
  by (simp add: map_get_def map_of_eq_None_iff)

lemma map_get_kept:
  "map_ok m \<Longrightarrow> map_get (filter (kept act) (popped m)) i =
     (case map_get m i of
        None \<Rightarrow> None
      | Some f \<Rightarrow> if fifo_events (snd (popJoinedHead f)) = [] \<and> \<not> map_has act i then None
                  else Some (snd (popJoinedHead f)))"
proof (induction m)
  case (Cons p m)
  obtain k f where p: "p = (k, f)" by force
  from Cons.prems have "map_ok m" and fresh: "map_get m k = None"
    by (simp_all add: map_ok_def p map_get_fresh)
  from Cons.IH [OF this(1)] fresh show ?case
    by (cases "i = k") (simp_all add: p popped_def kept_def)
qed (simp add: popped_def)

text \<open>One tick takes from every non-empty FIFO exactly its joined head, emits those heads
  as one frame numbered by the tick counter, leaves what is behind them queued, drops the FIFOs
  of closed upstreams that became empty and touches no registration.\<close>

theorem tick_takes_one_per_upstream:
  assumes "flushTick cd sched clock h ds = (r, h', ds')" and "map_ok (fifosByIdentity h)"
    and "\<exists>i f. map_get (fifosByIdentity h) i = Some f \<and> fifo_events f \<noteq> []"
  shows "let items = map (\<lambda>(_, f). the (fst (popJoinedHead f)))
                         (filter (\<lambda>(_, f). fifo_events f \<noteq> []) (fifosByIdentity h));
             tick = tickCounter h + 1;
             emitted = emitFrame cd (sched tick) (if hub_canceled h then Some Canceled else None)
                         (clock tick) ds (normalizeTickFrame items tick)
         in items \<noteq> [] \<and> ds' = snd emitted \<and> r = (fst emitted = SrOk)
           \<and> tickCounter h' = tick \<and> subscriptions h' = subscriptions h
           \<and> (\<forall>i. map_get (fifosByIdentity h') i =
                (case map_get (fifosByIdentity h) i of
                   None \<Rightarrow> None
                 | Some f \<Rightarrow>
                     if fifo_events (snd (popJoinedHead f)) = [] \<and> \<not> map_has (subscriptions h) i then None
                     else Some (snd (popJoinedHead f))))"
proof -
  let ?items = "map (\<lambda>(_, f). the (fst (popJoinedHead f)))
     (filter (\<lambda>(_, f). fifo_events f \<noteq> []) (fifosByIdentity h))"
  from assms(3) obtain i f where "(i, f) \<in> set (fifosByIdentity h)" "fifo_events f \<noteq> []"
    by (auto dest!: map_get_mem)
  then have ne: "fifosByIdentity h \<noteq> []" "?items \<noteq> []"
    by (auto simp: filter_empty_conv)
  note rest = map_get_kept [OF assms(2), of "subscriptions h"]
  let ?tick = "tickCounter h + 1"
  let ?em = "emitFrame cd (sched ?tick) (if hub_canceled h then Some Canceled else None)
      (clock ?tick) ds (normalizeTickFrame ?items ?tick)"
  obtain er es where em: "?em = (er, es)" by force
  have "ds' = es \<and> r = (er = SrOk) \<and> tickCounter h' = ?tick"
    using assms(1) ne em
    by (cases er) (auto simp: flushTick_def collect_eq Let_def)
  with ne(2) em rest show ?thesis
    unfolding flush_fields(2) [OF assms(1)] flush_fields(1) [OF assms(1)] Let_def by simp
qed

section \<open>Draining\<close>

lemma send_no_ctx: "send cd ch None sub e = (SrErr err, sub') \<Longrightarrow> err \<noteq> ErrCtx x"
proof -
  have sel: "fst (send_select k None sub e) \<noteq> SendCtx y" for k sub e y
    by (auto simp: send_select_def send_ready_def split: option.splits select_case.splits
        dest!: select_pick_mem split: if_splits)
  have all: "send_all ch None i sub es = (SrErr err, sub') \<Longrightarrow> err \<noteq> ErrCtx x" for i es sub sub' err
  proof (induction ch "None :: ctx_error option" i sub es rule: send_all.induct)
    case (2 ch i sub e es)
    then show ?case using sel [of "ch i" sub e]
      by (auto split: prod.splits send_outcome.splits if_splits)
  qed simp
  have "FilterBundleEvent cd e f = Inl err \<Longrightarrow> err \<noteq> ErrCtx x" for f err
    by (auto simp: FilterBundleEvent_def ExpandBundleEvent_def DecodeEventBatch_def
        split: if_splits sum.splits option.splits)
  then show "send cd ch None sub e = (SrErr err, sub') \<Longrightarrow> err \<noteq> ErrCtx x"
    using sel [of "ch 0" sub e] all
    by (auto simp: send_def sendExpanded_def split: if_splits sum.splits prod.splits send_outcome.splits)
qed

lemma deliver_no_ctx: "fst (deliver cd sched None p ids s) \<noteq> SrErr (ErrCtx x)"
proof (induction ids arbitrary: s)
  case (Cons i ids)
  then show ?case using send_no_ctx [of cd "sched i" _ p]
    by (auto split: option.splits prod.splits send_result.splits)
qed simp

lemma emitFrame_no_ctx: "fst (emitFrame cd sched None now ds fr) \<noteq> SrErr (ErrCtx x)"
proof -
  have "fst (Emit cd sched None now ds e) \<noteq> SrErr (ErrCtx x)" for e
    by (auto simp: Emit_def Let_def deliver_no_ctx dest!: prepare_error split: sum.splits)
  then show ?thesis
    by (auto simp: emitFrame_def EncodeEventBatch_def split: if_splits sum.splits option.splits)
qed

lemma emitFrame_no_panic: "subs_wf ds \<Longrightarrow> fst (emitFrame cd sched ctx now ds fr) \<noteq> SrPanic"
  by (auto simp: emitFrame_def Emit_no_panic split: sum.splits)

lemma Emit_subs_wf: "subs_wf s \<Longrightarrow> subs_wf (snd (Emit cd sched ctx now s ev))"
proof -
  assume wf: "subs_wf s"
  obtain r t where em: "Emit cd sched ctx now s ev = (r, t)" by force
  from em have "subs_wf t"
  proof (cases rule: Emit_cases)
    case (accepted p)
    let ?u = "appendBufferLocked (s\<lparr>nextSeq := nextSeq s + 1, nextLogicalTime := nextLogicalTime s + 1\<rparr>) p"
    have "subs_wf ?u" using wf by (simp add: subs_wf_def)
    with deliver_queues_extend [of ?u cd sched ctx p] accepted(3) show ?thesis
      by (metis queues_extend_subs_wf snd_conv)
  qed (use wf in simp)
  with em show ?thesis by simp
qed

lemma emitFrame_subs_wf: "subs_wf ds \<Longrightarrow> subs_wf (snd (emitFrame cd sched ctx now ds fr))"
  by (auto simp: emitFrame_def Emit_subs_wf split: sum.splits)

lemma flush_emits:
  assumes "map_get (fifosByIdentity h) i = Some f" "fifo_events f \<noteq> []"
  obtains items er es where "items \<noteq> []"
    "emitFrame cd (sched (tickCounter h + 1)) (if hub_canceled h then Some Canceled else None)
       (clock (tickCounter h + 1)) ds (normalizeTickFrame items (tickCounter h + 1)) = (er, es)"
    "flushTick cd sched clock h ds =
       (let g = h\<lparr>fifosByIdentity := filter (kept (subscriptions h)) (popped (fifosByIdentity h)),
                  tickCounter := tickCounter h + 1\<rparr>
        in case er of
             SrOk \<Rightarrow> (True, cancel_if (idleLocked g) g, es)
           | SrErr err \<Rightarrow> (False, cancel_if (idleLocked g) (hub_setErr g err), es)
           | SrPanic \<Rightarrow> (False, g, es))"
proof -
  let ?items = "map (\<lambda>(_, f). the (fst (popJoinedHead f)))
     (filter (\<lambda>(_, f). fifo_events f \<noteq> []) (fifosByIdentity h))"
  from map_get_mem [OF assms(1)] assms(2) have ne: "fifosByIdentity h \<noteq> []" "?items \<noteq> []"
    by (auto simp: filter_empty_conv)
  obtain er es where em: "emitFrame cd (sched (tickCounter h + 1))
      (if hub_canceled h then Some Canceled else None) (clock (tickCounter h + 1)) ds
      (normalizeTickFrame ?items (tickCounter h + 1)) = (er, es)" by force
  show thesis
    by (rule that [OF ne(2) em], cases er)
      (use ne em in \<open>simp_all add: flushTick_def collect_eq Let_def idleLocked_def\<close>)
qed

lemma drained_fifo:
  assumes "hub_wf h" "hasFIFO h i" "\<not> map_has (subscriptions h) i"
  obtains f where "map_get (fifosByIdentity h) i = Some f" "fifo_events f \<noteq> []"
proof -
  from assms(2) obtain f where f: "map_get (fifosByIdentity h) i = Some f"
    by (auto simp: hasFIFO_def map_has_iff)
  moreover from map_get_mem [OF f] assms(1,3) have "fifo_events f \<noteq> []" by (auto simp: hub_wf_def)
  ultimately show thesis by (rule that)
qed

lemma flush_failure_recorded:
  assumes "hub_wf h" "subs_wf ds" "\<not> hub_canceled h" "hasFIFO h i" "\<not> map_has (subscriptions h) i"
    and fl: "flushTick cd sched clock h ds = (False, h', ds')"
  shows "hub_err h' \<noteq> None"
proof -
  from drained_fifo [OF assms(1,4,5)] obtain f where "map_get (fifosByIdentity h) i = Some f"
    "fifo_events f \<noteq> []" by blast
  then obtain items er es where e:
    "emitFrame cd (sched (tickCounter h + 1)) (if hub_canceled h then Some Canceled else None)
       (clock (tickCounter h + 1)) ds (normalizeTickFrame items (tickCounter h + 1)) = (er, es)"
    and eq: "flushTick cd sched clock h ds =
       (let g = h\<lparr>fifosByIdentity := filter (kept (subscriptions h)) (popped (fifosByIdentity h)),
                  tickCounter := tickCounter h + 1\<rparr>
        in case er of
             SrOk \<Rightarrow> (True, cancel_if (idleLocked g) g, es)
           | SrErr err \<Rightarrow> (False, cancel_if (idleLocked g) (hub_setErr g err), es)
           | SrPanic \<Rightarrow> (False, g, es))"
    by (rule flush_emits)
  from e assms(3) have er: "er = fst (emitFrame cd (sched (tickCounter h + 1)) None
      (clock (tickCounter h + 1)) ds (normalizeTickFrame items (tickCounter h + 1)))" by simp
  have "er \<noteq> SrPanic" "er \<noteq> SrErr (ErrCtx Canceled)"
    unfolding er by (rule emitFrame_no_panic [OF assms(2)], rule emitFrame_no_ctx)
  with eq fl obtain err where "er = SrErr err" "err \<noteq> ErrCtx Canceled"
    by (cases er) (auto simp: Let_def)
  with eq fl show ?thesis by (auto simp: Let_def hub_setErr_def)
qed

lemma flush_success:
  assumes "subs_wf ds" "flushTick cd sched clock h ds = (True, h', ds')"
  shows "subs_wf ds' \<and> (hub_canceled h' \<longrightarrow> hub_canceled h \<or> fifosByIdentity h' = [])"
  using assms emitFrame_subs_wf [OF assms(1)]
  by (auto simp: flushTick_def Let_def cancel_if_def idleLocked_def
      split: if_splits prod.splits send_result.splits) (metis snd_conv)+

lemma drain_loop_empties:
  assumes "hub_wf h" "subs_wf ds" "hub_canceled h \<longrightarrow> fifosByIdentity h = []"
    "\<not> map_has (subscriptions h) i" "drain_loop cd sched clock i h ds = (h', ds')"
  shows "(\<not> hasFIFO h' i \<or> hub_err h' \<noteq> None) \<and> \<not> map_has (subscriptions h') i"
  using assms
proof (induction cd sched clock i h ds rule: drain_loop.induct)
  case (1 cd sched clock i h ds)
  show ?case
  proof (cases "hasFIFO h i")
    case True
    with "1.prems"(3) have nc: "\<not> hub_canceled h" by (auto simp: hasFIFO_def map_has_def)
    obtain r g es where fl: "flushTick cd sched clock h ds = (r, g, es)"
      by (metis prod_cases3)
    note keep = flush_fields(1) [OF fl]
    show ?thesis
    proof (cases r)
      case True
      with fl have fl: "flushTick cd sched clock h ds = (True, g, es)" by simp
      from "1.prems"(5) \<open>hasFIFO h i\<close> fl have d: "drain_loop cd sched clock i g es = (h', ds')"
        by (simp add: drain_loop.simps [of _ _ _ _ h])
      from flush_success [OF "1.prems"(2) fl] nc flush_wf [OF "1.prems"(1) fl] "1.prems"(4) keep
      show ?thesis
        using "1.IH" [OF \<open>hasFIFO h i\<close> fl [symmetric] refl refl _ _ _ _ d] by simp
    next
      case False
      with fl have fl: "flushTick cd sched clock h ds = (False, g, es)" by simp
      from "1.prems"(5) \<open>hasFIFO h i\<close> fl have "h' = g" by (simp add: drain_loop.simps [of _ _ _ _ h])
      with flush_failure_recorded [OF "1.prems"(1,2) nc \<open>hasFIFO h i\<close> "1.prems"(4) fl] keep "1.prems"(4)
      show ?thesis by simp
    qed
  next
    case False
    with "1.prems"(4,5) show ?thesis by (simp add: drain_loop.simps [of _ _ _ _ h])
  qed
qed

lemma closeUpstream_fields:
  "\<not> map_has (subscriptions (closeUpstream h i)) i"
  "hub_canceled (closeUpstream h i) \<Longrightarrow> hub_canceled h \<or> fifosByIdentity (closeUpstream h i) = []"
  by (auto simp: closeUpstream_def Let_def cancel_if_def idleLocked_def split: option.splits if_splits)

text \<open>C5. Draining a closed upstream always ends; afterwards the upstream is no longer
  registered, and either all its queued events have been emitted (its FIFO is gone) or the hub
  has recorded the error that stopped it.\<close>

theorem drain_empties_or_reports:
  assumes "hub_wf h" and "subs_wf ds" and "\<not> hub_canceled h"
    and "drainClosedUpstream cd sched clock h identity ds = (h', ds')"
  shows "(\<not> hasFIFO h' identity \<or> hub_err h' \<noteq> None) \<and> \<not> map_has (subscriptions h') identity
    \<and> (idleLocked h' \<longrightarrow> hub_canceled h')"
proof -
  let ?g = "closeUpstream h identity"
  obtain g es where d: "drain_loop cd sched clock identity ?g ds = (g, es)" by force
  with assms(4) have h': "h' = stopIfIdle g" by (simp add: drainClosedUpstream_def)
  have "hub_canceled ?g \<longrightarrow> fifosByIdentity ?g = []" using closeUpstream_fields(2) assms(3) by blast
  from drain_loop_empties [OF closeUpstream_wf [OF assms(1)] assms(2) this closeUpstream_fields(1) d]
  show ?thesis by (auto simp: h' stopIfIdle_def hasFIFO_def idleLocked_def cancel_if_def)
qed

section \<open>Bundles reach subscribers\<close>

definition hub_event :: "bytes \<Rightarrow> event" where
  "hub_event delta = zero_event\<lparr>EventType := EventMergeBundle, From := empty_source\<lparr>Layer := ''hub''\<rparr>,
     Status := StatusCompleted, Delta := Some delta\<rparr>"

text \<open>What a non-raw subscriber is due of a batch: the matching members, each scoped below the
  downstream stream.\<close>

definition due :: "scope \<Rightarrow> event_filter \<Rightarrow> event list \<Rightarrow> event list" where
  "due sc flt es =
     filter (Match flt) (map (\<lambda>e. e\<lparr>Scope := mergeScope (mergeScope sc empty_scope) (Scope e)\<rparr>) es)"

lemma hub_event_prepared:
  assumes "json_Valid d" "time_marshalable now" "now \<noteq> 0"
  obtains p where "prepare (hub_event d) sc q l now = Inr p" "EventType p = EventMergeBundle"
    "Delta p = Some d" "Scope p = mergeScope sc empty_scope"
proof
  show "prepare (hub_event d) sc q l now = Inr (with_defaults (hub_event d) sc q l now)"
    using assms by (simp add: prepare_Inr_iff hub_event_def with_defaults_def EventMergeBundle_def
        StatusCompleted_def event_marshalable_def zero_event_def metadata_marshalable_def)
qed (simp_all add: with_defaults_def hub_event_def zero_event_def)

lemma due_length: "length (due sc flt es) \<le> length es"
  unfolding due_def by (metis length_filter_le length_map)

text \<open>C6. When a batch survives the JSON round trip and every attached subscriber expands bundles, has
  room for the whole batch and a live context, emitting the frame of a tick succeeds, and the queue of
  every subscriber grows by exactly the members of the batch that its filter selects, in batch order:
  each with the type, source, numbers, status and time it had, the downstream scope filled in, its
  delta as JSON compacts it and its metadata as JSON reads it back.\<close>

theorem bundle_reaches_subscribers:
  assumes "stream_wf ds" and "\<not> closed ds" and "items \<noteq> []" and "tick \<noteq> 0"
    and "codec_roundtrip cd rd \<lparr>TickID = tick, Events = items\<rparr>"
    and "time_marshalable now" and "now \<noteq> 0"
    and "\<forall>i \<in> set (subscribers ds). \<forall>sub. map_get (subs ds) i = Some sub \<longrightarrow>
           expanded sub \<and> accepting sub (length items)"
  shows "fst (emitFrame cd sched None now ds (normalizeTickFrame items tick)) = SrOk
    \<and> (\<forall>i \<in> set (subscribers ds). \<exists>sub es. map_get (subs ds) i = Some sub
         \<and> map_get (subs (snd (emitFrame cd sched None now ds (normalizeTickFrame items tick)))) i
             = Some (sub\<lparr>queue := queue sub @ es\<rparr>)
         \<and> list_all2 (same_event rd) es (due (st_scope ds) (sub_filter sub) items))"
proof -
  let ?b = "\<lparr>TickID = tick, Events = items\<rparr>"
  from assms(5) obtain d where d: "encode cd ?b = Some d" "json_Valid d"
    by (auto simp: codec_roundtrip_def)
  obtain p where p: "prepare (hub_event d) (st_scope ds) (nextSeq ds + 1) (nextLogicalTime ds + 1) now = Inr p"
    and ty: "EventType p = EventMergeBundle" and delta: "Delta p = Some d"
    and sc: "Scope p = mergeScope (st_scope ds) empty_scope"
    using hub_event_prepared [OF d(2) assms(6,7)] by blast
  from Expand_encoded [OF assms(5) _ d(1) ty delta] assms(3) obtain xs where
    xs: "ExpandBundleEvent cd p = Inr xs"
    and env: "list_all2 (\<lambda>x y. same_event rd x (y\<lparr>Scope := mergeScope (Scope p) (Scope y)\<rparr>)) xs items"
    by auto
  have filt: "FilterBundleEvent cd p flt = Inr (filter (Match flt) xs)" for flt
    by (simp add: FilterBundleEvent_def xs)
  have due: "list_all2 (same_event rd) (filter (Match flt) xs) (due (st_scope ds) flt items)" for flt
    using Filter_same_event [OF env, of flt]
    by (simp add: due_def filter_map sc list.rel_map comp_def)
  have len: "length (filter (Match flt) xs) \<le> length items" for flt
    using list_all2_lengthD [OF due [of flt]] due_length by metis
  have take: "\<forall>i \<in> set (subscribers ds). \<forall>sub. map_get (subs ds) i = Some sub \<longrightarrow>
      sub_matches ds p i \<longrightarrow> can_take cd sub p"
  proof (intro ballI allI impI)
    fix i sub assume "i \<in> set (subscribers ds)" "map_get (subs ds) i = Some sub"
    with assms(8) have "expanded sub" "accepting sub (length items)" by blast+
    with len [of "sub_filter sub"] show "can_take cd sub p"
      by (simp add: can_take_def logical_def accepting_def ty filt)
  qed
  have em: "emitFrame cd sched None now ds (normalizeTickFrame items tick)
      = Emit cd sched None now ds (hub_event d)"
    using assms(3,4) d(1) by (simp add: emitFrame_def normalizeTickFrame_def EncodeEventBatch_def hub_event_def)
  note del = Emit_delivers [OF assms(1,2) p take, of sched]
  have "\<exists>sub es. map_get (subs ds) i = Some sub
         \<and> map_get (subs (snd (Emit cd sched None now ds (hub_event d)))) i
             = Some (sub\<lparr>queue := queue sub @ es\<rparr>)
         \<and> list_all2 (same_event rd) es (due (st_scope ds) (sub_filter sub) items)"
    if i: "i \<in> set (subscribers ds)" for i
  proof -
    from assms(1) i obtain sub where sub: "map_get (subs ds) i = Some sub"
      by (auto simp: stream_wf_def subs_wf_def)
    with assms(8) i ty have "sub_matches ds p i" "logical cd sub p = filter (Match (sub_filter sub)) xs"
      by (auto simp: sub_matches_def logical_def filt)
    with del i sub due show ?thesis by auto
  qed
  with del em show ?thesis by simp
qed

section \<open>Late registration\<close>

lemma finish_canceled: "finish m hub up ds = (m', hub', up', ds') \<Longrightarrow>
   hub' = hub \<and> ds' = ds \<and> merge_err m' = merge_err (merge_setErr m (hub_err hub)) \<and> merge_pc m' = FeedDone"
  by (auto simp: finish_def feeder_exit_def Cancel_def Let_def split: prod.splits)

text \<open>A merge whose hub went idle and canceled itself between the lookup in
  \<^verbatim>\<open>mergeHub\<close> and \<^verbatim>\<open>beginRegistration\<close> forwards nothing and reports nothing: whatever
  its first receive returns, the goroutine ends with no event queued or emitted and
  \<^verbatim>\<open>Err()\<close> is nil, because the refusal is \<^verbatim>\<open>context.Canceled\<close>, which
  \<^verbatim>\<open>setErr\<close> drops.\<close>

theorem late_registration_is_silent:
  assumes "hub_canceled hub" and "hub_err hub = None" and "merge_err m = None"
    and "ctx = None \<or> ctx = Some Canceled"
    and "run_hub_first k ctx m hub up ds = (m', hub', up', ds')"
    and "fst (sub_Next k ctx (merge_sub m) up) \<noteq> NextBlock"
  shows "merge_pc m' = FeedDone \<and> merge_Err m' hub' = None
    \<and> fifosByIdentity hub' = fifosByIdentity hub \<and> ds' = ds"
proof -
  obtain r up1 where nx: "sub_Next k ctx (merge_sub m) up = (r, up1)" by force
  have err: "e = Canceled" if "r = NextErr e" for e
    using nx assms(4) that by (auto simp: sub_Next_def Next_def split: option.splits prod.splits
        select_case.splits list.splits if_splits dest!: select_pick_mem)
  note run = assms(5) [unfolded run_hub_first_def nx]
  show ?thesis
  proof (cases r)
    case (NextEvent e)
    with run assms(1) have "finish (merge_setErr m (Some (ErrCtx Canceled))) (stopIfIdle (drop_pending hub)) up1 ds
        = (m', hub', up', ds')"
      by (simp add: registerPendingUpstream_def Let_def)
    from finish_canceled [OF this] assms(2,3) show ?thesis
      by (simp add: merge_setErr_def merge_Err_def stopIfIdle_def)
  next
    case NextClosed
    with run finish_canceled [of m "cancelPendingRegistration hub" up1 ds] assms(2,3) show ?thesis
      by (simp add: merge_setErr_def merge_Err_def cancelPendingRegistration_def Let_def)
  next
    case (NextErr e)
    with run finish_canceled [of "merge_setErr m (Some (ErrCtx Canceled))" "cancelPendingRegistration hub" up1 ds]
      assms(2,3) err [OF NextErr] show ?thesis
      by (simp add: merge_setErr_def merge_Err_def cancelPendingRegistration_def Let_def)
  next
    case NextBlock
    with assms(6) nx show ?thesis by simp
  qed
qed

section \<open>Concrete hubs\<close>

definition ex_up :: upstream_identity where
  "ex_up = upstreamIdentityOf (From ex_event)"

text \<open>One upstream registered, one event queued.\<close>

definition ex_hub0 :: merge_hub where
  "ex_hub0 = snd (registerPendingUpstream (beginRegistration (newMergeHub empty_scope 10 8)) ex_up 1)"

definition ex_hub :: merge_hub where
  "ex_hub = snd (hub_enqueue ex_hub0 ex_up ex_event)"

definition ex_fifo :: upstream_fifo where
  "ex_fifo = \<lparr>fifo_identity = ex_up, maxDepth = 8,
     fifo_events = [prepareBundledMergedEvent ex_event empty_scope]\<rparr>"

lemma ex_hub_eq:
  "ex_hub = (newMergeHub empty_scope 10 8)\<lparr>fifosByIdentity := [(ex_up, ex_fifo)], subscriptions := [(ex_up, 1)]\<rparr>"
  by (simp add: ex_hub_def ex_hub0_def beginRegistration_def newMergeHub_def registerPendingUpstream_def
      drop_pending_def hub_enqueue_def newUpstreamFIFO_def fifo_enqueue_def ex_fifo_def Let_def)

lemma ex_hub_reach: "reach (\<lambda>h. \<exists>sc tick depth. h = newMergeHub sc tick depth) hub_step ex_hub"
proof -
  let ?R = "reach (\<lambda>h. \<exists>sc tick depth. h = newMergeHub sc tick depth) hub_step"
  have "?R (newMergeHub empty_scope 10 8)" by (rule reach_start) blast
  then have "?R (beginRegistration (newMergeHub empty_scope 10 8))"
    by (rule reach_step) (rule step_begin)
  then have "?R ex_hub0"
    unfolding ex_hub0_def by (rule reach_step) (rule step_register [OF surjective_pairing])
  then show ?thesis
    unfolding ex_hub_def by (rule reach_step) (rule step_enqueue [OF surjective_pairing])
qed

theorem hub_fifos_bounded_witness:
  "reach (\<lambda>h. \<exists>sc tick depth. h = newMergeHub sc tick depth) hub_step ex_hub
   \<and> int (length (fifo_events ex_fifo)) \<le> maxDepth ex_fifo"
  using hub_fifos_bounded [OF ex_hub_reach] ex_hub_reach by (simp add: ex_hub_eq)

lemma ex_hub_wf: "hub_wf ex_hub"
  by (rule hubs.reach_inv [OF ex_hub_reach])

lemma ex_pop:
  "popJoinedHead ex_fifo = (Some (prepareBundledMergedEvent ex_event empty_scope), ex_fifo\<lparr>fifo_events := []\<rparr>)"
  by (simp add: popJoinedHead_Cons [where rest = "[]"] ex_fifo_def)

theorem tick_takes_one_per_upstream_witness:
  "let (r, h', ds') = flushTick ex_codec (\<lambda>_ _ _. 0) (\<lambda>_. 1) ex_hub (ex_two 1)
   in tickCounter h' = 1 \<and> map_get (fifosByIdentity h') ex_up = Some (ex_fifo\<lparr>fifo_events := []\<rparr>)"
proof -
  obtain r h' ds' where f: "flushTick ex_codec (\<lambda>_ _ _. 0) (\<lambda>_. 1) ex_hub (ex_two 1) = (r, h', ds')"
    by (metis prod_cases3)
  have "map_ok (fifosByIdentity ex_hub)" "\<exists>i f. map_get (fifosByIdentity ex_hub) i = Some f \<and> fifo_events f \<noteq> []"
    by (simp_all add: ex_hub_eq map_ok_def ex_fifo_def)
  from tick_takes_one_per_upstream [OF f this] have "tickCounter h' = tickCounter ex_hub + 1"
    "map_get (fifosByIdentity h') ex_up =
       (case map_get (fifosByIdentity ex_hub) ex_up of
          None \<Rightarrow> None
        | Some f \<Rightarrow>
            if fifo_events (snd (popJoinedHead f)) = [] \<and> \<not> map_has (subscriptions ex_hub) ex_up then None
            else Some (snd (popJoinedHead f)))"
    unfolding Let_def by blast+
  then have "tickCounter h' = 1 \<and> map_get (fifosByIdentity h') ex_up = Some (ex_fifo\<lparr>fifo_events := []\<rparr>)"
    by (simp add: ex_hub_eq ex_pop map_has_def newMergeHub_def)
  then show ?thesis by (simp only: f prod.case Let_def simp_thms)
qed

theorem drain_empties_or_reports_witness:
  "hub_wf ex_hub \<and> subs_wf (ex_two 1) \<and> \<not> hub_canceled ex_hub
   \<and> \<not> map_has (subscriptions (fst (drainClosedUpstream ex_codec (\<lambda>_ _ _. 0) (\<lambda>_. 1) ex_hub ex_up (ex_two 1)))) ex_up"
proof -
  obtain h' ds' where d: "drainClosedUpstream ex_codec (\<lambda>_ _ _. 0) (\<lambda>_. 1) ex_hub ex_up (ex_two 1) = (h', ds')"
    by force
  have s: "subs_wf (ex_two 1)" using ex_two_facts(1) by (simp add: stream_wf_def)
  have c: "\<not> hub_canceled ex_hub" by (simp add: ex_hub_eq newMergeHub_def)
  from drain_empties_or_reports [OF ex_hub_wf s c d] s c ex_hub_wf d show ?thesis by simp
qed

definition ex_items :: "event list" where
  "ex_items = map (\<lambda>ev. prepareMergedEvent (ev\<lparr>Delta := Some '' null''\<rparr>)) [ex_event, ex_event\<lparr>Status := ''completed''\<rparr>]"

text \<open>A codec for batches of merged copies of one event that differ in their status: the first letters
  of the statuses, as a JSON string.\<close>

definition ex_rt_codec :: codec where
  "ex_rt_codec = \<lparr>encode = (\<lambda>b. Some (quote # map (hd \<circ> Status) (Events b) @ [quote])),
     decode = (\<lambda>d. if d = [] then None
       else Some \<lparr>TickID = 1, Events = map (\<lambda>c. ex_event\<lparr>Status := if c = CHR ''r'' then ''running'' else ''completed'',
         Delta := Some ''null'', Metadata := Some [(upstream_key, AnyJSON ''0'')]\<rparr>) (butlast (tl d))\<rparr>)\<rparr>"

lemma zero_digit: "itoa_digits 0 = ''0''"
  by code_simp

lemma ex_rt_codec_roundtrip: "codec_roundtrip ex_rt_codec AnyJSON \<lparr>TickID = 1, Events = ex_items\<rparr>"
proof -
  let ?b = "\<lparr>TickID = 1, Events = ex_items\<rparr>"
  have d: "encode ex_rt_codec ?b = Some (quote # ''rc'' @ [quote])"
    by (simp add: ex_rt_codec_def ex_items_def ex_event_def)
  have "json_Valid (quote # ''rc'' @ [quote])" by code_simp
  moreover have "list_all2 (same_event AnyJSON) (Events (the (decode ex_rt_codec (quote # ''rc'' @ [quote])))) ex_items"
    by (simp add: ex_rt_codec_def ex_items_def ex_event_def same_event_def same_envelope_def same_payload_def metadata_get_def
        prepareMergedEvent_def cloneMetadata_def zero_event_def json_compact_def isSpace_def quote_def backslash_def
        upstream_key_def zero_digit)
  ultimately show ?thesis unfolding codec_roundtrip_def d by (simp add: ex_rt_codec_def)
qed

definition ex_exp :: stream where
  "ex_exp = (New empty_scope DefaultConfig)\<lparr>nextSubID := 1,
     subs := [(1, (ex_sub 4 OverflowError)\<lparr>expanded := True\<rparr>)], subscribers := [1]\<rparr>"

theorem bundle_reaches_subscribers_witness:
  "fst (emitFrame ex_rt_codec (\<lambda>_ _. 0) None 1 ex_exp (normalizeTickFrame ex_items 1)) = SrOk"
proof -
  have "stream_wf ex_exp" "\<not> closed ex_exp"
    by (simp_all add: ex_exp_def stream_wf_def buf_wf_def subs_wf_def seq_window_def New_def map_ok_def
        map_has_def ex_sub_def)
  moreover note ex_rt_codec_roundtrip
  moreover have "\<forall>i \<in> set (subscribers ex_exp). \<forall>sub. map_get (subs ex_exp) i = Some sub \<longrightarrow>
      expanded sub \<and> accepting sub (length ex_items)"
    by (simp add: ex_exp_def ex_sub_def accepting_def ex_items_def)
  ultimately show ?thesis
    using bundle_reaches_subscribers [of ex_exp ex_items 1 ex_rt_codec AnyJSON 1 "\<lambda>_ _. 0"]
    by (simp add: ex_items_def time_marshalable_def)
qed

theorem late_registration_is_silent_witness:
  "let hub = beginRegistration (hub_Stop (newMergeHub empty_scope 10 8));
       m = \<lparr>merge_sub = 2, merge_pc = FeedFirst, merge_err = None, merge_hub_mode = True\<rparr>;
       up = snd (Emit ex_codec (\<lambda>_ _. 0) None 1 (ex_two 1) ex_event)
   in \<exists>m' hub' up' ds'. run_hub_first 0 None m hub up (ex_two 1) = (m', hub', up', ds')
        \<and> fst (sub_Next 0 None 2 up) = NextEvent ex_prepared
        \<and> merge_pc m' = FeedDone \<and> merge_Err m' hub' = None \<and> ds' = ex_two 1"
proof -
  let ?hub = "beginRegistration (hub_Stop (newMergeHub empty_scope 10 8))"
  let ?m = "\<lparr>merge_sub = 2, merge_pc = FeedFirst, merge_err = None, merge_hub_mode = True\<rparr>"
  let ?up = "snd (Emit ex_codec (\<lambda>_ _. 0) None 1 (ex_two 1) ex_event)"
  have take: "\<forall>i \<in> set (subscribers (ex_two 1)). \<forall>sub. map_get (subs (ex_two 1)) i = Some sub \<longrightarrow>
      sub_matches (ex_two 1) ex_prepared i \<longrightarrow> can_take ex_codec sub ex_prepared"
    by (auto simp: ex_two_def ex_sub_def can_take_def accepting_def logical_def split: if_splits)
  have "2 \<in> set (filter (sub_matches (ex_two 1) ex_prepared) (subscribers (ex_two 1)))"
    unfolding ex_two_facts(4) by simp
  with Emit_delivers [OF ex_two_facts(1-3) take, of "\<lambda>_ _. 0"]
  have "map_get (subs ?up) 2 = map_option (\<lambda>sub. sub\<lparr>queue := queue sub @ logical ex_codec sub ex_prepared\<rparr>)
      (map_get (subs (ex_two 1)) 2)"
    by simp
  then have "map_get (subs ?up) 2 = Some ((ex_sub 4 OverflowDropNewest)\<lparr>queue := [ex_prepared]\<rparr>)"
    unfolding ex_two_def [of 1] by (simp add: ex_sub_def logical_def)
  then have nx: "fst (sub_Next 0 None 2 ?up) = NextEvent ex_prepared"
    by (simp add: sub_Next_def Next_def ex_sub_def split: prod.splits)
  obtain m' hub' up' ds' where run: "run_hub_first 0 None ?m ?hub ?up (ex_two 1) = (m', hub', up', ds')"
    by (metis prod_cases4)
  from late_registration_is_silent [OF _ _ _ _ run] nx run show ?thesis
    by (simp add: Let_def beginRegistration_def hub_Stop_def newMergeHub_def)
qed

end
