(* ===== verification/Runner_Types.thy ===== *)
theory Runner_Types
  imports Stream_Event
begin

text \<open>
  \<^verbatim>\<open>runner/types.go\<close>, \<^verbatim>\<open>runner/record.go\<close>, \<^verbatim>\<open>runner/view.go\<close> and the state
  part of \<^verbatim>\<open>runner/persistence.go\<close>: statuses, phases, engine events, persisted records,
  snapshots.

  A Go \<^verbatim>\<open>error\<close> is the list of the error texts it joins (\<^verbatim>\<open>errors.Join\<close> is
  append, nil is the empty list); \<^verbatim>\<open>errors.Is\<close> against a context error is membership.  A
  node's \<^verbatim>\<open>any\<close> output is a string, a value with its JSON encoding, or a value
  \<^verbatim>\<open>encoding/json\<close> rejects together with its \<^verbatim>\<open>%v\<close> rendering.
\<close>

section \<open>Statuses and phases\<close>

datatype runner_status =
    RunnerStatusPending | RunnerStatusRunning | RunnerStatusIdle | RunnerStatusFailed | RunnerStatusCanceled

datatype runner_phase =
    PhaseCreated | PhasePolishing | PhaseAwaitingReview | PhaseAwaitingReplan | PhaseExecuting
  | PhaseReport | PhaseSettled

type_synonym go_error = "string list"

definition errCanceled :: string where "errCanceled = ''context canceled''"
definition errDeadline :: string where "errDeadline = ''context deadline exceeded''"
definition ErrRunnerAlreadyStarted :: string where
  "ErrRunnerAlreadyStarted = ''orchestrate: runner already started''"
definition ErrInvalidPhase :: string where
  "ErrInvalidPhase = ''orchestrate: runner in wrong phase for this transition''"
definition ErrPlanRequired :: string where
  "ErrPlanRequired = ''orchestrate: runner has no plan attached''"

definition error_Is :: "go_error \<Rightarrow> string \<Rightarrow> bool" where
  "error_Is err target \<longleftrightarrow> target \<in> set err"

text \<open>\<^verbatim>\<open>Error()\<close> of a joined error: one text per line.\<close>

fun error_text :: "go_error \<Rightarrow> string" where
  "error_text [] = []"
| "error_text [e] = e"
| "error_text (e # es) = e @ CHR 0x0A # error_text es"

record runner_state =
  rs_Status :: runner_status
  rs_StartedAt :: time
  rs_UpdatedAt :: time
  rs_FinishedAt :: time
  rs_Error :: string

definition IsRemovable :: "runner_state \<Rightarrow> bool" where
  "IsRemovable st =
     (case rs_Status st of
        RunnerStatusPending \<Rightarrow> True
      | RunnerStatusFailed \<Rightarrow> True
      | RunnerStatusCanceled \<Rightarrow> True
      | _ \<Rightarrow> False)"

text \<open>\<^verbatim>\<open>transitionState\<close>: the new state and whether it changed.\<close>

definition transitionState ::
  "time \<Rightarrow> runner_status \<Rightarrow> go_error \<Rightarrow> bool \<Rightarrow> runner_state \<Rightarrow> runner_state \<times> bool" where
  "transitionState now status runErr terminal st =
     (let errText = error_text runErr in
      if rs_Status st = status \<and> rs_Error st = errText \<and> (\<not> terminal \<or> rs_FinishedAt st \<noteq> 0)
      then (st, False)
      else
        let st = (if rs_StartedAt st = 0 \<and> status \<noteq> RunnerStatusPending then st\<lparr>rs_StartedAt := now\<rparr> else st);
            st = st\<lparr>rs_Status := status, rs_UpdatedAt := now, rs_Error := errText\<rparr>;
            st = (if terminal then st\<lparr>rs_FinishedAt := now\<rparr> else st)
        in (st, True))"

section \<open>Engine events and records\<close>

datatype event_type =
    EventNodeAdded | EventNodeStarted | EventNodeCompleted | EventNodeFailed | EventEngineIdle
  | EventEngineStopped

fun event_type_String :: "event_type \<Rightarrow> string" where
  "event_type_String EventNodeAdded = ''NodeAdded''"
| "event_type_String EventNodeStarted = ''NodeStarted''"
| "event_type_String EventNodeCompleted = ''NodeCompleted''"
| "event_type_String EventNodeFailed = ''NodeFailed''"
| "event_type_String EventEngineIdle = ''EngineIdle''"
| "event_type_String EventEngineStopped = ''EngineStopped''"

datatype any_out = OutString string bytes | OutJSON bytes | OutOpaque string

datatype event_data = DataNil | DataErr go_error | DataOut any_out

record runner_event =
  re_Type :: event_type
  re_NodeID :: string
  re_Data :: event_data

record stored_event =
  se_Type :: string
  se_NodeID :: string
  DataEncoding :: string
  DataJSON :: bytes
  DataText :: string

definition isRunnerChannelMarkdown :: "(string \<Rightarrow> bool) \<Rightarrow> string \<Rightarrow> bool" where
  "isRunnerChannelMarkdown parses raw =
     (if \<not> HasPrefix raw (''---'' @ [CHR 0x0A]) then False else parses raw)"

definition newStoredRunnerEvent :: "(string \<Rightarrow> bool) \<Rightarrow> runner_event \<Rightarrow> stored_event" where
  "newStoredRunnerEvent parses event =
     (let stored = \<lparr>se_Type = event_type_String (re_Type event), se_NodeID = re_NodeID event,
                    DataEncoding = [], DataJSON = [], DataText = []\<rparr>
      in (case re_Data event of
            DataNil \<Rightarrow> stored
          | DataErr e \<Rightarrow> stored\<lparr>DataEncoding := ''text'', DataText := error_text e\<rparr>
          | DataOut (OutString text raw) \<Rightarrow>
              if isRunnerChannelMarkdown parses text
              then stored\<lparr>DataEncoding := ''markdown'', DataText := text\<rparr>
              else stored\<lparr>DataEncoding := ''json'', DataJSON := raw\<rparr>
          | DataOut (OutJSON raw) \<Rightarrow> stored\<lparr>DataEncoding := ''json'', DataJSON := raw\<rparr>
          | DataOut (OutOpaque text) \<Rightarrow> stored\<lparr>DataEncoding := ''text'', DataText := text\<rparr>))"

datatype record_kind = RunnerRecordInit | RunnerRecordStatus | RunnerRecordEvent

record runner_record =
  Seq :: int
  rec_Kind :: record_kind
  rec_Timestamp :: time
  rec_Status :: "runner_status option"
  rec_Error :: string
  rec_Event :: "stored_event option"

definition record_of :: "record_kind \<Rightarrow> runner_record" where
  "record_of k = \<lparr>Seq = 0, rec_Kind = k, rec_Timestamp = 0, rec_Status = None, rec_Error = [],
     rec_Event = None\<rparr>"

section \<open>Nodes and snapshots\<close>

record node =
  nd_Id :: string
  nd_SkillName :: string
  nd_TaskDescription :: string
  nd_Parents :: "string list"

record runner_snapshot =
  ActiveCount :: int
  CompletedNodes :: "(string, any_out) gomap"
  PendingNodes :: "(string, int) gomap"
  GraphEdges :: "(string, string list) gomap"
  NodesData :: "(string, node) gomap"

definition append_edge :: "(string, 'a list) gomap \<Rightarrow> string \<Rightarrow> 'a \<Rightarrow> (string, 'a list) gomap" where
  "append_edge m p x = map_set m p ((case map_get m p of None \<Rightarrow> [] | Some xs \<Rightarrow> xs) @ [x])"

fun initial_loop :: "(string, node) gomap \<Rightarrow> runner_snapshot \<Rightarrow> runner_snapshot" where
  "initial_loop [] s = s"
| "initial_loop ((i, n) # m) s =
     initial_loop m
       (s\<lparr>NodesData := map_set (NodesData s) i n,
          PendingNodes := map_set (PendingNodes s) i (int (length (nd_Parents n))),
          GraphEdges := fold (\<lambda>p g. append_edge g p i) (nd_Parents n) (GraphEdges s)\<rparr>)"

definition buildInitialRunnerSnapshot :: "(string, node) gomap \<Rightarrow> runner_snapshot" where
  "buildInitialRunnerSnapshot nodes =
     initial_loop nodes \<lparr>ActiveCount = 0, CompletedNodes = [], PendingNodes = [], GraphEdges = [],
       NodesData = []\<rparr>"

text \<open>Copying a map key by key.\<close>

definition copy_map :: "('k, 'v) gomap \<Rightarrow> ('k, 'v) gomap" where
  "copy_map m = fold (\<lambda>(k, v) out. map_set out k v) m []"

definition cloneRunnerSnapshot :: "runner_snapshot \<Rightarrow> runner_snapshot" where
  "cloneRunnerSnapshot s =
     \<lparr>ActiveCount = ActiveCount s, CompletedNodes = copy_map (CompletedNodes s),
      PendingNodes = copy_map (PendingNodes s), GraphEdges = copy_map (GraphEdges s),
      NodesData = copy_map (NodesData s)\<rparr>"

section \<open>Stream event types\<close>

definition EventRunnerNodeAdded :: string where "EventRunnerNodeAdded = ''runner.node.added''"
definition EventRunnerNodeStarted :: string where "EventRunnerNodeStarted = ''runner.node.started''"
definition EventRunnerNodeCompleted :: string where "EventRunnerNodeCompleted = ''runner.node.completed''"
definition EventRunnerNodeFailed :: string where "EventRunnerNodeFailed = ''runner.node.failed''"

fun runnerEventStreamType :: "event_type \<Rightarrow> runner_status \<Rightarrow> string \<times> string" where
  "runnerEventStreamType EventNodeAdded _ = (EventRunnerNodeAdded, StatusPending)"
| "runnerEventStreamType EventNodeStarted _ = (EventRunnerNodeStarted, StatusRunning)"
| "runnerEventStreamType EventNodeCompleted _ = (EventRunnerNodeCompleted, StatusCompleted)"
| "runnerEventStreamType EventNodeFailed _ = (EventRunnerNodeFailed, StatusFailed)"
| "runnerEventStreamType EventEngineIdle _ = (EventStatusProgress, StatusCompleted)"
| "runnerEventStreamType EventEngineStopped status =
     (if status = RunnerStatusFailed then (EventStatusProgress, StatusFailed)
      else (EventStatusProgress, StatusCompleted))"

fun runnerStreamStatus :: "runner_status \<Rightarrow> string" where
  "runnerStreamStatus RunnerStatusPending = StatusPending"
| "runnerStreamStatus RunnerStatusRunning = StatusRunning"
| "runnerStreamStatus RunnerStatusIdle = StatusCompleted"
| "runnerStreamStatus RunnerStatusFailed = StatusFailed"
| "runnerStreamStatus RunnerStatusCanceled = StatusFailed"

section \<open>Lemmas\<close>

lemma map_get_map_of: "map_get m k = map_of m k"
  by (simp add: map_get_def)

lemma copy_map_eq: "map_ok m \<Longrightarrow> copy_map m = m"
  using fold_map_set_distinct [of "[]" m] by (simp add: copy_map_def map_ok_def)

lemma cloneRunnerSnapshot_eq:
  "map_ok (CompletedNodes s) \<Longrightarrow> map_ok (PendingNodes s) \<Longrightarrow> map_ok (GraphEdges s) \<Longrightarrow>
   map_ok (NodesData s) \<Longrightarrow> cloneRunnerSnapshot s = s"
  by (simp add: cloneRunnerSnapshot_def copy_map_eq)

lemma append_edge_get:
  "map_get (append_edge m p x) q =
     (if q = p then Some ((case map_get m p of None \<Rightarrow> [] | Some xs \<Rightarrow> xs) @ [x]) else map_get m q)"
  by (simp add: append_edge_def)

lemma append_edge_ok [simp]: "map_ok m \<Longrightarrow> map_ok (append_edge m p x)"
  by (simp add: append_edge_def)

end
