(* ===== verification/Runner_Plan.thy ===== *)
theory Runner_Plan
  imports Go_Strings Runner_Types
begin

text \<open>
  \<^verbatim>\<open>runner/plan.go\<close>, the parsing half of \<^verbatim>\<open>runner/plan_skill.go\<close> and
  \<^verbatim>\<open>orchestrator/planning.go\<close>, and \<^verbatim>\<open>buildPlanNodes\<close> of
  \<^verbatim>\<open>orchestrator/request.go\<close>: plans, how a plan is cut out of a model's reply, and how it
  becomes a node graph.

  \<^verbatim>\<open>json.Unmarshal\<close> into a Go struct is a parameter, a function from text to the decoded
  struct or an error text; so is a call of the planner skill (the n-th call's reply) and the
  Unicode letter tables (\<open>uni\<close>: every non-ASCII rune of the text is a letter or digit).
\<close>

section \<open>Plans\<close>

record coarse_plan_node =
  cn_ID :: string
  cn_SkillName :: string
  cn_TaskDescription :: string
  cn_DependsOn :: "string list"

record coarse_plan =
  cp_Request :: string
  cp_RunnerID :: string
  cp_Nodes :: "coarse_plan_node list"

record plan_review =
  Approved :: bool
  Reason :: string

definition CloneCoarsePlan :: "coarse_plan option \<Rightarrow> coarse_plan option" where
  "CloneCoarsePlan plan =
     (case plan of
        None \<Rightarrow> None
      | Some p \<Rightarrow> Some (p\<lparr>cp_Nodes := map (\<lambda>n. n\<lparr>cn_DependsOn := [] @ cn_DependsOn n\<rparr>) (cp_Nodes p)\<rparr>))"

section \<open>Cutting a JSON object out of prose\<close>

definition lbrace :: char where "lbrace = CHR 0x7B"
definition rbrace :: char where "rbrace = CHR 0x7D"
definition dquote :: char where "dquote = CHR 0x22"
definition bslash :: char where "bslash = CHR 0x5C"
definition newline :: char where "newline = CHR 0x0A"

text \<open>The scanning loop: how many bytes, after \<open>k\<close> read so far, up to the closing brace.\<close>

fun balance_scan :: "int \<Rightarrow> bool \<Rightarrow> bool \<Rightarrow> nat \<Rightarrow> string \<Rightarrow> nat option" where
  "balance_scan depth inString escape k [] = None"
| "balance_scan depth inString escape k (c # cs) =
     (if escape then balance_scan depth inString False (Suc k) cs
      else if c = bslash then balance_scan depth inString inString (Suc k) cs
      else if c = dquote then balance_scan depth (\<not> inString) False (Suc k) cs
      else if inString then balance_scan depth inString False (Suc k) cs
      else if c = lbrace then balance_scan (depth + 1) inString False (Suc k) cs
      else if c = rbrace then
        (if depth - 1 = 0 then Some (Suc k) else balance_scan (depth - 1) inString False (Suc k) cs)
      else balance_scan depth inString False (Suc k) cs)"

definition extractBalancedObject :: "string \<Rightarrow> string" where
  "extractBalancedObject text =
     (case IndexByte text lbrace of
        None \<Rightarrow> []
      | Some start \<Rightarrow>
          (case balance_scan 0 False False 0 (drop start text) of
             None \<Rightarrow> []
           | Some n \<Rightarrow> take n (drop start text)))"

definition is_ascii :: "char \<Rightarrow> bool" where "is_ascii c \<longleftrightarrow> (of_char c :: nat) < 128"

definition ascii_ident :: "char \<Rightarrow> bool" where
  "ascii_ident c \<longleftrightarrow>
     (let n = of_char c :: nat in
      65 \<le> n \<and> n \<le> 90 \<or> 97 \<le> n \<and> n \<le> 122 \<or> 48 \<le> n \<and> n \<le> 57 \<or> c = CHR ''_'' \<or> c = CHR ''-'')"

definition isIdentifier :: "(string \<Rightarrow> bool) \<Rightarrow> string \<Rightarrow> bool" where
  "isIdentifier uni text =
     (if text = [] then False
      else (\<forall>c \<in> set text. is_ascii c \<longrightarrow> ascii_ident c) \<and> ((\<forall>c \<in> set text. is_ascii c) \<or> uni text))"

definition fence :: string where "fence = ''```''"

definition stripCodeFences :: "(string \<Rightarrow> bool) \<Rightarrow> string \<Rightarrow> string" where
  "stripCodeFences uni text =
     (if \<not> HasPrefix text fence then text
      else
        let rest = drop (length fence) text;
            rest = (case IndexByte rest newline of
                      None \<Rightarrow> rest
                    | Some idx \<Rightarrow>
                        let first = TrimSpace (take idx rest)
                        in if first = [] \<or> isIdentifier uni first then drop (idx + 1) rest else rest)
        in (case LastIndex rest fence of None \<Rightarrow> rest | Some end \<Rightarrow> take end rest))"

definition ExtractJSONObject :: "(string \<Rightarrow> bool) \<Rightarrow> string \<Rightarrow> string" where
  "ExtractJSONObject uni raw =
     (let trimmed = TrimSpace raw in
      if trimmed = [] then []
      else
        let stripped = TrimSpace (stripCodeFences uni trimmed) in
        if stripped = [] then []
        else let obj = extractBalancedObject stripped in if obj \<noteq> [] then obj else [])"

definition ellipsis :: string where "ellipsis = [CHR 0xE2, CHR 0x80, CHR 0xA6]"

definition SummarizeRaw :: "string \<Rightarrow> int \<Rightarrow> string" where
  "SummarizeRaw raw limit =
     (let limit = (if limit \<le> 0 then 200 else limit);
          collapsed = Join (Fields raw) '' ''
      in if int (length collapsed) \<le> limit then collapsed else take (nat limit) collapsed @ ellipsis)"

definition compactStreamText :: "string \<Rightarrow> string" where
  "compactStreamText text =
     (let text = Join (Fields text) '' ''
      in if length text > 240 then take 240 text @ ''...'' else text)"

section \<open>Planner replies\<close>

record review_response =
  rr_Approved :: "bool option"
  rr_Reason :: string
  rr_Reject :: "(string \<times> string) option"

datatype parse_error = NoJSONObject string | BadJSON string string | MissingVerdict string | NoPlan string
  | BothPlanAndReject | NeitherPlanNorReject string

definition parsePlannerReviewOutput ::
  "(string \<Rightarrow> bool) \<Rightarrow> (string \<Rightarrow> string + review_response) \<Rightarrow> string \<Rightarrow> parse_error + plan_review" where
  "parsePlannerReviewOutput uni unmarshal raw =
     (let cleaned = ExtractJSONObject uni raw in
      if cleaned = [] then Inl (NoJSONObject (SummarizeRaw raw 200))
      else
        (case unmarshal cleaned of
           Inl err \<Rightarrow> Inl (BadJSON err (SummarizeRaw raw 200))
         | Inr out \<Rightarrow>
             (case rr_Reject out of
                Some (summary, analysis) \<Rightarrow>
                  let reason = TrimSpace summary; analysis = TrimSpace analysis;
                      reason = (if reason = [] then analysis
                                else if analysis \<noteq> [] then reason @ '': '' @ analysis else reason)
                  in Inr \<lparr>Approved = False, Reason = reason\<rparr>
              | None \<Rightarrow>
                  (case rr_Approved out of
                     None \<Rightarrow> Inl (MissingVerdict (SummarizeRaw raw 200))
                   | Some b \<Rightarrow> Inr \<lparr>Approved = b, Reason = TrimSpace (rr_Reason out)\<rparr>))))"

definition parsePlannerReplanOutput ::
  "(string \<Rightarrow> bool) \<Rightarrow> (string \<Rightarrow> string + coarse_plan option) \<Rightarrow> string \<Rightarrow> parse_error + coarse_plan" where
  "parsePlannerReplanOutput uni unmarshal raw =
     (let cleaned = ExtractJSONObject uni raw in
      if cleaned = [] then Inl (NoJSONObject (SummarizeRaw raw 200))
      else
        (case unmarshal cleaned of
           Inl err \<Rightarrow> Inl (BadJSON err (SummarizeRaw raw 200))
         | Inr None \<Rightarrow> Inl (NoPlan (SummarizeRaw raw 200))
         | Inr (Some plan) \<Rightarrow> Inr plan))"

record reject_reason =
  rj_Summary :: string
  rj_Analysis :: string
  rj_MissingSkills :: "string list"

definition parseOrchestratorPlanningOutput ::
  "(string \<Rightarrow> bool) \<Rightarrow> (string \<Rightarrow> string + coarse_plan option \<times> reject_reason option) \<Rightarrow> string
     \<Rightarrow> parse_error + coarse_plan option \<times> reject_reason option" where
  "parseOrchestratorPlanningOutput uni unmarshal raw =
     (let cleaned = ExtractJSONObject uni raw in
      if cleaned = [] then Inl (NoJSONObject (SummarizeRaw raw 200))
      else
        (case unmarshal cleaned of
           Inl err \<Rightarrow> Inl (BadJSON err (SummarizeRaw raw 200))
         | Inr (plan, reject) \<Rightarrow>
             if plan \<noteq> None \<and> reject \<noteq> None then Inl BothPlanAndReject
             else if plan = None \<and> reject = None then Inl (NeitherPlanNorReject (SummarizeRaw raw 200))
             else Inr (plan, reject)))"

text \<open>
  Asking with one retry, as \<^verbatim>\<open>planWithOrchestrator\<close>, \<^verbatim>\<open>reviewPolishedPlan\<close> and
  \<^verbatim>\<open>replanPolishedPlan\<close> do: \<open>ask n\<close> is the reply to the n-th call.  The result is the call
  error, the second parse error, or the parsed value.
\<close>

datatype 'e ask_error = RunError string | ParseTwice 'e

definition ask_with_retry ::
  "(nat \<Rightarrow> string + string) \<Rightarrow> (string \<Rightarrow> 'e + 'a) \<Rightarrow> 'e ask_error + 'a" where
  "ask_with_retry ask parse =
     (case ask 0 of
        Inl err \<Rightarrow> Inl (RunError err)
      | Inr raw \<Rightarrow>
          (case parse raw of
             Inr v \<Rightarrow> Inr v
           | Inl _ \<Rightarrow>
               (case ask 1 of
                  Inl err \<Rightarrow> Inl (RunError err)
                | Inr raw \<Rightarrow> (case parse raw of Inr v \<Rightarrow> Inr v | Inl e \<Rightarrow> Inl (ParseTwice e)))))"

section \<open>Building the node graph\<close>

datatype build_error =
    EmptyPlan | EmptyNodeID | DuplicateNode string | EmptySkillName string
  | UnregisteredSkill string string | AgentError string string | UnknownDependency string string

fun make_nodes ::
  "(string \<Rightarrow> bool) \<Rightarrow> (coarse_plan_node \<Rightarrow> string option) \<Rightarrow> string \<Rightarrow> coarse_plan_node list
     \<Rightarrow> (string, node) gomap \<Rightarrow> build_error + (string, node) gomap" where
  "make_nodes registered new_agent input [] nodes = Inr nodes"
| "make_nodes registered new_agent input (step # steps) nodes =
     (if cn_ID step = [] then Inl EmptyNodeID
      else if map_has nodes (cn_ID step) then Inl (DuplicateNode (cn_ID step))
      else if cn_SkillName step = [] then Inl (EmptySkillName (cn_ID step))
      else if \<not> registered (cn_SkillName step) then Inl (UnregisteredSkill (cn_ID step) (cn_SkillName step))
      else
        (case new_agent step of
           Some err \<Rightarrow> Inl (AgentError (cn_ID step) err)
         | None \<Rightarrow>
             make_nodes registered new_agent input steps
               (map_set nodes (cn_ID step)
                  \<lparr>nd_Id = cn_ID step, nd_SkillName = cn_SkillName step,
                   nd_TaskDescription =
                     (if cn_TaskDescription step = [] then input else cn_TaskDescription step),
                   nd_Parents = []\<rparr>)))"

fun link_parents ::
  "string \<Rightarrow> string list \<Rightarrow> (string, node) gomap \<Rightarrow> build_error + (string, node) gomap" where
  "link_parents i [] nodes = Inr nodes"
| "link_parents i (p # ps) nodes =
     (if \<not> map_has nodes p then Inl (UnknownDependency i p)
      else link_parents i ps
             (case map_get nodes i of
                None \<Rightarrow> nodes
              | Some n \<Rightarrow> map_set nodes i (n\<lparr>nd_Parents := nd_Parents n @ [p]\<rparr>)))"

fun link_nodes :: "coarse_plan_node list \<Rightarrow> (string, node) gomap \<Rightarrow> build_error + (string, node) gomap" where
  "link_nodes [] nodes = Inr nodes"
| "link_nodes (step # steps) nodes =
     (case link_parents (cn_ID step) (cn_DependsOn step) nodes of
        Inl e \<Rightarrow> Inl e
      | Inr nodes \<Rightarrow> link_nodes steps nodes)"

definition buildPlanNodes ::
  "(string \<Rightarrow> bool) \<Rightarrow> (coarse_plan_node \<Rightarrow> string option) \<Rightarrow> string \<Rightarrow> coarse_plan
     \<Rightarrow> build_error + (string, node) gomap" where
  "buildPlanNodes registered new_agent input plan =
     (if cp_Nodes plan = [] then Inl EmptyPlan
      else
        (case make_nodes registered new_agent input (cp_Nodes plan) [] of
           Inl e \<Rightarrow> Inl e
         | Inr nodes \<Rightarrow> link_nodes (cp_Nodes plan) nodes))"

end
