(* ===== verification/Runner_Plan_Theorems.thy ===== *)
theory Runner_Plan_Theorems
  imports Runner_Plan Go_Json
begin

text \<open>
  Extraction of a planner's JSON object from its reply, and the graph a plan builds.
\<close>

section \<open>JSON texts\<close>

text \<open>The brace counter of \<^verbatim>\<open>extractBalancedObject\<close> follows the scanner of
  \<^verbatim>\<open>encoding/json\<close>: its depth is the number of open objects, its flags say whether the scanner is
  inside a string and behind a backslash.\<close>

lemmas chars = lbrace_def rbrace_def dquote_def bslash_def quote_def backslash_def

definition open_objects :: "parse_state list \<Rightarrow> nat" where
  "open_objects ps = length (filter (\<lambda>p. p \<noteq> ParseArrayValue) ps)"

fun inside_string :: "scan_state \<Rightarrow> bool" where
  "inside_string InString = True"
| "inside_string InStringEsc = True"
| "inside_string (InStringEscU n) = True"
| "inside_string st = False"

definition plain :: "char \<Rightarrow> bool" where
  "plain c \<longleftrightarrow> c \<notin> {bslash, dquote, lbrace, rbrace}"

fun literal_rest :: "scan_state \<Rightarrow> string" where
  "literal_rest (Literal l) = l"
| "literal_rest st = []"

text \<open>The scanner is inside an object at the top of the text.\<close>

definition in_object :: "scanner \<Rightarrow> bool" where
  "in_object s \<longleftrightarrow> sc_parse s \<noteq> [] \<and> last (sc_parse s) \<noteq> ParseArrayValue \<and> \<not> sc_endTop s \<and> sc_step s \<noteq> EndTop
     \<and> list_all plain (literal_rest (sc_step s)) \<and> (sc_step s = BeginStringOrEmpty \<longrightarrow> hd (sc_parse s) = ParseObjectKey)"

definition balance_at :: "scanner \<Rightarrow> nat \<Rightarrow> string \<Rightarrow> nat option" where
  "balance_at s = balance_scan (int (open_objects (sc_parse s))) (inside_string (sc_step s)) (sc_step s = InStringEsc)"

lemma open_objects_simps [simp]:
  "open_objects [] = 0" "open_objects (p # ps) = (if p = ParseArrayValue then open_objects ps else Suc (open_objects ps))"
  by (simp_all add: open_objects_def)

lemma open_objects_pos: "ps \<noteq> [] \<Longrightarrow> last ps \<noteq> ParseArrayValue \<Longrightarrow> 0 < open_objects ps"
proof -
  assume "ps \<noteq> []" "last ps \<noteq> ParseArrayValue"
  then have "last ps \<in> set (filter (\<lambda>p. p \<noteq> ParseArrayValue) ps)" by simp
  then show ?thesis unfolding open_objects_def by (metis length_pos_if_in_set)
qed

lemma plain_chars: "isSpace c \<Longrightarrow> plain c" "isDigit c \<Longrightarrow> plain c" "isHex c \<Longrightarrow> plain c"
  by (auto simp: isSpace_def isDigit_def isHex_def plain_def chars)

lemma plain_balance:
  "plain c \<Longrightarrow> balance_scan d b False k (c # cs) = balance_scan d b False (Suc k) cs"
  by (simp add: plain_def)

text \<open>One byte: the scanner stays in the object and the counter follows it, or this is the brace that
  closes the object.\<close>

definition follows :: "scanner \<Rightarrow> char \<Rightarrow> scanner \<Rightarrow> bool" where
  "follows s c s' \<longleftrightarrow>
     in_object s' \<and> (\<forall>k cs. balance_at s k (c # cs) = balance_at s' (Suc k) cs)
     \<or> c = rbrace \<and> after_value s' \<and> (\<forall>k cs. balance_at s k (c # cs) = Some (Suc k))"

lemma follows_plain:
  assumes "in_object s" "plain c" "\<not> inside_string (sc_step s)" "in_object s'" "\<not> inside_string (sc_step s')"
    "open_objects (sc_parse s') = open_objects (sc_parse s)"
  shows "follows s c s'"
proof -
  have "sc_step s \<noteq> InStringEsc" "sc_step s' \<noteq> InStringEsc" using assms(3,5) by auto
  with assms show ?thesis unfolding follows_def balance_at_def by (simp add: plain_balance del: balance_scan.simps)
qed

lemma pop_object:
  assumes "in_object s" "sc_parse s = p # rest" "p \<noteq> ParseArrayValue" "\<not> inside_string (sc_step s)"
    "t = s\<lparr>sc_parse := q # rest\<rparr>"
  shows "follows s rbrace (pop_parse t)"
proof (cases "rest = []")
  case True
  with assms show ?thesis
    by (auto simp: follows_def balance_at_def pop_parse_def after_value_def chars)
next
  case False
  with assms have "last rest \<noteq> ParseArrayValue" by (simp add: in_object_def)
  from open_objects_pos [OF False this] False assms show ?thesis
    by (auto simp: follows_def balance_at_def pop_parse_def in_object_def chars)
qed

lemma end_value_follows:
  assumes "in_object s" "\<not> inside_string (sc_step s)" "state_end_value s c = Some s'"
  shows "follows s c s'"
proof -
  obtain p rest where p: "sc_parse s = p # rest" using assms(1) by (cases "sc_parse s") (auto simp: in_object_def)
  have comma: "plain (CHR '','')" "plain (CHR '':'')" "plain (CHR '']'')" by (simp_all add: plain_def chars)
  have last: "rest \<noteq> [] \<Longrightarrow> last rest \<noteq> ParseArrayValue" "rest = [] \<Longrightarrow> p \<noteq> ParseArrayValue"
    using assms(1) by (simp_all add: in_object_def p)
  show ?thesis
  proof (cases "isSpace c")
    case True
    with assms p have "s' = s\<lparr>sc_step := EndValue\<rparr>" by (simp add: state_end_value_def)
    with assms p last True show ?thesis by (intro follows_plain) (auto simp: in_object_def plain_chars)
  next
    case False
    show ?thesis
    proof (cases p)
      case ParseObjectKey
      with False assms p have "c = CHR '':''" "s' = s\<lparr>sc_parse := ParseObjectValue # rest, sc_step := BeginValue\<rparr>"
        by (auto simp: state_end_value_def split: if_splits)
      with assms p last ParseObjectKey comma show ?thesis by (intro follows_plain) (auto simp: in_object_def)
    next
      case ParseObjectValue
      show ?thesis
      proof (cases "c = CHR '',''")
        case True
        with False assms p ParseObjectValue have "s' = s\<lparr>sc_parse := ParseObjectKey # rest, sc_step := BeginString\<rparr>"
          by (auto simp: state_end_value_def)
        with True assms p last ParseObjectValue comma show ?thesis by (intro follows_plain) (auto simp: in_object_def)
      next
        case no: False
        with False assms p ParseObjectValue have "c = rbrace" "s' = pop_parse s"
          by (auto simp: state_end_value_def chars split: if_splits)
        with pop_object [OF assms(1) p _ assms(2), where q = p and t = s] ParseObjectValue p show ?thesis by simp
      qed
    next
      case ParseArrayValue
      with last have rest: "rest \<noteq> []" "last rest \<noteq> ParseArrayValue" by auto
      from ParseArrayValue False assms p have "c = CHR '','' \<and> s' = s\<lparr>sc_step := BeginValue\<rparr> \<or> c = CHR '']'' \<and> s' = pop_parse s"
        by (auto simp: state_end_value_def split: if_splits)
      with assms p ParseArrayValue rest comma show ?thesis
        by (intro follows_plain) (auto simp: in_object_def pop_parse_def)
    qed
  qed
qed

lemma open_string_follows:
  assumes "in_object s" "\<not> inside_string (sc_step s)"
  shows "follows s quote (s\<lparr>sc_step := InString\<rparr>)"
  using assms by (auto simp: follows_def balance_at_def in_object_def chars)

lemma begin_value_follows:
  assumes "in_object s" "\<not> inside_string (sc_step s)" "state_begin_value s c = Some s'"
  shows "follows s c s'"
proof -
  have at: "sc_step s \<noteq> InStringEsc" using assms(2) by auto
  consider "isSpace c" "s' = s"
    | "c = lbrace" "s' = s\<lparr>sc_step := BeginStringOrEmpty, sc_parse := ParseObjectKey # sc_parse s\<rparr>"
    | "c = CHR ''[''" "s' = s\<lparr>sc_step := BeginValueOrEmpty, sc_parse := ParseArrayValue # sc_parse s\<rparr>"
    | "c = quote" "s' = s\<lparr>sc_step := InString\<rparr>"
    | st where "plain c" "s' = s\<lparr>sc_step := st\<rparr>" "st \<in> {Neg, S0, S1, Literal ''rue'', Literal ''alse'', Literal ''ull''}"
  proof -
    have "plain (CHR ''-'')" "plain (CHR ''0'')" "plain (CHR ''t'')" "plain (CHR ''f'')" "plain (CHR ''n'')"
      by (simp_all add: plain_def chars)
    with that assms(3) plain_chars(2) [of c] show thesis
      by (auto simp: state_begin_value_def push_parse_def lbrace_def split: if_splits)
  qed
  then show ?thesis
  proof cases
    case 1
    with assms show ?thesis by (intro follows_plain) (auto simp: plain_chars)
  next
    case 2
    with assms at show ?thesis by (auto simp: follows_def balance_at_def in_object_def chars add.commute)
  next
    case 3
    with assms show ?thesis by (intro follows_plain) (auto simp: in_object_def plain_def chars)
  next
    case 4
    with open_string_follows [OF assms(1,2)] show ?thesis by simp
  next
    case 5
    with assms show ?thesis by (intro follows_plain) (auto simp: in_object_def plain_def chars)
  qed
qed

lemma begin_string_follows:
  assumes "in_object s" "\<not> inside_string (sc_step s)" "state_begin_string s c = Some s'"
  shows "follows s c s'"
proof (cases "isSpace c")
  case True
  with assms show ?thesis by (intro follows_plain) (auto simp: state_begin_string_def plain_chars)
next
  case False
  with assms open_string_follows [OF assms(1,2)] show ?thesis by (auto simp: state_begin_string_def split: if_splits)
qed

lemma string_follows:
  assumes "in_object s" "inside_string (sc_step s)" "scan_step s c = Some s'"
  shows "follows s c s'"
proof (cases "sc_step s")
  case InString
  with assms show ?thesis
    by (auto simp: scan_step_InString follows_def balance_at_def in_object_def chars split: if_splits)
next
  case InStringEsc
  with assms show ?thesis
    by (auto simp: scan_step_InStringEsc follows_def balance_at_def in_object_def split: if_splits)
next
  case (InStringEscU n)
  have "isHex c \<Longrightarrow> plain c" by (rule plain_chars)
  with InStringEscU assms show ?thesis
    by (auto simp: scan_step_InStringEscU follows_def balance_at_def in_object_def plain_balance simp del: balance_scan.simps split: if_splits)
qed (use assms in auto)

definition number_state :: "scan_state \<Rightarrow> bool" where
  "number_state st \<longleftrightarrow> st \<in> {Neg, S1, S0, Dot, Dot0, SE, ESign, E0}"

lemma number_plain:
  "plain (CHR ''0'')" "plain (CHR ''.'')" "plain (CHR ''e'')" "plain (CHR ''E'')" "plain (CHR ''+'')" "plain (CHR ''-'')"
  by (simp_all add: plain_def chars)

lemma number_step:
  assumes "scan_step s c = Some s'" "number_state (sc_step s)"
  shows "state_end_value s c = Some s' \<or> (plain c \<and> (s' = s \<or> (\<exists>st. number_state st \<and> s' = s\<lparr>sc_step := st\<rparr>)))"
proof -
  note d = scan_step.simps state_0_def state_esign_def number_state_def
  have "state_end_value s c = Some s' \<or> (c \<in> set ''0.eE+-'' \<or> isDigit c) \<and> (s' = s \<or> (\<exists>st. number_state st \<and> s' = s\<lparr>sc_step := st\<rparr>))"
  proof (cases "sc_step s")
    case Neg then show ?thesis using assms(1) by (auto simp: d split: if_splits)
  next
    case S1 then show ?thesis using assms(1) by (auto simp: d split: if_splits)
  next
    case S0 then show ?thesis using assms(1) by (auto simp: d split: if_splits)
  next
    case Dot then show ?thesis using assms(1) by (auto simp: d split: if_splits)
  next
    case Dot0 then show ?thesis using assms(1) by (auto simp: d split: if_splits)
  next
    case SE then show ?thesis using assms(1) by (auto simp: d split: if_splits)
  next
    case ESign then show ?thesis using assms(1) by (auto simp: d split: if_splits)
  next
    case E0 then show ?thesis using assms(1) by (auto simp: d split: if_splits)
  qed (use assms(2) in \<open>simp_all add: number_state_def\<close>)
  moreover have "plain c" if "c \<in> set ''0.eE+-'' \<or> isDigit c" using that number_plain plain_chars(2) by auto
  ultimately show ?thesis by blast
qed

lemma number_state_out: "number_state st \<Longrightarrow> \<not> inside_string st \<and> literal_rest st = [] \<and> st \<noteq> EndTop \<and> st \<noteq> BeginStringOrEmpty"
  by (auto simp: number_state_def)

lemma number_follows:
  assumes "in_object s" "scan_step s c = Some s'" "number_state (sc_step s)"
  shows "follows s c s'"
proof -
  have out: "\<not> inside_string (sc_step s)" using number_state_out [OF assms(3)] by simp
  show ?thesis
  proof (cases "state_end_value s c = Some s'")
    case True
    with end_value_follows [OF assms(1) out] show ?thesis by simp
  next
    case False
    with number_step [OF assms(2,3)] have c: "plain c" "s' = s \<or> (\<exists>st. number_state st \<and> s' = s\<lparr>sc_step := st\<rparr>)" by simp_all
    then have "in_object s' \<and> \<not> inside_string (sc_step s') \<and> sc_parse s' = sc_parse s"
      using assms(1) out number_state_out by (auto simp: in_object_def)
    with follows_plain [OF assms(1) c(1) out] show ?thesis by simp
  qed
qed

lemma empty_object_follows:
  assumes "in_object s" "sc_step s = BeginStringOrEmpty" "scan_step s c = Some s'"
  shows "follows s c s'"
proof (cases "c = rbrace")
  case True
  obtain rest where p: "sc_parse s = ParseObjectKey # rest"
    using assms(1,2) by (cases "sc_parse s") (auto simp: in_object_def)
  have "s' = pop_parse (s\<lparr>sc_parse := ParseObjectValue # rest\<rparr>)"
    using True assms p by (simp add: scan_step.simps state_end_value_def isSpace_def chars)
  with True pop_object [OF assms(1) p _ _ refl, of ParseObjectValue] assms(2) show ?thesis by simp
next
  case False
  with assms have "state_begin_string s c = Some s'"
    by (auto simp: scan_step.simps chars state_begin_string_def split: if_splits)
  with begin_string_follows [OF assms(1)] assms(2) show ?thesis by simp
qed

lemma step_follows:
  assumes "in_object s" "scan_step s c = Some s'"
  shows "follows s c s'"
proof (cases "sc_step s")
  case BeginValueOrEmpty
  then have out: "\<not> inside_string (sc_step s)" by simp
  have "isSpace c \<Longrightarrow> state_begin_value s c = Some s" by (simp add: state_begin_value_def)
  with assms BeginValueOrEmpty have "state_end_value s c = Some s' \<or> state_begin_value s c = Some s'"
    by (simp add: scan_step.simps split: if_splits)
  with end_value_follows [OF assms(1) out] begin_value_follows [OF assms(1) out] show ?thesis by blast
next
  case BeginValue
  with begin_value_follows [OF assms(1)] assms(2) show ?thesis by (simp add: scan_step.simps)
next
  case BeginStringOrEmpty
  with empty_object_follows assms show ?thesis by blast
next
  case BeginString
  with begin_string_follows [OF assms(1)] assms(2) show ?thesis by (simp add: scan_step.simps)
next
  case EndValue
  with end_value_follows [OF assms(1)] assms(2) show ?thesis by (simp add: scan_step.simps)
next
  case (Literal l)
  then obtain x xs where l: "l = x # xs" "c = x" "s' = s\<lparr>sc_step := (if xs = [] then EndValue else Literal xs)\<rparr>"
    using assms(2) by (auto simp: scan_step.simps split: list.splits if_splits)
  with Literal assms(1) show ?thesis by (intro follows_plain) (auto simp: in_object_def)
next
  case EndTop
  with assms show ?thesis by (simp add: in_object_def)
next
  case InString
  with string_follows assms show ?thesis by simp
next
  case InStringEsc
  with string_follows assms show ?thesis by simp
next
  case (InStringEscU n)
  with string_follows assms show ?thesis by simp
qed (use number_follows [OF assms] in \<open>simp_all add: number_state_def\<close>)

lemma in_object_not_eof: "in_object s \<Longrightarrow> \<not> scan_eof s"
proof
  assume s: "in_object s" "scan_eof s"
  then obtain s' where "scan_step s (CHR '' '') = Some s'" "sc_endTop s'"
    by (auto simp: scan_eof_def in_object_def split: option.splits)
  with step_follows [OF s(1)] show False by (auto simp: follows_def in_object_def chars)
qed

lemma run_balances:
  assumes "in_object s" "scan_run s cs = Some t" "scan_eof t" "cs \<noteq> []" "last cs = rbrace"
  shows "balance_at s k cs = Some (k + length cs)"
  using assms
proof (induction cs arbitrary: s k)
  case (Cons c cs)
  then obtain s' where s': "scan_step s c = Some s'" "scan_run s' cs = Some t" by (auto split: option.splits)
  from step_follows [OF Cons.prems(1) s'(1)] show ?case unfolding follows_def
  proof (elim disjE conjE)
    assume o: "in_object s'" "\<forall>k cs. balance_at s k (c # cs) = balance_at s' (Suc k) cs"
    have "cs \<noteq> []" using in_object_not_eof [OF o(1)] s'(2) Cons.prems(3) by auto
    with Cons.IH [OF o(1) s'(2) Cons.prems(3), of "Suc k"] Cons.prems(5) o(2) show ?thesis by simp
  next
    assume e: "after_value s'" "\<forall>k cs. balance_at s k (c # cs) = Some (Suc k)"
    have "list_all isSpace cs" using after_value_run [OF e(1) s'(2)] .
    moreover have "\<not> isSpace rbrace" by (simp add: isSpace_def chars)
    ultimately have "cs = []" using Cons.prems(5) by (metis last.simps last_in_set list.pred_set)
    with e(2) show ?thesis by simp
  qed
qed simp

text \<open>An object text: one that \<^verbatim>\<open>json.Valid\<close> accepts, from its opening to its closing brace.\<close>

definition json_object :: "string \<Rightarrow> bool" where
  "json_object obj \<longleftrightarrow> json_Valid obj \<and> obj \<noteq> [] \<and> hd obj = lbrace \<and> last obj = rbrace"

lemma json_object_cases:
  assumes "json_object obj"
  obtains mid where "obj = lbrace # mid @ [rbrace]"
proof -
  obtain cs where cs: "obj = lbrace # cs" using assms by (cases obj) (auto simp: json_object_def)
  moreover have "cs \<noteq> []" using assms cs by (auto simp: json_object_def chars)
  ultimately have "obj = lbrace # butlast cs @ [rbrace]"
    using assms append_butlast_last_id [of cs] by (simp add: json_object_def)
  with that show thesis .
qed

lemma scan_upto: "balance_scan d b e k cs = Some n \<Longrightarrow> balance_scan d b e k (cs @ post) = Some n"
  by (induction d b e k cs rule: balance_scan.induct) (auto split: if_splits)

lemma scan_object:
  assumes "json_object obj"
  shows "balance_scan 0 False False 0 (obj @ post) = Some (length obj)"
proof -
  obtain mid where m: "obj = lbrace # mid @ [rbrace]" by (rule json_object_cases [OF assms])
  let ?s = "scan_init\<lparr>sc_step := BeginStringOrEmpty, sc_parse := [ParseObjectKey]\<rparr>"
  have one: "scan_step scan_init lbrace = Some ?s"
    by (simp add: scan_init_def scan_step.simps state_begin_value_def push_parse_def maxNestingDepth_def isSpace_def chars)
  obtain t where t: "scan_run ?s (mid @ [rbrace]) = Some t" "scan_eof t"
    using assms one by (auto simp: json_object_def json_Valid_def m split: option.splits)
  have "in_object ?s" by (simp add: in_object_def scan_init_def)
  from run_balances [OF this t, of 1] have "balance_scan 1 False False 1 (mid @ [rbrace]) = Some (length obj)"
    by (simp add: balance_at_def m)
  from scan_upto [OF this, of post] show ?thesis by (simp add: m chars)
qed

lemma extract_object:
  assumes "json_object obj" "lbrace \<notin> set pre"
  shows "extractBalancedObject (pre @ obj @ post) = obj"
proof -
  obtain mid where m: "obj = lbrace # mid @ [rbrace]" by (rule json_object_cases [OF assms(1)])
  have "IndexByte (pre @ obj @ post) lbrace = Some (length pre)"
    using IndexByte_append [OF assms(2)] by (simp add: m)
  with scan_object [OF assms(1), of post] show ?thesis by (simp add: extractBalancedObject_def)
qed

lemma brace_not_ws: "\<forall>w \<in> set wsRunes. lbrace \<notin> set w" "\<forall>w \<in> set wsRunes. rbrace \<notin> set w"
  by (simp_all add: wsRunes_def chars)

lemma TrimSpace_object:
  assumes "json_object obj"
  shows "\<exists>a' e'. TrimSpace (a @ obj @ e) = a' @ obj @ e' \<and> suffix a' a \<and> prefix e' e"
proof -
  obtain mid where "obj = lbrace # mid @ [rbrace]" by (rule json_object_cases [OF assms])
  with TrimSpace_between [OF brace_not_ws, of a mid e] show ?thesis by simp
qed

text \<open>C9. When the reply of a planner is one JSON object (any text that \<^verbatim>\<open>json.Valid\<close> accepts, from its
  opening to its closing brace) with any commentary after it and commentary without an opening brace before
  it, and the trimmed reply does not open with a code fence, \<^verbatim>\<open>ExtractJSONObject\<close> returns exactly
  that object.\<close>

theorem extract_json_from_prose:
  assumes "json_object obj" and "lbrace \<notin> set pre"
    and "\<not> HasPrefix (TrimSpace (pre @ obj @ post)) fence"
  shows "ExtractJSONObject uni (pre @ obj @ post) = obj"
proof -
  from TrimSpace_object [OF assms(1), of pre post] obtain a e where
    t: "TrimSpace (pre @ obj @ post) = a @ obj @ e" "suffix a pre" by blast
  from TrimSpace_object [OF assms(1), of a e] obtain a' e' where
    t': "TrimSpace (a @ obj @ e) = a' @ obj @ e'" "suffix a' a" by blast
  from t(2) t'(2) assms(2) have "lbrace \<notin> set a'" by (metis set_mono_suffix subsetD)
  from extract_object [OF assms(1) this] assms(3) t(1) t'(1) show ?thesis
    by (simp add: ExtractJSONObject_def stripCodeFences_def Let_def)
qed

section \<open>Graphs from plans\<close>

text \<open>What \<^verbatim>\<open>buildPlanNodes\<close> checks of a plan.\<close>

definition plan_ok :: "(string \<Rightarrow> bool) \<Rightarrow> (coarse_plan_node \<Rightarrow> string option) \<Rightarrow> coarse_plan \<Rightarrow> bool" where
  "plan_ok registered new_agent plan \<longleftrightarrow>
     cp_Nodes plan \<noteq> [] \<and> distinct (map cn_ID (cp_Nodes plan))
     \<and> (\<forall>step \<in> set (cp_Nodes plan). cn_ID step \<noteq> [] \<and> cn_SkillName step \<noteq> []
          \<and> registered (cn_SkillName step) \<and> new_agent step = None
          \<and> set (cn_DependsOn step) \<subseteq> set (map cn_ID (cp_Nodes plan)))"

definition base_node :: "string \<Rightarrow> coarse_plan_node \<Rightarrow> node" where
  "base_node input step = \<lparr>nd_Id = cn_ID step, nd_SkillName = cn_SkillName step,
     nd_TaskDescription = (if cn_TaskDescription step = [] then input else cn_TaskDescription step),
     nd_Parents = []\<rparr>"

lemma map_set_fresh: "\<not> map_has m k \<Longrightarrow> map_set m k v = m @ [(k, v)]"
  by (induction m k v rule: map_set.induct) (auto simp: map_has_def)

definition steps_ok :: "(string \<Rightarrow> bool) \<Rightarrow> (coarse_plan_node \<Rightarrow> string option) \<Rightarrow> coarse_plan_node list \<Rightarrow> bool" where
  "steps_ok registered new_agent steps \<longleftrightarrow>
     (\<forall>step \<in> set steps. cn_ID step \<noteq> [] \<and> cn_SkillName step \<noteq> [] \<and> registered (cn_SkillName step)
        \<and> new_agent step = None)"

lemma make_nodes_spec:
  "distinct (map fst nodes) \<Longrightarrow>
   (case make_nodes registered new_agent input steps nodes of
      Inl e \<Rightarrow> \<not> (distinct (map fst nodes @ map cn_ID steps) \<and> steps_ok registered new_agent steps)
    | Inr m \<Rightarrow> distinct (map fst nodes @ map cn_ID steps) \<and> steps_ok registered new_agent steps
        \<and> m = nodes @ map (\<lambda>s. (cn_ID s, base_node input s)) steps)"
proof (induction steps arbitrary: nodes)
  case (Cons step steps)
  let ?n = "(cn_ID step, base_node input step)"
  show ?case
  proof (cases "cn_ID step = [] \<or> map_has nodes (cn_ID step) \<or> cn_SkillName step = []
      \<or> \<not> registered (cn_SkillName step) \<or> new_agent step \<noteq> None")
    case True
    then show ?thesis by (auto simp: map_has_def steps_ok_def split: option.splits)
  next
    case False
    then have eq: "make_nodes registered new_agent input (step # steps) nodes
        = make_nodes registered new_agent input steps (nodes @ [?n])"
      by (simp add: map_set_fresh base_node_def)
    from False Cons.prems have "distinct (map fst (nodes @ [?n]))" by (simp add: map_has_def)
    from Cons.IH [OF this] False show ?thesis unfolding eq
      by (auto simp: map_has_def steps_ok_def split: sum.splits)
  qed
qed (simp add: steps_ok_def)

lemma keys_set_old: "map_has m k \<Longrightarrow> map fst (map_set m k v) = map fst m"
  by (induction m k v rule: map_set.induct) (auto simp: map_has_def)

lemma has_keys: "map fst m = map fst m' \<Longrightarrow> map_has m k = map_has m' k"
  by (simp add: map_has_def)

definition with_parents :: "string list \<Rightarrow> node \<Rightarrow> node" where
  "with_parents ps n = n\<lparr>nd_Parents := nd_Parents n @ ps\<rparr>"

lemma link_parents_spec:
  "map_has nodes i \<Longrightarrow>
   (case link_parents i ps nodes of
      Inl e \<Rightarrow> \<not> (\<forall>p \<in> set ps. map_has nodes p)
    | Inr nodes' \<Rightarrow> (\<forall>p \<in> set ps. map_has nodes p) \<and> map fst nodes' = map fst nodes
        \<and> (\<forall>j. map_get nodes' j = (if j = i then map_option (with_parents ps) (map_get nodes j) else map_get nodes j)))"
proof (induction ps arbitrary: nodes)
  case Nil
  have "with_parents [] = id" by (rule ext) (simp add: with_parents_def)
  then show ?case by (simp add: option.map_id)
next
  case (Cons p ps)
  show ?case
  proof (cases "map_has nodes p")
    case True
    from Cons.prems obtain n where n: "map_get nodes i = Some n" by (auto simp: map_has_iff)
    let ?m = "map_set nodes i (n\<lparr>nd_Parents := nd_Parents n @ [p]\<rparr>)"
    have keys: "map fst ?m = map fst nodes" using keys_set_old [OF Cons.prems] .
    have "link_parents i (p # ps) nodes = link_parents i ps ?m" using True n by simp
    moreover have "map_option (with_parents ps) (map_get ?m i) = map_option (with_parents (p # ps)) (map_get nodes i)"
      by (simp add: n with_parents_def)
    ultimately show ?thesis
      using Cons.IH [of ?m] Cons.prems True has_keys [OF keys]
      by (auto simp: keys map_has_iff split: sum.splits)
  qed simp
qed

lemma link_nodes_spec:
  "distinct (map cn_ID steps) \<Longrightarrow> \<forall>s \<in> set steps. map_has nodes (cn_ID s) \<Longrightarrow>
   (case link_nodes steps nodes of
      Inl e \<Rightarrow> \<not> (\<forall>s \<in> set steps. \<forall>p \<in> set (cn_DependsOn s). map_has nodes p)
    | Inr nodes' \<Rightarrow> (\<forall>s \<in> set steps. \<forall>p \<in> set (cn_DependsOn s). map_has nodes p)
        \<and> map fst nodes' = map fst nodes
        \<and> (\<forall>s \<in> set steps. map_get nodes' (cn_ID s) = map_option (with_parents (cn_DependsOn s)) (map_get nodes (cn_ID s)))
        \<and> (\<forall>j. j \<notin> cn_ID ` set steps \<longrightarrow> map_get nodes' j = map_get nodes j))"
proof (induction steps arbitrary: nodes)
  case (Cons s steps)
  have hs: "map_has nodes (cn_ID s)" using Cons.prems(2) by simp
  note lp = link_parents_spec [OF hs, of "cn_DependsOn s"]
  show ?case
  proof (cases "link_parents (cn_ID s) (cn_DependsOn s) nodes")
    case (Inl e)
    with lp show ?thesis by auto
  next
    case (Inr m)
    with lp have known: "\<forall>p \<in> set (cn_DependsOn s). map_has nodes p" and keys: "map fst m = map fst nodes"
      and get: "map_get m j = (if j = cn_ID s then map_option (with_parents (cn_DependsOn s)) (map_get nodes j) else map_get nodes j)" for j
      by auto
    note hk = has_keys [OF keys]
    from Cons.prems(1) have d: "distinct (map cn_ID steps)" and "cn_ID s \<notin> cn_ID ` set steps" by simp_all
    then have ne: "\<forall>t \<in> set steps. cn_ID t \<noteq> cn_ID s" by (metis image_eqI)
    have hm: "\<forall>t \<in> set steps. map_has m (cn_ID t)" using Cons.prems(2) hk by simp
    note ih = Cons.IH [OF d hm]
    show ?thesis
    proof (cases "link_nodes steps m")
      case inl: (Inl e)
      with ih have "\<not> (\<forall>t \<in> set steps. \<forall>p \<in> set (cn_DependsOn t). map_has m p)" by simp
      then have "\<not> (\<forall>t \<in> set steps. \<forall>p \<in> set (cn_DependsOn t). map_has nodes p)" by (simp add: hk)
      with Inr inl show ?thesis by simp
    next
      case inr: (Inr m')
      with ih have
        "\<forall>t \<in> set steps. \<forall>p \<in> set (cn_DependsOn t). map_has m p" "map fst m' = map fst m"
        "\<forall>t \<in> set steps. map_get m' (cn_ID t) = map_option (with_parents (cn_DependsOn t)) (map_get m (cn_ID t))"
        "\<forall>j. j \<notin> cn_ID ` set steps \<longrightarrow> map_get m' j = map_get m j" by simp_all
      with Inr inr known keys get hk ne show ?thesis by (simp add: image_iff) (metis)
    qed
  qed
qed simp

text \<open>\<^verbatim>\<open>buildPlanNodes\<close> accepts a plan exactly when it has nodes, their ids are
  non-empty and distinct, their skills are registered, their agents can be built and every
  dependency names a node; the graph then has one node per step, in order, with the step's
  skill, its dependencies as parents and the request as task where the step gives none.\<close>

theorem plan_graph_matches_plan:
  "case buildPlanNodes registered new_agent input plan of
     Inl e \<Rightarrow> \<not> plan_ok registered new_agent plan
   | Inr nodes \<Rightarrow> plan_ok registered new_agent plan
       \<and> map fst nodes = map cn_ID (cp_Nodes plan)
       \<and> (\<forall>step \<in> set (cp_Nodes plan). map_get nodes (cn_ID step) =
            Some (with_parents (cn_DependsOn step) (base_node input step)))"
proof (cases "cp_Nodes plan = []")
  case True
  then show ?thesis by (simp add: buildPlanNodes_def plan_ok_def)
next
  case False
  let ?steps = "cp_Nodes plan"
  let ?base = "map (\<lambda>s. (cn_ID s, base_node input s)) ?steps"
  let ?good = "distinct (map cn_ID ?steps) \<and> steps_ok registered new_agent ?steps"
  have mk: "case make_nodes registered new_agent input ?steps [] of Inl e \<Rightarrow> \<not> ?good | Inr m \<Rightarrow> ?good \<and> m = ?base"
    using make_nodes_spec [where nodes = "[]" and registered = registered and new_agent = new_agent
        and input = input and steps = ?steps] by (simp split: sum.splits)
  show ?thesis
  proof (cases "make_nodes registered new_agent input ?steps []")
    case (Inl e)
    with mk False show ?thesis by (auto simp: buildPlanNodes_def plan_ok_def steps_ok_def)
  next
    case (Inr base)
    with mk have good: ?good and m: "make_nodes registered new_agent input ?steps [] = Inr ?base" by simp_all
    have keys: "map fst ?base = map cn_ID ?steps" by (simp add: comp_def)
    have d: "distinct (map cn_ID ?steps)" using good by simp
    have has: "map_has ?base p \<longleftrightarrow> p \<in> set (map cn_ID ?steps)" for p
      unfolding map_has_def keys ..
    then have all: "\<forall>s \<in> set ?steps. map_has ?base (cn_ID s)" by simp
    have "map_ok ?base" unfolding map_ok_def keys by (rule d)
    then have get: "map_get ?base (cn_ID s) = Some (base_node input s)" if "s \<in> set ?steps" for s
      using that by (auto simp: map_get_mem_iff)
    note lk = link_nodes_spec [OF d all]
    show ?thesis
    proof (cases "link_nodes ?steps ?base")
      case (Inl e)
      with lk have "\<not> (\<forall>s \<in> set ?steps. \<forall>p \<in> set (cn_DependsOn s). map_has ?base p)" by simp
      with Inl False m has show ?thesis by (auto simp: buildPlanNodes_def plan_ok_def steps_ok_def)
    next
      case (Inr nodes)
      with lk have "\<forall>s \<in> set ?steps. \<forall>p \<in> set (cn_DependsOn s). map_has ?base p" "map fst nodes = map fst ?base"
        "\<forall>s \<in> set ?steps. map_get nodes (cn_ID s) = map_option (with_parents (cn_DependsOn s)) (map_get ?base (cn_ID s))"
        by simp_all
      with Inr False m good has get keys show ?thesis by (auto simp: buildPlanNodes_def plan_ok_def steps_ok_def)
    qed
  qed
qed

section \<open>Concrete replies and plans\<close>

definition ex_object :: string where
  "ex_object = [lbrace, CHR '' ''] @ [dquote, CHR ''k'', dquote] @ '' : [1,'' @ [dquote, rbrace, bslash, dquote, dquote] @ ''] '' @ [rbrace]"

theorem extract_json_from_prose_witness:
  "ExtractJSONObject (\<lambda>_. False) (''Sure: '' @ ex_object @ '' Done }'') = ex_object"
  by (rule extract_json_from_prose) code_simp+

definition ex_plan :: coarse_plan where
  "ex_plan = \<lparr>cp_Request = ''r'', cp_RunnerID = [],
     cp_Nodes = [\<lparr>cn_ID = ''b'', cn_SkillName = ''s'', cn_TaskDescription = [], cn_DependsOn = [''a'']\<rparr>,
                 \<lparr>cn_ID = ''a'', cn_SkillName = ''s'', cn_TaskDescription = ''t'', cn_DependsOn = []\<rparr>]\<rparr>"

theorem plan_graph_matches_plan_witness:
  "\<exists>nodes. buildPlanNodes (\<lambda>s. s = ''s'') (\<lambda>_. None) ''req'' ex_plan = Inr nodes
     \<and> map fst nodes = [''b'', ''a'']
     \<and> map_option nd_Parents (map_get nodes ''b'') = Some [''a'']"
proof -
  have ok: "plan_ok (\<lambda>s. s = ''s'') (\<lambda>_. None) ex_plan" by (simp add: plan_ok_def ex_plan_def)
  note p = plan_graph_matches_plan [where registered = "\<lambda>s. s = ''s''" and new_agent = "\<lambda>_. None"
      and input = "''req''" and plan = ex_plan]
  with ok obtain nodes where n: "buildPlanNodes (\<lambda>s. s = ''s'') (\<lambda>_. None) ''req'' ex_plan = Inr nodes"
    by (auto split: sum.splits)
  with p show ?thesis by (auto simp: ex_plan_def with_parents_def base_node_def)
qed

end
