(* ===== verification/Go_Heap.thy ===== *)
theory Go_Heap
  imports Dango_Prelude
begin

text \<open>
  Go's \<^verbatim>\<open>container/heap\<close> over a slice, with the \<^verbatim>\<open>Less\<close> of the client as an
  argument: \<^verbatim>\<open>up\<close>, \<^verbatim>\<open>down\<close>, \<^verbatim>\<open>heap.Push\<close> and \<^verbatim>\<open>heap.Pop\<close>.  The
  priority-queue contract is a locale; the array heap satisfies it for every strict weak order.
\<close>

section \<open>Operations\<close>

definition parent :: "nat \<Rightarrow> nat" where "parent i = (i - 1) div 2"

definition swap :: "'a list \<Rightarrow> nat \<Rightarrow> nat \<Rightarrow> 'a list" where
  "swap h i j = h[i := h ! j, j := h ! i]"

lemma parent_less: "0 < i \<Longrightarrow> parent i < i"
  by (simp add: parent_def)

function heap_up :: "('a \<Rightarrow> 'a \<Rightarrow> bool) \<Rightarrow> 'a list \<Rightarrow> nat \<Rightarrow> 'a list" where
  "heap_up lss h j =
     (if j = 0 \<or> \<not> lss (h ! j) (h ! parent j) then h
      else heap_up lss (swap h (parent j) j) (parent j))"
  by pat_completeness auto
termination
  by (relation "measure (\<lambda>(_, _, j). j)") (auto intro: parent_less)

declare heap_up.simps [simp del]

definition down_child :: "('a \<Rightarrow> 'a \<Rightarrow> bool) \<Rightarrow> 'a list \<Rightarrow> nat \<Rightarrow> nat \<Rightarrow> nat" where
  "down_child lss h i n =
     (if 2 * i + 2 < n \<and> lss (h ! (2 * i + 2)) (h ! (2 * i + 1)) then 2 * i + 2 else 2 * i + 1)"

function heap_down :: "('a \<Rightarrow> 'a \<Rightarrow> bool) \<Rightarrow> 'a list \<Rightarrow> nat \<Rightarrow> nat \<Rightarrow> 'a list" where
  "heap_down lss h i n =
     (if 2 * i + 1 \<ge> n then h
      else let j = down_child lss h i n in
        if \<not> lss (h ! j) (h ! i) then h else heap_down lss (swap h i j) j n)"
  by pat_completeness auto
termination
  by (relation "measure (\<lambda>(_, _, i, n). n - i)") (auto simp: down_child_def)

declare heap_down.simps [simp del]

definition heap_Push :: "('a \<Rightarrow> 'a \<Rightarrow> bool) \<Rightarrow> 'a list \<Rightarrow> 'a \<Rightarrow> 'a list" where
  "heap_Push lss h x = heap_up lss (h @ [x]) (length h)"

text \<open>\<^verbatim>\<open>heap.Pop\<close> on a non-empty heap.\<close>

definition heap_Pop :: "('a \<Rightarrow> 'a \<Rightarrow> bool) \<Rightarrow> 'a list \<Rightarrow> ('a \<times> 'a list) option" where
  "heap_Pop lss h =
     (if h = [] then None
      else let n = length h - 1; h' = heap_down lss (swap h 0 n) 0 n
           in Some (last h', butlast h'))"

section \<open>The priority-queue contract\<close>

locale priority_queue =
  fixes lss :: "'a \<Rightarrow> 'a \<Rightarrow> bool"
    and push :: "'q \<Rightarrow> 'a \<Rightarrow> 'q" and pop :: "'q \<Rightarrow> ('a \<times> 'q) option"
    and contents :: "'q \<Rightarrow> 'a multiset" and invar :: "'q \<Rightarrow> bool"
  assumes push_ok: "invar q \<Longrightarrow> invar (push q x) \<and> contents (push q x) = add_mset x (contents q)"
    and pop_ok: "invar q \<Longrightarrow> pop q = Some (x, q') \<Longrightarrow>
       invar q' \<and> contents q = add_mset x (contents q') \<and> (\<forall>y \<in># contents q'. \<not> lss y x)"
    and pop_None: "invar q \<Longrightarrow> pop q = None \<Longrightarrow> contents q = {#}"
begin

lemma pop_size: "invar q \<Longrightarrow> pop q = Some (x, q') \<Longrightarrow> size (contents q') < size (contents q)"
  by (simp add: pop_ok)

lemma pop_Some_iff: "invar q \<Longrightarrow> (\<exists>x q'. pop q = Some (x, q')) \<longleftrightarrow> contents q \<noteq> {#}"
proof (cases "pop q")
  case (Some p)
  then show "invar q \<Longrightarrow> ?thesis" using pop_ok [of q "fst p" "snd p"] by (cases p) auto
qed (simp add: pop_None)

end

section \<open>Strict weak orders\<close>

definition weak_order :: "('a \<Rightarrow> 'a \<Rightarrow> bool) \<Rightarrow> bool" where
  "weak_order lss \<longleftrightarrow> (\<forall>a b. lss a b \<longrightarrow> \<not> lss b a)
     \<and> (\<forall>a b c. \<not> lss b a \<longrightarrow> \<not> lss c b \<longrightarrow> \<not> lss c a)"

lemma weak_order_asym: "weak_order lss \<Longrightarrow> lss a b \<Longrightarrow> \<not> lss b a"
  unfolding weak_order_def by blast

lemma weak_order_trans: "weak_order lss \<Longrightarrow> \<not> lss b a \<Longrightarrow> \<not> lss c b \<Longrightarrow> \<not> lss c a"
  unfolding weak_order_def by blast

section \<open>Heap order\<close>

definition heap_inv :: "('a \<Rightarrow> 'a \<Rightarrow> bool) \<Rightarrow> 'a list \<Rightarrow> nat \<Rightarrow> bool" where
  "heap_inv lss h n \<longleftrightarrow> (\<forall>i. 0 < i \<and> i < n \<longrightarrow> \<not> lss (h ! i) (h ! parent i))"

lemma parent_children: "0 < k \<Longrightarrow> parent k = i \<longleftrightarrow> k = 2 * i + 1 \<or> k = 2 * i + 2"
  unfolding parent_def by presburger

lemma length_swap [simp]: "length (swap h i j) = length h"
  by (simp add: swap_def)

lemma swap_nth:
  "i < length h \<Longrightarrow> j < length h \<Longrightarrow> k < length h \<Longrightarrow>
   swap h i j ! k = (if k = j then h ! i else if k = i then h ! j else h ! k)"
  by (simp add: swap_def nth_list_update)

lemma mset_swap_eq: "i < length h \<Longrightarrow> j < length h \<Longrightarrow> mset (swap h i j) = mset h"
  unfolding swap_def by (rule mset_swap)

lemma heap_up_mset: "j < length h \<Longrightarrow> mset (heap_up lss h j) = mset h \<and> length (heap_up lss h j) = length h"
proof (induction lss h j rule: heap_up.induct)
  case (1 lss h j)
  show ?case
  proof (cases "j = 0 \<or> \<not> lss (h ! j) (h ! parent j)")
    case False
    with 1 parent_less [of j] show ?thesis
      by (simp add: heap_up.simps [of lss h j] mset_swap_eq)
  qed (simp add: heap_up.simps [of lss h j])
qed

text \<open>Everything but the edge above \<open>j\<close> is in order, and \<open>j\<close>'s children are above its parent.\<close>

definition up_inv :: "('a \<Rightarrow> 'a \<Rightarrow> bool) \<Rightarrow> 'a list \<Rightarrow> nat \<Rightarrow> bool" where
  "up_inv lss h j \<longleftrightarrow>
     (\<forall>i. 0 < i \<and> i < length h \<and> i \<noteq> j \<longrightarrow> \<not> lss (h ! i) (h ! parent i))
     \<and> (\<forall>k. 0 < j \<and> 0 < k \<and> k < length h \<and> parent k = j \<longrightarrow> \<not> lss (h ! k) (h ! parent j))"

lemma up_inv_swap:
  assumes wo: "weak_order lss" and inv: "up_inv lss h j" and j: "0 < j" "j < length h"
    and lt: "lss (h ! j) (h ! parent j)"
  shows "up_inv lss (swap h (parent j) j) (parent j)"
proof -
  let ?p = "parent j" and ?h = "swap h (parent j) j"
  have pj: "?p < j" using j(1) by (rule parent_less)
  have nth: "k < length h \<Longrightarrow> ?h ! k = (if k = j then h ! ?p else if k = ?p then h ! j else h ! k)" for k
    using pj j(2) by (simp add: swap_nth)
  have up: "\<not> lss (h ! i) (h ! parent i)" if "0 < i" "i < length h" "i \<noteq> j" for i
    using inv that by (simp add: up_inv_def)
  have kids: "\<not> lss (h ! k) (h ! ?p)" if "0 < k" "k < length h" "parent k = j" for k
    using inv that j by (simp add: up_inv_def)
  have "\<not> lss (?h ! i) (?h ! parent i)" if i: "0 < i" "i < length h" "i \<noteq> ?p" for i
  proof -
    have pi: "parent i < length h" using i parent_less [of i] by simp
    consider "i = j" | "parent i = j" "i \<noteq> j" | "parent i = ?p" "i \<noteq> j" | "parent i \<noteq> j" "parent i \<noteq> ?p" "i \<noteq> j"
      by blast
    then show ?thesis
    proof cases
      case 1
      with nth [of i] nth [of ?p] pj j i weak_order_asym [OF wo lt] show ?thesis by auto
    next
      case 2
      with nth [of i] nth [of j] i j kids [of i] show ?thesis by simp
    next
      case 3
      from up [of i] 3 i have "\<not> lss (h ! i) (h ! ?p)" by simp
      from weak_order_trans [OF wo weak_order_asym [OF wo lt] this] 3 nth [of i] nth [of ?p] i j pj
      show ?thesis by auto
    next
      case 4
      with nth [of i] nth [of "parent i"] i pi up [of i] show ?thesis by simp
    qed
  qed
  moreover have "\<not> lss (?h ! k) (?h ! parent ?p)"
    if p: "0 < ?p" and k: "0 < k" "k < length h" "parent k = ?p" for k
  proof -
    have pp: "parent ?p < ?p" using p by (rule parent_less)
    have e: "?h ! parent ?p = h ! parent ?p" using nth [of "parent ?p"] pp pj j by simp
    have ap: "\<not> lss (h ! ?p) (h ! parent ?p)" using up [of ?p] p pj j by simp
    show ?thesis
    proof (cases "k = j")
      case True
      with nth [of k] k e ap show ?thesis by simp
    next
      case False
      with k parent_less [of k] have "k \<noteq> ?p" by auto
      with False nth [of k] k have "?h ! k = h ! k" by simp
      with weak_order_trans [OF wo ap] up [of k] k False e show ?thesis by simp
    qed
  qed
  ultimately show ?thesis by (simp add: up_inv_def)
qed

lemma heap_up_inv:
  assumes "weak_order lss" "up_inv lss h j" "j < length h"
  shows "heap_inv lss (heap_up lss h j) (length h)"
  using assms
proof (induction lss h j rule: heap_up.induct)
  case (1 lss h j)
  show ?case
  proof (cases "j = 0 \<or> \<not> lss (h ! j) (h ! parent j)")
    case True
    with "1.prems"(2) show ?thesis
      by (auto simp: heap_up.simps [of lss h j] heap_inv_def up_inv_def)
  next
    case False
    with up_inv_swap [OF "1.prems"(1,2)] "1.prems"(3) parent_less [of j] "1.IH" [OF False "1.prems"(1)]
    show ?thesis by (simp add: heap_up.simps [of lss h j])
  qed
qed

lemma heap_down_mset:
  "i < n \<Longrightarrow> n \<le> length h \<Longrightarrow>
   mset (heap_down lss h i n) = mset h \<and> length (heap_down lss h i n) = length h
   \<and> (\<forall>k. n \<le> k \<and> k < length h \<longrightarrow> heap_down lss h i n ! k = h ! k)"
proof (induction lss h i n rule: heap_down.induct)
  case (1 lss h i n)
  let ?j = "down_child lss h i n"
  show ?case
  proof (cases "2 * i + 1 \<ge> n \<or> \<not> lss (h ! ?j) (h ! i)")
    case False
    then have j: "?j < n" by (auto simp: down_child_def)
    with False "1.IH" [OF _ refl] "1.prems" show ?thesis
      by (simp add: heap_down.simps [of lss h i n] Let_def mset_swap_eq swap_nth)
  qed (auto simp: heap_down.simps [of lss h i n] Let_def)
qed

text \<open>Everything but the edges below \<open>i\<close> is in order, and \<open>i\<close>'s children are above its parent.\<close>

definition down_inv :: "('a \<Rightarrow> 'a \<Rightarrow> bool) \<Rightarrow> 'a list \<Rightarrow> nat \<Rightarrow> nat \<Rightarrow> bool" where
  "down_inv lss h i n \<longleftrightarrow>
     (\<forall>k. 0 < k \<and> k < n \<and> parent k \<noteq> i \<longrightarrow> \<not> lss (h ! k) (h ! parent k))
     \<and> (\<forall>k. 0 < i \<and> 0 < k \<and> k < n \<and> parent k = i \<longrightarrow> \<not> lss (h ! k) (h ! parent i))"

lemma down_child_least:
  assumes "weak_order lss" "0 < k" "k < n" "parent k = i"
  shows "\<not> lss (h ! k) (h ! down_child lss h i n)"
proof -
  from assms(2,4) have "k = 2 * i + 1 \<or> k = 2 * i + 2" by (simp add: parent_children)
  then show ?thesis
    using assms(3) weak_order_asym [OF assms(1)] by (auto simp: down_child_def)
qed

lemma down_inv_swap:
  assumes wo: "weak_order lss" and inv: "down_inv lss h i n" and n: "n \<le> length h"
    and i: "2 * i + 1 < n" and lt: "lss (h ! down_child lss h i n) (h ! i)"
  shows "down_inv lss (swap h i (down_child lss h i n)) (down_child lss h i n) n"
proof -
  let ?j = "down_child lss h i n"
  let ?h = "swap h i ?j"
  have j: "?j < n" "0 < ?j" "parent ?j = i" "i < ?j"
    using i by (auto simp: down_child_def parent_def)
  have nth: "k < n \<Longrightarrow> ?h ! k = (if k = ?j then h ! i else if k = i then h ! ?j else h ! k)" for k
    using j n by (simp add: swap_nth)
  have up: "\<not> lss (h ! k) (h ! parent k)" if "0 < k" "k < n" "parent k \<noteq> i" for k
    using inv that by (simp add: down_inv_def)
  have "\<not> lss (?h ! k) (?h ! parent k)" if k: "0 < k" "k < n" "parent k \<noteq> ?j" for k
  proof -
    have pk: "parent k < k" using k(1) by (rule parent_less)
    consider "k = ?j" | "k \<noteq> ?j" "parent k = i" | "k = i" "parent k \<noteq> i" | "k \<noteq> ?j" "k \<noteq> i" "parent k \<noteq> i"
      by blast
    then show ?thesis
    proof cases
      case 1
      with nth [of ?j] nth [of i] j weak_order_asym [OF wo lt] show ?thesis by simp
    next
      case 2
      with down_child_least [OF wo k(1,2), of i h] nth [of k] nth [of i] k pk j show ?thesis by simp
    next
      case 3
      with k have "0 < i" by simp
      with inv j have "\<not> lss (h ! ?j) (h ! parent i)" by (simp add: down_inv_def)
      with 3 nth [of k] nth [of "parent k"] k pk j show ?thesis by simp
    next
      case 4
      with nth [of k] nth [of "parent k"] k pk up [of k] show ?thesis by simp
    qed
  qed
  moreover have "\<not> lss (?h ! k) (?h ! parent ?j)" if k: "0 < k" "k < n" "parent k = ?j" for k
  proof -
    have "k \<noteq> ?j" "k \<noteq> i" using k parent_less [of k] j by auto
    with nth [of k] nth [of i] k j up [of k] show ?thesis by simp
  qed
  ultimately show ?thesis by (simp add: down_inv_def)
qed

lemma heap_down_inv:
  assumes "weak_order lss" "down_inv lss h i n" "i < n" "n \<le> length h"
  shows "heap_inv lss (heap_down lss h i n) n"
  using assms
proof (induction lss h i n rule: heap_down.induct)
  case (1 lss h i n)
  let ?j = "down_child lss h i n"
  consider "2 * i + 1 \<ge> n" | "2 * i + 1 < n" "\<not> lss (h ! ?j) (h ! i)" | "2 * i + 1 < n" "lss (h ! ?j) (h ! i)"
    by fastforce
  then show ?case
  proof cases
    case 1
    with "1.prems"(2) show ?thesis
      by (auto simp: heap_down.simps [of lss h i n] heap_inv_def down_inv_def parent_children)
  next
    case 2
    have "\<not> lss (h ! k) (h ! parent k)" if k: "0 < k" "k < n" for k
    proof (cases "parent k = i")
      case True
      from weak_order_trans [OF "1.prems"(1) 2(2) down_child_least [OF "1.prems"(1) k True]] True
      show ?thesis by simp
    next
      case False
      with k "1.prems"(2) show ?thesis by (simp add: down_inv_def)
    qed
    with 2 show ?thesis by (simp add: heap_down.simps [of lss h i n] heap_inv_def)
  next
    case 3
    then have "?j < n" by (auto simp: down_child_def)
    with 3 "1.IH" [OF _ refl _ "1.prems"(1) down_inv_swap [OF "1.prems"(1,2,4) 3]] "1.prems"(4) show ?thesis
      by (simp add: heap_down.simps [of lss h i n] Let_def)
  qed
qed

lemma heap_root_least:
  assumes "weak_order lss" "heap_inv lss h n" "k < n"
  shows "\<not> lss (h ! k) (h ! 0)"
  using assms(3)
proof (induction k rule: less_induct)
  case (less k)
  show ?case
  proof (cases "k = 0")
    case True
    then show ?thesis using weak_order_asym [OF assms(1)] by auto
  next
    case False
    with less have "\<not> lss (h ! parent k) (h ! 0)" "\<not> lss (h ! k) (h ! parent k)"
      using assms(2) parent_less [of k] by (auto simp: heap_inv_def)
    then show ?thesis using weak_order_trans [OF assms(1)] by blast
  qed
qed

lemma heap_Push_ok:
  assumes "weak_order lss" "heap_inv lss h (length h)"
  shows "heap_inv lss (heap_Push lss h x) (length (heap_Push lss h x))
    \<and> mset (heap_Push lss h x) = add_mset x (mset h)"
proof -
  have "up_inv lss (h @ [x]) (length h)"
    using assms(2) parent_less
    by (auto simp: up_inv_def heap_inv_def nth_append parent_def)
  from heap_up_inv [OF assms(1) this] heap_up_mset [of "length h" "h @ [x]" lss] show ?thesis
    by (simp add: heap_Push_def)
qed

lemma heap_Pop_ok:
  assumes wo: "weak_order lss" and inv: "heap_inv lss h (length h)"
    and pop: "heap_Pop lss h = Some (x, h')"
  shows "heap_inv lss h' (length h') \<and> mset h = add_mset x (mset h') \<and> (\<forall>y \<in># mset h'. \<not> lss y x)"
proof -
  from pop have ne: "h \<noteq> []" by (auto simp: heap_Pop_def)
  let ?n = "length h - 1" let ?s = "swap h 0 ?n" let ?d = "heap_down lss ?s 0 ?n"
  have n: "?n < length h" using ne by simp
  have x: "x = last ?d" "h' = butlast ?d" using pop ne by (auto simp: heap_Pop_def Let_def)
  have facts: "mset ?d = mset h \<and> length ?d = length h \<and> ?d ! ?n = h ! 0 \<and> heap_inv lss ?d ?n"
  proof (cases "?n = 0")
    case True
    then have "length h = 1" using ne by (simp add: Suc_le_eq le_antisym)
    then have "?d = h" by (cases h) (auto simp: heap_down.simps swap_def)
    with True show ?thesis by (simp add: heap_inv_def)
  next
    case False
    have "down_inv lss ?s 0 ?n"
      unfolding down_inv_def
    proof (intro conjI allI impI)
      fix k assume k: "0 < k \<and> k < ?n \<and> parent k \<noteq> 0"
      with parent_less [of k] have "parent k < ?n" by simp
      with k n have "k < length h" "k \<noteq> ?n" "parent k < length h" "parent k \<noteq> ?n" by auto
      with k n have "?s ! k = h ! k" "?s ! parent k = h ! parent k" by (simp_all add: swap_nth ne)
      with k inv \<open>k < length h\<close> show "\<not> lss (?s ! k) (?s ! parent k)" by (simp add: heap_inv_def)
    qed simp
    from heap_down_inv [OF wo this] False n have "heap_inv lss ?d ?n" by simp
    with heap_down_mset [of 0 ?n ?s lss] False n show ?thesis
      by (simp add: mset_swap_eq ne) (simp add: swap_nth ne)
  qed
  then have dne: "?d \<noteq> []" using ne by (metis length_0_conv)
  from facts dne have "last ?d = h ! 0" by (simp add: last_conv_nth)
  with x have x0: "x = h ! 0" by simp
  have m: "mset h = add_mset x (mset h')"
    using facts x dne by (metis append_butlast_last_id mset.simps(2) union_code add_mset_add_single mset_append mset.simps(1))
  moreover have "\<not> lss y x" if "y \<in># mset h'" for y
  proof -
    from m that have "y \<in># mset h" by simp
    then have "y \<in> set h" by simp
    then obtain k where "k < length h" "y = h ! k" by (auto simp: in_set_conv_nth)
    with heap_root_least [OF wo inv] x0 show ?thesis by simp
  qed
  moreover have "heap_inv lss h' (length h')"
    unfolding heap_inv_def
  proof (intro allI impI)
    fix k assume k: "0 < k \<and> k < length h'"
    have len: "length h' = ?n" using facts x by simp
    have "parent k < length h'" using k parent_less [of k] by simp
    with k x have "h' ! k = ?d ! k" "h' ! parent k = ?d ! parent k" by (simp_all add: nth_butlast)
    with facts k len show "\<not> lss (h' ! k) (h' ! parent k)" by (auto simp: heap_inv_def)
  qed
  ultimately show ?thesis by blast
qed

lemma heap_Pop_None: "heap_Pop lss h = None \<longleftrightarrow> h = []"
  by (simp add: heap_Pop_def Let_def)

lemma length_heap_down [simp]: "length (heap_down lss h i n) = length h"
proof (induction lss h i n rule: heap_down.induct)
  case (1 lss h i n)
  then show ?case by (subst heap_down.simps) (simp add: Let_def)
qed

lemma heap_Pop_length: "heap_Pop lss h = Some (x, h') \<Longrightarrow> length h = Suc (length h')"
  by (auto simp: heap_Pop_def Let_def split: if_splits)

end
