(* ===== verification/Runner_Engine.thy ===== *)
theory Runner_Engine
  imports Runner_Types
begin

text \<open>
  \<^verbatim>\<open>runEngine\<close> of \<^verbatim>\<open>runner/runner.go\<close>: the event loop that drives the node graph.

  The loop's local maps are the record \<open>engine\<close>; its closures (\<^verbatim>\<open>emitEvent\<close>,
  \<^verbatim>\<open>finish\<close>, \<^verbatim>\<open>runNode\<close>, \<^verbatim>\<open>addNodesInternal\<close>) are state transformers that
  return the error (\<open>[]\<close> for nil) beside the new state.  One iteration of the select is
  \<open>engine_handle\<close> on the message received.  \<open>running\<close> is the set of node goroutines whose
  result has not been received; \<open>starts\<close> records the order in which nodes were started.

  What the loop calls outside its own state may fail: appending to the store, preparing a node's
  agent and paths, the memo snapshot and the handoff to a successor.  Those are the fields of
  \<open>engine_env\<close>; the n-th append's error is \<open>persist n\<close>.  A nil dereference is the outcome \<open>Panicked\<close>.
\<close>

section \<open>State\<close>

record engine_env =
  persist :: "nat \<Rightarrow> go_error"
  prepare_node :: "node \<Rightarrow> (string, any_out option) gomap \<Rightarrow> go_error"
  memo_snapshot :: "node \<Rightarrow> go_error"
  deliver_handoff :: "node \<Rightarrow> node \<Rightarrow> go_error"
  channel_parses :: "string \<Rightarrow> bool"
  now_time :: time

record engine =
  outputs :: "(string, any_out) gomap"
  pendingParents :: "(string, int) gomap"
  nodes :: "(string, node) gomap"
  children :: "(string, node list) gomap"
  activeCount :: int
  running :: "string list"
  starts :: "string list"
  events :: "runner_event list"
  log :: "runner_record list"
  appends :: nat
  state :: runner_state
  snapshot :: runner_snapshot

record execution_result =
  nodeID :: string
  res_output :: any_out
  newNodes :: "node list"
  res_err :: go_error

datatype engine_msg =
    MsgCancel go_error
  | MsgAdd "node list"
  | MsgResult execution_result
  | MsgQuery

section \<open>Persistence and events\<close>

definition appendRecord :: "engine_env \<Rightarrow> runner_record \<Rightarrow> engine \<Rightarrow> go_error \<times> engine" where
  "appendRecord env rc st =
     (case persist env (appends st) of
        [] \<Rightarrow> ([], st\<lparr>log := log st @ [rc\<lparr>Seq := int (length (log st)) + 1\<rparr>], appends := appends st + 1\<rparr>)
      | e \<Rightarrow> (e, st\<lparr>appends := appends st + 1\<rparr>))"

definition recordState ::
  "engine_env \<Rightarrow> runner_status \<Rightarrow> go_error \<Rightarrow> bool \<Rightarrow> engine \<Rightarrow> go_error \<times> engine" where
  "recordState env status runErr terminal st =
     (case transitionState (now_time env) status runErr terminal (state st) of
        (s, changed) \<Rightarrow>
          let st = st\<lparr>state := s\<rparr> in
          if \<not> changed then ([], st)
          else appendRecord env
                 ((record_of RunnerRecordStatus)\<lparr>rec_Status := Some (rs_Status s), rec_Error := rs_Error s\<rparr>) st)"

definition buildRuntimeSnapshot :: "engine \<Rightarrow> runner_snapshot" where
  "buildRuntimeSnapshot st =
     \<lparr>ActiveCount = activeCount st, CompletedNodes = copy_map (outputs st),
      PendingNodes = copy_map (pendingParents st),
      GraphEdges = copy_map (map (\<lambda>(p, cs). (p, map nd_Id cs)) (children st)),
      NodesData = copy_map (nodes st)\<rparr>"

definition emitEvent :: "engine_env \<Rightarrow> runner_event \<Rightarrow> engine \<Rightarrow> go_error \<times> engine" where
  "emitEvent env event st =
     (case appendRecord env
             ((record_of RunnerRecordEvent)\<lparr>rec_Event := Some (newStoredRunnerEvent (channel_parses env) event)\<rparr>) st of
        ([], st) \<Rightarrow>
          ([], st\<lparr>snapshot := cloneRunnerSnapshot (buildRuntimeSnapshot st), events := events st @ [event]\<rparr>)
      | (e, st) \<Rightarrow> (e, st))"

definition engine_event :: "event_type \<Rightarrow> string \<Rightarrow> event_data \<Rightarrow> runner_event" where
  "engine_event t i d = \<lparr>re_Type = t, re_NodeID = i, re_Data = d\<rparr>"

definition engine_finish :: "engine_env \<Rightarrow> runner_status \<Rightarrow> go_error \<Rightarrow> engine \<Rightarrow> go_error \<times> engine" where
  "engine_finish env status runErr st =
     (let st = st\<lparr>snapshot := buildRuntimeSnapshot st\<rparr> in
      case recordState env status runErr True st of
        (statusErr, st) \<Rightarrow>
          (case emitEvent env (engine_event EventEngineStopped [] DataNil) st of
             (stopErr, st) \<Rightarrow> (runErr @ statusErr @ stopErr, st)))"

section \<open>Running and adding nodes\<close>

definition node_inputs :: "engine \<Rightarrow> node \<Rightarrow> (string, any_out option) gomap" where
  "node_inputs st n = fold (\<lambda>p m. map_set m p (map_get (outputs st) p)) (nd_Parents n) []"

definition runNode :: "engine_env \<Rightarrow> node \<Rightarrow> engine \<Rightarrow> go_error \<times> engine" where
  "runNode env n st =
     (case prepare_node env n (node_inputs st n) of
        e # es \<Rightarrow> (e # es, st)
      | [] \<Rightarrow>
          (case recordState env RunnerStatusRunning [] False (st\<lparr>activeCount := activeCount st + 1\<rparr>) of
             (e # es, st) \<Rightarrow> (e # es, st\<lparr>activeCount := activeCount st - 1\<rparr>)
           | ([], st) \<Rightarrow>
               (case emitEvent env (engine_event EventNodeStarted (nd_Id n) DataNil) st of
                  (e # es, st) \<Rightarrow> (e # es, st\<lparr>activeCount := activeCount st - 1\<rparr>)
                | ([], st) \<Rightarrow>
                    ([], st\<lparr>running := running st @ [nd_Id n], starts := starts st @ [nd_Id n]\<rparr>))))"

definition pending_of :: "engine \<Rightarrow> node \<Rightarrow> int" where
  "pending_of st n = int (length (filter (\<lambda>p. \<not> map_has (outputs st) p) (nd_Parents n)))"

definition register_node :: "node \<Rightarrow> engine \<Rightarrow> engine" where
  "register_node n st =
     (let st = st\<lparr>nodes := map_set (nodes st) (nd_Id n) n,
                  children := fold (\<lambda>p c. append_edge c p n) (nd_Parents n) (children st)\<rparr>
      in st\<lparr>pendingParents := map_set (pendingParents st) (nd_Id n) (pending_of st n)\<rparr>)"

fun addNodesInternal :: "engine_env \<Rightarrow> node list \<Rightarrow> engine \<Rightarrow> go_error \<times> engine" where
  "addNodesInternal env [] st = ([], st)"
| "addNodesInternal env (n # ns) st =
     (if map_has (nodes st) (nd_Id n) then addNodesInternal env ns st
      else
        (case emitEvent env (engine_event EventNodeAdded (nd_Id n) DataNil) (register_node n st) of
           (e # es, st) \<Rightarrow> (e # es, st)
         | ([], st) \<Rightarrow>
             if map_get (pendingParents st) (nd_Id n) = Some 0 then
               (case runNode env n st of
                  (e # es, st) \<Rightarrow> (e # es, st)
                | ([], st) \<Rightarrow> addNodesInternal env ns st)
             else addNodesInternal env ns st))"

section \<open>The loop\<close>

definition dec_pending :: "string \<Rightarrow> engine \<Rightarrow> engine" where
  "dec_pending c st =
     st\<lparr>pendingParents := map_set (pendingParents st) c
          ((case map_get (pendingParents st) c of None \<Rightarrow> 0 | Some k \<Rightarrow> k) - 1)\<rparr>"

fun release_children :: "engine_env \<Rightarrow> node \<Rightarrow> node list \<Rightarrow> engine \<Rightarrow> go_error \<times> engine" where
  "release_children env n [] st = ([], st)"
| "release_children env n (child # cs) st =
     (case deliver_handoff env n child of
        e # es \<Rightarrow> (e # es, st)
      | [] \<Rightarrow>
          let st = dec_pending (nd_Id child) st in
          if map_get (pendingParents st) (nd_Id child) = Some 0 then
            (case runNode env child st of
               (e # es, st) \<Rightarrow> (e # es, st)
             | ([], st) \<Rightarrow> release_children env n cs st)
          else release_children env n cs st)"

datatype engine_outcome = Continue engine | Finished go_error engine | Panicked

definition stop_with :: "engine_env \<Rightarrow> runner_status \<Rightarrow> go_error \<Rightarrow> engine \<Rightarrow> engine_outcome" where
  "stop_with env status err st = (case engine_finish env status err st of (e, st) \<Rightarrow> Finished e st)"

definition handle_result :: "engine_env \<Rightarrow> execution_result \<Rightarrow> engine \<Rightarrow> engine_outcome" where
  "handle_result env res st =
     (case map_get (nodes st) (nodeID res) of
        None \<Rightarrow> Panicked
      | Some n \<Rightarrow>
          let st = st\<lparr>activeCount := activeCount st - 1, running := remove1 (nodeID res) (running st)\<rparr> in
          if res_err res \<noteq> [] then
            (case emitEvent env (engine_event EventNodeFailed (nodeID res) (DataErr (res_err res))) st of
               (eventErr, st) \<Rightarrow> stop_with env RunnerStatusFailed (res_err res @ eventErr) st)
          else
            (case addNodesInternal env (newNodes res) st of
               (e # es, st) \<Rightarrow> stop_with env RunnerStatusFailed (e # es) st
             | ([], st) \<Rightarrow>
                 let st = st\<lparr>outputs := map_set (outputs st) (nodeID res) (res_output res)\<rparr> in
                 (case emitEvent env (engine_event EventNodeCompleted (nodeID res) (DataOut (res_output res))) st of
                    (e # es, st) \<Rightarrow> stop_with env RunnerStatusFailed (e # es) st
                  | ([], st) \<Rightarrow>
                      (case memo_snapshot env n of
                         e # es \<Rightarrow> stop_with env RunnerStatusFailed (e # es) st
                       | [] \<Rightarrow>
                           (case release_children env n
                                   (case map_get (children st) (nodeID res) of None \<Rightarrow> [] | Some cs \<Rightarrow> cs) st of
                              (e # es, st) \<Rightarrow> stop_with env RunnerStatusFailed (e # es) st
                            | ([], st) \<Rightarrow>
                                if activeCount st = 0 then
                                  (case recordState env RunnerStatusIdle [] False st of
                                     (e # es, st) \<Rightarrow> stop_with env RunnerStatusFailed (e # es) st
                                   | ([], st) \<Rightarrow>
                                       (case emitEvent env (engine_event EventEngineIdle [] DataNil) st of
                                          (e # es, st) \<Rightarrow> stop_with env RunnerStatusFailed (e # es) st
                                        | ([], st) \<Rightarrow> Continue st))
                                else Continue st)))))"

fun engine_handle :: "engine_env \<Rightarrow> engine_msg \<Rightarrow> engine \<Rightarrow> engine_outcome" where
  "engine_handle env (MsgCancel err) st = stop_with env RunnerStatusCanceled err st"
| "engine_handle env (MsgAdd ns) st =
     (case addNodesInternal env ns st of
        (e # es, st) \<Rightarrow> stop_with env RunnerStatusFailed (e # es) st
      | ([], st) \<Rightarrow> Continue st)"
| "engine_handle env (MsgResult res) st = handle_result env res st"
| "engine_handle env MsgQuery st = Continue st"

text \<open>
  The prologue: leave Pending, provision the workspace (\<open>prov\<close> is its error), write the init and
  status records, then enter the loop with empty maps.
\<close>

definition engine_start ::
  "engine_env \<Rightarrow> go_error \<Rightarrow> runner_state \<Rightarrow> runner_snapshot \<Rightarrow> engine_outcome" where
  "engine_start env prov rs snap =
     (let st = \<lparr>outputs = [], pendingParents = [], nodes = [], children = [], activeCount = 0,
                running = [], starts = [], events = [], log = [], appends = 0, state = rs,
                snapshot = snap\<rparr>;
          fail = (\<lambda>err st. Finished err
                    (st\<lparr>state := fst (transitionState (now_time env) RunnerStatusFailed err True (state st))\<rparr>))
      in if rs_Status rs \<noteq> RunnerStatusPending then Finished [ErrRunnerAlreadyStarted] st
         else
           let st = st\<lparr>state := \<lparr>rs_Status = RunnerStatusRunning, rs_StartedAt = now_time env,
                                 rs_UpdatedAt = now_time env, rs_FinishedAt = 0, rs_Error = []\<rparr>\<rparr>
           in if prov \<noteq> [] then fail prov st
              else
                (case appendRecord env (record_of RunnerRecordInit) st of
                   (e # es, st) \<Rightarrow> fail (e # es) st
                 | ([], st) \<Rightarrow>
                     (case appendRecord env
                             ((record_of RunnerRecordStatus)\<lparr>rec_Status := Some RunnerStatusRunning\<rparr>) st of
                        (e # es, st) \<Rightarrow> fail (e # es) st
                      | ([], st) \<Rightarrow> Continue st)))"

end
