(* ===== verification/Runner_Engine_Inv.thy ===== *)
theory Runner_Engine_Inv
  imports Runner_Engine
begin

text \<open>
  The invariant of the engine loop: pending counters count exactly the parents without output,
  the children lists mirror the parents lists, a node is started exactly when its counter
  reaches zero, and every started node is running, finished or being handled.
\<close>

section \<open>Adjacency maps\<close>

definition get_list :: "(string, 'a list) gomap \<Rightarrow> string \<Rightarrow> 'a list" where
  "get_list m k = (case map_get m k of None \<Rightarrow> [] | Some xs \<Rightarrow> xs)"

lemma get_list_append_edge:
  "get_list (append_edge m p x) q = (if q = p then get_list m q @ [x] else get_list m q)"
  by (simp add: get_list_def append_edge_get)

lemma get_list_fold_edges:
  "get_list (fold (\<lambda>p c. append_edge c p x) ps m) q = get_list m q @ replicate (count_list ps q) x"
  by (induction ps arbitrary: m) (auto simp: get_list_append_edge replicate_append_same)

lemma fold_edges_ok: "map_ok m \<Longrightarrow> map_ok (fold (\<lambda>p c. append_edge c p x) ps m)"
  by (induction ps arbitrary: m) auto

lemma count_list_replicate: "count_list (replicate k x) y = (if y = x then k else 0)"
  by (induction k) auto

section \<open>The invariant\<close>

definition npend :: "(string, any_out) gomap \<Rightarrow> node \<Rightarrow> nat" where
  "npend outs n = length (filter (\<lambda>p. \<not> map_has outs p) (nd_Parents n))"

text \<open>
  \<open>cur\<close>: nodes whose result is being handled; \<open>ready\<close>: nodes whose counter is zero but which
  have not been started; \<open>rest\<close>: children not yet notified of the latest completion.
\<close>

definition graph_inv :: "node list \<Rightarrow> engine \<Rightarrow> bool" where
  "graph_inv rest st \<longleftrightarrow>
     map_ok (nodes st)
     \<and> (\<forall>i n. map_get (nodes st) i = Some n \<longrightarrow> nd_Id n = i
          \<and> map_get (pendingParents st) i
              = Some (int (npend (outputs st) n + count_list (map nd_Id rest) i)))
     \<and> (\<forall>i k. map_get (pendingParents st) i = Some k \<longrightarrow> map_get (nodes st) i \<noteq> None)
     \<and> (\<forall>p. \<forall>c \<in> set (get_list (children st) p). map_get (nodes st) (nd_Id c) = Some c)
     \<and> (\<forall>c \<in> set rest. map_get (nodes st) (nd_Id c) = Some c)
     \<and> (\<forall>p i n. map_get (nodes st) i = Some n \<longrightarrow>
          count_list (map nd_Id (get_list (children st) p)) i = count_list (nd_Parents n) p)"

definition start_inv :: "string set \<Rightarrow> string set \<Rightarrow> engine \<Rightarrow> bool" where
  "start_inv cur ready st \<longleftrightarrow>
     distinct (starts st) \<and> ready \<inter> set (starts st) = {}
     \<and> {i. map_get (pendingParents st) i = Some 0} = set (starts st) \<union> ready
     \<and> distinct (running st) \<and> set (running st) \<inter> cur = {}
     \<and> set (running st) \<inter> fst ` set (outputs st) = {} \<and> cur \<inter> fst ` set (outputs st) = {}
     \<and> set (running st) \<union> fst ` set (outputs st) \<union> cur = set (starts st)
     \<and> activeCount st = int (length (running st))"

text \<open>Parents start before their children.\<close>

definition order_inv :: "engine \<Rightarrow> bool" where
  "order_inv st \<longleftrightarrow> (\<forall>k < length (starts st). \<forall>n. map_get (nodes st) (starts st ! k) = Some n \<longrightarrow>
     set (nd_Parents n) \<subseteq> set (take k (starts st)))"

definition engine_inv :: "string set \<Rightarrow> string set \<Rightarrow> node list \<Rightarrow> engine \<Rightarrow> bool" where
  "engine_inv cur ready rest st \<longleftrightarrow> graph_inv rest st \<and> start_inv cur ready st \<and> order_inv st"

definition core :: "engine \<Rightarrow> (string, any_out) gomap \<times> (string, int) gomap \<times> (string, node) gomap
    \<times> (string, node list) gomap \<times> int \<times> string list \<times> string list" where
  "core st = (outputs st, pendingParents st, nodes st, children st, activeCount st, running st, starts st)"

lemma engine_inv_core: "core st = core st' \<Longrightarrow> engine_inv cur ready rest st = engine_inv cur ready rest st'"
  by (simp add: core_def engine_inv_def graph_inv_def start_inv_def order_inv_def)

lemma core_appendRecord [simp]: "core (snd (appendRecord env r st)) = core st"
  by (simp add: appendRecord_def core_def split: list.splits)

lemma core_recordState [simp]: "core (snd (recordState env s e t st)) = core st"
proof -
  have "core (st\<lparr>state := x\<rparr>) = core st" for x by (simp add: core_def)
  then show ?thesis by (simp add: recordState_def Let_def split: prod.splits)
qed

lemma core_emitEvent [simp]: "core (snd (emitEvent env ev st)) = core st"
proof -
  let ?r = "(record_of RunnerRecordEvent)\<lparr>rec_Event := Some (newStoredRunnerEvent (channel_parses env) ev)\<rparr>"
  obtain e s where a: "appendRecord env ?r st = (e, s)" by force
  with core_appendRecord [of env ?r st] have "core s = core st" by simp
  with a show ?thesis by (cases e) (auto simp: emitEvent_def core_def)
qed

lemma core_recordStateD: "recordState env s e t st = (r, st') \<Longrightarrow> core st' = core st"
  by (metis core_recordState snd_conv)

lemma core_emitEventD: "emitEvent env ev st = (r, st') \<Longrightarrow> core st' = core st"
  by (metis core_emitEvent snd_conv)

lemma core_finish: "engine_finish env s e st = (r, st') \<Longrightarrow> core st' = core st"
proof -
  assume f: "engine_finish env s e st = (r, st')"
  have "core (st\<lparr>snapshot := x\<rparr>) = core st" for x by (simp add: core_def)
  with f show ?thesis
    by (auto simp: engine_finish_def Let_def split: prod.splits dest!: core_recordStateD core_emitEventD)
qed

text \<open>Starting a node, seen from the core.\<close>

definition started :: "string \<Rightarrow> engine \<Rightarrow> engine" where
  "started i st = st\<lparr>activeCount := activeCount st + 1, running := running st @ [i], starts := starts st @ [i]\<rparr>"

lemma core_runNode:
  assumes "runNode env n st = (e, st')"
  shows "core st' = (if e = [] then core (started (nd_Id n) st) else core st)"
proof (cases "prepare_node env n (node_inputs st n)")
  case (Cons a as)
  with assms show ?thesis by (auto simp: runNode_def)
next
  case Nil
  let ?s0 = "st\<lparr>activeCount := activeCount st + 1\<rparr>"
  obtain e1 s1 where r: "recordState env RunnerStatusRunning [] False ?s0 = (e1, s1)" by force
  note c1 = core_recordStateD [OF r]
  obtain e2 s2 where m: "emitEvent env (engine_event EventNodeStarted (nd_Id n) DataNil) s1 = (e2, s2)" by force
  note c2 = core_emitEventD [OF m]
  show ?thesis
  proof (cases e1)
    case Cons
    with assms Nil r c1 show ?thesis by (auto simp: runNode_def core_def)
  next
    case e1: Nil
    show ?thesis
    proof (cases e2)
      case Cons
      with assms Nil r m e1 c1 c2 show ?thesis by (auto simp: runNode_def core_def)
    next
      case e2: Nil
      with assms Nil r m e1 have "e = []" "st' = s2\<lparr>running := running s2 @ [nd_Id n], starts := starts s2 @ [nd_Id n]\<rparr>"
        by (auto simp: runNode_def)
      with c1 c2 show ?thesis by (simp add: core_def started_def)
    qed
  qed
qed

lemma graph_invD:
  assumes "graph_inv rest st"
  shows "map_get (nodes st) i = Some n \<Longrightarrow> nd_Id n = i"
    and "map_get (nodes st) i = Some n \<Longrightarrow>
       map_get (pendingParents st) i = Some (int (npend (outputs st) n + count_list (map nd_Id rest) i))"
    and "map_get (pendingParents st) i = Some k \<Longrightarrow> map_get (nodes st) i \<noteq> None"
    and "c \<in> set (get_list (children st) p) \<Longrightarrow> map_get (nodes st) (nd_Id c) = Some c"
    and "c \<in> set rest \<Longrightarrow> map_get (nodes st) (nd_Id c) = Some c"
    and "map_get (nodes st) i = Some n \<Longrightarrow>
       count_list (map nd_Id (get_list (children st) p)) i = count_list (nd_Parents n) p"
    and "map_ok (nodes st)"
  using assms unfolding graph_inv_def by blast+

lemma start_invD:
  assumes "start_inv cur ready st"
  shows "distinct (starts st)" and "distinct (running st)" and "activeCount st = int (length (running st))"
    and "i \<in> set (running st) \<Longrightarrow> i \<notin> cur \<and> i \<notin> fst ` set (outputs st)"
    and "i \<in> cur \<Longrightarrow> i \<notin> fst ` set (outputs st)" and "i \<in> ready \<Longrightarrow> i \<notin> set (starts st)"
    and "i \<in> set (starts st) \<longleftrightarrow> i \<in> set (running st) \<or> i \<in> fst ` set (outputs st) \<or> i \<in> cur"
    and "map_get (pendingParents st) i = Some 0 \<longleftrightarrow> i \<in> set (starts st) \<or> i \<in> ready"
proof -
  have u: "set (running st) \<union> fst ` set (outputs st) \<union> cur = set (starts st)"
    "{i. map_get (pendingParents st) i = Some 0} = set (starts st) \<union> ready"
    and d: "set (running st) \<inter> cur = {}" "set (running st) \<inter> fst ` set (outputs st) = {}"
      "cur \<inter> fst ` set (outputs st) = {}" "ready \<inter> set (starts st) = {}"
    using assms by (simp_all add: start_inv_def)
  show "i \<in> set (starts st) \<longleftrightarrow> i \<in> set (running st) \<or> i \<in> fst ` set (outputs st) \<or> i \<in> cur"
    unfolding u(1) [symmetric] by simp
  show "map_get (pendingParents st) i = Some 0 \<longleftrightarrow> i \<in> set (starts st) \<or> i \<in> ready"
    using u(2) by (simp add: set_eq_iff)
  show "i \<in> set (running st) \<Longrightarrow> i \<notin> cur \<and> i \<notin> fst ` set (outputs st)"
    "i \<in> cur \<Longrightarrow> i \<notin> fst ` set (outputs st)" "i \<in> ready \<Longrightarrow> i \<notin> set (starts st)"
    using d by (simp_all add: disjoint_iff)
qed (use assms in \<open>simp_all add: start_inv_def\<close>)

lemma start_invI:
  assumes "distinct (starts st)" "distinct (running st)" "activeCount st = int (length (running st))"
    and "\<And>i. i \<in> set (running st) \<Longrightarrow> i \<notin> cur \<and> i \<notin> fst ` set (outputs st)"
    and "\<And>i. i \<in> cur \<Longrightarrow> i \<notin> fst ` set (outputs st)" and "\<And>i. i \<in> ready \<Longrightarrow> i \<notin> set (starts st)"
    and "\<And>i. i \<in> set (starts st) \<longleftrightarrow> i \<in> set (running st) \<or> i \<in> fst ` set (outputs st) \<or> i \<in> cur"
    and "\<And>i. map_get (pendingParents st) i = Some 0 \<longleftrightarrow> i \<in> set (starts st) \<or> i \<in> ready"
  shows "start_inv cur ready st"
proof -
  have "set (running st) \<union> fst ` set (outputs st) \<union> cur = set (starts st)"
    using assms(7) by (simp add: set_eq_iff)
  moreover have "{i. map_get (pendingParents st) i = Some 0} = set (starts st) \<union> ready"
    using assms(8) by (simp add: set_eq_iff)
  moreover have "set (running st) \<inter> cur = {}" "set (running st) \<inter> fst ` set (outputs st) = {}"
      "cur \<inter> fst ` set (outputs st) = {}" "ready \<inter> set (starts st) = {}"
    using assms(4-6) by (simp_all add: disjoint_iff)
  ultimately show ?thesis using assms(1-3) by (simp add: start_inv_def)
qed

lemma started_inv:
  assumes inv: "start_inv cur {i} st"
  shows "start_inv cur {} (started i st)"
  using inv unfolding start_inv_def started_def by (simp, blast)

lemma graph_inv_started [simp]: "graph_inv rest (started i st) = graph_inv rest st"
  by (simp add: graph_inv_def started_def)

lemma order_inv_cong:
  "starts st' = starts st \<Longrightarrow> nodes st' = nodes st \<Longrightarrow> order_inv st' = order_inv st"
  by (simp add: order_inv_def)

lemma started_order:
  assumes inv: "engine_inv cur {i} rest st"
  shows "order_inv (started i st)"
proof -
  from inv have g: "graph_inv rest st" and s: "start_inv cur {i} st" and o: "order_inv st"
    by (simp_all add: engine_inv_def)
  have new: "set (nd_Parents n) \<subseteq> set (starts st)" if n: "map_get (nodes st) i = Some n" for n
  proof
    fix p assume p: "p \<in> set (nd_Parents n)"
    have "map_get (pendingParents st) i = Some 0" using start_invD(8) [OF s] by simp
    with graph_invD(2) [OF g n] have "npend (outputs st) n = 0" by simp
    with p have "map_has (outputs st) p" by (auto simp: npend_def filter_empty_conv)
    with start_invD(7) [OF s] show "p \<in> set (starts st)" by (simp add: map_has_def)
  qed
  have "set (nd_Parents n) \<subseteq> set (take k (starts st @ [i]))"
    if k: "k < Suc (length (starts st))" and n: "map_get (nodes st) ((starts st @ [i]) ! k) = Some n" for k n
  proof (cases "k = length (starts st)")
    case True
    with n new show ?thesis by simp
  next
    case False
    with k n o show ?thesis by (simp add: order_inv_def nth_append)
  qed
  then show ?thesis by (simp add: order_inv_def started_def)
qed

lemma runNode_inv:
  assumes "engine_inv cur {nd_Id n} rest st" "runNode env n st = (e, st')"
  shows "engine_inv cur (if e = [] then {} else {nd_Id n}) rest st'"
proof (cases "e = []")
  case True
  have "engine_inv cur {} rest (started (nd_Id n) st)"
    using assms(1) started_inv started_order [OF assms(1)] by (simp add: engine_inv_def)
  with core_runNode [OF assms(2)] True show ?thesis
    by (simp add: engine_inv_core [of st' "started (nd_Id n) st"])
next
  case False
  with core_runNode [OF assms(2)] assms(1) show ?thesis by (simp add: engine_inv_core [of st' st])
qed

section \<open>Adding nodes\<close>

lemma register_fields:
  "nodes (register_node n st) = map_set (nodes st) (nd_Id n) n"
  "outputs (register_node n st) = outputs st"
  "pendingParents (register_node n st) = map_set (pendingParents st) (nd_Id n) (int (npend (outputs st) n))"
  "children (register_node n st) = fold (\<lambda>p c. append_edge c p n) (nd_Parents n) (children st)"
  "starts (register_node n st) = starts st" "running (register_node n st) = running st"
  "activeCount (register_node n st) = activeCount st"
  by (simp_all add: register_node_def Let_def pending_of_def npend_def)

lemma register_graph:
  assumes inv: "graph_inv [] st" and none: "map_get (nodes st) (nd_Id n) = None"
  shows "graph_inv [] (register_node n st)"
proof -
  have nochild: "nd_Id c \<noteq> nd_Id n" if "c \<in> set (get_list (children st) p)" for c p
    using graph_invD(4) [OF inv that] none by force
  then have "nd_Id n \<notin> set (map nd_Id (get_list (children st) p))" for p by fastforce
  then have zero: "count_list (map nd_Id (get_list (children st) p)) (nd_Id n) = 0" for p
    by (simp only: count_list_0_iff not_False_eq_True)
  show ?thesis
    unfolding graph_inv_def register_fields
    using graph_invD [OF inv] nochild zero
    by (auto simp: get_list_fold_edges count_list_replicate)
qed

lemma register_inv:
  assumes inv: "engine_inv cur {} [] st" and fresh: "\<not> map_has (nodes st) (nd_Id n)"
  shows "engine_inv cur (if npend (outputs st) n = 0 then {nd_Id n} else {}) [] (register_node n st)"
proof -
  have none: "map_get (nodes st) (nd_Id n) = None" using fresh by (simp add: map_has_iff)
  from inv have g: "graph_inv [] st" and s: "start_inv cur {} st" and o: "order_inv st"
    by (simp_all add: engine_inv_def)
  have zeros: "{i. map_get (pendingParents st) i = Some 0} = set (starts st)"
    using s by (simp add: start_inv_def)
  have "map_get (pendingParents st) (nd_Id n) = None"
    using graph_invD(3) [OF g] none by (metis not_Some_eq)
  moreover have "i \<in> set (starts st) \<longleftrightarrow> map_get (pendingParents st) i = Some 0" for i
    using zeros by blast
  ultimately have unstarted: "nd_Id n \<notin> set (starts st)" by simp
  have "{i. map_get (map_set (pendingParents st) (nd_Id n) (int (npend (outputs st) n))) i = Some 0}
      = set (starts st) \<union> (if npend (outputs st) n = 0 then {nd_Id n} else {})"
    using zeros unstarted by auto
  with s unstarted have "start_inv cur (if npend (outputs st) n = 0 then {nd_Id n} else {}) (register_node n st)"
    unfolding start_inv_def register_fields by simp
  moreover have "order_inv (register_node n st)"
    unfolding order_inv_def register_fields
  proof (intro allI impI)
    fix k m assume k: "k < length (starts st)"
      and m: "map_get (map_set (nodes st) (nd_Id n) n) (starts st ! k) = Some m"
    from k unstarted have "starts st ! k \<noteq> nd_Id n" by (metis nth_mem)
    with k m o show "set (nd_Parents m) \<subseteq> set (take k (starts st))" by (simp add: order_inv_def)
  qed
  ultimately show ?thesis using register_graph [OF g none] by (simp add: engine_inv_def)
qed

lemma emit_inv: "emitEvent env ev st = (e, st') \<Longrightarrow> engine_inv cur ready rest st' = engine_inv cur ready rest st"
  using core_emitEventD engine_inv_core by metis

lemma record_inv: "recordState env a b c st = (e, st') \<Longrightarrow> engine_inv cur ready rest st' = engine_inv cur ready rest st"
  using core_recordStateD engine_inv_core by metis

lemma addNodes_inv:
  assumes "engine_inv cur {} [] st" "addNodesInternal env ns st = (e, st')"
  shows "\<exists>ready. engine_inv cur ready [] st' \<and> (e = [] \<longrightarrow> ready = {})"
  using assms
proof (induction ns arbitrary: st)
  case (Cons n ns)
  show ?case
  proof (cases "map_has (nodes st) (nd_Id n)")
    case True
    with Cons show ?thesis by simp
  next
    case fresh: False
    let ?ready = "if npend (outputs st) n = 0 then {nd_Id n} else {}"
    note reg = register_inv [OF Cons.prems(1) fresh]
    obtain e1 s1 where em: "emitEvent env (engine_event EventNodeAdded (nd_Id n) DataNil) (register_node n st) = (e1, s1)"
      by force
    from emit_inv [OF em] reg have inv1: "engine_inv cur ?ready [] s1" by simp
    have pend: "map_get (pendingParents s1) (nd_Id n) = Some 0 \<longleftrightarrow> npend (outputs st) n = 0"
    proof -
      have "pendingParents s1 = pendingParents (register_node n st)"
        using core_emitEventD [OF em] by (simp add: core_def)
      then show ?thesis by (simp add: register_node_def Let_def pending_of_def npend_def)
    qed
    show ?thesis
    proof (cases e1)
      case (Cons a as)
      with Cons.prems(2) fresh em inv1 show ?thesis by auto
    next
      case Nil
      show ?thesis
      proof (cases "npend (outputs st) n = 0")
        case False
        with Cons.prems(2) fresh em Nil pend have "addNodesInternal env ns s1 = (e, st')" by simp
        with Cons.IH [of s1] inv1 False show ?thesis by simp
      next
        case True
        obtain e2 s2 where rn: "runNode env n s1 = (e2, s2)" by force
        from runNode_inv [OF _ rn] inv1 True
        have inv2: "engine_inv cur (if e2 = [] then {} else {nd_Id n}) [] s2" by simp
        show ?thesis
        proof (cases e2)
          case (Cons a as)
          with Cons.prems(2) fresh em Nil pend True rn inv2 show ?thesis by auto
        next
          case e2: Nil
          with Cons.prems(2) fresh em Nil pend True rn have "addNodesInternal env ns s2 = (e, st')" by simp
          with Cons.IH [of s2] inv2 e2 show ?thesis by simp
        qed
      qed
    qed
  qed
qed auto

section \<open>Completing a node\<close>

lemma npend_set:
  assumes "\<not> map_has outs r"
  shows "npend outs n = npend (map_set outs r v) n + count_list (nd_Parents n) r"
proof -
  have "length (filter (\<lambda>p. \<not> map_has outs p) ps) =
      length (filter (\<lambda>p. \<not> map_has (map_set outs r v) p) ps) + count_list ps r" for ps
    using assms by (induction ps) auto
  then show ?thesis by (simp add: npend_def)
qed

lemma complete_inv:
  assumes inv: "engine_inv {r} {} [] st"
  shows "engine_inv {} {} (get_list (children st) r) (st\<lparr>outputs := map_set (outputs st) r v\<rparr>)"
proof -
  from inv have g: "graph_inv [] st" and s: "start_inv {r} {} st" by (simp_all add: engine_inv_def)
  from s have r: "\<not> map_has (outputs st) r" by (auto simp: start_inv_def map_has_def)
  have "graph_inv (get_list (children st) r) (st\<lparr>outputs := map_set (outputs st) r v\<rparr>)"
    unfolding graph_inv_def using graph_invD [OF g] npend_set [OF r]
    by (simp add: algebra_simps)
  moreover have "start_inv {} {} (st\<lparr>outputs := map_set (outputs st) r v\<rparr>)"
    using s unfolding start_inv_def by simp
  moreover have "order_inv (st\<lparr>outputs := map_set (outputs st) r v\<rparr>)"
    using inv by (simp add: engine_inv_def order_inv_def)
  ultimately show ?thesis by (simp add: engine_inv_def)
qed

lemma dec_inv:
  assumes inv: "engine_inv {} {} (c # cs) st"
  shows "engine_inv {} (if map_get (pendingParents (dec_pending (nd_Id c) st)) (nd_Id c) = Some 0
                        then {nd_Id c} else {}) cs (dec_pending (nd_Id c) st)"
proof -
  from inv have g: "graph_inv (c # cs) st" and s: "start_inv {} {} st" by (simp_all add: engine_inv_def)
  have nc: "map_get (nodes st) (nd_Id c) = Some c" using graph_invD(5) [OF g] by simp
  let ?k = "int (npend (outputs st) c + count_list (map nd_Id cs) (nd_Id c))"
  have pc: "map_get (pendingParents st) (nd_Id c) = Some (?k + 1)"
    using graph_invD(2) [OF g nc] by simp
  have pp: "pendingParents (dec_pending (nd_Id c) st) = map_set (pendingParents st) (nd_Id c) ?k"
    by (simp add: dec_pending_def pc)
  have fields: "nodes (dec_pending i st) = nodes st" "outputs (dec_pending i st) = outputs st"
    "children (dec_pending i st) = children st" "starts (dec_pending i st) = starts st"
    "running (dec_pending i st) = running st" "activeCount (dec_pending i st) = activeCount st" for i
    by (simp_all add: dec_pending_def)
  have "graph_inv cs (dec_pending (nd_Id c) st)"
    unfolding graph_inv_def fields pp
  proof (intro conjI allI impI ballI)
    fix i n assume i: "map_get (nodes st) i = Some n"
    show "map_get (map_set (pendingParents st) (nd_Id c) ?k) i
        = Some (int (npend (outputs st) n + count_list (map nd_Id cs) i))"
      using graph_invD(2) [OF g i] i nc by (cases "i = nd_Id c") simp_all
  next
    fix i k assume "map_get (map_set (pendingParents st) (nd_Id c) ?k) i = Some k"
    then show "map_get (nodes st) i \<noteq> None"
      using graph_invD(3) [OF g] nc by (cases "i = nd_Id c") simp_all
  qed (use graph_invD [OF g] in simp_all)
  moreover have "start_inv {} (if ?k = 0 then {nd_Id c} else {}) (dec_pending (nd_Id c) st)"
  proof -
    have "{i. map_get (pendingParents st) i = Some 0} = set (starts st)"
      using s by (simp add: start_inv_def)
    then have zeros: "i \<in> set (starts st) \<longleftrightarrow> map_get (pendingParents st) i = Some 0" for i by blast
    with pc have "nd_Id c \<notin> set (starts st)" by simp
    moreover from this zeros have
      "{i. map_get (map_set (pendingParents st) (nd_Id c) ?k) i = Some 0}
        = set (starts st) \<union> (if ?k = 0 then {nd_Id c} else {})" by auto
    ultimately show ?thesis using s unfolding start_inv_def fields pp by simp
  qed
  moreover have "order_inv (dec_pending (nd_Id c) st)"
    using inv by (simp add: engine_inv_def order_inv_def fields)
  ultimately show ?thesis by (simp add: engine_inv_def pp)
qed

lemma release_inv:
  assumes "engine_inv {} {} cs st" "release_children env n cs st = (e, st')"
  shows "\<exists>ready rest. engine_inv {} ready rest st' \<and> (e = [] \<longrightarrow> ready = {} \<and> rest = [])"
  using assms
proof (induction cs arbitrary: st)
  case Nil
  then show ?case by auto
next
  case (Cons c cs)
  show ?case
  proof (cases "deliver_handoff env n c")
    case (Cons a as)
    with Cons.prems(2) have "st' = st" "e \<noteq> []" by auto
    with Cons.prems(1) show ?thesis by blast
  next
    case h: Nil
    let ?d = "dec_pending (nd_Id c) st"
    note d = dec_inv [OF Cons.prems(1)]
    show ?thesis
    proof (cases "map_get (pendingParents ?d) (nd_Id c) = Some 0")
      case False
      with Cons.prems(2) h have "release_children env n cs ?d = (e, st')" by (simp add: Let_def)
      with Cons.IH [of ?d] d False show ?thesis by simp
    next
      case True
      obtain e2 s2 where rn: "runNode env c ?d = (e2, s2)" by force
      from runNode_inv [OF _ rn] d True
      have inv2: "engine_inv {} (if e2 = [] then {} else {nd_Id c}) cs s2" by simp
      show ?thesis
      proof (cases e2)
        case (Cons a as)
        with Cons.prems(2) h True rn inv2 show ?thesis by (auto simp: Let_def)
      next
        case e2: Nil
        with Cons.prems(2) h True rn have "release_children env n cs s2 = (e, st')" by (simp add: Let_def)
        with Cons.IH [of s2] inv2 e2 show ?thesis by simp
      qed
    qed
  qed
qed

end
