(* ===== verification/Runner_Engine_Theorems.thy ===== *)
theory Runner_Engine_Theorems
  imports Runner_Engine_Inv
begin

text \<open>
  What the engine loop guarantees over every sequence of messages: nodes start once, only after
  all parents have produced output and as soon as they have; an acyclic graph runs to the end;
  nodes on a dependency cycle never start.
\<close>

section \<open>The loop keeps the invariant\<close>

definition loose :: "engine \<Rightarrow> bool" where
  "loose st \<longleftrightarrow> (\<exists>cur ready rest. engine_inv cur ready rest st)"

lemma stop_with_loose:
  assumes "loose st"
  shows "\<exists>e st'. stop_with env s err st = Finished e st' \<and> loose st'"
proof -
  obtain e st' where f: "engine_finish env s err st = (e, st')" by force
  from core_finish [OF f] have "engine_inv cur ready rest st' = engine_inv cur ready rest st" for cur ready rest
    by (rule engine_inv_core)
  with assms f show ?thesis by (simp add: stop_with_def loose_def)
qed

lemma begin_result:
  assumes inv: "engine_inv {} {} [] st" and r: "r \<in> set (running st)"
  shows "engine_inv {r} {} [] (st\<lparr>activeCount := activeCount st - 1, running := remove1 r (running st)\<rparr>)"
proof -
  from inv have g: "graph_inv [] st" and s: "start_inv {} {} st" by (simp_all add: engine_inv_def)
  have "graph_inv [] (st\<lparr>activeCount := activeCount st - 1, running := remove1 r (running st)\<rparr>)"
    using g by (simp add: graph_inv_def)
  moreover have "start_inv {r} {} (st\<lparr>activeCount := activeCount st - 1, running := remove1 r (running st)\<rparr>)"
  proof (rule start_invI)
    obtain k where "length (running st) = Suc k" using r by (cases "running st") auto
    then show "activeCount (st\<lparr>activeCount := activeCount st - 1, running := remove1 r (running st)\<rparr>) =
        int (length (running (st\<lparr>activeCount := activeCount st - 1, running := remove1 r (running st)\<rparr>)))"
      using r start_invD(3) [OF s] by (simp add: length_remove1)
  qed (use start_invD [OF s] r in \<open>auto simp: set_remove1_eq\<close>)
  moreover have "order_inv (st\<lparr>activeCount := activeCount st - 1, running := remove1 r (running st)\<rparr>)"
    using inv by (simp add: engine_inv_def order_inv_def)
  ultimately show ?thesis by (simp add: engine_inv_def)
qed

definition outcome_ok :: "engine_outcome \<Rightarrow> bool" where
  "outcome_ok out = (case out of Continue st \<Rightarrow> engine_inv {} {} [] st | Finished e st \<Rightarrow> loose st | Panicked \<Rightarrow> False)"

lemma outcome_stop: "loose st \<Longrightarrow> outcome_ok (stop_with env s err st)"
  using stop_with_loose [of st env s err] by (auto simp: outcome_ok_def)

lemma looseI: "engine_inv cur ready rest st \<Longrightarrow> loose st"
  by (auto simp: loose_def)

lemma idle_outcome:
  assumes "engine_inv {} {} [] st"
  shows "outcome_ok (if activeCount st = 0 then
      (case recordState env RunnerStatusIdle [] False st of
         (e # es, st) \<Rightarrow> stop_with env RunnerStatusFailed (e # es) st
       | ([], st) \<Rightarrow>
           (case emitEvent env (engine_event EventEngineIdle [] DataNil) st of
              (e # es, st) \<Rightarrow> stop_with env RunnerStatusFailed (e # es) st
            | ([], st) \<Rightarrow> Continue st))
     else Continue st)"
proof -
  obtain e1 s1 where r: "recordState env RunnerStatusIdle [] False st = (e1, s1)" by force
  obtain e2 s2 where m: "emitEvent env (engine_event EventEngineIdle [] DataNil) s1 = (e2, s2)" by force
  from assms record_inv [OF r] emit_inv [OF m]
  have "engine_inv {} {} [] s1" "engine_inv {} {} [] s2" by simp_all
  then show ?thesis using assms r m
    by (cases e1; cases e2) (simp_all add: outcome_stop looseI, simp_all add: outcome_ok_def)
qed

lemma handle_result_ok:
  assumes inv: "engine_inv {} {} [] st" and r: "nodeID res \<in> set (running st)"
  shows "outcome_ok (handle_result env res st)"
proof -
  let ?r = "nodeID res"
  let ?s0 = "st\<lparr>activeCount := activeCount st - 1, running := remove1 ?r (running st)\<rparr>"
  from inv have g: "graph_inv [] st" and s: "start_inv {} {} st" by (simp_all add: engine_inv_def)
  from start_invD(7,8) [OF s, of ?r] r have "map_get (pendingParents st) ?r = Some 0" by simp
  from graph_invD(3) [OF g this] obtain n where n: "map_get (nodes st) ?r = Some n" by auto
  note inv0 = begin_result [OF inv r]
  note unfold = handle_result_def n option.case Let_def
  show ?thesis
  proof (cases "res_err res = []")
    case False
    obtain e1 s1 where m: "emitEvent env (engine_event EventNodeFailed ?r (DataErr (res_err res))) ?s0 = (e1, s1)"
      by force
    from emit_inv [OF m] inv0 have "loose s1" by (auto intro: looseI)
    with False m show ?thesis by (simp add: unfold outcome_stop)
  next
    case ok: True
    obtain e1 s1 where a: "addNodesInternal env (newNodes res) ?s0 = (e1, s1)" by force
    from addNodes_inv [OF inv0 a] obtain ready where inv1: "engine_inv {?r} ready [] s1"
      and ready: "e1 = [] \<longrightarrow> ready = {}" by blast
    show ?thesis
    proof (cases e1)
      case (Cons x xs)
      with ok a looseI [OF inv1] show ?thesis by (simp add: unfold outcome_stop)
    next
      case e1: Nil
      let ?s2 = "s1\<lparr>outputs := map_set (outputs s1) ?r (res_output res)\<rparr>"
      from complete_inv inv1 ready e1
      have inv2: "engine_inv {} {} (get_list (children s1) ?r) ?s2" by simp
      obtain e3 s3 where m: "emitEvent env (engine_event EventNodeCompleted ?r (DataOut (res_output res))) ?s2 = (e3, s3)"
        by force
      have ch: "children s3 = children s1" using core_emitEventD [OF m] by (simp add: core_def)
      from emit_inv [OF m] inv2 ch have inv3: "engine_inv {} {} (get_list (children s3) ?r) s3" by simp
      obtain e4 s4 where rel: "release_children env n (get_list (children s3) ?r) s3 = (e4, s4)" by force
      from release_inv [OF inv3 rel] obtain ready4 rest4 where inv4: "engine_inv {} ready4 rest4 s4"
        and fin: "e4 = [] \<longrightarrow> ready4 = {} \<and> rest4 = []" by blast
      have gl: "(case map_get (children s3) ?r of None \<Rightarrow> [] | Some cs \<Rightarrow> cs) = get_list (children s3) ?r"
        by (simp add: get_list_def)
      show ?thesis
      proof (cases e3)
        case (Cons x xs)
        with ok a e1 m looseI [OF inv3] show ?thesis by (simp add: unfold outcome_stop)
      next
        case e3: Nil
        show ?thesis
        proof (cases "memo_snapshot env n")
          case (Cons x xs)
          with ok a e1 m e3 looseI [OF inv3] show ?thesis by (simp add: unfold outcome_stop)
        next
          case memo: Nil
          show ?thesis
          proof (cases e4)
            case (Cons x xs)
            with ok a e1 m e3 memo rel looseI [OF inv4] show ?thesis
              by (simp add: unfold gl outcome_stop)
          next
            case e4: Nil
            with fin inv4 have "engine_inv {} {} [] s4" by simp
            from idle_outcome [OF this, of env] ok a e1 m e3 memo rel e4 show ?thesis
              by (simp add: unfold gl)
          qed
        qed
      qed
    qed
  qed
qed

lemma engine_handle_ok:
  assumes inv: "engine_inv {} {} [] st" and "\<And>res. msg = MsgResult res \<Longrightarrow> nodeID res \<in> set (running st)"
  shows "outcome_ok (engine_handle env msg st)"
proof (cases msg)
  case (MsgAdd ns)
  obtain e s where a: "addNodesInternal env ns st = (e, s)" by force
  from addNodes_inv [OF inv a] obtain ready where r: "engine_inv {} ready [] s" "e = [] \<longrightarrow> ready = {}" by blast
  show ?thesis
  proof (cases e)
    case Nil
    with r a MsgAdd show ?thesis by (simp add: outcome_ok_def)
  next
    case (Cons x xs)
    with looseI [OF r(1)] a MsgAdd show ?thesis by (simp add: outcome_stop)
  qed
qed (use assms looseI [OF inv] handle_result_ok in \<open>auto simp: outcome_stop, auto simp: outcome_ok_def\<close>)

section \<open>Reachable engines\<close>

definition engine_initial :: "engine \<Rightarrow> bool" where
  "engine_initial st \<longleftrightarrow> (\<exists>env prov rs snap. engine_start env prov rs snap = Continue st)"

inductive engine_step :: "engine \<Rightarrow> engine \<Rightarrow> bool" where
  handle: "engine_handle env msg st = Continue st' \<Longrightarrow>
     (\<And>res. msg = MsgResult res \<Longrightarrow> nodeID res \<in> set (running st)) \<Longrightarrow> engine_step st st'"

lemma appendRecord_core: "appendRecord env r st = (e, st') \<Longrightarrow> core st' = core st"
  by (metis core_appendRecord snd_conv)

lemma engine_start_inv:
  assumes "engine_start env prov rs snap = Continue st"
  shows "engine_inv {} {} [] st"
proof -
  let ?s0 = "\<lparr>outputs = [], pendingParents = [], nodes = [], children = [], activeCount = 0,
     running = [], starts = [], events = [], log = [], appends = 0, state = \<lparr>rs_Status = RunnerStatusRunning,
       rs_StartedAt = now_time env, rs_UpdatedAt = now_time env, rs_FinishedAt = 0, rs_Error = []\<rparr>,
     snapshot = snap\<rparr>"
  have inv: "engine_inv {} {} [] ?s0"
    by (simp add: engine_inv_def graph_inv_def start_inv_def get_list_def order_inv_def)
  from assms obtain s1 where "appendRecord env (record_of RunnerRecordInit) ?s0 = ([], s1)"
    "appendRecord env ((record_of RunnerRecordStatus)\<lparr>rec_Status := Some RunnerStatusRunning\<rparr>) s1 = ([], st)"
    by (auto simp: engine_start_def Let_def split: if_splits prod.splits list.splits)
  then have "core st = core ?s0" using appendRecord_core by metis
  with inv engine_inv_core show ?thesis by metis
qed

interpretation engines: inductive_invariant engine_initial engine_step "engine_inv {} {} []"
proof
  show "engine_inv {} {} [] st" if "engine_initial st" for st
    using that engine_start_inv by (auto simp: engine_initial_def)
  show "engine_inv {} {} [] t" if inv: "engine_inv {} {} [] s" and st: "engine_step s t" for s t
    using st
  proof cases
    case (handle env msg)
    have "outcome_ok (engine_handle env msg s)" by (rule engine_handle_ok [OF inv]) (rule handle(2))
    with handle(1) show ?thesis by (simp add: outcome_ok_def)
  qed
qed

lemma inv_started:
  assumes "engine_inv cur ready rest st" "i \<in> set (starts st)"
  shows "\<exists>n. map_get (nodes st) i = Some n \<and> (\<forall>p \<in> set (nd_Parents n). map_has (outputs st) p)"
proof -
  from assms have g: "graph_inv rest st" and s: "start_inv cur ready st" by (simp_all add: engine_inv_def)
  from start_invD(8) [OF s] assms(2) have p: "map_get (pendingParents st) i = Some 0" by simp
  with graph_invD(3) [OF g p] obtain n where n: "map_get (nodes st) i = Some n" by auto
  from graph_invD(2) [OF g n] p have "npend (outputs st) n = 0" by simp
  then have "\<forall>p \<in> set (nd_Parents n). map_has (outputs st) p" by (simp add: npend_def filter_empty_conv)
  with n show ?thesis by blast
qed

lemma inv_ready_started:
  assumes "engine_inv {} {} [] st" "map_get (nodes st) i = Some n" "\<forall>p \<in> set (nd_Parents n). map_has (outputs st) p"
  shows "i \<in> set (starts st)"
proof -
  from assms have g: "graph_inv [] st" and s: "start_inv {} {} st" by (simp_all add: engine_inv_def)
  have "npend (outputs st) n = 0" using assms(3) by (simp add: npend_def filter_empty_conv)
  with graph_invD(2) [OF g assms(2)] have "map_get (pendingParents st) i = Some 0" by simp
  with start_invD(8) [OF s] show ?thesis by simp
qed

section \<open>Properties\<close>

text \<open>C7. Dependency order, for every reachable state of the loop and whatever fails around it:
  a node has been started if and only if it was added and all its parents have produced output,
  no node is started twice, every started node is either running or has its output, and
  \<^verbatim>\<open>activeCount\<close> is the number of running nodes.\<close>

theorem engine_starts_ready_nodes_once:
  assumes "reach engine_initial engine_step st"
  shows "(\<forall>i. i \<in> set (starts st) \<longleftrightarrow>
       (\<exists>n. map_get (nodes st) i = Some n \<and> (\<forall>p \<in> set (nd_Parents n). map_has (outputs st) p)))
    \<and> distinct (starts st)
    \<and> (\<forall>i. i \<in> set (starts st) \<longleftrightarrow> (i \<in> set (running st)) \<noteq> map_has (outputs st) i)
    \<and> activeCount st = int (length (running st))"
proof -
  note inv = engines.reach_inv [OF assms]
  from inv have s: "start_inv {} {} st" by (simp add: engine_inv_def)
  show ?thesis
    using inv_started [OF inv] inv_ready_started [OF inv] start_invD [OF s]
    by (metis map_has_def list.set_map empty_iff)
qed

text \<open>Whatever message arrives and whatever call fails while it is handled, the loop never
  dereferences a missing node, and also in the state it stops in, every node that was started
  had all its parents' outputs and was started once.\<close>

theorem engine_stops_safely:
  assumes "reach engine_initial engine_step st"
    and "\<And>res. msg = MsgResult res \<Longrightarrow> nodeID res \<in> set (running st)"
  shows "case engine_handle env msg st of
      Panicked \<Rightarrow> False
    | Continue st' \<Rightarrow> engine_step st st'
    | Finished err st' \<Rightarrow> distinct (starts st')
        \<and> (\<forall>i \<in> set (starts st'). \<exists>n. map_get (nodes st') i = Some n
              \<and> (\<forall>p \<in> set (nd_Parents n). map_has (outputs st') p))"
proof -
  have ok: "outcome_ok (engine_handle env msg st)"
    by (rule engine_handle_ok [OF engines.reach_inv [OF assms(1)]]) (rule assms(2))
  show ?thesis
  proof (cases "engine_handle env msg st")
    case (Finished err st')
    with ok obtain cur ready rest where inv: "engine_inv cur ready rest st'"
      by (auto simp: outcome_ok_def loose_def)
    then have "distinct (starts st')" by (simp add: engine_inv_def start_inv_def)
    with Finished inv_started [OF inv] show ?thesis by simp
  next
    case (Continue st')
    with assms(2) show ?thesis by (auto intro: handle)
  qed (use ok in \<open>simp add: outcome_ok_def\<close>)
qed

text \<open>C8. An acyclic graph runs to completion: when nothing is running any more (the moment
  \<^verbatim>\<open>EngineIdle\<close> is emitted), every added node has its output, provided every parent was
  added and some rank decreases along dependencies.\<close>

theorem engine_idle_means_complete:
  assumes "reach engine_initial engine_step st" and "activeCount st = 0"
    and "\<And>i n p. map_get (nodes st) i = Some n \<Longrightarrow> p \<in> set (nd_Parents n) \<Longrightarrow>
           map_has (nodes st) p \<and> (rank p :: nat) < rank i"
  shows "map_has (nodes st) i \<longleftrightarrow> map_has (outputs st) i"
proof
  note inv = engines.reach_inv [OF assms(1)]
  from inv have s: "start_inv {} {} st" by (simp add: engine_inv_def)
  have idle: "j \<in> set (starts st) \<Longrightarrow> map_has (outputs st) j" for j
    using start_invD(3,7) [OF s] assms(2) by (auto simp: map_has_def)
  show "map_has (nodes st) i \<Longrightarrow> map_has (outputs st) i"
  proof (induction "rank i" arbitrary: i rule: less_induct)
    case less
    then obtain n where n: "map_get (nodes st) i = Some n" by (auto simp: map_has_iff)
    have "\<forall>p \<in> set (nd_Parents n). map_has (outputs st) p"
      using less.hyps assms(3) [OF n] by blast
    from idle [OF inv_ready_started [OF inv n this]] show ?case .
  qed
  assume "map_has (outputs st) i"
  then have "i \<in> set (starts st)" using start_invD(7) [OF s] by (auto simp: map_has_def)
  then show "map_has (nodes st) i" using inv_started [OF inv] by (auto simp: map_has_iff)
qed

text \<open>Nodes on a dependency cycle never start and never complete, in any reachable state: the
  loop can report \<^verbatim>\<open>EngineIdle\<close> (or never report it) with part of the graph unexecuted.
  The code that builds the graph does not reject cycles.\<close>

theorem engine_cycle_never_starts:
  assumes "reach engine_initial engine_step st"
    and "\<And>i. i \<in> C \<Longrightarrow> \<exists>n p. map_get (nodes st) i = Some n \<and> p \<in> set (nd_Parents n) \<and> p \<in> C"
  shows "C \<inter> set (starts st) = {} \<and> (\<forall>i \<in> C. \<not> map_has (outputs st) i)"
proof -
  note inv = engines.reach_inv [OF assms(1)]
  from inv have s: "start_inv {} {} st" by (simp add: engine_inv_def)
  have outs: "map_has (outputs st) i \<Longrightarrow> i \<in> set (starts st)" for i
    using start_invD(7) [OF s] by (auto simp: map_has_def)
  have "starts st ! k \<notin> C" if "k < length (starts st)" for k
    using that
  proof (induction k rule: less_induct)
    case (less k)
    show ?case
    proof
      assume "starts st ! k \<in> C"
      then obtain n p where n: "map_get (nodes st) (starts st ! k) = Some n"
        and p: "p \<in> set (nd_Parents n)" "p \<in> C" using assms(2) by blast
      from inv n p(1) less.prems have "p \<in> set (take k (starts st))"
        unfolding engine_inv_def order_inv_def by blast
      then obtain j where "j < k" "p = starts st ! j" by (auto simp: in_set_conv_nth)
      with less p(2) show False by auto
    qed
  qed
  then have "C \<inter> set (starts st) = {}" by (auto simp: in_set_conv_nth)
  with outs show ?thesis by blast
qed

section \<open>Concrete runs\<close>

definition ex_env :: engine_env where
  "ex_env = \<lparr>persist = (\<lambda>_. []), prepare_node = (\<lambda>_ _. []), memo_snapshot = (\<lambda>_. []),
     deliver_handoff = (\<lambda>_ _. []), channel_parses = (\<lambda>_. False), now_time = 1\<rparr>"

definition ex_node :: "string \<Rightarrow> string list \<Rightarrow> node" where
  "ex_node i ps = \<lparr>nd_Id = i, nd_SkillName = ''s'', nd_TaskDescription = [], nd_Parents = ps\<rparr>"

definition ex_result :: "string \<Rightarrow> execution_result" where
  "ex_result i = \<lparr>nodeID = i, res_output = OutOpaque ''ok'', newNodes = [], res_err = []\<rparr>"

definition cont :: "engine_outcome \<Rightarrow> engine \<Rightarrow> engine" where
  "cont out d = (case out of Continue st \<Rightarrow> st | _ \<Rightarrow> d)"

definition is_cont :: "engine_outcome \<Rightarrow> bool" where
  "is_cont out = (case out of Continue st \<Rightarrow> True | _ \<Rightarrow> False)"

lemma is_contD: "is_cont out \<Longrightarrow> out = Continue (cont out d)"
  by (simp add: is_cont_def cont_def split: engine_outcome.splits)

definition ex_e0 :: engine where
  "ex_e0 = cont (engine_start ex_env [] \<lparr>rs_Status = RunnerStatusPending, rs_StartedAt = 0, rs_UpdatedAt = 0,
       rs_FinishedAt = 0, rs_Error = []\<rparr> (buildInitialRunnerSnapshot []))
     \<lparr>outputs = [], pendingParents = [], nodes = [], children = [], activeCount = 0,
      running = [], starts = [], events = [], log = [], appends = 0,
      state = \<lparr>rs_Status = RunnerStatusPending, rs_StartedAt = 0, rs_UpdatedAt = 0, rs_FinishedAt = 0, rs_Error = []\<rparr>,
      snapshot = buildInitialRunnerSnapshot []\<rparr>"

definition ex_step :: "engine_msg \<Rightarrow> engine \<Rightarrow> engine" where
  "ex_step msg st = cont (engine_handle ex_env msg st) st"

definition ex_e1 :: engine where "ex_e1 = ex_step (MsgAdd [ex_node ''b'' [''a''], ex_node ''a'' []]) ex_e0"
definition ex_e2 :: engine where "ex_e2 = ex_step (MsgResult (ex_result ''a'')) ex_e1"
definition ex_e3 :: engine where "ex_e3 = ex_step (MsgResult (ex_result ''b'')) ex_e2"

text \<open>A root beside a two-node cycle; the root finishes.\<close>

definition ex_c1 :: engine where
  "ex_c1 = ex_step (MsgAdd [ex_node ''x'' [''y''], ex_node ''y'' [''x''], ex_node ''a'' []]) ex_e0"
definition ex_c2 :: engine where "ex_c2 = ex_step (MsgResult (ex_result ''a'')) ex_c1"

lemma ex_e0_reach: "reach engine_initial engine_step ex_e0"
proof (rule reach_start)
  have "is_cont (engine_start ex_env [] \<lparr>rs_Status = RunnerStatusPending, rs_StartedAt = 0, rs_UpdatedAt = 0,
       rs_FinishedAt = 0, rs_Error = []\<rparr> (buildInitialRunnerSnapshot []))"
    by code_simp
  from is_contD [OF this] show "engine_initial ex_e0" unfolding engine_initial_def ex_e0_def by blast
qed

lemma ex_step_reach:
  assumes "reach engine_initial engine_step st" "is_cont (engine_handle ex_env msg st)"
    "\<And>res. msg = MsgResult res \<Longrightarrow> nodeID res \<in> set (running st)"
  shows "reach engine_initial engine_step (ex_step msg st)"
  using assms(1)
proof (rule reach_step)
  from is_contD [OF assms(2)] assms(3) show "engine_step st (ex_step msg st)"
    unfolding ex_step_def by (rule handle)
qed

lemma ex_evals:
  "is_cont (engine_handle ex_env (MsgAdd [ex_node ''b'' [''a''], ex_node ''a'' []]) ex_e0)"
  "running ex_e1 = [''a'']" "is_cont (engine_handle ex_env (MsgResult (ex_result ''a'')) ex_e1)"
  "running ex_e2 = [''b'']" "is_cont (engine_handle ex_env (MsgResult (ex_result ''b'')) ex_e2)"
  "is_cont (engine_handle ex_env (MsgAdd [ex_node ''x'' [''y''], ex_node ''y'' [''x''], ex_node ''a'' []]) ex_e0)"
  "running ex_c1 = [''a'']" "is_cont (engine_handle ex_env (MsgResult (ex_result ''a'')) ex_c1)"
  by code_simp+

lemma ex_reach:
  "reach engine_initial engine_step ex_e1" "reach engine_initial engine_step ex_e2"
  "reach engine_initial engine_step ex_e3" "reach engine_initial engine_step ex_c2"
proof -
  show e1: "reach engine_initial engine_step ex_e1"
    unfolding ex_e1_def by (rule ex_step_reach [OF ex_e0_reach ex_evals(1)]) simp
  show e2: "reach engine_initial engine_step ex_e2"
    unfolding ex_e2_def by (rule ex_step_reach [OF e1 ex_evals(3)]) (simp add: ex_evals(2) ex_result_def)
  show "reach engine_initial engine_step ex_e3"
    unfolding ex_e3_def by (rule ex_step_reach [OF e2 ex_evals(5)]) (simp add: ex_evals(4) ex_result_def)
  have c1: "reach engine_initial engine_step ex_c1"
    unfolding ex_c1_def by (rule ex_step_reach [OF ex_e0_reach ex_evals(6)]) simp
  show "reach engine_initial engine_step ex_c2"
    unfolding ex_c2_def by (rule ex_step_reach [OF c1 ex_evals(8)]) (simp add: ex_evals(7) ex_result_def)
qed

theorem engine_starts_ready_nodes_once_witness:
  "reach engine_initial engine_step ex_e2 \<and> starts ex_e2 = [''a'', ''b''] \<and> distinct (starts ex_e2)"
proof -
  have "starts ex_e2 = [''a'', ''b'']" by code_simp
  with engine_starts_ready_nodes_once [OF ex_reach(2)] ex_reach(2) show ?thesis by blast
qed

theorem engine_stops_safely_witness:
  "reach engine_initial engine_step ex_e1
   \<and> engine_step ex_e1 ex_e2"
proof -
  have "case engine_handle ex_env (MsgResult (ex_result ''a'')) ex_e1 of
      Panicked \<Rightarrow> False
    | Continue st' \<Rightarrow> engine_step ex_e1 st'
    | Finished err st' \<Rightarrow> distinct (starts st')
        \<and> (\<forall>i \<in> set (starts st'). \<exists>n. map_get (nodes st') i = Some n
              \<and> (\<forall>p \<in> set (nd_Parents n). map_has (outputs st') p))"
    by (rule engine_stops_safely [OF ex_reach(1)]) (simp add: ex_evals(2) ex_result_def)
  moreover have "engine_handle ex_env (MsgResult (ex_result ''a'')) ex_e1 = Continue ex_e2"
    unfolding ex_e2_def ex_step_def by (rule is_contD [OF ex_evals(3)])
  ultimately show ?thesis using ex_reach(1) by (simp only: engine_outcome.case simp_thms)
qed

theorem engine_idle_means_complete_witness:
  "reach engine_initial engine_step ex_e3 \<and> activeCount ex_e3 = 0 \<and> map_has (nodes ex_e3) ''b''
   \<and> map_has (outputs ex_e3) ''b''"
proof -
  have n: "nodes ex_e3 = [(''b'', ex_node ''b'' [''a'']), (''a'', ex_node ''a'' [])]" by code_simp
  have a: "activeCount ex_e3 = 0" by code_simp
  have "map_has (nodes ex_e3) ''b'' \<longleftrightarrow> map_has (outputs ex_e3) ''b''"
    by (rule engine_idle_means_complete [OF ex_reach(3) a, of "\<lambda>i. if i = ''b'' then 1 else 0"])
      (auto simp: n ex_node_def map_has_def split: if_splits)
  with n a ex_reach(3) show ?thesis by (simp add: map_has_def)
qed

theorem engine_cycle_never_starts_witness:
  "reach engine_initial engine_step ex_c2 \<and> map_has (nodes ex_c2) ''x'' \<and> activeCount ex_c2 = 0
   \<and> map re_Type (filter (\<lambda>e. re_Type e = EventEngineIdle) (events ex_c2)) = [EventEngineIdle]
   \<and> \<not> map_has (outputs ex_c2) ''x''"
proof -
  have n: "nodes ex_c2 = [(''x'', ex_node ''x'' [''y'']), (''y'', ex_node ''y'' [''x'']), (''a'', ex_node ''a'' [])]"
    by code_simp
  have "activeCount ex_c2 = 0"
    "map re_Type (filter (\<lambda>e. re_Type e = EventEngineIdle) (events ex_c2)) = [EventEngineIdle]"
    by code_simp+
  moreover have "{''x'', ''y''} \<inter> set (starts ex_c2) = {} \<and> (\<forall>i \<in> {''x'', ''y''}. \<not> map_has (outputs ex_c2) i)"
    by (rule engine_cycle_never_starts [OF ex_reach(4)]) (auto simp: n ex_node_def)
  ultimately show ?thesis using n ex_reach(4) by (simp add: map_has_def)
qed

end
