(* ===== verification/Runner_Lifecycle.thy ===== *)
theory Runner_Lifecycle
  imports Runner_Plan Runner_Engine_Theorems
begin

text \<open>
  \<^verbatim>\<open>runner/lifecycle.go\<close> and the lifecycle half of \<^verbatim>\<open>runner/runner.go\<close>: phases,
  polishing, review decisions, launching the engine, completing, aborting and settling.

  Each method body between its lock and unlock is one transformer on the record \<open>runner\<close>.  The
  goroutines a method starts (the polish stage, the engine, the settle observer) act later, in
  steps of their own: \<open>polish_stage_done\<close>, \<open>settle\<close> after the engine loop returned,
  \<open>settle_observer\<close>.  Emitted phase-change events are kept in \<open>phaseEvents\<close>.
\<close>

section \<open>State\<close>

record runner =
  rn_id :: string
  rn_plan :: "coarse_plan option"
  initialNodes :: "(string, node) gomap"
  rn_state :: runner_state
  rn_phase :: runner_phase
  managedStarted :: bool
  managedStartErr :: go_error
  engineLaunched :: bool
  engineCanceled :: bool
  completedCleanly :: bool
  settleDone :: bool
  doneClosed :: bool
  engineErr :: go_error
  rn_snapshot :: runner_snapshot
  polishJobs :: nat
  polishFragments :: "(string, any_out) gomap option"
  polishErr :: go_error
  reportSummaries :: "(string, any_out) gomap option"
  reportErr :: go_error
  replanReason :: string
  phaseEvents :: "(runner_phase \<times> runner_status) list"

definition pending_state :: runner_state where
  "pending_state = \<lparr>rs_Status = RunnerStatusPending, rs_StartedAt = 0, rs_UpdatedAt = 0,
     rs_FinishedAt = 0, rs_Error = []\<rparr>"

definition runner_New :: "string \<Rightarrow> coarse_plan option \<Rightarrow> (string, node) gomap \<Rightarrow> runner" where
  "runner_New i plan ns =
     (let plan = CloneCoarsePlan plan;
          plan = (case plan of
                    Some p \<Rightarrow> Some (if cp_RunnerID p = [] then p\<lparr>cp_RunnerID := i\<rparr> else p)
                  | None \<Rightarrow> None)
      in \<lparr>rn_id = i, rn_plan = plan, initialNodes = copy_map ns, rn_state = pending_state,
          rn_phase = PhaseCreated, managedStarted = False, managedStartErr = [], engineLaunched = False,
          engineCanceled = False, completedCleanly = False, settleDone = False, doneClosed = False,
          engineErr = [], rn_snapshot = buildInitialRunnerSnapshot (copy_map ns), polishJobs = 0,
          polishFragments = None, polishErr = [], reportSummaries = None, reportErr = [],
          replanReason = [], phaseEvents = []\<rparr>)"

definition emitPhaseChangedEvent :: "runner \<Rightarrow> runner" where
  "emitPhaseChangedEvent r = r\<lparr>phaseEvents := phaseEvents r @ [(rn_phase r, rs_Status (rn_state r))]\<rparr>"

definition transitionPhase :: "runner_phase \<Rightarrow> runner \<Rightarrow> runner" where
  "transitionPhase phase r = r\<lparr>rn_phase := phase\<rparr>"

definition captureEngineErr :: "go_error \<Rightarrow> runner \<Rightarrow> runner" where
  "captureEngineErr err r = (if err = [] then r else if engineErr r = [] then r\<lparr>engineErr := err\<rparr> else r)"

section \<open>Launching\<close>

definition prepareEngineLaunch ::
  "go_error \<Rightarrow> runner_phase \<Rightarrow> (runner \<Rightarrow> runner) \<Rightarrow> runner \<Rightarrow> go_error \<times> runner" where
  "prepareEngineLaunch prep from_phase mutate r =
     (if prep \<noteq> [] then (prep, r)
      else if rs_Status (rn_state r) \<noteq> RunnerStatusPending then ([ErrRunnerAlreadyStarted], r)
      else if rn_phase r \<noteq> from_phase then ([ErrInvalidPhase], r)
      else ([], (mutate r)\<lparr>rn_phase := PhaseExecuting\<rparr>))"

text \<open>\<open>queue\<close>: the error of queueing the initial nodes.\<close>

definition launchEngine :: "go_error \<Rightarrow> runner \<Rightarrow> go_error \<times> runner" where
  "launchEngine queue r =
     (if engineLaunched r then ([ErrRunnerAlreadyStarted], r)
      else
        let r = r\<lparr>engineLaunched := True\<rparr>
        in if queue \<noteq> [] \<and> initialNodes r \<noteq> [] then (queue, r\<lparr>engineCanceled := True\<rparr>) else ([], r))"

definition runner_Start :: "go_error \<Rightarrow> go_error \<Rightarrow> runner \<Rightarrow> go_error \<times> runner" where
  "runner_Start prep queue r =
     (case prepareEngineLaunch prep PhaseCreated (\<lambda>r. r) r of
        (e # es, r) \<Rightarrow> (e # es, r)
      | ([], r) \<Rightarrow> launchEngine queue r)"

definition AcceptPolishedPlan ::
  "go_error \<Rightarrow> go_error \<Rightarrow> coarse_plan option \<Rightarrow> runner \<Rightarrow> go_error \<times> runner" where
  "AcceptPolishedPlan prep queue plan r =
     (case CloneCoarsePlan plan of
        None \<Rightarrow> ([ErrPlanRequired], r)
      | Some p \<Rightarrow>
          let p = (if cp_RunnerID p = [] then p\<lparr>cp_RunnerID := rn_id r\<rparr> else p) in
          (case prepareEngineLaunch prep PhaseAwaitingReview (\<lambda>r. r\<lparr>rn_plan := Some p\<rparr>) r of
             (e # es, r) \<Rightarrow> (e # es, r)
           | ([], r) \<Rightarrow> launchEngine queue r))"

text \<open>The engine goroutine leaves Pending first; this is the guard at the top of \<^verbatim>\<open>runEngine\<close>.\<close>

definition runEngine_enter :: "time \<Rightarrow> runner \<Rightarrow> go_error \<times> runner" where
  "runEngine_enter now r =
     (if rs_Status (rn_state r) \<noteq> RunnerStatusPending then ([ErrRunnerAlreadyStarted], r)
      else ([], emitPhaseChangedEvent
                  (r\<lparr>rn_state := \<lparr>rs_Status = RunnerStatusRunning, rs_StartedAt = now, rs_UpdatedAt = now,
                                  rs_FinishedAt = 0, rs_Error = []\<rparr>\<rparr>)))"

section \<open>Polishing and review\<close>

definition StartPolish :: "go_error \<Rightarrow> runner \<Rightarrow> go_error \<times> runner" where
  "StartPolish prep r =
     (if prep \<noteq> [] then (prep, r)
      else if rn_plan r = None then ([ErrPlanRequired], r)
      else if rn_phase r \<noteq> PhaseCreated \<and> rn_phase r \<noteq> PhaseAwaitingReplan then ([ErrInvalidPhase], r)
      else ([], emitPhaseChangedEvent (r\<lparr>rn_phase := PhasePolishing, polishJobs := polishJobs r + 1\<rparr>)))"

definition RejectPolishedPlan :: "string \<Rightarrow> runner \<Rightarrow> go_error \<times> runner" where
  "RejectPolishedPlan reason r =
     (if rn_phase r \<noteq> PhaseAwaitingReview then ([ErrInvalidPhase], r)
      else ([], emitPhaseChangedEvent (r\<lparr>rn_phase := PhaseAwaitingReplan, replanReason := reason\<rparr>)))"

definition ReplanWith ::
  "go_error \<Rightarrow> coarse_plan option \<Rightarrow> (string, node) gomap \<Rightarrow> runner \<Rightarrow> go_error \<times> runner" where
  "ReplanWith prep plan ns r =
     (case CloneCoarsePlan plan of
        None \<Rightarrow> ([ErrPlanRequired], r)
      | Some p \<Rightarrow>
          let p = (if cp_RunnerID p = [] then p\<lparr>cp_RunnerID := rn_id r\<rparr> else p);
              ns = copy_map ns
          in if prep \<noteq> [] then (prep, r)
             else if rn_phase r \<noteq> PhaseAwaitingReplan then ([ErrInvalidPhase], r)
             else ([], emitPhaseChangedEvent
                         (r\<lparr>rn_plan := Some p, initialNodes := ns, rn_phase := PhasePolishing,
                            rn_snapshot := buildInitialRunnerSnapshot ns, polishFragments := None,
                            polishErr := [], reportSummaries := None, reportErr := [],
                            replanReason := [], polishJobs := polishJobs r + 1\<rparr>)))"

text \<open>
  Fan-out over agents: the goroutines finish in the order of the list, which stands for any
  order.  \<open>agent i\<close> is \<open>None\<close> for a node without an agent, else its result; \<open>memo\<close> the error of
  the memo snapshot.
\<close>

fun fanOut ::
  "string \<Rightarrow> (string \<Rightarrow> (go_error + any_out) option) \<Rightarrow> (string \<Rightarrow> go_error) \<Rightarrow> string list
     \<Rightarrow> (string, any_out) gomap \<Rightarrow> go_error \<Rightarrow> (string, any_out) gomap \<times> go_error" where
  "fanOut label agent memo [] frags firstErr = (frags, firstErr)"
| "fanOut label agent memo (i # is) frags firstErr =
     (let keep = (\<lambda>e. if firstErr = [] then map (\<lambda>m. label @ i @ '': '' @ m) e else firstErr) in
      case agent i of
        None \<Rightarrow> fanOut label agent memo is frags firstErr
      | Some (Inl e) \<Rightarrow> fanOut label agent memo is frags (keep e)
      | Some (Inr v) \<Rightarrow>
          if memo i \<noteq> [] then fanOut label agent memo is frags (keep (memo i))
          else fanOut label agent memo is (map_set frags i v) firstErr)"

definition fanOutPolish ::
  "(string \<Rightarrow> (go_error + any_out) option) \<Rightarrow> (string \<Rightarrow> go_error) \<Rightarrow> (string, node) gomap
     \<Rightarrow> (string, any_out) gomap \<times> go_error" where
  "fanOutPolish agent memo ns =
     (if ns = [] then ([], []) else fanOut ''polish '' agent memo (map fst ns) [] [])"

definition missing_agent :: "string \<Rightarrow> string" where
  "missing_agent i = ''report '' @ i @ '': missing agent''"

text \<open>\<^verbatim>\<open>fanOutReport\<close>: a completed node without an agent is an error, set before any goroutine's.\<close>

definition fanOutReport ::
  "(string \<Rightarrow> (go_error + any_out) option) \<Rightarrow> (string \<Rightarrow> go_error) \<Rightarrow> (string, any_out) gomap
     \<Rightarrow> (string, any_out) gomap \<times> go_error" where
  "fanOutReport agent memo outs =
     (if outs = [] then ([], [])
      else
        let missing = filter (\<lambda>i. agent i = None) (map fst outs);
            firstErr = (case missing of [] \<Rightarrow> [] | i # _ \<Rightarrow> [missing_agent i])
        in fanOut ''report '' agent memo (map fst outs) [] firstErr)"

section \<open>Aborting, settling, completing\<close>

definition Abort :: "time \<Rightarrow> go_error \<Rightarrow> runner \<Rightarrow> runner" where
  "Abort now runErr r =
     (let status = (if error_Is runErr errCanceled \<or> error_Is runErr errDeadline
                    then RunnerStatusCanceled else RunnerStatusFailed);
          r = r\<lparr>rn_state := \<lparr>rs_Status = status, rs_StartedAt = 0, rs_UpdatedAt = now,
                             rs_FinishedAt = now, rs_Error = error_text runErr\<rparr>,
                rn_phase := PhaseSettled\<rparr>
      in emitPhaseChangedEvent (captureEngineErr runErr r))"

text \<open>\<^verbatim>\<open>runPolishStage\<close> once its fan-out has returned.\<close>

definition polish_stage_done ::
  "time \<Rightarrow> (string, any_out) gomap \<times> go_error \<Rightarrow> runner \<Rightarrow> runner" where
  "polish_stage_done now res r =
     (case res of (fragments, err) \<Rightarrow>
        let r = r\<lparr>polishFragments := Some fragments, polishErr := err, polishJobs := polishJobs r - 1\<rparr>
        in if err \<noteq> [] then Abort now err r
           else emitPhaseChangedEvent (transitionPhase PhaseAwaitingReview r))"

definition runReportStage ::
  "(string \<Rightarrow> (go_error + any_out) option) \<Rightarrow> (string \<Rightarrow> go_error) \<Rightarrow> runner \<Rightarrow> runner" where
  "runReportStage agent memo r =
     (let r = emitPhaseChangedEvent (transitionPhase PhaseReport r) in
      (case fanOutReport agent memo (CompletedNodes (cloneRunnerSnapshot (rn_snapshot r))) of
         (summaries, err) \<Rightarrow>
           captureEngineErr err (r\<lparr>reportSummaries := Some summaries, reportErr := err\<rparr>)))"

text \<open>\<open>settle\<close>, called with what the engine loop returned; the loop has left its state and
  snapshot in the runner.\<close>

definition settle ::
  "time \<Rightarrow> (string \<Rightarrow> (go_error + any_out) option) \<Rightarrow> (string \<Rightarrow> go_error) \<Rightarrow> go_error \<Rightarrow> runner \<Rightarrow> runner" where
  "settle now agent memo err r =
     (if settleDone r then r
      else
        let r = r\<lparr>settleDone := True\<rparr>;
            graceful = (completedCleanly r \<and> error_Is err errCanceled);
            runErr = (if graceful then [] else err);
            r = (if graceful
                 then r\<lparr>rn_state := \<lparr>rs_Status = RunnerStatusIdle, rs_StartedAt = 0, rs_UpdatedAt = now,
                                     rs_FinishedAt = now, rs_Error = []\<rparr>\<rparr>
                 else r);
            r = captureEngineErr runErr r;
            r = (if runErr = [] \<and> CloneCoarsePlan (rn_plan r) \<noteq> None then runReportStage agent memo r else r)
        in emitPhaseChangedEvent (transitionPhase PhaseSettled r))"

text \<open>\<^verbatim>\<open>Complete\<close> up to its \<^verbatim>\<open>Wait\<close>.\<close>

definition Complete :: "runner \<Rightarrow> go_error \<times> runner" where
  "Complete r =
     (if rn_phase r \<noteq> PhaseExecuting then ([ErrInvalidPhase], r)
      else ([], r\<lparr>completedCleanly := True, engineCanceled := engineCanceled r \<or> engineLaunched r\<rparr>))"

definition StartManaged :: "time \<Rightarrow> go_error \<Rightarrow> runner \<Rightarrow> go_error \<times> runner" where
  "StartManaged now ctxErr r =
     (if ctxErr \<noteq> [] then (ctxErr, Abort now ctxErr r)
      else if managedStarted r then ([ErrRunnerAlreadyStarted], r)
      else
        let r = r\<lparr>managedStarted := True\<rparr>;
            err = (if rn_plan r = None then [ErrPlanRequired]
                   else if rn_phase r \<noteq> PhaseCreated then [ErrInvalidPhase] else [])
        in (err, r\<lparr>managedStartErr := err\<rparr>))"

text \<open>The settle observer: on a phase event, close \<^verbatim>\<open>done\<close> when the phase is now Settled.\<close>

definition settle_observer :: "runner \<Rightarrow> runner" where
  "settle_observer r = (if rn_phase r = PhaseSettled then r\<lparr>doneClosed := True\<rparr> else r)"

text \<open>\<^verbatim>\<open>Wait\<close>, with the runner at its first and at its second \<^verbatim>\<open>select\<close>; \<open>None\<close> while neither
  channel is ready.  When both are ready at the second one, Go chooses: \<open>pick\<close>.\<close>

definition runner_Wait :: "bool \<Rightarrow> go_error \<Rightarrow> runner \<Rightarrow> runner \<Rightarrow> go_error option" where
  "runner_Wait pick ctxErr r later =
     (if doneClosed r then Some (engineErr r)
      else if doneClosed later \<and> (ctxErr = [] \<or> pick) then Some (engineErr later)
      else if ctxErr \<noteq> [] then Some ctxErr
      else None)"

end
