(* ===== verification/Runner_Lifecycle_Theorems.thy ===== *)
theory Runner_Lifecycle_Theorems
  imports Runner_Lifecycle
begin

text \<open>
  The lifecycle over every interleaving of calls and goroutine steps: a runner that settled once
  never executes, the first error is the one \<^verbatim>\<open>Wait\<close> reports, a clean completion ends Idle
  after the report stage; and two places where the code falls short of its documentation.
\<close>

section \<open>Steps\<close>

inductive runner_step :: "runner \<Rightarrow> runner \<Rightarrow> bool" where
  step_start: "runner_Start prep queue r = (e, r') \<Longrightarrow> runner_step r r'"
| step_accept: "AcceptPolishedPlan prep queue plan r = (e, r') \<Longrightarrow> runner_step r r'"
| step_polish: "StartPolish prep r = (e, r') \<Longrightarrow> runner_step r r'"
| step_reject: "RejectPolishedPlan reason r = (e, r') \<Longrightarrow> runner_step r r'"
| step_replan: "ReplanWith prep plan ns r = (e, r') \<Longrightarrow> runner_step r r'"
| step_managed: "StartManaged now ctxErr r = (e, r') \<Longrightarrow> runner_step r r'"
| step_complete: "Complete r = (e, r') \<Longrightarrow> runner_step r r'"
| step_abort: "err \<noteq> [] \<Longrightarrow> runner_step r (Abort now err r)"
| step_polished: "0 < polishJobs r \<Longrightarrow> runner_step r (polish_stage_done now res r)"
| step_engine: "engineLaunched r \<Longrightarrow> runEngine_enter now r = (e, r') \<Longrightarrow> runner_step r r'"
| step_engine_state: "engineLaunched r \<Longrightarrow> rs_Status st \<noteq> RunnerStatusPending \<Longrightarrow>
    rs_Status (rn_state r) \<noteq> RunnerStatusPending \<Longrightarrow>
    runner_step r (r\<lparr>rn_state := st, rn_snapshot := snap\<rparr>)"
| step_settle: "engineLaunched r \<Longrightarrow> rs_Status (rn_state r) \<noteq> RunnerStatusPending \<Longrightarrow>
    runner_step r (settle now agent memo err r)"
| step_observe: "runner_step r (settle_observer r)"

definition runner_start :: "runner \<Rightarrow> bool" where
  "runner_start r \<longleftrightarrow> (\<exists>i plan ns. r = runner_New i plan ns)"

definition settled_once :: "runner \<Rightarrow> bool" where
  "settled_once r \<longleftrightarrow> PhaseSettled \<in> fst ` set (phaseEvents r)"

definition runner_inv :: "runner \<Rightarrow> bool" where
  "runner_inv r \<longleftrightarrow>
     (settled_once r \<longrightarrow> rs_Status (rn_state r) \<noteq> RunnerStatusPending)
     \<and> (doneClosed r \<longrightarrow> settled_once r)
     \<and> (rn_phase r = PhaseSettled \<longrightarrow> settled_once r)"

lemmas lifecycle_defs = emitPhaseChangedEvent_def transitionPhase_def captureEngineErr_def Let_def
  settled_once_def

lemma launchEngine_keeps:
  "launchEngine q r = (e, r') \<Longrightarrow> rn_state r' = rn_state r \<and> phaseEvents r' = phaseEvents r
     \<and> doneClosed r' = doneClosed r \<and> rn_phase r' = rn_phase r \<and> engineErr r' = engineErr r"
  by (auto simp: launchEngine_def Let_def split: if_splits)

lemma prepareEngineLaunch_keeps:
  assumes "prepareEngineLaunch prep ph (\<lambda>r. r\<lparr>rn_plan := pl r\<rparr>) r = (e, r')"
  shows "rn_state r' = rn_state r \<and> phaseEvents r' = phaseEvents r \<and> doneClosed r' = doneClosed r
     \<and> engineErr r' = engineErr r
     \<and> (rn_phase r' = rn_phase r \<or> rn_phase r' = PhaseExecuting)"
  using assms by (auto simp: prepareEngineLaunch_def split: if_splits)

lemma start_eq: "runner_Start prep queue r =
   (case prepareEngineLaunch prep PhaseCreated (\<lambda>r. r\<lparr>rn_plan := rn_plan r\<rparr>) r of
      (e # es, r) \<Rightarrow> (e # es, r) | ([], r) \<Rightarrow> launchEngine queue r)"
  by (simp add: runner_Start_def)

lemma launch_keeps:
  assumes "(case prepareEngineLaunch prep ph (\<lambda>r. r\<lparr>rn_plan := pl r\<rparr>) r of
      (e # es, r) \<Rightarrow> (e # es, r) | ([], r) \<Rightarrow> launchEngine queue r) = (e, r')"
  shows "rn_state r' = rn_state r \<and> phaseEvents r' = phaseEvents r \<and> doneClosed r' = doneClosed r
     \<and> engineErr r' = engineErr r \<and> (rn_phase r' = rn_phase r \<or> rn_phase r' = PhaseExecuting)"
proof -
  obtain e1 r1 where p: "prepareEngineLaunch prep ph (\<lambda>r. r\<lparr>rn_plan := pl r\<rparr>) r = (e1, r1)" by force
  note k = prepareEngineLaunch_keeps [OF p]
  show ?thesis
  proof (cases e1)
    case Nil
    with assms p have "launchEngine queue r1 = (e, r')" by simp
    from launchEngine_keeps [OF this] k show ?thesis by simp
  next
    case Cons
    with assms p k show ?thesis by simp
  qed
qed

lemma accept_keeps:
  assumes "AcceptPolishedPlan prep queue plan r = (e, r')"
  shows "rn_state r' = rn_state r \<and> phaseEvents r' = phaseEvents r \<and> doneClosed r' = doneClosed r
     \<and> engineErr r' = engineErr r \<and> (rn_phase r' = rn_phase r \<or> rn_phase r' = PhaseExecuting)"
proof (cases "CloneCoarsePlan plan")
  case None
  with assms show ?thesis by (simp add: AcceptPolishedPlan_def)
next
  case (Some p)
  with assms show ?thesis by (intro launch_keeps) (simp add: AcceptPolishedPlan_def Let_def)
qed

lemma inv_same:
  assumes "runner_inv r" "rn_state r' = rn_state r" "phaseEvents r' = phaseEvents r"
    "doneClosed r' = doneClosed r" "rn_phase r' = rn_phase r \<or> rn_phase r' = PhaseExecuting"
  shows "runner_inv r'"
  using assms by (auto simp: runner_inv_def settled_once_def)

lemma Abort_inv: "runner_inv (Abort now err r)"
  by (simp add: runner_inv_def Abort_def lifecycle_defs)

lemma Abort_keeps: "doneClosed r \<Longrightarrow> settled_once (Abort now err r)"
  by (simp add: Abort_def lifecycle_defs)

lemma runReport_keeps:
  "rn_state (runReportStage agent memo r) = rn_state r"
  "doneClosed (runReportStage agent memo r) = doneClosed r"
  by (simp_all add: runReportStage_def lifecycle_defs split: prod.splits)

lemma capture_keeps [simp]:
  "rn_state (captureEngineErr e r) = rn_state r" "doneClosed (captureEngineErr e r) = doneClosed r"
  "phaseEvents (captureEngineErr e r) = phaseEvents r" "rn_phase (captureEngineErr e r) = rn_phase r"
  by (simp_all add: captureEngineErr_def)

lemma settle_inv:
  assumes "runner_inv r" "rs_Status (rn_state r) \<noteq> RunnerStatusPending"
  shows "runner_inv (settle now agent memo err r)"
proof (cases "settleDone r")
  case True
  with assms show ?thesis by (simp add: settle_def)
next
  case False
  have "runner_inv (emitPhaseChangedEvent (transitionPhase PhaseSettled q))"
    if "rs_Status (rn_state q) \<noteq> RunnerStatusPending" for q
    using that by (simp add: runner_inv_def emitPhaseChangedEvent_def transitionPhase_def settled_once_def)
  with assms False show ?thesis
    by (simp add: settle_def Let_def runReport_keeps)
qed

lemma polished_inv:
  assumes "runner_inv r"
  shows "runner_inv (polish_stage_done now res r)"
proof -
  obtain frags err where res: "res = (frags, err)" by force
  show ?thesis
    using assms Abort_inv
    by (cases "err = []") (simp_all add: polish_stage_done_def res Let_def runner_inv_def
        emitPhaseChangedEvent_def transitionPhase_def settled_once_def)
qed

interpretation runners: inductive_invariant runner_start runner_step runner_inv
proof
  show "runner_inv r" if "runner_start r" for r
    using that by (auto simp: runner_start_def runner_inv_def runner_New_def settled_once_def pending_state_def Let_def)
  show "runner_inv r'" if inv: "runner_inv r" and st: "runner_step r r'" for r r'
    using st
  proof cases
    case (step_start prep queue e)
    from launch_keeps [OF step_start [unfolded start_eq]] inv show ?thesis by (blast intro: inv_same)
  next
    case (step_accept prep queue plan e)
    from accept_keeps [OF step_accept] inv show ?thesis by (blast intro: inv_same)
  next
    case step_settle
    with inv show ?thesis by (simp add: settle_inv)
  next
    case step_polished
    with inv show ?thesis by (simp add: polished_inv)
  next
    case step_abort
    then show ?thesis by (simp add: Abort_inv)
  next
    case (step_managed now ctxErr e)
    with inv Abort_inv show ?thesis
      by (auto simp: StartManaged_def Let_def runner_inv_def settled_once_def split: if_splits)
  next
    case (step_replan prep plan ns e)
    with inv show ?thesis
      by (auto simp: ReplanWith_def Let_def runner_inv_def settled_once_def emitPhaseChangedEvent_def
          split: if_splits option.splits)
  qed (use inv in \<open>auto simp: StartPolish_def RejectPolishedPlan_def Complete_def runEngine_enter_def
      settle_observer_def runner_inv_def settled_once_def emitPhaseChangedEvent_def split: if_splits\<close>)
qed

section \<open>Properties\<close>

text \<open>C10. Once a runner has settled, by \<^verbatim>\<open>Abort\<close> or after its engine returned, no later
  call launches an engine: \<^verbatim>\<open>Start\<close>, \<^verbatim>\<open>AcceptPolishedPlan\<close> and the engine's own
  entry all fail and change nothing, in every interleaving.\<close>

theorem settled_runner_never_executes:
  assumes "reach runner_start runner_step r" and "settled_once r"
  shows "(\<exists>e es. runner_Start prep queue r = (e # es, r))
    \<and> (\<exists>e es. AcceptPolishedPlan prep queue plan r = (e # es, r))
    \<and> runEngine_enter now r = ([ErrRunnerAlreadyStarted], r)"
proof -
  have st: "rs_Status (rn_state r) \<noteq> RunnerStatusPending"
    using runners.reach_inv [OF assms(1)] assms(2) by (simp add: runner_inv_def)
  have fails: "\<exists>e es. prepareEngineLaunch prep ph f r = (e # es, r)" for ph f
    using st by (cases prep) (auto simp: prepareEngineLaunch_def)
  have "\<exists>e es. runner_Start prep queue r = (e # es, r)"
    using fails [of PhaseCreated "\<lambda>r. r"] by (auto simp: runner_Start_def)
  moreover have "\<exists>e es. AcceptPolishedPlan prep queue plan r = (e # es, r)"
  proof (cases "CloneCoarsePlan plan")
    case (Some p)
    let ?f = "rn_plan_update (\<lambda>_. Some (if cp_RunnerID p = [] then p\<lparr>cp_RunnerID := rn_id r\<rparr> else p))"
    obtain e es where "prepareEngineLaunch prep PhaseAwaitingReview ?f r = (e # es, r)" using fails by blast
    with Some show ?thesis by (simp add: AcceptPolishedPlan_def Let_def)
  qed (simp add: AcceptPolishedPlan_def)
  ultimately show ?thesis using st by (simp add: runEngine_enter_def)
qed

lemma capture_first: "engineErr r \<noteq> [] \<Longrightarrow> engineErr (captureEngineErr e r) = engineErr r"
  by (simp add: captureEngineErr_def)

lemma Abort_first: "engineErr r \<noteq> [] \<Longrightarrow> engineErr (Abort now e r) = engineErr r"
  by (simp add: Abort_def Let_def emitPhaseChangedEvent_def capture_first)

lemma settle_first: "engineErr r \<noteq> [] \<Longrightarrow> engineErr (settle now agent memo e r) = engineErr r"
  by (simp add: settle_def Let_def emitPhaseChangedEvent_def transitionPhase_def runReportStage_def
      capture_first split: prod.splits)

lemma step_first_error:
  assumes "runner_step r r'" "engineErr r \<noteq> []"
  shows "engineErr r' = engineErr r"
  using assms(1)
proof cases
  case (step_start prep queue e)
  from launch_keeps [OF step_start [unfolded start_eq]] show ?thesis by simp
next
  case (step_accept prep queue plan e)
  from accept_keeps [OF step_accept] show ?thesis by simp
next
  case (step_managed now ctxErr e)
  with assms(2) Abort_first show ?thesis
    by (auto simp: StartManaged_def Let_def split: if_splits)
next
  case (step_polished now res)
  with assms(2) show ?thesis
    by (cases res) (simp add: polish_stage_done_def Let_def emitPhaseChangedEvent_def transitionPhase_def Abort_first)
next
  case (step_replan prep plan ns e)
  then show ?thesis
    by (auto simp: ReplanWith_def Let_def emitPhaseChangedEvent_def split: if_splits option.splits)
qed (use assms(2) Abort_first settle_first in \<open>auto simp: StartPolish_def RejectPolishedPlan_def Complete_def
    runEngine_enter_def settle_observer_def emitPhaseChangedEvent_def split: if_splits\<close>)

text \<open>C11. \<^verbatim>\<open>Wait\<close> reports the first error: once an error has been captured, whatever is
  called and whatever goroutine runs afterwards, a settled runner's \<^verbatim>\<open>Wait\<close> returns exactly
  that error, also when the caller's context has ended.\<close>

theorem wait_reports_first_error:
  assumes "runner_step\<^sup>*\<^sup>* r r'" and "engineErr r = e" and "e \<noteq> []" and "doneClosed r'"
  shows "runner_Wait pick ctxErr r' later = Some e"
proof -
  have "engineErr r' = e"
    using assms(1-3) by (induction rule: rtranclp_induct) (auto simp: step_first_error)
  with assms(4) show ?thesis by (simp add: runner_Wait_def)
qed

lemma fanOut_success:
  assumes "\<forall>i \<in> set is. \<exists>v. agent i = Some (Inr v) \<and> memo i = []"
  shows "snd (fanOut label agent memo is frags firstErr) = firstErr
    \<and> fst ` set (fst (fanOut label agent memo is frags firstErr)) = fst ` set frags \<union> set is"
  using assms
proof (induction "is" arbitrary: frags)
  case (Cons i "is")
  then obtain v where "agent i = Some (Inr v)" "memo i = []" by auto
  with Cons.IH [of "map_set frags i v"] Cons.prems show ?case by (simp add: Let_def)
qed simp

lemma fanOutReport_success:
  assumes "\<forall>i \<in> fst ` set outs. \<exists>v. agent i = Some (Inr v) \<and> memo i = []"
  shows "snd (fanOutReport agent memo outs) = [] \<and> fst ` set (fst (fanOutReport agent memo outs)) = fst ` set outs"
proof (cases "outs = []")
  case False
  have "filter (\<lambda>i. agent i = None) (map fst outs) = []"
    using assms by (auto simp: filter_empty_conv)
  with fanOut_success [of "map fst outs" agent memo "''report ''" "[]" "[]"] assms False show ?thesis
    by (simp add: fanOutReport_def Let_def)
qed (simp add: fanOutReport_def)

text \<open>The happy path: \<^verbatim>\<open>Complete\<close> on an executing runner, followed by the engine's
  return on cancellation, gathers a report for every completed node, passes through the report
  phase and settles Idle; \<^verbatim>\<open>Wait\<close> then returns nil.\<close>

theorem clean_completion:
  assumes "rn_phase r = PhaseExecuting" and "\<not> settleDone r" and "engineErr r = []" and "rn_plan r \<noteq> None"
    and "error_Is err errCanceled" and "map_ok (CompletedNodes (rn_snapshot r))"
    and "\<forall>i \<in> fst ` set (CompletedNodes (rn_snapshot r)). \<exists>v. agent i = Some (Inr v) \<and> memo i = []"
    and "Complete r = (e, r1)"
  shows "e = [] \<and>
    (let r2 = settle now agent memo err r1 in
       rs_Status (rn_state r2) = RunnerStatusIdle \<and> rn_phase r2 = PhaseSettled \<and> engineErr r2 = []
       \<and> phaseEvents r2 = phaseEvents r @ [(PhaseReport, RunnerStatusIdle), (PhaseSettled, RunnerStatusIdle)]
       \<and> (\<exists>sums. reportSummaries r2 = Some sums
            \<and> fst ` set sums = fst ` set (CompletedNodes (rn_snapshot r)))
       \<and> runner_Wait pick ctxErr (settle_observer r2) later = Some [])"
proof -
  let ?outs = "CompletedNodes (rn_snapshot r)"
  obtain sums rerr where f: "fanOutReport agent memo ?outs = (sums, rerr)" by force
  from fanOutReport_success [OF assms(7)] f have ok: "rerr = []" "fst ` set sums = fst ` set ?outs" by simp_all
  have clone: "CompletedNodes (cloneRunnerSnapshot (rn_snapshot r)) = ?outs"
    using assms(6) by (simp add: cloneRunnerSnapshot_def copy_map_eq)
  have plan: "CloneCoarsePlan (rn_plan r) \<noteq> None" using assms(4) by (auto simp: CloneCoarsePlan_def)
  have c: "e = []" "r1 = r\<lparr>completedCleanly := True, engineCanceled := engineCanceled r \<or> engineLaunched r\<rparr>"
    using assms(1,8) by (auto simp: Complete_def)
  show ?thesis
    unfolding c Let_def
    using assms(2,3,5) plan f ok clone
    by (simp add: settle_def runReportStage_def captureEngineErr_def emitPhaseChangedEvent_def
        transitionPhase_def Let_def settle_observer_def runner_Wait_def)
qed

section \<open>Where the code and its documentation part\<close>

lemma transition_canceled:
  "rs_Error st \<noteq> error_text [errCanceled] \<or> rs_FinishedAt st = 0 \<Longrightarrow>
   \<exists>s. transitionState now RunnerStatusCanceled [errCanceled] True st = (s, True)
     \<and> rs_Status s = RunnerStatusCanceled \<and> rs_Error s = errCanceled"
  by (auto simp: transitionState_def Let_def)

text \<open>A run that completed successfully is persisted as canceled: when
  \<^verbatim>\<open>Complete\<close> cancels the engine, the loop's last status record in the store is
  \<^verbatim>\<open>canceled\<close> with the error text of the cancellation, while the runner itself settles
  with status Idle and no later record corrects the log.\<close>

theorem completed_run_persisted_as_canceled:
  assumes "\<forall>n. persist env n = []" and "rs_FinishedAt (state st) = 0"
    and "completedCleanly r" and "\<not> settleDone r"
  shows "\<exists>err st' rc xs. engine_handle env (MsgCancel [errCanceled]) st = Finished err st'
     \<and> filter (\<lambda>rc. rec_Kind rc = RunnerRecordStatus) (log st') = xs @ [rc]
     \<and> rec_Status rc = Some RunnerStatusCanceled \<and> rec_Error rc = errCanceled
     \<and> rs_Status (rn_state (settle now agent memo err r)) = RunnerStatusIdle"
proof -
  from transition_canceled [of "state st" "now_time env"] assms(2) obtain s where
    s: "transitionState (now_time env) RunnerStatusCanceled [errCanceled] True (state st) = (s, True)"
    "rs_Status s = RunnerStatusCanceled" "rs_Error s = errCanceled" by blast
  obtain e st' where f: "engine_finish env RunnerStatusCanceled [errCanceled] st = (e, st')" by force
  with s assms(1) have e: "e = [errCanceled]"
    and l: "log st' = log st @ [(record_of RunnerRecordStatus)\<lparr>rec_Status := Some RunnerStatusCanceled,
        rec_Error := errCanceled, Seq := int (length (log st)) + 1\<rparr>,
       (record_of RunnerRecordEvent)\<lparr>rec_Event := Some (newStoredRunnerEvent (channel_parses env)
          (engine_event EventEngineStopped [] DataNil)), Seq := int (length (log st)) + 2\<rparr>]"
    by (auto simp: engine_finish_def recordState_def appendRecord_def emitEvent_def Let_def record_of_def)
  have "rs_Status (rn_state (settle now agent memo e r)) = RunnerStatusIdle"
    using assms(3,4) by (simp add: e settle_def Let_def error_Is_def emitPhaseChangedEvent_def
        transitionPhase_def runReport_keeps)
  with f l show ?thesis
    by (intro exI [of _ e] exI [of _ st']) (simp add: stop_with_def record_of_def)
qed

text \<open>\<^verbatim>\<open>PhaseSettled\<close> is not terminal: a runner aborted while its polish stage is
  running closes \<^verbatim>\<open>Done\<close>, and when the outstanding polish calls then return without an
  error the phase goes back to awaiting review, with a phase event after the settled one.\<close>

theorem abort_during_polish_reverts_phase:
  assumes "rn_plan r \<noteq> None" and "rn_phase r = PhaseCreated" and "StartPolish [] r = (e, r1)"
  shows "let r2 = settle_observer (Abort now err r1); r3 = polish_stage_done later (frags, []) r2
    in e = [] \<and> doneClosed r2 \<and> rn_phase r2 = PhaseSettled
      \<and> doneClosed r3 \<and> rn_phase r3 = PhaseAwaitingReview
      \<and> map fst (phaseEvents r3) = map fst (phaseEvents r) @ [PhasePolishing, PhaseSettled, PhaseAwaitingReview]"
  using assms
  by (auto simp: StartPolish_def Abort_def captureEngineErr_def emitPhaseChangedEvent_def settle_observer_def
      polish_stage_done_def transitionPhase_def Let_def)

section \<open>Concrete runners\<close>

definition ex_plan1 :: coarse_plan where
  "ex_plan1 = \<lparr>cp_Request = ''r'', cp_RunnerID = [],
     cp_Nodes = [\<lparr>cn_ID = ''a'', cn_SkillName = ''s'', cn_TaskDescription = ''t'', cn_DependsOn = []\<rparr>]\<rparr>"

definition ex_runner :: runner where
  "ex_runner = runner_New ''r1'' (Some ex_plan1) [(''a'', ex_node ''a'' [])]"

lemma ex_runner_facts: "rn_plan ex_runner \<noteq> None" "rn_phase ex_runner = PhaseCreated"
  "engineErr ex_runner = []" "\<not> settleDone ex_runner"
  by (simp_all add: ex_runner_def runner_New_def CloneCoarsePlan_def Let_def)

lemma ex_abort_reach: "reach runner_start runner_step (Abort 1 [errCanceled] ex_runner)"
  by (rule reach_step [OF reach_start])
    (auto simp: runner_start_def ex_runner_def intro: step_abort)

theorem settled_runner_never_executes_witness:
  "settled_once (Abort 1 [errCanceled] ex_runner)
   \<and> runEngine_enter 2 (Abort 1 [errCanceled] ex_runner)
       = ([ErrRunnerAlreadyStarted], Abort 1 [errCanceled] ex_runner)"
proof -
  have s: "settled_once (Abort 1 [errCanceled] ex_runner)"
    by (simp add: Abort_def lifecycle_defs)
  from settled_runner_never_executes [OF ex_abort_reach s] s show ?thesis by blast
qed

theorem wait_reports_first_error_witness:
  "runner_Wait False [errDeadline] (settle_observer (Abort 2 [''second''] (Abort 1 [''first''] ex_runner))) ex_runner = Some [''first'']"
proof (rule wait_reports_first_error)
  let ?a = "Abort 1 [''first''] ex_runner"
  have "runner_step ?a (Abort 2 [''second''] ?a)" by (rule step_abort) simp
  then show "runner_step\<^sup>*\<^sup>* ?a (settle_observer (Abort 2 [''second''] ?a))"
    by (meson r_into_rtranclp rtranclp.rtrancl_into_rtrancl step_observe)
  show "engineErr ?a = [''first'']"
    by (simp add: Abort_def lifecycle_defs ex_runner_facts)
qed (simp_all add: settle_observer_def Abort_def lifecycle_defs)

definition ex_exec :: runner where
  "ex_exec = ex_runner\<lparr>rn_phase := PhaseExecuting, engineLaunched := True,
     rn_state := \<lparr>rs_Status = RunnerStatusRunning, rs_StartedAt = 1, rs_UpdatedAt = 1, rs_FinishedAt = 0, rs_Error = []\<rparr>,
     rn_snapshot := (buildInitialRunnerSnapshot [])\<lparr>CompletedNodes := [(''a'', OutOpaque ''ok'')]\<rparr>\<rparr>"

theorem clean_completion_witness:
  "let r2 = settle 5 (\<lambda>_. Some (Inr (OutOpaque ''sum''))) (\<lambda>_. []) [errCanceled] (snd (Complete ex_exec))
   in rs_Status (rn_state r2) = RunnerStatusIdle \<and> rn_phase r2 = PhaseSettled"
proof -
  obtain e r1 where c: "Complete ex_exec = (e, r1)" by force
  have "e = [] \<and>
    (let r2 = settle 5 (\<lambda>_. Some (Inr (OutOpaque ''sum''))) (\<lambda>_. []) [errCanceled] r1 in
       rs_Status (rn_state r2) = RunnerStatusIdle \<and> rn_phase r2 = PhaseSettled \<and> engineErr r2 = []
       \<and> phaseEvents r2 = phaseEvents ex_exec @ [(PhaseReport, RunnerStatusIdle), (PhaseSettled, RunnerStatusIdle)]
       \<and> (\<exists>sums. reportSummaries r2 = Some sums
            \<and> fst ` set sums = fst ` set (CompletedNodes (rn_snapshot ex_exec)))
       \<and> runner_Wait True [] (settle_observer r2) ex_exec = Some [])"
    by (rule clean_completion [OF _ _ _ _ _ _ _ c])
      (simp_all add: ex_exec_def ex_runner_facts error_Is_def map_ok_def)
  with c show ?thesis by (simp add: Let_def)
qed

theorem completed_run_persisted_as_canceled_witness:
  "\<exists>err st' rc xs. engine_handle ex_env (MsgCancel [errCanceled]) ex_e1 = Finished err st'
     \<and> filter (\<lambda>rc. rec_Kind rc = RunnerRecordStatus) (log st') = xs @ [rc]
     \<and> rec_Status rc = Some RunnerStatusCanceled \<and> rec_Error rc = errCanceled
     \<and> rs_Status (rn_state (settle 5 (\<lambda>_. None) (\<lambda>_. []) err (snd (Complete ex_exec)))) = RunnerStatusIdle"
proof (rule completed_run_persisted_as_canceled)
  show "\<forall>n. persist ex_env n = []" by (simp add: ex_env_def)
  show "rs_FinishedAt (state ex_e1) = 0" by code_simp
qed (simp_all add: Complete_def ex_exec_def ex_runner_facts)

theorem abort_during_polish_reverts_phase_witness:
  "let r1 = snd (StartPolish [] ex_runner);
       r3 = polish_stage_done 3 ([], []) (settle_observer (Abort 2 [errCanceled] r1))
   in doneClosed r3 \<and> rn_phase r3 = PhaseAwaitingReview"
proof -
  obtain e r1 where p: "StartPolish [] ex_runner = (e, r1)" by force
  from abort_during_polish_reverts_phase [OF ex_runner_facts(1,2) p, of 2 "[errCanceled]" 3 "[]"] p
  show ?thesis by (simp add: Let_def)
qed

end
