(* ===== verification/Start_Queue.thy ===== *)
theory Start_Queue
  imports Go_Heap Runner_Lifecycle_Theorems
begin

text \<open>
  \<^verbatim>\<open>orchestrator/queue.go\<close> and the callers of it in \<^verbatim>\<open>orchestrator/orchestrator.go\<close>: how
  the orchestrator throttles runner starts.

  Queue entries are shared objects that are marked canceled while still in the heap, so the
  state keeps them in a store \<open>entries\<close> and the heap holds indices into it.  \<open>objs\<close> are the
  runner objects, \<open>registered\<close> the keys of the orchestrator's \<^verbatim>\<open>runners\<close> map.  Sections that
  run under \<^verbatim>\<open>o.mu\<close> are the functions named \<open>..._locked\<close>; a whole method is their
  composition.  The state of an entry's context is its field \<open>qr_ctxErr\<close>.
\<close>

section \<open>State\<close>

record queued_runner =
  qr_runner :: string
  qr_priority :: int
  qr_order :: u64
  qr_canceled :: bool
  qr_done :: bool
  qr_ctxErr :: go_error

record dispatcher =
  maxRunningRunners :: int
  runningRunnerIDs :: "string list"
  entries :: "queued_runner list"
  queuedRunners :: "nat list"
  queuedRunnerByID :: "(string, nat) gomap"
  nextQueueOrder :: u64
  objs :: "(string, runner) gomap"
  registered :: "string list"

definition priority_valid :: "int \<Rightarrow> bool" where
  "priority_valid p \<longleftrightarrow> p \<ge> 0 \<and> p \<le> 4"

definition SetMaxRunningRunners :: "int \<Rightarrow> bool \<Rightarrow> dispatcher \<Rightarrow> string option \<times> dispatcher" where
  "SetMaxRunningRunners limit configLocked d =
     (if limit < 0 then (Some ''orchestrate: max running runners must be non-negative'', d)
      else if configLocked
      then (Some ''orchestrate: SetMaxRunningRunners can only be called during startup'', d)
      else (None, d\<lparr>maxRunningRunners := limit\<rparr>))"

text \<open>\<^verbatim>\<open>Less\<close> on entries: higher priority first, then submission order.\<close>

definition entry_less :: "queued_runner \<Rightarrow> queued_runner \<Rightarrow> bool" where
  "entry_less a b =
     (if qr_priority a = qr_priority b then qr_order a < qr_order b else qr_priority a > qr_priority b)"

definition queue_less :: "queued_runner list \<Rightarrow> nat \<Rightarrow> nat \<Rightarrow> bool" where
  "queue_less es i j = entry_less (es ! i) (es ! j)"

definition upd_entry :: "nat \<Rightarrow> (queued_runner \<Rightarrow> queued_runner) \<Rightarrow> dispatcher \<Rightarrow> dispatcher" where
  "upd_entry p f d = (if p < length (entries d) then d\<lparr>entries := (entries d)[p := f (entries d ! p)]\<rparr> else d)"

definition deactivate :: "queued_runner \<Rightarrow> queued_runner" where
  "deactivate e = e\<lparr>qr_done := True\<rparr>"

definition add_running :: "string \<Rightarrow> dispatcher \<Rightarrow> dispatcher" where
  "add_running i d = d\<lparr>runningRunnerIDs :=
     (if i \<in> set (runningRunnerIDs d) then runningRunnerIDs d else runningRunnerIDs d @ [i])\<rparr>"

definition has_slot :: "dispatcher \<Rightarrow> bool" where
  "has_slot d \<longleftrightarrow> maxRunningRunners d = 0 \<or> int (length (runningRunnerIDs d)) < maxRunningRunners d"

section \<open>Popping and collecting\<close>

function popQueuedRunnerLocked :: "dispatcher \<Rightarrow> nat option \<times> dispatcher" where
  "popQueuedRunnerLocked d =
     (case heap_Pop (queue_less (entries d)) (queuedRunners d) of
        None \<Rightarrow> (None, d)
      | Some (p, h) \<Rightarrow>
          let d = d\<lparr>queuedRunners := h\<rparr>
          in if qr_canceled (entries d ! p) then popQueuedRunnerLocked d else (Some p, d))"
  by pat_completeness auto
termination
  by (relation "measure (\<lambda>d. length (queuedRunners d))") (auto dest: heap_Pop_length)

declare popQueuedRunnerLocked.simps [simp del]

lemma popQueued_length:
  "popQueuedRunnerLocked d = (Some p, d') \<Longrightarrow> length (queuedRunners d') < length (queuedRunners d)"
proof (induction d rule: popQueuedRunnerLocked.induct)
  case (1 d)
  show ?case
  proof (cases "heap_Pop (queue_less (entries d)) (queuedRunners d)")
    case None
    with "1.prems" show ?thesis by (simp add: popQueuedRunnerLocked.simps [of d])
  next
    case (Some a)
    obtain q h where a: "a = (q, h)" by force
    from heap_Pop_length [OF Some [unfolded a]] have l: "length h < length (queuedRunners d)" by simp
    show ?thesis
    proof (cases "qr_canceled (entries d ! q)")
      case True
      with "1.prems" Some a have "popQueuedRunnerLocked (d\<lparr>queuedRunners := h\<rparr>) = (Some p, d')"
        by (simp add: popQueuedRunnerLocked.simps [of d])
      from "1.IH" [OF Some a [symmetric] refl _ this] True l show ?thesis by simp
    next
      case False
      with "1.prems" Some a have "d' = d\<lparr>queuedRunners := h\<rparr>"
        by (simp add: popQueuedRunnerLocked.simps [of d])
      with l show ?thesis by simp
    qed
  qed
qed

lemma popQueued_le: "length (queuedRunners (snd (popQueuedRunnerLocked d))) \<le> length (queuedRunners d)"
proof (induction d rule: popQueuedRunnerLocked.induct)
  case (1 d)
  show ?case
  proof (cases "heap_Pop (queue_less (entries d)) (queuedRunners d)")
    case None
    then show ?thesis by (simp add: popQueuedRunnerLocked.simps [of d])
  next
    case (Some a)
    obtain q h where a: "a = (q, h)" by force
    from heap_Pop_length [OF Some [unfolded a]] "1.IH" [OF Some a [symmetric] refl] Some a show ?thesis
      by (simp add: popQueuedRunnerLocked.simps [of d] Let_def le_SucI)
  qed
qed

function collectQueuedStartsLocked ::
  "nat list \<Rightarrow> nat list \<Rightarrow> dispatcher \<Rightarrow> nat list \<times> nat list \<times> dispatcher" where
  "collectQueuedStartsLocked toStart toCancel d =
     (if \<not> has_slot d then (toStart, toCancel, d)
      else
        (case popQueuedRunnerLocked d of
           (None, d') \<Rightarrow> (toStart, toCancel, d')
         | (Some p, d') \<Rightarrow>
             let i = qr_runner (entries d' ! p);
                 d1 = upd_entry p deactivate (d'\<lparr>queuedRunnerByID := map_delete (queuedRunnerByID d') i\<rparr>)
             in if qr_canceled (entries d1 ! p) then collectQueuedStartsLocked toStart toCancel d1
                else if qr_ctxErr (entries d1 ! p) \<noteq> [] then
                  collectQueuedStartsLocked toStart (toCancel @ [p])
                    (upd_entry p (\<lambda>e. e\<lparr>qr_canceled := True\<rparr>) d1)
                else
                  collectQueuedStartsLocked (toStart @ [p]) toCancel
                    (if maxRunningRunners d1 > 0 then add_running i d1 else d1)))"
  by pat_completeness auto
termination
proof (relation "measure (\<lambda>(_, _, d). length (queuedRunners d))", goal_cases)
  case (2 toStart toCancel d x d' p i d1)
  from popQueued_length [of d p d'] 2 show ?case by (simp add: upd_entry_def)
next
  case (3 toStart toCancel d x d' p i d1)
  from popQueued_length [of d p d'] 3 show ?case by (simp add: upd_entry_def)
next
  case (4 toStart toCancel d x d' p i d1)
  from popQueued_length [of d p d'] 4 show ?case by (simp add: upd_entry_def add_running_def)
qed simp

declare collectQueuedStartsLocked.simps [simp del]

section \<open>Locked sections\<close>

definition submit_locked :: "string \<Rightarrow> int \<Rightarrow> go_error \<Rightarrow> dispatcher \<Rightarrow> bool \<times> dispatcher" where
  "submit_locked i priority ctxErr d =
     (if has_slot d then (True, if maxRunningRunners d > 0 then add_running i d else d)
      else
        let p = length (entries d);
            entry = \<lparr>qr_runner = i, qr_priority = priority, qr_order = nextQueueOrder d,
                     qr_canceled = False, qr_done = False, qr_ctxErr = ctxErr\<rparr>;
            es = entries d @ [entry]
        in (False, d\<lparr>entries := es, nextQueueOrder := nextQueueOrder d + 1,
                     queuedRunners := heap_Push (queue_less es) (queuedRunners d) p,
                     queuedRunnerByID := map_set (queuedRunnerByID d) i p\<rparr>))"

definition unqueue_locked :: "string \<Rightarrow> dispatcher \<Rightarrow> dispatcher" where
  "unqueue_locked i d =
     (case map_get (queuedRunnerByID d) i of
        None \<Rightarrow> d
      | Some p \<Rightarrow>
          upd_entry p (\<lambda>e. deactivate (e\<lparr>qr_canceled := True\<rparr>))
            (d\<lparr>queuedRunnerByID := map_delete (queuedRunnerByID d) i\<rparr>))"

text \<open>Giving a slot back, in \<^verbatim>\<open>releaseRunnerExecutionSlot\<close> and when a start fails.\<close>

definition free_slot_locked :: "string \<Rightarrow> dispatcher \<Rightarrow> nat list \<times> nat list \<times> dispatcher" where
  "free_slot_locked i d =
     collectQueuedStartsLocked [] [] (d\<lparr>runningRunnerIDs := removeAll i (runningRunnerIDs d)\<rparr>)"

definition removeQueuedRunner :: "nat \<Rightarrow> bool \<Rightarrow> dispatcher \<Rightarrow> nat list \<times> nat list \<times> dispatcher" where
  "removeQueuedRunner p canceled d =
     (let i = qr_runner (entries d ! p) in
      if map_get (queuedRunnerByID d) i \<noteq> Some p then ([], [], d)
      else
        let d = (if canceled then upd_entry p (\<lambda>e. e\<lparr>qr_canceled := True\<rparr>) d else d);
            d = upd_entry p deactivate (d\<lparr>queuedRunnerByID := map_delete (queuedRunnerByID d) i\<rparr>)
        in collectQueuedStartsLocked [] [] d)"

section \<open>Runner objects\<close>

definition get_obj :: "dispatcher \<Rightarrow> string \<Rightarrow> runner" where
  "get_obj d i = (case map_get (objs d) i of None \<Rightarrow> runner_New i None [] | Some r \<Rightarrow> r)"

definition set_obj :: "string \<Rightarrow> runner \<Rightarrow> dispatcher \<Rightarrow> dispatcher" where
  "set_obj i r d = d\<lparr>objs := map_set (objs d) i r\<rparr>"

definition abort_obj :: "time \<Rightarrow> string \<Rightarrow> go_error \<Rightarrow> dispatcher \<Rightarrow> dispatcher" where
  "abort_obj now i err d = set_obj i (Abort now err (get_obj d i)) d"

definition abort_entries :: "time \<Rightarrow> nat list \<Rightarrow> dispatcher \<Rightarrow> dispatcher" where
  "abort_entries now ps d =
     fold (\<lambda>p d. abort_obj now (qr_runner (entries d ! p)) (qr_ctxErr (entries d ! p)) d) ps d"

section \<open>Methods\<close>

text \<open>
  One \<^verbatim>\<open>startManagedRunner\<close> up to the entries it must start next: its error, those entries,
  the state after the aborts.  \<^verbatim>\<open>finishQueuedDispatch\<close> starts them before anything else, so
  the mutual recursion of the two methods is the depth-first worklist \<open>run_starts\<close>.
\<close>

definition start_one :: "time \<Rightarrow> go_error \<Rightarrow> string \<Rightarrow> dispatcher \<Rightarrow> go_error \<times> nat list \<times> dispatcher" where
  "start_one now ctxErr i d =
     (let d = unqueue_locked i d in
      case StartManaged now ctxErr (get_obj d i) of
        (err, r) \<Rightarrow>
          let d = set_obj i r d in
          if err = [] then ([], [], d)
          else
            (case free_slot_locked i d of (toStart, toCancel, d) \<Rightarrow>
               let d = (if rs_Status (rn_state (get_obj d i)) = RunnerStatusPending
                        then abort_obj now i err d else d)
               in (err, toStart, abort_entries now toCancel d)))"

lemma collect_length:
  "collectQueuedStartsLocked ts tc d = (ts', tc', d') \<Longrightarrow>
   length (queuedRunners d') + length ts' \<le> length (queuedRunners d) + length ts"
proof (induction ts tc d rule: collectQueuedStartsLocked.induct)
  case (1 ts tc d)
  show ?case
  proof (cases "has_slot d")
    case False
    with "1.prems" show ?thesis by (simp add: collectQueuedStartsLocked.simps [of ts tc d])
  next
    case slot: True
    obtain o1 d1 where p: "popQueuedRunnerLocked d = (o1, d1)" by force
    show ?thesis
    proof (cases o1)
      case None
      from popQueued_le [of d] None "1.prems" slot p show ?thesis
        by (simp add: collectQueuedStartsLocked.simps [of ts tc d])
    next
      case (Some q)
      from popQueued_length [OF p [unfolded Some]] have l: "length (queuedRunners d1) < length (queuedRunners d)" .
      have len: "length (queuedRunners (upd_entry a f e)) = length (queuedRunners e)"
        "length (queuedRunners (add_running b e)) = length (queuedRunners e)" for a f e b
        by (simp_all add: upd_entry_def add_running_def)
      from "1.prems" slot p Some "1.IH" [OF _ p [symmetric] Some refl refl] l show ?thesis
        by (auto simp: collectQueuedStartsLocked.simps [of ts tc d] Let_def len split: if_splits)
    qed
  qed
qed

lemma abort_entries_queue [simp]: "queuedRunners (abort_entries now ps d) = queuedRunners d"
  unfolding abort_entries_def
  by (induction ps arbitrary: d) (simp_all add: abort_obj_def set_obj_def)

lemma start_one_length:
  "start_one now ctxErr i d = (err, later, d') \<Longrightarrow>
   length (queuedRunners d') + length later \<le> length (queuedRunners d)"
proof -
  have u: "queuedRunners (unqueue_locked i d) = queuedRunners d"
    by (simp add: unqueue_locked_def upd_entry_def split: option.splits)
  assume "start_one now ctxErr i d = (err, later, d')"
  then show ?thesis
    using u by (auto simp: start_one_def Let_def free_slot_locked_def set_obj_def abort_obj_def
        split: prod.splits if_splits dest!: collect_length)
qed

function run_starts :: "time \<Rightarrow> nat list \<Rightarrow> dispatcher \<Rightarrow> dispatcher" where
  "run_starts now [] d = d"
| "run_starts now (p # ps) d =
     (case start_one now (qr_ctxErr (entries d ! p)) (qr_runner (entries d ! p)) d of
        (_, later, d') \<Rightarrow> run_starts now (later @ ps) d')"
  by pat_completeness auto
termination
  by (relation "measure (\<lambda>(_, ps, d). 2 * length (queuedRunners d) + length ps)")
    (auto dest!: start_one_length [OF sym])

declare run_starts.simps [simp del]

definition finishQueuedDispatch :: "time \<Rightarrow> nat list \<Rightarrow> nat list \<Rightarrow> dispatcher \<Rightarrow> dispatcher" where
  "finishQueuedDispatch now toStart toCancel d = run_starts now toStart (abort_entries now toCancel d)"

definition startManagedRunner :: "time \<Rightarrow> go_error \<Rightarrow> string \<Rightarrow> dispatcher \<Rightarrow> go_error \<times> dispatcher" where
  "startManagedRunner now ctxErr i d =
     (case start_one now ctxErr i d of (err, later, d) \<Rightarrow> (err, run_starts now later d))"

definition submitManagedRunner ::
  "time \<Rightarrow> go_error \<Rightarrow> string \<Rightarrow> int \<Rightarrow> dispatcher \<Rightarrow> go_error \<times> dispatcher" where
  "submitManagedRunner now ctxErr i priority d =
     (if ctxErr \<noteq> [] then (ctxErr, abort_obj now i ctxErr d)
      else
        (case submit_locked i priority ctxErr d of
           (True, d) \<Rightarrow> startManagedRunner now ctxErr i d
         | (False, d) \<Rightarrow> ([], d)))"

definition cancelQueuedRunner :: "time \<Rightarrow> nat \<Rightarrow> dispatcher \<Rightarrow> dispatcher" where
  "cancelQueuedRunner now p d =
     (case removeQueuedRunner p True d of (toStart, toCancel, d) \<Rightarrow>
        finishQueuedDispatch now toStart toCancel
          (abort_obj now (qr_runner (entries d ! p)) (qr_ctxErr (entries d ! p)) d))"

definition releaseRunnerExecutionSlot :: "time \<Rightarrow> string \<Rightarrow> dispatcher \<Rightarrow> dispatcher" where
  "releaseRunnerExecutionSlot now i d =
     (case free_slot_locked i d of (toStart, toCancel, d) \<Rightarrow> finishQueuedDispatch now toStart toCancel d)"

datatype remove_error = EmptyRunnerID | ErrRunnerNotFound | ErrRunnerActive | StoreError string

text \<open>
  \<^verbatim>\<open>RemoveRunner\<close> checks the runner under the read lock, deletes the persisted log (\<open>del\<close>: its
  error other than not found) and checks again in the locked section that removes the runner.
\<close>

definition remove_locked :: "time \<Rightarrow> string \<Rightarrow> dispatcher \<Rightarrow> remove_error option \<times> dispatcher" where
  "remove_locked now i d =
     (if i \<notin> set (registered d) then (Some ErrRunnerNotFound, d)
      else if \<not> IsRemovable (rn_state (get_obj d i)) then (Some ErrRunnerActive, d)
      else
        let d = unqueue_locked i d;
            d = d\<lparr>registered := removeAll i (registered d)\<rparr>
        in (case collectQueuedStartsLocked [] [] d of (toStart, toCancel, d) \<Rightarrow>
              (None, finishQueuedDispatch now toStart toCancel d)))"

definition RemoveRunner ::
  "time \<Rightarrow> string option \<Rightarrow> string \<Rightarrow> dispatcher \<Rightarrow> remove_error option \<times> dispatcher" where
  "RemoveRunner now del i d =
     (if i = [] then (Some EmptyRunnerID, d)
      else if i \<notin> set (registered d) then (Some ErrRunnerNotFound, d)
      else if \<not> IsRemovable (rn_state (get_obj d i)) then (Some ErrRunnerActive, d)
      else (case del of Some e \<Rightarrow> (Some (StoreError e), d) | None \<Rightarrow> remove_locked now i d))"

definition StartRunner :: "time \<Rightarrow> go_error \<Rightarrow> string \<Rightarrow> dispatcher \<Rightarrow> (remove_error + go_error) \<times> dispatcher" where
  "StartRunner now ctxErr i d =
     (if i = [] then (Inl EmptyRunnerID, d)
      else if i \<notin> set (registered d) then (Inl ErrRunnerNotFound, d)
      else (case startManagedRunner now ctxErr i d of (e, d) \<Rightarrow> (Inr e, d)))"

end
