(* ===== verification/Start_Queue_Theorems.thy ===== *)
theory Start_Queue_Theorems
  imports Start_Queue
begin

text \<open>
  Throttling: the limit on running runners holds in every interleaving of the locked sections,
  no live entry waits while a slot is free, and entries leave in priority order.
\<close>

section \<open>The start queue is a priority queue\<close>

lemma queue_less_weak: "weak_order (queue_less es)"
  by (auto simp: weak_order_def queue_less_def entry_less_def split: if_splits)

lemma queue_less_irrefl: "\<not> queue_less es i i"
  by (simp add: queue_less_def entry_less_def)

interpretation start_queue: priority_queue
  "queue_less es" "heap_Push (queue_less es)" "heap_Pop (queue_less es)" mset
  "\<lambda>h. heap_inv (queue_less es) h (length h)" for es
proof
  show "heap_inv (queue_less es) (heap_Push (queue_less es) h x) (length (heap_Push (queue_less es) h x))
      \<and> mset (heap_Push (queue_less es) h x) = add_mset x (mset h)"
    if "heap_inv (queue_less es) h (length h)" for h x
    using heap_Push_ok [OF queue_less_weak that] .
  show "heap_inv (queue_less es) h' (length h') \<and> mset h = add_mset x (mset h')
      \<and> (\<forall>y \<in># mset h'. \<not> queue_less es y x)"
    if "heap_inv (queue_less es) h (length h)" "heap_Pop (queue_less es) h = Some (x, h')" for h x h'
    using heap_Pop_ok [OF queue_less_weak that] .
  show "mset h = {#}" if "heap_inv (queue_less es) h (length h)" "heap_Pop (queue_less es) h = None" for h
    using that by (simp add: heap_Pop_None)
qed

section \<open>Invariant\<close>

definition live :: "dispatcher \<Rightarrow> nat \<Rightarrow> bool" where
  "live d p \<longleftrightarrow> p \<in> set (queuedRunners d) \<and> \<not> qr_canceled (entries d ! p)"

definition queue_wf :: "dispatcher \<Rightarrow> bool" where
  "queue_wf d \<longleftrightarrow>
     0 \<le> maxRunningRunners d \<and> distinct (runningRunnerIDs d)
     \<and> int (length (runningRunnerIDs d)) \<le> maxRunningRunners d
     \<and> heap_inv (queue_less (entries d)) (queuedRunners d) (length (queuedRunners d))
     \<and> (\<forall>p \<in> set (queuedRunners d). p < length (entries d))"

definition work_conserving :: "dispatcher \<Rightarrow> bool" where
  "work_conserving d \<longleftrightarrow> (\<forall>p. live d p \<longrightarrow> \<not> has_slot d)"

text \<open>Changing flags of an entry keeps its keys, so the heap order stays.\<close>

lemma heap_inv_keys:
  assumes "heap_inv (queue_less es) h n" "length es' = length es"
    "\<And>i. i < length es \<Longrightarrow> qr_priority (es' ! i) = qr_priority (es ! i) \<and> qr_order (es' ! i) = qr_order (es ! i)"
    "\<And>i. i < n \<Longrightarrow> h ! i < length es"
  shows "heap_inv (queue_less es') h n"
  unfolding heap_inv_def
proof (intro allI impI)
  fix i assume i: "0 < i \<and> i < n"
  with parent_less [of i] have "parent i < n" by simp
  with i assms(4) have b: "h ! i < length es" "h ! parent i < length es" by simp_all
  have "queue_less es' (h ! i) (h ! parent i) = queue_less es (h ! i) (h ! parent i)"
    using assms(3) [OF b(1)] assms(3) [OF b(2)] by (simp add: queue_less_def entry_less_def)
  with i assms(1) show "\<not> queue_less es' (h ! i) (h ! parent i)" by (simp add: heap_inv_def)
qed

lemma upd_entry_fields [simp]:
  "maxRunningRunners (upd_entry p f d) = maxRunningRunners d"
  "runningRunnerIDs (upd_entry p f d) = runningRunnerIDs d"
  "queuedRunners (upd_entry p f d) = queuedRunners d"
  "queuedRunnerByID (upd_entry p f d) = queuedRunnerByID d"
  "length (entries (upd_entry p f d)) = length (entries d)"
  by (simp_all add: upd_entry_def)

lemma upd_entry_nth:
  "i < length (entries d) \<Longrightarrow> entries (upd_entry p f d) ! i = (if i = p then f (entries d ! i) else entries d ! i)"
  by (simp add: upd_entry_def nth_list_update)

lemma upd_entry_wf:
  assumes "queue_wf d" "\<And>e. qr_priority (f e) = qr_priority e \<and> qr_order (f e) = qr_order e"
  shows "queue_wf (upd_entry p f d)"
proof -
  have "heap_inv (queue_less (entries (upd_entry p f d))) (queuedRunners d) (length (queuedRunners d))"
  proof (rule heap_inv_keys)
    show "heap_inv (queue_less (entries d)) (queuedRunners d) (length (queuedRunners d))"
      using assms(1) by (simp add: queue_wf_def)
    show "queuedRunners d ! i < length (entries d)" if "i < length (queuedRunners d)" for i
      using assms(1) that by (simp add: queue_wf_def)
    show "qr_priority (entries (upd_entry p f d) ! i) = qr_priority (entries d ! i)
        \<and> qr_order (entries (upd_entry p f d) ! i) = qr_order (entries d ! i)" if "i < length (entries d)" for i
      using assms(2) by (simp add: upd_entry_nth [OF that])
  qed simp
  with assms(1) show ?thesis by (simp add: queue_wf_def)
qed

lemma upd_entry_live:
  assumes "queue_wf d" "\<And>e. qr_canceled e \<Longrightarrow> qr_canceled (f e)" "live (upd_entry p f d) q"
  shows "live d q"
proof -
  from assms(1,3) have q: "q < length (entries d)" by (auto simp: live_def queue_wf_def)
  show ?thesis using assms(2,3) upd_entry_nth [OF q, of p f] by (auto simp: live_def split: if_splits)
qed

lemma pop_spec:
  assumes "queue_wf d" "popQueuedRunnerLocked d = (o1, d')"
  shows "queue_wf d' \<and> entries d' = entries d \<and> runningRunnerIDs d' = runningRunnerIDs d
    \<and> maxRunningRunners d' = maxRunningRunners d \<and> queuedRunnerByID d' = queuedRunnerByID d
    \<and> (case o1 of
         None \<Rightarrow> queuedRunners d' = [] \<and> (\<forall>q. \<not> live d q)
       | Some p \<Rightarrow> live d p \<and> p < length (entries d)
           \<and> (\<forall>q. live d q \<longrightarrow> q = p \<or> (live d' q \<and> \<not> queue_less (entries d) q p))
           \<and> (\<forall>q. live d' q \<longrightarrow> live d q))"
  using assms
proof (induction d rule: popQueuedRunnerLocked.induct)
  case (1 d)
  let ?less = "queue_less (entries d)"
  have inv: "heap_inv ?less (queuedRunners d) (length (queuedRunners d))"
    using "1.prems"(1) by (simp add: queue_wf_def)
  show ?case
  proof (cases "heap_Pop ?less (queuedRunners d)")
    case None
    then have "queuedRunners d = []" by (simp add: heap_Pop_None)
    with "1.prems" None show ?thesis by (auto simp: popQueuedRunnerLocked.simps [of d] live_def)
  next
    case (Some a)
    obtain p h where a: "a = (p, h)" by force
    note pop = start_queue.pop_ok [OF inv Some [unfolded a]]
    then have m: "mset (queuedRunners d) = add_mset p (mset h)" by blast
    then have set: "set (queuedRunners d) = insert p (set h)" by (metis set_mset_add_mset_insert set_mset_mset)
    have least: "\<not> ?less q p" if "q \<in> set h" for q using pop that by simp
    let ?d = "d\<lparr>queuedRunners := h\<rparr>"
    have wf: "queue_wf ?d" using "1.prems"(1) pop set by (simp add: queue_wf_def)
    have p: "p < length (entries d)" using "1.prems"(1) set by (simp add: queue_wf_def)
    show ?thesis
    proof (cases "qr_canceled (entries d ! p)")
      case True
      with "1.prems"(2) Some a have "popQueuedRunnerLocked ?d = (o1, d')"
        by (simp add: popQueuedRunnerLocked.simps [of d])
      note ih = "1.IH" [OF Some a [symmetric] refl _ wf this]
      have "live d q \<longleftrightarrow> live ?d q" for q using True set by (auto simp: live_def)
      with ih True show ?thesis by (simp split: option.splits)
    next
      case False
      with "1.prems"(2) Some a have eq: "o1 = Some p" "d' = ?d"
        by (simp_all add: popQueuedRunnerLocked.simps [of d])
      have "live d q \<longrightarrow> q = p \<or> (live ?d q \<and> \<not> ?less q p)" for q
        using set least by (auto simp: live_def)
      moreover have "live ?d q \<longrightarrow> live d q" for q using set by (auto simp: live_def)
      moreover have "live d p" using set False by (simp add: live_def)
      ultimately show ?thesis using wf p by (simp add: eq)
    qed
  qed
qed

section \<open>Collecting\<close>

text \<open>What an entry is sorted and dispatched by; only its flags ever change.\<close>

definition entry_key :: "queued_runner \<Rightarrow> string \<times> int \<times> u64 \<times> go_error" where
  "entry_key e = (qr_runner e, qr_priority e, qr_order e, qr_ctxErr e)"

definition same_keys :: "dispatcher \<Rightarrow> dispatcher \<Rightarrow> bool" where
  "same_keys d d' \<longleftrightarrow> map entry_key (entries d') = map entry_key (entries d)"

lemma same_keys_refl [simp]: "same_keys d d"
  by (simp add: same_keys_def)

lemma same_keys_trans: "same_keys a b \<Longrightarrow> same_keys b c \<Longrightarrow> same_keys a c"
  by (simp add: same_keys_def)

lemma same_keys_upd:
  assumes "\<And>e. entry_key (f e) = entry_key e"
  shows "same_keys d (upd_entry p f d)"
  unfolding same_keys_def
  by (rule nth_equalityI) (auto simp: upd_entry_nth assms)

lemma same_keys_nth:
  assumes "same_keys d d'" "p < length (entries d)"
  shows "entry_key (entries d' ! p) = entry_key (entries d ! p)"
  using assms by (metis length_map nth_map same_keys_def)

lemma same_keys_less:
  assumes "same_keys d d'" "p < length (entries d)" "q < length (entries d)"
  shows "queue_less (entries d') p q = queue_less (entries d) p q"
  using same_keys_nth [OF assms(1,2)] same_keys_nth [OF assms(1,3)]
  by (simp add: entry_key_def queue_less_def entry_less_def)

text \<open>What one locked section guarantees about the state it leaves.\<close>

definition kept :: "dispatcher \<Rightarrow> dispatcher \<Rightarrow> bool" where
  "kept d d' \<longleftrightarrow> queue_wf d' \<and> maxRunningRunners d' = maxRunningRunners d
     \<and> set (runningRunnerIDs d) \<subseteq> set (runningRunnerIDs d')
     \<and> same_keys d d' \<and> (\<forall>q. live d' q \<longrightarrow> live d q)"

lemma kept_trans: "kept a b \<Longrightarrow> kept b c \<Longrightarrow> kept a c"
  by (auto simp: kept_def intro: same_keys_trans)

lemma kept_upd:
  assumes "queue_wf d" "\<And>e. entry_key (f e) = entry_key e" "\<And>e. qr_canceled e \<Longrightarrow> qr_canceled (f e)"
  shows "kept d (upd_entry p f d)"
proof -
  have "qr_priority (f e) = qr_priority e \<and> qr_order (f e) = qr_order e" for e
    using assms(2) [of e] by (simp add: entry_key_def)
  with upd_entry_wf [OF assms(1)] have "queue_wf (upd_entry p f d)" by blast
  moreover have "live d q" if "live (upd_entry p f d) q" for q
    using upd_entry_live [OF assms(1,3) that] .
  ultimately show ?thesis using same_keys_upd [OF assms(2)] by (simp add: kept_def)
qed

lemma kept_byID: "queue_wf d \<Longrightarrow> kept d (d\<lparr>queuedRunnerByID := m\<rparr>)"
  by (simp add: kept_def queue_wf_def same_keys_def live_def)

lemma kept_wf: "kept d d' \<Longrightarrow> queue_wf d'"
  by (simp add: kept_def)

lemma kept_pop: "queue_wf d \<Longrightarrow> popQueuedRunnerLocked d = (o1, d') \<Longrightarrow> kept d d'"
  using pop_spec [of d o1 d'] by (auto simp: kept_def same_keys_def live_def split: option.splits)

lemma kept_add_running: "queue_wf d \<Longrightarrow> has_slot d \<Longrightarrow>
    kept d (if maxRunningRunners d > 0 then add_running i d else d)"
  by (auto simp: kept_def add_running_def queue_wf_def has_slot_def same_keys_def live_def)

text \<open>One iteration: the popped entry leaves the queue.\<close>

definition dequeued :: "nat \<Rightarrow> dispatcher \<Rightarrow> dispatcher" where
  "dequeued p d =
     upd_entry p deactivate (d\<lparr>queuedRunnerByID := map_delete (queuedRunnerByID d) (qr_runner (entries d ! p))\<rparr>)"

lemma kept_dequeued:
  assumes "queue_wf d"
  shows "kept d (dequeued p d)"
proof -
  let ?d = "d\<lparr>queuedRunnerByID := map_delete (queuedRunnerByID d) (qr_runner (entries d ! p))\<rparr>"
  have k: "kept d ?d" using assms by (rule kept_byID)
  have "kept ?d (upd_entry p deactivate ?d)"
    by (rule kept_upd [OF kept_wf [OF k]]) (simp_all add: deactivate_def entry_key_def)
  with k show ?thesis unfolding dequeued_def by (rule kept_trans)
qed

lemma dequeued_fields [simp]:
  "maxRunningRunners (dequeued p d) = maxRunningRunners d"
  "runningRunnerIDs (dequeued p d) = runningRunnerIDs d"
  "queuedRunners (dequeued p d) = queuedRunners d"
  by (simp_all add: dequeued_def)

lemma dequeued_entry:
  "p < length (entries d) \<Longrightarrow> entries (dequeued p d) ! p = deactivate (entries d ! p)"
  by (simp add: dequeued_def upd_entry_nth)

text \<open>Of the live entries of a state, none is lost on the way to another but those named.\<close>

definition loses_only :: "nat set \<Rightarrow> dispatcher \<Rightarrow> dispatcher \<Rightarrow> bool" where
  "loses_only gone d d' \<longleftrightarrow> (\<forall>q. live d q \<longrightarrow> q \<in> gone \<or> live d' q)"

lemma upd_entry_other: "q' \<noteq> q \<Longrightarrow> live (upd_entry q f d) q' = live d q'"
  by (simp add: upd_entry_def live_def)

lemma dequeued_other: "q' \<noteq> q \<Longrightarrow> live (dequeued q d) q' = live d q'"
  unfolding dequeued_def by (simp add: upd_entry_other) (simp add: live_def)

lemma add_running_live: "live (add_running i d) q = live d q"
  by (simp add: add_running_def live_def)

text \<open>
  The loop as three cases: no slot or nothing live left, an entry whose context ended, an entry
  that starts.  A popped entry is never marked canceled, so that guard of the source is dead.
\<close>

lemma collect_cases:
  assumes "queue_wf d"
  obtains
    (stop) d' where "collectQueuedStartsLocked ts tc d = (ts, tc, d')" "kept d d'" "work_conserving d'"
      "loses_only {} d d'" "runningRunnerIDs d' = runningRunnerIDs d"
  | (expired) q d' where "collectQueuedStartsLocked ts tc d = collectQueuedStartsLocked ts (tc @ [q]) d'"
      "kept d d'" "live d q" "length (queuedRunners d') < length (queuedRunners d)"
      "loses_only {q} d d'" "runningRunnerIDs d' = runningRunnerIDs d" "qr_ctxErr (entries d ! q) \<noteq> []"
  | (go) q d' where "collectQueuedStartsLocked ts tc d = collectQueuedStartsLocked (ts @ [q]) tc d'"
      "kept d d'" "live d q" "length (queuedRunners d') < length (queuedRunners d)"
      "qr_ctxErr (entries d ! q) = []" "\<forall>q'. live d q' \<longrightarrow> \<not> queue_less (entries d) q' q"
      "maxRunningRunners d > 0 \<longrightarrow> qr_runner (entries d ! q) \<in> set (runningRunnerIDs d')"
      "loses_only {q} d d'"
      "set (runningRunnerIDs d') = set (runningRunnerIDs d) \<union> (if maxRunningRunners d > 0 then {qr_runner (entries d ! q)} else {})"
proof (cases "has_slot d")
  case False
  with assms stop [of d] show thesis
    by (auto simp: collectQueuedStartsLocked.simps [of ts tc d] work_conserving_def kept_def loses_only_def)
next
  case slot: True
  obtain o1 d1 where p: "popQueuedRunnerLocked d = (o1, d1)" by force
  note pop = pop_spec [OF assms p] and k1 = kept_pop [OF assms p]
  show thesis
  proof (cases o1)
    case None
    with pop have "work_conserving d1" by (simp add: work_conserving_def live_def)
    with stop [of d1] k1 slot p None pop show thesis
      by (simp add: collectQueuedStartsLocked.simps [of ts tc d] loses_only_def)
  next
    case (Some q)
    let ?d2 = "dequeued q d1"
    let ?d3 = "upd_entry q (\<lambda>e. e\<lparr>qr_canceled := True\<rparr>) ?d2"
    let ?d4 = "if maxRunningRunners ?d2 > 0 then add_running (qr_runner (entries d1 ! q)) ?d2 else ?d2"
    have k2: "kept d ?d2" by (rule kept_trans [OF k1 kept_dequeued [OF kept_wf [OF k1]]])
    have k3: "kept d ?d3" by (rule kept_trans [OF k2], rule kept_upd [OF kept_wf [OF k2]]) (simp_all add: entry_key_def)
    have k4: "kept d ?d4"
      by (rule kept_trans [OF k2], rule kept_add_running [OF kept_wf [OF k2]])
        (use slot pop in \<open>simp add: has_slot_def\<close>)
    have q: "live d q" "q < length (entries d)" "entries d1 = entries d"
      and least: "\<forall>q'. live d q' \<longrightarrow> \<not> queue_less (entries d) q' q"
      using pop unfolding Some option.case by (blast intro: queue_less_irrefl [THEN notE])+
    have lose1: "loses_only {q} d d1" using pop unfolding Some option.case loses_only_def by blast
    then have lose: "loses_only {q} d ?d3" "loses_only {q} d ?d4"
      unfolding loses_only_def singleton_iff
      by (metis upd_entry_other dequeued_other, metis (full_types) dequeued_other add_running_live)
    have run3: "runningRunnerIDs ?d3 = runningRunnerIDs d" using pop by simp
    have run4: "set (runningRunnerIDs ?d4) = set (runningRunnerIDs d)
        \<union> (if maxRunningRunners d > 0 then {qr_runner (entries d ! q)} else {})"
      using pop by (auto simp: add_running_def)
    have len: "length (queuedRunners ?d3) < length (queuedRunners d)"
        "length (queuedRunners ?d4) < length (queuedRunners d)"
      using popQueued_length [OF p [unfolded Some]] by (simp_all add: add_running_def)
    have e2: "entries ?d2 ! q = deactivate (entries d ! q)" using q by (simp add: dequeued_entry)
    then have "\<not> qr_canceled (entries ?d2 ! q)" using q(1) by (simp add: deactivate_def live_def)
    then have eq: "collectQueuedStartsLocked ts tc d =
        (if qr_ctxErr (entries ?d2 ! q) \<noteq> [] then collectQueuedStartsLocked ts (tc @ [q]) ?d3
         else collectQueuedStartsLocked (ts @ [q]) tc ?d4)"
      using slot p Some by (simp add: collectQueuedStartsLocked.simps [of ts tc d] Let_def dequeued_def)
    show thesis
    proof (cases "qr_ctxErr (entries d ! q) = []")
      case True
      have "maxRunningRunners d > 0 \<longrightarrow> qr_runner (entries d ! q) \<in> set (runningRunnerIDs ?d4)"
        using q(3) pop by (simp add: add_running_def)
      with go [OF _ k4 q(1) len(2) True least _ lose(2) run4] True eq e2 show thesis by (simp add: deactivate_def)
    next
      case False
      with expired [OF _ k3 q(1) len(1) lose(1) run3] eq e2 show thesis by (simp add: deactivate_def)
    qed
  qed
qed

text \<open>
  Started entries: live, with a context still open, holding a slot, and in heap order, before
  every entry that keeps waiting.
\<close>

definition dispatched :: "dispatcher \<Rightarrow> nat list \<Rightarrow> dispatcher \<Rightarrow> bool" where
  "dispatched d ts d' \<longleftrightarrow>
     sorted_wrt (\<lambda>p q. \<not> queue_less (entries d) q p) ts
     \<and> (\<forall>p \<in> set ts. live d p \<and> qr_ctxErr (entries d ! p) = []
          \<and> (maxRunningRunners d > 0 \<longrightarrow> qr_runner (entries d ! p) \<in> set (runningRunnerIDs d'))
          \<and> (\<forall>q. live d' q \<longrightarrow> \<not> queue_less (entries d) q p))"

lemma dispatched_kept: "dispatched d0 ts d \<Longrightarrow> kept d d' \<Longrightarrow> dispatched d0 ts d'"
  unfolding dispatched_def kept_def by blast

lemma live_bound: "queue_wf d \<Longrightarrow> live d q \<Longrightarrow> q < length (entries d)"
  by (auto simp: queue_wf_def live_def)

lemma dispatched_snoc:
  assumes "dispatched d0 ts d" "kept d0 d" "queue_wf d0" "kept d d'" "live d q" "qr_ctxErr (entries d ! q) = []"
    "\<forall>q'. live d q' \<longrightarrow> \<not> queue_less (entries d) q' q"
    "maxRunningRunners d > 0 \<longrightarrow> qr_runner (entries d ! q) \<in> set (runningRunnerIDs d')"
  shows "dispatched d0 (ts @ [q]) d'"
proof -
  have wf: "queue_wf d" and keys: "same_keys d0 d" and mx: "maxRunningRunners d = maxRunningRunners d0"
    and sub: "\<And>q. live d q \<Longrightarrow> live d0 q" and sub': "\<And>q. live d' q \<Longrightarrow> live d q"
    using assms(2,4) by (auto simp: kept_def)
  have b: "p < length (entries d0)" if "live d p" for p
    using live_bound [OF assms(3) sub [OF that]] .
  note key = same_keys_nth [OF keys b [OF assms(5)]]
  have "\<not> queue_less (entries d0) q' q" if "live d' q'" for q'
    using assms(7) sub' [OF that] same_keys_less [OF keys b [OF sub' [OF that]] b [OF assms(5)]] by blast
  moreover have "sorted_wrt (\<lambda>p q. \<not> queue_less (entries d0) q p) (ts @ [q])"
    using assms(1,5) by (simp add: dispatched_def sorted_wrt_append)
  ultimately show ?thesis
    using dispatched_kept [OF assms(1,4)] assms(5,6,8) sub key mx
    by (simp add: dispatched_def entry_key_def)
qed

lemma collect_dispatched:
  assumes "queue_wf d0" "kept d0 d" "dispatched d0 ts d" "collectQueuedStartsLocked ts tc d = (ts', tc', d')"
  shows "kept d0 d' \<and> work_conserving d' \<and> dispatched d0 ts' d'"
  using assms(2-)
proof (induction "length (queuedRunners d)" arbitrary: ts tc d rule: less_induct)
  case less
  from kept_wf [OF less.prems(1)] show ?case
  proof (cases rule: collect_cases [where ts = ts and tc = tc])
    case (stop d'')
    with less.prems show ?thesis by (auto intro: kept_trans dispatched_kept)
  next
    case (expired q d'')
    with less.prems less.hyps [OF expired(4) kept_trans [OF less.prems(1) expired(2)]
        dispatched_kept [OF less.prems(2) expired(2)]]
    show ?thesis by simp
  next
    case (go q d'')
    from dispatched_snoc [OF less.prems(2,1) assms(1) go(2,3,5,6,7)] less.prems go(1)
      less.hyps [OF go(4) kept_trans [OF less.prems(1) go(2)]]
    show ?thesis by simp
  qed
qed

lemma collect_wf:
  assumes "queue_wf d" "collectQueuedStartsLocked [] [] d = (ts, tc, d')"
  shows "kept d d'" "work_conserving d'" "dispatched d ts d'"
proof -
  have "kept d d" "dispatched d [] d" using assms(1) by (simp_all add: kept_def dispatched_def)
  from collect_dispatched [OF assms(1) this assms(2)]
  show "kept d d'" "work_conserving d'" "dispatched d ts d'" by blast+
qed

text \<open>The accounts of the loop: a waiting entry whose context is open is started or still waits, and exactly
  the runners of the started entries are added to those that hold a slot.\<close>

definition accounted :: "dispatcher \<Rightarrow> nat list \<Rightarrow> dispatcher \<Rightarrow> bool" where
  "accounted d ts d' \<longleftrightarrow>
     (\<forall>q. live d q \<and> qr_ctxErr (entries d ! q) = [] \<longrightarrow> q \<in> set ts \<or> live d' q)
     \<and> set (runningRunnerIDs d') = set (runningRunnerIDs d)
          \<union> (if maxRunningRunners d > 0 then (\<lambda>p. qr_runner (entries d ! p)) ` set ts else {})"

lemma collect_accounted:
  assumes "queue_wf d0" "kept d0 d" "accounted d0 ts d" "collectQueuedStartsLocked ts tc d = (ts', tc', d')"
  shows "accounted d0 ts' d'"
  using assms(2-)
proof (induction "length (queuedRunners d)" arbitrary: ts tc d rule: less_induct)
  case less
  have mx: "maxRunningRunners d = maxRunningRunners d0" using less.prems(1) by (simp add: kept_def)
  have key: "entry_key (entries d ! q) = entry_key (entries d0 ! q)" if "live d0 q" for q
    using less.prems(1) live_bound [OF assms(1) that] same_keys_nth by (auto simp: kept_def)
  have sub: "live d0 q" if "live d q" for q using less.prems(1) that by (simp add: kept_def)
  from kept_wf [OF less.prems(1)] show ?case
  proof (cases rule: collect_cases [where ts = ts and tc = tc])
    case (stop d'')
    with less.prems show ?thesis by (auto simp: accounted_def loses_only_def)
  next
    case (expired q d'')
    have "accounted d0 ts d''"
      using less.prems(2) expired(5-7) key [OF sub [OF expired(3)]]
      by (auto simp: accounted_def loses_only_def entry_key_def)
    with less.hyps [OF expired(4) kept_trans [OF less.prems(1) expired(2)]] less.prems(3) expired(1) show ?thesis by simp
  next
    case (go q d'')
    have "accounted d0 (ts @ [q]) d''"
      using less.prems(2) go(8,9) key [OF sub [OF go(3)]] mx
      by (auto simp: accounted_def loses_only_def entry_key_def)
    with less.hyps [OF go(4) kept_trans [OF less.prems(1) go(2)]] less.prems(3) go(1) show ?thesis by simp
  qed
qed

lemma collect_accounts:
  assumes "queue_wf d" "collectQueuedStartsLocked [] [] d = (ts, tc, d')"
  shows "accounted d ts d'"
  using collect_accounted [OF assms(1) _ _ assms(2)] assms(1) by (simp add: kept_def accounted_def)

section \<open>Interleavings of the locked sections\<close>

text \<open>
  One step is one section under \<^verbatim>\<open>o.mu\<close>, or a change from outside: the context of a queued
  entry ends, or runner objects and the registry change.
\<close>

inductive queue_step :: "dispatcher \<Rightarrow> dispatcher \<Rightarrow> bool" where
  step_submit: "queue_step d (snd (submit_locked i priority ctxErr d))"
| step_unqueue: "queue_step d (unqueue_locked i d)"
| step_free: "free_slot_locked i d = (ts, tc, d') \<Longrightarrow> queue_step d d'"
| step_remove: "removeQueuedRunner p canceled d = (ts, tc, d') \<Longrightarrow> queue_step d d'"
| step_collect: "collectQueuedStartsLocked [] [] d = (ts, tc, d') \<Longrightarrow> queue_step d d'"
| step_ctx: "queue_step d (upd_entry p (\<lambda>e. e\<lparr>qr_ctxErr := err\<rparr>) d)"
| step_objs: "queue_step d (d\<lparr>objs := os, registered := rs\<rparr>)"

definition queue_start :: "dispatcher \<Rightarrow> bool" where
  "queue_start d \<longleftrightarrow> 0 \<le> maxRunningRunners d \<and> runningRunnerIDs d = [] \<and> entries d = []
     \<and> queuedRunners d = [] \<and> queuedRunnerByID d = []"

definition queue_inv :: "dispatcher \<Rightarrow> bool" where
  "queue_inv d \<longleftrightarrow> queue_wf d \<and> work_conserving d"

lemma queue_inv_kept:
  assumes "queue_inv d" "kept d d'" "runningRunnerIDs d' = runningRunnerIDs d"
  shows "queue_inv d'"
  using assms by (auto simp: queue_inv_def kept_def work_conserving_def has_slot_def)

lemma submit_inv:
  assumes "queue_inv d"
  shows "queue_inv (snd (submit_locked i priority ctxErr d))"
proof (cases "has_slot d")
  case True
  with assms have "\<not> live d q" for q by (auto simp: queue_inv_def work_conserving_def)
  with kept_add_running [of d i] assms True show ?thesis
    by (auto simp: submit_locked_def queue_inv_def kept_def work_conserving_def)
next
  case False
  define es where "es = entries d @ [\<lparr>qr_runner = i, qr_priority = priority, qr_order = nextQueueOrder d,
                     qr_canceled = False, qr_done = False, qr_ctxErr = ctxErr\<rparr>]"
  have wf: "queue_wf d" using assms by (simp add: queue_inv_def)
  have old: "heap_inv (queue_less es) (queuedRunners d) (length (queuedRunners d))"
    using wf unfolding queue_wf_def heap_inv_def es_def
    by (auto simp: queue_less_def nth_append parent_less [THEN less_trans])
  note push = start_queue.push_ok [OF old, of "length (entries d)"]
  then have set: "set (heap_Push (queue_less es) (queuedRunners d) (length (entries d)))
      = insert (length (entries d)) (set (queuedRunners d))"
    by (metis set_mset_add_mset_insert set_mset_mset)
  have eq: "submit_locked i priority ctxErr d =
      (False, d\<lparr>entries := es, nextQueueOrder := nextQueueOrder d + 1,
         queuedRunners := heap_Push (queue_less es) (queuedRunners d) (length (entries d)),
         queuedRunnerByID := map_set (queuedRunnerByID d) i (length (entries d))\<rparr>)"
    using False by (simp add: submit_locked_def es_def Let_def)
  have "length es = Suc (length (entries d))" by (simp add: es_def)
  with wf False push set show ?thesis
    unfolding eq by (auto simp: queue_inv_def queue_wf_def work_conserving_def has_slot_def)
qed

lemma collect_inv: "queue_wf d \<Longrightarrow> collectQueuedStartsLocked [] [] d = (ts, tc, d') \<Longrightarrow> queue_inv d'"
  using collect_wf [of d ts tc d'] by (simp add: queue_inv_def kept_def)

lemma free_wf: "queue_wf d \<Longrightarrow> queue_wf (d\<lparr>runningRunnerIDs := removeAll i (runningRunnerIDs d)\<rparr>)"
  by (auto simp: queue_wf_def distinct_removeAll
      intro: order_trans [OF iffD2 [OF of_nat_le_iff length_removeAll_less_eq]])

lemma free_inv: "queue_wf d \<Longrightarrow> free_slot_locked i d = (ts, tc, d') \<Longrightarrow> queue_inv d'"
  unfolding free_slot_locked_def by (rule collect_inv [OF free_wf])

lemma unqueue_running [simp]: "runningRunnerIDs (unqueue_locked i d) = runningRunnerIDs d"
  by (simp add: unqueue_locked_def split: option.splits)

lemma unqueue_kept:
  assumes "queue_wf d"
  shows "kept d (unqueue_locked i d)"
proof (cases "map_get (queuedRunnerByID d) i")
  case None
  with assms show ?thesis by (simp add: unqueue_locked_def kept_def)
next
  case (Some p)
  let ?d = "d\<lparr>queuedRunnerByID := map_delete (queuedRunnerByID d) i\<rparr>"
  have k: "kept d ?d" using assms by (rule kept_byID)
  have "kept ?d (upd_entry p (\<lambda>e. deactivate (e\<lparr>qr_canceled := True\<rparr>)) ?d)"
    by (rule kept_upd [OF kept_wf [OF k]]) (simp_all add: deactivate_def entry_key_def)
  with kept_trans [OF k] Some show ?thesis by (simp add: unqueue_locked_def)
qed

lemma remove_inv:
  assumes "queue_inv d" "removeQueuedRunner p canceled d = (ts, tc, d')"
  shows "queue_inv d'"
proof (cases "map_get (queuedRunnerByID d) (qr_runner (entries d ! p)) = Some p")
  case False
  with assms show ?thesis by (simp add: removeQueuedRunner_def)
next
  case True
  define m where "m = map_delete (queuedRunnerByID d) (qr_runner (entries d ! p))"
  define d1 where "d1 = (if canceled then upd_entry p (\<lambda>e. e\<lparr>qr_canceled := True\<rparr>) d else d)"
  have "kept d (upd_entry p (\<lambda>e. e\<lparr>qr_canceled := True\<rparr>) d)"
    by (rule kept_upd) (use assms(1) in \<open>simp_all add: queue_inv_def entry_key_def\<close>)
  then have "queue_wf d1" using assms(1) by (simp add: d1_def queue_inv_def kept_def)
  then have "queue_wf (d1\<lparr>queuedRunnerByID := m\<rparr>)" using kept_byID kept_wf by blast
  then have wf: "queue_wf (upd_entry p deactivate (d1\<lparr>queuedRunnerByID := m\<rparr>))"
    by (rule upd_entry_wf) (simp add: deactivate_def)
  have "collectQueuedStartsLocked [] [] (upd_entry p deactivate (d1\<lparr>queuedRunnerByID := m\<rparr>)) = (ts, tc, d')"
    using assms(2) True by (simp add: removeQueuedRunner_def Let_def d1_def m_def split: if_splits)
  with wf show ?thesis by (rule collect_inv)
qed

interpretation start_limits: inductive_invariant queue_start queue_step queue_inv
proof
  show "queue_inv d" if "queue_start d" for d
    using that by (auto simp: queue_start_def queue_inv_def queue_wf_def heap_inv_def work_conserving_def live_def)
  show "queue_inv d'" if inv: "queue_inv d" and st: "queue_step d d'" for d d'
    using st
  proof cases
    case (step_submit i priority ctxErr)
    with submit_inv [OF inv] show ?thesis by simp
  next
    case (step_unqueue i)
    have "kept d (unqueue_locked i d)" using inv by (simp add: queue_inv_def unqueue_kept)
    with queue_inv_kept [OF inv] step_unqueue show ?thesis by simp
  next
    case (step_free i ts tc)
    with free_inv inv show ?thesis unfolding queue_inv_def by blast
  next
    case (step_remove p canceled ts tc)
    with remove_inv [OF inv] show ?thesis by blast
  next
    case (step_collect ts tc)
    with collect_inv inv show ?thesis unfolding queue_inv_def by blast
  next
    case (step_ctx p err)
    have "queue_wf d'" using inv upd_entry_wf [of d] unfolding step_ctx by (simp add: queue_inv_def)
    moreover have "live d q" if "live d' q" for q
      using inv upd_entry_live [of d "\<lambda>e. e\<lparr>qr_ctxErr := err\<rparr>" p q] that
      unfolding step_ctx by (simp add: queue_inv_def)
    ultimately show ?thesis using inv step_ctx by (auto simp: queue_inv_def work_conserving_def has_slot_def)
  next
    case (step_objs os rs)
    with inv show ?thesis
      by (simp add: queue_inv_def queue_wf_def work_conserving_def live_def has_slot_def)
  qed
qed

section \<open>Methods are sequences of locked sections\<close>

lemma objs_steps: "queue_step\<^sup>*\<^sup>* d (d\<lparr>objs := os\<rparr>)" "queue_step\<^sup>*\<^sup>* d (d\<lparr>registered := rs\<rparr>)"
  using step_objs [where d = d and os = os and rs = "registered d"]
    step_objs [where d = d and os = "objs d" and rs = rs] by simp_all

lemma set_obj_steps: "queue_step\<^sup>*\<^sup>* d (set_obj i r d)" "queue_step\<^sup>*\<^sup>* d (abort_obj now i err d)"
  by (simp_all add: set_obj_def abort_obj_def objs_steps)

lemma abort_entries_steps: "queue_step\<^sup>*\<^sup>* d (abort_entries now ps d)"
  unfolding abort_entries_def
  by (induction ps arbitrary: d) (simp_all, meson rtranclp_trans set_obj_steps(2))

lemma start_one_steps: "start_one now ctxErr i d = (err, later, d') \<Longrightarrow> queue_step\<^sup>*\<^sup>* d d'"
proof -
  assume start: "start_one now ctxErr i d = (err, later, d')"
  obtain e r where m: "StartManaged now ctxErr (get_obj (unqueue_locked i d) i) = (e, r)" by force
  define d1 where "d1 = set_obj i r (unqueue_locked i d)"
  have s1: "queue_step\<^sup>*\<^sup>* d d1"
    unfolding d1_def by (rule converse_rtranclp_into_rtranclp [OF step_unqueue set_obj_steps(1)])
  obtain ts tc d2 where f: "free_slot_locked i d1 = (ts, tc, d2)" by (metis prod_cases3)
  have s2: "queue_step\<^sup>*\<^sup>* d d2" using s1 step_free [OF f] by (rule rtranclp.rtrancl_into_rtrancl)
  define d3 where "d3 = (if rs_Status (rn_state (get_obj d2 i)) = RunnerStatusPending then abort_obj now i e d2 else d2)"
  have s3: "queue_step\<^sup>*\<^sup>* d d3" using rtranclp_trans [OF s2 set_obj_steps(2)] s2 by (simp add: d3_def)
  have "d' = d1 \<or> d' = abort_entries now tc d3"
    using start m f by (auto simp: start_one_def Let_def d3_def simp flip: d1_def split: if_splits)
  with s1 rtranclp_trans [OF s3 abort_entries_steps] show ?thesis by blast
qed

lemma run_starts_steps: "queue_step\<^sup>*\<^sup>* d (run_starts now ps d)"
proof (induction now ps d rule: run_starts.induct)
  case (2 now p ps d)
  obtain e later d1 where s: "start_one now (qr_ctxErr (entries d ! p)) (qr_runner (entries d ! p)) d = (e, later, d1)"
    by (metis prod_cases3)
  from rtranclp_trans [OF start_one_steps [OF s] "2.IH" [OF s [symmetric] refl]] s show ?case
    by (simp add: run_starts.simps)
qed (simp add: run_starts.simps)

lemma finish_steps: "queue_step\<^sup>*\<^sup>* d (finishQueuedDispatch now ts tc d)"
  unfolding finishQueuedDispatch_def by (rule rtranclp_trans [OF abort_entries_steps run_starts_steps])

lemma startManaged_steps: "queue_step\<^sup>*\<^sup>* d (snd (startManagedRunner now ctxErr i d))"
proof -
  obtain e later d1 where s: "start_one now ctxErr i d = (e, later, d1)" by (metis prod_cases3)
  from rtranclp_trans [OF start_one_steps [OF s] run_starts_steps] s show ?thesis
    by (simp add: startManagedRunner_def)
qed

lemma submitManaged_steps: "queue_step\<^sup>*\<^sup>* d (snd (submitManagedRunner now ctxErr i priority d))"
proof -
  obtain b d1 where s: "submit_locked i priority ctxErr d = (b, d1)" by force
  with step_submit [of d i priority ctxErr] have "queue_step d d1" by simp
  with s startManaged_steps [of d1] set_obj_steps(2) show ?thesis
    by (auto simp: submitManagedRunner_def split: bool.splits intro: converse_rtranclp_into_rtranclp)
qed

lemma cancelQueued_steps: "queue_step\<^sup>*\<^sup>* d (cancelQueuedRunner now p d)"
proof -
  obtain ts tc d1 where s: "removeQueuedRunner p True d = (ts, tc, d1)" by (metis prod_cases3)
  from converse_rtranclp_into_rtranclp [OF step_remove [OF s] rtranclp_trans [OF set_obj_steps(2) finish_steps]] s
  show ?thesis by (simp add: cancelQueuedRunner_def)
qed

lemma release_steps: "queue_step\<^sup>*\<^sup>* d (releaseRunnerExecutionSlot now i d)"
proof -
  obtain ts tc d1 where s: "free_slot_locked i d = (ts, tc, d1)" by (metis prod_cases3)
  from converse_rtranclp_into_rtranclp [OF step_free [OF s] finish_steps] s show ?thesis
    by (simp add: releaseRunnerExecutionSlot_def)
qed

lemma remove_steps: "queue_step\<^sup>*\<^sup>* d (snd (RemoveRunner now del i d))"
proof -
  let ?d = "(unqueue_locked i d)\<lparr>registered := removeAll i (registered (unqueue_locked i d))\<rparr>"
  obtain ts tc d1 where s: "collectQueuedStartsLocked [] [] ?d = (ts, tc, d1)" by (metis prod_cases3)
  have "queue_step\<^sup>*\<^sup>* d ?d" by (rule converse_rtranclp_into_rtranclp [OF step_unqueue objs_steps(2)])
  then have "queue_step\<^sup>*\<^sup>* d (finishQueuedDispatch now ts tc d1)"
    using rtranclp_trans [OF _ converse_rtranclp_into_rtranclp [OF step_collect [OF s] finish_steps]] by blast
  with s show ?thesis by (simp add: RemoveRunner_def remove_locked_def Let_def split: option.splits)
qed

lemma startRunner_steps: "queue_step\<^sup>*\<^sup>* d (snd (StartRunner now ctxErr i d))"
  using startManaged_steps [of d now ctxErr i] by (auto simp: StartRunner_def split: prod.splits)

lemmas method_steps = submitManaged_steps startManaged_steps cancelQueued_steps release_steps
  remove_steps startRunner_steps

section \<open>Properties\<close>

text \<open>The dispatch order promised by the request priorities.\<close>

definition goes_first :: "queued_runner \<Rightarrow> queued_runner \<Rightarrow> bool" where
  "goes_first a b \<longleftrightarrow> qr_priority b \<le> qr_priority a
     \<and> (qr_priority b = qr_priority a \<longrightarrow> unat (qr_order a) \<le> unat (qr_order b))"

lemma queue_less_goes_first: "\<not> queue_less es q p \<longleftrightarrow> goes_first (es ! p) (es ! q)"
  by (auto simp: queue_less_def entry_less_def goes_first_def word_less_nat_alt)

text \<open>C12. Whatever calls are made in whatever interleaving, with a positive limit at most that
  many runners hold an execution slot, no runner holds two, and an entry that is still waiting
  implies that every slot is taken: the dispatcher never idles a slot.  Without a limit nothing
  is ever queued.\<close>

theorem start_limit_respected:
  assumes "reach queue_start queue_step d"
  shows "int (length (runningRunnerIDs d)) \<le> maxRunningRunners d \<and> distinct (runningRunnerIDs d)
    \<and> (live d p \<longrightarrow> maxRunningRunners d > 0 \<and> int (length (runningRunnerIDs d)) = maxRunningRunners d)"
  using start_limits.reach_inv [OF assms]
  by (auto simp: queue_inv_def queue_wf_def work_conserving_def has_slot_def)

text \<open>C13. When a slot is given back the dispatcher starts waiting entries in order of priority, then of
  submission.  Every started entry was live with an open context, and the runners that hold a slot afterwards
  are those that held one, less the one that gave it back, and the started ones.  A waiting entry with an open
  context either starts or keeps waiting because all slots are taken, and then it does not go before anything
  that started.  So when the slot was held and such an entry waits, some entry starts, and the first one to
  start goes before all of them.\<close>

theorem freed_slots_go_by_priority:
  assumes "reach queue_start queue_step d" "free_slot_locked i d = (ts, tc, d')"
  shows "sorted_wrt (\<lambda>p q. goes_first (entries d ! p) (entries d ! q)) ts
    \<and> (\<forall>p \<in> set ts. live d p \<and> qr_ctxErr (entries d ! p) = []
         \<and> (\<forall>q. live d' q \<longrightarrow> goes_first (entries d ! p) (entries d ! q)))
    \<and> (maxRunningRunners d > 0 \<longrightarrow> set (runningRunnerIDs d')
         = (set (runningRunnerIDs d) - {i}) \<union> (\<lambda>p. qr_runner (entries d ! p)) ` set ts)
    \<and> (\<forall>q. live d q \<and> qr_ctxErr (entries d ! q) = [] \<longrightarrow>
         (q \<in> set ts \<or> live d' q \<and> int (length (runningRunnerIDs d')) = maxRunningRunners d)
         \<and> (i \<in> set (runningRunnerIDs d) \<longrightarrow> ts \<noteq> [] \<and> goes_first (entries d ! hd ts) (entries d ! q)))"
    (is "?sorted \<and> ?started \<and> ?slots \<and> (\<forall>q. ?waits q \<longrightarrow> ?served q \<and> (?held \<longrightarrow> ?first q))")
proof -
  let ?d = "d\<lparr>runningRunnerIDs := removeAll i (runningRunnerIDs d)\<rparr>"
  have inv: "queue_wf d" using start_limits.reach_inv [OF assms(1)] by (simp add: queue_inv_def)
  then have wf: "queue_wf ?d" by (simp add: free_wf)
  note c = assms(2) [unfolded free_slot_locked_def]
  have d: ?sorted ?started
    using collect_wf(3) [OF wf c] by (simp_all add: dispatched_def queue_less_goes_first live_def)
  have a: ?slots "\<And>q. ?waits q \<Longrightarrow> q \<in> set ts \<or> live d' q"
    using collect_accounts [OF wf c] by (simp_all add: accounted_def live_def)
  have full: "int (length (runningRunnerIDs d')) = maxRunningRunners d" if "live d' q" for q
    using collect_wf(1,2) [OF wf c] that by (force simp: work_conserving_def kept_def has_slot_def queue_wf_def)
  have served: "?served q" if "?waits q" for q using a(2) [OF that] full by blast
  have "?first q" if "?waits q" ?held for q
  proof -
    have "ts \<noteq> []"
    proof
      assume ts: "ts = []"
      have mx: "maxRunningRunners d > 0" using inv that(2) by (cases "runningRunnerIDs d") (auto simp: queue_wf_def)
      have "distinct (runningRunnerIDs d')" using collect_wf(1) [OF wf c] by (simp add: kept_def queue_wf_def)
      then have "length (runningRunnerIDs d') = card (set (runningRunnerIDs d) - {i})"
        using a(1) mx ts by (simp flip: distinct_card)
      also have "\<dots> < card (set (runningRunnerIDs d))" using that(2) by (intro card_Diff1_less) simp_all
      also have "\<dots> \<le> length (runningRunnerIDs d)" by (rule card_length)
      finally have "int (length (runningRunnerIDs d')) < maxRunningRunners d" using inv by (simp add: queue_wf_def)
      with served [OF that(1)] ts show False by simp
    qed
    then obtain p ps where ts: "ts = p # ps" by (cases ts) auto
    have "goes_first (entries d ! p) (entries d ! q)"
      using a(2) [OF that(1)] d ts by (auto simp: goes_first_def)
    with ts show ?thesis by simp
  qed
  with d a(1) served show ?thesis by blast
qed

text \<open>Every method of the dispatcher, however deep its failed starts cascade into further starts, is a
  sequence of the locked sections, so the limits hold between its sections too.\<close>

lemma methods_refine_sections:
  "queue_step\<^sup>*\<^sup>* d (snd (submitManagedRunner now ctxErr i priority d))
   \<and> queue_step\<^sup>*\<^sup>* d (snd (startManagedRunner now ctxErr i d))
   \<and> queue_step\<^sup>*\<^sup>* d (cancelQueuedRunner now p d)
   \<and> queue_step\<^sup>*\<^sup>* d (releaseRunnerExecutionSlot now i d)
   \<and> queue_step\<^sup>*\<^sup>* d (snd (RemoveRunner now del i d))
   \<and> queue_step\<^sup>*\<^sup>* d (snd (StartRunner now ctxErr i d))"
  by (simp add: method_steps)

text \<open>C14. Starting a runner that is already started fails, but its failure path gives back the
  slot of the runner that is still executing: with a limit of one and another runner waiting, the
  waiting runner is started next to the first one.\<close>

theorem double_start_breaks_limit:
  assumes "maxRunningRunners d = 1" "runningRunnerIDs d = [i]" "managedStarted (get_obj d i)"
    and "i \<noteq> []" "i \<in> set (registered d)" "map_get (queuedRunnerByID d) i = None"
    and "queuedRunners d = [p]" "p < length (entries d)" "qr_runner (entries d ! p) = j" "j \<noteq> i"
    and "\<not> qr_canceled (entries d ! p)" "qr_ctxErr (entries d ! p) = []"
    and "rs_Status (rn_state (get_obj d i)) = RunnerStatusRunning"
    and "\<not> managedStarted (get_obj d j)" "rn_plan (get_obj d j) \<noteq> None" "rn_phase (get_obj d j) = PhaseCreated"
  shows "\<exists>d'. StartRunner now [] i d = (Inr [ErrRunnerAlreadyStarted], d')
    \<and> runningRunnerIDs d' = [j] \<and> managedStarted (get_obj d' j)
    \<and> get_obj d' i = get_obj d i"
proof -
  let ?r = "get_obj d i"
  define d1 where "d1 = set_obj i ?r d"
  have g1: "get_obj d1 k = get_obj d k" for k by (simp add: d1_def get_obj_def set_obj_def split: option.splits)
  have f1: "maxRunningRunners d1 = 1" "runningRunnerIDs d1 = [i]" "queuedRunners d1 = [p]" "entries d1 = entries d"
    using assms by (simp_all add: d1_def set_obj_def)
  define d2 where "d2 = add_running j (dequeued p (d1\<lparr>runningRunnerIDs := [], queuedRunners := []\<rparr>))"
  have pop: "popQueuedRunnerLocked (d1\<lparr>runningRunnerIDs := []\<rparr>) = (Some p, d1\<lparr>runningRunnerIDs := [], queuedRunners := []\<rparr>)"
    using assms f1 by (simp add: popQueuedRunnerLocked.simps heap_Pop_def Let_def swap_def heap_down.simps)
  have full: "collectQueuedStartsLocked [p] [] d2 = ([p], [], d2)"
    by (simp add: collectQueuedStartsLocked.simps has_slot_def d2_def add_running_def f1)
  have free: "free_slot_locked i d1 = ([p], [], d2)"
    unfolding free_slot_locked_def collectQueuedStartsLocked.simps [of "[]" "[]" "d1\<lparr>runningRunnerIDs := removeAll i (runningRunnerIDs d1)\<rparr>"]
    using assms f1 pop full
    by (simp add: has_slot_def Let_def d2_def dequeued_def upd_entry_def deactivate_def)
  have g2: "get_obj d2 k = get_obj d k" for k
    using g1 [of k] by (simp add: d2_def add_running_def dequeued_def upd_entry_def get_obj_def)
  have one: "start_one now [] i d = ([ErrRunnerAlreadyStarted], [p], d2)"
    using assms free g1 g2
    by (simp add: start_one_def unqueue_locked_def StartManaged_def Let_def abort_entries_def flip: d1_def)
  have f2: "qr_runner (entries d2 ! p) = j" "qr_ctxErr (entries d2 ! p) = []" "map_get (queuedRunnerByID d2) j = None"
    "runningRunnerIDs d2 = [j]"
    using assms f1 by (simp_all add: d2_def add_running_def dequeued_def upd_entry_def deactivate_def)
  define r2 where "r2 = (get_obj d j)\<lparr>managedStarted := True, managedStartErr := []\<rparr>"
  have two: "start_one now [] j d2 = ([], [], set_obj j r2 d2)"
    using assms f2 g2 [of j]
    by (auto simp: start_one_def unqueue_locked_def StartManaged_def Let_def r2_def)
  then have "StartRunner now [] i d = (Inr [ErrRunnerAlreadyStarted], set_obj j r2 d2)"
    using assms one f2 by (simp add: StartRunner_def startManagedRunner_def run_starts.simps)
  then show ?thesis
    using f2 assms(10) g2 [of i] by (auto simp: set_obj_def get_obj_def r2_def)
qed

section \<open>Witnesses\<close>

definition ex_disp :: dispatcher where
  "ex_disp = \<lparr>maxRunningRunners = 1, runningRunnerIDs = [], entries = [], queuedRunners = [],
     queuedRunnerByID = [], nextQueueOrder = 0, objs = [], registered = []\<rparr>"

definition ex_submitted :: dispatcher where
  "ex_submitted = snd (submit_locked ''c'' 4 [] (snd (submit_locked ''b'' 1 [] (snd (submit_locked ''a'' 2 [] ex_disp)))))"

lemma reach_submit:
  "reach queue_start queue_step d \<Longrightarrow> reach queue_start queue_step (snd (submit_locked i priority ctxErr d))"
  by (erule reach_step) (rule step_submit)

lemma ex_submitted_reach: "reach queue_start queue_step ex_submitted"
  unfolding ex_submitted_def
  by (intro reach_submit reach_start) (simp add: queue_start_def ex_disp_def)

theorem start_limit_respected_witness:
  "live ex_submitted 0 \<and> length (runningRunnerIDs ex_submitted) = 1"
proof -
  have "live ex_submitted 0" unfolding live_def by code_simp
  moreover have "maxRunningRunners ex_submitted = 1" by code_simp
  ultimately show ?thesis using start_limit_respected [OF ex_submitted_reach, of 0] by simp
qed

theorem freed_slots_go_by_priority_witness:
  "fst (free_slot_locked ''a'' ex_submitted) = [1]
   \<and> goes_first (entries ex_submitted ! 1) (entries ex_submitted ! 0)"
proof -
  obtain ts tc d' where f: "free_slot_locked ''a'' ex_submitted = (ts, tc, d')" by (metis prod_cases3)
  have ts: "fst (free_slot_locked ''a'' ex_submitted) = [1]" by code_simp
  have "live (snd (snd (free_slot_locked ''a'' ex_submitted))) 0" unfolding live_def by code_simp
  with freed_slots_go_by_priority [OF ex_submitted_reach f] ts f show ?thesis by simp
qed

definition ex_running :: dispatcher where
  "ex_running = \<lparr>maxRunningRunners = 1, runningRunnerIDs = [''a''],
     entries = [\<lparr>qr_runner = ''b'', qr_priority = 1, qr_order = 0, qr_canceled = False, qr_done = False, qr_ctxErr = []\<rparr>],
     queuedRunners = [0], queuedRunnerByID = [(''b'', 0)], nextQueueOrder = 1,
     objs = [(''a'', ex_runner\<lparr>managedStarted := True, rn_state := pending_state\<lparr>rs_Status := RunnerStatusRunning\<rparr>\<rparr>),
             (''b'', ex_runner)],
     registered = [''a'', ''b'']\<rparr>"

theorem double_start_breaks_limit_witness:
  "\<exists>d'. StartRunner 5 [] ''a'' ex_running = (Inr [ErrRunnerAlreadyStarted], d')
    \<and> runningRunnerIDs d' = [''b''] \<and> managedStarted (get_obj d' ''b'')
    \<and> get_obj d' ''a'' = get_obj ex_running ''a''"
  by (rule double_start_breaks_limit [where p = 0])
    (simp_all add: ex_running_def get_obj_def ex_runner_def runner_New_def pending_state_def Let_def CloneCoarsePlan_def)

end
