(* ===== verification/Tool_Policy.thy ===== *)
theory Tool_Policy
  imports Go_Strings Runner_Types
begin

text \<open>
  Execution policies of tools: \<^verbatim>\<open>llm/internal/toolpolicy/policy.go\<close> (policies, capability
  keys, approval requests), \<^verbatim>\<open>llm/tool_policy.go\<close> (the wrapper around every tool) and
  \<^verbatim>\<open>runner/tool_policy.go\<close> (per-runner policy snapshots).

  Policies, kinds and outcomes are Go string types, so values outside the declared constants
  occur and are kept.  A tool body and an approver act on a world of type \<open>'w\<close> that the model
  does not look into: a call returns its results and the world it leaves.  The recorder of a
  context is an optional decision that the call returns.
\<close>

section \<open>Go formatting\<close>

definition hex_digit :: "nat \<Rightarrow> char" where
  "hex_digit n = ''0123456789abcdef'' ! (n mod 16)"

text \<open>One byte under \<^verbatim>\<open>%q\<close>; bytes of printable UTF-8 runes are kept.\<close>

definition quote_char :: "char \<Rightarrow> string" where
  "quote_char c =
     (if c = CHR 0x22 then [CHR 0x5C, CHR 0x22]
      else if c = CHR 0x5C then [CHR 0x5C, CHR 0x5C]
      else if c = CHR 0x07 then [CHR 0x5C, CHR ''a'']
      else if c = CHR 0x08 then [CHR 0x5C, CHR ''b'']
      else if c = CHR 0x0C then [CHR 0x5C, CHR ''f'']
      else if c = CHR 0x0A then [CHR 0x5C, CHR ''n'']
      else if c = CHR 0x0D then [CHR 0x5C, CHR ''r'']
      else if c = CHR 0x09 then [CHR 0x5C, CHR ''t'']
      else if c = CHR 0x0B then [CHR 0x5C, CHR ''v'']
      else if of_char c < (32::nat) \<or> of_char c = (127::nat)
      then [CHR 0x5C, CHR ''x'', hex_digit (of_char c div 16), hex_digit (of_char c)]
      else [c])"

definition go_quote :: "string \<Rightarrow> string" where
  "go_quote s = CHR 0x22 # concat (map quote_char s) @ [CHR 0x22]"

section \<open>Policies and capabilities\<close>

type_synonym exec_policy = string

definition ExecPolicyPassby :: exec_policy where "ExecPolicyPassby = ''passby''"
definition ExecPolicyNeedApprove :: exec_policy where "ExecPolicyNeedApprove = ''need_approve''"
definition ExecPolicyOff :: exec_policy where "ExecPolicyOff = ''off''"

definition CapabilityBuiltin :: string where "CapabilityBuiltin = ''builtin''"
definition CapabilityExtra :: string where "CapabilityExtra = ''extra''"
definition CapabilityTool :: string where "CapabilityTool = ''tool''"
definition CapabilityMCPTool :: string where "CapabilityMCPTool = ''mcp_tool''"

record capability_ref =
  cr_Kind :: string
  cr_Name :: string

record bash_command_policy =
  bp_Command :: string
  bp_ArgsPrefix :: "string list"
  bp_Policy :: exec_policy

record decision =
  dc_Capability :: capability_ref
  dc_Policy :: exec_policy
  dc_Reason :: string
  dc_ApprovalOutcome :: string
  dc_ApprovalReason :: string

definition policy_Default :: "exec_policy \<Rightarrow> exec_policy" where
  "policy_Default p = (if p = [] then ExecPolicyPassby else p)"

definition BuiltinCapability :: "string \<Rightarrow> capability_ref" where
  "BuiltinCapability name = \<lparr>cr_Kind = CapabilityBuiltin, cr_Name = name\<rparr>"

definition ExtraCapability :: "string \<Rightarrow> capability_ref" where
  "ExtraCapability name = \<lparr>cr_Kind = CapabilityExtra, cr_Name = name\<rparr>"

definition ToolCapability :: "string \<Rightarrow> capability_ref" where
  "ToolCapability name = \<lparr>cr_Kind = CapabilityTool, cr_Name = name\<rparr>"

definition MCPCapability :: "string \<Rightarrow> capability_ref" where
  "MCPCapability name = \<lparr>cr_Kind = CapabilityMCPTool, cr_Name = name\<rparr>"

definition ParseExtraTool :: "string \<Rightarrow> go_error + string" where
  "ParseExtraTool name =
     (if name = ''list_dir'' \<or> name = ''pwd'' then Inr name
      else Inl [''builtin: unknown extra tool '' @ go_quote name])"

definition isBuiltinToolName :: "string \<Rightarrow> bool" where
  "isBuiltinToolName name \<longleftrightarrow>
     name \<in> {''bash'', ''read_file'', ''write_file'', ''edit_file'', ''delete_file'', ''move_file'', ''grep'',
             ''pipeline_search_replace'', ''file_excerpt'', ''artifact_catalog'', ''structured_preview''}
     \<or> (case ParseExtraTool name of Inr _ \<Rightarrow> True | Inl _ \<Rightarrow> False)"

definition capabilityRefForTool :: "string \<Rightarrow> capability_ref" where
  "capabilityRefForTool name =
     (if isBuiltinToolName name then
        (case ParseExtraTool name of Inr _ \<Rightarrow> ExtraCapability name | Inl _ \<Rightarrow> BuiltinCapability name)
      else ToolCapability name)"

text \<open>\<open>mcp\<close> is the bare MCP tool name of a tool that has one.\<close>

definition capabilityRefForUnwrapped :: "string option \<Rightarrow> string \<Rightarrow> capability_ref" where
  "capabilityRefForUnwrapped mcp name =
     (if mcp \<noteq> None \<and> mcp \<noteq> Some [] then MCPCapability name else capabilityRefForTool name)"

definition namespacedMCPName :: "string \<Rightarrow> string \<Rightarrow> string" where
  "namespacedMCPName server tool =
     (if server = [] then tool else if tool = [] then server else server @ ''__'' @ tool)"

section \<open>Approval\<close>

definition ApprovalOutcomeApprove :: string where "ApprovalOutcomeApprove = ''approve''"
definition ApprovalOutcomeDeny :: string where "ApprovalOutcomeDeny = ''deny''"
definition ApprovalOutcomeApproveForSession :: string where
  "ApprovalOutcomeApproveForSession = ''approve_for_session''"

record approval_request =
  aq_CallID :: string
  aq_ToolName :: string
  aq_ArgumentsSummary :: string
  aq_Capability :: capability_ref
  aq_Policy :: exec_policy
  aq_Reason :: string

record approval_response =
  ar_Outcome :: string
  ar_Reason :: string

record call_metadata =
  cm_CallID :: string
  cm_ToolName :: string
  cm_ArgumentsSummary :: string

type_synonym 'w approver = "approval_request \<Rightarrow> 'w \<Rightarrow> (approval_response \<times> go_error) \<times> 'w"

record 'w call_ctx =
  cx_meta :: call_metadata
  cx_approver :: "'w approver option"

definition DisabledError :: "capability_ref \<Rightarrow> string \<Rightarrow> string" where
  "DisabledError ref reason =
     (if cr_Name ref = [] then
        (if reason = [] then ''llm: capability is disabled'' else ''llm: capability is disabled: '' @ reason)
      else if reason = [] then ''llm: capability '' @ go_quote (cr_Name ref) @ '' is disabled''
      else ''llm: capability '' @ go_quote (cr_Name ref) @ '' is disabled: '' @ reason)"

definition ApprovalDeniedError :: "capability_ref \<Rightarrow> string \<Rightarrow> string" where
  "ApprovalDeniedError ref reason =
     (if cr_Name ref = [] then
        (if reason = [] then ''llm: approval denied'' else ''llm: approval denied: '' @ reason)
      else if reason = [] then ''llm: capability '' @ go_quote (cr_Name ref) @ '' was denied approval''
      else ''llm: capability '' @ go_quote (cr_Name ref) @ '' was denied approval: '' @ reason)"

text \<open>The switch on the outcome, shared by both approval paths.\<close>

definition settle_outcome :: "capability_ref \<Rightarrow> approval_response \<Rightarrow> approval_response \<times> go_error" where
  "settle_outcome ref resp =
     (if ar_Outcome resp = ApprovalOutcomeApprove \<or> ar_Outcome resp = ApprovalOutcomeApproveForSession
      then (resp, [])
      else if ar_Outcome resp = [] \<or> ar_Outcome resp = ApprovalOutcomeDeny then
        let resp = (if ar_Reason resp = [] then resp\<lparr>ar_Reason := ''approval denied''\<rparr> else resp);
            resp = (if ar_Outcome resp = [] then resp\<lparr>ar_Outcome := ApprovalOutcomeDeny\<rparr> else resp)
        in (resp, [ApprovalDeniedError ref (ar_Reason resp)])
      else (resp, [''llm: invalid approval outcome '' @ go_quote (ar_Outcome resp)]))"

text \<open>The request with what the context knows about the call.\<close>

definition fill_request :: "call_metadata \<Rightarrow> approval_request \<Rightarrow> approval_request" where
  "fill_request meta req =
     (let req = (if aq_CallID req = [] then req\<lparr>aq_CallID := cm_CallID meta\<rparr> else req);
          req = (if aq_ToolName req = [] then req\<lparr>aq_ToolName := cm_ToolName meta\<rparr> else req)
      in if aq_ArgumentsSummary req = [] then req\<lparr>aq_ArgumentsSummary := cm_ArgumentsSummary meta\<rparr> else req)"

definition RequestApproval ::
  "'w call_ctx \<Rightarrow> approval_request \<Rightarrow> 'w \<Rightarrow> (approval_response \<times> go_error) \<times> 'w" where
  "RequestApproval cx req w =
     (let req = fill_request (cx_meta cx) req
      in case cx_approver cx of
           None \<Rightarrow>
             let resp = \<lparr>ar_Outcome = ApprovalOutcomeDeny, ar_Reason = ''no approver configured''\<rparr>
             in ((resp, [ApprovalDeniedError (aq_Capability req) (ar_Reason resp)]), w)
         | Some handler \<Rightarrow>
             (case handler req w of ((resp, err), w) \<Rightarrow>
                if err \<noteq> [] then ((resp, err), w) else (settle_outcome (aq_Capability req) resp, w)))"

section \<open>The policy wrapper\<close>

type_synonym policies = "(capability_ref, exec_policy) gomap"

text \<open>
  A tool: its output and error, and the decision it recorded last through the context
  (\<^verbatim>\<open>toolpolicy.Record\<close> overwrites what was recorded before).
\<close>

type_synonym 'w tool_body = "'w call_ctx \<Rightarrow> string \<Rightarrow> 'w \<Rightarrow> (string \<times> go_error) \<times> decision option \<times> 'w"

definition recorded :: "decision option \<Rightarrow> decision option \<Rightarrow> decision option" where
  "recorded earlier later = (case later of None \<Rightarrow> earlier | Some _ \<Rightarrow> later)"

definition resolvePolicy :: "policies \<Rightarrow> capability_ref \<Rightarrow> string \<Rightarrow> exec_policy" where
  "resolvePolicy ps ref name =
     (if ps = [] then ExecPolicyPassby
      else
        (case List.find (\<lambda>r. map_has ps r)
                [ref, ToolCapability name, \<lparr>cr_Kind = [], cr_Name = name\<rparr>] of
           Some r \<Rightarrow> (case map_get ps r of Some p \<Rightarrow> policy_Default p | None \<Rightarrow> ExecPolicyPassby)
         | None \<Rightarrow> ExecPolicyPassby))"

text \<open>
  \<^verbatim>\<open>policyTool.Execute\<close>.  The policy map is shared by the tools wrapped together, so it is part
  of the state.  The result: output and error, the recorded decision, the policies, the world.
\<close>

definition policyTool_Execute ::
  "capability_ref \<Rightarrow> string \<Rightarrow> 'w tool_body \<Rightarrow> 'w call_ctx \<Rightarrow> string \<Rightarrow> policies \<Rightarrow> 'w
     \<Rightarrow> (string \<times> go_error) \<times> decision option \<times> policies \<times> 'w" where
  "policyTool_Execute ref name body cx arguments ps w =
     (let policy = resolvePolicy ps ref name;
          dec = \<lparr>dc_Capability = ref, dc_Policy = policy, dc_Reason = ''capability policy'',
                 dc_ApprovalOutcome = [], dc_ApprovalReason = []\<rparr>
      in if policy = ExecPolicyOff then
           (([], [DisabledError ref ''capability policy is off'']), Some dec, ps, w)
         else if policy = ExecPolicyNeedApprove then
           (case RequestApproval cx \<lparr>aq_CallID = [], aq_ToolName = [], aq_ArgumentsSummary = [],
                    aq_Capability = ref, aq_Policy = policy, aq_Reason = dc_Reason dec\<rparr> w of
              ((resp, err), w) \<Rightarrow>
                let dec = dec\<lparr>dc_ApprovalOutcome := ar_Outcome resp, dc_ApprovalReason := ar_Reason resp\<rparr>
                in if err \<noteq> [] then (([], err), Some dec, ps, w)
                   else
                     let ps = (if ar_Outcome resp = ApprovalOutcomeApproveForSession
                               then map_set ps ref ExecPolicyPassby else ps)
                     in (case body cx arguments w of (res, later, w) \<Rightarrow> (res, recorded (Some dec) later, ps, w)))
         else
           (case body cx arguments w of (res, later, w) \<Rightarrow>
              (res, recorded (if policy \<noteq> ExecPolicyPassby then Some dec else None) later, ps, w)))"

section \<open>Runner-local policy snapshots\<close>

record tool_set_config =
  tsc_BashAllow :: "string list"
  tsc_BashBlock :: "string list"
  tsc_BashURLAllowlist :: "string list"
  tsc_Extras :: "string list"
  tsc_Policies :: policies
  tsc_BashCommandPolicies :: "bash_command_policy list"

text \<open>Copies of slices and maps have equal values.\<close>

definition cloneToolSetConfig :: "tool_set_config \<Rightarrow> tool_set_config" where
  "cloneToolSetConfig cfg = cfg\<lparr>tsc_Policies := copy_map (tsc_Policies cfg)\<rparr>"

type_synonym skill_tool_sets = "(string, tool_set_config) gomap"

text \<open>
  A node as \<^verbatim>\<open>snapshotSkillToolSets\<close> sees it: its skill name and the runtime configuration of
  its agent, \<open>None\<close> for a nil node or an agent without one.
\<close>

fun snapshotSkillToolSets ::
  "(string \<times> tool_set_config option) list \<Rightarrow> skill_tool_sets \<Rightarrow> skill_tool_sets" where
  "snapshotSkillToolSets [] sets = sets"
| "snapshotSkillToolSets ((skill, cfg) # ns) sets =
     (case cfg of
        None \<Rightarrow> snapshotSkillToolSets ns sets
      | Some c \<Rightarrow>
          if skill = [] \<or> map_has sets skill then snapshotSkillToolSets ns sets
          else snapshotSkillToolSets ns (map_set sets skill (cloneToolSetConfig c)))"

text \<open>\<open>applySkillToolSet\<close>: the configuration installed in the agent, and the snapshots.\<close>

definition applySkillToolSet ::
  "string \<Rightarrow> tool_set_config option \<Rightarrow> skill_tool_sets \<Rightarrow> tool_set_config option \<times> skill_tool_sets" where
  "applySkillToolSet skill agent sets =
     (case agent of
        None \<Rightarrow> (None, sets)
      | Some own \<Rightarrow>
          if skill = [] then (agent, sets)
          else
            (case map_get sets skill of
               Some cfg \<Rightarrow> (Some (cloneToolSetConfig cfg), sets)
             | None \<Rightarrow>
                 let cfg = cloneToolSetConfig own
                 in (Some (cloneToolSetConfig cfg), map_set sets skill cfg)))"

definition SkillToolSetConfig :: "string \<Rightarrow> skill_tool_sets \<Rightarrow> tool_set_config option" where
  "SkillToolSetConfig skill sets =
     (if skill = [] then None else map_option cloneToolSetConfig (map_get sets skill))"

definition no_snapshot :: "string \<Rightarrow> go_error" where
  "no_snapshot skill = [''runner: skill '' @ go_quote skill @ '' has no policy snapshot'']"

definition SetSkillCapabilityPolicy ::
  "string \<Rightarrow> capability_ref \<Rightarrow> exec_policy \<Rightarrow> skill_tool_sets \<Rightarrow> go_error \<times> skill_tool_sets" where
  "SetSkillCapabilityPolicy skill ref policy sets =
     (if skill = [] then ([''runner: skill name is required''], sets)
      else
        (case map_get sets skill of
           None \<Rightarrow> (no_snapshot skill, sets)
         | Some cfg \<Rightarrow>
             let cfg = cloneToolSetConfig cfg
             in ([], map_set sets skill (cfg\<lparr>tsc_Policies := map_set (tsc_Policies cfg) ref policy\<rparr>))))"

definition SetSkillBashCommandPolicies ::
  "string \<Rightarrow> bash_command_policy list \<Rightarrow> skill_tool_sets \<Rightarrow> go_error \<times> skill_tool_sets" where
  "SetSkillBashCommandPolicies skill ps sets =
     (if skill = [] then ([''runner: skill name is required''], sets)
      else
        (case map_get sets skill of
           None \<Rightarrow> (no_snapshot skill, sets)
         | Some cfg \<Rightarrow>
             ([], map_set sets skill ((cloneToolSetConfig cfg)\<lparr>tsc_BashCommandPolicies := ps\<rparr>))))"

end
