(* ===== verification/Conversation.thy ===== *)
theory Conversation
  imports Tool_Policy Complex_Main
begin

text \<open>
  The chat history of one agent: \<^verbatim>\<open>llm/turn.go\<close>, \<^verbatim>\<open>llm/tool_call.go\<close>,
  \<^verbatim>\<open>llm/event.go\<close>, \<^verbatim>\<open>llm/summarizer.go\<close> and \<^verbatim>\<open>llm/conversation.go\<close>.

  Every mutation of a \<open>conversation\<close> records one event in each bound session store, and a log
  is replayed with \<open>apply_event\<close>.  A store is a value of type \<open>'s\<close> accessed through the
  operations of the interface \<^verbatim>\<open>SessionStore\<close>, the record \<open>store_ops\<close>; a tool is a value of
  type \<open>'t\<close> of which only its specification is known here.  Cloning turns and events copies
  them, which is the identity on values.  Progress events on the outward stream do not change
  the conversation and are left out.  \<^verbatim>\<open>float64\<close> thresholds are rational numbers.  Error
  texts keep the constant part of their format.
\<close>

section \<open>Turns\<close>

datatype turn_role = RoleUser | RoleAssistant | RoleToolCall | RoleToolOutput | RoleReasoning | RoleOther string

fun role_String :: "turn_role \<Rightarrow> string" where
  "role_String RoleUser = ''user''"
| "role_String RoleAssistant = ''assistant''"
| "role_String RoleToolCall = ''tool_call''"
| "role_String RoleToolOutput = ''tool_output''"
| "role_String RoleReasoning = ''reasoning''"
| "role_String (RoleOther s) = s"

definition TierStableHistory :: int where "TierStableHistory = 1"
definition TierToolIO :: int where "TierToolIO = 2"
definition TierVolatile :: int where "TierVolatile = 3"

record tool_spec =
  ts_Name :: string
  ts_Description :: string
  ts_Parameters :: string

record tool_call =
  tc_CallID :: string
  tc_Name :: string
  tc_Arguments :: string

record tool_call_payload =
  tp_CallID :: string
  tp_Name :: string
  tp_Arguments :: string
  tp_Output :: string
  tp_Error :: string

record turn =
  tn_Role :: turn_role
  tn_Text :: string
  tn_Tool :: "tool_call_payload option"
  tn_Tier :: int
  tn_CreatedAt :: time
  tn_Raw :: bytes

record token_usage =
  tu_Input :: int
  tu_Cached :: int
  tu_Output :: int
  tu_Reasoning :: int
  tu_Total :: int

definition zero_usage :: token_usage where
  "zero_usage = \<lparr>tu_Input = 0, tu_Cached = 0, tu_Output = 0, tu_Reasoning = 0, tu_Total = 0\<rparr>"

record role_usage =
  ru_Instructions :: int
  ru_Tools :: int
  ru_User :: int
  ru_Assistant :: int
  ru_ToolIO :: int

section \<open>Session events\<close>

datatype event_kind =
    EventInit | EventAppendUser | EventAppendAssistant | EventAppendReasoning | EventAppendToolCall
  | EventAppendToolOutput | EventTrim | EventDropToolDetails | EventReplaceRange | EventRecordUsage
  | EventKindOther string

record sevent =
  ev_Seq :: int
  ev_Kind :: event_kind
  ev_Timestamp :: time
  ev_Instructions :: string
  ev_Tools :: "tool_spec list"
  ev_Turn :: "turn option"
  ev_KeepLast :: int
  ev_From :: int
  ev_To :: int
  ev_Replacement :: "turn list"
  ev_Usage :: "token_usage option"

definition new_event :: "event_kind \<Rightarrow> sevent" where
  "new_event k = \<lparr>ev_Seq = 0, ev_Kind = k, ev_Timestamp = 0, ev_Instructions = [], ev_Tools = [],
     ev_Turn = None, ev_KeepLast = 0, ev_From = 0, ev_To = 0, ev_Replacement = [], ev_Usage = None\<rparr>"

text \<open>The interface \<^verbatim>\<open>SessionStore\<close>: append (session, time of the call, event), load, truncate.\<close>

record 's store_ops =
  op_Append :: "string \<Rightarrow> time \<Rightarrow> sevent \<Rightarrow> 's \<Rightarrow> (go_error + int) \<times> 's"
  op_Load :: "string \<Rightarrow> 's \<Rightarrow> (go_error + sevent list) \<times> 's"
  op_Truncate :: "string \<Rightarrow> int \<Rightarrow> 's \<Rightarrow> go_error \<times> 's"

definition ErrSessionNotFound :: string where
  "ErrSessionNotFound = ''llm: session not found''"
definition ErrSessionNotInitialised :: string where
  "ErrSessionNotInitialised = ''llm: session log must start with an init event''"
definition ErrSessionAlreadyInitialised :: string where
  "ErrSessionAlreadyInitialised = ''llm: session already initialised''"

section \<open>Conversations\<close>

record auto_shrink =
  as_ContextWindow :: int
  as_Threshold :: rat
  as_KeepToolExchanges :: int
  as_KeepTurns :: int

type_synonym summarizer = "turn list \<Rightarrow> go_error + string"

record ('t, 's) conversation =
  cv_instructions :: string
  cv_toolSpecs :: "tool_spec list"
  cv_toolByName :: "(string, 't) gomap"
  cv_turns :: "turn list"
  cv_usage :: token_usage
  cv_autoShrink :: auto_shrink
  cv_summarizer :: "summarizer option"
  cv_maxSteps :: int
  cv_stores :: "'s list"
  cv_sessionID :: string
  cv_replaying :: bool
  cv_lastErr :: go_error

datatype 'a outcome = Ok 'a | Fail go_error | Panics

definition DefaultAutoShrinkConfig :: auto_shrink where
  "DefaultAutoShrinkConfig = \<lparr>as_ContextWindow = 0, as_Threshold = Fract 85 100, as_KeepToolExchanges = 2, as_KeepTurns = 10\<rparr>"

definition DefaultMaxSteps :: int where "DefaultMaxSteps = 20"

record conversation_config =
  cc_MaxSteps :: int
  cc_AutoShrink :: "auto_shrink option"
  cc_Summarizer :: "summarizer option"

text \<open>\<open>dflt\<close> is \<^verbatim>\<open>DefaultSummarizerFunc\<close>, defined below.\<close>

definition resolveConversationConfig :: "summarizer \<Rightarrow> conversation_config \<Rightarrow> conversation_config" where
  "resolveConversationConfig dflt cfg =
     (let cfg = (if cc_MaxSteps cfg \<le> 0 then cfg\<lparr>cc_MaxSteps := DefaultMaxSteps\<rparr> else cfg);
          cfg = (case cc_AutoShrink cfg of
                   None \<Rightarrow> cfg\<lparr>cc_AutoShrink := Some DefaultAutoShrinkConfig\<rparr>
                 | Some _ \<Rightarrow> cfg)
      in case cc_Summarizer cfg of None \<Rightarrow> cfg\<lparr>cc_Summarizer := Some dflt\<rparr> | Some _ \<Rightarrow> cfg)"

section \<open>The default summarizer\<close>

definition summarizeTurn :: "turn \<Rightarrow> nat \<Rightarrow> string" where
  "summarizeTurn turn maxBytes =
     (let text =
        (case tn_Tool turn of
           Some tool \<Rightarrow>
             let name = (if tp_Name tool = [] then tp_CallID tool else tp_Name tool) in
             (case tn_Role turn of
                RoleToolCall \<Rightarrow> ''tool call '' @ name @ '' '' @ tp_Arguments tool
              | RoleToolOutput \<Rightarrow>
                  ''tool result '' @ name @ '' '' @ tp_Output tool
                    @ (if tp_Error tool \<noteq> [] then '' error='' @ tp_Error tool else [])
              | _ \<Rightarrow> tp_Output tool)
         | None \<Rightarrow> tn_Text turn);
          text = Join (Fields text) '' ''
      in if text = [] then []
         else
           let text = (if length text > maxBytes then take maxBytes text @ ''...'' else text)
           in role_String (tn_Role turn) @ '': '' @ text)"

fun summary_loop :: "string \<Rightarrow> turn list \<Rightarrow> string" where
  "summary_loop b [] = b"
| "summary_loop b (t # ts) =
     (let line = summarizeTurn t 240 in
      if line = [] then summary_loop b ts
      else if length b + length line + 4 > 2400 then b @ ''- ...''
      else summary_loop (b @ ''- '' @ line @ [CHR 0x0A]) ts)"

text \<open>\<^verbatim>\<open>DefaultSummarizerFunc\<close> with a context that is not done.\<close>

definition DefaultSummarizerFunc :: summarizer where
  "DefaultSummarizerFunc turns =
     Inr (if turns = [] then ''No earlier conversation turns.''
          else TrimSpace (summary_loop (''Earlier conversation:'' @ [CHR 0x0A]) turns))"

definition DefaultConversationConfig :: conversation_config where
  "DefaultConversationConfig =
     \<lparr>cc_MaxSteps = DefaultMaxSteps, cc_AutoShrink = Some DefaultAutoShrinkConfig,
      cc_Summarizer = Some DefaultSummarizerFunc\<rparr>"

section \<open>Construction and emission\<close>

text \<open>The checks of the tool list, in order; \<open>None\<close> is a nil tool.\<close>

fun check_tools :: "('t \<Rightarrow> tool_spec) \<Rightarrow> 't option list \<Rightarrow> (string, 't) gomap \<Rightarrow> go_error + (string, 't) gomap" where
  "check_tools spec [] byName = Inr byName"
| "check_tools spec (None # ts) byName = Inl [''llm: NewConversation received a nil tool'']"
| "check_tools spec (Some t # ts) byName =
     (let name = ts_Name (spec t) in
      if name = [] then Inl [''llm: NewConversation received a tool with empty name'']
      else if map_has byName name then Inl [''llm: NewConversation received duplicate tool '' @ go_quote name]
      else check_tools spec ts (map_set byName name t))"

definition NewConversation ::
  "('t \<Rightarrow> tool_spec) \<Rightarrow> string \<Rightarrow> 't option list \<Rightarrow> conversation_config
     \<Rightarrow> go_error + ('t, 's) conversation" where
  "NewConversation spec instructions tools cfg =
     (case check_tools spec tools [] of
        Inl e \<Rightarrow> Inl e
      | Inr byName \<Rightarrow>
          let resolved = resolveConversationConfig DefaultSummarizerFunc cfg in
          Inr \<lparr>cv_instructions = instructions, cv_toolSpecs = map (\<lambda>t. spec (the t)) tools,
               cv_toolByName = byName, cv_turns = [], cv_usage = zero_usage,
               cv_autoShrink = the (cc_AutoShrink resolved), cv_summarizer = cc_Summarizer resolved,
               cv_maxSteps = cc_MaxSteps resolved, cv_stores = [], cv_sessionID = [],
               cv_replaying = False, cv_lastErr = []\<rparr>)"

fun append_all ::
  "'s store_ops \<Rightarrow> string \<Rightarrow> time \<Rightarrow> sevent \<Rightarrow> 's list \<Rightarrow> go_error \<Rightarrow> go_error \<times> 's list" where
  "append_all ops sid now ev [] lastErr = (lastErr, [])"
| "append_all ops sid now ev (st # sts) lastErr =
     (case op_Append ops sid now ev st of (r, st) \<Rightarrow>
        let lastErr = (case r of Inl err \<Rightarrow> if lastErr = [] then err else lastErr | Inr _ \<Rightarrow> lastErr)
        in (case append_all ops sid now ev sts lastErr of (lastErr, sts) \<Rightarrow> (lastErr, st # sts)))"

definition emit ::
  "'s store_ops \<Rightarrow> time \<Rightarrow> sevent \<Rightarrow> ('t, 's) conversation \<Rightarrow> ('t, 's) conversation" where
  "emit ops now ev c =
     (if cv_stores c = [] \<or> cv_replaying c then c
      else
        (case append_all ops (cv_sessionID c) now ev (cv_stores c) (cv_lastErr c) of (lastErr, sts) \<Rightarrow>
           c\<lparr>cv_stores := sts, cv_lastErr := lastErr\<rparr>))"

section \<open>Appending turns\<close>

definition append_turn ::
  "'s store_ops \<Rightarrow> time \<Rightarrow> event_kind \<Rightarrow> turn \<Rightarrow> ('t, 's) conversation \<Rightarrow> ('t, 's) conversation" where
  "append_turn ops now k t c =
     emit ops now ((new_event k)\<lparr>ev_Turn := Some t\<rparr>) (c\<lparr>cv_turns := cv_turns c @ [t]\<rparr>)"

definition AppendUser ::
  "'s store_ops \<Rightarrow> time \<Rightarrow> string \<Rightarrow> ('t, 's) conversation \<Rightarrow> ('t, 's) conversation" where
  "AppendUser ops now text =
     append_turn ops now EventAppendUser
       \<lparr>tn_Role = RoleUser, tn_Text = text, tn_Tool = None, tn_Tier = TierVolatile,
        tn_CreatedAt = now, tn_Raw = []\<rparr>"

definition AppendAssistantText ::
  "'s store_ops \<Rightarrow> time \<Rightarrow> string \<Rightarrow> ('t, 's) conversation \<Rightarrow> ('t, 's) conversation" where
  "AppendAssistantText ops now text =
     append_turn ops now EventAppendAssistant
       \<lparr>tn_Role = RoleAssistant, tn_Text = text, tn_Tool = None, tn_Tier = TierStableHistory,
        tn_CreatedAt = now, tn_Raw = []\<rparr>"

definition AppendReasoning ::
  "'s store_ops \<Rightarrow> time \<Rightarrow> string \<Rightarrow> bytes \<Rightarrow> ('t, 's) conversation \<Rightarrow> ('t, 's) conversation" where
  "AppendReasoning ops now text raw c =
     (if text = [] \<and> raw = [] then c
      else append_turn ops now EventAppendReasoning
             \<lparr>tn_Role = RoleReasoning, tn_Text = text, tn_Tool = None, tn_Tier = TierToolIO,
              tn_CreatedAt = now, tn_Raw = raw\<rparr> c)"

definition call_turn :: "time \<Rightarrow> tool_call \<Rightarrow> turn" where
  "call_turn now call =
     \<lparr>tn_Role = RoleToolCall, tn_Text = [],
      tn_Tool = Some \<lparr>tp_CallID = tc_CallID call, tp_Name = tc_Name call, tp_Arguments = tc_Arguments call,
                      tp_Output = [], tp_Error = []\<rparr>,
      tn_Tier = TierToolIO, tn_CreatedAt = now, tn_Raw = []\<rparr>"

definition AppendToolCall ::
  "'s store_ops \<Rightarrow> time \<Rightarrow> tool_call \<Rightarrow> ('t, 's) conversation \<Rightarrow> ('t, 's) conversation" where
  "AppendToolCall ops now call = append_turn ops now EventAppendToolCall (call_turn now call)"

definition output_turn :: "time \<Rightarrow> string \<Rightarrow> string \<Rightarrow> go_error \<Rightarrow> turn" where
  "output_turn now callID out execErr =
     \<lparr>tn_Role = RoleToolOutput, tn_Text = [],
      tn_Tool = Some \<lparr>tp_CallID = callID, tp_Name = [], tp_Arguments = [], tp_Output = out,
                      tp_Error = error_text execErr\<rparr>,
      tn_Tier = TierToolIO, tn_CreatedAt = now, tn_Raw = []\<rparr>"

definition AppendToolOutput ::
  "'s store_ops \<Rightarrow> time \<Rightarrow> string \<Rightarrow> string \<Rightarrow> go_error \<Rightarrow> ('t, 's) conversation \<Rightarrow> ('t, 's) conversation" where
  "AppendToolOutput ops now callID out execErr =
     append_turn ops now EventAppendToolOutput (output_turn now callID out execErr)"

section \<open>Shrinking\<close>

text \<open>The loop of \<^verbatim>\<open>Trim\<close> and \<^verbatim>\<open>Compress\<close> that moves a cut back to the start of a tool exchange.\<close>

definition inner_turn :: "turn \<Rightarrow> bool" where
  "inner_turn t \<longleftrightarrow> tn_Role t = RoleToolOutput \<or> tn_Role t = RoleReasoning"

fun rewind_cut :: "turn list \<Rightarrow> nat \<Rightarrow> nat" where
  "rewind_cut ts 0 = 0"
| "rewind_cut ts (Suc n) =
     (if Suc n < length ts \<and> inner_turn (ts ! Suc n) then rewind_cut ts n else Suc n)"

definition Trim :: "'s store_ops \<Rightarrow> time \<Rightarrow> int \<Rightarrow> ('t, 's) conversation \<Rightarrow> nat \<times> ('t, 's) conversation" where
  "Trim ops now keepLastTurns c =
     (let keep = (if keepLastTurns < 0 then 0 else keepLastTurns) in
      if int (length (cv_turns c)) \<le> keep then (0, c)
      else
        let cut = rewind_cut (cv_turns c) (length (cv_turns c) - nat keep)
        in (cut, emit ops now ((new_event EventTrim)\<lparr>ev_KeepLast := keep\<rparr>)
                   (c\<lparr>cv_turns := drop cut (cv_turns c)\<rparr>)))"

definition summarizeTruncated :: "nat \<Rightarrow> string" where
  "summarizeTruncated originalBytes = ''[tool output truncated; '' @ itoa_digits originalBytes @ '' bytes]''"

text \<open>The loop runs from the newest turn; the list is reversed.\<close>

fun drop_details :: "int \<Rightarrow> int \<Rightarrow> turn list \<Rightarrow> nat \<times> turn list" where
  "drop_details keep seen [] = (0, [])"
| "drop_details keep seen (t # ts) =
     (case tn_Tool t of
        Some tool \<Rightarrow>
          if tn_Role t \<noteq> RoleToolOutput then
            (case drop_details keep seen ts of (k, ts) \<Rightarrow> (k, t # ts))
          else if seen + 1 \<le> keep \<or> tp_Output tool = [] then
            (case drop_details keep (seen + 1) ts of (k, ts) \<Rightarrow> (k, t # ts))
          else
            (case drop_details keep (seen + 1) ts of (k, ts) \<Rightarrow>
               (Suc k, t\<lparr>tn_Tool := Some (tool\<lparr>tp_Output := summarizeTruncated (length (tp_Output tool))\<rparr>)\<rparr> # ts))
      | None \<Rightarrow> (case drop_details keep seen ts of (k, ts) \<Rightarrow> (k, t # ts)))"

definition DropToolDetails ::
  "'s store_ops \<Rightarrow> time \<Rightarrow> int \<Rightarrow> ('t, 's) conversation \<Rightarrow> nat \<times> ('t, 's) conversation" where
  "DropToolDetails ops now keepLastN c =
     (let keep = (if keepLastN < 0 then 0 else keepLastN) in
      (case drop_details keep 0 (rev (cv_turns c)) of (truncated, ts) \<Rightarrow>
         let c = c\<lparr>cv_turns := rev ts\<rparr>
         in (truncated,
             if truncated > 0 then emit ops now ((new_event EventDropToolDetails)\<lparr>ev_KeepLast := keep\<rparr>) c
             else c)))"

text \<open>Slicing with a negative bound panics.\<close>

definition ReplaceRange ::
  "'s store_ops \<Rightarrow> time \<Rightarrow> int \<Rightarrow> int \<Rightarrow> turn list \<Rightarrow> ('t, 's) conversation
     \<Rightarrow> ('t, 's) conversation outcome" where
  "ReplaceRange ops now fr to replacement c =
     (let len = int (length (cv_turns c));
          fr = (if fr < 0 then 0 else fr);
          to = (if to > len then len else to);
          fr = (if fr > to then to else fr)
      in if fr < 0 then Panics
         else Ok (emit ops now
                    ((new_event EventReplaceRange)\<lparr>ev_From := fr, ev_To := to, ev_Replacement := replacement\<rparr>)
                    (c\<lparr>cv_turns := take (nat fr) (cv_turns c) @ replacement @ drop (nat to) (cv_turns c)\<rparr>)))"

definition summaryPrefix :: string where
  "summaryPrefix = ''Conversation summary (compressed history):'' @ [CHR 0x0A]"

definition summary_turn :: "time \<Rightarrow> string \<Rightarrow> turn" where
  "summary_turn now summary =
     \<lparr>tn_Role = RoleAssistant, tn_Text = summaryPrefix @ summary, tn_Tool = None,
      tn_Tier = TierStableHistory, tn_CreatedAt = now, tn_Raw = []\<rparr>"

definition Compress ::
  "'s store_ops \<Rightarrow> time \<Rightarrow> summarizer option \<Rightarrow> int \<Rightarrow> ('t, 's) conversation
     \<Rightarrow> (go_error \<times> nat \<times> ('t, 's) conversation) outcome" where
  "Compress ops now sm uptoTurn c =
     (case sm of
        None \<Rightarrow> Ok ([], 0, c)
      | Some summarize \<Rightarrow>
          if uptoTurn \<le> 0 then Ok ([], 0, c)
          else
            let upto = (if uptoTurn > int (length (cv_turns c)) then length (cv_turns c) else nat uptoTurn);
                upto = rewind_cut (cv_turns c) upto
            in if upto = 0 then Ok ([], 0, c)
               else
                 (case summarize (take upto (cv_turns c)) of
                    Inl err \<Rightarrow> Ok (err, 0, c)
                  | Inr summary \<Rightarrow>
                      (case ReplaceRange ops now 0 (int upto) [summary_turn now summary] c of
                         Ok c \<Rightarrow> Ok ([], upto, c)
                       | Fail e \<Rightarrow> Fail e
                       | Panics \<Rightarrow> Panics)))"

text \<open>Conversion of a float to an integer truncates.\<close>

definition shrink_limit :: "auto_shrink \<Rightarrow> int" where
  "shrink_limit cfg = \<lfloor>of_int (as_ContextWindow cfg) * as_Threshold cfg\<rfloor>"

definition maybeAutoShrink ::
  "'s store_ops \<Rightarrow> time \<Rightarrow> ('t, 's) conversation \<Rightarrow> (go_error \<times> ('t, 's) conversation) outcome" where
  "maybeAutoShrink ops now c =
     (let cfg = cv_autoShrink c in
      if as_ContextWindow cfg \<le> 0 \<or> as_Threshold cfg \<le> 0 then Ok ([], c)
      else if shrink_limit cfg \<le> 0 \<or> tu_Input (cv_usage c) < shrink_limit cfg then Ok ([], c)
      else
        let c = snd (DropToolDetails ops now (as_KeepToolExchanges cfg) c) in
        if cv_summarizer c \<noteq> None \<and> int (length (cv_turns c)) > as_KeepTurns cfg then
          (case Compress ops now (cv_summarizer c) (int (length (cv_turns c)) - as_KeepTurns cfg) c of
             Ok ([], _, c) \<Rightarrow> Ok ([], c)
           | Ok (e # es, _, c) \<Rightarrow> Ok (e # es, snd (Trim ops now (as_KeepTurns cfg) c))
           | Fail e \<Rightarrow> Fail e
           | Panics \<Rightarrow> Panics)
        else Ok ([], snd (Trim ops now (as_KeepTurns cfg) c)))"

definition recordUsage ::
  "'s store_ops \<Rightarrow> time \<Rightarrow> token_usage \<Rightarrow> ('t, 's) conversation \<Rightarrow> (go_error \<times> ('t, 's) conversation) outcome" where
  "recordUsage ops now u c =
     maybeAutoShrink ops now
       (emit ops now ((new_event EventRecordUsage)\<lparr>ev_Usage := Some u\<rparr>) (c\<lparr>cv_usage := u\<rparr>))"

section \<open>Replay and sessions\<close>

text \<open>
  \<^verbatim>\<open>Event.apply\<close>.  It runs while \<^verbatim>\<open>replaying\<close> is set, so the calls in it emit nothing: no
  store is touched and the time of the call does not matter.
\<close>

definition apply_event ::
  "'s store_ops \<Rightarrow> sevent \<Rightarrow> ('t, 's) conversation \<Rightarrow> ('t, 's) conversation outcome" where
  "apply_event ops ev c =
     (case ev_Kind ev of
        EventInit \<Rightarrow> Ok (c\<lparr>cv_instructions := ev_Instructions ev, cv_toolSpecs := ev_Tools ev\<rparr>)
      | EventTrim \<Rightarrow> Ok (snd (Trim ops 0 (ev_KeepLast ev) c))
      | EventDropToolDetails \<Rightarrow> Ok (snd (DropToolDetails ops 0 (ev_KeepLast ev) c))
      | EventReplaceRange \<Rightarrow> ReplaceRange ops 0 (ev_From ev) (ev_To ev) (ev_Replacement ev) c
      | EventRecordUsage \<Rightarrow> Ok (case ev_Usage ev of Some u \<Rightarrow> c\<lparr>cv_usage := u\<rparr> | None \<Rightarrow> c)
      | EventKindOther k \<Rightarrow> Fail [''llm: unknown event kind '' @ go_quote k]
      | _ \<Rightarrow> (case ev_Turn ev of
                None \<Rightarrow> Fail [''llm: event missing turn'']
              | Some t \<Rightarrow> Ok (c\<lparr>cv_turns := cv_turns c @ [t]\<rparr>)))"

fun missing_tool :: "(string, 't) gomap \<Rightarrow> tool_spec list \<Rightarrow> tool_spec option" where
  "missing_tool byName [] = None"
| "missing_tool byName (ts # tss) = (if map_has byName (ts_Name ts) then missing_tool byName tss else Some ts)"

text \<open>The replay loop; \<open>check\<close> is set in \<^verbatim>\<open>OpenSession\<close>, which demands every tool of the init event.\<close>

fun replay_events ::
  "'s store_ops \<Rightarrow> bool \<Rightarrow> sevent list \<Rightarrow> ('t, 's) conversation \<Rightarrow> ('t, 's) conversation outcome" where
  "replay_events ops check [] c = Ok c"
| "replay_events ops check (ev # evs) c =
     (case apply_event ops ev c of
        Panics \<Rightarrow> Panics
      | Fail e \<Rightarrow> Fail (map (\<lambda>m. ''llm: replay event: '' @ m) e)
      | Ok c \<Rightarrow>
          (case (if check \<and> ev_Kind ev = EventInit then missing_tool (cv_toolByName c) (ev_Tools ev) else None) of
             Some ts \<Rightarrow> Fail [''llm: session requires tool '' @ go_quote (ts_Name ts) @ '' which is not registered'']
           | None \<Rightarrow> replay_events ops check evs c))"

text \<open>
  A turn that \<^verbatim>\<open>apply\<close> takes from an event shares its tool payload with the event, and
  \<^verbatim>\<open>DropToolDetails\<close> writes through the shared pointer: after the replay the loaded events are no
  longer what was loaded.  \<open>shared_events\<close> is the list of events after the replay.  It follows
  where each turn comes from: the event and, in it, the turn (0) or a replacement (from 1).
\<close>

type_synonym origin = "nat \<times> nat"

definition apply_origins ::
  "'s store_ops \<Rightarrow> nat \<Rightarrow> sevent \<Rightarrow> ('t, 's) conversation \<Rightarrow> origin list \<Rightarrow> origin list" where
  "apply_origins ops i ev c os =
     (case ev_Kind ev of
        EventTrim \<Rightarrow> drop (fst (Trim ops 0 (ev_KeepLast ev) c)) os
      | EventReplaceRange \<Rightarrow>
          let len = int (length (cv_turns c));
              fr = (if ev_From ev < 0 then 0 else ev_From ev);
              to = (if ev_To ev > len then len else ev_To ev);
              fr = (if fr > to then to else fr)
          in take (nat fr) os @ map (\<lambda>j. (i, Suc j)) [0..<length (ev_Replacement ev)] @ drop (nat to) os
      | EventInit \<Rightarrow> os
      | EventDropToolDetails \<Rightarrow> os
      | EventRecordUsage \<Rightarrow> os
      | EventKindOther k \<Rightarrow> os
      | _ \<Rightarrow> os @ [(i, 0)])"

fun put_tool :: "origin \<times> turn \<Rightarrow> sevent list \<Rightarrow> sevent list" where
  "put_tool ((i, 0), t) evs =
     evs[i := (evs ! i)\<lparr>ev_Turn := map_option (\<lambda>u. u\<lparr>tn_Tool := tn_Tool t\<rparr>) (ev_Turn (evs ! i))\<rparr>]"
| "put_tool ((i, Suc j), t) evs =
     evs[i := (evs ! i)\<lparr>ev_Replacement :=
       (ev_Replacement (evs ! i))[j := (ev_Replacement (evs ! i) ! j)\<lparr>tn_Tool := tn_Tool t\<rparr>]\<rparr>]"

fun shared_events ::
  "'s store_ops \<Rightarrow> nat \<Rightarrow> sevent list \<Rightarrow> origin list \<Rightarrow> ('t, 's) conversation \<Rightarrow> sevent list \<Rightarrow> sevent list" where
  "shared_events ops i [] os c loaded = loaded"
| "shared_events ops i (ev # evs) os c loaded =
     (case apply_event ops ev c of
        Ok c' \<Rightarrow>
          let os = apply_origins ops i ev c os;
              loaded = (if ev_Kind ev = EventDropToolDetails then fold put_tool (zip os (cv_turns c')) loaded else loaded)
          in shared_events ops (Suc i) evs os c' loaded
      | _ \<Rightarrow> loaded)"

text \<open>\<^verbatim>\<open>loadSessionEvents\<close>: the first store that has the session, and the stores after the loads.\<close>

fun loadSessionEvents ::
  "'s store_ops \<Rightarrow> string \<Rightarrow> nat \<Rightarrow> 's list \<Rightarrow> (go_error + sevent list \<times> nat) \<times> 's list" where
  "loadSessionEvents ops sid i [] = (Inl [ErrSessionNotFound], [])"
| "loadSessionEvents ops sid i (st # sts) =
     (case op_Load ops sid st of
        (Inr evs, st) \<Rightarrow> (Inr (evs, i), st # sts)
      | (Inl e, st) \<Rightarrow>
          if \<not> error_Is e ErrSessionNotFound
          then (Inl (map (\<lambda>m. ''llm: load session: '' @ m) e), st # sts)
          else (case loadSessionEvents ops sid (Suc i) sts of (r, sts) \<Rightarrow> (r, st # sts)))"

text \<open>Appending one event after the other to a store, stopping at the first error.\<close>

fun append_each :: "'s store_ops \<Rightarrow> string \<Rightarrow> time \<Rightarrow> sevent list \<Rightarrow> 's \<Rightarrow> go_error \<times> 's" where
  "append_each ops sid now [] st = ([], st)"
| "append_each ops sid now (ev # evs) st =
     (case op_Append ops sid now ev st of
        (Inl e, st) \<Rightarrow> (e, st)
      | (Inr _, st) \<Rightarrow> append_each ops sid now evs st)"

fun mirrorSessionEvents ::
  "'s store_ops \<Rightarrow> string \<Rightarrow> time \<Rightarrow> nat \<Rightarrow> sevent list \<Rightarrow> nat \<Rightarrow> 's list \<Rightarrow> go_error \<times> 's list" where
  "mirrorSessionEvents ops sid now source evs i [] = ([], [])"
| "mirrorSessionEvents ops sid now source evs i (st # sts) =
     (let rest = (\<lambda>st. case mirrorSessionEvents ops sid now source evs (Suc i) sts of (e, sts) \<Rightarrow> (e, st # sts)) in
      if i = source then rest st
      else
        (case op_Load ops sid st of
           (Inr _, st) \<Rightarrow> rest st
         | (Inl e, st) \<Rightarrow>
             if \<not> error_Is e ErrSessionNotFound then (map (\<lambda>m. ''llm: load mirrored session: '' @ m) e, st # sts)
             else
               (case append_each ops sid now evs st of
                  ([], st) \<Rightarrow> rest st
                | (e # es, st) \<Rightarrow> (map (\<lambda>m. ''llm: mirror session: '' @ m) (e # es), st # sts))))"

fun seed_stores :: "'s store_ops \<Rightarrow> string \<Rightarrow> time \<Rightarrow> sevent \<Rightarrow> 's list \<Rightarrow> go_error \<times> 's list" where
  "seed_stores ops sid now ev [] = ([], [])"
| "seed_stores ops sid now ev (st # sts) =
     (case op_Append ops sid now ev st of
        (Inl e, st) \<Rightarrow> (map (\<lambda>m. ''llm: seed session: '' @ m) e, st # sts)
      | (Inr _, st) \<Rightarrow> (case seed_stores ops sid now ev sts of (e, sts) \<Rightarrow> (e, st # sts)))"

definition init_event :: "('t, 's) conversation \<Rightarrow> sevent" where
  "init_event c = (new_event EventInit)\<lparr>ev_Instructions := cv_instructions c, ev_Tools := cv_toolSpecs c\<rparr>"

text \<open>
  \<^verbatim>\<open>OpenSession\<close>.  The stores are shared objects, so they are returned also when the call
  fails.  The mirror gets the events as the replay left them.  The check for nil stores has no counterpart: every element of the list is a store.
\<close>

definition OpenSession ::
  "'s store_ops \<Rightarrow> time \<Rightarrow> string \<Rightarrow> 's list \<Rightarrow> ('t, 's) conversation
     \<Rightarrow> ('t, 's) conversation outcome \<times> 's list" where
  "OpenSession ops now sid sts c =
     (if sts = [] then (Fail [''llm: OpenSession requires at least one store''], sts)
      else if cv_stores c \<noteq> [] then (Fail [''llm: conversation is already bound to a session''], sts)
      else if cv_turns c \<noteq> [] then (Fail [''llm: OpenSession requires a fresh conversation''], sts)
      else
        (case loadSessionEvents ops sid 0 sts of
           (Inr (evs, source), sts) \<Rightarrow>
             (case replay_events ops True evs (c\<lparr>cv_replaying := True\<rparr>) of
                Ok c' \<Rightarrow>
                  (case mirrorSessionEvents ops sid now source
                          (shared_events ops 0 evs [] (c\<lparr>cv_replaying := True\<rparr>) evs) 0 sts of
                     ([], sts) \<Rightarrow>
                       (Ok (c'\<lparr>cv_replaying := False, cv_stores := sts, cv_sessionID := sid\<rparr>), sts)
                   | (e # es, sts) \<Rightarrow> (Fail (e # es), sts))
              | Fail e \<Rightarrow> (Fail e, sts)
              | Panics \<Rightarrow> (Panics, sts))
         | (Inl e, sts) \<Rightarrow>
             if error_Is e ErrSessionNotFound then
               (case seed_stores ops sid now (init_event c) sts of
                  ([], sts) \<Rightarrow> (Ok (c\<lparr>cv_stores := sts, cv_sessionID := sid\<rparr>), sts)
                | (e # es, sts) \<Rightarrow> (Fail (e # es), sts))
             else (Fail (map (\<lambda>m. ''llm: load session: '' @ m) e), sts)))"

fun truncate_stores :: "'s store_ops \<Rightarrow> string \<Rightarrow> int \<Rightarrow> 's list \<Rightarrow> go_error \<times> 's list" where
  "truncate_stores ops sid toSeq [] = ([], [])"
| "truncate_stores ops sid toSeq (st # sts) =
     (case op_Truncate ops sid toSeq st of
        (e # es, st) \<Rightarrow> (map (\<lambda>m. ''llm: truncate session: '' @ m) (e # es), st # sts)
      | ([], st) \<Rightarrow> (case truncate_stores ops sid toSeq sts of (e, sts) \<Rightarrow> (e, st # sts)))"

text \<open>\<^verbatim>\<open>Conversation.Truncate\<close>: the error and the conversation it leaves.\<close>

definition conv_Truncate ::
  "'s store_ops \<Rightarrow> int \<Rightarrow> ('t, 's) conversation \<Rightarrow> (go_error \<times> ('t, 's) conversation) outcome" where
  "conv_Truncate ops toSeq c =
     (if cv_stores c = [] then Ok ([''llm: Truncate requires an open session''], c)
      else
        (case truncate_stores ops (cv_sessionID c) toSeq (cv_stores c) of
           (e # es, sts) \<Rightarrow> Ok (e # es, c\<lparr>cv_stores := sts\<rparr>)
         | ([], sts) \<Rightarrow>
             (case op_Load ops (cv_sessionID c) (hd sts) of
                (Inl e, st) \<Rightarrow> Ok (e, c\<lparr>cv_stores := st # tl sts\<rparr>)
              | (Inr evs, st) \<Rightarrow>
                  (case replay_events ops False evs
                          (c\<lparr>cv_stores := st # tl sts, cv_instructions := [], cv_toolSpecs := [],
                             cv_turns := [], cv_usage := zero_usage, cv_replaying := True\<rparr>) of
                     Ok c \<Rightarrow> Ok ([], c\<lparr>cv_replaying := False\<rparr>)
                   | Fail e \<Rightarrow> Fail e
                   | Panics \<Rightarrow> Panics))))"

section \<open>Usage by role\<close>

fun turn_bytes :: "(turn \<Rightarrow> nat) \<Rightarrow> turn list \<Rightarrow> int" where
  "turn_bytes f [] = 0"
| "turn_bytes f (t # ts) = int (f t) + turn_bytes f ts"

definition io_bytes :: "turn \<Rightarrow> nat" where
  "io_bytes t =
     (case tn_Tool t of
        None \<Rightarrow> 0
      | Some tool \<Rightarrow>
          if tn_Role t = RoleToolCall then length (tp_Name tool) + length (tp_Arguments tool)
          else if tn_Role t = RoleToolOutput then length (tp_Output tool) + length (tp_Error tool)
          else 0)"

definition zero_role_usage :: role_usage where
  "zero_role_usage = \<lparr>ru_Instructions = 0, ru_Tools = 0, ru_User = 0, ru_Assistant = 0, ru_ToolIO = 0\<rparr>"

definition UsageByRole :: "('t, 's) conversation \<Rightarrow> role_usage" where
  "UsageByRole c =
     (let budget = tu_Input (cv_usage c) - tu_Cached (cv_usage c);
          budget = (if budget < 0 then 0 else budget)
      in if budget = 0 then zero_role_usage
         else
           let instrBytes = int (length (cv_instructions c));
               toolBytes = sum_list (map (\<lambda>t. int (length (ts_Name t)) + int (length (ts_Description t))) (cv_toolSpecs c));
               userBytes = turn_bytes (\<lambda>t. if tn_Role t = RoleUser then length (tn_Text t) else 0) (cv_turns c);
               assistantBytes = turn_bytes (\<lambda>t. if tn_Role t = RoleAssistant then length (tn_Text t) else 0) (cv_turns c);
               toolIOBytes = turn_bytes io_bytes (cv_turns c);
               total = instrBytes + toolBytes + userBytes + assistantBytes + toolIOBytes;
               alloc = (\<lambda>bytes. budget * bytes div total)
           in if total = 0 then zero_role_usage
              else \<lparr>ru_Instructions = alloc instrBytes, ru_Tools = alloc toolBytes, ru_User = alloc userBytes,
                    ru_Assistant = alloc assistantBytes, ru_ToolIO = alloc toolIOBytes\<rparr>)"

section \<open>The JSON form\<close>

record conversation_json =
  cj_Instructions :: string
  cj_Tools :: "tool_spec list"
  cj_Turns :: "turn list"
  cj_Usage :: token_usage
  cj_AutoShrink :: auto_shrink

text \<open>\<open>marshal\<close> and \<open>unmarshal\<close> are \<^verbatim>\<open>json.Marshal\<close> and \<^verbatim>\<open>json.Unmarshal\<close> at this type.\<close>

definition MarshalJSON ::
  "(conversation_json \<Rightarrow> go_error + string) \<Rightarrow> ('t, 's) conversation \<Rightarrow> go_error + string" where
  "MarshalJSON marshal c =
     marshal \<lparr>cj_Instructions = cv_instructions c, cj_Tools = cv_toolSpecs c, cj_Turns = cv_turns c,
              cj_Usage = cv_usage c, cj_AutoShrink = cv_autoShrink c\<rparr>"

definition UnmarshalJSON ::
  "(string \<Rightarrow> go_error + conversation_json) \<Rightarrow> string \<Rightarrow> ('t, 's) conversation
     \<Rightarrow> go_error \<times> ('t, 's) conversation" where
  "UnmarshalJSON unmarshal data c =
     (case unmarshal data of
        Inl e \<Rightarrow> (e, c)
      | Inr raw \<Rightarrow>
          ([], c\<lparr>cv_instructions := cj_Instructions raw, cv_toolSpecs := cj_Tools raw, cv_toolByName := [],
                 cv_turns := cj_Turns raw, cv_usage := cj_Usage raw, cv_autoShrink := cj_AutoShrink raw,
                 cv_summarizer := Some DefaultSummarizerFunc\<rparr>))"

end
