(* ===== verification/Conversation_Stream.thy ===== *)
theory Conversation_Stream
  imports Conversation
begin

text \<open>
  The progress events of a conversation, \<^verbatim>\<open>llm/conversation_stream_events.go\<close>: what is sent to
  the outward stream about responses, tool calls, approvals and tool results, with every text
  shortened before it leaves.

  The payload of an event is a Go value that \<^verbatim>\<open>json.Marshal\<close> accepts, kept as a value.  The
  source and scope of the events are fixed per conversation and left out.  The result of
  \<^verbatim>\<open>Emit\<close> is ignored by the code, so the model keeps the list of events handed to it.
\<close>

section \<open>Events\<close>

datatype go_val = VStr string | VBool bool | VInt int | VMap "(string \<times> go_val) list"

type_synonym go_fields = "(string, go_val) gomap"

record stream_msg =
  sm_EventType :: string
  sm_Status :: string
  sm_Delta :: go_val
  sm_Metadata :: "go_fields option"

text \<open>\<open>es_on\<close>: the conversation has an event stream.\<close>

record conv_stream =
  es_on :: bool
  es_metadata :: go_fields
  es_sent :: "stream_msg list"

definition EventStatusCompleted :: string where "EventStatusCompleted = ''status.completed''"
definition EventLLMOutputDelta :: string where "EventLLMOutputDelta = ''llm.output.delta''"
definition EventLLMReasoningDelta :: string where "EventLLMReasoningDelta = ''llm.reasoning.delta''"
definition EventLLMToolCallStarted :: string where "EventLLMToolCallStarted = ''llm.tool_call.started''"
definition EventLLMToolCallCompleted :: string where "EventLLMToolCallCompleted = ''llm.tool_call.completed''"
definition EventLLMToolResultDelta :: string where "EventLLMToolResultDelta = ''llm.tool_result.delta''"
definition EventMCPToolCallCompleted :: string where "EventMCPToolCallCompleted = ''mcp.tool.call.completed''"
definition EventToolExecutionStarted :: string where "EventToolExecutionStarted = ''tool.execution.started''"
definition EventToolExecutionCompleted :: string where "EventToolExecutionCompleted = ''tool.execution.completed''"
definition EventToolExecutionFailed :: string where "EventToolExecutionFailed = ''tool.execution.failed''"
definition EventToolApprovalRequested :: string where "EventToolApprovalRequested = ''tool.approval.requested''"
definition EventToolApprovalResolved :: string where "EventToolApprovalResolved = ''tool.approval.resolved''"

definition streamMetadata :: "go_fields \<Rightarrow> go_fields option \<Rightarrow> go_fields option" where
  "streamMetadata own metadata =
     (let extra = (case metadata of Some kvs \<Rightarrow> kvs | None \<Rightarrow> []) in
      if own = [] \<and> extra = [] then None
      else Some (fold (\<lambda>(k, v) acc. map_set acc k v) extra own))"

definition emitStreamEvent ::
  "string \<Rightarrow> string \<Rightarrow> go_val \<Rightarrow> go_fields option \<Rightarrow> conv_stream \<Rightarrow> conv_stream" where
  "emitStreamEvent eventType status delta metadata s =
     (if \<not> es_on s then s
      else s\<lparr>es_sent := es_sent s @
             [\<lparr>sm_EventType = eventType, sm_Status = status, sm_Delta = delta,
               sm_Metadata = streamMetadata (es_metadata s) metadata\<rparr>]\<rparr>)"

definition auditCategoryMetadata :: go_fields where
  "auditCategoryMetadata = [(''category'', VStr ''audit'')]"

section \<open>Shortening\<close>

definition conversationStreamTextLimit :: nat where "conversationStreamTextLimit = 4096"

definition compactConversationText :: "string \<Rightarrow> string \<times> bool" where
  "compactConversationText text =
     (if length text \<le> conversationStreamTextLimit then (text, False)
      else (take conversationStreamTextLimit text, True))"

definition compactErrorText :: "string \<Rightarrow> string" where
  "compactErrorText text =
     (let text = Join (Fields text) '' '' in if length text > 512 then take 512 text else text)"

text \<open>The values \<^verbatim>\<open>json.Unmarshal\<close> builds for \<^verbatim>\<open>any\<close>; numbers, booleans and null are atoms.\<close>

datatype jval = JStr string | JArr "jval list" | JObj "(string \<times> jval) list" | JAtom string

record json_codec =
  jc_Unmarshal :: "string \<Rightarrow> jval option"
  jc_Marshal :: "jval \<Rightarrow> string option"

fun sanitizeJSONValue :: "jval \<Rightarrow> jval \<times> bool" where
  "sanitizeJSONValue (JStr s) = (case compactConversationText s of (out, t) \<Rightarrow> (JStr out, t))"
| "sanitizeJSONValue (JArr vs) =
     (JArr (map (\<lambda>v. fst (sanitizeJSONValue v)) vs), list_ex (\<lambda>v. snd (sanitizeJSONValue v)) vs)"
| "sanitizeJSONValue (JObj kvs) =
     (JObj (map (\<lambda>(k, v). (k, fst (sanitizeJSONValue v))) kvs), list_ex (\<lambda>(k, v). snd (sanitizeJSONValue v)) kvs)"
| "sanitizeJSONValue (JAtom a) = (JAtom a, False)"

definition compactJSONText :: "json_codec \<Rightarrow> string \<Rightarrow> string \<times> bool" where
  "compactJSONText jc text =
     (if text = [] then ([], False)
      else
        (case jc_Unmarshal jc text of
           None \<Rightarrow> compactConversationText text
         | Some v \<Rightarrow>
             (case sanitizeJSONValue v of (sanitized, truncated) \<Rightarrow>
                (case jc_Marshal jc (if truncated then sanitized else v) of
                   None \<Rightarrow> compactConversationText text
                 | Some b \<Rightarrow>
                     (case compactConversationText b of (out, textTruncated) \<Rightarrow>
                        (out, truncated \<or> textTruncated))))))"

section \<open>Payloads\<close>

definition opt_field :: "string \<Rightarrow> string \<Rightarrow> go_fields" where
  "opt_field k v = (if v \<noteq> [] then [(k, VStr v)] else [])"

definition tokenUsageDelta :: "token_usage \<Rightarrow> go_val" where
  "tokenUsageDelta u = VMap
     [(''input_tokens'', VInt (tu_Input u)), (''cached_tokens'', VInt (tu_Cached u)),
      (''output_tokens'', VInt (tu_Output u)), (''reasoning_tokens'', VInt (tu_Reasoning u)),
      (''total_tokens'', VInt (tu_Total u))]"

definition toolCallDelta :: "json_codec \<Rightarrow> tool_call \<Rightarrow> go_val" where
  "toolCallDelta jc call =
     (case compactJSONText jc (tc_Arguments call) of (args, truncated) \<Rightarrow>
        VMap ([(''call_id'', VStr (tc_CallID call)), (''name'', VStr (tc_Name call)), (''arguments'', VStr args)]
              @ (if truncated then [(''arguments_truncated'', VBool True)] else [])))"

definition error_field :: "go_error \<Rightarrow> go_fields" where
  "error_field err = (if err \<noteq> [] then [(''error'', VStr (compactErrorText (error_text err)))] else [])"

definition toolExecutionDelta :: "tool_call \<Rightarrow> go_error \<Rightarrow> decision option \<Rightarrow> go_val" where
  "toolExecutionDelta call execErr dec = VMap
     ([(''call_id'', VStr (tc_CallID call)), (''name'', VStr (tc_Name call))] @ error_field execErr
      @ (case dec of
           None \<Rightarrow> []
         | Some d \<Rightarrow>
             opt_field ''policy'' (dc_Policy d) @ opt_field ''capability_kind'' (cr_Kind (dc_Capability d))
             @ opt_field ''capability_name'' (cr_Name (dc_Capability d)) @ opt_field ''policy_reason'' (dc_Reason d)
             @ opt_field ''approval_outcome'' (dc_ApprovalOutcome d) @ opt_field ''approval_reason'' (dc_ApprovalReason d)))"

definition approvalRequestDelta :: "approval_request \<Rightarrow> go_fields" where
  "approvalRequestDelta req =
     [(''policy'', VStr (aq_Policy req))] @ opt_field ''call_id'' (aq_CallID req)
     @ opt_field ''name'' (aq_ToolName req) @ opt_field ''arguments_summary'' (aq_ArgumentsSummary req)
     @ opt_field ''capability_kind'' (cr_Kind (aq_Capability req))
     @ opt_field ''capability_name'' (cr_Name (aq_Capability req)) @ opt_field ''policy_reason'' (aq_Reason req)"

definition approvalResolvedDelta :: "approval_request \<Rightarrow> approval_response \<Rightarrow> go_fields" where
  "approvalResolvedDelta req resp =
     approvalRequestDelta req @ opt_field ''approval_outcome'' (ar_Outcome resp)
     @ opt_field ''approval_reason'' (ar_Reason resp)"

definition streamStatusForError :: "go_error \<Rightarrow> string" where
  "streamStatusForError err = (if err \<noteq> [] then StatusFailed else StatusCompleted)"

section \<open>Emission\<close>

definition emitLLMFailure :: "go_error \<Rightarrow> string \<Rightarrow> conv_stream \<Rightarrow> conv_stream" where
  "emitLLMFailure err stage s =
     (if err = [] then s
      else emitStreamEvent EventStatusFailed StatusFailed (VMap [(''error'', VStr (compactErrorText (error_text err)))])
             (if stage \<noteq> [] then Some [(''stage'', VStr (''llm_'' @ stage))] else None) s)"

definition emitTextDelta :: "string \<Rightarrow> string \<Rightarrow> string \<Rightarrow> conv_stream \<Rightarrow> conv_stream" where
  "emitTextDelta eventType status text s =
     (if text = [] then s
      else
        (case (if status = StatusRunning then compactConversationText text else (text, False)) of
           (delta, truncated) \<Rightarrow>
             emitStreamEvent eventType status (VStr delta)
               (if truncated then Some [(''truncated'', VBool True)] else None) s))"

definition emitToolCallStarted :: "json_codec \<Rightarrow> tool_call \<Rightarrow> conv_stream \<Rightarrow> conv_stream" where
  "emitToolCallStarted jc call =
     emitStreamEvent EventLLMToolCallStarted StatusRunning (toolCallDelta jc call) (Some auditCategoryMetadata)"

definition emitToolCallCompleted :: "json_codec \<Rightarrow> tool_call \<Rightarrow> conv_stream \<Rightarrow> conv_stream" where
  "emitToolCallCompleted jc call =
     emitStreamEvent EventLLMToolCallCompleted StatusCompleted (toolCallDelta jc call) (Some auditCategoryMetadata)"

definition emitToolExecutionStarted :: "tool_call \<Rightarrow> conv_stream \<Rightarrow> conv_stream" where
  "emitToolExecutionStarted call =
     emitStreamEvent EventToolExecutionStarted StatusRunning (toolExecutionDelta call [] None) None"

definition emitToolExecutionFinished ::
  "tool_call \<Rightarrow> go_error \<Rightarrow> decision option \<Rightarrow> conv_stream \<Rightarrow> conv_stream" where
  "emitToolExecutionFinished call execErr dec =
     emitStreamEvent (if execErr \<noteq> [] then EventToolExecutionFailed else EventToolExecutionCompleted)
       (streamStatusForError execErr) (toolExecutionDelta call execErr dec) None"

definition emitToolApprovalRequested :: "approval_request \<Rightarrow> conv_stream \<Rightarrow> conv_stream" where
  "emitToolApprovalRequested req =
     emitStreamEvent EventToolApprovalRequested StatusPending (VMap (approvalRequestDelta req)) None"

definition emitToolApprovalResolved ::
  "approval_request \<Rightarrow> approval_response \<Rightarrow> go_error \<Rightarrow> conv_stream \<Rightarrow> conv_stream" where
  "emitToolApprovalResolved req resp err =
     emitStreamEvent EventToolApprovalResolved (streamStatusForError err) (VMap (approvalResolvedDelta req resp))
       (if err \<noteq> [] then Some (error_field err) else None)"

text \<open>The last recorded call with an id.\<close>

definition call_payload :: "string \<Rightarrow> turn list \<Rightarrow> tool_call_payload option" where
  "call_payload callID turns =
     (case List.find (\<lambda>t. tn_Role t = RoleToolCall \<and> (case tn_Tool t of Some p \<Rightarrow> tp_CallID p = callID | None \<Rightarrow> False))
             (rev turns) of
        Some t \<Rightarrow> tn_Tool t
      | None \<Rightarrow> None)"

definition toolNameForCallID :: "string \<Rightarrow> turn list \<Rightarrow> string" where
  "toolNameForCallID callID turns = (case call_payload callID turns of Some p \<Rightarrow> tp_Name p | None \<Rightarrow> [])"

definition toolArgumentsForCallID :: "string \<Rightarrow> turn list \<Rightarrow> string" where
  "toolArgumentsForCallID callID turns =
     (if callID = [] then []
      else (case call_payload callID turns of Some p \<Rightarrow> tp_Arguments p | None \<Rightarrow> []))"

text \<open>\<open>mcp\<close> gives the server and tool name of a tool that is an MCP adapter.\<close>

definition mcpDescriptorFor ::
  "('t \<Rightarrow> (string \<times> string) option) \<Rightarrow> ('t, 's) conversation \<Rightarrow> string \<Rightarrow> string \<times> string" where
  "mcpDescriptorFor mcp c name =
     (if name = [] then ([], [])
      else
        (case map_get (cv_toolByName c) name of
           None \<Rightarrow> ([], [])
         | Some tool \<Rightarrow> (case mcp tool of Some d \<Rightarrow> d | None \<Rightarrow> ([], []))))"

definition emitMCPToolCall ::
  "json_codec \<Rightarrow> ('t, 's) conversation \<Rightarrow> string \<Rightarrow> string \<Rightarrow> string \<Rightarrow> string \<Rightarrow> go_error \<Rightarrow> conv_stream \<Rightarrow> conv_stream" where
  "emitMCPToolCall jc c callID namespaced server tool execErr =
     emitStreamEvent EventMCPToolCallCompleted (streamStatusForError execErr)
       (VMap ([(''server'', VStr server), (''tool'', VStr tool), (''namespaced_name'', VStr namespaced),
               (''call_id'', VStr callID),
               (''arguments_summary'', VStr (fst (compactJSONText jc (toolArgumentsForCallID callID (cv_turns c))))),
               (''outcome'', VStr (if execErr \<noteq> [] then ''error'' else ''ok''))] @ error_field execErr))
       (Some auditCategoryMetadata)"

definition emitToolResult ::
  "json_codec \<Rightarrow> ('t \<Rightarrow> (string \<times> string) option) \<Rightarrow> ('t, 's) conversation \<Rightarrow> string \<Rightarrow> string \<Rightarrow> go_error
     \<Rightarrow> conv_stream \<Rightarrow> conv_stream" where
  "emitToolResult jc mcp c callID out execErr s =
     (let name = toolNameForCallID callID (cv_turns c) in
      case mcpDescriptorFor mcp c name of (server, mcpName) \<Rightarrow>
        if server \<noteq> [] then emitMCPToolCall jc c callID name server mcpName execErr s
        else
          (case compactConversationText out of (delta, truncated) \<Rightarrow>
             emitStreamEvent EventLLMToolResultDelta (streamStatusForError execErr)
               (VMap ([(''call_id'', VStr callID), (''output'', VStr delta)] @ opt_field ''name'' name
                      @ (if truncated then [(''truncated'', VBool True)] else []) @ error_field execErr))
               (Some auditCategoryMetadata) s))"

end
