(* ===== verification/Conversation_Run.thy ===== *)
theory Conversation_Run
  imports Conversation_Stream
begin

text \<open>
  Requests and the tool loop: \<^verbatim>\<open>llm/conversation_send.go\<close>, \<^verbatim>\<open>llm/conversation_stream.go\<close> and
  \<^verbatim>\<open>llm/conversation_run.go\<close>.

  The provider SDK, the registered tools, the clock and the approver are parameters, the
  fields of \<open>run_env\<close>, acting on a world of type \<open>'w\<close>.  A tool may ask for approval, which
  emits progress events, so tools act on the world together with the event stream.  A provider
  stream is the list of events it yields and the error it ends with.
\<close>

section \<open>Requests\<close>

record client =
  cl_model :: string
  cl_reasoningEffort :: string
  cl_replayReasoning :: bool
  cl_streamCategories :: "64 word"

datatype input_item =
    InMessage turn_role string
  | InReasoning bytes
  | InCall string string string
  | InOutput string string

record request_params =
  rp_Model :: string
  rp_Input :: "input_item list"
  rp_Tools :: "tool_spec list"
  rp_Instructions :: "string option"
  rp_Effort :: "string option"
  rp_IncludeEncrypted :: bool

text \<open>\<open>lastUser\<close> of \<^verbatim>\<open>buildResponseInput\<close>, as the number of turns up to and including it.\<close>

fun last_user :: "nat \<Rightarrow> turn list \<Rightarrow> nat" where
  "last_user i [] = 0"
| "last_user i (t # ts) =
     (let later = last_user (Suc i) ts in
      if later = 0 \<and> tn_Role t = RoleUser then Suc i else later)"

text \<open>One turn; \<open>decodes\<close> tells whether the stored reasoning bytes decode as an input item.\<close>

definition input_items :: "(bytes \<Rightarrow> bool) \<Rightarrow> nat \<Rightarrow> nat \<Rightarrow> turn \<Rightarrow> input_item list" where
  "input_items decodes lastUser i t =
     (case tn_Role t of
        RoleUser \<Rightarrow> [InMessage RoleUser (tn_Text t)]
      | RoleAssistant \<Rightarrow> [InMessage RoleAssistant (tn_Text t)]
      | RoleReasoning \<Rightarrow>
          if tn_Raw t = [] \<or> i < lastUser then []
          else if decodes (tn_Raw t) then [InReasoning (tn_Raw t)] else []
      | RoleToolCall \<Rightarrow>
          (case tn_Tool t of None \<Rightarrow> [] | Some p \<Rightarrow> [InCall (tp_CallID p) (tp_Name p) (tp_Arguments p)])
      | RoleToolOutput \<Rightarrow>
          (case tn_Tool t of None \<Rightarrow> [] | Some p \<Rightarrow> [InOutput (tp_CallID p) (tp_Output p)])
      | RoleOther _ \<Rightarrow> [])"

fun build_from :: "(bytes \<Rightarrow> bool) \<Rightarrow> nat \<Rightarrow> nat \<Rightarrow> turn list \<Rightarrow> input_item list" where
  "build_from decodes lastUser i [] = []"
| "build_from decodes lastUser i (t # ts) = input_items decodes lastUser i t @ build_from decodes lastUser (Suc i) ts"

definition buildResponseInput :: "(bytes \<Rightarrow> bool) \<Rightarrow> turn list \<Rightarrow> input_item list" where
  "buildResponseInput decodes turns = build_from decodes (last_user 0 turns) 0 turns"

definition buildRequestParams ::
  "(bytes \<Rightarrow> bool) \<Rightarrow> client \<Rightarrow> string \<Rightarrow> ('t, 's) conversation \<Rightarrow> request_params" where
  "buildRequestParams decodes cl effort c =
     (let resolved = (if effort = [] then cl_reasoningEffort cl else effort) in
      \<lparr>rp_Model = cl_model cl, rp_Input = buildResponseInput decodes (cv_turns c), rp_Tools = cv_toolSpecs c,
       rp_Instructions = (if cv_instructions c \<noteq> [] then Some (cv_instructions c) else None),
       rp_Effort = (if resolved \<noteq> [] then Some resolved else None),
       rp_IncludeEncrypted = cl_replayReasoning cl\<rparr>)"

section \<open>Responses\<close>

text \<open>
  The output items the code distinguishes.  A message is the list of its parts with their
  type; a reasoning item its summary and content texts with its JSON encoding, if that decodes
  as an input item.
\<close>

datatype output_item =
    ItemMessage "(string \<times> string) list"
  | ItemFunctionCall tool_call
  | ItemReasoning "string list" "string list" "bytes option"
  | ItemOther

record sdk_response =
  sr_Output :: "output_item list"
  sr_Usage :: token_usage
  sr_ID :: string
  sr_Model :: string

record response =
  re_Text :: string
  re_ToolCalls :: "tool_call list"
  re_Usage :: token_usage
  re_Raw :: sdk_response

datatype provider_event =
    TextDelta string
  | ReasoningDelta string
  | ResponseCompleted sdk_response
  | ResponseFailed string
  | OtherProviderEvent

type_synonym 'w outer = "'w \<times> conv_stream"

record ('t, 'w) run_env =
  en_client :: "client option"
  en_New :: "request_params \<Rightarrow> 'w \<Rightarrow> (go_error + sdk_response) \<times> 'w"
  en_NewStreaming :: "request_params \<Rightarrow> 'w \<Rightarrow> (provider_event list \<times> go_error) \<times> 'w"
  en_decodes :: "bytes \<Rightarrow> bool"
  en_json :: json_codec
  en_now :: "'w \<Rightarrow> time \<times> 'w"
  en_ctxErr :: "'w \<Rightarrow> go_error"
  en_Execute :: "'t \<Rightarrow> 'w outer tool_body"
  en_mcp :: "'t \<Rightarrow> (string \<times> string) option"
  en_approver :: "'w approver option"
  en_approvalTimeout :: int
  en_timedOut :: "'w \<Rightarrow> bool"

definition ErrNoClient :: string where "ErrNoClient = ''llm: conversation has no client''"

definition tick :: "('t, 'w) run_env \<Rightarrow> 'w outer \<Rightarrow> time \<times> 'w outer" where
  "tick en o' = (case en_now en (fst o') of (now, w) \<Rightarrow> (now, (w, snd o')))"

definition on_stream :: "(conv_stream \<Rightarrow> conv_stream) \<Rightarrow> 'w outer \<Rightarrow> 'w outer" where
  "on_stream f o' = (fst o', f (snd o'))"

definition emitResponseCompleted :: "response \<Rightarrow> conv_stream \<Rightarrow> conv_stream" where
  "emitResponseCompleted r =
     emitStreamEvent EventStatusCompleted StatusCompleted
       (VMap ([(''has_text'', VBool (re_Text r \<noteq> [])), (''tool_call_count'', VInt (int (length (re_ToolCalls r)))),
               (''usage'', tokenUsageDelta (re_Usage r))]
              @ opt_field ''response_id'' (sr_ID (re_Raw r)) @ opt_field ''model'' (sr_Model (re_Raw r))))
       (Some [(''stage'', VStr ''llm_response'')])"

definition message_text :: "(string \<times> string) list \<Rightarrow> string" where
  "message_text parts = concat (map snd (filter (\<lambda>p. fst p = ''output_text'') parts))"

definition reasoning_text :: "string list \<Rightarrow> string list \<Rightarrow> string" where
  "reasoning_text summary content = Join (filter (\<lambda>s. s \<noteq> []) (summary @ content)) [CHR 0x0A]"

text \<open>
  The loop over the output items: the text and calls collected so far, the conversation and
  the world.
\<close>

definition apply_item ::
  "('t, 'w) run_env \<Rightarrow> 's store_ops \<Rightarrow> bool \<Rightarrow> bool \<Rightarrow> output_item
     \<Rightarrow> string \<times> tool_call list \<times> ('t, 's) conversation \<times> 'w outer
     \<Rightarrow> string \<times> tool_call list \<times> ('t, 's) conversation \<times> 'w outer" where
  "apply_item en ops replay deltas item st =
     (case st of (text0, calls, c, o') \<Rightarrow>
        (case item of
           ItemMessage parts \<Rightarrow>
             let text = message_text parts in
             if text = [] then st
             else
               (case tick en o' of (now, o') \<Rightarrow>
                  let c = AppendAssistantText ops now text c;
                      o' = (if deltas then on_stream (emitTextDelta EventLLMOutputDelta StatusCompleted text) o' else o')
                  in (text0 @ text, calls, c, o'))
         | ItemFunctionCall tc \<Rightarrow>
             let o' = on_stream (emitToolCallStarted (en_json en) tc) o' in
             (case tick en o' of (now, o') \<Rightarrow>
                (text0, calls @ [tc], AppendToolCall ops now tc c, on_stream (emitToolCallCompleted (en_json en) tc) o'))
         | ItemReasoning summary content enc \<Rightarrow>
             let text = reasoning_text summary content;
                 raw = (if replay then (case enc of Some b \<Rightarrow> b | None \<Rightarrow> []) else [])
             in if text = [] \<and> raw = [] then st
                else
                  (case tick en o' of (now, o') \<Rightarrow>
                     let c = AppendReasoning ops now text raw c;
                         o' = (if deltas then on_stream (emitTextDelta EventLLMReasoningDelta StatusCompleted text) o' else o')
                     in (text0, calls, c, o'))
         | ItemOther \<Rightarrow> st))"

definition applyResponseOutput ::
  "('t, 'w) run_env \<Rightarrow> 's store_ops \<Rightarrow> client \<Rightarrow> bool \<Rightarrow> sdk_response \<Rightarrow> ('t, 's) conversation \<Rightarrow> 'w outer
     \<Rightarrow> (response \<times> ('t, 's) conversation \<times> 'w outer) outcome" where
  "applyResponseOutput en ops cl deltas resp c o' =
     (case fold (apply_item en ops (cl_replayReasoning cl) deltas) (sr_Output resp) ([], [], c, o') of
        (text, calls, c, o') \<Rightarrow>
          (case tick en o' of (now, o') \<Rightarrow>
             (case recordUsage ops now (sr_Usage resp) c of
                Ok (_, c) \<Rightarrow>
                  let r = \<lparr>re_Text = text, re_ToolCalls = calls, re_Usage = sr_Usage resp, re_Raw = resp\<rparr>
                  in Ok (r, c, on_stream (emitResponseCompleted r) o')
              | Fail e \<Rightarrow> Fail e
              | Panics \<Rightarrow> Panics)))"

text \<open>The result of a request: a response or an error, with the state it leaves.\<close>

type_synonym ('t, 's, 'w) sent = "((go_error + response) \<times> ('t, 's) conversation \<times> 'w outer) outcome"

definition as_sent :: "(response \<times> ('t, 's) conversation \<times> 'w outer) outcome \<Rightarrow> ('t, 's, 'w) sent" where
  "as_sent r = (case r of Ok (resp, c, o') \<Rightarrow> Ok (Inr resp, c, o') | Fail e \<Rightarrow> Fail e | Panics \<Rightarrow> Panics)"

definition Send ::
  "('t, 'w) run_env \<Rightarrow> 's store_ops \<Rightarrow> string \<Rightarrow> ('t, 's) conversation \<Rightarrow> 'w outer \<Rightarrow> ('t, 's, 'w) sent" where
  "Send en ops effort c o' =
     (case en_client en of
        None \<Rightarrow> Ok (Inl [ErrNoClient], c, on_stream (emitLLMFailure [ErrNoClient] ''send'') o')
      | Some cl \<Rightarrow>
          (case en_New en (buildRequestParams (en_decodes en) cl effort c) (fst o') of
             (Inl err, w) \<Rightarrow> Ok (Inl err, c, on_stream (emitLLMFailure err ''send'') (w, snd o'))
           | (Inr resp, w) \<Rightarrow> as_sent (applyResponseOutput en ops cl True resp c (w, snd o'))))"

section \<open>Streaming\<close>

definition StreamText :: "64 word" where "StreamText = 1"
definition StreamReasoning :: "64 word" where "StreamReasoning = 2"
definition DefaultStreamCategories :: "64 word" where
  "DefaultStreamCategories = or StreamText StreamReasoning"

definition category_Has :: "64 word \<Rightarrow> 64 word \<Rightarrow> bool" where
  "category_Has s flag \<longleftrightarrow> and s flag = flag"

definition resolveStreamCategories :: "64 word \<Rightarrow> 64 word" where
  "resolveStreamCategories s = (if s = 0 then DefaultStreamCategories else s)"

datatype fragment = FragText string | FragReasoning string

type_synonym 'w forward = "(fragment \<Rightarrow> 'w \<Rightarrow> bool \<times> 'w) option"

definition forward_one :: "'w forward \<Rightarrow> bool \<Rightarrow> fragment \<Rightarrow> 'w outer \<Rightarrow> bool \<times> 'w outer" where
  "forward_one fwd selected frag o' =
     (case fwd of
        Some f \<Rightarrow> if selected then (case f frag (fst o') of (ok, w) \<Rightarrow> (ok, (w, snd o'))) else (True, o')
      | None \<Rightarrow> (True, o'))"

text \<open>The loop over the provider's events: an early error, or the completed response seen.\<close>

fun stream_loop ::
  "('t, 'w) run_env \<Rightarrow> 64 word \<Rightarrow> 'w forward \<Rightarrow> provider_event list \<Rightarrow> sdk_response option \<Rightarrow> 'w outer
     \<Rightarrow> (go_error + sdk_response option) \<times> 'w outer" where
  "stream_loop en cats fwd [] completed o' = (Inr completed, o')"
| "stream_loop en cats fwd (ev # evs) completed o' =
     (case ev of
        TextDelta d \<Rightarrow>
          if d = [] then stream_loop en cats fwd evs completed o'
          else
            let o' = on_stream (emitTextDelta EventLLMOutputDelta StatusRunning d) o' in
            (case forward_one fwd (category_Has cats StreamText) (FragText d) o' of
               (True, o') \<Rightarrow> stream_loop en cats fwd evs completed o'
             | (False, o') \<Rightarrow> (Inl (en_ctxErr en (fst o')), o'))
      | ReasoningDelta d \<Rightarrow>
          if d = [] then stream_loop en cats fwd evs completed o'
          else
            let o' = on_stream (emitTextDelta EventLLMReasoningDelta StatusRunning d) o' in
            (case forward_one fwd (category_Has cats StreamReasoning) (FragReasoning d) o' of
               (True, o') \<Rightarrow> stream_loop en cats fwd evs completed o'
             | (False, o') \<Rightarrow> (Inl (en_ctxErr en (fst o')), o'))
      | ResponseCompleted r \<Rightarrow> stream_loop en cats fwd evs (Some r) o'
      | ResponseFailed typ \<Rightarrow>
          let err = [''llm: stream '' @ typ] in
          (Inl err, on_stream (emitStreamEvent EventStatusFailed StatusFailed (VStr (error_text err)) None) o')
      | OtherProviderEvent \<Rightarrow> stream_loop en cats fwd evs completed o')"

definition streamResponse ::
  "('t, 'w) run_env \<Rightarrow> 's store_ops \<Rightarrow> string \<Rightarrow> 'w forward \<Rightarrow> bool \<Rightarrow> ('t, 's) conversation \<Rightarrow> 'w outer
     \<Rightarrow> ('t, 's, 'w) sent" where
  "streamResponse en ops effort fwd finalText c o' =
     (case en_client en of
        None \<Rightarrow> Ok (Inl [ErrNoClient], c, o')
      | Some cl \<Rightarrow>
          (case en_NewStreaming en (buildRequestParams (en_decodes en) cl effort c) (fst o') of
             ((evs, streamErr), w) \<Rightarrow>
               (case stream_loop en (resolveStreamCategories (cl_streamCategories cl)) fwd evs None (w, snd o') of
                  (Inl err, o') \<Rightarrow> Ok (Inl err, c, o')
                | (Inr completed, o') \<Rightarrow>
                    if streamErr \<noteq> [] then
                      Ok (Inl streamErr, c,
                          on_stream (emitStreamEvent EventStatusFailed StatusFailed (VStr (error_text streamErr)) None) o')
                    else
                      (case completed of
                         None \<Rightarrow>
                           if en_ctxErr en (fst o') \<noteq> [] then Ok (Inl (en_ctxErr en (fst o')), c, o')
                           else
                             let err = [''llm: stream ended without response.completed''] in
                             Ok (Inl err, c,
                                 on_stream (emitStreamEvent EventStatusFailed StatusFailed (VStr (error_text err)) None) o')
                       | Some resp \<Rightarrow>
                           (case applyResponseOutput en ops cl False resp c o' of
                              Ok (r, c, o') \<Rightarrow>
                                Ok (Inr r, c,
                                    if finalText \<and> re_Text r \<noteq> []
                                    then on_stream (emitTextDelta EventLLMOutputDelta StatusCompleted (re_Text r)) o'
                                    else o')
                            | Fail e \<Rightarrow> Fail e
                            | Panics \<Rightarrow> Panics)))))"

section \<open>Approval and dispatch\<close>

definition requestApproval :: "('t, 'w) run_env \<Rightarrow> 'w outer approver" where
  "requestApproval en req o' =
     (let o' = on_stream (emitToolApprovalRequested req) o' in
      case en_approver en of
        None \<Rightarrow>
          let resp = \<lparr>ar_Outcome = ApprovalOutcomeDeny, ar_Reason = ''no approver configured''\<rparr>;
              err = [ApprovalDeniedError (aq_Capability req) (ar_Reason resp)]
          in ((resp, err), on_stream (emitToolApprovalResolved req resp err) o')
      | Some ap \<Rightarrow>
          (case ap req (fst o') of ((resp, err), w) \<Rightarrow>
             let o' = (w, snd o') in
             if err \<noteq> [] then
               (if en_approvalTimeout en > 0 \<and> en_timedOut en w \<and> en_ctxErr en w = [] then
                  let resp = \<lparr>ar_Outcome = ApprovalOutcomeDeny, ar_Reason = ''approval timed out''\<rparr>;
                      err = [ApprovalDeniedError (aq_Capability req) (ar_Reason resp)]
                  in ((resp, err), on_stream (emitToolApprovalResolved req resp err) o')
                else ((resp, err), on_stream (emitToolApprovalResolved req resp err) o'))
             else
               (case settle_outcome (aq_Capability req) resp of (resp, err) \<Rightarrow>
                  ((resp, err), on_stream (emitToolApprovalResolved req resp err) o'))))"

definition call_context :: "('t, 'w) run_env \<Rightarrow> tool_call \<Rightarrow> 'w outer call_ctx" where
  "call_context en call =
     \<lparr>cx_meta = \<lparr>cm_CallID = tc_CallID call, cm_ToolName = tc_Name call,
                 cm_ArgumentsSummary = fst (compactJSONText (en_json en) (tc_Arguments call))\<rparr>,
      cx_approver = Some (requestApproval en)\<rparr>"

definition dispatch ::
  "('t, 'w) run_env \<Rightarrow> ('t, 's) conversation \<Rightarrow> tool_call \<Rightarrow> 'w outer
     \<Rightarrow> (string \<times> go_error) \<times> decision option \<times> 'w outer" where
  "dispatch en c call o' =
     (case map_get (cv_toolByName c) (tc_Name call) of
        None \<Rightarrow>
          ((''error: unknown tool '' @ go_quote (tc_Name call), [''llm: unknown tool '' @ go_quote (tc_Name call)]), None, o')
      | Some tool \<Rightarrow>
          (case en_Execute en tool (call_context en call) (tc_Arguments call) o' of
             ((out, err), dec, o') \<Rightarrow>
               if err \<noteq> [] then ((''error: '' @ error_text err @ [CHR 0x0A] @ out, err), dec, o')
               else ((out, []), dec, o')))"

section \<open>The loop\<close>

definition run_call ::
  "('t, 'w) run_env \<Rightarrow> 's store_ops \<Rightarrow> tool_call \<Rightarrow> ('t, 's) conversation \<times> 'w outer \<Rightarrow> ('t, 's) conversation \<times> 'w outer" where
  "run_call en ops call st =
     (case st of (c, o') \<Rightarrow>
        let o' = on_stream (emitToolExecutionStarted call) o' in
        (case dispatch en c call o' of ((out, execErr), dec, o') \<Rightarrow>
           let o' = on_stream (emitToolExecutionFinished call execErr dec) o' in
           (case tick en o' of (now, o') \<Rightarrow>
              let c = AppendToolOutput ops now (tc_CallID call) out execErr c
              in (c, on_stream (emitToolResult (en_json en) (en_mcp en) c (tc_CallID call) out execErr) o'))))"

definition runStep ::
  "('t, 'w) run_env \<Rightarrow> 's store_ops \<Rightarrow> string \<Rightarrow> ('t, 's) conversation \<Rightarrow> 'w outer \<Rightarrow> ('t, 's, 'w) sent" where
  "runStep en ops effort c o' =
     (if \<not> es_on (snd o') then Send en ops effort c o' else streamResponse en ops effort None True c o')"

type_synonym ('t, 's, 'w) ran = "((string \<times> go_error) \<times> ('t, 's) conversation \<times> 'w outer) outcome"

fun run_loop ::
  "('t, 'w) run_env \<Rightarrow> 's store_ops \<Rightarrow> string \<Rightarrow> nat \<Rightarrow> ('t, 's) conversation \<Rightarrow> 'w outer \<Rightarrow> ('t, 's, 'w) ran" where
  "run_loop en ops effort 0 c o' =
     (let err = [''llm: run exceeded max steps without final response''] in
      Ok (([], err), c, on_stream (emitLLMFailure err ''run'') o'))"
| "run_loop en ops effort (Suc n) c o' =
     (case runStep en ops effort c o' of
        Panics \<Rightarrow> Panics
      | Fail e \<Rightarrow> Fail e
      | Ok (Inl err, c, o') \<Rightarrow> Ok (([], map (\<lambda>m. ''llm: run step: '' @ m) err), c, o')
      | Ok (Inr resp, c, o') \<Rightarrow>
          if re_ToolCalls resp = [] then
            (if cv_lastErr c \<noteq> [] then
               let err = map (\<lambda>m. ''llm: session persistence failed: '' @ m) (cv_lastErr c)
               in Ok ((re_Text resp, err), c, on_stream (emitLLMFailure err ''run'') o')
             else Ok ((re_Text resp, []), c, o'))
          else
            (case fold (run_call en ops) (re_ToolCalls resp) (c, o') of
               (c, o') \<Rightarrow> run_loop en ops effort n c o'))"

definition run_budget :: "('t, 's) conversation \<Rightarrow> nat" where
  "run_budget c = nat (if cv_maxSteps c \<le> 0 then DefaultMaxSteps else cv_maxSteps c)"

definition Run ::
  "('t, 'w) run_env \<Rightarrow> 's store_ops \<Rightarrow> string \<Rightarrow> string \<Rightarrow> ('t, 's) conversation \<Rightarrow> 'w outer \<Rightarrow> ('t, 's, 'w) ran" where
  "Run en ops userInput effort c o' =
     (case en_client en of
        None \<Rightarrow> Ok (([], [ErrNoClient]), c, on_stream (emitLLMFailure [ErrNoClient] ''run'') o')
      | Some _ \<Rightarrow>
          (case tick en o' of (now, o') \<Rightarrow>
             run_loop en ops effort (run_budget c) (AppendUser ops now userInput c) o'))"

definition SetMaxSteps :: "int \<Rightarrow> ('t, 's) conversation \<Rightarrow> ('t, 's) conversation" where
  "SetMaxSteps n c = (if n > 0 then c\<lparr>cv_maxSteps := n\<rparr> else c)"

end
