(* ===== verification/Go_Text.thy ===== *)
theory Go_Text
  imports Go_Strings
begin

text \<open>
  Searching and cutting with Go's \<^verbatim>\<open>strings\<close> package: \<^verbatim>\<open>Split\<close>, \<^verbatim>\<open>Count\<close> and \<^verbatim>\<open>Replace\<close> for a non-empty
  separator or pattern, as the file tools call them.  Each scans from the left and continues
  behind a match, so matches do not overlap.
\<close>

function Count :: "string \<Rightarrow> string \<Rightarrow> nat" where
  "Count s sub =
     (if s = [] \<or> sub = [] then 0
      else if HasPrefix s sub then Suc (Count (drop (length sub) s) sub)
      else Count (tl s) sub)"
  by pat_completeness auto
termination
  by (relation "measure (\<lambda>(s, _). length s)") auto

text \<open>\<^verbatim>\<open>strings.Replace(s, old, new, n)\<close> for \<open>n \<ge> 0\<close>.\<close>

function Replace :: "string \<Rightarrow> string \<Rightarrow> string \<Rightarrow> nat \<Rightarrow> string" where
  "Replace s old new n =
     (if s = [] \<or> old = [] \<or> n = 0 then s
      else if HasPrefix s old then new @ Replace (drop (length old) s) old new (n - 1)
      else hd s # Replace (tl s) old new n)"
  by pat_completeness auto
termination
  by (relation "measure (\<lambda>(s, _). length s)") auto

function split_loop :: "string \<Rightarrow> string \<Rightarrow> string \<Rightarrow> string list" where
  "split_loop cur s sep =
     (if s = [] \<or> sep = [] then [rev cur @ s]
      else if HasPrefix s sep then rev cur # split_loop [] (drop (length sep) s) sep
      else split_loop (hd s # cur) (tl s) sep)"
  by pat_completeness auto
termination
  by (relation "measure (\<lambda>(_, s, _). length s)") auto

definition Split :: "string \<Rightarrow> string \<Rightarrow> string list" where
  "Split s sep = split_loop [] s sep"

declare Count.simps [simp del] Replace.simps [simp del] split_loop.simps [simp del]

section \<open>Reading lines\<close>

definition newline :: char where "newline = CHR 0x0A"

definition drop_cr :: "string \<Rightarrow> string" where
  "drop_cr l = (if l \<noteq> [] \<and> last l = CHR 0x0D then butlast l else l)"

text \<open>
  \<^verbatim>\<open>bufio.Scanner\<close> with \<^verbatim>\<open>ScanLines\<close>: the lines before the first one that does not fit its
  buffer, and whether there is such a line.  \<open>cur\<close> is the line being read, reversed.
\<close>

fun scan_lines :: "nat \<Rightarrow> string \<Rightarrow> string \<Rightarrow> string list \<times> bool" where
  "scan_lines lm cur [] =
     (if length cur \<ge> lm then ([], True) else if cur = [] then ([], False) else ([drop_cr (rev cur)], False))"
| "scan_lines lm cur (c # cs) =
     (if length cur \<ge> lm then ([], True)
      else if c = newline then
        (case scan_lines lm [] cs of (ls, long) \<Rightarrow> (drop_cr (rev cur) # ls, long))
      else scan_lines lm (c # cur) cs)"

section \<open>Splitting and joining\<close>

lemma split_loop_Nil: "split_loop cur [] sep = [rev cur]"
  by (simp add: split_loop.simps)

lemma split_loop_match: "sep \<noteq> [] \<Longrightarrow> split_loop cur (sep @ s) sep = rev cur # split_loop [] s sep"
  by (subst split_loop.simps) simp

lemma split_loop_other:
  "sep \<noteq> [] \<Longrightarrow> \<not> HasPrefix (c # s) sep \<Longrightarrow> split_loop cur (c # s) sep = split_loop (c # cur) s sep"
  by (subst split_loop.simps) simp

lemma split_loop_nonempty: "split_loop cur s sep \<noteq> []"
proof (induction cur s sep rule: split_loop.induct)
  case (1 cur s sep)
  then show ?case by (subst split_loop.simps) simp
qed

lemma Split_nonempty [simp]: "Split s sep \<noteq> []"
  by (simp add: Split_def split_loop_nonempty)

lemma Join_Cons: "xs \<noteq> [] \<Longrightarrow> Join (x # xs) sep = x @ sep @ Join xs sep"
  by (cases xs) simp_all

lemma Join_split_loop: "Join (split_loop cur s sep) sep = rev cur @ s"
proof (induction cur s sep rule: split_loop.induct)
  case (1 cur s sep)
  show ?case
  proof (cases "s = [] \<or> sep = []")
    case False
    show ?thesis
    proof (cases "HasPrefix s sep")
      case True
      then have "sep @ drop (length sep) s = s" by (auto simp: HasPrefix_iff)
      with 1 False True show ?thesis
        by (subst split_loop.simps) (simp add: Join_Cons split_loop_nonempty)
    next
      case F: False
      with 1 False show ?thesis by (subst split_loop.simps) (simp add: Cons_eq_append_conv)
    qed
  qed (simp add: split_loop.simps)
qed

lemma Join_Split [simp]: "Join (Split s sep) sep = s"
  by (simp add: Split_def Join_split_loop)

lemma Join_append: "xs \<noteq> [] \<Longrightarrow> ys \<noteq> [] \<Longrightarrow> Join (xs @ ys) sep = Join xs sep @ sep @ Join ys sep"
proof (induction xs)
  case (Cons x xs)
  then show ?case by (cases xs) (simp_all add: Join_Cons)
qed simp

text \<open>The pieces between single characters are free of the character, and the split is the only such list.\<close>

lemma split_loop_newline: "split_loop cur (d # s) [c] = (if d = c then rev cur # split_loop [] s [c] else split_loop (d # cur) s [c])"
  using split_loop_match [of "[c]" cur s] by (auto simp: split_loop_other HasPrefix_def)

lemma split_loop_char: "c \<notin> set cur \<Longrightarrow> x \<in> set (split_loop cur s [c]) \<Longrightarrow> c \<notin> set x"
proof (induction s arbitrary: cur)
  case (Cons d s)
  then show ?case using Cons.IH [of "[]"] Cons.IH [of "d # cur"] by (auto simp: split_loop_newline split: if_splits)
qed (simp add: split_loop_Nil)

lemma Split_char: "x \<in> set (Split s [c]) \<Longrightarrow> c \<notin> set x"
  using split_loop_char [of c "[]"] by (simp add: Split_def)

lemma split_loop_take: "c \<notin> set x \<Longrightarrow> split_loop cur (x @ c # s) [c] = (rev cur @ x) # split_loop [] s [c]"
  by (induction x arbitrary: cur) (auto simp: split_loop_newline)

lemma split_loop_last: "c \<notin> set x \<Longrightarrow> split_loop cur x [c] = [rev cur @ x]"
  by (induction x arbitrary: cur) (auto simp: split_loop_Nil split_loop_newline)

lemma Split_Join: "xs \<noteq> [] \<Longrightarrow> \<forall>x \<in> set xs. c \<notin> set x \<Longrightarrow> Split (Join xs [c]) [c] = xs"
proof (induction xs)
  case (Cons x xs)
  then show ?case
    by (cases xs) (simp_all add: Split_def Join_Cons split_loop_take split_loop_last)
qed simp

section \<open>Counting and replacing\<close>

text \<open>A text cut at the matches the scan finds: the stretches between them contain no match
  that the scan would have seen earlier.\<close>

fun free_of :: "string \<Rightarrow> string \<Rightarrow> string \<Rightarrow> bool" where
  "free_of [] rest sub \<longleftrightarrow> True"
| "free_of (c # cs) rest sub \<longleftrightarrow> \<not> HasPrefix (c # cs @ rest) sub \<and> free_of cs rest sub"

lemma Count_step: "sub \<noteq> [] \<Longrightarrow> Count (sub @ s) sub = Suc (Count s sub)"
  by (subst Count.simps) simp

lemma Replace_step: "old \<noteq> [] \<Longrightarrow> 0 < n \<Longrightarrow> Replace (old @ s) old new n = new @ Replace s old new (n - 1)"
  by (subst Replace.simps) simp

lemma Replace_zero [simp]: "Replace s old new 0 = s"
  by (subst Replace.simps) simp

lemma Count_free: "free_of a s sub \<Longrightarrow> Count (a @ s) sub = Count s sub"
  by (induction a) (auto simp: Count.simps [of "_ # _"] Count.simps [of _ "[]"])

lemma Replace_free: "free_of a s old \<Longrightarrow> Replace (a @ s) old new n = a @ Replace s old new n"
  by (induction a) (auto simp: Replace.simps [of "_ # _"] Replace.simps [of _ _ _ 0] Replace.simps [of _ "[]"])

text \<open>The first match: everything before it is free of the pattern.\<close>

lemma Count_pos:
  "Count s sub \<noteq> 0 \<Longrightarrow> \<exists>a b. s = a @ sub @ b \<and> free_of a (sub @ b) sub \<and> sub \<noteq> []"
proof (induction s)
  case Nil
  then show ?case by (simp add: Count.simps)
next
  case (Cons c s)
  then have sub: "sub \<noteq> []" by (auto simp: Count.simps [of _ "[]"])
  show ?case
  proof (cases "HasPrefix (c # s) sub")
    case True
    then obtain b where "c # s = sub @ b" by (auto simp: HasPrefix_iff)
    with sub show ?thesis by (intro exI [of _ "[]"] exI [of _ b]) simp
  next
    case False
    with Cons.prems sub have "Count s sub \<noteq> 0" by (simp add: Count.simps [of "c # s"])
    from Cons.IH [OF this] obtain a b where "s = a @ sub @ b" "free_of a (sub @ b) sub" by blast
    with False sub show ?thesis by (intro exI [of _ "c # a"] exI [of _ b]) simp
  qed
qed

lemma Count_zero: "sub \<noteq> [] \<Longrightarrow> Count s sub = 0 \<longleftrightarrow> \<not> Contains s sub"
proof (induction s)
  case Nil
  then show ?case by (simp add: Count.simps)
next
  case (Cons c s)
  then show ?case by (simp add: Count.simps [of "c # s"])
qed

text \<open>A text with exactly one counted match.\<close>

lemma Count_one:
  assumes "Count s old = 1"
  obtains a b where "s = a @ old @ b" "Replace s old new 1 = a @ new @ b" "\<not> Contains b old" "free_of a (old @ b) old"
proof -
  from Count_pos [of s old] assms obtain a b where
    ab: "s = a @ old @ b" "free_of a (old @ b) old" "old \<noteq> []" by auto
  have "Count b old = 0" using assms ab by (simp add: Count_free Count_step)
  moreover have "Replace s old new 1 = a @ new @ b" using ab by (simp add: Replace_free Replace_step)
  ultimately show thesis using that ab by (simp add: Count_zero)
qed

text \<open>Replacing all matches: \<open>n\<close> cuts, or as many as there are.\<close>

inductive replaced :: "string \<Rightarrow> string \<Rightarrow> nat \<Rightarrow> string \<Rightarrow> string \<Rightarrow> bool" for old new where
  replaced_none: "replaced old new 0 s s"
| replaced_one: "free_of a (old @ s) old \<Longrightarrow> replaced old new n s t \<Longrightarrow> replaced old new (Suc n) (a @ old @ s) (a @ new @ t)"

lemma Replace_replaced: "n \<le> Count s old \<Longrightarrow> replaced old new n s (Replace s old new n)"
proof (induction n arbitrary: s)
  case 0
  then show ?case by (simp add: replaced_none)
next
  case (Suc n)
  then obtain a b where ab: "s = a @ old @ b" "free_of a (old @ b) old" "old \<noteq> []" using Count_pos [of s old] by auto
  then have "n \<le> Count b old" using Suc.prems by (simp add: Count_free Count_step)
  from Suc.IH [OF this] ab show ?case by (simp add: Replace_free Replace_step replaced_one)
qed

text \<open>A stretch free of the pattern ends at the first match.\<close>

lemma free_of_first: "free_of a r sub \<Longrightarrow> a @ r = x @ sub @ y \<Longrightarrow> length a \<le> length x"
proof (induction a arbitrary: x)
  case (Cons c a)
  then show ?case by (cases x) (auto simp: HasPrefix_iff)
qed simp

end
