(* ===== verification/Session_Store.thy ===== *)
theory Session_Store
  imports Conversation Go_Text
begin

text \<open>
  The two implementations of \<^verbatim>\<open>SessionStore\<close>: \<^verbatim>\<open>memorySessionStore\<close> of
  \<^verbatim>\<open>runner/skill_binding.go\<close> and the JSON Lines files of \<^verbatim>\<open>llm/session.go\<close>.

  \<open>enc\<close> and \<open>dec\<close> are \<^verbatim>\<open>json.Marshal\<close> and \<^verbatim>\<open>json.Unmarshal\<close> on events.  The file of
  a session is the byte string stored under its id (its path is injective in the id).  What the
  operating system will do is part of the store: \<open>faults\<close> holds one entry per coming call, an
  empty list standing for calls that all succeed.  A failed write may leave any prefix of the
  line in the file.
\<close>

section \<open>The memory store\<close>

type_synonym memory_store = "(string, sevent list) gomap"

definition stamp :: "int \<Rightarrow> time \<Rightarrow> sevent \<Rightarrow> sevent" where
  "stamp n now ev = ev\<lparr>ev_Seq := n, ev_Timestamp := (if time_IsZero (ev_Timestamp ev) then now else ev_Timestamp ev)\<rparr>"

definition get_log :: "memory_store \<Rightarrow> string \<Rightarrow> sevent list" where
  "get_log s sid = (case map_get s sid of Some evs \<Rightarrow> evs | None \<Rightarrow> [])"

definition mem_Append ::
  "go_error \<Rightarrow> string \<Rightarrow> time \<Rightarrow> sevent \<Rightarrow> memory_store \<Rightarrow> (go_error + int) \<times> memory_store" where
  "mem_Append ctxErr sid now ev s =
     (if ctxErr \<noteq> [] then (Inl ctxErr, s)
      else if sid = [] then (Inl [''runner: session id must not be empty''], s)
      else
        let evs = get_log s sid in
        if evs = [] \<and> ev_Kind ev \<noteq> EventInit then (Inl [ErrSessionNotInitialised], s)
        else if evs \<noteq> [] \<and> ev_Kind ev = EventInit then (Inl [ErrSessionAlreadyInitialised], s)
        else
          let n = int (length evs) + 1
          in (Inr n, map_set s sid (evs @ [stamp n now ev])))"

text \<open>\<^verbatim>\<open>Load\<close> copies the events but not the turns they point to: a replay of them, and a later
  \<^verbatim>\<open>DropToolDetails\<close>, would shorten the outputs in the store itself.  The model returns copies; the two agree
  as long as neither the log nor the conversation that loaded it drops tool details.\<close>

definition mem_Load :: "go_error \<Rightarrow> string \<Rightarrow> memory_store \<Rightarrow> (go_error + sevent list) \<times> memory_store" where
  "mem_Load ctxErr sid s =
     (if ctxErr \<noteq> [] then (Inl ctxErr, s)
      else if get_log s sid = [] then (Inl [ErrSessionNotFound], s)
      else (Inr (get_log s sid), s))"

definition mem_Truncate :: "go_error \<Rightarrow> string \<Rightarrow> int \<Rightarrow> memory_store \<Rightarrow> go_error \<times> memory_store" where
  "mem_Truncate ctxErr sid toSeq s =
     (if ctxErr \<noteq> [] then (ctxErr, s)
      else
        let evs = get_log s sid in
        if evs = [] then ([ErrSessionNotFound], s)
        else if toSeq \<le> 0 then ([], map_set s sid (take 1 evs))
        else if toSeq \<ge> int (length evs) then ([], s)
        else ([], map_set s sid (take (nat toSeq) evs)))"

definition mem_Delete :: "go_error \<Rightarrow> string \<Rightarrow> memory_store \<Rightarrow> go_error \<times> memory_store" where
  "mem_Delete ctxErr sid s =
     (if ctxErr \<noteq> [] then (ctxErr, s)
      else if \<not> map_has s sid then ([ErrSessionNotFound], s)
      else ([], map_delete s sid))"

definition mem_ops :: "memory_store store_ops" where
  "mem_ops = \<lparr>op_Append = mem_Append [], op_Load = mem_Load [], op_Truncate = mem_Truncate []\<rparr>"

section \<open>JSON Lines\<close>

definition maxLine :: nat where "maxLine = 8 * 1024 * 1024"

datatype pending = NoPending | PendingEvent sevent | PendingCorrupt

text \<open>The loop of \<^verbatim>\<open>decodeEvents\<close>: the events before the pending line, the pending line, or
  corruption.\<close>

fun decode_loop ::
  "(string \<Rightarrow> sevent option) \<Rightarrow> sevent list \<Rightarrow> pending \<Rightarrow> string list \<Rightarrow> (sevent list \<times> pending) option" where
  "decode_loop dec out p [] = Some (out, p)"
| "decode_loop dec out p (line # ls) =
     (if TrimSpace line = [] then decode_loop dec out p ls
      else
        (let next = (case dec line of Some ev \<Rightarrow> PendingEvent ev | None \<Rightarrow> PendingCorrupt) in
         case p of
           PendingEvent ev \<Rightarrow> decode_loop dec (out @ [ev]) next ls
         | PendingCorrupt \<Rightarrow> None
         | NoPending \<Rightarrow> decode_loop dec out next ls))"

definition errCorrupt :: string where "errCorrupt = ''llm: JSONStore decode: corrupt event''"
definition errTooLong :: string where "errTooLong = ''bufio.Scanner: token too long''"

definition decodeEvents :: "(string \<Rightarrow> sevent option) \<Rightarrow> go_error \<Rightarrow> string \<Rightarrow> go_error + sevent list" where
  "decodeEvents dec readErr content =
     (case scan_lines maxLine [] content of (ls, long) \<Rightarrow>
        (case decode_loop dec [] NoPending ls of
           None \<Rightarrow> Inl [errCorrupt]
         | Some (out, p) \<Rightarrow>
             if readErr \<noteq> [] then Inl readErr
             else if long then Inl [errTooLong]
             else Inr (case p of PendingEvent ev \<Rightarrow> out @ [ev] | _ \<Rightarrow> out)))"

section \<open>The file store\<close>

record session_state =
  ss_lastSeq :: int
  ss_hasInit :: bool
  ss_size :: nat
  ss_cached :: bool

definition zero_state :: session_state where
  "zero_state = \<lparr>ss_lastSeq = 0, ss_hasInit = False, ss_size = 0, ss_cached = False\<rparr>"

record io_fault =
  f_open :: go_error
  f_lock :: go_error
  f_stat :: go_error
  f_read :: go_error
  f_write :: "nat \<times> go_error"
  f_sync :: go_error
  f_restat :: go_error
  f_temp :: go_error

definition no_fault :: io_fault where
  "no_fault = \<lparr>f_open = [], f_lock = [], f_stat = [], f_read = [], f_write = (0, []), f_sync = [],
     f_restat = [], f_temp = []\<rparr>"

record json_store =
  js_files :: "(string, string) gomap"
  js_states :: "(string, session_state) gomap"
  faults :: "io_fault list"

definition next_fault :: "json_store \<Rightarrow> io_fault \<times> json_store" where
  "next_fault s = (case faults s of [] \<Rightarrow> (no_fault, s) | f # fs \<Rightarrow> (f, s\<lparr>faults := fs\<rparr>))"

definition validateSessionID :: "string \<Rightarrow> go_error" where
  "validateSessionID sid =
     (if sid = [] then [''llm: session id must not be empty'']
      else if CHR ''/'' \<in> set sid \<or> CHR 0x5C \<in> set sid \<or> Contains sid ''..''
      then [''llm: session id '' @ go_quote sid @ '' contains path separators'']
      else if hd sid = CHR ''.'' then [''llm: session id '' @ go_quote sid @ '' must not start with '' @ [CHR 0x27, CHR ''.'', CHR 0x27]]
      else [])"

definition getState :: "json_store \<Rightarrow> string \<Rightarrow> session_state" where
  "getState s sid = (case map_get (js_states s) sid of Some st \<Rightarrow> st | None \<Rightarrow> zero_state)"

definition setState :: "string \<Rightarrow> session_state \<Rightarrow> json_store \<Rightarrow> json_store" where
  "setState sid st s = s\<lparr>js_states := map_set (js_states s) sid st\<rparr>"

definition uncache :: "string \<Rightarrow> json_store \<Rightarrow> json_store" where
  "uncache sid s = setState sid ((getState s sid)\<lparr>ss_cached := False\<rparr>) s"

definition set_file :: "string \<Rightarrow> string \<Rightarrow> json_store \<Rightarrow> json_store" where
  "set_file sid content s = s\<lparr>js_files := map_set (js_files s) sid content\<rparr>"

definition scan_seq :: "sevent list \<Rightarrow> int \<times> bool" where
  "scan_seq evs = fold (\<lambda>ev (l, i). (max l (ev_Seq ev), i \<or> ev_Kind ev = EventInit)) evs (0, False)"

definition scanLastSeq :: "(string \<Rightarrow> sevent option) \<Rightarrow> go_error \<Rightarrow> string \<Rightarrow> go_error + int \<times> bool" where
  "scanLastSeq dec readErr content =
     (case decodeEvents dec readErr content of Inl e \<Rightarrow> Inl e | Inr evs \<Rightarrow> Inr (scan_seq evs))"

text \<open>
  The part of \<^verbatim>\<open>Append\<close> that holds the file lock: \<open>content\<close> is the file, the result the new
  content and cache entry with the sequence number or the error.
\<close>

definition append_open ::
  "(sevent \<Rightarrow> go_error + string) \<Rightarrow> (string \<Rightarrow> sevent option) \<Rightarrow> io_fault \<Rightarrow> time \<Rightarrow> sevent \<Rightarrow> string \<Rightarrow> session_state
     \<Rightarrow> (go_error + int) \<times> string \<times> session_state" where
  "append_open enc dec io now ev content m =
     (if f_lock io \<noteq> [] then (Inl (f_lock io), content, m)
      else if f_stat io \<noteq> [] then (Inl (f_stat io), content, m)
      else
        (case (if ss_cached m \<and> length content = ss_size m then Inr (ss_lastSeq m, ss_hasInit m)
               else scanLastSeq dec (f_read io) content) of
           Inl e \<Rightarrow> (Inl e, content, m)
         | Inr (lastSeq, hasInit) \<Rightarrow>
             if ev_Kind ev = EventInit \<and> hasInit then (Inl [ErrSessionAlreadyInitialised], content, m)
             else if ev_Kind ev \<noteq> EventInit \<and> \<not> hasInit then (Inl [ErrSessionNotInitialised], content, m)
             else
               let ev = stamp (lastSeq + 1) now ev in
               (case enc ev of
                  Inl e \<Rightarrow> (Inl [''llm: JSONStore encode event: '' @ error_text e], content, m)
                | Inr line \<Rightarrow>
                    (case f_write io of (written, werr) \<Rightarrow>
                       if werr \<noteq> [] then
                         (Inl werr, content @ take written (line @ [newline]), m\<lparr>ss_cached := False\<rparr>)
                       else
                         let content = content @ line @ [newline] in
                         if f_sync io \<noteq> [] then (Inl (f_sync io), content, m\<lparr>ss_cached := False\<rparr>)
                         else if f_restat io = [] then
                           (Inr (ev_Seq ev), content,
                            \<lparr>ss_lastSeq = ev_Seq ev, ss_hasInit = hasInit \<or> ev_Kind ev = EventInit,
                             ss_size = length content, ss_cached = True\<rparr>)
                         else (Inr (ev_Seq ev), content, m\<lparr>ss_cached := False\<rparr>)))))"

definition json_Append ::
  "(sevent \<Rightarrow> go_error + string) \<Rightarrow> (string \<Rightarrow> sevent option) \<Rightarrow> string \<Rightarrow> time \<Rightarrow> sevent \<Rightarrow> json_store
     \<Rightarrow> (go_error + int) \<times> json_store" where
  "json_Append enc dec sid now ev s =
     (if validateSessionID sid \<noteq> [] then (Inl (validateSessionID sid), s)
      else
        (case next_fault s of (io, s) \<Rightarrow>
           let m = getState s sid; s = setState sid m s in
           if f_open io \<noteq> [] then (Inl (f_open io), s)
           else
             let content = (case map_get (js_files s) sid of Some f \<Rightarrow> f | None \<Rightarrow> []) in
             (case append_open enc dec io now ev content m of (r, content, m) \<Rightarrow>
                (r, setState sid m (set_file sid content s)))))"

definition json_Load ::
  "(string \<Rightarrow> sevent option) \<Rightarrow> string \<Rightarrow> json_store \<Rightarrow> (go_error + sevent list) \<times> json_store" where
  "json_Load dec sid s =
     (if validateSessionID sid \<noteq> [] then (Inl (validateSessionID sid), s)
      else
        (case next_fault s of (io, s) \<Rightarrow>
           let s = setState sid (getState s sid) s in
           (case map_get (js_files s) sid of
              None \<Rightarrow> (Inl [ErrSessionNotFound], s)
            | Some content \<Rightarrow>
                if f_open io \<noteq> [] then (Inl (f_open io), s) else (decodeEvents dec (f_read io) content, s))))"

fun encode_all :: "(sevent \<Rightarrow> go_error + string) \<Rightarrow> sevent list \<Rightarrow> go_error + string" where
  "encode_all enc [] = Inr []"
| "encode_all enc (ev # evs) =
     (case enc ev of
        Inl e \<Rightarrow> Inl [''llm: JSONStore encode event: '' @ error_text e]
      | Inr line \<Rightarrow> (case encode_all enc evs of Inl e \<Rightarrow> Inl e | Inr buf \<Rightarrow> Inr (line @ [newline] @ buf)))"

definition keep_to :: "int \<Rightarrow> sevent list \<Rightarrow> sevent list" where
  "keep_to toSeq evs =
     filter (\<lambda>ev. if toSeq \<le> 0 then ev_Kind ev = EventInit else \<not> ev_Seq ev > toSeq) evs"

text \<open>The rewritten log goes to a temporary file that replaces the old one in one step; \<open>f_temp\<close>
  is an error of creating, writing, closing or renaming it.\<close>

definition json_Truncate ::
  "(sevent \<Rightarrow> go_error + string) \<Rightarrow> (string \<Rightarrow> sevent option) \<Rightarrow> string \<Rightarrow> int \<Rightarrow> json_store
     \<Rightarrow> go_error \<times> json_store" where
  "json_Truncate enc dec sid toSeq s =
     (if validateSessionID sid \<noteq> [] then (validateSessionID sid, s)
      else
        (case next_fault s of (io, s) \<Rightarrow>
           let s = setState sid (getState s sid) s in
           (case map_get (js_files s) sid of
              None \<Rightarrow> ([ErrSessionNotFound], s)
            | Some content \<Rightarrow>
                if f_open io \<noteq> [] then (f_open io, s)
                else if f_lock io \<noteq> [] then (f_lock io, s)
                else
                  (case decodeEvents dec (f_read io) content of
                     Inl e \<Rightarrow> (e, s)
                   | Inr evs \<Rightarrow>
                       let s = uncache sid s in
                       (case encode_all enc (keep_to toSeq evs) of
                          Inl e \<Rightarrow> (e, s)
                        | Inr buf \<Rightarrow> if f_temp io \<noteq> [] then (f_temp io, s) else ([], set_file sid buf s))))))"

definition json_Delete :: "string \<Rightarrow> json_store \<Rightarrow> go_error \<times> json_store" where
  "json_Delete sid s =
     (if validateSessionID sid \<noteq> [] then (validateSessionID sid, s)
      else
        (case next_fault s of (io, s) \<Rightarrow>
           let s = uncache sid s in
           if map_get (js_files s) sid = None then ([ErrSessionNotFound], s)
           else if f_open io \<noteq> [] then (f_open io, s)
           else ([], s\<lparr>js_files := map_delete (js_files s) sid\<rparr>)))"

definition json_ops :: "(sevent \<Rightarrow> go_error + string) \<Rightarrow> (string \<Rightarrow> sevent option) \<Rightarrow> json_store store_ops" where
  "json_ops enc dec =
     \<lparr>op_Append = json_Append enc dec, op_Load = json_Load dec, op_Truncate = json_Truncate enc dec\<rparr>"

end
