(* ===== verification/Session_Log.thy ===== *)
theory Session_Log
  imports Session_Store
begin

text \<open>
  What a session store promises, as the locale \<open>session_log\<close>: an append-only list of events per
  session, numbered from one without gaps, opened by exactly one init event.  The memory store
  and the JSON Lines store both satisfy it, the latter for events its codec restores.
\<close>

section \<open>The contract\<close>

definition gapless :: "sevent list \<Rightarrow> bool" where
  "gapless evs \<longleftrightarrow> (\<forall>i < length evs. ev_Seq (evs ! i) = int i + 1 \<and> (ev_Kind (evs ! i) = EventInit \<longleftrightarrow> i = 0))"

locale session_log =
  fixes ops :: "'s store_ops" and contents :: "string \<Rightarrow> 's \<Rightarrow> sevent list"
    and invar :: "'s \<Rightarrow> bool" and storable :: "sevent \<Rightarrow> bool"
  assumes append_ok: "invar s \<Longrightarrow> storable ev \<Longrightarrow> op_Append ops sid now ev s = (Inr n, s') \<Longrightarrow>
      invar s' \<and> n = int (length (contents sid s)) + 1 \<and> contents sid s' = contents sid s @ [stamp n now ev]"
    and append_err: "op_Append ops sid now ev s = (Inl e, s') \<Longrightarrow> e \<noteq> []"
    and load_ok: "invar s \<Longrightarrow> op_Load ops sid s = (Inr evs, s') \<Longrightarrow>
      invar s' \<and> contents sid s' = contents sid s \<and> evs = contents sid s"
    and load_missing: "invar s \<Longrightarrow> op_Load ops sid s = (Inl e, s') \<Longrightarrow>
      invar s' \<and> contents sid s' = contents sid s \<and> (error_Is e ErrSessionNotFound \<longrightarrow> contents sid s = [])"
    and load_err: "op_Load ops sid s = (Inl e, s') \<Longrightarrow> e \<noteq> []"
    and truncate_ok: "invar s \<Longrightarrow> op_Truncate ops sid k s = ([], s') \<Longrightarrow>
      invar s' \<and> contents sid s' = keep_to k (contents sid s)"
    and log_shape: "invar s \<Longrightarrow> gapless (contents sid s)"

lemma gapless_Nil [simp]: "gapless []"
  by (simp add: gapless_def)

lemma gapless_snoc:
  "gapless (evs @ [ev]) \<longleftrightarrow>
     gapless evs \<and> ev_Seq ev = int (length evs) + 1 \<and> (ev_Kind ev = EventInit \<longleftrightarrow> evs = [])"
  by (auto simp: gapless_def nth_append less_Suc_eq)

lemma gapless_single: "gapless [ev] \<longleftrightarrow> ev_Seq ev = 1 \<and> ev_Kind ev = EventInit"
  by (simp add: gapless_def)

lemma stamp_simps [simp]:
  "ev_Seq (stamp n now ev) = n" "ev_Kind (stamp n now ev) = ev_Kind ev"
  by (simp_all add: stamp_def)

lemma gapless_Cons: "gapless (ev # evs) \<Longrightarrow> ev_Seq ev = 1 \<and> ev_Kind ev = EventInit"
  by (auto simp: gapless_def)

lemma gapless_take: "gapless evs \<Longrightarrow> gapless (take k evs)"
  by (simp add: gapless_def)

text \<open>Truncating a gapless log keeps a prefix.\<close>

lemma keep_to_gapless:
  assumes "gapless evs"
  shows "keep_to k evs = take (if k \<le> 0 then 1 else nat k) evs"
  using assms
proof (induction evs rule: rev_induct)
  case Nil
  then show ?case by (simp add: keep_to_def)
next
  case (snoc ev evs)
  then show ?case
    by (auto simp: gapless_snoc keep_to_def Suc_le_eq split: if_splits)
qed

section \<open>The memory store\<close>

definition mem_inv :: "memory_store \<Rightarrow> bool" where
  "mem_inv s \<longleftrightarrow> (\<forall>sid. gapless (get_log s sid))"

lemma get_log_set [simp]: "get_log (map_set s sid evs) sid' = (if sid' = sid then evs else get_log s sid')"
  by (simp add: get_log_def)

interpretation memory_log: session_log mem_ops "\<lambda>sid s. get_log s sid" mem_inv "\<lambda>_. True"
proof
  show "mem_inv s' \<and> n = int (length (get_log s sid)) + 1
      \<and> get_log s' sid = get_log s sid @ [stamp n now ev]"
    if "mem_inv s" "op_Append mem_ops sid now ev s = (Inr n, s')" for s sid now ev n s'
    using that by (auto simp: mem_ops_def mem_Append_def mem_inv_def gapless_snoc gapless_single Let_def split: if_splits)
  show "e \<noteq> []" if "op_Append mem_ops sid now ev s = (Inl e, s')" for sid now ev s e s'
    using that by (auto simp: mem_ops_def mem_Append_def Let_def split: if_splits)
  show "mem_inv s' \<and> get_log s' sid = get_log s sid \<and> evs = get_log s sid"
    if "mem_inv s" "op_Load mem_ops sid s = (Inr evs, s')" for s sid evs s'
    using that by (auto simp: mem_ops_def mem_Load_def split: if_splits)
  show "mem_inv s' \<and> get_log s' sid = get_log s sid \<and> (error_Is e ErrSessionNotFound \<longrightarrow> get_log s sid = [])"
    if "mem_inv s" "op_Load mem_ops sid s = (Inl e, s')" for s sid e s'
    using that by (auto simp: mem_ops_def mem_Load_def split: if_splits)
  show "e \<noteq> []" if "op_Load mem_ops sid s = (Inl e, s')" for sid s e s'
    using that by (auto simp: mem_ops_def mem_Load_def split: if_splits)
  show "mem_inv s' \<and> get_log s' sid = keep_to k (get_log s sid)"
    if "mem_inv s" "op_Truncate mem_ops sid k s = ([], s')" for s sid k s'
    using that by (auto simp: mem_ops_def mem_Truncate_def mem_inv_def keep_to_gapless gapless_take Let_def
        split: if_splits)
  show "gapless (get_log s sid)" if "mem_inv s" for s sid using that by (simp add: mem_inv_def)
qed

section \<open>Lines\<close>

definition plain_line :: "string \<Rightarrow> bool" where
  "plain_line l \<longleftrightarrow> newline \<notin> set l \<and> TrimSpace l \<noteq> [] \<and> length l < maxLine \<and> drop_cr l = l"

definition lines_text :: "string list \<Rightarrow> string" where
  "lines_text ls = concat (map (\<lambda>l. l @ [newline]) ls)"

lemma lines_text_simps [simp]:
  "lines_text [] = []" "lines_text (l # ls) = l @ newline # lines_text ls"
  "lines_text (ls @ ls') = lines_text ls @ lines_text ls'"
  by (simp_all add: lines_text_def)

lemma scan_line:
  "newline \<notin> set l \<Longrightarrow> length cur + length l < k \<Longrightarrow>
   scan_lines k cur (l @ newline # cs) =
     (drop_cr (rev cur @ l) # fst (scan_lines k [] cs), snd (scan_lines k [] cs))"
  by (induction l arbitrary: cur) (auto split: prod.splits)

lemma scan_tail:
  "newline \<notin> set l \<Longrightarrow> length cur + length l < k \<Longrightarrow>
   scan_lines k cur l = (if cur = [] \<and> l = [] then [] else [drop_cr (rev cur @ l)], False)"
  by (induction l arbitrary: cur) auto

lemma scan_text:
  "\<forall>l \<in> set ls. plain_line l \<Longrightarrow> scan_lines maxLine [] (lines_text ls @ cs) =
     (ls @ fst (scan_lines maxLine [] cs), snd (scan_lines maxLine [] cs))"
  by (induction ls) (simp_all add: scan_line plain_line_def)

text \<open>Decoding lines that all carry an event.\<close>

lemma decode_lines:
  assumes "list_all2 (\<lambda>l ev. plain_line l \<and> dec l = Some ev) ls evs"
  shows "decode_loop dec out p (ls @ ls') =
    (case p of
       PendingCorrupt \<Rightarrow> if ls = [] then decode_loop dec out p ls' else None
     | NoPending \<Rightarrow> (if evs = [] then decode_loop dec out NoPending ls'
                    else decode_loop dec (out @ butlast evs) (PendingEvent (last evs)) ls')
     | PendingEvent ev \<Rightarrow> decode_loop dec (out @ butlast (ev # evs)) (PendingEvent (last (ev # evs))) ls')"
  using assms
  by (induction arbitrary: out p) (auto simp: plain_line_def split: pending.splits)

section \<open>The file store\<close>

definition storable :: "(sevent \<Rightarrow> go_error + string) \<Rightarrow> (string \<Rightarrow> sevent option) \<Rightarrow> sevent \<Rightarrow> bool" where
  "storable enc dec ev \<longleftrightarrow>
     (\<forall>n t l. enc (stamp n t ev) = Inr l \<longrightarrow> dec l = Some (stamp n t ev) \<and> plain_line l)"

definition log_file ::
  "(sevent \<Rightarrow> go_error + string) \<Rightarrow> (string \<Rightarrow> sevent option) \<Rightarrow> string \<Rightarrow> sevent list \<Rightarrow> bool" where
  "log_file enc dec f evs \<longleftrightarrow>
     gapless evs \<and> (\<exists>ls. f = lines_text ls
       \<and> list_all2 (\<lambda>l ev. enc ev = Inr l \<and> dec l = Some ev \<and> plain_line l) ls evs)"

definition file_content :: "json_store \<Rightarrow> string \<Rightarrow> string" where
  "file_content s sid = (case map_get (js_files s) sid of Some f \<Rightarrow> f | None \<Rightarrow> [])"

definition cache_ok :: "session_state \<Rightarrow> string \<Rightarrow> sevent list \<Rightarrow> bool" where
  "cache_ok m f evs \<longleftrightarrow> (ss_cached m \<and> length f = ss_size m \<longrightarrow>
     ss_lastSeq m = int (length evs) \<and> (ss_hasInit m \<longleftrightarrow> evs \<noteq> []))"

definition json_inv ::
  "(sevent \<Rightarrow> go_error + string) \<Rightarrow> (string \<Rightarrow> sevent option) \<Rightarrow> json_store \<Rightarrow> bool" where
  "json_inv enc dec s \<longleftrightarrow>
     (\<forall>sid. \<exists>evs. log_file enc dec (file_content s sid) evs \<and> cache_ok (getState s sid) (file_content s sid) evs)
     \<and> (\<forall>io \<in> set (faults s). \<not> error_Is (f_open io) ErrSessionNotFound \<and> \<not> error_Is (f_read io) ErrSessionNotFound)"

definition json_contents :: "(string \<Rightarrow> sevent option) \<Rightarrow> string \<Rightarrow> json_store \<Rightarrow> sevent list" where
  "json_contents dec sid s = (case decodeEvents dec [] (file_content s sid) of Inr evs \<Rightarrow> evs | Inl _ \<Rightarrow> [])"

lemma log_file_Nil [simp]: "log_file enc dec [] evs \<longleftrightarrow> evs = []"
proof -
  have eq: "([] = lines_text ls) \<longleftrightarrow> ls = []" for ls by (cases ls) auto
  show ?thesis unfolding log_file_def eq by auto
qed

lemma decode_log:
  assumes "log_file enc dec f evs"
  shows "decodeEvents dec e f = (if e = [] then Inr evs else Inl e)"
proof -
  obtain ls where f: "f = lines_text ls"
    and ls: "list_all2 (\<lambda>l ev. enc ev = Inr l \<and> dec l = Some ev \<and> plain_line l) ls evs"
    using assms by (auto simp: log_file_def)
  have "\<forall>l \<in> set ls. plain_line l" using ls by (auto simp: list_all2_conv_all_nth in_set_conv_nth)
  from scan_text [OF this, of "[]"] f have "scan_lines maxLine [] f = (ls, False)" by (simp add: maxLine_def)
  moreover have "list_all2 (\<lambda>l ev. plain_line l \<and> dec l = Some ev) ls evs"
    using ls by (rule list_all2_mono) simp
  from decode_lines [OF this, where ls' = "[]" and out = "[]" and p = NoPending]
  have "decode_loop dec [] NoPending ls =
      Some (if evs = [] then ([], NoPending) else (butlast evs, PendingEvent (last evs)))" by simp
  ultimately show ?thesis by (simp add: decodeEvents_def)
qed

lemma log_file_snoc:
  assumes "log_file enc dec f evs" "enc ev = Inr l" "dec l = Some ev" "plain_line l"
    "ev_Seq ev = int (length evs) + 1" "ev_Kind ev = EventInit \<longleftrightarrow> evs = []"
  shows "log_file enc dec (f @ l @ [newline]) (evs @ [ev])"
proof -
  obtain ls where "f = lines_text ls"
    "list_all2 (\<lambda>l ev. enc ev = Inr l \<and> dec l = Some ev \<and> plain_line l) ls evs"
    using assms(1) by (auto simp: log_file_def)
  with assms have "f @ l @ [newline] = lines_text (ls @ [l])"
    "list_all2 (\<lambda>l ev. enc ev = Inr l \<and> dec l = Some ev \<and> plain_line l) (ls @ [l]) (evs @ [ev])"
    by (auto simp: list_all2_appendI)
  with assms show ?thesis unfolding log_file_def gapless_snoc by blast
qed

lemma scan_seq_gapless: "gapless evs \<Longrightarrow> scan_seq evs = (int (length evs), evs \<noteq> [])"
proof (induction evs rule: rev_induct)
  case (snoc ev evs)
  then show ?case by (simp add: gapless_snoc scan_seq_def)
qed (simp add: scan_seq_def)

lemma log_file_gapless: "log_file enc dec f evs \<Longrightarrow> gapless evs"
  by (simp add: log_file_def)

lemma next_fault_fields:
  assumes "next_fault s = (io, s')"
  shows "js_files s' = js_files s" "js_states s' = js_states s" "set (faults s') \<subseteq> set (faults s)"
    "io = no_fault \<or> io \<in> set (faults s)"
  using assms by (auto simp: next_fault_def split: list.splits)

lemma state_fields [simp]:
  "getState (setState sid m s) sid' = (if sid' = sid then m else getState s sid')"
  "getState (set_file sid f s) sid' = getState s sid'"
  "file_content (setState sid m s) sid' = file_content s sid'"
  "file_content (set_file sid f s) sid' = (if sid' = sid then f else file_content s sid')"
  "faults (setState sid m s) = faults s" "faults (set_file sid f s) = faults s"
  "js_files (setState sid m s) = js_files s"
  by (simp_all add: getState_def setState_def set_file_def file_content_def)

lemma file_content_cong: "js_files s' = js_files s \<Longrightarrow> file_content s' sid = file_content s sid"
  by (simp add: file_content_def)

lemma getState_cong: "js_states s' = js_states s \<Longrightarrow> getState s' sid = getState s sid"
  by (simp add: getState_def)

lemma json_inv_log:
  assumes "json_inv enc dec s"
  obtains evs where "log_file enc dec (file_content s sid) evs"
    "cache_ok (getState s sid) (file_content s sid) evs" "json_contents dec sid s = evs"
  using assms decode_log [where e = "[]"] that unfolding json_inv_def json_contents_def by fastforce

lemma json_inv_next:
  assumes "json_inv enc dec s" "next_fault s = (io, s')"
  shows "json_inv enc dec s'" "file_content s' sid = file_content s sid" "getState s' sid = getState s sid"
    "\<not> error_Is (f_open io) ErrSessionNotFound" "\<not> error_Is (f_read io) ErrSessionNotFound"
proof -
  note n = next_fault_fields [OF assms(2)]
  show f: "file_content s' sid = file_content s sid" for sid by (rule file_content_cong [OF n(1)])
  show g: "getState s' sid = getState s sid" for sid by (rule getState_cong [OF n(2)])
  show "json_inv enc dec s'" using assms(1) n(3) unfolding json_inv_def f g by blast
  show "\<not> error_Is (f_open io) ErrSessionNotFound" "\<not> error_Is (f_read io) ErrSessionNotFound"
    using assms(1) n(4) by (auto simp: json_inv_def no_fault_def error_Is_def)
qed

text \<open>Replacing one file and its cache entry.\<close>

lemma json_inv_set:
  assumes "json_inv enc dec s" "log_file enc dec f evs" "cache_ok m f evs"
  shows "json_inv enc dec (setState sid m (set_file sid f s))"
  using assms by (auto simp: json_inv_def)

lemma json_inv_state:
  assumes "json_inv enc dec s" "\<And>evs. cache_ok (getState s sid) (file_content s sid) evs \<Longrightarrow> cache_ok m (file_content s sid) evs"
  shows "json_inv enc dec (setState sid m s)"
  using assms unfolding json_inv_def by fastforce

lemma json_contents_file: "log_file enc dec (file_content s sid) evs \<Longrightarrow> json_contents dec sid s = evs"
  by (simp add: json_contents_def decode_log)

lemma append_open_ok:
  assumes log: "log_file enc dec f evs" and cache: "cache_ok m f evs" and ev: "storable enc dec ev"
    and app: "append_open enc dec io now ev f m = (Inr n, f', m')"
  shows "n = int (length evs) + 1 \<and> log_file enc dec f' (evs @ [stamp n now ev])
    \<and> cache_ok m' f' (evs @ [stamp n now ev])"
proof -
  let ?st = "if ss_cached m \<and> length f = ss_size m then Inr (ss_lastSeq m, ss_hasInit m)
               else scanLastSeq dec (f_read io) f"
  from app have "?st \<noteq> Inl e" for e by (auto simp: append_open_def split: if_splits)
  then obtain r where r: "?st = Inr r" by (cases ?st) auto
  have st: "?st = Inr (int (length evs), evs \<noteq> [])"
  proof (cases "ss_cached m \<and> length f = ss_size m")
    case True
    with cache show ?thesis by (simp add: cache_ok_def)
  next
    case False
    with r decode_log [OF log, of "f_read io"] scan_seq_gapless [OF log_file_gapless [OF log]]
    show ?thesis by (auto simp: scanLastSeq_def split: if_splits)
  qed
  let ?ev = "stamp (int (length evs) + 1) now ev"
  note app' = app [unfolded append_open_def st sum.case prod.case Let_def]
  from app' have kind: "ev_Kind ev = EventInit \<longleftrightarrow> evs = []" by (auto split: if_splits)
  from app' obtain l where enc: "enc ?ev = Inr l" by (cases "enc ?ev") (simp_all split: if_splits)
  obtain w werr where w: "f_write io = (w, werr)" by force
  from app' enc w have n: "n = int (length evs) + 1" and f': "f' = f @ l @ [newline]"
    and m': "m' = \<lparr>ss_lastSeq = n, ss_hasInit = True, ss_size = length f', ss_cached = True\<rparr> \<or> \<not> ss_cached m'"
    by (auto split: if_splits)
  from ev enc have l: "dec l = Some ?ev" "plain_line l" by (auto simp: storable_def)
  have "log_file enc dec f' (evs @ [?ev])"
    unfolding f' using log_file_snoc [OF log enc l] kind by simp
  with m' n show ?thesis by (auto simp: cache_ok_def)
qed

lemma json_append_ok:
  assumes inv: "json_inv enc dec s" and ev: "storable enc dec ev"
    and app: "json_Append enc dec sid now ev s = (Inr n, s')"
  shows "json_inv enc dec s' \<and> n = int (length (json_contents dec sid s)) + 1
    \<and> json_contents dec sid s' = json_contents dec sid s @ [stamp n now ev]"
proof -
  obtain io s1 where nf: "next_fault s = (io, s1)" by force
  note s1 = json_inv_next [OF inv nf]
  obtain evs where log: "log_file enc dec (file_content s sid) evs"
    "cache_ok (getState s sid) (file_content s sid) evs" "json_contents dec sid s = evs"
    using json_inv_log [OF inv] .
  have fc: "(case map_get (js_files s1) sid of Some f \<Rightarrow> f | None \<Rightarrow> []) = file_content s sid"
    using s1(2) by (simp add: file_content_def)
  obtain f' m' where ao: "append_open enc dec io now ev (file_content s sid) (getState s sid) = (Inr n, f', m')"
    and s': "s' = setState sid m' (set_file sid f' (setState sid (getState s sid) s1))"
    using app nf s1(3) fc by (auto simp: json_Append_def Let_def split: if_splits prod.splits)
  note ok = append_open_ok [OF log(1,2) ev ao]
  have "json_inv enc dec (setState sid (getState s sid) s1)"
    by (rule json_inv_state [OF s1(1)]) (simp add: s1(3))
  then have "json_inv enc dec s'" unfolding s' using ok by (blast intro: json_inv_set)
  moreover have "json_contents dec sid s' = evs @ [stamp n now ev]"
  proof (rule json_contents_file)
    show "log_file enc dec (file_content s' sid) (evs @ [stamp n now ev])"
      using conjunct1 [OF conjunct2 [OF ok]] by (simp only: s' state_fields simp_thms if_True)
  qed
  ultimately show ?thesis using ok log(3) by simp
qed

lemma json_touch:
  assumes "json_inv enc dec s" "next_fault s = (io, s1)"
  shows "json_inv enc dec (setState sid (getState s1 sid) s1)"
    "json_contents dec sid (setState sid (getState s1 sid) s1) = json_contents dec sid s"
  using json_inv_next [OF assms] json_inv_state [of enc dec s1 sid "getState s1 sid"]
  by (simp_all add: json_contents_def)

lemma json_decode:
  assumes "json_inv enc dec s" "map_get (js_files s) sid = Some f"
  shows "decodeEvents dec e f = (if e = [] then Inr (json_contents dec sid s) else Inl e)"
proof -
  have "file_content s sid = f" using assms(2) by (simp add: file_content_def)
  moreover obtain evs where "log_file enc dec (file_content s sid) evs" "json_contents dec sid s = evs"
    using json_inv_log [OF assms(1)] by metis
  ultimately show ?thesis by (simp add: decode_log)
qed

lemma json_missing:
  assumes "json_inv enc dec s" "map_get (js_files s) sid = None"
  shows "json_contents dec sid s = []"
  using json_contents_file [of enc dec s sid "[]"] assms(2) by (simp add: file_content_def)

lemma validate_error: "\<not> error_Is (validateSessionID sid) ErrSessionNotFound"
  by (simp add: validateSessionID_def error_Is_def ErrSessionNotFound_def)

lemma json_load_cases:
  assumes inv: "json_inv enc dec s" and load: "json_Load dec sid s = (r, s')"
  shows "json_inv enc dec s' \<and> json_contents dec sid s' = json_contents dec sid s
    \<and> (case r of Inr evs \<Rightarrow> evs = json_contents dec sid s
         | Inl e \<Rightarrow> error_Is e ErrSessionNotFound \<longrightarrow> json_contents dec sid s = [])"
proof (cases "validateSessionID sid = []")
  case False
  with load inv validate_error show ?thesis by (auto simp: json_Load_def)
next
  case True
  obtain io s1 where nf: "next_fault s = (io, s1)" by force
  let ?s = "setState sid (getState s1 sid) s1"
  note s1 = json_touch [OF inv nf, of sid] and fo = json_inv_next(4,5) [OF inv nf]
  show ?thesis
  proof (cases "map_get (js_files s1) sid")
    case None
    with json_missing [OF s1(1), of sid] s1 load True nf show ?thesis by (auto simp: json_Load_def)
  next
    case (Some f)
    then have f: "map_get (js_files ?s) sid = Some f" by simp
    have "s' = ?s \<and> r = (if f_open io \<noteq> [] then Inl (f_open io) else decodeEvents dec (f_read io) f)"
      using load True nf Some by (auto simp: json_Load_def split: if_splits)
    with s1 fo json_decode [OF s1(1) f] show ?thesis by (auto split: sum.splits if_splits)
  qed
qed

lemma log_file_prefix:
  assumes "log_file enc dec f evs" "encode_all enc (take k evs) = Inr buf"
  shows "log_file enc dec buf (take k evs)"
proof -
  obtain ls where ls: "list_all2 (\<lambda>l ev. enc ev = Inr l \<and> dec l = Some ev \<and> plain_line l) ls evs"
    using assms(1) by (auto simp: log_file_def)
  have "encode_all enc evs' = Inr (lines_text ls')"
    if "list_all2 (\<lambda>l ev. enc ev = Inr l \<and> dec l = Some ev \<and> plain_line l) ls' evs'" for ls' evs'
    using that by (induction) simp_all
  with list_all2_takeI [OF ls, of k] assms gapless_take show ?thesis
    by (auto simp: log_file_def)
qed

lemma encode_all_err: "encode_all enc evs = Inl e \<Longrightarrow> e \<noteq> []"
  by (induction evs) (auto split: sum.splits)

lemma json_truncate_ok:
  assumes inv: "json_inv enc dec s" and tr: "json_Truncate enc dec sid k s = ([], s')"
  shows "json_inv enc dec s' \<and> json_contents dec sid s' = keep_to k (json_contents dec sid s)"
proof -
  obtain io s1 where nf: "next_fault s = (io, s1)" by force
  let ?s = "setState sid (getState s1 sid) s1"
  note s1 = json_touch [OF inv nf, of sid]
  obtain f where f: "map_get (js_files ?s) sid = Some f"
    using tr nf by (cases "map_get (js_files s1) sid") (auto simp: json_Truncate_def split: if_splits)
  obtain evs where log: "log_file enc dec (file_content ?s sid) evs" "json_contents dec sid ?s = evs"
    using json_inv_log [OF s1(1)] by metis
  from tr nf f json_decode [OF s1(1) f, of "f_read io"] log(2)
  obtain buf where enc: "encode_all enc (keep_to k evs) = Inr buf" and s': "s' = set_file sid buf (uncache sid ?s)"
    by (auto simp: json_Truncate_def Let_def dest: encode_all_err split: if_splits sum.splits)
  from enc log_file_prefix [OF log(1)] keep_to_gapless [OF log_file_gapless [OF log(1)]]
  have buf: "log_file enc dec buf (keep_to k evs)" by simp
  have "set_file sid buf (setState sid m s2) = setState sid m (set_file sid buf s2)" for m s2
    by (simp add: set_file_def setState_def)
  then have eq: "s' = setState sid ((getState ?s sid)\<lparr>ss_cached := False\<rparr>) (set_file sid buf ?s)"
    unfolding s' uncache_def by blast
  have "json_inv enc dec s'" unfolding eq
    by (rule json_inv_set [OF s1(1) buf]) (simp add: cache_ok_def)
  moreover have "json_contents dec sid s' = keep_to k evs"
    by (rule json_contents_file) (use buf in \<open>simp add: eq\<close>)
  ultimately show ?thesis using s1(2) log(2) by simp
qed

lemma append_open_err: "append_open enc dec io now ev f m = (Inl e, f', m') \<Longrightarrow> e \<noteq> []"
  by (auto simp: append_open_def scanLastSeq_def decodeEvents_def Let_def
      split: if_splits sum.splits prod.splits option.splits)

lemma json_append_err: "json_Append enc dec sid now ev s = (Inl e, s') \<Longrightarrow> e \<noteq> []"
  by (auto simp: json_Append_def Let_def dest: append_open_err split: if_splits prod.splits)

lemma json_load_err: "json_Load dec sid s = (Inl e, s') \<Longrightarrow> e \<noteq> []"
  by (auto simp: json_Load_def decodeEvents_def Let_def split: if_splits prod.splits option.splits)

interpretation json_log: session_log "json_ops enc dec" "json_contents dec" "json_inv enc dec" "storable enc dec"
  for enc dec
proof
  show "json_inv enc dec s' \<and> n = int (length (json_contents dec sid s)) + 1
      \<and> json_contents dec sid s' = json_contents dec sid s @ [stamp n now ev]"
    if "json_inv enc dec s" "storable enc dec ev" "op_Append (json_ops enc dec) sid now ev s = (Inr n, s')"
    for s ev sid now n s'
    using json_append_ok [OF that(1,2)] that(3) by (simp add: json_ops_def)
  show "e \<noteq> []" if "op_Append (json_ops enc dec) sid now ev s = (Inl e, s')" for sid now ev s e s'
    using json_append_err that by (simp add: json_ops_def)
  show "json_inv enc dec s' \<and> json_contents dec sid s' = json_contents dec sid s \<and> evs = json_contents dec sid s"
    if "json_inv enc dec s" "op_Load (json_ops enc dec) sid s = (Inr evs, s')" for s sid evs s'
    using json_load_cases [OF that(1), of sid "Inr evs" s'] that(2) by (simp add: json_ops_def)
  show "json_inv enc dec s' \<and> json_contents dec sid s' = json_contents dec sid s
      \<and> (error_Is e ErrSessionNotFound \<longrightarrow> json_contents dec sid s = [])"
    if "json_inv enc dec s" "op_Load (json_ops enc dec) sid s = (Inl e, s')" for s sid e s'
    using json_load_cases [OF that(1), of sid "Inl e" s'] that(2) by (simp add: json_ops_def)
  show "e \<noteq> []" if "op_Load (json_ops enc dec) sid s = (Inl e, s')" for sid s e s'
    using json_load_err that by (simp add: json_ops_def)
  show "json_inv enc dec s' \<and> json_contents dec sid s' = keep_to k (json_contents dec sid s)"
    if "json_inv enc dec s" "op_Truncate (json_ops enc dec) sid k s = ([], s')" for s sid k s'
    using json_truncate_ok [OF that(1)] that(2) by (simp add: json_ops_def)
  show "gapless (json_contents dec sid s)" if "json_inv enc dec s" for s sid
    using json_inv_log [OF that, of sid] log_file_gapless by metis
qed

end
