(* ===== verification/Conversation_Replay.thy ===== *)
theory Conversation_Replay
  imports Session_Log
begin

text \<open>
  Event sourcing: whatever sequence of operations a bound conversation goes through, replaying
  the log in any of its stores rebuilds its instructions, tools, turns and usage, unless an
  append failed, which \<^verbatim>\<open>LastError\<close> then reports.  The lemmas are proved once for every
  store that satisfies the contract \<open>session_log\<close>.
\<close>

section \<open>The replayed part of a conversation\<close>

type_synonym conv_view = "string \<times> tool_spec list \<times> turn list \<times> token_usage"

definition view_of :: "('t, 's) conversation \<Rightarrow> conv_view" where
  "view_of c = (cv_instructions c, cv_toolSpecs c, cv_turns c, cv_usage c)"

definition blank_view :: conv_view where
  "blank_view = ([], [], [], zero_usage)"

text \<open>Everything else that emitting looks at.\<close>

definition same_session :: "('t, 's) conversation \<Rightarrow> ('t, 's) conversation \<Rightarrow> bool" where
  "same_session c c' \<longleftrightarrow> cv_stores c' = cv_stores c \<and> cv_sessionID c' = cv_sessionID c
     \<and> cv_replaying c' = cv_replaying c \<and> cv_lastErr c' = cv_lastErr c
     \<and> cv_summarizer c' = cv_summarizer c \<and> cv_autoShrink c' = cv_autoShrink c
     \<and> cv_toolByName c' = cv_toolByName c"

definition trim_turns :: "int \<Rightarrow> turn list \<Rightarrow> turn list" where
  "trim_turns k ts = (let keep = max 0 k in
     if int (length ts) \<le> keep then ts else drop (rewind_cut ts (length ts - nat keep)) ts)"

definition detail_turns :: "int \<Rightarrow> turn list \<Rightarrow> turn list" where
  "detail_turns k ts = rev (snd (drop_details (max 0 k) 0 (rev ts)))"

definition clamp_to :: "int \<Rightarrow> turn list \<Rightarrow> int" where
  "clamp_to to ts = min to (int (length ts))"

definition clamp_from :: "int \<Rightarrow> int \<Rightarrow> turn list \<Rightarrow> int" where
  "clamp_from fr to ts = min (max 0 fr) (clamp_to to ts)"

definition replace_turns :: "int \<Rightarrow> int \<Rightarrow> turn list \<Rightarrow> turn list \<Rightarrow> turn list" where
  "replace_turns fr to r ts = take (nat (clamp_from fr to ts)) ts @ r @ drop (nat (clamp_to to ts)) ts"

definition apply_view :: "sevent \<Rightarrow> conv_view \<Rightarrow> conv_view option" where
  "apply_view ev v = (case v of (i, sp, ts, u) \<Rightarrow>
     (case ev_Kind ev of
        EventInit \<Rightarrow> Some (ev_Instructions ev, ev_Tools ev, ts, u)
      | EventTrim \<Rightarrow> Some (i, sp, trim_turns (ev_KeepLast ev) ts, u)
      | EventDropToolDetails \<Rightarrow> Some (i, sp, detail_turns (ev_KeepLast ev) ts, u)
      | EventReplaceRange \<Rightarrow>
          if clamp_to (ev_To ev) ts < 0 then None
          else Some (i, sp, replace_turns (ev_From ev) (ev_To ev) (ev_Replacement ev) ts, u)
      | EventRecordUsage \<Rightarrow> Some (i, sp, ts, case ev_Usage ev of Some u' \<Rightarrow> u' | None \<Rightarrow> u)
      | EventKindOther k \<Rightarrow> None
      | _ \<Rightarrow> map_option (\<lambda>t. (i, sp, ts @ [t], u)) (ev_Turn ev)))"

fun replay_view :: "sevent list \<Rightarrow> conv_view \<Rightarrow> conv_view option" where
  "replay_view [] v = Some v"
| "replay_view (ev # evs) v = (case apply_view ev v of None \<Rightarrow> None | Some v \<Rightarrow> replay_view evs v)"

lemma replay_view_snoc:
  "replay_view (evs @ [ev]) v = (case replay_view evs v of None \<Rightarrow> None | Some v \<Rightarrow> apply_view ev v)"
  by (induction evs arbitrary: v) (auto split: option.splits)

section \<open>Operations on the view\<close>

lemma view_emit [simp]: "view_of (emit ops now ev c) = view_of c"
  by (auto simp: emit_def view_of_def split: prod.splits)

lemma emit_fields [simp]:
  "cv_turns (emit ops now ev c) = cv_turns c" "cv_usage (emit ops now ev c) = cv_usage c"
  "cv_instructions (emit ops now ev c) = cv_instructions c" "cv_toolSpecs (emit ops now ev c) = cv_toolSpecs c"
  "cv_summarizer (emit ops now ev c) = cv_summarizer c" "cv_autoShrink (emit ops now ev c) = cv_autoShrink c"
  "cv_toolByName (emit ops now ev c) = cv_toolByName c" "cv_sessionID (emit ops now ev c) = cv_sessionID c"
  "cv_replaying (emit ops now ev c) = cv_replaying c"
  by (auto simp: emit_def split: prod.splits)

lemma emit_replaying [simp]: "cv_replaying c \<Longrightarrow> emit ops now ev c = c"
  by (simp add: emit_def)

lemma Trim_eq:
  "snd (Trim ops now k c) =
     (if int (length (cv_turns c)) \<le> max 0 k then c
      else emit ops now ((new_event EventTrim)\<lparr>ev_KeepLast := max 0 k\<rparr>) (c\<lparr>cv_turns := trim_turns k (cv_turns c)\<rparr>))"
  by (simp add: Trim_def trim_turns_def Let_def max_def)

lemma drop_details_none: "drop_details k n ts = (0, ts') \<Longrightarrow> ts' = ts"
  by (induction k n ts arbitrary: ts' rule: drop_details.induct) (auto split: if_splits option.splits prod.splits)

lemma detail_turns_none: "fst (drop_details (max 0 k) 0 (rev ts)) = 0 \<Longrightarrow> detail_turns k ts = ts"
  using drop_details_none [of "max 0 k" 0 "rev ts"] by (cases "drop_details (max 0 k) 0 (rev ts)") (simp add: detail_turns_def)

lemma DropToolDetails_eq:
  "snd (DropToolDetails ops now k c) =
     (if fst (drop_details (max 0 k) 0 (rev (cv_turns c))) = 0 then c
      else emit ops now ((new_event EventDropToolDetails)\<lparr>ev_KeepLast := max 0 k\<rparr>)
             (c\<lparr>cv_turns := detail_turns k (cv_turns c)\<rparr>))"
proof -
  obtain n ts where d: "drop_details (max 0 k) 0 (rev (cv_turns c)) = (n, ts)" by force
  have k: "(if k < 0 then 0 else k) = max 0 k" by simp
  have "ts = rev (cv_turns c)" if "n = 0" using drop_details_none d that by blast
  then show ?thesis unfolding DropToolDetails_def k d by (auto simp: detail_turns_def d)
qed

lemma ReplaceRange_eq:
  "ReplaceRange ops now fr to r c =
     (if clamp_to to (cv_turns c) < 0 then Panics
      else Ok (emit ops now
        ((new_event EventReplaceRange)\<lparr>ev_From := clamp_from fr to (cv_turns c),
            ev_To := clamp_to to (cv_turns c), ev_Replacement := r\<rparr>)
        (c\<lparr>cv_turns := replace_turns fr to r (cv_turns c)\<rparr>)))"
proof -
  have a: "(if to > int (length (cv_turns c)) then int (length (cv_turns c)) else to) = clamp_to to (cv_turns c)"
    by (simp add: clamp_to_def)
  have b: "(if (if fr < 0 then 0 else fr) > clamp_to to (cv_turns c) then clamp_to to (cv_turns c)
            else (if fr < 0 then 0 else fr)) = clamp_from fr to (cv_turns c)"
    by (simp add: clamp_from_def)
  have "clamp_from fr to (cv_turns c) < 0 \<longleftrightarrow> clamp_to to (cv_turns c) < 0" by (auto simp: clamp_from_def)
  then show ?thesis unfolding ReplaceRange_def Let_def a b by (simp add: replace_turns_def)
qed

text \<open>Replaying on a conversation is replaying on its view.\<close>

lemma apply_event_view:
  assumes "cv_replaying c" "apply_event ops ev c = Ok c'"
  shows "apply_view ev (view_of c) = Some (view_of c') \<and> same_session c c'"
  using assms
  by (cases "ev_Kind ev")
    (auto simp: apply_event_def apply_view_def view_of_def same_session_def Trim_eq DropToolDetails_eq
      ReplaceRange_eq trim_turns_def detail_turns_none Let_def
      split: option.splits if_splits)

lemma same_session_trans: "same_session a b \<Longrightarrow> same_session b c \<Longrightarrow> same_session a c"
  by (simp add: same_session_def)

lemma replay_events_view:
  "cv_replaying c \<Longrightarrow> replay_events ops check evs c = Ok c' \<Longrightarrow>
   replay_view evs (view_of c) = Some (view_of c') \<and> same_session c c'"
proof (induction evs arbitrary: c)
  case Nil
  then show ?case by (simp add: same_session_def)
next
  case (Cons ev evs)
  from Cons.prems obtain c1 where c1: "apply_event ops ev c = Ok c1" "replay_events ops check evs c1 = Ok c'"
    by (auto split: outcome.splits option.splits)
  note a = apply_event_view [OF Cons.prems(1) c1(1)]
  then have "cv_replaying c1" using Cons.prems(1) by (simp add: same_session_def)
  from Cons.IH [OF this c1(2)] a show ?case by (auto intro: same_session_trans)
qed

text \<open>Conversely, a replay of the view is a replay of the conversation.\<close>

lemma apply_event_total:
  assumes "cv_replaying c" "apply_view ev (view_of c) = Some v"
  shows "\<exists>c'. apply_event ops ev c = Ok c' \<and> view_of c' = v \<and> same_session c c'"
proof -
  have "\<exists>c'. apply_event ops ev c = Ok c'"
    using assms by (cases "ev_Kind ev") (auto simp: apply_event_def apply_view_def view_of_def ReplaceRange_eq
        split: if_splits)
  then obtain c' where c': "apply_event ops ev c = Ok c'" by blast
  with apply_event_view [OF assms(1) c'] assms(2) show ?thesis by auto
qed

lemma apply_view_tools:
  assumes "apply_view ev v = Some v'" "ev_Kind ev \<noteq> EventInit"
  shows "fst (snd v') = fst (snd v)"
  using assms by (cases v; cases "ev_Kind ev") (auto simp: apply_view_def split: if_splits)

lemma replay_events_total:
  assumes "cv_replaying c" "replay_view evs (view_of c) = Some v" "\<forall>ev \<in> set evs. ev_Kind ev \<noteq> EventInit"
  shows "(\<exists>c'. replay_events ops check evs c = Ok c' \<and> view_of c' = v \<and> same_session c c')
    \<and> fst (snd v) = cv_toolSpecs c"
  using assms
proof (induction evs arbitrary: c)
  case Nil
  then show ?case by (auto simp: same_session_def view_of_def)
next
  case (Cons ev evs)
  then obtain v1 where v1: "apply_view ev (view_of c) = Some v1" "replay_view evs v1 = Some v"
    by (auto split: option.splits)
  obtain c1 where c1: "apply_event ops ev c = Ok c1" "view_of c1 = v1" "same_session c c1"
    using apply_event_total [OF Cons.prems(1) v1(1)] by blast
  have "fst (snd v1) = cv_toolSpecs c" using apply_view_tools [OF v1(1)] Cons.prems(3) by (simp add: view_of_def)
  then have "cv_toolSpecs c1 = cv_toolSpecs c" using c1(2) by (auto simp: view_of_def)
  moreover have "cv_replaying c1" using c1(3) Cons.prems(1) by (simp add: same_session_def)
  ultimately show ?case
    using Cons.IH [of c1] c1 v1(2) Cons.prems(3) by (auto intro: same_session_trans)
qed

section \<open>Steps\<close>

text \<open>
  The operations of a bound conversation, for events the store can hold (\<open>ok\<close>).  A usage record
  may shrink the history, so it needs the events of the shrinking too.
\<close>

definition trim_event :: "int \<Rightarrow> sevent" where
  "trim_event k = (new_event EventTrim)\<lparr>ev_KeepLast := k\<rparr>"

definition detail_event :: "int \<Rightarrow> sevent" where
  "detail_event k = (new_event EventDropToolDetails)\<lparr>ev_KeepLast := k\<rparr>"

definition replace_event :: "int \<Rightarrow> int \<Rightarrow> turn list \<Rightarrow> sevent" where
  "replace_event fr to r = (new_event EventReplaceRange)\<lparr>ev_From := fr, ev_To := to, ev_Replacement := r\<rparr>"

definition usage_event :: "token_usage \<Rightarrow> sevent" where
  "usage_event u = (new_event EventRecordUsage)\<lparr>ev_Usage := Some u\<rparr>"

definition turn_event :: "event_kind \<Rightarrow> turn \<Rightarrow> sevent" where
  "turn_event k t = (new_event k)\<lparr>ev_Turn := Some t\<rparr>"

lemmas event_folds = trim_event_def [symmetric] detail_event_def [symmetric] replace_event_def [symmetric]
  usage_event_def [symmetric] turn_event_def [symmetric]

definition shrink_ok :: "(sevent \<Rightarrow> bool) \<Rightarrow> time \<Rightarrow> summarizer option \<Rightarrow> bool" where
  "shrink_ok ok now sm \<longleftrightarrow> (\<forall>k. ok (trim_event k)) \<and> (\<forall>k. ok (detail_event k))
     \<and> (\<forall>f ts s n. sm = Some f \<longrightarrow> f ts = Inr s \<longrightarrow> ok (replace_event 0 n [summary_turn now s]))"

definition append_kinds :: "event_kind list" where
  "append_kinds = [EventAppendUser, EventAppendAssistant, EventAppendReasoning, EventAppendToolCall, EventAppendToolOutput]"

inductive conv_step ::
  "'s store_ops \<Rightarrow> (sevent \<Rightarrow> bool) \<Rightarrow> ('t, 's) conversation \<Rightarrow> ('t, 's) conversation \<Rightarrow> bool"
  for ops ok where
  step_turn: "k \<in> set append_kinds \<Longrightarrow> ok (turn_event k t) \<Longrightarrow> conv_step ops ok c (append_turn ops now k t c)"
| step_trim: "ok (trim_event (max 0 k)) \<Longrightarrow> conv_step ops ok c (snd (Trim ops now k c))"
| step_details: "ok (detail_event (max 0 k)) \<Longrightarrow> conv_step ops ok c (snd (DropToolDetails ops now k c))"
| step_replace: "(\<forall>a b. ok (replace_event a b r)) \<Longrightarrow> ReplaceRange ops now fr to r c = Ok c' \<Longrightarrow> conv_step ops ok c c'"
| step_compress: "shrink_ok ok now sm \<Longrightarrow> Compress ops now sm n c = Ok (e, k, c') \<Longrightarrow> conv_step ops ok c c'"
| step_usage: "ok (usage_event u) \<Longrightarrow> shrink_ok ok now (cv_summarizer c) \<Longrightarrow>
    recordUsage ops now u c = Ok (e, c') \<Longrightarrow> conv_step ops ok c c'"
| step_settings: "conv_step ops ok c (c\<lparr>cv_autoShrink := cfg, cv_summarizer := sm\<rparr>)"
| step_truncate: "conv_Truncate ops k c = Ok ([], c') \<Longrightarrow> conv_step ops ok c c'"

text \<open>
  A conversation that has just been bound: to one store, or to several of which none had the
  session.  A log that exists is not empty.
\<close>

definition fresh_conv :: "('t, 's) conversation \<Rightarrow> bool" where
  "fresh_conv c \<longleftrightarrow> \<not> cv_replaying c \<and> cv_lastErr c = [] \<and> cv_usage c = zero_usage \<and> cv_turns c = [] \<and> cv_stores c = []"

definition load_misses :: "'s store_ops \<Rightarrow> string \<Rightarrow> 's \<Rightarrow> bool" where
  "load_misses ops sid st \<longleftrightarrow> (case op_Load ops sid st of (Inl e, _) \<Rightarrow> error_Is e ErrSessionNotFound | _ \<Rightarrow> False)"

definition session_open ::
  "'s store_ops \<Rightarrow> ('s \<Rightarrow> bool) \<Rightarrow> (sevent \<Rightarrow> bool) \<Rightarrow> ('t, 's) conversation \<Rightarrow> bool" where
  "session_open ops sound ok c \<longleftrightarrow> (\<exists>c0 sid now sts sts'. fresh_conv c0 \<and> (\<forall>st \<in> set sts. sound st) \<and> ok (init_event c0)
     \<and> OpenSession ops now sid sts c0 = (Ok c, sts')
     \<and> (length sts = 1 \<or> (\<forall>st \<in> set sts. load_misses ops sid st))
     \<and> (\<forall>st \<in> set sts. fst (op_Load ops sid st) \<noteq> Inr []))"

section \<open>Emitting keeps the log in step\<close>

definition strip :: "sevent \<Rightarrow> sevent" where
  "strip ev = ev\<lparr>ev_Timestamp := 0\<rparr>"

lemma strip_fields:
  "ev_Kind (strip ev) = ev_Kind ev"
  "ev_Instructions (strip ev) = ev_Instructions ev"
  "ev_Tools (strip ev) = ev_Tools ev"
  "ev_Turn (strip ev) = ev_Turn ev"
  "ev_KeepLast (strip ev) = ev_KeepLast ev"
  "ev_From (strip ev) = ev_From ev"
  "ev_To (strip ev) = ev_To ev"
  "ev_Replacement (strip ev) = ev_Replacement ev"
  "ev_Usage (strip ev) = ev_Usage ev"
  by (simp_all add: strip_def)

lemma stamp_fields:
  "ev_Kind (stamp n now ev) = ev_Kind ev"
  "ev_Instructions (stamp n now ev) = ev_Instructions ev"
  "ev_Tools (stamp n now ev) = ev_Tools ev"
  "ev_Turn (stamp n now ev) = ev_Turn ev"
  "ev_KeepLast (stamp n now ev) = ev_KeepLast ev"
  "ev_From (stamp n now ev) = ev_From ev"
  "ev_To (stamp n now ev) = ev_To ev"
  "ev_Replacement (stamp n now ev) = ev_Replacement ev"
  "ev_Usage (stamp n now ev) = ev_Usage ev"
  by (simp_all add: stamp_def)

lemma apply_view_strip [simp]: "apply_view (strip ev) = apply_view ev"
  by (rule ext) (simp only: apply_view_def strip_fields)

lemma replay_view_strip [simp]: "replay_view (map strip evs) v = replay_view evs v"
  by (induction evs arbitrary: v) (auto split: option.splits)

lemma apply_view_stamp [simp]: "apply_view (stamp n now ev) = apply_view ev"
  by (rule ext) (simp only: apply_view_def stamp_fields)

lemma strip_stamp: "ev_Timestamp ev = 0 \<Longrightarrow> strip (stamp n now ev) = strip (ev\<lparr>ev_Seq := n\<rparr>)"
  by (simp add: strip_def stamp_def)

lemma strip_Seq [simp]: "ev_Seq (strip ev) = ev_Seq ev"
  by (simp add: strip_def)

lemma keep_to_strip: "keep_to k (map strip evs) = map strip (keep_to k evs)"
  by (simp add: keep_to_def filter_map comp_def strip_fields)

lemma new_event_time [simp]:
  "ev_Timestamp (trim_event k) = 0" "ev_Timestamp (detail_event k) = 0" "ev_Timestamp (replace_event a b r) = 0"
  "ev_Timestamp (usage_event u) = 0" "ev_Timestamp (turn_event kd t) = 0"
  by (simp_all add: trim_event_def detail_event_def replace_event_def usage_event_def turn_event_def new_event_def)

text \<open>A log that replays to what the conversation holds.\<close>

lemma append_all_ok:
  "append_all ops sid now ev sts le = ([], sts') \<Longrightarrow>
   (\<And>st e st'. op_Append ops sid now ev st = (Inl e, st') \<Longrightarrow> e \<noteq> []) \<Longrightarrow>
   le = [] \<and> list_all2 (\<lambda>st st'. \<exists>n. op_Append ops sid now ev st = (Inr n, st')) sts sts'"
proof (induction ops sid now ev sts le arbitrary: sts' rule: append_all.induct)
  case (2 ops sid now ev st sts le)
  obtain r st1 where r: "op_Append ops sid now ev st = (r, st1)" by force
  define le1 where "le1 = (case r of Inl err \<Rightarrow> if le = [] then err else le | Inr _ \<Rightarrow> le)"
  from "2.prems"(1) r obtain sts1 where rest: "append_all ops sid now ev sts le1 = ([], sts1)" "sts' = st1 # sts1"
    by (auto simp: le1_def Let_def split: prod.splits)
  have "le1 = [] \<and> list_all2 (\<lambda>st st'. \<exists>n. op_Append ops sid now ev st = (Inr n, st')) sts sts1"
    by (rule "2.IH" [OF r [symmetric] le1_def rest(1)]) (rule "2.prems"(2))
  moreover from this r "2.prems"(2) [of st] have "le = [] \<and> (\<exists>n. r = Inr n)"
    by (auto simp: le1_def split: sum.splits if_splits)
  ultimately show ?case using r rest(2) by auto
qed simp

lemma append_all_length: "append_all ops sid now ev sts le = (le', sts') \<Longrightarrow> length sts' = length sts"
  by (induction ops sid now ev sts le arbitrary: le' sts' rule: append_all.induct) (auto simp: Let_def split: prod.splits)

context session_log
begin

definition synced :: "('t, 's) conversation \<Rightarrow> bool" where
  "synced c \<longleftrightarrow> \<not> cv_replaying c \<and> cv_stores c \<noteq> [] \<and> (cv_lastErr c = [] \<longrightarrow>
     (\<exists>evs. evs \<noteq> [] \<and> replay_view evs blank_view = Some (view_of c)
        \<and> (\<forall>st \<in> set (cv_stores c). invar st \<and> map strip (contents (cv_sessionID c) st) = evs)))"

lemma emit_synced:
  assumes c0: "synced c0" and same: "same_session c0 c" and ev: "storable ev" "ev_Timestamp ev = 0"
    and app: "apply_view ev (view_of c0) = Some (view_of c)"
  shows "synced (emit ops now ev c)"
proof -
  let ?sid = "cv_sessionID c0"
  obtain le sts where a: "append_all ops ?sid now ev (cv_stores c0) (cv_lastErr c0) = (le, sts)" by force
  have e: "emit ops now ev c = c\<lparr>cv_stores := sts, cv_lastErr := le\<rparr>"
    using c0 same a by (simp add: emit_def synced_def same_session_def)
  have "length sts = length (cv_stores c0)" by (rule append_all_length [OF a])
  with c0 have ne: "sts \<noteq> []" by (auto simp: synced_def)
  have "\<exists>evs. evs \<noteq> [] \<and> replay_view evs blank_view = Some (view_of c)
      \<and> (\<forall>st \<in> set sts. invar st \<and> map strip (contents ?sid st) = evs)" if le: "le = []"
  proof -
    have ok: "cv_lastErr c0 = [] \<and>
        list_all2 (\<lambda>st st'. \<exists>n. op_Append ops ?sid now ev st = (Inr n, st')) (cv_stores c0) sts"
      by (rule append_all_ok [OF a [unfolded le]]) (rule append_err)
    then obtain evs where evs: "replay_view evs blank_view = Some (view_of c0)"
      "\<forall>st \<in> set (cv_stores c0). invar st \<and> map strip (contents ?sid st) = evs"
      using c0 by (auto simp: synced_def)
    let ?ev = "strip (ev\<lparr>ev_Seq := int (length evs) + 1\<rparr>)"
    have "invar st' \<and> map strip (contents ?sid st') = evs @ [?ev]" if mem: "st' \<in> set sts" for st'
    proof -
      obtain st n where st: "st \<in> set (cv_stores c0)" "op_Append ops ?sid now ev st = (Inr n, st')"
        using list_all2_in_set2 [OF conjunct2 [OF ok] mem] by blast
      with evs have inv: "invar st" and con: "map strip (contents ?sid st) = evs" by blast+
      from con have "length (contents ?sid st) = length evs" by (metis length_map)
      with append_ok [OF inv ev(1) st(2)] have "invar st'" "n = int (length evs) + 1"
        "contents ?sid st' = contents ?sid st @ [stamp n now ev]" by simp_all
      with con strip_stamp [OF ev(2), of n now] show ?thesis by simp
    qed
    moreover have "apply_view ?ev = apply_view ev"
      by (simp only: strip_stamp [OF ev(2), where now = now, symmetric] apply_view_strip apply_view_stamp)
    with evs(1) app have "replay_view (evs @ [?ev]) blank_view = Some (view_of c)"
      by (simp add: replay_view_snoc)
    ultimately show ?thesis by blast
  qed
  with e ne c0 same show ?thesis by (simp add: synced_def same_session_def view_of_def)
qed

lemma synced_cong: "synced c \<Longrightarrow> same_session c c' \<Longrightarrow> view_of c' = view_of c \<Longrightarrow> synced c'"
  by (simp add: synced_def same_session_def)

lemma turn_synced:
  assumes "synced c" "k \<in> set append_kinds" "storable (turn_event k t)"
  shows "synced (append_turn ops now k t c)"
  unfolding append_turn_def event_folds
proof (rule emit_synced [OF assms(1) _ assms(3)])
  show "apply_view (turn_event k t) (view_of c) = Some (view_of (c\<lparr>cv_turns := cv_turns c @ [t]\<rparr>))"
    using assms(2) by (auto simp: append_kinds_def apply_view_def turn_event_def new_event_def view_of_def)
qed (simp_all add: same_session_def)

lemma trim_synced:
  assumes "synced c" "storable (trim_event (max 0 k))"
  shows "synced (snd (Trim ops now k c))"
proof (cases "int (length (cv_turns c)) \<le> max 0 k")
  case False
  have "synced (emit ops now (trim_event (max 0 k)) (c\<lparr>cv_turns := trim_turns k (cv_turns c)\<rparr>))"
    by (rule emit_synced [OF assms(1) _ assms(2)])
      (simp_all add: same_session_def apply_view_def trim_event_def new_event_def view_of_def trim_turns_def)
  with False show ?thesis by (simp add: Trim_eq trim_event_def)
qed (use assms(1) in \<open>simp add: Trim_eq\<close>)

lemma details_synced:
  assumes "synced c" "storable (detail_event (max 0 k))"
  shows "synced (snd (DropToolDetails ops now k c))"
proof (cases "fst (drop_details (max 0 k) 0 (rev (cv_turns c))) = 0")
  case False
  have "synced (emit ops now (detail_event (max 0 k)) (c\<lparr>cv_turns := detail_turns k (cv_turns c)\<rparr>))"
    by (rule emit_synced [OF assms(1) _ assms(2)])
      (simp_all add: same_session_def apply_view_def detail_event_def new_event_def view_of_def detail_turns_def)
  with False show ?thesis by (simp add: DropToolDetails_eq detail_event_def)
qed (use assms(1) in \<open>simp add: DropToolDetails_eq\<close>)

lemma replace_synced:
  assumes "synced c" "storable (replace_event (clamp_from fr to (cv_turns c)) (clamp_to to (cv_turns c)) r)"
    "ReplaceRange ops now fr to r c = Ok c'"
  shows "synced c'"
proof -
  let ?ts = "cv_turns c"
  from assms(3) have nn: "\<not> clamp_to to ?ts < 0"
    and c': "c' = emit ops now (replace_event (clamp_from fr to ?ts) (clamp_to to ?ts) r)
        (c\<lparr>cv_turns := replace_turns fr to r ?ts\<rparr>)"
    by (simp_all add: ReplaceRange_eq replace_event_def split: if_splits)
  have idem: "clamp_to (clamp_to to ?ts) ?ts = clamp_to to ?ts"
    "clamp_from (clamp_from fr to ?ts) (clamp_to to ?ts) ?ts = clamp_from fr to ?ts"
    using nn by (auto simp: clamp_to_def clamp_from_def)
  show ?thesis unfolding c'
    by (rule emit_synced [OF assms(1) _ assms(2)])
      (use nn in \<open>simp_all add: same_session_def apply_view_def replace_event_def new_event_def view_of_def
        replace_turns_def idem\<close>)
qed

lemma rewind_le: "rewind_cut ts n \<le> n"
  by (induction n) auto

lemma compress_synced:
  assumes "synced c" "shrink_ok storable now sm" "Compress ops now sm n c = Ok (e, k, c')"
  shows "synced c'"
proof (cases sm)
  case None
  with assms show ?thesis by (simp add: Compress_def)
next
  case (Some f)
  define up where "up = rewind_cut (cv_turns c) (if n > int (length (cv_turns c)) then length (cv_turns c) else nat n)"
  have "c' = c \<or> (\<exists>s. f (take up (cv_turns c)) = Inr s \<and>
      ReplaceRange ops now 0 (int up) [summary_turn now s] c = Ok c')"
    using assms(3) [unfolded Compress_def Some option.case Let_def, folded up_def]
    by (cases "f (take up (cv_turns c))") (auto split: if_splits outcome.splits)
  then show ?thesis
  proof
    assume "\<exists>s. f (take up (cv_turns c)) = Inr s \<and> ReplaceRange ops now 0 (int up) [summary_turn now s] c = Ok c'"
    then obtain s where s: "f (take up (cv_turns c)) = Inr s"
      "ReplaceRange ops now 0 (int up) [summary_turn now s] c = Ok c'" by blast
    have cf: "clamp_from 0 (int up) (cv_turns c) = 0" by (simp add: clamp_from_def clamp_to_def)
    have "storable (replace_event (clamp_from 0 (int up) (cv_turns c)) (clamp_to (int up) (cv_turns c)) [summary_turn now s])"
      unfolding cf using assms(2) Some s(1) unfolding shrink_ok_def by blast
    from replace_synced [OF assms(1) this s(2)] show ?thesis .
  qed (use assms(1) in simp)
qed

lemma details_settings: "cv_summarizer (snd (DropToolDetails ops now k c)) = cv_summarizer c"
  by (simp add: DropToolDetails_eq)

lemma shrink_synced:
  assumes "synced c" "shrink_ok storable now (cv_summarizer c)" "maybeAutoShrink ops now c = Ok (e, c')"
  shows "synced c'"
proof -
  let ?k = "as_KeepTurns (cv_autoShrink c)"
  define d where "d = snd (DropToolDetails ops now (as_KeepToolExchanges (cv_autoShrink c)) c)"
  have d: "synced d" unfolding d_def
    by (rule details_synced [OF assms(1)]) (use assms(2) in \<open>simp add: shrink_ok_def\<close>)
  have sm: "cv_summarizer d = cv_summarizer c" by (simp add: d_def details_settings)
  have tr: "synced (snd (Trim ops now ?k x))" if "synced x" for x
    by (rule trim_synced [OF that]) (use assms(2) in \<open>simp add: shrink_ok_def\<close>)
  have "c' = c \<or> c' = snd (Trim ops now ?k d)
      \<or> (\<exists>er n x. Compress ops now (cv_summarizer d) (int (length (cv_turns d)) - ?k) d = Ok (er, n, x)
           \<and> (c' = x \<or> c' = snd (Trim ops now ?k x)))"
    using assms(3)
    by (auto simp: maybeAutoShrink_def Let_def simp flip: d_def split: if_splits outcome.splits prod.splits list.splits)
  with assms(1) d tr compress_synced [OF d assms(2) [folded sm]] show ?thesis by blast
qed

lemma usage_synced:
  assumes "synced c" "storable (usage_event u)" "shrink_ok storable now (cv_summarizer c)"
    "recordUsage ops now u c = Ok (e, c')"
  shows "synced c'"
proof (rule shrink_synced)
  show "synced (emit ops now (usage_event u) (c\<lparr>cv_usage := u\<rparr>))"
    by (rule emit_synced [OF assms(1) _ assms(2)])
      (simp_all add: same_session_def apply_view_def usage_event_def new_event_def view_of_def)
  show "maybeAutoShrink ops now (emit ops now (usage_event u) (c\<lparr>cv_usage := u\<rparr>)) = Ok (e, c')"
    using assms(4) by (simp add: recordUsage_def usage_event_def)
qed (use assms(3) in simp)

lemma truncate_stores_ok:
  "truncate_stores ops sid k sts = ([], sts') \<Longrightarrow>
   list_all2 (\<lambda>st st'. op_Truncate ops sid k st = ([], st')) sts sts'"
  by (induction sts arbitrary: sts') (auto split: prod.splits list.splits)

lemma keep_to_nonempty: "gapless evs \<Longrightarrow> evs \<noteq> [] \<Longrightarrow> keep_to k evs \<noteq> []"
  by (simp add: keep_to_gapless)

lemma truncate_synced:
  assumes "synced c" "conv_Truncate ops k c = Ok ([], c')"
  shows "synced c'"
proof -
  let ?sid = "cv_sessionID c"
  have ne: "cv_stores c \<noteq> []" using assms(1) by (simp add: synced_def)
  obtain er sts where tr: "truncate_stores ops ?sid k (cv_stores c) = (er, sts)" by force
  from assms(2) ne tr have er: "er = []" by (cases er) (simp_all add: conv_Truncate_def)
  note all2 = truncate_stores_ok [OF tr [unfolded er]]
  obtain r st where ld: "op_Load ops ?sid (hd sts) = (r, st)" by force
  obtain es where r: "r = Inr es"
    using assms(2) ne tr er ld load_err [of ?sid "hd sts"] by (cases r) (auto simp: conv_Truncate_def)
  define b where "b = c\<lparr>cv_stores := st # tl sts, cv_instructions := [], cv_toolSpecs := [],
      cv_turns := [], cv_usage := zero_usage, cv_replaying := True\<rparr>"
  obtain d where d: "replay_events ops False es b = Ok d" and c': "c' = d\<lparr>cv_replaying := False\<rparr>"
    using assms(2) ne tr er ld r
    by (cases "replay_events ops False es b") (simp_all add: conv_Truncate_def b_def)
  have "cv_replaying b" by (simp add: b_def)
  note rv = replay_events_view [OF this d]
  have vb: "view_of b = blank_view" by (simp add: b_def view_of_def blank_view_def)
  have "\<exists>evs. evs \<noteq> [] \<and> replay_view evs blank_view = Some (view_of d)
      \<and> (\<forall>st' \<in> set (st # tl sts). invar st' \<and> map strip (contents ?sid st') = evs)" if ok: "cv_lastErr c = []"
  proof -
    obtain evs where evs: "evs \<noteq> []"
      "\<forall>st \<in> set (cv_stores c). invar st \<and> map strip (contents ?sid st) = evs"
      using assms(1) ok by (auto simp: synced_def)
    have all: "invar st' \<and> map strip (contents ?sid st') = keep_to k evs" if mem: "st' \<in> set sts" for st'
    proof -
      obtain s0 where "s0 \<in> set (cv_stores c)" "op_Truncate ops ?sid k s0 = ([], st')"
        using list_all2_in_set2 [OF all2 mem] by blast
      with evs(2) truncate_ok [of s0 ?sid k st'] keep_to_strip [of k "contents ?sid s0"] show ?thesis by auto
    qed
    have hd: "hd sts \<in> set sts" using list_all2_lengthD [OF all2] ne by (cases sts) auto
    with all have h: "invar (hd sts)" "map strip (contents ?sid (hd sts)) = keep_to k evs" by blast+
    from load_ok [OF h(1) ld [unfolded r]] h have st: "invar st" "map strip (contents ?sid st) = keep_to k evs"
      "map strip es = keep_to k evs" by simp_all
    have g: "gapless (contents ?sid (hd (cv_stores c)))" "map strip (contents ?sid (hd (cv_stores c))) = evs"
      using evs(2) ne log_shape by simp_all
    then have "keep_to k evs \<noteq> []"
      using evs(1) keep_to_strip [of k] keep_to_nonempty by (metis list.map_disc_iff)
    moreover have "replay_view (keep_to k evs) blank_view = Some (view_of d)"
      using rv st(3) vb replay_view_strip [of es] by metis
    moreover have "invar st' \<and> map strip (contents ?sid st') = keep_to k evs" if "st' \<in> set (st # tl sts)" for st'
      using that st all by (auto dest: set_tlD)
    ultimately show ?thesis by blast
  qed
  with rv show ?thesis by (simp add: c' synced_def same_session_def b_def view_of_def)
qed

lemma load_all_missing:
  assumes "\<forall>st \<in> set sts. invar st \<and> load_misses ops sid st"
  shows "\<exists>sts'. loadSessionEvents ops sid i sts = (Inl [ErrSessionNotFound], sts')
    \<and> length sts' = length sts \<and> (\<forall>st \<in> set sts'. invar st \<and> contents sid st = [])"
  using assms
proof (induction sts arbitrary: i)
  case (Cons st sts)
  obtain e st1 where l: "op_Load ops sid st = (Inl e, st1)" "error_Is e ErrSessionNotFound"
    using Cons.prems by (auto simp: load_misses_def split: prod.splits sum.splits)
  with load_missing [of st sid e st1] Cons.prems have "invar st1 \<and> contents sid st1 = []" by auto
  with Cons.IH [of "Suc i"] Cons.prems l show ?case by auto
qed simp

lemma seed_ok:
  assumes "\<forall>st \<in> set sts. invar st \<and> contents sid st = []" "storable ev" "seed_stores ops sid now ev sts = ([], sts')"
  shows "length sts' = length sts \<and> (\<forall>st \<in> set sts'. invar st \<and> contents sid st = [stamp 1 now ev])"
  using assms(1,3)
proof (induction sts arbitrary: sts')
  case (Cons st sts)
  obtain r st1 where r: "op_Append ops sid now ev st = (r, st1)" by force
  with Cons.prems append_err [of sid now ev st] obtain n where n: "r = Inr n" by (cases r) auto
  with Cons.prems r obtain s2 where s2: "seed_stores ops sid now ev sts = ([], s2)" "sts' = st1 # s2"
    by (auto split: prod.splits)
  have st: "invar st" "contents sid st = []" using Cons.prems(1) by simp_all
  from append_ok [OF st(1) assms(2) r [unfolded n]] st(2) have "invar st1 \<and> contents sid st1 = [stamp 1 now ev]" by auto
  moreover have "length s2 = length sts \<and> (\<forall>st \<in> set s2. invar st \<and> contents sid st = [stamp 1 now ev])"
    by (rule Cons.IH [OF _ s2(1)]) (use Cons.prems(1) in simp)
  ultimately show ?case using s2(2) by simp
qed simp

lemma replay_from_init:
  assumes "gapless evs" "evs \<noteq> []"
  shows "replay_view evs (i, sp, [], zero_usage) = replay_view evs blank_view"
  using assms by (cases evs) (auto simp: blank_view_def apply_view_def dest: gapless_Cons)

lemma resume_synced:
  assumes "fresh_conv c0" "invar st" "op_Load ops sid st = (Inr evs, st1)" "evs \<noteq> []"
    "OpenSession ops now sid [st] c0 = (Ok c, sts')"
  shows "synced c"
proof -
  note ld = load_ok [OF assms(2,3)]
  obtain d where d: "replay_events ops True evs (c0\<lparr>cv_replaying := True\<rparr>) = Ok d"
    and c: "c = d\<lparr>cv_replaying := False, cv_stores := [st1], cv_sessionID := sid\<rparr>"
    using assms(1,3,5)
    by (cases "replay_events ops True evs (c0\<lparr>cv_replaying := True\<rparr>)")
      (auto simp: OpenSession_def fresh_conv_def split: if_splits)
  have "view_of (c0\<lparr>cv_replaying := True\<rparr>) = (cv_instructions c0, cv_toolSpecs c0, [], zero_usage)"
    using assms(1) by (simp add: view_of_def fresh_conv_def)
  with replay_events_view [OF _ d] replay_from_init [of evs] log_shape [OF assms(2), of sid] ld assms(4)
  have rv: "replay_view evs blank_view = Some (view_of d)" and ss: "same_session (c0\<lparr>cv_replaying := True\<rparr>) d"
    by simp_all
  have "view_of c = view_of d" by (simp add: c view_of_def)
  with rv ss ld assms(1,4) show ?thesis
    by (auto simp: synced_def c same_session_def fresh_conv_def intro!: exI [of _ "map strip evs"])
qed

lemma seed_synced:
  assumes "fresh_conv c0" "\<forall>st \<in> set sts. invar st \<and> load_misses ops sid st" "storable (init_event c0)"
    "OpenSession ops now sid sts c0 = (Ok c, sts')"
  shows "synced c"
proof -
  from assms(4) have ne: "sts \<noteq> []" by (auto simp: OpenSession_def)
  obtain s1 where s1: "loadSessionEvents ops sid 0 sts = (Inl [ErrSessionNotFound], s1)" "length s1 = length sts"
    "\<forall>st \<in> set s1. invar st \<and> contents sid st = []"
    using load_all_missing [OF assms(2)] by blast
  obtain er s2 where sd: "seed_stores ops sid now (init_event c0) s1 = (er, s2)" by force
  from assms(1,4) ne s1(1) sd have er: "er = []" and c: "c = c0\<lparr>cv_stores := s2, cv_sessionID := sid\<rparr>"
    by (auto simp: OpenSession_def fresh_conv_def error_Is_def split: list.splits if_splits)
  note ok = seed_ok [OF s1(3) assms(3) sd [unfolded er]]
  let ?ev = "stamp 1 now (init_event c0)"
  have "replay_view [strip ?ev] blank_view = Some (view_of c)"
    using assms(1) by (simp add: apply_view_def init_event_def new_event_def blank_view_def view_of_def c fresh_conv_def)
  moreover have "s2 \<noteq> []" using ok s1(2) ne by auto
  ultimately show ?thesis
    using ok assms(1) by (auto simp: synced_def c fresh_conv_def intro!: exI [of _ "[strip ?ev]"])
qed

lemma open_synced:
  assumes "session_open ops invar storable c"
  shows "synced c"
proof -
  obtain c0 sid now sts sts' where o: "fresh_conv c0" "\<forall>st \<in> set sts. invar st" "storable (init_event c0)"
    "OpenSession ops now sid sts c0 = (Ok c, sts')" "length sts = 1 \<or> (\<forall>st \<in> set sts. load_misses ops sid st)"
    "\<forall>st \<in> set sts. fst (op_Load ops sid st) \<noteq> Inr []"
    using assms unfolding session_open_def by blast
  show ?thesis
  proof (cases "\<forall>st \<in> set sts. load_misses ops sid st")
    case True
    with o show ?thesis by (blast intro: seed_synced)
  next
    case False
    with o(5) obtain st where sts: "sts = [st]" by (auto simp: length_Suc_conv)
    obtain r st1 where l: "op_Load ops sid st = (r, st1)" by force
    show ?thesis
    proof (cases r)
      case (Inl e)
      with l False sts have "\<not> error_Is e ErrSessionNotFound" by (simp add: load_misses_def)
      with o(1,4) l Inl sts show ?thesis
        by (auto simp: OpenSession_def fresh_conv_def error_Is_def ErrSessionNotFound_def split: if_splits)
    next
      case (Inr evs)
      with resume_synced [OF o(1) _ l [unfolded Inr]] o(2,4,6) l sts show ?thesis by auto
    qed
  qed
qed

lemma step_synced:
  assumes "synced c" "conv_step ops storable c c'"
  shows "synced c'"
  using assms(2)
proof cases
  case step_turn
  with assms(1) show ?thesis by (simp add: turn_synced)
next
  case step_trim
  with assms(1) show ?thesis by (simp add: trim_synced)
next
  case step_details
  with assms(1) show ?thesis by (simp add: details_synced)
next
  case step_replace
  with assms(1) replace_synced show ?thesis by blast
next
  case step_compress
  with assms(1) compress_synced show ?thesis by blast
next
  case step_usage
  with assms(1) usage_synced show ?thesis by blast
next
  case step_settings
  with assms(1) show ?thesis by (simp add: synced_def view_of_def)
next
  case step_truncate
  with assms(1) truncate_synced show ?thesis by blast
qed

text \<open>Opening the log again in a new conversation that has the tools.\<close>

lemma reopen:
  assumes "synced c" "cv_lastErr c = []" "st \<in> set (cv_stores c)"
    and ld: "op_Load ops (cv_sessionID c) st = (Inr evs, st1)" and c0: "fresh_conv c0"
    and tools: "missing_tool (cv_toolByName c0) (cv_toolSpecs c) = None"
  shows "\<exists>c2 sts. OpenSession ops now (cv_sessionID c) [st] c0 = (Ok c2, sts) \<and> view_of c2 = view_of c"
proof -
  obtain es where es: "es \<noteq> []" "replay_view es blank_view = Some (view_of c)" "invar st"
    "map strip (contents (cv_sessionID c) st) = es"
    using assms(1-3) by (auto simp: synced_def)
  from load_ok [OF es(3) ld] es(4) have evs: "map strip evs = es" "evs = contents (cv_sessionID c) st" by simp_all
  have g: "gapless evs" "evs \<noteq> []" using log_shape [OF es(3)] evs es(1) by auto
  have rv: "replay_view evs blank_view = Some (view_of c)"
    using es(2) replay_view_strip [of evs blank_view] by (simp only: evs(1))
  obtain e0 rest where ev: "evs = e0 # rest" using g(2) by (cases evs) auto
  let ?c = "c0\<lparr>cv_replaying := True\<rparr>"
  from gapless_Cons g(1) ev have init: "ev_Kind e0 = EventInit" by blast
  have others: "\<forall>x \<in> set rest. ev_Kind x \<noteq> EventInit"
  proof
    fix x assume "x \<in> set rest"
    then obtain i where "i < length rest" "x = rest ! i" by (auto simp: in_set_conv_nth)
    with g(1) [unfolded ev gapless_def, rule_format, of "Suc i"] show "ev_Kind x \<noteq> EventInit" by simp
  qed
  let ?c1 = "?c\<lparr>cv_instructions := ev_Instructions e0, cv_toolSpecs := ev_Tools e0\<rparr>"
  have ap: "apply_event ops e0 ?c = Ok ?c1" using init by (simp add: apply_event_def)
  have "replay_view rest (view_of ?c1) = Some (view_of c)"
    using rv ev init c0 by (simp add: apply_view_def view_of_def blank_view_def fresh_conv_def)
  from replay_events_total [OF _ this others, of ops True] obtain d where
    d: "replay_events ops True rest ?c1 = Ok d" "view_of d = view_of c" and sp: "cv_toolSpecs c = ev_Tools e0"
    by (auto simp: view_of_def)
  have "replay_events ops True evs ?c = Ok d" using ap d(1) init tools sp by (simp add: ev)
  then have "OpenSession ops now (cv_sessionID c) [st] c0 =
      (Ok (d\<lparr>cv_replaying := False, cv_stores := [st1], cv_sessionID := cv_sessionID c\<rparr>), [st1])"
    using ld c0 by (simp add: OpenSession_def fresh_conv_def)
  with d(2) show ?thesis by (auto simp: view_of_def)
qed

end

end
