(* ===== verification/Conversation_Theorems.thy ===== *)
theory Conversation_Theorems
  imports Conversation_Replay
begin

text \<open>
  Properties of conversations and their session logs: replay on the JSON Lines store, what a
  torn line does to it, shrinking and tool exchanges, and the usage estimate.
\<close>

section \<open>Replay\<close>

interpretation json_sessions: inductive_invariant
  "session_open (json_ops enc dec) (json_inv enc dec) (storable enc dec)"
  "conv_step (json_ops enc dec) (storable enc dec)" "json_log.synced dec enc" for enc dec
  by unfold_locales (blast intro: json_log.open_synced json_log.step_synced)+

lemma json_load_clean:
  assumes "json_inv enc dec s" "faults s = []" "validateSessionID sid = []" "json_contents dec sid s \<noteq> []"
  shows "\<exists>s'. json_Load dec sid s = (Inr (json_contents dec sid s), s')"
proof -
  obtain f where f: "map_get (js_files s) sid = Some f"
    using json_missing [OF assms(1), of sid] assms(4) by (cases "map_get (js_files s) sid") auto
  with json_decode [OF assms(1) f, of "[]"] assms(2,3) show ?thesis
    by (simp add: json_Load_def next_fault_def no_fault_def)
qed

text \<open>C15. A conversation that was opened on one store, or on several stores that did not have the
  session yet, and then went through appends, trims, compressions, automatic shrinking, range edits and
  rollbacks, is rebuilt by its session log: when every event is storable and no append has failed, a new
  conversation that has the tools and opens the log of any of its stores, without a fault while reading, gets
  the same instructions, tool schema, turns and usage.\<close>

theorem replay_rebuilds_conversation:
  assumes "reach (session_open (json_ops enc dec) (json_inv enc dec) (storable enc dec))
      (conv_step (json_ops enc dec) (storable enc dec)) c"
    and "cv_lastErr c = []" and "st \<in> set (cv_stores c)" and "faults st = []"
    and "validateSessionID (cv_sessionID c) = []"
    and "fresh_conv c0" and "missing_tool (cv_toolByName c0) (cv_toolSpecs c) = None"
  shows "\<exists>c2 sts. OpenSession (json_ops enc dec) now (cv_sessionID c) [st] c0 = (Ok c2, sts)
    \<and> cv_instructions c2 = cv_instructions c \<and> cv_toolSpecs c2 = cv_toolSpecs c
    \<and> cv_turns c2 = cv_turns c \<and> cv_usage c2 = cv_usage c"
proof -
  have sy: "json_log.synced dec enc c" using json_sessions.reach_inv [OF assms(1)] .
  with assms(2,3) have inv: "json_inv enc dec st" and ne: "json_contents dec (cv_sessionID c) st \<noteq> []"
    by (auto simp: json_log.synced_def)
  obtain st1 where "json_Load dec (cv_sessionID c) st = (Inr (json_contents dec (cv_sessionID c) st), st1)"
    using json_load_clean [OF inv assms(4,5) ne] by blast
  then have "op_Load (json_ops enc dec) (cv_sessionID c) st = (Inr (json_contents dec (cv_sessionID c) st), st1)"
    by (simp add: json_ops_def)
  from json_log.reopen [OF sy assms(2,3) this assms(6,7), of now] show ?thesis
    by (auto simp: view_of_def)
qed

text \<open>A log that is mirrored to a second store while it is opened does not have this property when it holds a
  \<^verbatim>\<open>drop_tool_details\<close> event: the replay has already shortened the output in the loaded event, the
  mirror gets the shortened text, and its own replay shortens that text again, with another length.\<close>

definition mirror_log :: "sevent list" where
  "mirror_log = [new_event EventInit, (new_event EventAppendToolOutput)\<lparr>ev_Turn := Some (output_turn 1 ''a'' ''result'' [])\<rparr>,
     (new_event EventDropToolDetails)\<lparr>ev_KeepLast := 0\<rparr>]"

definition mirror_conv :: "(unit, unit) conversation" where
  "mirror_conv = \<lparr>cv_instructions = [], cv_toolSpecs = [], cv_toolByName = [], cv_turns = [], cv_usage = zero_usage,
     cv_autoShrink = DefaultAutoShrinkConfig, cv_summarizer = None, cv_maxSteps = 1, cv_stores = [], cv_sessionID = [],
     cv_replaying = True, cv_lastErr = []\<rparr>"

definition replayed_outputs :: "sevent list \<Rightarrow> string list" where
  "replayed_outputs evs =
     (case replay_events \<lparr>op_Append = (\<lambda>_ _ _ st. (Inr 0, st)), op_Load = (\<lambda>_ st. (Inr [], st)), op_Truncate = (\<lambda>_ _ st. ([], st))\<rparr> True evs mirror_conv of
        Ok c \<Rightarrow> map (\<lambda>t. case tn_Tool t of None \<Rightarrow> [] | Some tool \<Rightarrow> tp_Output tool) (cv_turns c)
      | _ \<Rightarrow> [])"

theorem mirrored_log_differs:
  "replayed_outputs mirror_log = [''[tool output truncated; 6 bytes]'']
   \<and> replayed_outputs (shared_events \<lparr>op_Append = (\<lambda>_ _ _ st. (Inr 0, st)), op_Load = (\<lambda>_ st. (Inr [], st)), op_Truncate = (\<lambda>_ _ st. ([], st))\<rparr>
       0 mirror_log [] mirror_conv mirror_log) = [''[tool output truncated; 32 bytes]'']"
  by code_simp

section \<open>The JSON Lines store\<close>

lemma json_append_total:
  assumes "json_inv enc dec s" "faults s = []" "validateSessionID sid = []"
    and "ev_Kind ev = EventInit \<longleftrightarrow> json_contents dec sid s = []"
    and "enc (stamp (int (length (json_contents dec sid s)) + 1) now ev) = Inr l"
  shows "\<exists>s'. json_Append enc dec sid now ev s = (Inr (int (length (json_contents dec sid s)) + 1), s') \<and> faults s' = []"
proof -
  obtain evs where log: "log_file enc dec (file_content s sid) evs"
    "cache_ok (getState s sid) (file_content s sid) evs" "json_contents dec sid s = evs"
    using json_inv_log [OF assms(1)] .
  let ?m = "getState s sid" and ?f = "file_content s sid"
  have st: "(if ss_cached ?m \<and> length ?f = ss_size ?m then Inr (ss_lastSeq ?m, ss_hasInit ?m)
      else scanLastSeq dec [] ?f) = Inr (int (length evs), evs \<noteq> [])"
    using log decode_log [OF log(1), of "[]"] scan_seq_gapless [OF log_file_gapless [OF log(1)]]
    by (simp add: scanLastSeq_def cache_ok_def)
  have "\<exists>f' m'. append_open enc dec no_fault now ev ?f ?m = (Inr (int (length evs) + 1), f', m')"
    unfolding append_open_def no_fault_def io_fault.simps st using assms(4,5) log(3) by (simp add: Let_def)
  then obtain f' m' where ao: "append_open enc dec no_fault now ev ?f ?m = (Inr (int (length evs) + 1), f', m')"
    by blast
  have nf: "next_fault s = (no_fault, s)" using assms(2) by (simp add: next_fault_def)
  have fc: "(case map_get (js_files s) sid of Some f \<Rightarrow> f | None \<Rightarrow> []) = ?f" by (simp add: file_content_def)
  have "json_Append enc dec sid now ev s =
      (Inr (int (length evs) + 1), setState sid m' (set_file sid f' (setState sid ?m s)))"
    using assms(3) nf fc ao by (simp add: json_Append_def no_fault_def)
  with assms(2) log(3) show ?thesis by simp
qed

definition stamped :: "time \<Rightarrow> sevent list \<Rightarrow> sevent list" where
  "stamped now evs = map (\<lambda>i. stamp (int i + 1) now (evs ! i)) [0..<length evs]"

lemma append_each_json:
  assumes "json_inv enc dec s" "faults s = []" "validateSessionID sid = []"
    and "\<forall>i < length evs. storable enc dec (evs ! i)
           \<and> (ev_Kind (evs ! i) = EventInit \<longleftrightarrow> i + length (json_contents dec sid s) = 0)
           \<and> (\<exists>l. enc (stamp (int (i + length (json_contents dec sid s)) + 1) now (evs ! i)) = Inr l)"
  shows "\<exists>s'. append_each (json_ops enc dec) sid now evs s = ([], s') \<and> json_inv enc dec s' \<and> faults s' = []
    \<and> json_contents dec sid s' = json_contents dec sid s
        @ map (\<lambda>i. stamp (int (i + length (json_contents dec sid s)) + 1) now (evs ! i)) [0..<length evs]"
  using assms
proof (induction evs arbitrary: s)
  case (Cons ev evs)
  let ?n = "length (json_contents dec sid s)"
  from Cons.prems(4) [rule_format, of 0] have ev: "storable enc dec ev" "ev_Kind ev = EventInit \<longleftrightarrow> json_contents dec sid s = []"
    "\<exists>l. enc (stamp (int ?n + 1) now ev) = Inr l" by simp_all
  obtain s1 where s1: "json_Append enc dec sid now ev s = (Inr (int ?n + 1), s1)" "faults s1 = []"
    using json_append_total [OF Cons.prems(1-3) ev(2)] ev(3) by blast
  note ok = json_append_ok [OF Cons.prems(1) ev(1) s1(1)]
  then have len: "length (json_contents dec sid s1) = Suc ?n" by simp
  have "\<forall>i < length evs. storable enc dec (evs ! i)
      \<and> (ev_Kind (evs ! i) = EventInit \<longleftrightarrow> i + length (json_contents dec sid s1) = 0)
      \<and> (\<exists>l. enc (stamp (int (i + length (json_contents dec sid s1)) + 1) now (evs ! i)) = Inr l)"
    using Cons.prems(4) [rule_format, of "Suc i" for i] len by (simp add: add.commute)
  from Cons.IH [OF conjunct1 [OF ok] s1(2) Cons.prems(3) this] obtain s2 where
    s2: "append_each (json_ops enc dec) sid now evs s1 = ([], s2)" "json_inv enc dec s2" "faults s2 = []"
      "json_contents dec sid s2 = json_contents dec sid s1
        @ map (\<lambda>i. stamp (int (i + length (json_contents dec sid s1)) + 1) now (evs ! i)) [0..<length evs]" by blast
  have "map (\<lambda>i. stamp (int (i + ?n) + 1) now ((ev # evs) ! i)) [0..<Suc (length evs)]
      = stamp (int ?n + 1) now ev # map (\<lambda>i. stamp (int (i + Suc ?n) + 1) now (evs ! i)) [0..<length evs]"
    by (simp add: upt_conv_Cons map_Suc_upt [symmetric] comp_def del: upt_Suc)
  with s2 ok len s1(1) show ?case by (simp add: json_ops_def del: upt_Suc)
qed simp

lemma empty_store_inv: "js_files s = [] \<Longrightarrow> js_states s = [] \<Longrightarrow> faults s = [] \<Longrightarrow> json_inv enc dec s"
  by (simp add: json_inv_def file_content_def getState_def zero_state_def cache_ok_def)

text \<open>C16. Without I/O faults a new session log takes any sequence of events that opens with its init event
  and in which every event is storable (its line stays below the 8 MiB that the reader accepts, and decodes to
  the event), and loading it returns exactly these events in order, numbered from one without gaps.\<close>

theorem session_log_roundtrip:
  assumes "js_files s = []" "js_states s = []" "faults s = []" "validateSessionID sid = []" "evs \<noteq> []"
    and "\<forall>i < length evs. storable enc dec (evs ! i) \<and> (ev_Kind (evs ! i) = EventInit \<longleftrightarrow> i = 0)
           \<and> (\<exists>l. enc (stamp (int i + 1) now (evs ! i)) = Inr l)"
  shows "\<exists>s1 s2. append_each (json_ops enc dec) sid now evs s = ([], s1)
    \<and> json_Load dec sid s1 = (Inr (stamped now evs), s2) \<and> gapless (stamped now evs)"
proof -
  have inv: "json_inv enc dec s" by (rule empty_store_inv) fact+
  have c: "json_contents dec sid s = []" using json_missing [OF inv] assms(1) by simp
  obtain s1 where s1: "append_each (json_ops enc dec) sid now evs s = ([], s1)" "json_inv enc dec s1" "faults s1 = []"
    "json_contents dec sid s1 = stamped now evs"
    using append_each_json [OF inv assms(3,4), of evs now] assms(6) by (auto simp: c stamped_def)
  have "stamped now evs \<noteq> []" using assms(5) by (simp add: stamped_def)
  with json_load_clean [OF s1(2,3) assms(4)] s1(4) json_log.log_shape [OF s1(2), of sid] s1(1) show ?thesis by auto
qed

lemma TrimSpace_Nil: "TrimSpace [] = []"
proof -
  have "trim_left ws [] = []" for ws by (simp add: trim_left.simps [of ws "[]"] split: option.splits)
  then show ?thesis by (simp add: TrimSpace_def)
qed

text \<open>Reading a file whose last line was cut off, or was glued to one.\<close>

lemma decode_torn:
  assumes "log_file enc dec f evs" "plain_line l" "dec l = None"
  shows "decodeEvents dec [] (f @ l) = Inr evs"
    "list_all plain_line ls \<Longrightarrow> ls \<noteq> [] \<Longrightarrow> decodeEvents dec [] (f @ lines_text (l # ls)) = Inl [errCorrupt]"
    "decodeEvents dec [] (f @ lines_text [l]) = Inr evs"
proof -
  obtain ls0 where f: "f = lines_text ls0"
    and ls0: "list_all2 (\<lambda>l ev. enc ev = Inr l \<and> dec l = Some ev \<and> plain_line l) ls0 evs"
    using assms(1) by (auto simp: log_file_def)
  have pl: "\<forall>l \<in> set ls0. plain_line l" using ls0 by (auto simp: list_all2_conv_all_nth in_set_conv_nth)
  have dl: "list_all2 (\<lambda>l ev. plain_line l \<and> dec l = Some ev) ls0 evs"
    using ls0 by (rule list_all2_mono) simp
  have l: "newline \<notin> set l" "length l < maxLine" "drop_cr l = l" "TrimSpace l \<noteq> []" "l \<noteq> []"
    using assms(2) TrimSpace_Nil by (auto simp: plain_line_def)
  have tail: "scan_lines maxLine [] l = ([l], False)" using scan_tail [of l "[]" maxLine] l by simp
  have one: "decode_loop dec [] NoPending (ls0 @ [l]) = Some (evs, PendingCorrupt)"
    using decode_lines [OF dl, where out = "[]" and p = NoPending and ls' = "[l]"] l(4) assms(3) by simp
  show "decodeEvents dec [] (f @ l) = Inr evs"
    using scan_text [OF pl, of l] tail one by (simp add: decodeEvents_def f)
  have nil: "scan_lines maxLine [] [] = ([], False)" by (simp add: maxLine_def)
  have "scan_lines maxLine [] (f @ lines_text [l]) = (ls0 @ [l], False)"
    using scan_text [of "ls0 @ [l]" "[]"] pl assms(2) nil by (simp add: f)
  with one show "decodeEvents dec [] (f @ lines_text [l]) = Inr evs" by (simp add: decodeEvents_def)
  assume ls: "list_all plain_line ls" "ls \<noteq> []"
  have "\<forall>l \<in> set (ls0 @ l # ls). plain_line l" using pl assms(2) ls(1) by (auto simp: list_all_iff)
  from scan_text [OF this, of "[]"] nil have "scan_lines maxLine [] (f @ lines_text (l # ls)) = (ls0 @ l # ls, False)"
    by (simp add: f)
  moreover have "decode_loop dec [] NoPending (ls0 @ l # ls) = None"
    using decode_lines [OF dl, where out = "[]" and p = NoPending and ls' = "l # ls"] l(4) assms(3) ls
    by (cases ls) (auto simp: plain_line_def)
  ultimately show "decodeEvents dec [] (f @ lines_text (l # ls)) = Inl [errCorrupt]" by (simp add: decodeEvents_def)
qed

lemma append_clean:
  assumes "faults s = []" "validateSessionID sid = []" "map_get (js_files s) sid = Some f"
    and "(if ss_cached (getState s sid) \<and> length f = ss_size (getState s sid)
          then Inr (ss_lastSeq (getState s sid), ss_hasInit (getState s sid)) else scanLastSeq dec [] f) = Inr (n, True)"
    and "ev_Kind ev \<noteq> EventInit" "enc (stamp (n + 1) now ev) = Inr l"
  shows "\<exists>s'. json_Append enc dec sid now ev s = (Inr (n + 1), s') \<and> faults s' = []
    \<and> map_get (js_files s') sid = Some (f @ l @ [newline])
    \<and> getState s' sid = \<lparr>ss_lastSeq = n + 1, ss_hasInit = True, ss_size = length (f @ l @ [newline]), ss_cached = True\<rparr>"
proof -
  have "append_open enc dec no_fault now ev f (getState s sid) =
      (Inr (n + 1), f @ l @ [newline],
       \<lparr>ss_lastSeq = n + 1, ss_hasInit = True, ss_size = length (f @ l @ [newline]), ss_cached = True\<rparr>)"
    unfolding append_open_def no_fault_def io_fault.simps assms(4) using assms(5,6) by (simp add: Let_def)
  with assms(1-3) show ?thesis
    by (simp add: json_Append_def next_fault_def no_fault_def set_file_def setState_def getState_def)
qed

text \<open>A crash in the middle of an append leaves the start of a line behind.  Loading such a
  session works, and so do two more appends, but the first of them is glued to the left-over:
  from then on the session can no longer be loaded.\<close>

theorem torn_line_loses_session:
  assumes log: "log_file enc dec f evs" "evs \<noteq> []"
    and store: "map_get (js_files s) sid = Some (f @ frag)" "\<not> ss_cached (getState s sid)" "faults s = []"
      "validateSessionID sid = []"
    and torn: "plain_line frag" "dec frag = None" "plain_line (frag @ l1)" "dec (frag @ l1) = None"
    and ev: "ev_Kind ev1 \<noteq> EventInit" "ev_Kind ev2 \<noteq> EventInit" "plain_line l2"
      "enc (stamp (int (length evs) + 1) now ev1) = Inr l1" "enc (stamp (int (length evs) + 2) now ev2) = Inr l2"
  shows "\<exists>s0 s1 s2 s3. json_Load dec sid s = (Inr evs, s0)
    \<and> json_Append enc dec sid now ev1 s = (Inr (int (length evs) + 1), s1)
    \<and> json_Append enc dec sid now ev2 s1 = (Inr (int (length evs) + 2), s2)
    \<and> json_Load dec sid s2 = (Inl [errCorrupt], s3)"
proof -
  note d0 = decode_torn(1) [OF log(1) torn(1,2)]
  have "scanLastSeq dec [] (f @ frag) = Inr (int (length evs), True)"
    using d0 scan_seq_gapless [OF log_file_gapless [OF log(1)]] log(2) by (simp add: scanLastSeq_def)
  then obtain s1 where s1: "json_Append enc dec sid now ev1 s = (Inr (int (length evs) + 1), s1)" "faults s1 = []"
    "map_get (js_files s1) sid = Some (f @ frag @ l1 @ [newline])"
    "getState s1 sid = \<lparr>ss_lastSeq = int (length evs) + 1, ss_hasInit = True,
       ss_size = length (f @ frag @ l1 @ [newline]), ss_cached = True\<rparr>"
    using append_clean [OF store(3,4,1), of dec "int (length evs)" ev1 enc now l1] ev(1,4) store(2) by auto
  obtain s2 where s2: "json_Append enc dec sid now ev2 s1 = (Inr (int (length evs) + 2), s2)" "faults s2 = []"
    "map_get (js_files s2) sid = Some (f @ lines_text [frag @ l1, l2])"
    using append_clean [OF s1(2) store(4) s1(3), of dec "int (length evs) + 1" ev2 enc now l2] s1(4) ev(2,5)
    by (auto simp: add.assoc)
  have "decodeEvents dec [] (f @ lines_text [frag @ l1, l2]) = Inl [errCorrupt]"
    using decode_torn(2) [OF log(1) torn(3,4), of "[l2]"] ev(3) by simp
  with s2 d0 s1(1) store show ?thesis by (simp add: json_Load_def next_fault_def no_fault_def)
qed

section \<open>Shrinking\<close>

text \<open>One call at a time: between a tool output and its call there are only reasoning turns and
  other outputs.\<close>

definition call_id :: "turn \<Rightarrow> string option" where
  "call_id t = map_option tp_CallID (tn_Tool t)"

definition answers :: "turn list \<Rightarrow> nat \<Rightarrow> nat \<Rightarrow> bool" where
  "answers ts i j \<longleftrightarrow> j < i \<and> tn_Role (ts ! j) = RoleToolCall \<and> call_id (ts ! j) = call_id (ts ! i)"

definition exchanges_intact :: "turn list \<Rightarrow> bool" where
  "exchanges_intact ts \<longleftrightarrow> (\<forall>i < length ts. tn_Role (ts ! i) = RoleToolOutput \<longrightarrow>
     (\<exists>j. answers ts i j \<and> (\<forall>k. j < k \<and> k < i \<longrightarrow> inner_turn (ts ! k))))"

lemma rewind_stop: "rewind_cut ts n < length ts \<Longrightarrow> rewind_cut ts n > 0 \<Longrightarrow> \<not> inner_turn (ts ! rewind_cut ts n)"
  by (induction n) (auto split: if_splits)

lemma intact_drop:
  assumes "exchanges_intact ts" "m \<le> length ts" "m = 0 \<or> m = length ts \<or> \<not> inner_turn (ts ! m)"
  shows "exchanges_intact (drop m ts)"
  unfolding exchanges_intact_def
proof (intro allI impI)
  fix i assume i: "i < length (drop m ts)" "tn_Role (drop m ts ! i) = RoleToolOutput"
  then have i': "m + i < length ts" "tn_Role (ts ! (m + i)) = RoleToolOutput" using assms(2) by simp_all
  with assms(1) obtain j where j: "answers ts (m + i) j" "\<forall>k. j < k \<and> k < m + i \<longrightarrow> inner_turn (ts ! k)"
    by (auto simp: exchanges_intact_def)
  have "m \<le> j"
  proof (rule ccontr)
    assume "\<not> ?thesis"
    then have "j < m" by simp
    with assms(3) i' have ni: "\<not> inner_turn (ts ! m)" by auto
    with i'(2) have "i \<noteq> 0" by (cases i) (auto simp: inner_turn_def)
    with j(2) \<open>j < m\<close> have "inner_turn (ts ! m)" by simp
    with ni show False by simp
  qed
  with j assms(2) show "\<exists>j. answers (drop m ts) i j \<and> (\<forall>k. j < k \<and> k < i \<longrightarrow> inner_turn (drop m ts ! k))"
    by (intro exI [of _ "j - m"]) (auto simp: answers_def)
qed

lemma intact_Cons: "exchanges_intact ts \<Longrightarrow> tn_Role t \<noteq> RoleToolOutput \<Longrightarrow> exchanges_intact (t # ts)"
  unfolding exchanges_intact_def
proof (intro allI impI)
  fix i assume a: "\<forall>i < length ts. tn_Role (ts ! i) = RoleToolOutput \<longrightarrow>
     (\<exists>j. answers ts i j \<and> (\<forall>k. j < k \<and> k < i \<longrightarrow> inner_turn (ts ! k)))" "tn_Role t \<noteq> RoleToolOutput"
    and i: "i < length (t # ts)" "tn_Role ((t # ts) ! i) = RoleToolOutput"
  then obtain n where n: "i = Suc n" by (cases i) auto
  with a i obtain j where "answers ts n j" "\<forall>k. j < k \<and> k < n \<longrightarrow> inner_turn (ts ! k)" by auto
  then show "\<exists>j. answers (t # ts) i j \<and> (\<forall>k. j < k \<and> k < i \<longrightarrow> inner_turn ((t # ts) ! k))"
    unfolding n by (intro exI [of _ "Suc j"]) (auto simp: answers_def nth_Cons split: nat.splits)
qed

text \<open>Dropping details changes neither roles nor call ids.\<close>

lemma intact_map:
  assumes "exchanges_intact ts" "map tn_Role ts' = map tn_Role ts" "map call_id ts' = map call_id ts"
  shows "exchanges_intact ts'"
proof -
  have len: "length ts' = length ts" using assms(2) by (metis length_map)
  have role: "tn_Role (ts' ! i) = tn_Role (ts ! i)" "call_id (ts' ! i) = call_id (ts ! i)" if "i < length ts" for i
    using assms(2,3) len that by (metis nth_map)+
  have inner: "inner_turn (ts' ! i) = inner_turn (ts ! i)" if "i < length ts" for i
    using role that by (simp add: inner_turn_def)
  show ?thesis
    unfolding exchanges_intact_def len
  proof (intro allI impI)
    fix i assume i: "i < length ts" "tn_Role (ts' ! i) = RoleToolOutput"
    with assms(1) role obtain j where j: "answers ts i j" "\<forall>k. j < k \<and> k < i \<longrightarrow> inner_turn (ts ! k)"
      by (auto simp: exchanges_intact_def)
    with i role inner show "\<exists>j. answers ts' i j \<and> (\<forall>k. j < k \<and> k < i \<longrightarrow> inner_turn (ts' ! k))"
      by (intro exI [of _ j]) (auto simp: answers_def)
  qed
qed

lemma details_same:
  "map tn_Role (snd (drop_details k n ts)) = map tn_Role ts \<and> map call_id (snd (drop_details k n ts)) = map call_id ts"
  by (induction k n ts rule: drop_details.induct) (auto simp: call_id_def split: option.splits prod.splits)

lemma intact_rewind:
  assumes "exchanges_intact ts" "n \<le> length ts"
  shows "exchanges_intact (drop (rewind_cut ts n) ts)"
proof (rule intact_drop [OF assms(1)])
  show "rewind_cut ts n \<le> length ts" using json_log.rewind_le [of ts n] assms(2) by simp
  then show "rewind_cut ts n = 0 \<or> rewind_cut ts n = length ts \<or> \<not> inner_turn (ts ! rewind_cut ts n)"
    using rewind_stop [of ts n] by linarith
qed

text \<open>C17. When the model calls one tool at a time, shrinking never separates a tool output from
  its call: after trimming, compressing or dropping details every output that is left still has
  its call before it.\<close>

theorem shrinking_keeps_exchanges:
  assumes "exchanges_intact (cv_turns c)"
  shows "exchanges_intact (cv_turns (snd (Trim ops now k c)))
    \<and> exchanges_intact (cv_turns (snd (DropToolDetails ops now k c)))
    \<and> (\<forall>e n c'. Compress ops now sm k c = Ok (e, n, c') \<longrightarrow> exchanges_intact (cv_turns c'))"
proof (intro conjI allI impI)
  show "exchanges_intact (cv_turns (snd (Trim ops now k c)))"
    using assms by (auto simp: Trim_eq trim_turns_def Let_def intro: intact_rewind)
  have "exchanges_intact (detail_turns k (cv_turns c))"
    by (rule intact_map [OF assms]) (simp_all add: detail_turns_def details_same rev_map [symmetric])
  then show "exchanges_intact (cv_turns (snd (DropToolDetails ops now k c)))"
    using assms by (simp add: DropToolDetails_eq)
  fix e n c' assume cmp: "Compress ops now sm k c = Ok (e, n, c')"
  show "exchanges_intact (cv_turns c')"
  proof (cases "c' = c")
    case False
    define m where "m = (if k > int (length (cv_turns c)) then length (cv_turns c) else nat k)"
    let ?up = "rewind_cut (cv_turns c) m"
    have m: "m \<le> length (cv_turns c)" by (auto simp: m_def)
    from cmp False obtain s where "ReplaceRange ops now 0 (int ?up) [summary_turn now s] c = Ok c'"
      unfolding Compress_def Let_def m_def [symmetric]
      by (auto split: option.splits if_splits sum.splits outcome.splits)
    then have "cv_turns c' = replace_turns 0 (int ?up) [summary_turn now s] (cv_turns c)"
      by (auto simp: ReplaceRange_eq split: if_splits)
    also have "\<dots> = summary_turn now s # drop ?up (cv_turns c)"
      using json_log.rewind_le [of "cv_turns c" m] m by (simp add: replace_turns_def clamp_from_def clamp_to_def)
    finally show ?thesis
      using intact_rewind [OF assms m] by (simp add: intact_Cons summary_turn_def)
  qed (use assms in simp)
qed

text \<open>When a response carries two calls, all calls are recorded before any output, and the
  cut stops at the second call: trimming to one, two or three turns keeps the output of the
  first call without the call itself.\<close>

theorem parallel_calls_are_stranded:
  assumes "cv_turns c = pre @ [call_turn t1 a, call_turn t2 b, output_turn t3 (tc_CallID a) oa ea,
      output_turn t4 (tc_CallID b) ob eb]"
    and "tc_CallID a \<noteq> tc_CallID b" and "1 \<le> k" and "k \<le> 3"
  shows "cv_turns (snd (Trim ops now k c)) =
      [call_turn t2 b, output_turn t3 (tc_CallID a) oa ea, output_turn t4 (tc_CallID b) ob eb]
    \<and> \<not> exchanges_intact (cv_turns (snd (Trim ops now k c)))"
proof -
  let ?ts = "cv_turns c" and ?n = "length pre"
  have len: "length ?ts = ?n + 4" using assms(1) by simp
  have at: "?ts ! (?n + 3) = output_turn t4 (tc_CallID b) ob eb" "?ts ! (?n + 2) = output_turn t3 (tc_CallID a) oa ea"
    "?ts ! (?n + 1) = call_turn t2 b"
    using assms(1) by (simp_all add: nth_append)
  have stop: "rewind_cut ?ts (Suc ?n) = Suc ?n" using at(3) by (simp add: inner_turn_def call_turn_def)
  have two: "rewind_cut ?ts (Suc (Suc ?n)) = Suc ?n" using at(2) len stop by (simp add: inner_turn_def output_turn_def)
  have three: "rewind_cut ?ts (Suc (Suc (Suc ?n))) = Suc ?n"
    using at(1) len two by (simp add: inner_turn_def output_turn_def numeral_3_eq_3)
  have "length ?ts - nat k \<in> {Suc ?n, Suc (Suc ?n), Suc (Suc (Suc ?n))}" using assms(3,4) len by auto
  with stop two three have "rewind_cut ?ts (length ?ts - nat k) = Suc ?n" by auto
  then have tr: "cv_turns (snd (Trim ops now k c)) =
      [call_turn t2 b, output_turn t3 (tc_CallID a) oa ea, output_turn t4 (tc_CallID b) ob eb]"
    using assms(1,3,4) by (simp add: Trim_eq trim_turns_def)
  have "\<not> exchanges_intact [call_turn t2 b, output_turn t3 (tc_CallID a) oa ea, output_turn t4 (tc_CallID b) ob eb]"
  proof
    assume "exchanges_intact [call_turn t2 b, output_turn t3 (tc_CallID a) oa ea, output_turn t4 (tc_CallID b) ob eb]"
    then have "\<exists>j. answers [call_turn t2 b, output_turn t3 (tc_CallID a) oa ea, output_turn t4 (tc_CallID b) ob eb] 1 j"
      unfolding exchanges_intact_def by (auto simp: output_turn_def dest: spec [of _ 1])
    with assms(2) show False by (auto simp: answers_def call_turn_def output_turn_def call_id_def)
  qed
  with tr show ?thesis by simp
qed

section \<open>Usage\<close>

lemma turn_bytes_nonneg: "0 \<le> turn_bytes f ts"
  by (induction ts) auto

lemma floor_shares:
  fixes b t x1 x2 x3 x4 x5 :: int
  assumes "0 \<le> b" "0 < t" "x1 + x2 + x3 + x4 + x5 = t"
  shows "b * x1 div t + b * x2 div t + b * x3 div t + b * x4 div t + b * x5 div t \<le> b"
    "b - 4 \<le> b * x1 div t + b * x2 div t + b * x3 div t + b * x4 div t + b * x5 div t"
proof -
  let ?s = "b * x1 div t + b * x2 div t + b * x3 div t + b * x4 div t + b * x5 div t"
  let ?r = "b * x1 mod t + b * x2 mod t + b * x3 mod t + b * x4 mod t + b * x5 mod t"
  have "b * t = b * x1 + b * x2 + b * x3 + b * x4 + b * x5" unfolding assms(3) [symmetric] by (simp add: algebra_simps)
  also have "\<dots> = ?s * t + ?r" by (simp add: algebra_simps)
  finally have eq: "b * t = ?s * t + ?r" .
  have r: "0 \<le> ?r" "?r < 5 * t" using assms(2) pos_mod_bound [OF assms(2)] pos_mod_sign [OF assms(2)]
    by (smt (verit) add_nonneg_nonneg)+
  from eq r(1) have "?s * t \<le> b * t" by simp
  with assms(2) show "?s \<le> b" by (simp add: mult_le_cancel_right)
  from eq r(2) have "b * t < ?s * t + 5 * t" by linarith
  then have "b * t < (?s + 5) * t" by (simp only: distrib_right)
  with assms(2) have "b < ?s + 5" by (simp add: mult_less_cancel_right)
  then show "b - 4 \<le> ?s" by simp
qed

definition usage_sum :: "role_usage \<Rightarrow> int" where
  "usage_sum r = ru_Instructions r + ru_Tools r + ru_User r + ru_Assistant r + ru_ToolIO r"

text \<open>The per-role breakdown never exceeds the uncached input tokens and misses at most
  four of them to rounding; no share is negative.\<close>

theorem usage_by_role_bounds:
  assumes "cv_instructions c \<noteq> []"
  shows "let budget = max 0 (tu_Input (cv_usage c) - tu_Cached (cv_usage c)); s = usage_sum (UsageByRole c)
    in s \<le> budget \<and> budget - 4 \<le> s \<and> 0 \<le> ru_Instructions (UsageByRole c) \<and> 0 \<le> ru_Tools (UsageByRole c)
       \<and> 0 \<le> ru_User (UsageByRole c) \<and> 0 \<le> ru_Assistant (UsageByRole c) \<and> 0 \<le> ru_ToolIO (UsageByRole c)"
proof -
  define b where "b = max 0 (tu_Input (cv_usage c) - tu_Cached (cv_usage c))"
  define x1 where "x1 = int (length (cv_instructions c))"
  define x2 where "x2 = sum_list (map (\<lambda>t. int (length (ts_Name t)) + int (length (ts_Description t))) (cv_toolSpecs c))"
  define x3 where "x3 = turn_bytes (\<lambda>t. if tn_Role t = RoleUser then length (tn_Text t) else 0) (cv_turns c)"
  define x4 where "x4 = turn_bytes (\<lambda>t. if tn_Role t = RoleAssistant then length (tn_Text t) else 0) (cv_turns c)"
  define x5 where "x5 = turn_bytes io_bytes (cv_turns c)"
  have x2: "0 \<le> x2" unfolding x2_def by (rule sum_list_nonneg) auto
  have pos: "0 < x1" "0 \<le> x2" "0 \<le> x3" "0 \<le> x4" "0 \<le> x5" "0 \<le> b"
    using assms turn_bytes_nonneg x2 by (auto simp: x1_def x3_def x4_def x5_def b_def)
  let ?t = "x1 + x2 + x3 + x4 + x5"
  have t: "0 < ?t" using pos by simp
  have b': "(if tu_Input (cv_usage c) - tu_Cached (cv_usage c) < 0 then 0
      else tu_Input (cv_usage c) - tu_Cached (cv_usage c)) = b" by (simp add: b_def)
  have u: "UsageByRole c =
      (if b = 0 then zero_role_usage
       else \<lparr>ru_Instructions = b * x1 div ?t, ru_Tools = b * x2 div ?t, ru_User = b * x3 div ?t,
             ru_Assistant = b * x4 div ?t, ru_ToolIO = b * x5 div ?t\<rparr>)"
    unfolding UsageByRole_def Let_def b' x1_def [symmetric] x2_def [symmetric] x3_def [symmetric] x4_def [symmetric]
      x5_def [symmetric] using t by simp
  have d: "0 \<le> b * x div ?t" if "0 \<le> x" for x using that pos(6) t by (simp add: pos_imp_zdiv_nonneg_iff)
  show ?thesis
    unfolding b_def [symmetric] Let_def u usage_sum_def
    using floor_shares [OF pos(6) t refl] d pos by (simp add: zero_role_usage_def)
qed

section \<open>Examples\<close>

text \<open>A codec for three events.\<close>

definition cex_conv :: "(unit, json_store) conversation" where
  "cex_conv = \<lparr>cv_instructions = ''Be brief.'', cv_toolSpecs = [], cv_toolByName = [], cv_turns = [],
     cv_usage = zero_usage, cv_autoShrink = DefaultAutoShrinkConfig, cv_summarizer = None, cv_maxSteps = 20,
     cv_stores = [], cv_sessionID = [], cv_replaying = False, cv_lastErr = []\<rparr>"

definition cex_turn :: turn where
  "cex_turn = \<lparr>tn_Role = RoleUser, tn_Text = ''hello'', tn_Tool = None, tn_Tier = 3, tn_CreatedAt = 2, tn_Raw = []\<rparr>"

definition cex_init :: sevent where "cex_init = init_event cex_conv"
definition cex_user :: sevent where "cex_user = turn_event EventAppendUser cex_turn"

definition cex_table :: "(sevent \<times> string) list" where
  "cex_table = [(stamp 1 5 cex_init, ''{1}''), (stamp 2 5 cex_user, ''{2}''), (stamp 3 5 cex_user, ''{3}'')]"

definition cex_enc :: "sevent \<Rightarrow> go_error + string" where
  "cex_enc ev = (case map_of cex_table ev of Some l \<Rightarrow> Inr l | None \<Rightarrow> Inl [''json: unsupported value''])"

definition cex_dec :: "string \<Rightarrow> sevent option" where
  "cex_dec l = map_of (map prod.swap cex_table) l"

definition cex_store :: json_store where
  "cex_store = \<lparr>js_files = [], js_states = [], faults = []\<rparr>"

lemmas cex_defs = cex_init_def cex_user_def init_event_def turn_event_def new_event_def cex_conv_def cex_turn_def stamp_def

lemma cex_trim: "TrimSpace ''{1}'' = ''{1}''" "TrimSpace ''{2}'' = ''{2}''" "TrimSpace ''{3}'' = ''{3}''"
  by code_simp+

lemma cex_plain: "plain_line ''{1}''" "plain_line ''{2}''" "plain_line ''{3}''"
  by (simp_all add: plain_line_def cex_trim maxLine_def newline_def drop_cr_def)

lemma cex_enc_simps:
  "cex_enc (stamp 1 5 cex_init) = Inr ''{1}''" "cex_enc (stamp 2 5 cex_user) = Inr ''{2}''" "cex_enc (stamp 3 5 cex_user) = Inr ''{3}''"
  by (simp_all add: cex_enc_def cex_table_def cex_defs)

lemma cex_dec_simps:
  "cex_dec ''{1}'' = Some (stamp 1 5 cex_init)" "cex_dec ''{2}'' = Some (stamp 2 5 cex_user)" "cex_dec ''{3}'' = Some (stamp 3 5 cex_user)"
  by (simp_all add: cex_dec_def cex_table_def)

lemma cex_storable: "storable cex_enc cex_dec ev"
  unfolding storable_def
proof (intro allI impI)
  fix n t l assume "cex_enc (stamp n t ev) = Inr l"
  then have "(stamp n t ev, l) \<in> set cex_table" by (auto simp: cex_enc_def split: option.splits dest: map_of_SomeD)
  then show "cex_dec l = Some (stamp n t ev) \<and> plain_line l" by (auto simp: cex_table_def cex_dec_simps cex_plain)
qed

definition cex_open :: "(unit, json_store) conversation outcome" where
  "cex_open = fst (OpenSession (json_ops cex_enc cex_dec) 5 ''s'' [cex_store] cex_conv)"

definition cex_store1 :: json_store where
  "cex_store1 = \<lparr>js_files = [(''s'', ''{1}'' @ [newline])],
     js_states = [(''s'', \<lparr>ss_lastSeq = 1, ss_hasInit = True, ss_size = 4, ss_cached = True\<rparr>)], faults = []\<rparr>"

definition cex_store2 :: json_store where
  "cex_store2 = \<lparr>js_files = [(''s'', ''{1}'' @ newline # ''{2}'' @ [newline])],
     js_states = [(''s'', \<lparr>ss_lastSeq = 2, ss_hasInit = True, ss_size = 8, ss_cached = True\<rparr>)], faults = []\<rparr>"

lemmas cex_run_defs = OpenSession_def json_ops_def json_Load_def json_Append_def append_open_def next_fault_def
  no_fault_def getState_def setState_def set_file_def zero_state_def validateSessionID_def
  scanLastSeq_def decodeEvents_def maxLine_def scan_seq_def error_Is_def cex_store_def cex_store1_def cex_store2_def

lemma cex_sid: "validateSessionID ''s'' = []" by code_simp

lemma cex_append1: "json_Append cex_enc cex_dec ''s'' 5 cex_init cex_store = (Inr 1, cex_store1)"
proof -
  have k: "ev_Kind cex_init = EventInit" by (simp add: cex_defs)
  show ?thesis
    unfolding json_Append_def cex_sid
    by (simp add: cex_run_defs cex_enc_simps k)
qed

lemma cex_append2: "json_Append cex_enc cex_dec ''s'' 5 cex_user cex_store1 = (Inr 2, cex_store2)"
proof -
  have k: "ev_Kind cex_user = EventAppendUser" by (simp add: cex_defs)
  show ?thesis
    unfolding json_Append_def cex_sid
    by (simp add: cex_run_defs cex_enc_simps k)
qed

definition cex_conv1 :: "(unit, json_store) conversation" where
  "cex_conv1 = cex_conv\<lparr>cv_stores := [cex_store1], cv_sessionID := ''s''\<rparr>"

definition cex_conv2 :: "(unit, json_store) conversation" where
  "cex_conv2 = cex_conv1\<lparr>cv_stores := [cex_store2], cv_turns := [cex_turn]\<rparr>"

lemma cex_load: "json_Load cex_dec ''s'' cex_store = (Inl [ErrSessionNotFound], cex_store\<lparr>js_states := [(''s'', zero_state)]\<rparr>)"
  unfolding json_Load_def cex_sid by (simp add: cex_run_defs)

lemma cex_append1': "json_Append cex_enc cex_dec ''s'' 5 cex_init (cex_store\<lparr>js_states := [(''s'', zero_state)]\<rparr>) = (Inr 1, cex_store1)"
  using cex_append1 unfolding json_Append_def cex_sid by (simp add: next_fault_def getState_def setState_def cex_store_def)

lemma cex_opened: "OpenSession (json_ops cex_enc cex_dec) 5 ''s'' [cex_store] cex_conv = (Ok cex_conv1, [cex_store1])"
  unfolding OpenSession_def
  by (simp add: json_ops_def cex_load error_Is_def cex_append1' cex_init_def [symmetric] cex_conv1_def)
     (simp add: cex_conv_def)

lemma cex_stepped: "append_turn (json_ops cex_enc cex_dec) 5 EventAppendUser cex_turn cex_conv1 = cex_conv2"
  using cex_append2
  by (simp add: append_turn_def emit_def json_ops_def cex_conv1_def cex_conv2_def turn_event_def cex_user_def cex_conv_def)

lemma cex_reach: "reach (session_open (json_ops cex_enc cex_dec) (json_inv cex_enc cex_dec) (storable cex_enc cex_dec))
    (conv_step (json_ops cex_enc cex_dec) (storable cex_enc cex_dec)) cex_conv2"
proof (rule reach_step [OF reach_start])
  show "session_open (json_ops cex_enc cex_dec) (json_inv cex_enc cex_dec) (storable cex_enc cex_dec) cex_conv1"
    unfolding session_open_def
  proof (intro exI conjI)
    show "OpenSession (json_ops cex_enc cex_dec) 5 ''s'' [cex_store] cex_conv = (Ok cex_conv1, [cex_store1])" by (rule cex_opened)
    show "\<forall>st\<in>set [cex_store]. json_inv cex_enc cex_dec st" using empty_store_inv [of cex_store] by (simp add: cex_store_def)
    show "\<forall>st\<in>set [cex_store]. fst (op_Load (json_ops cex_enc cex_dec) ''s'' st) \<noteq> Inr []" by (simp add: json_ops_def cex_load)
  qed (simp_all add: cex_storable fresh_conv_def cex_conv_def)
  show "conv_step (json_ops cex_enc cex_dec) (storable cex_enc cex_dec) cex_conv1 cex_conv2"
    unfolding cex_stepped [symmetric] by (rule step_turn) (simp_all add: cex_storable append_kinds_def)
qed

theorem replay_rebuilds_conversation_witness:
  "\<exists>c2 sts. OpenSession (json_ops cex_enc cex_dec) 9 ''s'' [cex_store2] cex_conv = (Ok c2, sts)
    \<and> cv_instructions c2 = ''Be brief.'' \<and> cv_turns c2 = [cex_turn]"
proof -
  have "cv_sessionID cex_conv2 = ''s''" "cv_instructions cex_conv2 = ''Be brief.''" "cv_turns cex_conv2 = [cex_turn]"
    "cv_stores cex_conv2 = [cex_store2]" "cv_lastErr cex_conv2 = []" "cv_toolSpecs cex_conv2 = []" "faults cex_store2 = []"
    "fresh_conv cex_conv"
    by (simp_all add: cex_conv2_def cex_conv1_def cex_conv_def cex_store2_def fresh_conv_def)
  with replay_rebuilds_conversation [OF cex_reach, of cex_store2 cex_conv 9] show ?thesis by (auto simp: cex_sid)
qed

theorem session_log_roundtrip_witness:
  "\<exists>s1 s2. append_each (json_ops cex_enc cex_dec) ''s'' 5 [cex_init, cex_user, cex_user] cex_store = ([], s1)
    \<and> json_Load cex_dec ''s'' s1 = (Inr [stamp 1 5 cex_init, stamp 2 5 cex_user, stamp 3 5 cex_user], s2)"
proof -
  have kinds: "ev_Kind cex_init = EventInit" "ev_Kind cex_user = EventAppendUser" by (simp_all add: cex_defs)
  have "stamped 5 [cex_init, cex_user, cex_user] = [stamp 1 5 cex_init, stamp 2 5 cex_user, stamp 3 5 cex_user]"
    by (simp add: stamped_def upt_rec)
  moreover have "\<forall>i < length [cex_init, cex_user, cex_user]. storable cex_enc cex_dec ([cex_init, cex_user, cex_user] ! i)
      \<and> (ev_Kind ([cex_init, cex_user, cex_user] ! i) = EventInit \<longleftrightarrow> i = 0)
      \<and> (\<exists>l. cex_enc (stamp (int i + 1) 5 ([cex_init, cex_user, cex_user] ! i)) = Inr l)"
    by (simp add: All_less_Suc cex_storable cex_enc_simps kinds)
  moreover have "js_files cex_store = []" "js_states cex_store = []" "faults cex_store = []" by (simp_all add: cex_store_def)
  ultimately show ?thesis
    using session_log_roundtrip [of cex_store "''s''" "[cex_init, cex_user, cex_user]" cex_enc cex_dec 5] cex_sid by auto
qed

theorem torn_line_loses_session_witness:
  "let s = cex_store1\<lparr>js_files := [(''s'', ''{1}'' @ newline # ''{x'')], js_states := []\<rparr> in
    \<exists>s0 s1 s2 s3. json_Load cex_dec ''s'' s = (Inr [stamp 1 5 cex_init], s0)
    \<and> json_Append cex_enc cex_dec ''s'' 5 cex_user s = (Inr 2, s1)
    \<and> json_Append cex_enc cex_dec ''s'' 5 cex_user s1 = (Inr 3, s2)
    \<and> json_Load cex_dec ''s'' s2 = (Inl [errCorrupt], s3)"
proof -
  let ?s = "cex_store1\<lparr>js_files := [(''s'', (''{1}'' @ [newline]) @ ''{x'')], js_states := []\<rparr>"
  have ev: "ev_Kind cex_init = EventInit" "ev_Kind cex_user \<noteq> EventInit" by (simp_all add: cex_defs)
  have log: "log_file cex_enc cex_dec (''{1}'' @ [newline]) [stamp 1 5 cex_init]"
    unfolding log_file_def
    by (auto simp: gapless_single ev lines_text_def cex_enc_simps cex_dec_simps cex_plain intro!: exI [of _ "[''{1}'']"])
  have "TrimSpace ''{x'' = ''{x''" "TrimSpace ''{x{2}'' = ''{x{2}''" by code_simp+
  then have torn: "plain_line ''{x''" "plain_line ''{x{2}''"
    by (simp_all add: plain_line_def maxLine_def newline_def drop_cr_def)
  have dec: "cex_dec ''{x'' = None" "cex_dec ''{x{2}'' = None" by (simp_all add: cex_dec_def cex_table_def)
  show ?thesis
    using torn_line_loses_session [OF log, of ?s "''s''" "''{x''" "''{2}''" cex_user cex_user "''{3}''" 5]
    by (simp add: cex_sid torn dec ev cex_plain cex_enc_simps cex_store1_def getState_def zero_state_def Let_def)
qed

text \<open>A history with one exchange, and one with two parallel calls.\<close>

definition cex_call :: "string \<Rightarrow> tool_call" where
  "cex_call i = \<lparr>tc_CallID = i, tc_Name = ''bash'', tc_Arguments = ''{}''\<rparr>"

definition cex_single :: "(unit, json_store) conversation" where
  "cex_single = cex_conv\<lparr>cv_turns := [cex_turn, call_turn 3 (cex_call ''a''), output_turn 4 ''a'' ''ok'' []],
     cv_usage := \<lparr>tu_Input = 100, tu_Cached = 1, tu_Output = 0, tu_Reasoning = 0, tu_Total = 100\<rparr>\<rparr>"

definition cex_parallel :: "(unit, json_store) conversation" where
  "cex_parallel = cex_conv\<lparr>cv_turns := [cex_turn, call_turn 3 (cex_call ''a''), call_turn 3 (cex_call ''b''),
     output_turn 4 ''a'' ''ok'' [], output_turn 5 ''b'' ''ok'' []]\<rparr>"

theorem shrinking_keeps_exchanges_witness:
  "exchanges_intact (cv_turns (snd (Trim (json_ops cex_enc cex_dec) 9 1 cex_single)))
    \<and> length (cv_turns (snd (Trim (json_ops cex_enc cex_dec) 9 1 cex_single))) = 2"
proof -
  have "exchanges_intact (cv_turns cex_single)"
    unfolding exchanges_intact_def cex_single_def
    by (auto simp: All_less_Suc answers_def call_turn_def output_turn_def cex_turn_def call_id_def cex_call_def
        less_Suc_eq intro!: exI [of _ 1])
  moreover have "length (cv_turns (snd (Trim (json_ops cex_enc cex_dec) 9 1 cex_single))) = 2"
    by (simp add: Trim_eq trim_turns_def cex_single_def numeral_2_eq_2 inner_turn_def output_turn_def call_turn_def)
  ultimately show ?thesis using shrinking_keeps_exchanges [of cex_single "json_ops cex_enc cex_dec" 9 1] by simp
qed

theorem parallel_calls_are_stranded_witness:
  "cv_turns (snd (Trim (json_ops cex_enc cex_dec) 9 2 cex_parallel)) =
     [call_turn 3 (cex_call ''b''), output_turn 4 ''a'' ''ok'' [], output_turn 5 ''b'' ''ok'' []]"
  using parallel_calls_are_stranded [of cex_parallel "[cex_turn]" 3 "cex_call ''a''" 3 "cex_call ''b''" 4 "''ok''" "[]" 5
      "''ok''" "[]" 2 "json_ops cex_enc cex_dec" 9]
  by (simp add: cex_parallel_def cex_call_def)

theorem usage_by_role_bounds_witness:
  "usage_sum (UsageByRole cex_single) = 98 \<and> usage_sum (UsageByRole cex_single) \<le> 99"
proof -
  have "usage_sum (UsageByRole cex_single) = 98" by code_simp
  moreover have "cv_instructions cex_single \<noteq> []" by (simp add: cex_single_def cex_conv_def)
  moreover have "tu_Input (cv_usage cex_single) - tu_Cached (cv_usage cex_single) = 99" by (simp add: cex_single_def)
  ultimately show ?thesis using usage_by_role_bounds [of cex_single] by (simp add: Let_def)
qed

end
