(* ===== verification/Conversation_Run_Theorems.thy ===== *)
theory Conversation_Run_Theorems
  imports Conversation_Run Conversation_Theorems
begin

text \<open>
  Properties of the tool loop: every request \<^verbatim>\<open>Run\<close> sends pairs calls with outputs, there are
  never more requests than the step budget, and what leaves on the event stream.
\<close>

section \<open>Calls and outputs in a request\<close>

fun calls_answered :: "input_item list \<Rightarrow> bool" where
  "calls_answered [] = True"
| "calls_answered (InCall i n a # xs) \<longleftrightarrow> (\<exists>x \<in> set xs. \<exists>out. x = InOutput i out) \<and> calls_answered xs"
| "calls_answered (x # xs) = calls_answered xs"

fun outputs_called :: "string set \<Rightarrow> input_item list \<Rightarrow> bool" where
  "outputs_called seen [] = True"
| "outputs_called seen (InCall i n a # xs) = outputs_called (insert i seen) xs"
| "outputs_called seen (InOutput i out # xs) \<longleftrightarrow> i \<in> seen \<and> outputs_called seen xs"
| "outputs_called seen (x # xs) = outputs_called seen xs"

definition well_paired :: "input_item list \<Rightarrow> bool" where
  "well_paired xs \<longleftrightarrow> calls_answered xs \<and> outputs_called {} xs"

definition call_ids :: "input_item list \<Rightarrow> string set" where
  "call_ids xs = {i. \<exists>n a. InCall i n a \<in> set xs}"

fun is_tool :: "input_item \<Rightarrow> bool" where
  "is_tool (InCall i n a) = True"
| "is_tool (InOutput i out) = True"
| "is_tool x = False"

lemma calls_answered_append:
  "calls_answered xs \<Longrightarrow> calls_answered ys \<Longrightarrow> calls_answered (xs @ ys)"
  by (induction xs rule: calls_answered.induct) auto

lemma outputs_called_append:
  "outputs_called seen (xs @ ys) \<longleftrightarrow> outputs_called seen xs \<and> outputs_called (seen \<union> call_ids xs) ys"
proof (induction seen xs rule: outputs_called.induct)
  case (2 seen i n a xs)
  have "call_ids (InCall i n a # xs) = insert i (call_ids xs)" by (auto simp: call_ids_def)
  with 2 show ?case by simp
qed (simp_all add: call_ids_def)

lemma outputs_called_mono: "outputs_called S xs \<Longrightarrow> S \<subseteq> T \<Longrightarrow> outputs_called T xs"
  by (induction S xs arbitrary: T rule: outputs_called.induct) (auto intro: insert_mono)

lemma answered_filter: "calls_answered (filter is_tool xs) = calls_answered xs"
  by (induction xs rule: calls_answered.induct) auto

lemma called_filter: "outputs_called seen (filter is_tool xs) = outputs_called seen xs"
  by (induction seen xs rule: outputs_called.induct) auto

lemma paired_filter: "well_paired (filter is_tool xs) = well_paired xs"
  by (simp add: well_paired_def answered_filter called_filter)

text \<open>The tool items of a history do not depend on the rest of the request.\<close>

definition turn_items :: "turn \<Rightarrow> input_item list" where
  "turn_items t =
     (case tn_Tool t of
        None \<Rightarrow> []
      | Some p \<Rightarrow>
          (case tn_Role t of
             RoleToolCall \<Rightarrow> [InCall (tp_CallID p) (tp_Name p) (tp_Arguments p)]
           | RoleToolOutput \<Rightarrow> [InOutput (tp_CallID p) (tp_Output p)]
           | _ \<Rightarrow> []))"

definition history_items :: "turn list \<Rightarrow> input_item list" where
  "history_items ts = concat (map turn_items ts)"

lemma history_items_simps [simp]:
  "history_items [] = []" "history_items (ts @ us) = history_items ts @ history_items us"
  "history_items [t] = turn_items t"
  by (simp_all add: history_items_def)

lemma tool_items_of_input: "filter is_tool (build_from d l i ts) = history_items ts"
proof (induction ts arbitrary: i)
  case (Cons t ts)
  have "filter is_tool (input_items d l i t) = turn_items t"
    by (auto simp: input_items_def turn_items_def split: turn_role.splits option.splits)
  with Cons show ?case by (simp add: history_items_def)
qed (simp add: history_items_def)

lemma input_paired: "well_paired (buildResponseInput d ts) = well_paired (history_items ts)"
  using paired_filter [of "buildResponseInput d ts"] by (simp add: buildResponseInput_def tool_items_of_input)

text \<open>A batch of calls followed by their outputs in the same order.\<close>

definition call_item :: "tool_call \<Rightarrow> input_item" where
  "call_item tc = InCall (tc_CallID tc) (tc_Name tc) (tc_Arguments tc)"

definition answers_of :: "tool_call list \<Rightarrow> input_item list \<Rightarrow> bool" where
  "answers_of calls outs \<longleftrightarrow> list_all2 (\<lambda>tc x. \<exists>out. x = InOutput (tc_CallID tc) out) calls outs"

lemma outputs_only:
  "answers_of calls outs \<Longrightarrow> calls_answered outs \<and> (outputs_called S outs \<longleftrightarrow> tc_CallID ` set calls \<subseteq> S)"
  unfolding answers_of_def by (induction rule: list_all2_induct) auto

lemma calls_then_outputs:
  "(\<forall>tc \<in> set calls. \<exists>x \<in> set outs. \<exists>out. x = InOutput (tc_CallID tc) out) \<Longrightarrow> calls_answered outs
     \<Longrightarrow> calls_answered (map call_item calls @ outs)"
  by (induction calls) (auto simp: call_item_def)

lemma answers_found: "answers_of calls outs \<Longrightarrow> tc \<in> set calls \<Longrightarrow> \<exists>x \<in> set outs. \<exists>out. x = InOutput (tc_CallID tc) out"
  unfolding answers_of_def by (induction rule: list_all2_induct) auto

lemma no_outputs_called: "outputs_called S (map call_item calls)"
  by (induction calls arbitrary: S) (simp_all add: call_item_def)

lemma batch_paired:
  assumes "well_paired xs" "answers_of calls outs"
  shows "well_paired (xs @ map call_item calls @ outs)"
proof -
  have "calls_answered (map call_item calls @ outs)"
    using answers_found [OF assms(2)] outputs_only [OF assms(2)] by (blast intro: calls_then_outputs)
  moreover have "tc_CallID ` set calls \<subseteq> call_ids (map call_item calls)"
    by (auto simp: call_ids_def call_item_def image_iff)
  ultimately show ?thesis
    using assms(1) outputs_only [OF assms(2)]
    by (auto simp: well_paired_def outputs_called_append no_outputs_called intro: calls_answered_append)
qed

section \<open>One step of the loop\<close>

text \<open>What appending a turn does to the history.\<close>

lemma append_turn_fields [simp]:
  "cv_turns (append_turn ops now k t c) = cv_turns c @ [t]"
  "cv_autoShrink (append_turn ops now k t c) = cv_autoShrink c"
  "cv_toolByName (append_turn ops now k t c) = cv_toolByName c"
  "cv_maxSteps (append_turn ops now k t c) = cv_maxSteps c"
  by (simp_all add: append_turn_def) (simp add: emit_def split: prod.splits)

text \<open>\<open>K\<close> is any property of the world that reading the clock keeps.\<close>

definition keeps_clock :: "('t, 'w) run_env \<Rightarrow> ('w \<Rightarrow> bool) \<Rightarrow> bool" where
  "keeps_clock en K \<longleftrightarrow> (\<forall>w. K w \<longrightarrow> K (snd (en_now en w)))"

definition keeps_tools :: "('t, 'w) run_env \<Rightarrow> ('w \<Rightarrow> bool) \<Rightarrow> bool" where
  "keeps_tools en K \<longleftrightarrow> (\<forall>t call o'. K (fst o') \<longrightarrow>
     K (fst (snd (snd (en_Execute en t (call_context en call) (tc_Arguments call) o')))))"

lemma tick_keeps: "keeps_clock en K \<Longrightarrow> K (fst o') \<Longrightarrow> tick en o' = (now, o2) \<Longrightarrow> K (fst o2) \<and> snd o2 = snd o'"
  by (auto simp: tick_def keeps_clock_def split: prod.splits)

lemma on_stream_simps [simp]: "fst (on_stream f o') = fst o'" "snd (on_stream f o') = f (snd o')"
  by (simp_all add: on_stream_def)

text \<open>Everything that stays the same while items and outputs are appended.\<close>

definition same_setup :: "('t, 's) conversation \<Rightarrow> ('t, 's) conversation \<Rightarrow> bool" where
  "same_setup c c' \<longleftrightarrow> cv_autoShrink c' = cv_autoShrink c \<and> cv_toolByName c' = cv_toolByName c"

lemma same_setup_refl [simp]: "same_setup c c" by (simp add: same_setup_def)
lemma same_setup_trans [trans]: "same_setup a b \<Longrightarrow> same_setup b c \<Longrightarrow> same_setup a c" by (simp add: same_setup_def)

fun item_calls :: "output_item \<Rightarrow> tool_call list" where
  "item_calls (ItemFunctionCall tc) = [tc]"
| "item_calls x = []"

lemma apply_item_step:
  assumes "keeps_clock en K" "K (fst o')" "apply_item en ops rp d item (tx, calls, c, o') = (tx2, calls2, c2, o2)"
  shows "history_items (cv_turns c2) = history_items (cv_turns c) @ map call_item (item_calls item)
    \<and> calls2 = calls @ item_calls item \<and> same_setup c c2 \<and> K (fst o2)"
proof -
  obtain now w where now: "en_now en (fst o') = (now, w)" by (cases "en_now en (fst o')")
  have "K w" using assms(1,2) now by (auto simp: keeps_clock_def)
  with assms(2,3) now show ?thesis
    by (cases item)
       (auto simp: apply_item_def Let_def tick_def on_stream_def AppendAssistantText_def AppendToolCall_def AppendReasoning_def
          call_turn_def same_setup_def turn_items_def call_item_def split: if_splits)
qed

lemma apply_items_steps:
  assumes "keeps_clock en K" "K (fst o')" "fold (apply_item en ops rp d) items (tx, calls, c, o') = (tx2, calls2, c2, o2)"
  shows "\<exists>new. history_items (cv_turns c2) = history_items (cv_turns c) @ map call_item new
    \<and> calls2 = calls @ new \<and> same_setup c c2 \<and> K (fst o2)"
  using assms(2,3)
proof (induction items arbitrary: tx calls c o')
  case (Cons it items)
  obtain tx1 calls1 c1 o1 where one: "apply_item en ops rp d it (tx, calls, c, o') = (tx1, calls1, c1, o1)"
    by (cases "apply_item en ops rp d it (tx, calls, c, o')")
  note s = apply_item_step [OF assms(1) Cons.prems(1) one]
  then have "K (fst o1)" by simp
  from Cons.IH [OF this, of tx1 calls1 c1] Cons.prems(2) one obtain new where
    "history_items (cv_turns c2) = history_items (cv_turns c1) @ map call_item new"
    "calls2 = calls1 @ new" "same_setup c1 c2" "K (fst o2)" by auto
  with s show ?case by (intro exI [of _ "item_calls it @ new"]) (auto intro: same_setup_trans)
qed simp

lemma recordUsage_off:
  assumes "as_ContextWindow (cv_autoShrink c) \<le> 0"
  shows "\<exists>c2. recordUsage ops now u c = Ok ([], c2) \<and> cv_turns c2 = cv_turns c \<and> same_setup c c2"
  using assms by (simp add: recordUsage_def maybeAutoShrink_def same_setup_def Let_def)

lemma apply_response_step:
  assumes "keeps_clock en K" "K (fst o')" "as_ContextWindow (cv_autoShrink c) \<le> 0"
  shows "\<exists>r c2 o2. applyResponseOutput en ops cl d resp c o' = Ok (r, c2, o2) \<and> K (fst o2) \<and> same_setup c c2
    \<and> history_items (cv_turns c2) = history_items (cv_turns c) @ map call_item (re_ToolCalls r)"
proof -
  obtain tx calls c1 o1 where items:
    "fold (apply_item en ops (cl_replayReasoning cl) d) (sr_Output resp) ([], [], c, o') = (tx, calls, c1, o1)"
    by (metis prod_cases4)
  from apply_items_steps [OF assms(1,2) items]
  have c1: "history_items (cv_turns c1) = history_items (cv_turns c) @ map call_item calls" "same_setup c c1" "K (fst o1)"
    by auto
  obtain now o2 where now: "tick en o1 = (now, o2)" by (cases "tick en o1")
  have "as_ContextWindow (cv_autoShrink c1) \<le> 0" using assms(3) c1(2) by (simp add: same_setup_def)
  from recordUsage_off [OF this] obtain c2 where
    "recordUsage ops now (sr_Usage resp) c1 = Ok ([], c2)" "cv_turns c2 = cv_turns c1" "same_setup c1 c2" by blast
  with items now c1 tick_keeps [OF assms(1) c1(3) now] show ?thesis
    by (auto simp: applyResponseOutput_def Let_def intro: same_setup_trans)
qed

lemma dispatch_keeps:
  assumes "keeps_tools en K" "K (fst o')" "dispatch en c call o' = (r, dec, o3)"
  shows "K (fst o3)"
proof (cases "map_get (cv_toolByName c) (tc_Name call)")
  case (Some tool)
  obtain out err dec2 o4 where ex: "en_Execute en tool (call_context en call) (tc_Arguments call) o' = ((out, err), dec2, o4)"
    by (metis prod_cases4 prod.collapse)
  have "K (fst o4)" using assms(1) [unfolded keeps_tools_def, rule_format, OF assms(2), of tool call] ex by simp
  with assms(3) Some ex show ?thesis by (simp add: dispatch_def split: if_splits)
qed (use assms(2,3) in \<open>simp add: dispatch_def\<close>)

lemma run_call_step:
  assumes "keeps_clock en K" "keeps_tools en K" "K (fst o')" "run_call en ops call (c, o') = (c2, o2)"
  shows "same_setup c c2 \<and> K (fst o2)
    \<and> (\<exists>out. history_items (cv_turns c2) = history_items (cv_turns c) @ [InOutput (tc_CallID call) out])"
proof -
  let ?o1 = "on_stream (emitToolExecutionStarted call) o'"
  obtain out err dec o3 where d: "dispatch en c call ?o1 = ((out, err), dec, o3)" by (metis prod_cases4 prod.collapse)
  have "K (fst o3)" using dispatch_keeps [OF assms(2) _ d] assms(3) by simp
  then have k3: "K (fst (on_stream (emitToolExecutionFinished call err dec) o3))" by simp
  obtain now o4 where now: "tick en (on_stream (emitToolExecutionFinished call err dec) o3) = (now, o4)"
    by (cases "tick en (on_stream (emitToolExecutionFinished call err dec) o3)")
  from assms(4) d now tick_keeps [OF assms(1) k3 now] show ?thesis
    by (auto simp: run_call_def Let_def AppendToolOutput_def output_turn_def same_setup_def turn_items_def)
qed

lemma run_calls_steps:
  assumes "keeps_clock en K" "keeps_tools en K" "K (fst o')" "fold (run_call en ops) calls (c, o') = (c2, o2)"
  shows "same_setup c c2 \<and> K (fst o2)
    \<and> (\<exists>outs. answers_of calls outs \<and> history_items (cv_turns c2) = history_items (cv_turns c) @ outs)"
  using assms(3,4)
proof (induction calls arbitrary: c o')
  case (Cons call calls)
  obtain c1 o1 where one: "run_call en ops call (c, o') = (c1, o1)" by (cases "run_call en ops call (c, o')")
  from run_call_step [OF assms(1,2) Cons.prems(1) one] obtain out where
    s: "same_setup c c1" "K (fst o1)" "history_items (cv_turns c1) = history_items (cv_turns c) @ [InOutput (tc_CallID call) out]"
    by blast
  from Cons.IH [OF s(2), of c1] Cons.prems(2) one obtain outs where
    "same_setup c1 c2" "K (fst o2)" "answers_of calls outs" "history_items (cv_turns c2) = history_items (cv_turns c1) @ outs"
    by auto
  with s show ?case
    by (auto simp: answers_of_def intro!: exI [of _ "InOutput (tc_CallID call) out # outs"] intro: same_setup_trans)
qed (simp add: answers_of_def)

section \<open>The whole loop\<close>

lemma stream_loop_world: "fst (snd (stream_loop en cats None evs completed o')) = fst o'"
  by (induction evs arbitrary: completed o')
     (auto simp: forward_one_def Let_def split: provider_event.splits)

lemma request_input: "rp_Input (buildRequestParams d cl effort c) = buildResponseInput d (cv_turns c)"
  by (simp add: buildRequestParams_def Let_def)

text \<open>\<open>I k w\<close>: the world \<open>w\<close> after \<open>k\<close> requests.\<close>

definition counts_requests :: "('t, 'w) run_env \<Rightarrow> (nat \<Rightarrow> 'w \<Rightarrow> bool) \<Rightarrow> bool" where
  "counts_requests en I \<longleftrightarrow> (\<forall>k p w. well_paired (rp_Input p) \<longrightarrow> I k w \<longrightarrow>
     I (Suc k) (snd (en_New en p w)) \<and> I (Suc k) (snd (en_NewStreaming en p w)))"

definition step_result :: "('t, 's) conversation \<Rightarrow> (go_error + response) \<Rightarrow> ('t, 's) conversation \<Rightarrow> bool" where
  "step_result c r c2 \<longleftrightarrow> same_setup c c2 \<and>
     history_items (cv_turns c2) = history_items (cv_turns c)
       @ (case r of Inl _ \<Rightarrow> [] | Inr resp \<Rightarrow> map call_item (re_ToolCalls resp))"

lemma Send_step:
  assumes "keeps_clock en (I (Suc k))" "counts_requests en I" "I k (fst o')" "as_ContextWindow (cv_autoShrink c) \<le> 0"
    and "well_paired (history_items (cv_turns c))" "en_client en = Some cl"
  shows "\<exists>r c2 o2. Send en ops effort c o' = Ok (r, c2, o2) \<and> I (Suc k) (fst o2) \<and> step_result c r c2"
proof -
  let ?p = "buildRequestParams (en_decodes en) cl effort c"
  obtain r w where new: "en_New en ?p (fst o') = (r, w)" by (cases "en_New en ?p (fst o')")
  have w: "I (Suc k) w"
    using assms(2,3,5) new unfolding counts_requests_def by (metis request_input input_paired snd_conv)
  show ?thesis
  proof (cases r)
    case (Inl err)
    with new w assms(6) show ?thesis by (simp add: Send_def step_result_def)
  next
    case (Inr resp)
    from apply_response_step [OF assms(1), of "(w, snd o')" c ops cl True resp] w assms(4) new assms(6) Inr
    show ?thesis by (auto simp: Send_def as_sent_def step_result_def)
  qed
qed

lemma streamResponse_step:
  assumes "keeps_clock en (I (Suc k))" "counts_requests en I" "I k (fst o')" "as_ContextWindow (cv_autoShrink c) \<le> 0"
    and "well_paired (history_items (cv_turns c))" "en_client en = Some cl"
  shows "\<exists>r c2 o2. streamResponse en ops effort None fin c o' = Ok (r, c2, o2) \<and> I (Suc k) (fst o2) \<and> step_result c r c2"
proof -
  let ?p = "buildRequestParams (en_decodes en) cl effort c"
  let ?cats = "resolveStreamCategories (cl_streamCategories cl)"
  obtain evs serr w where new: "en_NewStreaming en ?p (fst o') = ((evs, serr), w)" by (metis prod.collapse)
  have w: "I (Suc k) w"
    using assms(2,3,5) new unfolding counts_requests_def by (metis request_input input_paired snd_conv)
  obtain res o1 where loop: "stream_loop en ?cats None evs None (w, snd o') = (res, o1)"
    by (cases "stream_loop en ?cats None evs None (w, snd o')")
  have o1: "I (Suc k) (fst o1)" using stream_loop_world [of en ?cats evs None "(w, snd o')"] loop w by simp
  note def = streamResponse_def assms(6) new loop option.case prod.case
  consider err where "res = Inl err" | comp where "res = Inr comp" "serr \<noteq> []" | "res = Inr None" "serr = []"
    | resp where "res = Inr (Some resp)" "serr = []" by (cases res) auto
  then show ?thesis
  proof cases
    case (4 resp)
    obtain r c2 o2 where ap: "applyResponseOutput en ops cl False resp c o1 = Ok (r, c2, o2)" "I (Suc k) (fst o2)"
      "same_setup c c2" "history_items (cv_turns c2) = history_items (cv_turns c) @ map call_item (re_ToolCalls r)"
      using apply_response_step [OF assms(1) o1 assms(4), of ops cl False resp] by blast
    with 4 show ?thesis unfolding def by (simp add: step_result_def)
  qed (use o1 in \<open>cases o1; auto simp: def step_result_def on_stream_def Let_def\<close>)+
qed

lemma runStep_step:
  assumes "keeps_clock en (I (Suc k))" "counts_requests en I" "I k (fst o')" "as_ContextWindow (cv_autoShrink c) \<le> 0"
    and "well_paired (history_items (cv_turns c))" "en_client en = Some cl"
  shows "\<exists>r c2 o2. runStep en ops effort c o' = Ok (r, c2, o2) \<and> I (Suc k) (fst o2) \<and> step_result c r c2"
  unfolding runStep_def using Send_step [OF assms, of ops effort] streamResponse_step [OF assms, of ops effort True] by simp

lemma run_loop_steps:
  assumes "\<forall>k. keeps_clock en (I k)" "\<forall>k. keeps_tools en (I k)" "counts_requests en I" "en_client en = Some cl"
    and "I k (fst o')" "as_ContextWindow (cv_autoShrink c) \<le> 0" "well_paired (history_items (cv_turns c))"
  shows "\<exists>r c2 o2 m. run_loop en ops effort n c o' = Ok (r, c2, o2) \<and> m \<le> n \<and> I (k + m) (fst o2)
    \<and> well_paired (history_items (cv_turns c2))"
  using assms(5-7)
proof (induction n arbitrary: k c o')
  case 0
  then show ?case by (simp add: Let_def)
next
  case (Suc n)
  obtain r c1 o1 where st: "runStep en ops effort c o' = Ok (r, c1, o1)" "I (Suc k) (fst o1)" "step_result c r c1"
    using runStep_step [of en I k o' c cl ops effort] assms(1,3,4) Suc.prems by blast
  show ?case
  proof (cases r)
    case (Inl err)
    with st Suc.prems(3) show ?thesis by (auto simp: step_result_def intro!: exI [of _ "Suc 0"])
  next
    case (Inr resp)
    have h1: "history_items (cv_turns c1) = history_items (cv_turns c) @ map call_item (re_ToolCalls resp)" "same_setup c c1"
      using st(3) Inr by (simp_all add: step_result_def)
    show ?thesis
    proof (cases "re_ToolCalls resp = []")
      case True
      with st Inr h1 Suc.prems(3) show ?thesis
        by (cases o1) (auto simp: Let_def on_stream_def intro!: exI [of _ "Suc 0"])
    next
      case False
      obtain c2 o2 where calls: "fold (run_call en ops) (re_ToolCalls resp) (c1, o1) = (c2, o2)"
        by (cases "fold (run_call en ops) (re_ToolCalls resp) (c1, o1)")
      obtain outs where o2: "same_setup c1 c2" "I (Suc k) (fst o2)" "answers_of (re_ToolCalls resp) outs"
        "history_items (cv_turns c2) = history_items (cv_turns c1) @ outs"
        using run_calls_steps [OF assms(1) [rule_format] assms(2) [rule_format] st(2) calls] by blast
      have "well_paired (history_items (cv_turns c2))" using batch_paired [OF Suc.prems(3) o2(3)] o2(4) h1(1) by simp
      moreover have "as_ContextWindow (cv_autoShrink c2) \<le> 0" using Suc.prems(2) h1(2) o2(1) by (simp add: same_setup_def)
      ultimately obtain r2 c3 o3 m where "run_loop en ops effort n c2 o2 = Ok (r2, c3, o3)" "m \<le> n" "I (Suc k + m) (fst o3)"
        "well_paired (history_items (cv_turns c3))" using Suc.IH [OF o2(2)] by blast
      with st(1) Inr False calls show ?thesis by (auto intro!: exI [of _ "Suc m"])
    qed
  qed
qed

text \<open>C18. With automatic shrinking off, as it is by default, and from a history in which every output has its
  call before it and every call its output, \<^verbatim>\<open>Run\<close> never panics, sends at most as
  many requests as its step budget, and every request it sends, whatever the model answers and
  however the tools fail, carries an output for each call and a call before each output.  Here
  \<open>I k w\<close> is any statement about the world after \<open>k\<close> requests that the clock and the tools
  keep and that every well-paired request takes from \<open>k\<close> to \<open>k + 1\<close>.\<close>

theorem run_requests_are_paired:
  assumes "as_ContextWindow (cv_autoShrink c) \<le> 0"
    and "well_paired (buildResponseInput (en_decodes en) (cv_turns c))"
    and "I 0 (fst o')" and "\<forall>k. keeps_clock en (I k)" and "\<forall>k. keeps_tools en (I k)" and "counts_requests en I"
  shows "\<exists>r c2 o2 k. Run en ops userInput effort c o' = Ok (r, c2, o2) \<and> k \<le> run_budget c \<and> I k (fst o2)
    \<and> well_paired (buildResponseInput (en_decodes en) (cv_turns c2))"
proof (cases "en_client en")
  case None
  then show ?thesis using assms(2,3) by (auto simp: Run_def)
next
  case (Some cl)
  obtain now o1 where now: "tick en o' = (now, o1)" by (cases "tick en o'")
  let ?c = "AppendUser ops now userInput c"
  have "I 0 (fst o1)" using tick_keeps [OF assms(4) [rule_format] assms(3) now] by simp
  moreover have "as_ContextWindow (cv_autoShrink ?c) \<le> 0" using assms(1) by (simp add: AppendUser_def)
  moreover have "well_paired (history_items (cv_turns ?c))"
    using assms(2) by (simp add: input_paired AppendUser_def turn_items_def)
  ultimately obtain r c2 o2 m where "run_loop en ops effort (run_budget c) ?c o1 = Ok (r, c2, o2)" "m \<le> run_budget c"
    "I m (fst o2)" "well_paired (history_items (cv_turns c2))"
    using run_loop_steps [OF assms(4-6) Some, of 0 o1 ?c ops effort "run_budget c"] by auto
  with now Some show ?thesis by (auto simp: Run_def input_paired)
qed

section \<open>What the stream shows\<close>

lemma call_payload_None:
  "call_payload i ts = None \<longleftrightarrow> (\<forall>t \<in> set ts. \<not> (tn_Role t = RoleToolCall \<and> call_id t = Some i))"
proof -
  let ?P = "\<lambda>t. tn_Role t = RoleToolCall \<and> (case tn_Tool t of Some p \<Rightarrow> tp_CallID p = i | None \<Rightarrow> False)"
  have eq: "?P t \<longleftrightarrow> tn_Role t = RoleToolCall \<and> call_id t = Some i" for t
    by (auto simp: call_id_def split: option.splits)
  show ?thesis
  proof (cases "List.find ?P (rev ts)")
    case None
    then show ?thesis by (simp add: call_payload_def) (simp add: eq find_None_iff)
  next
    case (Some t)
    then have "?P t" "t \<in> set ts" by (auto simp: find_Some_iff) (metis length_rev nth_mem set_rev)
    with Some show ?thesis by (simp add: call_payload_def) (auto simp: call_id_def split: option.splits)
  qed
qed

lemma turn_items_call: "InCall i n a \<in> set (turn_items t) \<Longrightarrow> tn_Role t = RoleToolCall \<and> call_id t = Some i"
  by (cases "tn_Tool t"; cases "tn_Role t") (simp_all add: turn_items_def call_id_def)

lemma call_item_recorded: "i \<in> call_ids (history_items ts) \<Longrightarrow> call_payload i ts \<noteq> None"
  unfolding call_payload_None call_ids_def history_items_def using turn_items_call by fastforce

lemma call_payload_output: "call_payload i (ts @ [output_turn now j out err]) = call_payload i ts"
  by (simp add: call_payload_def output_turn_def)

text \<open>What an MCP tool returns never reaches the event stream: as long as the call is on
  record, two executions that differ only in the output of the tool leave the same stream.\<close>

theorem mcp_output_not_streamed:
  assumes "call_payload (tc_CallID call) (cv_turns c) = Some p" "tp_Name p \<noteq> []"
    and "map_get (cv_toolByName c) (tp_Name p) = Some tool" "en_mcp en tool = Some (server, mname)" "server \<noteq> []"
    and "dispatch en c call (on_stream (emitToolExecutionStarted call) o') = ((out, err), dec, o3)"
    and "dispatch (en\<lparr>en_Execute := ex2\<rparr>) c call (on_stream (emitToolExecutionStarted call) o') = ((out2, err), dec, o3)"
  shows "snd (run_call en ops call (c, o')) = snd (run_call (en\<lparr>en_Execute := ex2\<rparr>) ops call (c, o'))"
proof -
  have same: "emitToolResult jc (en_mcp en) (AppendToolOutput ops now (tc_CallID call) x err c) (tc_CallID call) x err
      = emitToolResult jc (en_mcp en) (AppendToolOutput ops now (tc_CallID call) y err c) (tc_CallID call) y err" for jc now x y
    using assms(1-5)
    by (simp add: fun_eq_iff emitToolResult_def toolNameForCallID_def AppendToolOutput_def call_payload_output
        mcpDescriptorFor_def emitMCPToolCall_def toolArgumentsForCallID_def Let_def)
  have "tick (en\<lparr>en_Execute := ex2\<rparr>) x = tick en x" for x by (simp add: tick_def)
  with assms(6,7) same [of "en_json en" _ out out2] show ?thesis
    by (simp add: run_call_def Let_def split: prod.splits)
qed

section \<open>Shrinking between a call and its output\<close>

lemma call_turn_call: "tn_Role (call_turn now tc) = RoleToolCall" "call_id (call_turn now tc) = Some (tc_CallID tc)"
  by (simp_all add: call_turn_def call_id_def)

lemma apply_calls:
  "fold (apply_item en ops rp d) (map ItemFunctionCall tcs) (tx, calls, c, o') = (tx2, calls2, c2, o2) \<Longrightarrow>
   calls2 = calls @ tcs \<and> cv_autoShrink c2 = cv_autoShrink c \<and> cv_summarizer c2 = cv_summarizer c
   \<and> (\<exists>ts. length ts = length tcs \<and> cv_turns c2 = cv_turns c @ ts \<and> map tn_Role ts = map (\<lambda>_. RoleToolCall) tcs
        \<and> map call_id ts = map (\<lambda>tc. Some (tc_CallID tc)) tcs)"
proof (induction tcs arbitrary: tx calls c o')
  case (Cons tc tcs)
  obtain now o1 where now: "tick en (on_stream (emitToolCallStarted (en_json en) tc) o') = (now, o1)"
    by (cases "tick en (on_stream (emitToolCallStarted (en_json en) tc) o')")
  let ?c = "AppendToolCall ops now tc c" and ?o = "on_stream (emitToolCallCompleted (en_json en) tc) o1"
  have one: "apply_item en ops rp d (ItemFunctionCall tc) (tx, calls, c, o') = (tx, calls @ [tc], ?c, ?o)"
    using now by (simp add: apply_item_def)
  have "fold (apply_item en ops rp d) (map ItemFunctionCall tcs) (tx, calls @ [tc], ?c, ?o) = (tx2, calls2, c2, o2)"
    using Cons.prems by (simp add: one)
  from Cons.IH [OF this] obtain ts where
    ts: "calls2 = (calls @ [tc]) @ tcs" "cv_autoShrink c2 = cv_autoShrink ?c" "cv_summarizer c2 = cv_summarizer ?c"
      "length ts = length tcs" "cv_turns c2 = cv_turns ?c @ ts"
      "map tn_Role ts = map (\<lambda>_. RoleToolCall) tcs" "map call_id ts = map (\<lambda>tc. Some (tc_CallID tc)) tcs" by blast
  moreover have "cv_summarizer ?c = cv_summarizer c" by (simp add: AppendToolCall_def append_turn_def)
  ultimately show ?case
    by (auto simp: AppendToolCall_def call_turn_call intro!: exI [of _ "call_turn now tc # ts"])
qed simp

lemma rewind_call:
  assumes "n = length ts \<or> n < length ts \<and> tn_Role (ts ! n) = RoleToolCall"
  shows "rewind_cut ts n = n"
  using assms by (cases n) (auto simp: inner_turn_def)

lemma compress_to_calls:
  assumes "map tn_Role (drop n ts) = replicate (length ts - n) RoleToolCall" "n \<le> length ts" "0 < n" "cv_turns c = ts"
    and "sm (take n ts) = Inr s"
  shows "\<exists>c2. Compress ops now (Some sm) (int n) c = Ok ([], n, c2) \<and> cv_turns c2 = summary_turn now s # drop n ts"
proof -
  have "n = length ts \<or> n < length ts \<and> tn_Role (ts ! n) = RoleToolCall"
  proof (cases "n < length ts")
    case True
    then have "tn_Role (ts ! n) = map tn_Role (drop n ts) ! 0" by simp
    with True show ?thesis by (simp add: assms(1))
  qed (use assms(2) in simp)
  from rewind_call [OF this] have r: "rewind_cut ts n = n" .
  show ?thesis
    using assms(2-5) r
    by (simp add: Compress_def Let_def ReplaceRange_eq replace_turns_def clamp_from_def clamp_to_def)
qed

definition shrinks_at :: "auto_shrink \<Rightarrow> int \<Rightarrow> bool" where
  "shrinks_at cfg n \<longleftrightarrow> 0 < as_ContextWindow cfg \<and> 0 < as_Threshold cfg \<and> 0 < shrink_limit cfg \<and> shrink_limit cfg \<le> n"

lemma shrink_to_calls:
  assumes "shrinks_at (cv_autoShrink c) (tu_Input u)" "cv_summarizer c = Some sm" "\<forall>ts. \<exists>s. sm ts = Inr s"
    and "as_KeepTurns (cv_autoShrink c) = int k" "cv_turns c = pre @ ts" "k = length ts" "pre \<noteq> []"
    and "map tn_Role ts = replicate k RoleToolCall"
  shows "\<exists>c2 s ts2. recordUsage ops now u c = Ok ([], c2) \<and> cv_turns c2 = summary_turn now s # ts2
    \<and> map tn_Role ts2 = map tn_Role ts \<and> map call_id ts2 = map call_id ts"
proof -
  let ?cu = "emit ops now ((new_event EventRecordUsage)\<lparr>ev_Usage := Some u\<rparr>) (c\<lparr>cv_usage := u\<rparr>)"
  define cd where "cd = snd (DropToolDetails ops now (as_KeepToolExchanges (cv_autoShrink c)) ?cu)"
  define all where "all = cv_turns cd"
  have cd: "cv_summarizer cd = Some sm" "cv_autoShrink cd = cv_autoShrink c"
    unfolding cd_def DropToolDetails_eq using assms(2) by simp_all
  have same: "map tn_Role all = map tn_Role (pre @ ts)" "map call_id all = map call_id (pre @ ts)"
    unfolding all_def cd_def DropToolDetails_eq
    by (auto simp: assms(5) detail_turns_def rev_map [symmetric] details_same)
  then have len: "length all = length pre + k" using assms(6) by (metis length_append length_map)
  let ?n = "length pre"
  have dr: "map tn_Role (drop ?n all) = map tn_Role ts" "map call_id (drop ?n all) = map call_id ts"
    unfolding drop_map [symmetric] same by simp_all
  obtain s where s: "sm (take ?n all) = Inr s" using assms(3) by blast
  obtain c2 where c2: "Compress ops now (Some sm) (int ?n) cd = Ok ([], ?n, c2)" "cv_turns c2 = summary_turn now s # drop ?n all"
  proof -
    have "map tn_Role (drop ?n all) = replicate (length all - ?n) RoleToolCall" using dr(1) assms(8) len by simp
    moreover have "?n \<le> length all" "0 < ?n" using len assms(7) by simp_all
    ultimately show ?thesis using compress_to_calls [of ?n all cd sm s ops now] all_def s that by blast
  qed
  have n: "int (length all) - int k = int ?n" "int (length all) > int k" using len assms(7) by auto
  have u: "tu_Input (cv_usage ?cu) = tu_Input u" "cv_autoShrink ?cu = cv_autoShrink c" by simp_all
  have "recordUsage ops now u c = Ok ([], c2)"
    unfolding recordUsage_def maybeAutoShrink_def Let_def u cd_def [symmetric] cd all_def [symmetric] assms(4) n(1)
    using assms(1) n(2) c2(1) by (simp add: shrinks_at_def)
  with c2(2) dr show ?thesis by blast
qed

text \<open>The value of a field of an emitted event.\<close>

definition msg_field :: "string \<Rightarrow> stream_msg \<Rightarrow> go_val option" where
  "msg_field k m = (case sm_Delta m of VMap kvs \<Rightarrow> map_of kvs k | _ \<Rightarrow> None)"

lemma unknown_call_streams_output:
  assumes "call_payload i (cv_turns c) = None" "es_on s"
  shows "msg_field ''output'' (last (es_sent (emitToolResult jc mcp c i out err s))) = Some (VStr (fst (compactConversationText out)))"
  using assms
  by (simp add: emitToolResult_def toolNameForCallID_def mcpDescriptorFor_def emitStreamEvent_def msg_field_def Let_def
      split: prod.splits)

text \<open>The usage of a response is recorded, and the history shrunk, before its tool calls are
  answered.  When a response carries more calls than the history keeps turns, the first call is
  summarised away: the next request holds an output without its call, and the output is put on
  the event stream even if it is that of an MCP tool.\<close>

theorem shrink_drops_pending_call:
  assumes "sr_Output resp = map ItemFunctionCall (a # rest)" "tc_CallID a \<notin> tc_CallID ` set rest"
    and "shrinks_at (cv_autoShrink c) (tu_Input (sr_Usage resp))" "cv_summarizer c = Some sm" "\<forall>ts. \<exists>s. sm ts = Inr s"
    and "as_KeepTurns (cv_autoShrink c) = int (length rest)"
  shows "\<exists>r c2 o2. applyResponseOutput en ops cl d resp c o' = Ok (r, c2, o2) \<and> re_ToolCalls r = a # rest
    \<and> \<not> well_paired (buildResponseInput (en_decodes en) (cv_turns (fst (fold (run_call en ops) (re_ToolCalls r) (c2, o2)))))
    \<and> (\<forall>now out err s. es_on s \<longrightarrow>
         msg_field ''output'' (last (es_sent (emitToolResult (en_json en) (en_mcp en)
           (AppendToolOutput ops now (tc_CallID a) out err c2) (tc_CallID a) out err s)))
         = Some (VStr (fst (compactConversationText out))))"
proof -
  obtain tx calls c1 o1 where items:
    "fold (apply_item en ops (cl_replayReasoning cl) d) (sr_Output resp) ([], [], c, o') = (tx, calls, c1, o1)"
    by (metis prod_cases4)
  obtain ts where ts: "calls = a # rest" "cv_autoShrink c1 = cv_autoShrink c" "cv_summarizer c1 = cv_summarizer c"
    "length ts = Suc (length rest)" "cv_turns c1 = cv_turns c @ ts"
    "map tn_Role ts = map (\<lambda>_. RoleToolCall) (a # rest)" "map call_id ts = map (\<lambda>tc. Some (tc_CallID tc)) (a # rest)"
    using apply_calls [OF items [unfolded assms(1)]] unfolding append_Nil by (metis length_Cons)
  then obtain t us where us: "ts = t # us" "length us = length rest" by (cases ts) auto
  obtain now o2 where now: "tick en o1 = (now, o2)" by (cases "tick en o1")
  have roles: "map tn_Role us = replicate (length rest) RoleToolCall" using ts(6) us(1) by (simp add: map_replicate_const)
  obtain c2 s ts2 where c2: "recordUsage ops now (sr_Usage resp) c1 = Ok ([], c2)" "cv_turns c2 = summary_turn now s # ts2"
    "map tn_Role ts2 = map tn_Role us" "map call_id ts2 = map call_id us"
  proof -
    have "shrinks_at (cv_autoShrink c1) (tu_Input (sr_Usage resp))" "cv_summarizer c1 = Some sm"
      "as_KeepTurns (cv_autoShrink c1) = int (length rest)" "cv_turns c1 = (cv_turns c @ [t]) @ us"
      using assms(3,4,6) ts(2,3,5) us(1) by simp_all
    from shrink_to_calls [OF this(1,2) assms(5) this(3,4) us(2) [symmetric] _ roles, of ops now] that
    show ?thesis by blast
  qed
  define r where "r = \<lparr>re_Text = tx, re_ToolCalls = calls, re_Usage = sr_Usage resp, re_Raw = resp\<rparr>"
  have ap: "applyResponseOutput en ops cl d resp c o' = Ok (r, c2, on_stream (emitResponseCompleted r) o2)"
    using items now c2(1) by (simp add: applyResponseOutput_def r_def Let_def)
  have ids: "map call_id ts2 = map (\<lambda>tc. Some (tc_CallID tc)) rest" using c2(4) ts(7) us(1) by simp
  then have "Some (tc_CallID a) \<notin> call_id ` set ts2"
    using assms(2) unfolding set_map [symmetric] ids by auto
  then have gone: "call_payload (tc_CallID a) (cv_turns c2) = None"
    unfolding call_payload_None c2(2) by (auto simp: summary_turn_def image_iff)
  obtain c3 o3 where calls3: "fold (run_call en ops) (a # rest) (c2, on_stream (emitResponseCompleted r) o2) = (c3, o3)"
    by (cases "fold (run_call en ops) (a # rest) (c2, on_stream (emitResponseCompleted r) o2)")
  have "keeps_clock en (\<lambda>_. True)" "keeps_tools en (\<lambda>_. True)" by (simp_all add: keeps_clock_def keeps_tools_def)
  from run_calls_steps [OF this _ calls3] obtain outs where
    outs: "answers_of (a # rest) outs" "history_items (cv_turns c3) = history_items (cv_turns c2) @ outs" by blast
  have "tc_CallID a \<notin> call_ids (history_items (cv_turns c2))"
    using call_item_recorded gone by fastforce
  then have "\<not> well_paired (history_items (cv_turns c3))"
    using outputs_only [OF outs(1)] outs(2) by (auto simp: well_paired_def outputs_called_append)
  then have bad: "\<not> well_paired (buildResponseInput (en_decodes en)
      (cv_turns (fst (fold (run_call en ops) (re_ToolCalls r) (c2, on_stream (emitResponseCompleted r) o2)))))"
    using calls3 ts(1) by (simp add: r_def input_paired)
  have "call_payload (tc_CallID a) (cv_turns (AppendToolOutput ops n (tc_CallID a) out err c2)) = None" for n out err
    using gone by (simp add: AppendToolOutput_def call_payload_output)
  note leak = unknown_call_streams_output [OF this]
  from ap bad ts(1) leak show ?thesis by (intro exI conjI) (auto simp: r_def)
qed

section \<open>A scripted run\<close>

text \<open>The world records the requests; the model calls two tools in its first response and then
  answers.\<close>

definition run_call_a :: tool_call where
  "run_call_a = \<lparr>tc_CallID = ''a'', tc_Name = ''search'', tc_Arguments = ''{}''\<rparr>"
definition run_call_b :: tool_call where
  "run_call_b = \<lparr>tc_CallID = ''b'', tc_Name = ''search'', tc_Arguments = ''{}''\<rparr>"

definition run_usage :: token_usage where
  "run_usage = \<lparr>tu_Input = 100, tu_Cached = 0, tu_Output = 0, tu_Reasoning = 0, tu_Total = 100\<rparr>"

definition run_calls_response :: sdk_response where
  "run_calls_response = \<lparr>sr_Output = map ItemFunctionCall [run_call_a, run_call_b], sr_Usage = run_usage, sr_ID = [], sr_Model = []\<rparr>"

definition run_final_response :: sdk_response where
  "run_final_response = \<lparr>sr_Output = [ItemMessage [(''output_text'', ''found'')]], sr_Usage = run_usage, sr_ID = [], sr_Model = []\<rparr>"

definition run_model :: "request_params list \<Rightarrow> sdk_response" where
  "run_model w = (if w = [] then run_calls_response else run_final_response)"

definition run_example :: "(unit, request_params list) run_env" where
  "run_example =
     \<lparr>en_client = Some \<lparr>cl_model = ''m'', cl_reasoningEffort = [], cl_replayReasoning = False, cl_streamCategories = 0\<rparr>,
      en_New = (\<lambda>p w. (Inr (run_model w), w @ [p])),
      en_NewStreaming = (\<lambda>p w. (([ResponseCompleted (run_model w)], []), w @ [p])),
      en_decodes = (\<lambda>_. True), en_json = \<lparr>jc_Unmarshal = (\<lambda>_. None), jc_Marshal = (\<lambda>_. None)\<rparr>,
      en_now = (\<lambda>w. (7, w)), en_ctxErr = (\<lambda>_. []),
      en_Execute = (\<lambda>_ _ _ o'. ((''result'', []), None, o')), en_mcp = (\<lambda>_. Some (''srv'', ''search'')),
      en_approver = None, en_approvalTimeout = 0, en_timedOut = (\<lambda>_. False)\<rparr>"

definition run_conv :: "(unit, memory_store) conversation" where
  "run_conv = \<lparr>cv_instructions = ''Help.'', cv_toolSpecs = [], cv_toolByName = [(''search'', ())], cv_turns = [],
     cv_usage = zero_usage, cv_autoShrink = DefaultAutoShrinkConfig, cv_summarizer = None, cv_maxSteps = 20,
     cv_stores = [], cv_sessionID = [], cv_replaying = False, cv_lastErr = []\<rparr>"

definition run_stream :: conv_stream where
  "run_stream = \<lparr>es_on = True, es_metadata = [], es_sent = []\<rparr>"

theorem run_requests_are_paired_witness:
  "\<exists>r c2 o2. Run run_example mem_ops ''find it'' [] run_conv ([], run_stream) = Ok (r, c2, o2)
    \<and> length (fst o2) \<le> 20 \<and> list_all (\<lambda>p. well_paired (rp_Input p)) (fst o2)"
proof -
  let ?I = "\<lambda>k w. length w = k \<and> list_all (\<lambda>p. well_paired (rp_Input p)) w"
  have "as_ContextWindow (cv_autoShrink run_conv) \<le> 0" "well_paired (buildResponseInput (en_decodes run_example) (cv_turns run_conv))"
    by (simp_all add: run_conv_def DefaultAutoShrinkConfig_def buildResponseInput_def well_paired_def)
  moreover have "\<forall>k. keeps_clock run_example (?I k)" "\<forall>k. keeps_tools run_example (?I k)" "counts_requests run_example ?I"
    by (simp_all add: run_example_def keeps_clock_def keeps_tools_def counts_requests_def)
  moreover have "run_budget run_conv = 20" by (simp add: run_budget_def run_conv_def)
  ultimately show ?thesis
    using run_requests_are_paired [of run_conv run_example ?I "([], run_stream)" mem_ops "''find it''" "[]"] by fastforce
qed

theorem mcp_output_not_streamed_witness:
  "let c = AppendToolCall mem_ops 7 run_call_a run_conv;
       en2 = run_example\<lparr>en_Execute := \<lambda>_ _ _ o'. ((''secret'', []), None, o')\<rparr>
   in snd (run_call run_example mem_ops run_call_a (c, ([], run_stream))) = snd (run_call en2 mem_ops run_call_a (c, ([], run_stream)))
     \<and> cv_turns (fst (run_call run_example mem_ops run_call_a (c, ([], run_stream))))
       \<noteq> cv_turns (fst (run_call en2 mem_ops run_call_a (c, ([], run_stream))))"
proof -
  let ?c = "AppendToolCall mem_ops 7 run_call_a run_conv"
  let ?o = "on_stream (emitToolExecutionStarted run_call_a) ([], run_stream)"
  have name: "tc_Name run_call_a = ''search''" by (simp add: run_call_a_def)
  have now: "en_now run_example w = (7, w)" for w by (simp add: run_example_def)
  have tools: "cv_toolByName ?c = [(''search'', ())]" by (simp add: AppendToolCall_def run_conv_def)
  have pay: "call_payload (tc_CallID run_call_a) (cv_turns ?c) =
      Some \<lparr>tp_CallID = ''a'', tp_Name = ''search'', tp_Arguments = ''{}'', tp_Output = [], tp_Error = []\<rparr>"
    by (simp add: AppendToolCall_def run_conv_def call_payload_def call_turn_def run_call_a_def)
  have d: "dispatch (run_example\<lparr>en_Execute := \<lambda>_ _ _ o'. ((x, []), None, o')\<rparr>) ?c run_call_a ?o = ((x, []), None, ?o)"
    "dispatch run_example ?c run_call_a ?o = ((''result'', []), None, ?o)" for x
    by (simp_all add: dispatch_def tools name run_example_def)
  have "snd (run_call run_example mem_ops run_call_a (?c, ([], run_stream)))
      = snd (run_call (run_example\<lparr>en_Execute := \<lambda>_ _ _ o'. ((''secret'', []), None, o')\<rparr>) mem_ops run_call_a (?c, ([], run_stream)))"
    using mcp_output_not_streamed [OF pay, of "()" run_example "''srv''" "''search''" "([], run_stream)" "''result''" "[]" None
        ?o "\<lambda>_ _ _ o'. ((''secret'', []), None, o')" "''secret''" mem_ops] d
    by (simp add: tools run_example_def)
  moreover have "cv_turns (fst (run_call run_example mem_ops run_call_a (?c, ([], run_stream))))
      \<noteq> cv_turns (fst (run_call (run_example\<lparr>en_Execute := \<lambda>_ _ _ o'. ((''secret'', []), None, o')\<rparr>) mem_ops run_call_a (?c, ([], run_stream))))"
    by (simp add: run_call_def Let_def d tick_def AppendToolOutput_def output_turn_def now)
  ultimately show ?thesis by (simp add: Let_def)
qed

definition run_small :: "(unit, memory_store) conversation" where
  "run_small = run_conv\<lparr>cv_summarizer := Some (\<lambda>_. Inr ''earlier''),
     cv_autoShrink := \<lparr>as_ContextWindow = 10, as_Threshold = 1 / 2, as_KeepToolExchanges = 2, as_KeepTurns = 1\<rparr>\<rparr>"

theorem shrink_drops_pending_call_witness:
  "\<exists>r c2 o2. applyResponseOutput run_example mem_ops (the (en_client run_example)) False run_calls_response run_small ([], run_stream) = Ok (r, c2, o2)
    \<and> msg_field ''output'' (last (es_sent (emitToolResult (en_json run_example) (en_mcp run_example)
        (AppendToolOutput mem_ops 8 ''a'' ''secret'' [] c2) ''a'' ''secret'' [] run_stream))) = Some (VStr ''secret'')"
proof -
  have "shrink_limit (cv_autoShrink run_small) = 5" by (simp add: shrink_limit_def run_small_def)
  then have "shrinks_at (cv_autoShrink run_small) (tu_Input (sr_Usage run_calls_response))"
    by (simp add: shrinks_at_def run_small_def run_calls_response_def run_usage_def)
  moreover have "fst (compactConversationText ''secret'') = ''secret''"
    by (simp add: compactConversationText_def conversationStreamTextLimit_def)
  moreover have "es_on run_stream" "tc_CallID run_call_a = ''a''" "tc_CallID run_call_b = ''b''"
    by (simp_all add: run_stream_def run_call_a_def run_call_b_def)
  moreover have "sr_Output run_calls_response = map ItemFunctionCall (run_call_a # [run_call_b])"
    by (simp add: run_calls_response_def)
  ultimately show ?thesis
    using shrink_drops_pending_call [of run_calls_response run_call_a "[run_call_b]" run_small "\<lambda>_. Inr ''earlier''"
        run_example mem_ops "the (en_client run_example)" False "([], run_stream)"]
    by (simp add: run_small_def) metis
qed

end
