(* ===== verification/Go_Filepath.thy ===== *)
theory Go_Filepath
  imports Go_Strings Runner_Types "HOL-Library.Sublist"
begin

text \<open>
  The lexical part of Go's \<^verbatim>\<open>path/filepath\<close> on Unix: \<^verbatim>\<open>Clean\<close>, \<^verbatim>\<open>Join\<close>, \<^verbatim>\<open>Dir\<close>, \<^verbatim>\<open>Base\<close>,
  \<^verbatim>\<open>IsAbs\<close> and \<^verbatim>\<open>Rel\<close>.  A path is cleaned by its components: the lemmas say what the components
  of a cleaned path are and when a relative path stays below its base.
\<close>

section \<open>Components\<close>

definition slash :: char where "slash = CHR ''/''"

fun split_on :: "char \<Rightarrow> string \<Rightarrow> string list" where
  "split_on d [] = [[]]"
| "split_on d (c # cs) =
     (if c = d then [] # split_on d cs
      else (case split_on d cs of x # xs \<Rightarrow> (c # x) # xs | [] \<Rightarrow> [[c]]))"

definition dot :: string where "dot = ''.''"
definition dotdot :: string where "dotdot = ''..''"

text \<open>The stack of components kept so far, innermost first.\<close>

fun clean_comps :: "bool \<Rightarrow> string list \<Rightarrow> string list \<Rightarrow> string list" where
  "clean_comps rooted acc [] = rev acc"
| "clean_comps rooted acc (c # cs) =
     (if c = [] \<or> c = dot then clean_comps rooted acc cs
      else if c = dotdot then
        (if acc \<noteq> [] \<and> hd acc \<noteq> dotdot then clean_comps rooted (tl acc) cs
         else if rooted then clean_comps rooted acc cs
         else clean_comps rooted (c # acc) cs)
      else clean_comps rooted (c # acc) cs)"

definition IsAbs :: "string \<Rightarrow> bool" where
  "IsAbs p = HasPrefix p [slash]"

definition path_comps :: "string \<Rightarrow> string list" where
  "path_comps p = clean_comps (IsAbs p) [] (split_on slash p)"

definition of_comps :: "bool \<Rightarrow> string list \<Rightarrow> string" where
  "of_comps rooted cs =
     (if rooted then slash # Join cs [slash] else if cs = [] then dot else Join cs [slash])"

definition Clean :: "string \<Rightarrow> string" where
  "Clean p = of_comps (IsAbs p) (path_comps p)"

section \<open>The functions\<close>

definition path_Join :: "string list \<Rightarrow> string" where
  "path_Join elems =
     (case dropWhile (\<lambda>e. e = []) elems of [] \<Rightarrow> [] | es \<Rightarrow> Clean (Join es [slash]))"

text \<open>The part of a path up to and including its last slash.\<close>

definition upto_slash :: "string \<Rightarrow> string" where
  "upto_slash p = rev (dropWhile (\<lambda>c. c \<noteq> slash) (rev p))"

definition path_Dir :: "string \<Rightarrow> string" where
  "path_Dir p = Clean (upto_slash p)"

definition path_Base :: "string \<Rightarrow> string" where
  "path_Base p =
     (if p = [] then dot
      else
        let p = rev (dropWhile (\<lambda>c. c = slash) (rev p));
            p = rev (takeWhile (\<lambda>c. c \<noteq> slash) (rev p))
        in if p = [] then [slash] else p)"

fun strip_common :: "string list \<Rightarrow> string list \<Rightarrow> string list \<times> string list" where
  "strip_common (b # bs) (t # ts) = (if b = t then strip_common bs ts else (b # bs, t # ts))"
| "strip_common bs ts = (bs, ts)"

definition path_Rel :: "string \<Rightarrow> string \<Rightarrow> go_error + string" where
  "path_Rel basepath targpath =
     (if Clean basepath = Clean targpath then Inr dot
      else if IsAbs basepath \<noteq> IsAbs targpath then Inl [''Rel: can not make target relative to base'']
      else
        (case strip_common (path_comps basepath) (path_comps targpath) of (bs, ts) \<Rightarrow>
           if bs \<noteq> [] \<and> hd bs = dotdot then Inl [''Rel: can not make target relative to base'']
           else Inr (Join (replicate (length bs) dotdot @ ts) [slash])))"

section \<open>Lemmas\<close>

lemma split_on_nonempty [simp]: "split_on d s \<noteq> []"
  by (induction s) (auto split: list.splits)

lemma split_on_no_sep: "c \<in> set (split_on d s) \<Longrightarrow> d \<notin> set c"
  by (induction s arbitrary: c) (auto split: list.splits if_splits)

lemma split_on_append: "split_on d (s @ d # r) = split_on d s @ split_on d r"
  by (induction s) (auto split: list.splits)

lemma split_on_single: "d \<notin> set s \<Longrightarrow> split_on d s = [s]"
  by (induction s) auto

lemma split_on_Join: "cs \<noteq> [] \<Longrightarrow> \<forall>c \<in> set cs. d \<notin> set c \<Longrightarrow> split_on d (Join cs [d]) = cs"
  by (induction cs "[d]" rule: Join.induct) (simp_all add: split_on_single split_on_append)

text \<open>A component that cleaning keeps.\<close>

definition plain_comp :: "string \<Rightarrow> bool" where
  "plain_comp c \<longleftrightarrow> c \<noteq> [] \<and> c \<noteq> dot \<and> c \<noteq> dotdot \<and> slash \<notin> set c"

lemma clean_plain: "\<forall>c \<in> set cs. plain_comp c \<Longrightarrow> clean_comps r acc cs = rev acc @ cs"
  by (induction cs arbitrary: acc) (auto simp: plain_comp_def)

lemma clean_comps_append_empty: "clean_comps r acc (cs @ [[]]) = clean_comps r acc cs"
  by (cases r; induction cs arbitrary: acc) simp_all

lemma clean_rooted_plain:
  "\<forall>c \<in> set acc. plain_comp c \<Longrightarrow> \<forall>c \<in> set cs. slash \<notin> set c \<Longrightarrow> \<forall>c \<in> set (clean_comps True acc cs). plain_comp c"
proof (induction cs arbitrary: acc)
  case (Cons c cs)
  have tl: "\<forall>x \<in> set (tl acc). plain_comp x" using Cons.prems(1) by (cases acc) auto
  have c: "\<forall>x \<in> set (c # acc). plain_comp x" if "c \<noteq> []" "c \<noteq> dot" "c \<noteq> dotdot"
    using that Cons.prems by (simp add: plain_comp_def)
  have cs: "\<forall>x \<in> set cs. slash \<notin> set x" using Cons.prems(2) by simp
  show ?case using Cons.IH [OF tl cs] Cons.IH [OF c cs] Cons.IH [OF Cons.prems(1) cs] by simp
qed simp

lemma abs_comps_plain: "IsAbs p \<Longrightarrow> \<forall>c \<in> set (path_comps p). plain_comp c"
  using clean_rooted_plain [of "[]" "split_on slash p"] split_on_no_sep by (auto simp: path_comps_def)

lemma IsAbs_Cons [simp]: "IsAbs (c # cs) \<longleftrightarrow> c = slash" "\<not> IsAbs []"
  by (simp_all add: IsAbs_def HasPrefix_def)

lemma split_abs: "IsAbs p \<Longrightarrow> split_on slash p = [] # split_on slash (tl p)"
  by (cases p) auto

text \<open>An absolute path is determined by its components.\<close>

lemma comps_of_abs:
  assumes "\<forall>c \<in> set cs. plain_comp c"
  shows "path_comps (of_comps True cs) = cs" "IsAbs (of_comps True cs)"
proof -
  show abs: "IsAbs (of_comps True cs)" by (simp add: of_comps_def)
  have "split_on slash (of_comps True cs) = [] # (if cs = [] then [[]] else cs)"
    using assms by (auto simp: of_comps_def split_on_Join plain_comp_def)
  then show "path_comps (of_comps True cs) = cs"
    using clean_plain [OF assms, of True "[]"] abs by (auto simp: path_comps_def)
qed

lemma Clean_abs: "IsAbs p \<Longrightarrow> IsAbs (Clean p) \<and> path_comps (Clean p) = path_comps p"
  using comps_of_abs [OF abs_comps_plain] by (simp add: Clean_def)

lemma Clean_idem_abs: "IsAbs p \<Longrightarrow> Clean (Clean p) = Clean p"
  using Clean_abs [of p] by (simp add: Clean_def)

lemma Clean_eq_abs:
  assumes "IsAbs p" "IsAbs q"
  shows "Clean p = Clean q \<longleftrightarrow> path_comps p = path_comps q"
proof
  assume "Clean p = Clean q"
  then have "path_comps (Clean p) = path_comps (Clean q)" by (rule arg_cong)
  then show "path_comps p = path_comps q" unfolding Clean_abs [OF assms(1), THEN conjunct2] Clean_abs [OF assms(2), THEN conjunct2] .
next
  assume "path_comps p = path_comps q"
  with assms show "Clean p = Clean q" unfolding Clean_def by simp
qed

definition clean_abs :: "string \<Rightarrow> bool" where
  "clean_abs p \<longleftrightarrow> IsAbs p \<and> Clean p = p"

lemma clean_abs_Clean: "IsAbs p \<Longrightarrow> clean_abs (Clean p)"
  using Clean_abs Clean_idem_abs by (simp add: clean_abs_def)

lemma clean_abs_of_comps: "\<forall>c \<in> set cs. plain_comp c \<Longrightarrow> clean_abs (of_comps True cs)"
  using comps_of_abs [of cs] by (simp add: clean_abs_def Clean_def)

lemma clean_abs_comps: "clean_abs p \<Longrightarrow> p = of_comps True (path_comps p) \<and> (\<forall>c \<in> set (path_comps p). plain_comp c)"
  using abs_comps_plain by (metis Clean_def clean_abs_def)

text \<open>Joining a plain component appends it.\<close>

lemma Join_name:
  assumes "clean_abs r" "plain_comp m"
  shows "path_Join [r, m] = of_comps True (path_comps r @ [m])"
proof -
  have cs: "\<forall>c \<in> set (path_comps r). plain_comp c" and r: "r = of_comps True (path_comps r)"
    using clean_abs_comps [OF assms(1)] by blast+
  have m: "split_on slash m = [m]" using assms(2) by (simp add: split_on_single plain_comp_def)
  have "split_on slash (slash # Join (path_comps r) [slash]) = [] # (if path_comps r = [] then [[]] else path_comps r)"
    using cs by (auto simp: split_on_Join plain_comp_def)
  then have "split_on slash (r @ slash # m) = [] # (if path_comps r = [] then [[]] else path_comps r) @ [m]"
    using m r by (metis append_Cons of_comps_def split_on_append)
  moreover have abs: "IsAbs (r @ slash # m)" using assms(1) by (cases r) (auto simp: clean_abs_def)
  ultimately have "path_comps (r @ slash # m) = path_comps r @ [m]"
    using clean_plain [of "path_comps r @ [m]" True "[]"] cs assms(2) by (auto simp: path_comps_def [of "r @ slash # m"])
  moreover have "r \<noteq> []" using assms(1) by (auto simp: clean_abs_def)
  ultimately show ?thesis using abs by (simp add: path_Join_def Clean_def)
qed

lemma Join_name_inject:
  assumes "clean_abs r" "plain_comp m" "plain_comp n" "path_Join [r, m] = path_Join [r, n]"
  shows "m = n"
proof -
  have "path_comps (path_Join [r, k]) = path_comps r @ [k]" if "plain_comp k" for k
    using comps_of_abs(1) [of "path_comps r @ [k]"] clean_abs_comps [OF assms(1)] that Join_name [OF assms(1) that] by simp
  with assms(2-4) show ?thesis by (metis last_snoc)
qed

text \<open>Below a base: the components of the base come first.\<close>

lemma strip_common_prefix: "strip_common bs ts = ([], rest) \<Longrightarrow> ts = bs @ rest"
  by (induction bs ts rule: strip_common.induct) (auto split: if_splits)

lemma strip_common_of_prefix: "strip_common bs (bs @ rest) = ([], rest)"
  by (induction bs) (auto intro: strip_common.cases)

lemma Join_dotdot:
  assumes "bs \<noteq> []"
  shows "Join (replicate (length bs) dotdot @ ts) [slash] = dotdot
    \<or> HasPrefix (Join (replicate (length bs) dotdot @ ts) [slash]) (dotdot @ [slash])"
proof -
  obtain cs where cs: "replicate (length bs) dotdot @ ts = dotdot # cs" using assms by (cases bs) auto
  show ?thesis unfolding cs by (cases cs) (simp_all add: HasPrefix_def dotdot_def)
qed

lemma Join_plain:
  assumes "\<forall>c \<in> set ts. plain_comp c"
  shows "Join ts [slash] \<noteq> dotdot \<and> \<not> HasPrefix (Join ts [slash]) (dotdot @ [slash])"
proof (cases ts)
  case (Cons t us)
  then have t: "plain_comp t" using assms by simp
  have no: "\<not> HasPrefix (t @ slash # r) (dotdot @ [slash])" for r
  proof
    assume "HasPrefix (t @ slash # r) (dotdot @ [slash])"
    then obtain r2 where "t @ slash # r = dotdot @ slash # r2" by (auto simp: HasPrefix_iff)
    moreover have "slash \<notin> set t" "slash \<notin> set dotdot" using t by (auto simp: plain_comp_def dotdot_def slash_def)
    ultimately have "t = dotdot" using takeWhile_before by metis
    with t show False by (simp add: plain_comp_def)
  qed
  show ?thesis
  proof (cases us)
    case Nil
    have "\<not> HasPrefix t (dotdot @ [slash])" using t by (auto simp: HasPrefix_iff plain_comp_def)
    with Nil Cons t show ?thesis by (simp add: plain_comp_def)
  next
    case (Cons u vs)
    have "slash \<in> set (t @ slash # Join us [slash])" "slash \<notin> set dotdot" by (simp_all add: dotdot_def slash_def)
    then have "t @ slash # Join us [slash] \<noteq> dotdot" by metis
    with no \<open>ts = t # us\<close> Cons show ?thesis by simp
  qed
qed (simp add: dotdot_def HasPrefix_def)

text \<open>Going to the parent directory comes to an end.\<close>

definition weight :: "string list \<Rightarrow> nat" where
  "weight cs = sum_list (map (\<lambda>c. Suc (length c)) cs)"

lemma weight_simps [simp]: "weight [] = 0" "weight (c # cs) = Suc (length c) + weight cs" "weight (cs @ ds) = weight cs + weight ds"
  by (simp_all add: weight_def)

lemma weight_rev [simp]: "weight (rev cs) = weight cs"
  by (induction cs) simp_all

lemma weight_split: "weight (split_on d s) = Suc (length s)"
  by (induction s) (auto split: list.splits)

lemma weight_clean: "weight (clean_comps r acc cs) \<le> weight acc + weight (filter (\<lambda>c. c \<noteq> []) cs)"
proof (induction r acc cs rule: clean_comps.induct)
  case (2 r acc c cs)
  have "weight (tl acc) \<le> weight acc" by (cases acc) simp_all
  with 2 show ?case by auto
qed simp

lemma weight_filter: "weight (filter P cs) \<le> weight cs"
  by (induction cs) simp_all

lemma length_Join: "cs \<noteq> [] \<Longrightarrow> Suc (length (Join cs [d])) = weight cs"
  by (induction cs "[d]" rule: Join.induct) simp_all

lemma upto_slash_cases:
  obtains "upto_slash p = []" "slash \<notin> set p" | q r where "upto_slash p = q @ [slash]" "p = q @ slash # r" "slash \<notin> set r"
proof (cases "dropWhile (\<lambda>c. c \<noteq> slash) (rev p)")
  case Nil
  then have "slash \<notin> set (rev p)" by (auto simp: dropWhile_eq_Nil_conv)
  with Nil that(1) show ?thesis by (simp add: upto_slash_def)
next
  case (Cons c cs)
  have c: "c = slash" using Cons hd_dropWhile [of "\<lambda>c. c \<noteq> slash" "rev p"] by simp
  have "rev p = takeWhile (\<lambda>c. c \<noteq> slash) (rev p) @ c # cs" using takeWhile_dropWhile_id [of _ "rev p"] Cons by metis
  then have "p = rev cs @ slash # rev (takeWhile (\<lambda>c. c \<noteq> slash) (rev p))"
    using c by (metis rev.simps(2) rev_append rev_rev_ident append.assoc append_Cons append_Nil)
  moreover have "slash \<notin> set (takeWhile (\<lambda>c. c \<noteq> slash) (rev p))" using set_takeWhileD by force
  moreover have "upto_slash p = rev cs @ [slash]" using Cons c by (simp add: upto_slash_def)
  ultimately show ?thesis using that(2) by (metis set_rev)
qed

lemma weight_dir:
  "weight (path_comps (q @ [slash])) \<le> (if IsAbs (q @ [slash]) then length q else Suc (length q))"
proof -
  have "weight (path_comps (q @ [slash])) \<le> weight (filter (\<lambda>c. c \<noteq> []) (split_on slash q))"
    using weight_clean [of "IsAbs (q @ [slash])" "[]" "split_on slash (q @ [slash])"]
    by (simp add: path_comps_def split_on_append)
  also have "\<dots> \<le> (if IsAbs (q @ [slash]) then length q else Suc (length q))"
  proof (cases "IsAbs (q @ [slash]) \<and> q \<noteq> []")
    case True
    then obtain q' where "q = slash # q'" by (cases q) auto
    then show ?thesis using weight_filter [of "\<lambda>c. c \<noteq> []" "split_on slash q'"] True by (simp add: weight_split)
  next
    case False
    then show ?thesis using weight_filter [of "\<lambda>c. c \<noteq> []" "split_on slash q"] by (auto simp: weight_split)
  qed
  finally show ?thesis .
qed

definition dir_measure :: "string \<Rightarrow> nat" where
  "dir_measure p = (if p = dot then 0 else Suc (length p))"

lemma path_Dir_shrinks: "path_Dir p \<noteq> p \<Longrightarrow> dir_measure (path_Dir p) < dir_measure p"
proof (cases rule: upto_slash_cases [of p])
  case 1
  assume ne: "path_Dir p \<noteq> p"
  have "path_Dir p = dot" using 1 by (simp add: path_Dir_def Clean_def path_comps_def of_comps_def)
  with ne show ?thesis by (simp add: dir_measure_def)
next
  case (2 q r)
  assume ne: "path_Dir p \<noteq> p"
  let ?cs = "path_comps (q @ [slash])"
  have d: "path_Dir p = of_comps (IsAbs (q @ [slash])) ?cs" by (simp add: path_Dir_def 2(1) Clean_def)
  show ?thesis
  proof (cases "?cs = []")
    case True
    show ?thesis
    proof (cases "IsAbs (q @ [slash])")
      case abs: True
      then have d: "path_Dir p = [slash]" using d True by (simp add: of_comps_def)
      have "p = [slash] \<or> 1 < length p" using 2(2) by (cases q; cases r) auto
      with d ne show ?thesis by (auto simp: dir_measure_def dot_def)
    next
      case False
      then have "path_Dir p = dot" using d True by (simp add: of_comps_def)
      with ne show ?thesis by (simp add: dir_measure_def)
    qed
  next
    case False
    from length_Join [OF this, of slash] weight_dir [of q] have "length (of_comps (IsAbs (q @ [slash])) ?cs) \<le> length q"
      using False by (auto simp: of_comps_def split: if_splits)
    with d 2(2) have "length (path_Dir p) < length p" by simp
    moreover have "p \<noteq> dot" using 2(2) by (cases q) (auto simp: dot_def slash_def)
    ultimately show ?thesis by (simp add: dir_measure_def)
  qed
qed

text \<open>Parent and name of an absolute path.\<close>

lemma Dir_Base_abs:
  assumes "\<forall>c \<in> set cs. plain_comp c" "plain_comp c"
  shows "path_Dir (of_comps True (cs @ [c])) = of_comps True cs" "path_Base (of_comps True (cs @ [c])) = c"
proof -
  have c: "slash \<notin> set c" "c \<noteq> []" using assms(2) by (simp_all add: plain_comp_def)
  have j: "Join (cs @ [c]) [slash] = (if cs = [] then c else Join cs [slash] @ slash # c)"
    by (induction cs "[slash]" rule: Join.induct) simp_all
  define q where "q = (if cs = [] then [] else slash # Join cs [slash])"
  have p: "of_comps True (cs @ [c]) = q @ slash # c" by (simp add: of_comps_def j q_def)
  have dw: "dropWhile (\<lambda>x. x \<noteq> slash) (rev (q @ slash # c)) = slash # rev q"
    using c(1) by (subst rev_append, subst rev.simps(2), subst append_assoc, subst dropWhile_append2) auto
  then have "upto_slash (of_comps True (cs @ [c])) = q @ [slash]" by (simp add: upto_slash_def p)
  moreover have "path_comps (q @ [slash]) = cs"
  proof -
    have "split_on slash (q @ [slash]) = (if cs = [] then [[], []] else [] # cs @ [[]])"
      using assms(1) by (auto simp: q_def split_on_append split_on_Join plain_comp_def)
    then show ?thesis using clean_plain [OF assms(1), of _ "[]"] assms(1)
      by (auto simp: path_comps_def clean_comps_append_empty)
  qed
  moreover have "IsAbs (q @ [slash])" by (cases cs) (simp_all add: q_def)
  ultimately show "path_Dir (of_comps True (cs @ [c])) = of_comps True cs" by (simp add: path_Dir_def Clean_def)
  have "dropWhile (\<lambda>x. x = slash) (rev (q @ slash # c)) = rev (q @ slash # c)"
    using c by (cases "rev c") auto
  moreover have "takeWhile (\<lambda>x. x \<noteq> slash) (rev c @ slash # rev q) = rev c" using c(1) by (intro takeWhile_before) simp
  ultimately show "path_Base (of_comps True (cs @ [c])) = c" using c(2) by (simp add: path_Base_def p)
qed

end
