(* ===== verification/Shell_Ast.thy ===== *)
theory Shell_Ast
  imports Go_Filepath
begin

text \<open>
  The view of a parsed shell command that the checks of the bash tool use: the nodes of
  \<^verbatim>\<open>mvdan.cc/sh/v3/syntax\<close> they distinguish, with the fields they read, and the traversal
  \<^verbatim>\<open>syntax.Walk\<close>.  Parsing itself is a parameter of the checks.
\<close>

section \<open>Syntax trees\<close>

datatype word_part = Lit string | SglQuoted string | DblQuoted "word_part list" | Dynamic

type_synonym shell_word = "word_part list"

text \<open>
  A node carries what the checks read of it and its children in the order \<^verbatim>\<open>Walk\<close> visits
  them; commands nested in expansions are children as well.  A redirection holds its
  operator and target, a statement the operators of its redirections.
\<close>

datatype shell_node =
    CallExpr "shell_word list" "shell_node list"
  | Redirect string "shell_word option" "shell_node list"
  | BinaryCmd string shell_node shell_node
  | Stmt "string list" "shell_node list"
  | OtherNode "shell_node list"

fun children :: "shell_node \<Rightarrow> shell_node list" where
  "children (CallExpr ws ns) = ns"
| "children (Redirect r w ns) = ns"
| "children (BinaryCmd opr x y) = [x, y]"
| "children (Stmt rs ns) = ns"
| "children (OtherNode ns) = ns"

lemma children_size: "m \<in> set (children n) \<Longrightarrow> size m < size n"
  by (cases n) (auto dest: size_list_estimation' [of _ _ _ size])

text \<open>\<^verbatim>\<open>syntax.Walk\<close>: the callback on a node, and on its children if it returned true.\<close>

function walk :: "(shell_node \<Rightarrow> 'st \<Rightarrow> bool \<times> 'st) \<Rightarrow> shell_node \<Rightarrow> 'st \<Rightarrow> 'st" where
  "walk f n st = (case f n st of (go, st) \<Rightarrow> if go then fold (walk f) (children n) st else st)"
  by pat_completeness auto
termination
  by (relation "measure (\<lambda>(_, n, _). size n)") (auto dest: children_size)

declare walk.simps [simp del]

text \<open>All nodes in the order they are visited.\<close>

function subnodes :: "shell_node \<Rightarrow> shell_node list" where
  "subnodes n = n # concat (map subnodes (children n))"
  by pat_completeness auto
termination
  by (relation "measure size") (auto dest: children_size)

declare subnodes.simps [simp del]

lemma subnodes_self: "n \<in> set (subnodes n)"
  by (subst subnodes.simps) simp

lemma find_append:
  "find P (xs @ ys) = (case find P xs of Some x \<Rightarrow> Some x | None \<Rightarrow> find P ys)"
  by (induction xs) auto

text \<open>A callback that stops at the first error, as all checks but one are written.\<close>

definition first_error :: "(shell_node \<Rightarrow> go_error) \<Rightarrow> shell_node \<Rightarrow> go_error \<Rightarrow> bool \<times> go_error" where
  "first_error check n first = (if first \<noteq> [] then (False, first) else (check n = [], check n))"

lemma fold_first_error:
  assumes "\<And>m e. m \<in> set ns \<Longrightarrow> e \<noteq> [] \<Longrightarrow> walk (first_error check) m e = e"
    and "\<And>m. m \<in> set ns \<Longrightarrow> walk (first_error check) m [] =
      (case find (\<lambda>m. check m \<noteq> []) (subnodes m) of None \<Rightarrow> [] | Some m \<Rightarrow> check m)"
  shows "fold (walk (first_error check)) ns [] =
      (case find (\<lambda>m. check m \<noteq> []) (concat (map subnodes ns)) of None \<Rightarrow> [] | Some m \<Rightarrow> check m)"
proof -
  have stuck: "fold (walk (first_error check)) ms e = e" if "e \<noteq> []" "set ms \<subseteq> set ns" for ms e
    using that assms(1) by (induction ms) auto
  have "fold (walk (first_error check)) ms [] =
      (case find (\<lambda>m. check m \<noteq> []) (concat (map subnodes ms)) of None \<Rightarrow> [] | Some m \<Rightarrow> check m)" if "set ms \<subseteq> set ns" for ms
    using that
  proof (induction ms)
    case (Cons m ms)
    show ?case
    proof (cases "find (\<lambda>m. check m \<noteq> []) (subnodes m)")
      case None
      then show ?thesis using Cons assms(2) by (auto simp: find_append)
    next
      case (Some x)
      then have "check x \<noteq> []" by (auto simp: find_Some_iff)
      with Some Cons assms(2) stuck show ?thesis by (auto simp: find_append)
    qed
  qed simp
  then show ?thesis by simp
qed

lemma walk_stuck: "e \<noteq> [] \<Longrightarrow> walk (first_error check) n e = e"
  by (subst walk.simps, subst first_error_def) simp

lemma walk_open:
  "walk (first_error check) n [] = (if check n = [] then fold (walk (first_error check)) (children n) [] else check n)"
  by (subst walk.simps, subst first_error_def) simp

lemma walk_first_error:
  "walk (first_error check) n [] = (case find (\<lambda>m. check m \<noteq> []) (subnodes n) of None \<Rightarrow> [] | Some m \<Rightarrow> check m)"
proof (induction n rule: measure_induct_rule [of size])
  case (less n)
  have "fold (walk (first_error check)) (children n) [] =
      (case find (\<lambda>m. check m \<noteq> []) (concat (map subnodes (children n))) of None \<Rightarrow> [] | Some m \<Rightarrow> check m)"
    by (rule fold_first_error) (auto simp: walk_stuck less children_size)
  then show ?case by (simp add: walk_open [of check n] subnodes.simps [of n])
qed

corollary walk_accepts: "walk (first_error check) n [] = [] \<longleftrightarrow> (\<forall>m \<in> set (subnodes n). check m = [])"
  by (auto simp: walk_first_error find_None_iff find_Some_iff split: option.splits)

lemma walk_first_cong:
  "(\<And>m. m \<in> set (subnodes n) \<Longrightarrow> check m = check' m) \<Longrightarrow> walk (first_error check) n [] = walk (first_error check') n []"
proof -
  assume eq: "\<And>m. m \<in> set (subnodes n) \<Longrightarrow> check m = check' m"
  have "find (\<lambda>m. check m \<noteq> []) (subnodes n) = find (\<lambda>m. check' m \<noteq> []) (subnodes n)"
    by (rule find_cong) (simp_all add: eq)
  moreover have "m \<in> set (subnodes n)" if "find (\<lambda>m. check' m \<noteq> []) (subnodes n) = Some m" for m
    using that by (auto simp: find_Some_iff)
  ultimately show ?thesis using eq by (auto simp: walk_first_error split: option.splits)
qed

lemma subnodes_trans: "m \<in> set (subnodes n) \<Longrightarrow> set (subnodes m) \<subseteq> set (subnodes n)"
proof (induction n rule: measure_induct_rule [of size])
  case (less n)
  show ?case
  proof (cases "m = n")
    case False
    then obtain c where c: "c \<in> set (children n)" "m \<in> set (subnodes c)" using less.prems by (subst (asm) subnodes.simps) auto
    with less.IH [OF children_size] have "set (subnodes m) \<subseteq> set (subnodes c)" by blast
    also have "\<dots> \<subseteq> set (subnodes n)" using c(1) by (subst (2) subnodes.simps) auto
    finally show ?thesis .
  qed simp
qed

text \<open>A callback that never stops is a fold over all nodes.\<close>

lemma walk_all: "walk (\<lambda>m st. (True, g m st)) n st = fold g (subnodes n) st"
proof (induction n arbitrary: st rule: measure_induct_rule [of size])
  case (less n)
  have "fold (walk (\<lambda>m st. (True, g m st))) ns st = fold g (concat (map subnodes ns)) st"
    if "set ns \<subseteq> set (children n)" for ns st
    using that less children_size by (induction ns arbitrary: st) auto
  then show ?case by (simp add: walk.simps [of _ n] subnodes.simps [of n])
qed

section \<open>Words\<close>

fun quoted_value :: "word_part list \<Rightarrow> string option" where
  "quoted_value [] = Some []"
| "quoted_value (Lit v # ps) = map_option ((@) v) (quoted_value ps)"
| "quoted_value (_ # ps) = None"

fun staticWordValue :: "shell_word \<Rightarrow> string option" where
  "staticWordValue [] = Some []"
| "staticWordValue (Lit v # ps) = map_option ((@) v) (staticWordValue ps)"
| "staticWordValue (SglQuoted v # ps) = map_option ((@) v) (staticWordValue ps)"
| "staticWordValue (DblQuoted qs # ps) =
     (case quoted_value qs of None \<Rightarrow> None | Some v \<Rightarrow> map_option ((@) v) (staticWordValue ps))"
| "staticWordValue (Dynamic # ps) = None"

fun static_values :: "shell_word list \<Rightarrow> string list option" where
  "static_values [] = Some []"
| "static_values (w # ws) =
     (case staticWordValue w of None \<Rightarrow> None | Some v \<Rightarrow> map_option ((#) v) (static_values ws))"

definition staticCall :: "shell_word list \<Rightarrow> (string \<times> string list) option" where
  "staticCall args =
     (case args of
        [] \<Rightarrow> None
      | w # ws \<Rightarrow>
          (case staticWordValue w of
             None \<Rightarrow> None
           | Some head \<Rightarrow> map_option (\<lambda>as. (head, as)) (static_values ws)))"

type_synonym shell_parser = "string \<Rightarrow> go_error + shell_node"

end
