(* ===== verification/Url_Allowlist.thy ===== *)
theory Url_Allowlist
  imports Shell_Ast
begin

text \<open>
  The URL allowlist of the bash tool, \<^verbatim>\<open>llm/internal/builtin/url_allowlist.go\<close>.

  The shell parser, \<^verbatim>\<open>url.Parse\<close> and \<^verbatim>\<open>strings.ToLower\<close> are parameters.  A script passed to
  \<^verbatim>\<open>bash -c\<close> is parsed and checked in turn; the definitions carry the number of nested parses
  as fuel, and running out of it refuses the command.  A script is shorter than the command
  it is part of, so the length of the command is enough.
\<close>

section \<open>URLs\<close>

record url =
  u_Scheme :: string
  u_Host :: string
  u_Path :: string

record url_lib =
  ul_Parse :: "string \<Rightarrow> url option"
  ul_ToLower :: "string \<Rightarrow> string"

definition urlMatches :: "url_lib \<Rightarrow> string \<Rightarrow> string \<Rightarrow> bool" where
  "urlMatches ul targetStr entryStr =
     (case ul_Parse ul targetStr of
        None \<Rightarrow> False
      | Some target \<Rightarrow>
          (case ul_Parse ul entryStr of
             None \<Rightarrow> False
           | Some entry \<Rightarrow>
               if ul_ToLower ul (u_Scheme target) \<noteq> ul_ToLower ul (u_Scheme entry) then False
               else if ul_ToLower ul (u_Host target) \<noteq> ul_ToLower ul (u_Host entry) then False
               else
                 let targetPath = (if u_Path target = [] then ''/'' else u_Path target);
                     entryPath = (if u_Path entry = [] then ''/'' else u_Path entry)
                 in if entryPath = ''/'' then True
                    else if targetPath = entryPath then True
                    else HasPrefix targetPath (entryPath @ ''/'')))"

section \<open>Options\<close>

definition curlShortArgOptions :: string where
  "curlShortArgOptions = ''doHXuAbcemFTEwD''"

definition curlShortFlags :: string where
  "curlShortFlags = ''sSLfIkivOgGJpq''"

definition curlLongArgOptions :: "string list" where
  "curlLongArgOptions =
     [''--data'', ''--data-raw'', ''--data-binary'', ''--data-urlencode'', ''--data-ascii'', ''--output'',
      ''--header'', ''--request'', ''--user'', ''--user-agent'', ''--cookie'', ''--cookie-jar'',
      ''--referer'', ''--max-time'', ''--connect-timeout'', ''--url'', ''--form'', ''--form-string'',
      ''--upload-file'', ''--retry'', ''--retry-delay'', ''--cacert'', ''--capath'', ''--cert'', ''--key'',
      ''--pass'', ''--limit-rate'', ''--write-out'', ''--keepalive-time'', ''--dump-header'']"

definition curlLongFlags :: "string list" where
  "curlLongFlags =
     [''--remote-name'', ''--silent'', ''--show-error'', ''--location'', ''--fail'', ''--head'',
      ''--insecure'', ''--include'', ''--verbose'', ''--globoff'', ''--get'', ''--remote-header-name'',
      ''--compressed'', ''--no-keepalive'', ''--fail-early'', ''--http1.1'', ''--http2'', ''--http3'',
      ''--no-progress-meter'', ''--retry-connrefused'']"

definition curlForbiddenShortOptions :: string where
  "curlForbiddenShortOptions = ''xK''"

definition curlForbiddenLongOptions :: "string list" where
  "curlForbiddenLongOptions =
     [''--proxy'', ''--proxy-user'', ''--preproxy'', ''--proxytunnel'', ''--socks4'', ''--socks4a'',
      ''--socks5'', ''--socks5-hostname'', ''--connect-to'', ''--resolve'', ''--dns-servers'',
      ''--dns-interface'', ''--interface'', ''--config'']"

definition wgetShortArgOptions :: string where
  "wgetShortArgOptions = ''OtTUwP''"

definition wgetShortFlags :: string where
  "wgetShortFlags = ''qvchV''"

definition wgetLongArgOptions :: "string list" where
  "wgetLongArgOptions =
     [''--output-document'', ''--header'', ''--post-data'', ''--post-file'', ''--user'', ''--password'',
      ''--tries'', ''--timeout'', ''--connect-timeout'', ''--read-timeout'', ''--user-agent'',
      ''--limit-rate'', ''--wait'', ''--directory-prefix'']"

definition wgetLongFlags :: "string list" where
  "wgetLongFlags =
     [''--quiet'', ''--verbose'', ''--no-verbose'', ''--help'', ''--version'', ''--no-check-certificate'',
      ''--continue'', ''--adjust-extension'']"

definition is_curl :: "string \<Rightarrow> bool" where "is_curl cmd \<longleftrightarrow> cmd = ''curl''"

text \<open>The loop over a cluster of short options; \<open>single\<close>: the word has one part.  The result is
  the option that still expects its argument, or none.\<close>

fun short_options :: "string \<Rightarrow> bool \<Rightarrow> string \<Rightarrow> go_error + string" where
  "short_options cmd single [] = Inr []"
| "short_options cmd single (r # rs) =
     (if is_curl cmd \<and> r \<in> set curlForbiddenShortOptions then
        Inl [''option is not allowed when the URL allowlist is active'']
      else if r \<in> set (if is_curl cmd then curlShortArgOptions else wgetShortArgOptions) then
        (if rs \<noteq> [] then Inr [] else if \<not> single then Inr [] else Inr (''-'' @ [r]))
      else if r \<in> set (if is_curl cmd then curlShortFlags else wgetShortFlags) then short_options cmd single rs
      else Inl [''unrecognized option''])"

text \<open>A long option: the URL it carries, if any, and the option that expects its argument.\<close>

definition long_option :: "string \<Rightarrow> shell_word \<Rightarrow> string \<Rightarrow> go_error + string list \<times> string" where
  "long_option cmd word val =
     (let eq = IndexByte val (CHR ''='');
          optName = (case eq of Some idx \<Rightarrow> take idx val | None \<Rightarrow> val);
          hasEquals = (eq \<noteq> None);
          args = (if is_curl cmd then curlLongArgOptions else wgetLongArgOptions);
          flags = (if is_curl cmd then curlLongFlags else wgetLongFlags)
      in if hasEquals \<and> optName = ''--url'' \<and> staticWordValue word = None then Inl [''target URL is dynamic'']
         else if \<not> hasEquals \<and> length word > 1 then Inl [''command contains dynamic option name'']
         else if is_curl cmd \<and> optName \<in> set curlForbiddenLongOptions then
           Inl [''option is not allowed when the URL allowlist is active'']
         else if optName \<in> set args then
           (if hasEquals then
              Inr (if is_curl cmd \<and> optName = ''--url''
                   then [drop (Suc (the eq)) (the (staticWordValue word))] else [], [])
            else Inr ([], optName))
         else if optName \<in> set flags then
           (if hasEquals then Inl [''flag cannot take a value''] else Inr ([], []))
         else Inl [''unrecognized option''])"

fun parse_urls :: "string \<Rightarrow> string list \<Rightarrow> string \<Rightarrow> bool \<Rightarrow> shell_word list \<Rightarrow> go_error + string list" where
  "parse_urls cmd urls expectedOpt posOnly [] =
     (if expectedOpt \<noteq> [] then Inl [''option is missing its argument''] else Inr urls)"
| "parse_urls cmd urls expectedOpt posOnly (word # ws) =
     (if expectedOpt \<noteq> [] then
        (if expectedOpt = ''--url'' then
           (case staticWordValue word of
              None \<Rightarrow> Inl [''target URL is dynamic'']
            | Some val \<Rightarrow> parse_urls cmd (urls @ [val]) [] posOnly ws)
         else parse_urls cmd urls [] posOnly ws)
      else if posOnly then
        (case staticWordValue word of
           None \<Rightarrow> Inl [''command contains dynamic target URL'']
         | Some val \<Rightarrow> parse_urls cmd (urls @ [val]) [] posOnly ws)
      else
        (case (case word of Lit v # _ \<Rightarrow> if HasPrefix v ''-'' \<and> v \<noteq> ''-'' then Some v else None | _ \<Rightarrow> None) of
           Some val \<Rightarrow>
             if val = ''--'' then parse_urls cmd urls [] True ws
             else if HasPrefix val ''--'' then
               (case long_option cmd word val of
                  Inl e \<Rightarrow> Inl e
                | Inr (us, exp) \<Rightarrow> parse_urls cmd (urls @ us) exp posOnly ws)
             else
               (case short_options cmd (length word \<le> 1) (tl val) of
                  Inl e \<Rightarrow> Inl e
                | Inr exp \<Rightarrow> parse_urls cmd urls exp posOnly ws)
         | None \<Rightarrow>
             (case staticWordValue word of
                None \<Rightarrow> Inl [''target URL is dynamic'']
              | Some val \<Rightarrow> parse_urls cmd (urls @ [val]) [] posOnly ws)))"

definition parseCommandURLs :: "string \<Rightarrow> shell_word list \<Rightarrow> go_error + string list" where
  "parseCommandURLs cmd args = parse_urls cmd [] [] False args"

definition url_error :: "url_lib \<Rightarrow> string list \<Rightarrow> string \<Rightarrow> go_error" where
  "url_error ul allow u =
     (if HasPrefix u ''@'' then [''URL starting with @ is not allowed'']
      else if \<not> list_ex (urlMatches ul u) allow then [''URL is not allowed by the URL allowlist'']
      else [])"

definition checkDirectCurlOrWget :: "url_lib \<Rightarrow> string list \<Rightarrow> string \<Rightarrow> shell_word list \<Rightarrow> go_error" where
  "checkDirectCurlOrWget ul allow cmd args =
     (case parseCommandURLs cmd args of
        Inl e \<Rightarrow> [''extract URL from command: '' @ error_text e]
      | Inr urls \<Rightarrow>
          if urls = [] then [''no statically extractable URL found'']
          else (case find (\<lambda>u. url_error ul allow u \<noteq> []) urls of None \<Rightarrow> [] | Some u \<Rightarrow> url_error ul allow u))"

section \<open>Wrappers\<close>

text \<open>\<^verbatim>\<open>parseEnvArgs\<close>; \<open>skip\<close>: the next word is the argument of \<^verbatim>\<open>-u\<close>, which is not looked at.\<close>

fun parse_env :: "bool \<Rightarrow> shell_word list \<Rightarrow> go_error + string \<times> shell_word list" where
  "parse_env skip [] = Inr ([], [])"
| "parse_env skip (w # ws) =
     (if skip then parse_env False ws
      else
        (case staticWordValue w of
           None \<Rightarrow> Inl [''env has dynamic arguments'']
         | Some val \<Rightarrow>
             if Contains val ''='' then parse_env False ws
             else if HasPrefix val ''-'' then parse_env (val = ''-u'' \<or> val = ''--unset'') ws
             else Inr (val, ws)))"

definition parseEnvArgs :: "shell_word list \<Rightarrow> go_error + string \<times> shell_word list" where
  "parseEnvArgs args = parse_env False args"

definition is_fetcher :: "string \<Rightarrow> bool" where
  "is_fetcher name \<longleftrightarrow> name = ''curl'' \<or> name = ''wget''"

definition hasArgCurlOrWget :: "shell_word list \<Rightarrow> bool" where
  "hasArgCurlOrWget args \<longleftrightarrow>
     list_ex (\<lambda>w. case staticWordValue w of Some v \<Rightarrow> is_fetcher (path_Base v) | None \<Rightarrow> False) args"

text \<open>The scripts after every \<^verbatim>\<open>-c\<close>.\<close>

fun c_scripts :: "shell_word list \<Rightarrow> string list" where
  "c_scripts [] = []"
| "c_scripts (w # ws) =
     (if staticWordValue w = Some ''-c'' \<and> ws \<noteq> [] then
        (case staticWordValue (hd ws) of Some s \<Rightarrow> [s] | None \<Rightarrow> []) @ c_scripts ws
      else c_scripts ws)"

text \<open>The callback of \<^verbatim>\<open>hasCurlOrWget\<close>; \<open>nested\<close> is the search in a parsed script.\<close>

definition runs_fetcher :: "shell_parser \<Rightarrow> (shell_node \<Rightarrow> bool) \<Rightarrow> shell_node \<Rightarrow> bool" where
  "runs_fetcher parse nested n =
     (case n of
        CallExpr args _ \<Rightarrow>
          (case args of
             [] \<Rightarrow> False
           | w # ws \<Rightarrow>
               (case staticWordValue w of
                  None \<Rightarrow> False
                | Some head \<Rightarrow>
                    let cmdName = path_Base head in
                    is_fetcher cmdName
                    \<or> cmdName = ''xargs'' \<and> hasArgCurlOrWget ws
                    \<or> cmdName = ''env'' \<and> (case parseEnvArgs ws of Inr (sub, _) \<Rightarrow> is_fetcher (path_Base sub) | Inl _ \<Rightarrow> False)
                    \<or> (cmdName = ''bash'' \<or> cmdName = ''sh'')
                       \<and> list_ex (\<lambda>s. case parse s of Inr f \<Rightarrow> nested f | Inl _ \<Rightarrow> False) (c_scripts (w # ws))))
      | _ \<Rightarrow> False)"

fun hasCurlOrWget :: "nat \<Rightarrow> shell_parser \<Rightarrow> shell_node \<Rightarrow> bool" where
  "hasCurlOrWget 0 parse n = True"
| "hasCurlOrWget (Suc k) parse n = list_ex (runs_fetcher parse (hasCurlOrWget k parse)) (subnodes n)"

text \<open>The word after the first \<^verbatim>\<open>-c\<close>: none, missing, or the script word.\<close>

fun find_c :: "shell_word list \<Rightarrow> shell_word option option" where
  "find_c [] = None"
| "find_c (w # ws) =
     (if staticWordValue w = Some ''-c'' then Some (case ws of [] \<Rightarrow> None | s # _ \<Rightarrow> Some s) else find_c ws)"

lemma parse_env_shorter: "parse_env b ws = Inr (sub, rest) \<Longrightarrow> sub \<noteq> [] \<Longrightarrow> length rest < length ws"
  by (induction b ws rule: parse_env.induct) (auto split: if_splits option.splits)

text \<open>\<open>script\<close> checks the text of a nested script.\<close>

function checkWrapperCommand ::
  "url_lib \<Rightarrow> string list \<Rightarrow> (string \<Rightarrow> go_error) \<Rightarrow> string \<Rightarrow> shell_word list \<Rightarrow> go_error" where
  "checkWrapperCommand ul allow script cmdName args =
     (if is_fetcher cmdName then checkDirectCurlOrWget ul allow cmdName args
      else if cmdName = ''env'' then
        (case parseEnvArgs args of
           Inl e \<Rightarrow> e
         | Inr (subCmd, subArgs) \<Rightarrow>
             if subCmd \<noteq> [] then checkWrapperCommand ul allow script (path_Base subCmd) subArgs else [])
      else if cmdName = ''bash'' \<or> cmdName = ''sh'' then
        (case find_c args of
           None \<Rightarrow> [''running bash/sh scripts from files is not allowed when URL allowlist is active'']
         | Some None \<Rightarrow> [''bash/sh -c is missing script argument'']
         | Some (Some w) \<Rightarrow>
             (case staticWordValue w of
                None \<Rightarrow> [''dynamic bash/sh -c scripts are not allowed when URL allowlist is active'']
              | Some s \<Rightarrow> map (\<lambda>m. ''error in bash/sh -c script: '' @ m) (script s)))
      else if cmdName = ''xargs'' \<and> hasArgCurlOrWget args then
        [''xargs executing curl/wget is not allowed (reads from stdin)'']
      else [])"
  by pat_completeness auto
termination
  by (relation "measure (\<lambda>(_, _, _, _, args). length args)") (auto simp: parseEnvArgs_def dest: parse_env_shorter)

declare checkWrapperCommand.simps [simp del]

definition url_check_node ::
  "shell_parser \<Rightarrow> nat \<Rightarrow> url_lib \<Rightarrow> string list \<Rightarrow> (string \<Rightarrow> go_error) \<Rightarrow> shell_node \<Rightarrow> go_error" where
  "url_check_node parse k ul allow script n =
     (case n of
        BinaryCmd opr x y \<Rightarrow>
          if (opr = ''|'' \<or> opr = ''|&'') \<and> hasCurlOrWget k parse y
          then [''wget/curl in pipeline reading from stdin is not allowed''] else []
      | Stmt redirs ns \<Rightarrow>
          if hasCurlOrWget k parse n \<and> list_ex (\<lambda>r. Contains r ''<'') redirs
          then [''wget/curl reading from stdin via redirection is not allowed''] else []
      | CallExpr args _ \<Rightarrow>
          (case args of
             [] \<Rightarrow> []
           | w # ws \<Rightarrow>
               (case staticWordValue w of
                  None \<Rightarrow> []
                | Some head \<Rightarrow> checkWrapperCommand ul allow script (path_Base head) ws))
      | _ \<Rightarrow> [])"

fun check_urls :: "nat \<Rightarrow> shell_parser \<Rightarrow> url_lib \<Rightarrow> string list \<Rightarrow> string \<Rightarrow> go_error" where
  "check_urls 0 parse ul allow command = [''nesting too deep'']"
| "check_urls (Suc k) parse ul allow command =
     (if allow = [] then []
      else
        (case parse command of
           Inl e \<Rightarrow> [''parse command: '' @ error_text e]
         | Inr f \<Rightarrow> walk (first_error (url_check_node parse (Suc k) ul allow (check_urls k parse ul allow))) f []))"

definition checkURLAllowlist :: "shell_parser \<Rightarrow> url_lib \<Rightarrow> string list \<Rightarrow> string \<Rightarrow> go_error" where
  "checkURLAllowlist parse ul allow command = check_urls (Suc (length command)) parse ul allow command"

section \<open>What an accepted command runs\<close>

text \<open>
  What a command executes, by the name and the arguments of the call, as the manuals of the shell and of
  \<^verbatim>\<open>env\<close> have it, for the calls whose first word is static: the calls in its syntax tree; the
  utility that \<^verbatim>\<open>env\<close> starts after its options \<^verbatim>\<open>-i\<close> and \<^verbatim>\<open>-u NAME\<close> and its assignments;
  and what the script executes that is the argument of \<^verbatim>\<open>-c\<close>, the first argument of
  \<^verbatim>\<open>bash\<close> or \<^verbatim>\<open>sh\<close>.
\<close>

inductive env_utility :: "shell_word list \<Rightarrow> string \<Rightarrow> shell_word list \<Rightarrow> bool" where
  utility: "staticWordValue w = Some v \<Longrightarrow> v \<noteq> [] \<Longrightarrow> \<not> Contains v ''='' \<Longrightarrow> \<not> HasPrefix v ''-'' \<Longrightarrow> env_utility (w # ws) v ws"
| assignment: "staticWordValue w = Some (name @ ''='' @ val) \<Longrightarrow> name \<noteq> [] \<Longrightarrow> \<not> HasPrefix name ''-'' \<Longrightarrow> env_utility ws v rest \<Longrightarrow> env_utility (w # ws) v rest"

inductive env_starts :: "shell_word list \<Rightarrow> string \<Rightarrow> shell_word list \<Rightarrow> bool" where
  plain_env: "env_utility ws v rest \<Longrightarrow> env_starts ws v rest"
| ignore_environment: "staticWordValue w = Some ''-i'' \<Longrightarrow> env_starts ws v rest \<Longrightarrow> env_starts (w # ws) v rest"
| unset_variable: "staticWordValue w = Some ''-u'' \<Longrightarrow> env_starts ws v rest \<Longrightarrow> env_starts (w # name # ws) v rest"

inductive executes :: "shell_parser \<Rightarrow> string \<Rightarrow> string \<Rightarrow> shell_word list \<Rightarrow> bool" for parse where
  call: "parse cmd = Inr f \<Longrightarrow> CallExpr (w # ws) ns \<in> set (subnodes f) \<Longrightarrow> staticWordValue w = Some head \<Longrightarrow>
    executes parse cmd (path_Base head) ws"
| env_call: "executes parse cmd ''env'' args \<Longrightarrow> env_starts args v rest \<Longrightarrow> executes parse cmd (path_Base v) rest"
| script_call: "executes parse cmd sh (c # w # ws) \<Longrightarrow> sh = ''bash'' \<or> sh = ''sh'' \<Longrightarrow> staticWordValue c = Some ''-c'' \<Longrightarrow>
    staticWordValue w = Some s \<Longrightarrow> executes parse s name args \<Longrightarrow> executes parse cmd name args"

text \<open>What the checker takes a command to run: it skips whatever looks like an option or an assignment of
  \<^verbatim>\<open>env\<close>, and the script of a shell is the word after the first \<^verbatim>\<open>-c\<close> anywhere.\<close>

inductive runs :: "shell_parser \<Rightarrow> string \<Rightarrow> string \<Rightarrow> shell_word list \<Rightarrow> bool" for parse where
  runs_direct: "parse cmd = Inr f \<Longrightarrow> CallExpr (w # ws) ns \<in> set (subnodes f) \<Longrightarrow> staticWordValue w = Some head \<Longrightarrow>
    runs parse cmd (path_Base head) ws"
| runs_env: "runs parse cmd ''env'' args \<Longrightarrow> parseEnvArgs args = Inr (sub, rest) \<Longrightarrow> sub \<noteq> [] \<Longrightarrow>
    runs parse cmd (path_Base sub) rest"
| runs_script: "runs parse cmd sh args \<Longrightarrow> sh = ''bash'' \<or> sh = ''sh'' \<Longrightarrow> find_c args = Some (Some w) \<Longrightarrow>
    staticWordValue w = Some s \<Longrightarrow> runs parse s name args' \<Longrightarrow> runs parse cmd name args'"

lemma checked_calls:
  assumes "runs parse cmd name args" "allow \<noteq> []" "check_urls k parse ul allow cmd = []"
  shows "\<exists>j. checkWrapperCommand ul allow (check_urls j parse ul allow) name args = []"
  using assms
proof (induction arbitrary: k rule: runs.induct)
  case (runs_direct cmd f w ws ns head)
  then obtain j where k: "k = Suc j" by (cases k) auto
  have "walk (first_error (url_check_node parse k ul allow (check_urls j parse ul allow))) f [] = []"
    using runs_direct k by simp
  then have "url_check_node parse k ul allow (check_urls j parse ul allow) (CallExpr (w # ws) ns) = []"
    using runs_direct(2) by (simp add: walk_accepts)
  then show ?case using runs_direct(3) by (auto simp: url_check_node_def)
next
  case (runs_env cmd args sub rest)
  from runs_env.IH [OF runs_env.prems] obtain j where
    "checkWrapperCommand ul allow (check_urls j parse ul allow) ''env'' args = []" by blast
  then have "checkWrapperCommand ul allow (check_urls j parse ul allow) (path_Base sub) rest = []"
    using runs_env.hyps by (simp add: checkWrapperCommand.simps [of ul allow _ "''env''"] is_fetcher_def)
  then show ?case by blast
next
  case (runs_script cmd sh args w s name args')
  from runs_script.IH(1) [OF runs_script.prems] obtain j where
    "checkWrapperCommand ul allow (check_urls j parse ul allow) sh args = []" by blast
  then have "check_urls j parse ul allow s = []"
    using runs_script.hyps(2-4) by (auto simp: checkWrapperCommand.simps [of ul allow _ sh] is_fetcher_def)
  from runs_script.IH(2) [OF runs_script.prems(1) this] show ?case .
qed

lemma env_utility_parsed: "env_utility ws v rest \<Longrightarrow> parse_env False ws = Inr (v, rest) \<and> v \<noteq> []"
proof (induction rule: env_utility.induct)
  case (assignment w name val ws v rest)
  moreover have "Contains (name @ ''='' @ val) ''=''" unfolding Contains_iff by blast
  ultimately show ?case by simp
qed simp

lemma env_starts_parsed: "env_starts ws v rest \<Longrightarrow> parse_env False ws = Inr (v, rest) \<and> v \<noteq> []"
proof (induction rule: env_starts.induct)
  case (ignore_environment w ws v rest)
  moreover have "\<not> Contains ''-i'' ''=''" "HasPrefix ''-i'' ''-''" by code_simp+
  ultimately show ?case by simp
next
  case (unset_variable w ws v rest name)
  moreover have "\<not> Contains ''-u'' ''=''" "HasPrefix ''-u'' ''-''" by code_simp+
  ultimately show ?case by simp
qed (simp add: env_utility_parsed)

lemma executes_runs: "executes parse cmd name args \<Longrightarrow> runs parse cmd name args"
proof (induction rule: executes.induct)
  case (env_call cmd args v rest)
  with env_starts_parsed [OF env_call.hyps(2)] show ?case by (auto intro: runs_env simp: parseEnvArgs_def)
next
  case (script_call cmd sh c w ws s name args)
  have "find_c (c # w # ws) = Some (Some w)" using script_call.hyps(3) by simp
  from runs_script [OF script_call.IH(1) script_call.hyps(2) this script_call.hyps(4) script_call.IH(2)] show ?case .
qed (rule runs_direct)

text \<open>A fetch that is allowed: by the option tables it has URLs, they are static, and each matches an entry.\<close>

definition fetch_allowed :: "url_lib \<Rightarrow> string list \<Rightarrow> string \<Rightarrow> shell_word list \<Rightarrow> bool" where
  "fetch_allowed ul allow name args \<longleftrightarrow> (\<exists>urls. parseCommandURLs name args = Inr urls \<and> urls \<noteq> []
     \<and> (\<forall>u \<in> set urls. \<exists>entry \<in> set allow. urlMatches ul u entry))"

lemma executed_fetch_allowed:
  assumes "checkURLAllowlist parse ul allow cmd = []" "allow \<noteq> []" "executes parse cmd name args" "is_fetcher name"
  shows "fetch_allowed ul allow name args"
proof -
  obtain j where "checkWrapperCommand ul allow (check_urls j parse ul allow) name args = []"
    using checked_calls [OF executes_runs [OF assms(3)] assms(2) assms(1) [unfolded checkURLAllowlist_def]] by blast
  then have direct: "checkDirectCurlOrWget ul allow name args = []"
    using assms(4) by (simp add: checkWrapperCommand.simps [of ul allow _ name])
  then obtain urls where urls: "parseCommandURLs name args = Inr urls" "urls \<noteq> []"
    "find (\<lambda>u. url_error ul allow u \<noteq> []) urls = None"
    by (auto simp: checkDirectCurlOrWget_def find_Some_iff split: sum.splits if_splits option.splits)
  then have "\<forall>u \<in> set urls. url_error ul allow u = []" by (simp add: find_None_iff)
  then have "\<forall>u \<in> set urls. \<exists>entry \<in> set allow. urlMatches ul u entry"
    by (auto simp: url_error_def list_ex_iff split: if_splits)
  with urls show ?thesis unfolding fetch_allowed_def by blast
qed

text \<open>C20. With a URL allowlist, take any \<^verbatim>\<open>curl\<close> or \<^verbatim>\<open>wget\<close> whose name is a static word and that an accepted
  command executes by a call in its syntax tree, by \<^verbatim>\<open>env\<close> with no options but \<^verbatim>\<open>-i\<close> and \<^verbatim>\<open>-u NAME\<close>, or
  by a script that directly follows \<^verbatim>\<open>bash -c\<close> or \<^verbatim>\<open>sh -c\<close>, nested in any way: it has at least one URL by
  the option tables, its URLs are static, and each of them matches an entry of the list.\<close>

theorem accepted_fetches_match_allowlist:
  assumes "checkURLAllowlist parse ul allow cmd = []" "allow \<noteq> []" "executes parse cmd name args" "is_fetcher name"
  shows "\<exists>urls. parseCommandURLs name args = Inr urls \<and> urls \<noteq> []
    \<and> (\<forall>u \<in> set urls. \<exists>entry \<in> set allow. urlMatches ul u entry)"
  using executed_fetch_allowed [OF assms] by (simp add: fetch_allowed_def)

section \<open>Nesting\<close>

definition nested_shorter :: "shell_parser \<Rightarrow> bool" where
  "nested_shorter parse \<longleftrightarrow> (\<forall>s f w ws ns u v. parse s = Inr f \<longrightarrow> CallExpr (w # ws) ns \<in> set (subnodes f) \<longrightarrow> u \<in> set ws \<longrightarrow>
     staticWordValue u = Some v \<longrightarrow> length v < length s)"

definition args_below :: "nat \<Rightarrow> shell_node \<Rightarrow> bool" where
  "args_below l n \<longleftrightarrow> (\<forall>w ws ns u v. CallExpr (w # ws) ns \<in> set (subnodes n) \<longrightarrow> u \<in> set ws \<longrightarrow>
     staticWordValue u = Some v \<longrightarrow> length v < l)"

lemma nested_below: "nested_shorter parse \<Longrightarrow> parse s = Inr f \<Longrightarrow> args_below (length s) f"
  unfolding nested_shorter_def args_below_def by blast

lemma c_scripts_arg: "s \<in> set (c_scripts ws) \<Longrightarrow> \<exists>u \<in> set (tl ws). staticWordValue u = Some s"
  by (induction ws) (auto split: if_splits option.splits dest: set_tlD)

lemma find_c_arg: "find_c ws = Some (Some w) \<Longrightarrow> w \<in> set ws"
  by (induction ws) (auto split: if_splits list.splits)

lemma env_arg: "parse_env b ws = Inr (sub, rest) \<Longrightarrow> set rest \<subseteq> set ws"
  by (induction b ws rule: parse_env.induct) (auto split: if_splits option.splits)

lemma fetcher_fuel:
  assumes "nested_shorter parse" "args_below l n" "l \<le> k" "l \<le> k'"
  shows "hasCurlOrWget (Suc k) parse n = hasCurlOrWget (Suc k') parse n"
  using assms(2-4)
proof (induction l arbitrary: n k k' rule: less_induct)
  case (less l)
  have "runs_fetcher parse (hasCurlOrWget k parse) m = runs_fetcher parse (hasCurlOrWget k' parse) m" if m: "m \<in> set (subnodes n)" for m
  proof -
    have "(case parse s of Inr f \<Rightarrow> hasCurlOrWget k parse f | Inl _ \<Rightarrow> False) = (case parse s of Inr f \<Rightarrow> hasCurlOrWget k' parse f | Inl _ \<Rightarrow> False)"
      if s: "s \<in> set (c_scripts (w # ws))" "m = CallExpr (w # ws) ns" for s w ws ns
    proof (cases "parse s")
      case (Inr f)
      obtain u where "u \<in> set ws" "staticWordValue u = Some s" using c_scripts_arg [OF s(1)] by auto
      then have ls: "length s < l" using less.prems(1) m s(2) unfolding args_below_def by blast
      then obtain j j' where j: "k = Suc j" "k' = Suc j'" "length s \<le> j" "length s \<le> j'"
        using less.prems(2,3) by (cases k; cases k') auto
      show ?thesis unfolding Inr j(1,2) sum.case by (rule less.IH [OF ls nested_below [OF assms(1) Inr] j(3,4)])
    qed simp
    then have "list_ex (\<lambda>s. case parse s of Inr f \<Rightarrow> hasCurlOrWget k parse f | Inl _ \<Rightarrow> False) (c_scripts (w # ws))
        = list_ex (\<lambda>s. case parse s of Inr f \<Rightarrow> hasCurlOrWget k' parse f | Inl _ \<Rightarrow> False) (c_scripts (w # ws))"
      if "m = CallExpr (w # ws) ns" for w ws ns
      using that unfolding list_ex_iff by blast
    then show ?thesis
      unfolding runs_fetcher_def by (cases m) (auto simp only: shell_node.case Let_def split: list.split option.split)
  qed
  then show ?case unfolding hasCurlOrWget.simps list_ex_iff by blast
qed

lemma wrapper_cong:
  assumes "\<forall>u \<in> set args. \<forall>s. staticWordValue u = Some s \<longrightarrow> f s = g s"
  shows "checkWrapperCommand ul allow f name args = checkWrapperCommand ul allow g name args"
  using assms
proof (induction ul allow f name args rule: checkWrapperCommand.induct)
  case (1 ul allow f name args)
  have env: "checkWrapperCommand ul allow f (path_Base sub) rest = checkWrapperCommand ul allow g (path_Base sub) rest"
    if "\<not> is_fetcher name" "name = ''env''" "parseEnvArgs args = Inr (sub, rest)" "sub \<noteq> []" for sub rest
    using 1(1) [OF that(1,2) that(3) refl that(4)] 1(2) env_arg [of False args sub rest] that(3)
    by (auto simp: parseEnvArgs_def)
  have scr: "f s = g s" if "find_c args = Some (Some w)" "staticWordValue w = Some s" for w s
    using 1(2) find_c_arg [OF that(1)] that(2) by blast
  show ?case
    using env scr by (auto simp: checkWrapperCommand.simps [of _ _ _ name] split: sum.splits option.splits)
qed

text \<open>The nesting bound is enough: more fuel does not change the verdict.\<close>

lemma check_urls_fuel:
  assumes "nested_shorter parse"
  shows "length cmd < k \<Longrightarrow> check_urls k parse ul allow cmd = checkURLAllowlist parse ul allow cmd"
  unfolding checkURLAllowlist_def
proof (induction "length cmd" arbitrary: cmd k rule: less_induct)
  case less
  obtain j where j: "k = Suc j" "length cmd \<le> j" using less.prems by (cases k) auto
  show ?case
  proof (cases "parse cmd")
    case (Inr f)
    have below: "args_below (length cmd) f" using nested_below [OF assms Inr] .
    have "url_check_node parse (Suc j) ul allow (check_urls j parse ul allow) m
        = url_check_node parse (Suc (length cmd)) ul allow (check_urls (length cmd) parse ul allow) m" if m: "m \<in> set (subnodes f)" for m
    proof -
      have sub: "args_below (length cmd) x" if "set (subnodes x) \<subseteq> set (subnodes f)" for x
        using below that unfolding args_below_def by blast
      have has: "hasCurlOrWget (Suc j) parse x = hasCurlOrWget (Suc (length cmd)) parse x" if "set (subnodes x) \<subseteq> set (subnodes f)" for x
        using fetcher_fuel [OF assms sub [OF that] j(2) order.refl] .
      have scr: "check_urls j parse ul allow s = check_urls (length cmd) parse ul allow s"
        if "m = CallExpr (w # ws) ns" "u \<in> set ws" "staticWordValue u = Some s" for w ws ns u s
      proof -
        have ls: "length s < length cmd" using below m that unfolding args_below_def by blast
        show ?thesis using less.hyps [OF ls, of j] less.hyps [OF ls, of "length cmd"] ls j(2) by simp
      qed
      have m_sub: "set (subnodes m) \<subseteq> set (subnodes f)" using subnodes_trans [OF m] .
      show ?thesis
      proof (cases m)
        case (CallExpr args ns)
        then show ?thesis
          using wrapper_cong [of "tl args" "check_urls j parse ul allow" "check_urls (length cmd) parse ul allow"] scr
          by (cases args) (auto simp: url_check_node_def split: option.splits)
      next
        case (BinaryCmd opr x y)
        have "set (subnodes y) \<subseteq> set (subnodes m)" by (subst (2) subnodes.simps) (auto simp: BinaryCmd)
        with has [of y] m_sub BinaryCmd show ?thesis by (simp add: url_check_node_def)
      next
        case (Stmt rs ns)
        with has [OF m_sub] show ?thesis by (simp add: url_check_node_def)
      qed (simp_all add: url_check_node_def)
    qed
    then have "walk (first_error (url_check_node parse (Suc j) ul allow (check_urls j parse ul allow))) f []
        = walk (first_error (url_check_node parse (Suc (length cmd)) ul allow (check_urls (length cmd) parse ul allow))) f []"
      by (rule walk_first_cong)
    with Inr j show ?thesis by simp
  qed (simp add: j)
qed

section \<open>Gaps\<close>

lemma checked_single_call:
  assumes "parse cmd = Inr (CallExpr ((Lit head # []) # ws) [])"
    and "checkWrapperCommand ul allow (check_urls (length cmd) parse ul allow) (path_Base head) ws = []"
  shows "checkURLAllowlist parse ul allow cmd = []"
proof -
  have "subnodes (CallExpr ([Lit head] # ws) []) = [CallExpr ([Lit head] # ws) []]" by (simp add: subnodes.simps)
  with assms show ?thesis by (simp add: checkURLAllowlist_def walk_accepts url_check_node_def)
qed

text \<open>The argument of \<^verbatim>\<open>env -C\<close> is taken for the command \<^verbatim>\<open>env\<close> starts, so the \<^verbatim>\<open>curl\<close> after it is not
  seen: any URL is accepted.\<close>

theorem env_chdir_hides_fetch:
  assumes "parse cmd = Inr (CallExpr [[Lit ''env''], [Lit ''-C''], [Lit ''/tmp''], [Lit ''curl''], [Lit u]] [])"
  shows "checkURLAllowlist parse ul allow cmd = []"
proof -
  have "path_Base ''env'' = ''env''" "path_Base ''/tmp'' = ''tmp''" by code_simp+
  with assms show ?thesis
    by (intro checked_single_call [of parse cmd, OF assms])
       (simp add: checkWrapperCommand.simps [of _ _ _ "''env''"] checkWrapperCommand.simps [of _ _ _ "''tmp''"]
          is_fetcher_def parseEnvArgs_def HasPrefix_def)
qed

text \<open>Any \<^verbatim>\<open>-c\<close> among the arguments makes a script file acceptable, also one that the shell passes
  on to the script.\<close>

theorem script_file_with_c_accepted:
  assumes "parse cmd = Inr (CallExpr [[Lit ''bash''], [Lit file], [Lit ''-c''], [Lit ''true'']] [])"
    and "file \<noteq> ''-c''" "parse ''true'' = Inr (CallExpr [[Lit ''true'']] [])" "cmd \<noteq> []"
  shows "checkURLAllowlist parse ul allow cmd = []"
proof -
  have base: "path_Base ''bash'' = ''bash''" "path_Base ''true'' = ''true''" by code_simp+
  have w: "checkWrapperCommand ul allow s ''true'' [] = []" for s
    by (simp add: checkWrapperCommand.simps [of _ _ _ "''true''"] is_fetcher_def hasArgCurlOrWget_def)
  obtain k where k: "length cmd = Suc k" using assms(4) by (cases cmd) auto
  have sub: "subnodes (CallExpr [[Lit ''true'']] []) = [CallExpr [[Lit ''true'']] []]" by (simp add: subnodes.simps)
  have "check_urls (Suc k) parse ul allow ''true'' = []"
    using assms(3) by (simp add: walk_accepts sub url_check_node_def base w)
  with assms(2) k show ?thesis
    by (intro checked_single_call [of parse cmd, OF assms(1)])
       (simp add: base checkWrapperCommand.simps [of _ _ _ "''bash''"] is_fetcher_def)
qed

section \<open>An accepted command\<close>

definition url_example :: url_lib where
  "url_example =
     \<lparr>ul_Parse = (\<lambda>s. if s = ''https://ok.org'' then Some \<lparr>u_Scheme = ''https'', u_Host = ''ok.org'', u_Path = []\<rparr>
                     else if s = ''https://ok.org/x'' then Some \<lparr>u_Scheme = ''https'', u_Host = ''ok.org'', u_Path = ''/x''\<rparr> else None),
      ul_ToLower = (\<lambda>s. s)\<rparr>"

definition fetch_tree :: shell_node where
  "fetch_tree = Stmt [] [CallExpr [[Lit ''env''], [Lit ''A=1''], [Lit ''curl''], [Lit ''-s''], [SglQuoted ''https://ok.org/x'']] []]"

definition fetch_parser :: shell_parser where
  "fetch_parser s = (if s = ''fetch'' then Inr fetch_tree else Inl [''syntax error''])"

theorem accepted_fetches_match_allowlist_witness:
  "\<exists>urls. parseCommandURLs ''curl'' [[Lit ''-s''], [SglQuoted ''https://ok.org/x'']] = Inr urls \<and> urls \<noteq> []
    \<and> (\<forall>u \<in> set urls. urlMatches url_example u ''https://ok.org'')"
proof -
  have acc: "checkURLAllowlist fetch_parser url_example [''https://ok.org''] ''fetch'' = []" by code_simp
  have base: "path_Base ''env'' = ''env''" "path_Base ''curl'' = ''curl''" by code_simp+
  have "executes fetch_parser ''fetch'' (path_Base ''env'') [[Lit ''A=1''], [Lit ''curl''], [Lit ''-s''], [SglQuoted ''https://ok.org/x'']]"
    by (rule call [of _ _ fetch_tree "[Lit ''env'']" _ "[]"]) (simp_all add: fetch_parser_def fetch_tree_def subnodes.simps)
  moreover have "env_starts [[Lit ''A=1''], [Lit ''curl''], [Lit ''-s''], [SglQuoted ''https://ok.org/x'']] ''curl''
      [[Lit ''-s''], [SglQuoted ''https://ok.org/x'']]"
    by (rule plain_env, rule assignment [of _ "''A''" "''1''"], simp, simp, simp add: HasPrefix_def, rule utility) code_simp+
  ultimately have "executes fetch_parser ''fetch'' (path_Base ''curl'') [[Lit ''-s''], [SglQuoted ''https://ok.org/x'']]"
    unfolding base(1) by (rule env_call)
  with accepted_fetches_match_allowlist [OF acc] show ?thesis by (simp add: base is_fetcher_def)
qed

end
