(* ===== verification/Workspace.thy ===== *)
theory Workspace
  imports Go_Filepath
begin

text \<open>
  The directories a skill may touch, \<^verbatim>\<open>llm/workspace.go\<close>.  Every file tool and every bash
  redirection resolves its path here.  The file system is a parameter: what \<^verbatim>\<open>Lstat\<close>,
  \<^verbatim>\<open>EvalSymlinks\<close>, \<^verbatim>\<open>Stat\<close>, \<^verbatim>\<open>Getwd\<close> and \<^verbatim>\<open>MkdirTemp\<close> answer.  The main lemma says that a
  resolved path lies below one of the roots after its symbolic links are followed.
\<close>

section \<open>The file system\<close>

datatype lstat_result = Exists | NotExist | LstatErr go_error

record fs =
  fs_Lstat :: "string \<Rightarrow> lstat_result"
  fs_EvalSymlinks :: "string \<Rightarrow> go_error + string"
  fs_Stat :: "string \<Rightarrow> go_error + bool"   \<comment> \<open>is it a directory\<close>
  fs_Getwd :: "go_error + string"
  fs_MkdirTemp :: "go_error + string"

text \<open>What the code relies on: links are followed to a cleaned path, and a cleaned absolute path
  stays absolute; the working directory is absolute.\<close>

definition fs_ok :: "fs \<Rightarrow> bool" where
  "fs_ok fs \<longleftrightarrow> (\<forall>p r. clean_abs p \<longrightarrow> fs_EvalSymlinks fs p = Inr r \<longrightarrow> clean_abs r)
     \<and> (\<forall>wd. fs_Getwd fs = Inr wd \<longrightarrow> IsAbs wd)"

definition path_Abs :: "fs \<Rightarrow> string \<Rightarrow> go_error + string" where
  "path_Abs fs p =
     (if IsAbs p then Inr (Clean p)
      else (case fs_Getwd fs of Inl e \<Rightarrow> Inl e | Inr wd \<Rightarrow> Inr (path_Join [wd, p])))"

section \<open>Roots\<close>

record workspace =
  ws_skillRoot :: string
  ws_tempRoot :: string
  ws_extraRoots :: "string list"

definition canonicalDir :: "fs \<Rightarrow> string \<Rightarrow> go_error + string" where
  "canonicalDir fs root =
     (if root = [] then Inl [''skill: workspace root is required'']
      else
        (case path_Abs fs root of
           Inl e \<Rightarrow> Inl (map (\<lambda>m. ''skill: resolve workspace root: '' @ m) e)
         | Inr absRoot \<Rightarrow>
             (case fs_EvalSymlinks fs absRoot of
                Inl e \<Rightarrow> Inl (map (\<lambda>m. ''skill: resolve workspace root symlinks: '' @ m) e)
              | Inr realRoot \<Rightarrow>
                  (case fs_Stat fs realRoot of
                     Inl e \<Rightarrow> Inl e
                   | Inr dir \<Rightarrow> if dir then Inr realRoot else Inl [''skill path is not a directory'']))))"

definition newTempWorkspaceRoot :: "fs \<Rightarrow> go_error + workspace" where
  "newTempWorkspaceRoot fs =
     (case fs_MkdirTemp fs of
        Inl e \<Rightarrow> Inl (map (\<lambda>m. ''skill: create temp workspace: '' @ m) e)
      | Inr tempRoot \<Rightarrow>
          (case canonicalDir fs tempRoot of
             Inl e \<Rightarrow> Inl e
           | Inr real \<Rightarrow> Inr \<lparr>ws_skillRoot = [], ws_tempRoot = real, ws_extraRoots = []\<rparr>))"

definition newWorkspaceRoot :: "fs \<Rightarrow> string \<Rightarrow> go_error + workspace" where
  "newWorkspaceRoot fs root =
     (case canonicalDir fs root of
        Inl e \<Rightarrow> Inl e
      | Inr skillRoot \<Rightarrow>
          (case newTempWorkspaceRoot fs of
             Inl e \<Rightarrow> Inl e
           | Inr w \<Rightarrow> Inr (w\<lparr>ws_skillRoot := skillRoot\<rparr>)))"

fun canonical_dirs :: "fs \<Rightarrow> string list \<Rightarrow> string list \<Rightarrow> go_error + string list" where
  "canonical_dirs fs [] roots = Inr roots"
| "canonical_dirs fs (dir # dirs) roots =
     (case canonicalDir fs dir of
        Inl e \<Rightarrow> Inl e
      | Inr root \<Rightarrow> canonical_dirs fs dirs (if root \<in> set roots then roots else roots @ [root]))"

definition setAccessibleDirs :: "fs \<Rightarrow> string list \<Rightarrow> workspace \<Rightarrow> go_error \<times> workspace" where
  "setAccessibleDirs fs dirs w =
     (case canonical_dirs fs dirs [] of
        Inl e \<Rightarrow> (e, w)
      | Inr roots \<Rightarrow> ([], w\<lparr>ws_extraRoots := roots\<rparr>))"

definition ws_roots :: "workspace \<Rightarrow> string list" where
  "ws_roots w =
     (if ws_tempRoot w \<noteq> [] then [ws_tempRoot w] else []) @ (if ws_skillRoot w \<noteq> [] then [ws_skillRoot w] else [])
     @ ws_extraRoots w"

section \<open>Resolution\<close>

definition pathWithinRoot :: "string \<Rightarrow> string \<Rightarrow> bool" where
  "pathWithinRoot root target =
     (case path_Rel root target of
        Inl _ \<Rightarrow> False
      | Inr rel \<Rightarrow> \<not> (rel = dotdot \<or> HasPrefix rel (dotdot @ [slash])))"

text \<open>The loop of \<^verbatim>\<open>resolvePathExistingPrefix\<close>: \<open>missing\<close> holds the names cut off so far.\<close>

function resolve_loop :: "fs \<Rightarrow> string list \<Rightarrow> string \<Rightarrow> go_error + string" where
  "resolve_loop fs missing current =
     (case fs_Lstat fs current of
        Exists \<Rightarrow>
          (case fs_EvalSymlinks fs current of
             Inl e \<Rightarrow> Inl e
           | Inr resolved \<Rightarrow> Inr (foldl (\<lambda>r m. path_Join [r, m]) resolved (rev missing)))
      | LstatErr e \<Rightarrow> Inl e
      | NotExist \<Rightarrow>
          let parent = path_Dir current in
          if parent = current then Inl [''path cannot be resolved'']
          else resolve_loop fs (missing @ [path_Base current]) parent)"
  by pat_completeness auto
termination
  by (relation "measure (\<lambda>(_, _, current). dir_measure current)") (auto simp: path_Dir_shrinks)

declare resolve_loop.simps [simp del]

definition resolvePathExistingPrefix :: "fs \<Rightarrow> string \<Rightarrow> go_error + string" where
  "resolvePathExistingPrefix fs target = resolve_loop fs [] target"

definition errEscapes :: "string \<Rightarrow> go_error" where
  "errEscapes p = [''path '' @ p @ '' escapes workspace root'']"

definition resolveExistingPrefix :: "fs \<Rightarrow> string \<Rightarrow> string \<Rightarrow> go_error + string" where
  "resolveExistingPrefix fs root target =
     (case resolvePathExistingPrefix fs target of
        Inl e \<Rightarrow> Inl e
      | Inr resolved \<Rightarrow> if \<not> pathWithinRoot root resolved then Inl (errEscapes target) else Inr resolved)"

definition resolveWorkspacePath :: "fs \<Rightarrow> string \<Rightarrow> string \<Rightarrow> go_error + string" where
  "resolveWorkspacePath fs root rel =
     (if rel = [] then Inl [''path is required'']
      else if IsAbs rel then Inl [''path must be relative to the workspace root'']
      else
        let cleanRel = Clean rel in
        if cleanRel = dotdot \<or> HasPrefix cleanRel (dotdot @ [slash]) then Inl (errEscapes rel)
        else
          (case resolveExistingPrefix fs root (Clean (path_Join [root, cleanRel])) of
             Inl e \<Rightarrow> Inl e
           | Inr resolved \<Rightarrow> if \<not> pathWithinRoot root resolved then Inl (errEscapes rel) else Inr resolved))"

definition resolveAbsolutePath :: "fs \<Rightarrow> workspace \<Rightarrow> string \<Rightarrow> go_error + string" where
  "resolveAbsolutePath fs w p =
     (case resolvePathExistingPrefix fs (Clean p) of
        Inl e \<Rightarrow> Inl e
      | Inr resolved \<Rightarrow>
          if list_ex (\<lambda>root. root \<noteq> [] \<and> pathWithinRoot root resolved) (ws_roots w) then Inr resolved
          else Inl (errEscapes p))"

definition ResolvePath :: "fs \<Rightarrow> workspace option \<Rightarrow> string \<Rightarrow> go_error + string" where
  "ResolvePath fs ws rel =
     (case ws of
        None \<Rightarrow> Inl [''workspace root is not configured'']
      | Some w \<Rightarrow> if IsAbs rel then resolveAbsolutePath fs w rel else resolveWorkspacePath fs (ws_tempRoot w) rel)"

section \<open>Containment\<close>

definition below :: "string \<Rightarrow> string \<Rightarrow> bool" where
  "below root p \<longleftrightarrow> prefix (path_comps root) (path_comps p)"

lemma within_below:
  assumes "clean_abs root" "clean_abs p"
  shows "pathWithinRoot root p \<longleftrightarrow> below root p"
proof -
  have abs: "IsAbs root" "IsAbs p" using assms by (simp_all add: clean_abs_def)
  obtain bs ts where st: "strip_common (path_comps root) (path_comps p) = (bs, ts)"
    by (cases "strip_common (path_comps root) (path_comps p)")
  show ?thesis
  proof (cases "path_comps root = path_comps p")
    case True
    then show ?thesis using Clean_eq_abs [OF abs]
      by (simp add: pathWithinRoot_def path_Rel_def below_def dot_def dotdot_def HasPrefix_def)
  next
    case False
    then have ne: "Clean root \<noteq> Clean p" using Clean_eq_abs [OF abs] by simp
    show ?thesis
    proof (cases "bs = []")
      case True
      then have ts: "path_comps p = path_comps root @ ts" using strip_common_prefix st by simp
      then have "\<forall>c \<in> set ts. plain_comp c" using abs_comps_plain [OF abs(2)] by simp
      from Join_plain [OF this] True ts st ne abs show ?thesis by (simp add: pathWithinRoot_def path_Rel_def below_def)
    next
      case bs: False
      have "\<not> below root p"
      proof
        assume "below root p"
        then obtain rest where "path_comps p = path_comps root @ rest" by (auto simp: below_def prefix_def)
        with st strip_common_of_prefix bs show False by simp
      qed
      moreover have "\<not> pathWithinRoot root p"
        using Join_dotdot [OF bs, of ts] st ne abs by (auto simp: pathWithinRoot_def path_Rel_def)
      ultimately show ?thesis by simp
    qed
  qed
qed

text \<open>Joining a name to a cleaned absolute path.\<close>

lemma foldl_Join:
  "clean_abs r \<Longrightarrow> \<forall>m \<in> set ms. plain_comp m \<Longrightarrow> foldl (\<lambda>r m. path_Join [r, m]) r ms = of_comps True (path_comps r @ ms)"
proof (induction ms arbitrary: r)
  case Nil
  then show ?case using clean_abs_comps by simp
next
  case (Cons m ms)
  let ?cs = "path_comps r @ [m]"
  have cs: "\<forall>c \<in> set ?cs. plain_comp c" using clean_abs_comps [OF Cons.prems(1)] Cons.prems(2) by simp
  have "foldl (\<lambda>r m. path_Join [r, m]) (of_comps True ?cs) ms = of_comps True (?cs @ ms)"
    using Cons.IH [OF clean_abs_of_comps [OF cs]] Cons.prems(2) comps_of_abs(1) [OF cs] by simp
  then show ?case using Join_name [OF Cons.prems(1)] Cons.prems(2) by simp
qed

text \<open>
  What a resolution returns: the longest existing ancestor with its links followed, and the
  names below it that do not exist yet.
\<close>

definition resolves_to :: "fs \<Rightarrow> string list \<Rightarrow> string \<Rightarrow> bool" where
  "resolves_to fs cs r \<longleftrightarrow> (\<exists>k \<le> length cs. \<exists>real.
     fs_Lstat fs (of_comps True (take k cs)) = Exists \<and> fs_EvalSymlinks fs (of_comps True (take k cs)) = Inr real
     \<and> (\<forall>j. k < j \<and> j \<le> length cs \<longrightarrow> fs_Lstat fs (of_comps True (take j cs)) = NotExist)
     \<and> clean_abs real \<and> r = of_comps True (path_comps real @ drop k cs))"

lemma Dir_root: "path_Dir (of_comps True []) = of_comps True []"
  by (simp add: path_Dir_def of_comps_def upto_slash_def Clean_def path_comps_def)

lemma resolve_loop_result:
  assumes "fs_ok fs" "\<forall>c \<in> set cs. plain_comp c" "\<forall>m \<in> set missing. plain_comp m"
    and "resolve_loop fs missing (of_comps True cs) = Inr r"
  shows "\<exists>k \<le> length cs. \<exists>real.
     fs_Lstat fs (of_comps True (take k cs)) = Exists \<and> fs_EvalSymlinks fs (of_comps True (take k cs)) = Inr real
     \<and> (\<forall>j. k < j \<and> j \<le> length cs \<longrightarrow> fs_Lstat fs (of_comps True (take j cs)) = NotExist)
     \<and> clean_abs real \<and> r = of_comps True (path_comps real @ drop k cs @ rev missing)"
  using assms(2-4)
proof (induction cs arbitrary: missing rule: rev_induct)
  case Nil
  then obtain real where real: "fs_Lstat fs (of_comps True []) = Exists" "fs_EvalSymlinks fs (of_comps True []) = Inr real"
    "r = foldl (\<lambda>r m. path_Join [r, m]) real (rev missing)"
    using Dir_root by (auto simp: resolve_loop.simps [of fs missing] Let_def split: lstat_result.splits sum.splits if_splits)
  have "clean_abs real" using assms(1) clean_abs_of_comps [of "[]"] real(2) by (auto simp: fs_ok_def)
  with real Nil(2) foldl_Join [of real "rev missing"] show ?case by simp
next
  case (snoc c cs)
  let ?p = "of_comps True (cs @ [c])"
  have plain: "\<forall>c \<in> set cs. plain_comp c" "plain_comp c" using snoc.prems(1) by simp_all
  have up: "path_Dir ?p = of_comps True cs" "path_Base ?p = c" using Dir_Base_abs plain by blast+
  have ne: "of_comps True cs \<noteq> ?p" using comps_of_abs(1) [OF snoc.prems(1)] comps_of_abs(1) [OF plain(1)] by auto
  show ?case
  proof (cases "fs_Lstat fs ?p")
    case Exists
    with snoc.prems(3) obtain real where real: "fs_EvalSymlinks fs ?p = Inr real"
      "r = foldl (\<lambda>r m. path_Join [r, m]) real (rev missing)"
      by (auto simp: resolve_loop.simps [of fs missing] split: sum.splits)
    have "clean_abs real" using assms(1) clean_abs_of_comps [OF snoc.prems(1)] real(1) by (auto simp: fs_ok_def)
    with real snoc.prems(2) Exists foldl_Join [of real "rev missing"] show ?thesis
      by (intro exI [of _ "length (cs @ [c])"]) auto
  next
    case NotExist
    have miss: "\<forall>m \<in> set (missing @ [c]). plain_comp m" using snoc.prems(2) plain(2) by simp
    have "resolve_loop fs (missing @ [c]) (of_comps True cs) = Inr r"
      using snoc.prems(3) NotExist up ne by (simp add: resolve_loop.simps [of fs missing] Let_def)
    from snoc.IH [OF plain(1) miss this] obtain k real where
      k: "k \<le> length cs" "fs_Lstat fs (of_comps True (take k cs)) = Exists" "fs_EvalSymlinks fs (of_comps True (take k cs)) = Inr real"
        "\<forall>j. k < j \<and> j \<le> length cs \<longrightarrow> fs_Lstat fs (of_comps True (take j cs)) = NotExist" "clean_abs real"
        "r = of_comps True (path_comps real @ drop k cs @ rev (missing @ [c]))" by blast
    have "\<forall>j. k < j \<and> j \<le> length (cs @ [c]) \<longrightarrow> fs_Lstat fs (of_comps True (take j (cs @ [c]))) = NotExist"
      using k(4) NotExist by (auto simp: le_Suc_eq)
    with k show ?thesis by (intro exI [of _ k]) simp
  next
    case (LstatErr e)
    with snoc.prems(3) show ?thesis by (simp add: resolve_loop.simps [of fs missing])
  qed
qed

lemma resolve_result:
  assumes "fs_ok fs" "IsAbs p" "resolvePathExistingPrefix fs (Clean p) = Inr r"
  shows "resolves_to fs (path_comps p) r \<and> clean_abs r"
proof -
  have plain: "\<forall>c \<in> set (path_comps p). plain_comp c" using abs_comps_plain [OF assms(2)] .
  have "Clean p = of_comps True (path_comps p)" using assms(2) by (simp add: Clean_def)
  with resolve_loop_result [OF assms(1) plain, of "[]" r] assms(3) have res: "resolves_to fs (path_comps p) r"
    by (simp add: resolvePathExistingPrefix_def resolves_to_def)
  then obtain k real where "clean_abs real" "r = of_comps True (path_comps real @ drop k (path_comps p))"
    by (auto simp: resolves_to_def)
  moreover have "\<forall>c \<in> set (path_comps real @ drop k (path_comps p)). plain_comp c"
    using clean_abs_comps [OF \<open>clean_abs real\<close>] plain by (auto dest: in_set_dropD)
  ultimately show ?thesis using res clean_abs_of_comps by simp
qed

section \<open>Reachable workspaces\<close>

definition ws_ok :: "workspace \<Rightarrow> bool" where
  "ws_ok w \<longleftrightarrow> clean_abs (ws_tempRoot w) \<and> (ws_skillRoot w = [] \<or> clean_abs (ws_skillRoot w))
     \<and> (\<forall>r \<in> set (ws_extraRoots w). clean_abs r)"

definition ws_start :: "fs \<Rightarrow> workspace \<Rightarrow> bool" where
  "ws_start fs w \<longleftrightarrow> newTempWorkspaceRoot fs = Inr w \<or> (\<exists>root. newWorkspaceRoot fs root = Inr w)"

inductive ws_step :: "fs \<Rightarrow> workspace \<Rightarrow> workspace \<Rightarrow> bool" for fs where
  "ws_step fs w (snd (setAccessibleDirs fs dirs w))"

inductive_cases ws_stepE: "ws_step fs w w'"

lemma abs_join: "IsAbs wd \<Longrightarrow> clean_abs (path_Join [wd, p])"
proof -
  assume a: "IsAbs wd"
  then obtain x where x: "wd = slash # x" by (cases wd) auto
  have "IsAbs (wd @ slash # p)" by (simp add: x)
  then show ?thesis using clean_abs_Clean x by (simp add: path_Join_def)
qed

lemma canonicalDir_ok: "fs_ok fs \<Longrightarrow> canonicalDir fs root = Inr r \<Longrightarrow> clean_abs r"
proof -
  assume fs: "fs_ok fs" and c: "canonicalDir fs root = Inr r"
  from c obtain a where a: "path_Abs fs root = Inr a" "fs_EvalSymlinks fs a = Inr r"
    by (auto simp: canonicalDir_def split: if_splits sum.splits)
  have "clean_abs a"
    using a(1) fs clean_abs_Clean abs_join by (auto simp: path_Abs_def fs_ok_def split: if_splits sum.splits)
  with fs a(2) show ?thesis by (auto simp: fs_ok_def)
qed

lemma canonical_dirs_ok:
  assumes "fs_ok fs"
  shows "canonical_dirs fs dirs roots = Inr rs \<Longrightarrow> \<forall>r \<in> set roots. clean_abs r \<Longrightarrow> \<forall>r \<in> set rs. clean_abs r"
proof (induction dirs arbitrary: roots)
  case (Cons dir dirs)
  from Cons.prems(1) obtain root where root: "canonicalDir fs dir = Inr root"
    "canonical_dirs fs dirs (if root \<in> set roots then roots else roots @ [root]) = Inr rs"
    by (auto split: sum.splits)
  have "\<forall>r \<in> set (if root \<in> set roots then roots else roots @ [root]). clean_abs r"
    using Cons.prems(2) canonicalDir_ok [OF assms root(1)] by simp
  with Cons.IH [OF root(2)] show ?case by blast
qed simp

lemma new_temp_ok: "fs_ok fs \<Longrightarrow> newTempWorkspaceRoot fs = Inr w \<Longrightarrow> ws_ok w"
  by (auto simp: newTempWorkspaceRoot_def ws_ok_def canonicalDir_ok split: sum.splits)

lemma new_root_ok:
  assumes "fs_ok fs" "newWorkspaceRoot fs root = Inr w"
  shows "ws_ok w"
proof -
  obtain s v where "canonicalDir fs root = Inr s" "newTempWorkspaceRoot fs = Inr v" "w = v\<lparr>ws_skillRoot := s\<rparr>"
    using assms(2) by (auto simp: newWorkspaceRoot_def split: sum.splits)
  with canonicalDir_ok [OF assms(1)] new_temp_ok [OF assms(1)] show ?thesis by (auto simp: ws_ok_def)
qed

interpretation workspace_inv: inductive_invariant "ws_start fs" "ws_step fs" "\<lambda>w. fs_ok fs \<longrightarrow> ws_ok w" for fs
proof
  show "fs_ok fs \<longrightarrow> ws_ok w" if "ws_start fs w" for w
    using that new_temp_ok new_root_ok by (auto simp: ws_start_def)
  show "fs_ok fs \<longrightarrow> ws_ok w'" if "fs_ok fs \<longrightarrow> ws_ok w" "ws_step fs w w'" for w w'
  proof
    assume fs: "fs_ok fs"
    from that(2) obtain dirs where "w' = snd (setAccessibleDirs fs dirs w)" by (rule ws_stepE)
    then show "ws_ok w'"
      using that(1) fs canonical_dirs_ok [OF fs, of dirs "[]"] by (auto simp: setAccessibleDirs_def ws_ok_def split: sum.splits)
  qed
qed

text \<open>What a path of a well-formed workspace resolves to.\<close>

lemma resolve_inside:
  assumes fs: "fs_ok fs" and ok: "ws_ok w" and res: "ResolvePath fs (Some w) p = Inr r"
  shows "clean_abs r \<and> (\<exists>root \<in> set (ws_roots w). below root r) \<and> (IsAbs p \<or> below (ws_tempRoot w) r)
    \<and> (\<exists>cs. resolves_to fs cs r)"
proof -
  have temp: "clean_abs (ws_tempRoot w)" "ws_tempRoot w \<in> set (ws_roots w)"
    using ok by (auto simp: ws_ok_def ws_roots_def clean_abs_def)
  show ?thesis
  proof (cases "IsAbs p")
    case True
    with res obtain root where r: "resolvePathExistingPrefix fs (Clean p) = Inr r" "root \<in> set (ws_roots w)"
      "root \<noteq> []" "pathWithinRoot root r"
      by (auto simp: ResolvePath_def resolveAbsolutePath_def list_ex_iff split: sum.splits if_splits)
    have "clean_abs root" using ok r(2,3) by (auto simp: ws_ok_def ws_roots_def split: if_splits)
    with resolve_result [OF fs True r(1)] r(2,4) True within_below show ?thesis by auto
  next
    case False
    let ?t = "path_Join [ws_tempRoot w, Clean p]"
    have r: "resolvePathExistingPrefix fs (Clean ?t) = Inr r" "pathWithinRoot (ws_tempRoot w) r"
      using res False
      by (auto simp: ResolvePath_def resolveWorkspacePath_def resolveExistingPrefix_def Let_def split: sum.splits if_splits)
    have "IsAbs ?t" using abs_join temp(1) by (simp add: clean_abs_def)
    with resolve_result [OF fs _ r(1)] r(2) temp within_below show ?thesis by auto
  qed
qed

text \<open>C19. Whatever path a tool asks for and whatever links are in the way, a path the workspace
  resolves is a cleaned absolute path below the temporary directory, the skill directory or an
  accessible directory (relative ones below the temporary directory); it is the longest
  existing ancestor with its links followed, extended by names that do not exist.\<close>

theorem resolved_paths_stay_inside:
  assumes "fs_ok fs" "reach (ws_start fs) (ws_step fs) w"
    and "ResolvePath fs (Some w) p = Inr r"
  shows "clean_abs r \<and> (\<exists>root \<in> set (ws_roots w). below root r) \<and> (IsAbs p \<or> below (ws_tempRoot w) r)
    \<and> (\<exists>cs. resolves_to fs cs r)"
  using resolve_inside [OF assms(1) _ assms(3)] workspace_inv.reach_inv [OF assms(2)] assms(1) by blast

text \<open>A playground with a link that stays inside and one that leaves it.\<close>

definition play_fs :: fs where
  "play_fs =
     \<lparr>fs_Lstat = (\<lambda>p. if p \<in> set [''/'', ''/tmp'', ''/tmp/w'', ''/tmp/w/data'', ''/tmp/w/link'', ''/tmp/w/out''] then Exists else NotExist),
      fs_EvalSymlinks = (\<lambda>p. Inr (if p = ''/tmp/w/link'' then ''/tmp/w/data'' else if p = ''/tmp/w/out'' then ''/etc'' else p)),
      fs_Stat = (\<lambda>_. Inr True), fs_Getwd = Inr ''/'', fs_MkdirTemp = Inr ''/tmp/w''\<rparr>"

definition play_ws :: workspace where
  "play_ws = \<lparr>ws_skillRoot = [], ws_tempRoot = ''/tmp/w'', ws_extraRoots = []\<rparr>"

theorem resolved_paths_stay_inside_witness:
  "ResolvePath play_fs (Some play_ws) ''link/sub/../new.txt'' = Inr ''/tmp/w/data/new.txt''
    \<and> below ''/tmp/w'' ''/tmp/w/data/new.txt''
    \<and> ResolvePath play_fs (Some play_ws) ''out/passwd'' = Inl (errEscapes ''/tmp/w/out/passwd'')"
proof -
  have "clean_abs ''/tmp/w/data''" "clean_abs ''/etc''" "IsAbs ''/''" by code_simp+
  then have ok: "fs_ok play_fs" by (auto simp: fs_ok_def play_fs_def)
  have "newTempWorkspaceRoot play_fs = Inr play_ws" by code_simp
  then have re: "reach (ws_start play_fs) (ws_step play_fs) play_ws" by (intro reach_start) (simp add: ws_start_def)
  have r: "ResolvePath play_fs (Some play_ws) ''link/sub/../new.txt'' = Inr ''/tmp/w/data/new.txt''" by code_simp
  have "\<not> IsAbs ''link/sub/../new.txt''" by code_simp
  with resolved_paths_stay_inside [OF ok re r] have "below (ws_tempRoot play_ws) ''/tmp/w/data/new.txt''" by blast
  moreover have "ResolvePath play_fs (Some play_ws) ''out/passwd'' = Inl (errEscapes ''/tmp/w/out/passwd'')" by code_simp
  ultimately show ?thesis using r by (simp add: play_ws_def)
qed

end
