(* ===== verification/Bash_Guard.thy ===== *)
theory Bash_Guard
  imports Url_Allowlist Workspace Tool_Policy
begin

text \<open>
  The bash tool, \<^verbatim>\<open>llm/internal/builtin/bash.go\<close> with the allowlist of \<^verbatim>\<open>allowlist.go\<close> and the
  configuration of \<^verbatim>\<open>builtin.go\<close>: the checks on heads and redirections, the command policies,
  and the handler that runs a command after all of them.

  The shell parser, the decoder of the arguments and the operating system are parameters, the
  fields of \<open>bash_env\<close>; the file system is part of the world the commands act on.
\<close>

section \<open>Configuration\<close>

definition defaultAllowlist :: "string list" where
  "defaultAllowlist =
     [''cat'', ''head'', ''tail'', ''wc'', ''file'', ''stat'', ''ls'', ''find'', ''du'', ''df'', ''echo'',
      ''printf'', ''grep'', ''egrep'', ''fgrep'', ''sed'', ''awk'', ''cut'', ''sort'', ''uniq'', ''tr'',
      ''tee'', ''diff'', ''basename'', ''dirname'', ''realpath'', ''set'', ''mkdir'', ''touch'', ''cp'',
      ''ln'', ''tar'', ''zip'', ''unzip'', ''gzip'', ''gunzip'', ''bzip2'', ''bunzip2'', ''xz'', ''unxz'',
      ''pwd'', ''env'', ''which'', ''date'', ''sleep'', ''xargs'', ''test'', ''true'', ''false'', ''jq'',
      ''yq'', ''curl'', ''wget'', ''make'', ''cmake'', ''ninja'', ''python'', ''python3'', ''pip'',
      ''pip3'', ''node'', ''npm'', ''pnpm'', ''npx'', ''yarn'', ''go'', ''gofmt'', ''cargo'', ''rustc'',
      ''rustup'', ''uv'', ''uvx'', ''poetry'', ''pipx'', ''conda'', ''mamba'', ''micromamba'', ''pixi'',
      ''jupyter'', ''bash'', ''sh'', ''git'']"

record bash_config =
  bc_allowlist :: "string list option"
  bc_allowlistDisabled :: bool
  bc_urlAllowlist :: "string list"

definition resolveAllowlist :: "bash_config \<Rightarrow> string list option" where
  "resolveAllowlist c =
     (if bc_allowlistDisabled c then None
      else (case bc_allowlist c of Some l \<Rightarrow> Some l | None \<Rightarrow> Some defaultAllowlist))"

definition withAllowlistAdjust :: "string list \<Rightarrow> string list \<Rightarrow> bash_config \<Rightarrow> bash_config" where
  "withAllowlistAdjust allow block c =
     c\<lparr>bc_allowlist := Some (filter (\<lambda>n. n \<notin> set block) (defaultAllowlist @ allow)), bc_allowlistDisabled := False\<rparr>"

text \<open>The configuration \<^verbatim>\<open>Tools\<close> builds for the bash tool; the command policies are kept apart
  because the tool changes them.\<close>

definition tools_config :: "tool_set_config \<Rightarrow> bash_config" where
  "tools_config cfg =
     (withAllowlistAdjust (tsc_BashAllow cfg) (tsc_BashBlock cfg)
        \<lparr>bc_allowlist = None, bc_allowlistDisabled = False, bc_urlAllowlist = []\<rparr>)
       \<lparr>bc_urlAllowlist := tsc_BashURLAllowlist cfg\<rparr>"

section \<open>Heads and redirections\<close>

definition head_error :: "string list \<Rightarrow> shell_node \<Rightarrow> go_error" where
  "head_error allow n =
     (case n of
        CallExpr args _ \<Rightarrow>
          (case args of
             [] \<Rightarrow> []
           | w # _ \<Rightarrow>
               (case staticWordValue w of
                  None \<Rightarrow> [''dynamic command head is not allowed by the allowlist'']
                | Some head \<Rightarrow>
                    if path_Base head \<in> set allow then []
                    else [''command '' @ go_quote (path_Base head) @ '' is not in the allowlist'']))
      | _ \<Rightarrow> [])"

definition checkAllowlist :: "shell_parser \<Rightarrow> string list \<Rightarrow> string \<Rightarrow> go_error" where
  "checkAllowlist parse allow command =
     (case parse command of
        Inl e \<Rightarrow> [''parse command: '' @ error_text e]
      | Inr f \<Rightarrow> walk (first_error (head_error allow)) f [])"

definition isHeredocRedirect :: "string \<Rightarrow> bool" where
  "isHeredocRedirect opr \<longleftrightarrow> opr = ''<<'' \<or> opr = ''<<-'' \<or> opr = ''<<<''"

definition redirect_error :: "(string \<Rightarrow> go_error + string) \<Rightarrow> shell_node \<Rightarrow> go_error" where
  "redirect_error resolve n =
     (case n of
        Redirect opr target _ \<Rightarrow>
          if isHeredocRedirect opr then []
          else
            (case target of
               None \<Rightarrow> [''redirection '' @ opr @ '' missing target'']
             | Some w \<Rightarrow>
                 (case staticWordValue w of
                    None \<Rightarrow> [''redirection target for '' @ opr @ '' must be static, not dynamic'']
                  | Some v \<Rightarrow>
                      (case resolve v of
                         Inl e \<Rightarrow> [''redirection target '' @ go_quote v @ '': '' @ error_text e]
                       | Inr _ \<Rightarrow> [])))
      | _ \<Rightarrow> [])"

definition checkRedirections :: "shell_parser \<Rightarrow> (string \<Rightarrow> go_error + string) \<Rightarrow> string \<Rightarrow> go_error" where
  "checkRedirections parse resolve command =
     (case parse command of
        Inl e \<Rightarrow> [''parse command: '' @ error_text e]
      | Inr f \<Rightarrow> walk (first_error (redirect_error resolve)) f [])"

section \<open>Command policies\<close>

definition git_pair_options :: "string list" where
  "git_pair_options = [''-c'', ''-C'', ''--exec-path'', ''--git-dir'', ''--work-tree'', ''--namespace'', ''--config-env'', ''--super-prefix'']"

text \<open>Options with an attached value start with a dash as well and are dropped alone, like flags.\<close>

fun trimLeadingGitOptions :: "string list \<Rightarrow> string list" where
  "trimLeadingGitOptions [] = []"
| "trimLeadingGitOptions (token # out) =
     (if token = ''--'' then out
      else if token \<in> set git_pair_options then
        (case out of [] \<Rightarrow> [] | _ # rest \<Rightarrow> trimLeadingGitOptions rest)
      else if HasPrefix token ''-'' then trimLeadingGitOptions out
      else token # out)"

definition normalizeCommandArgs :: "string \<Rightarrow> string list \<Rightarrow> string list" where
  "normalizeCommandArgs head args = (if path_Base head \<noteq> ''git'' then args else trimLeadingGitOptions args)"

definition equalArgsPrefix :: "string list \<Rightarrow> string list \<Rightarrow> bool" where
  "equalArgsPrefix args pre \<longleftrightarrow> \<not> length pre > length args \<and> take (length pre) args = pre"

definition bashCommandPolicyRank :: "exec_policy \<Rightarrow> int" where
  "bashCommandPolicyRank p = (if p = ExecPolicyOff then 2 else if p = ExecPolicyNeedApprove then 1 else 0)"

definition betterBashCommandPolicyMatch ::
  "exec_policy \<Rightarrow> int \<Rightarrow> int \<Rightarrow> exec_policy \<Rightarrow> int \<Rightarrow> int \<Rightarrow> bool" where
  "betterBashCommandPolicyMatch policy prefixLen index current currentPrefixLen currentIndex =
     (if bashCommandPolicyRank policy \<noteq> bashCommandPolicyRank current
      then bashCommandPolicyRank policy > bashCommandPolicyRank current
      else if prefixLen \<noteq> currentPrefixLen then prefixLen > currentPrefixLen
      else currentIndex < 0 \<or> index < currentIndex)"

definition policy_matches :: "string \<Rightarrow> string list \<Rightarrow> bash_command_policy \<Rightarrow> bool" where
  "policy_matches head normalized p \<longleftrightarrow>
     \<not> path_Base head \<noteq> path_Base (bp_Command p)
     \<and> \<not> (length (bp_ArgsPrefix p) > 0 \<and> \<not> equalArgsPrefix normalized (bp_ArgsPrefix p))
     \<and> \<not> length (bp_ArgsPrefix p) > length normalized"

definition policy_decision :: "bash_command_policy \<Rightarrow> decision" where
  "policy_decision p =
     \<lparr>dc_Capability = BuiltinCapability ''bash'', dc_Policy = policy_Default (bp_Policy p),
      dc_Reason = ''matched bash command policy '' @ go_quote (TrimSpace (Join (bp_Command p # bp_ArgsPrefix p) '' '')),
      dc_ApprovalOutcome = [], dc_ApprovalReason = []\<rparr>"

text \<open>The best match so far: decision, index and length of its prefix.\<close>

type_synonym best_match = "(decision \<times> int \<times> int) option"

definition consider_policy ::
  "string \<Rightarrow> string list \<Rightarrow> nat \<times> bash_command_policy \<Rightarrow> best_match \<Rightarrow> best_match" where
  "consider_policy head normalized ip st =
     (case ip of (i, p) \<Rightarrow>
        if \<not> policy_matches head normalized p then st
        else
          let candidate = policy_decision p; prefixLen = int (length (bp_ArgsPrefix p)) in
          (case st of
             None \<Rightarrow> Some (candidate, int i, prefixLen)
           | Some (matched, matchIndex, bestPrefixLen) \<Rightarrow>
               if betterBashCommandPolicyMatch (dc_Policy candidate) prefixLen (int i) (dc_Policy matched) bestPrefixLen matchIndex
               then Some (candidate, int i, prefixLen) else st))"

definition consider_call :: "bash_command_policy list \<Rightarrow> shell_node \<Rightarrow> best_match \<Rightarrow> best_match" where
  "consider_call policies n st =
     (case n of
        CallExpr args _ \<Rightarrow>
          (case staticCall args of
             None \<Rightarrow> st
           | Some (head, as) \<Rightarrow> fold (consider_policy head (normalizeCommandArgs head as)) (enumerate 0 policies) st)
      | _ \<Rightarrow> st)"

definition classifyBashCommandPolicy ::
  "shell_parser \<Rightarrow> string \<Rightarrow> bash_command_policy list \<Rightarrow> go_error + best_match" where
  "classifyBashCommandPolicy parse command policies =
     (if policies = [] then Inr None
      else
        (case parse command of
           Inl e \<Rightarrow> Inl [''parse command: '' @ error_text e]
         | Inr f \<Rightarrow> Inr (walk (\<lambda>n st. (True, consider_call policies n st)) f None)))"

section \<open>The handler\<close>

definition bashDefaultTimeout :: int where "bashDefaultTimeout = 60"
definition bashMaxOutputBytes :: nat where "bashMaxOutputBytes = 16 * 1024"

record bash_args =
  ba_Command :: string
  ba_TimeoutSeconds :: int
  ba_LongRunning :: bool
  ba_OutputFile :: string

text \<open>
  \<open>be_CombinedOutput\<close> runs a command with a timeout in seconds, zero for none: output, error,
  and whether the deadline passed.  \<open>be_RunToFile\<close> streams to a file and answers its size.
\<close>

record 'w bash_env =
  be_parse :: shell_parser
  be_url :: url_lib
  be_args :: "string \<Rightarrow> go_error + bash_args"
  be_fs :: "'w \<Rightarrow> fs"
  be_workspace :: "workspace option"
  be_CombinedOutput :: "int \<Rightarrow> string \<Rightarrow> 'w \<Rightarrow> (string \<times> go_error \<times> bool) \<times> 'w"
  be_MkdirAll :: "string \<Rightarrow> 'w \<Rightarrow> go_error \<times> 'w"
  be_Create :: "string \<Rightarrow> 'w \<Rightarrow> go_error \<times> 'w"
  be_RunToFile :: "int \<Rightarrow> string \<Rightarrow> string \<Rightarrow> 'w \<Rightarrow> (nat \<times> go_error \<times> bool) \<times> 'w"

definition bash_err :: "go_error \<Rightarrow> go_error" where
  "bash_err e = [''bash: '' @ error_text e]"

definition truncateOutput :: "string \<Rightarrow> nat \<Rightarrow> string" where
  "truncateOutput out n =
     (if length out \<le> n then out
      else take n out @ [CHR 0x0A] @ ''... (output truncated, '' @ itoa_digits (length out) @ '' bytes total)'')"

definition bash_result :: "string \<Rightarrow> go_error \<Rightarrow> bool \<Rightarrow> string \<times> go_error" where
  "bash_result out err deadline =
     (out, if deadline then [''bash: timed out''] else if err \<noteq> [] then bash_err err else [])"

definition runBashBuffered :: "'w bash_env \<Rightarrow> int \<Rightarrow> string \<Rightarrow> 'w \<Rightarrow> (string \<times> go_error) \<times> 'w" where
  "runBashBuffered e timeout command w =
     (case be_CombinedOutput e timeout command w of ((out, err, deadline), w) \<Rightarrow>
        (bash_result (truncateOutput out bashMaxOutputBytes) err deadline, w))"

definition runBashToFile :: "'w bash_env \<Rightarrow> int \<Rightarrow> string \<Rightarrow> string \<Rightarrow> 'w \<Rightarrow> (string \<times> go_error) \<times> 'w" where
  "runBashToFile e timeout command outputFile w =
     (case ResolvePath (be_fs e w) (be_workspace e) outputFile of
        Inl err \<Rightarrow> (([], bash_err err), w)
      | Inr p \<Rightarrow>
          (case be_MkdirAll e (path_Dir p) w of
             (x # xs, w) \<Rightarrow> (([], bash_err (x # xs)), w)
           | ([], w) \<Rightarrow>
               (case be_Create e p w of
                  (x # xs, w) \<Rightarrow> (([], bash_err (x # xs)), w)
                | ([], w) \<Rightarrow>
                    (case be_RunToFile e timeout command p w of ((n, err, deadline), w) \<Rightarrow>
                       (bash_result (''streamed output to '' @ outputFile @ '' ('' @ itoa_digits n @ '' bytes)'') err deadline, w)))))"

definition bash_timeout :: "bash_args \<Rightarrow> int" where
  "bash_timeout a =
     (if ba_LongRunning a then 0 else if ba_TimeoutSeconds a > 0 then ba_TimeoutSeconds a else bashDefaultTimeout)"

definition run_bash :: "'w bash_env \<Rightarrow> bash_args \<Rightarrow> 'w \<Rightarrow> (string \<times> go_error) \<times> 'w" where
  "run_bash e a w =
     (if ba_OutputFile a \<noteq> [] then runBashToFile e (bash_timeout a) (ba_Command a) (ba_OutputFile a) w
      else runBashBuffered e (bash_timeout a) (ba_Command a) w)"

definition policy_request :: "decision \<Rightarrow> approval_request" where
  "policy_request d =
     \<lparr>aq_CallID = [], aq_ToolName = [], aq_ArgumentsSummary = [], aq_Capability = dc_Capability d,
      aq_Policy = dc_Policy d, aq_Reason = dc_Reason d\<rparr>"

text \<open>The checks that need no decision: their first error, or none.\<close>

definition bash_checks :: "'w bash_env \<Rightarrow> bash_config \<Rightarrow> string \<Rightarrow> 'w \<Rightarrow> go_error" where
  "bash_checks e cfg command w =
     (let heads = (case resolveAllowlist cfg of None \<Rightarrow> [] | Some allow \<Rightarrow> checkAllowlist (be_parse e) allow command) in
      if heads \<noteq> [] then heads
      else
        let redirs = checkRedirections (be_parse e) (ResolvePath (be_fs e w) (be_workspace e)) command in
        if redirs \<noteq> [] then redirs else checkURLAllowlist (be_parse e) (be_url e) (bc_urlAllowlist cfg) command)"

text \<open>The handler: result, recorded decision, command policies and world.\<close>

definition bash_Execute ::
  "'w bash_env \<Rightarrow> bash_config \<Rightarrow> 'w call_ctx \<Rightarrow> string \<Rightarrow> bash_command_policy list \<Rightarrow> 'w
     \<Rightarrow> (string \<times> go_error) \<times> decision option \<times> bash_command_policy list \<times> 'w" where
  "bash_Execute e cfg cx arguments policies w =
     (case be_args e arguments of
        Inl err \<Rightarrow> (([], [''bash: parse arguments: '' @ error_text err]), None, policies, w)
      | Inr a \<Rightarrow>
          if TrimSpace (ba_Command a) = [] then (([], [''bash: command is required'']), None, policies, w)
          else if ba_TimeoutSeconds a < 0 then (([], [''bash: timeout_seconds must be positive'']), None, policies, w)
          else if bash_checks e cfg (ba_Command a) w \<noteq> [] then
            (([], bash_err (bash_checks e cfg (ba_Command a) w)), None, policies, w)
          else
            (case classifyBashCommandPolicy (be_parse e) (ba_Command a) policies of
               Inl err \<Rightarrow> (([], bash_err err), None, policies, w)
             | Inr None \<Rightarrow> (case run_bash e a w of (r, w) \<Rightarrow> (r, None, policies, w))
             | Inr (Some (d, matchIndex, _)) \<Rightarrow>
                 if dc_Policy d = ExecPolicyOff then
                   (([], [DisabledError (dc_Capability d) (dc_Reason d)]), Some d, policies, w)
                 else if dc_Policy d = ExecPolicyNeedApprove then
                   (case RequestApproval cx (policy_request d) w of ((resp, err), w) \<Rightarrow>
                      let d = d\<lparr>dc_ApprovalOutcome := ar_Outcome resp, dc_ApprovalReason := ar_Reason resp\<rparr> in
                      if err \<noteq> [] then (([], err), Some d, policies, w)
                      else
                        let policies =
                          (if ar_Outcome resp = ApprovalOutcomeApproveForSession \<and> matchIndex \<ge> 0
                           then policies[nat matchIndex := (policies ! nat matchIndex)\<lparr>bp_Policy := ExecPolicyPassby\<rparr>]
                           else policies)
                        in (case run_bash e a w of (r, w) \<Rightarrow> (r, Some d, policies, w)))
                 else (case run_bash e a w of (r, w) \<Rightarrow> (r, Some d, policies, w))))"

end
