(* ===== verification/Bash_Theorems.thy ===== *)
theory Bash_Theorems
  imports Bash_Guard
begin

text \<open>
  Properties of the bash tool and of the policy wrapper: what a command that is run has passed,
  which command policy decides, and when a gated tool runs.
\<close>

section \<open>Checked commands\<close>

lemma first_error_accepts:
  "(case parse command of Inl e \<Rightarrow> [''parse command: '' @ error_text e]
      | Inr f \<Rightarrow> walk (first_error check) f []) = [] \<longleftrightarrow>
   (\<exists>f. parse command = Inr f \<and> (\<forall>n \<in> set (subnodes f). check n = []))"
  by (auto simp: walk_accepts split: sum.splits)

text \<open>The calls of a tree, with and without arguments that are all static.\<close>

definition head_allowed :: "string list \<Rightarrow> shell_node \<Rightarrow> bool" where
  "head_allowed allow f \<longleftrightarrow> (\<forall>w ws ns. CallExpr (w # ws) ns \<in> set (subnodes f) \<longrightarrow>
     (\<exists>head. staticWordValue w = Some head \<and> path_Base head \<in> set allow))"

definition redirects_inside :: "(string \<Rightarrow> go_error + string) \<Rightarrow> shell_node \<Rightarrow> bool" where
  "redirects_inside resolve f \<longleftrightarrow> (\<forall>opr target ns. Redirect opr target ns \<in> set (subnodes f) \<longrightarrow> isHeredocRedirect opr
     \<or> (\<exists>w v p. target = Some w \<and> staticWordValue w = Some v \<and> resolve v = Inr p))"

lemma checkAllowlist_accepts:
  "checkAllowlist parse allow command = [] \<longleftrightarrow> (\<exists>f. parse command = Inr f \<and> head_allowed allow f)"
proof -
  have "(\<forall>n \<in> set (subnodes f). head_error allow n = []) \<longleftrightarrow> head_allowed allow f" for f
  proof
    assume a: "\<forall>n \<in> set (subnodes f). head_error allow n = []"
    show "head_allowed allow f"
      unfolding head_allowed_def
    proof (intro allI impI)
      fix w ws ns assume "CallExpr (w # ws) ns \<in> set (subnodes f)"
      with a have "head_error allow (CallExpr (w # ws) ns) = []" by blast
      then show "\<exists>head. staticWordValue w = Some head \<and> path_Base head \<in> set allow"
        by (auto simp: head_error_def split: option.splits if_splits)
    qed
  next
    assume a: "head_allowed allow f"
    show "\<forall>n \<in> set (subnodes f). head_error allow n = []"
    proof
      fix n assume n: "n \<in> set (subnodes f)"
      show "head_error allow n = []"
      proof (cases n)
        case (CallExpr args ns)
        show ?thesis
        proof (cases args)
          case (Cons w ws)
          with a n CallExpr obtain head where "staticWordValue w = Some head" "path_Base head \<in> set allow"
            unfolding head_allowed_def by blast
          with CallExpr Cons show ?thesis by (simp add: head_error_def)
        qed (simp add: CallExpr head_error_def)
      qed (simp_all add: head_error_def)
    qed
  qed
  then show ?thesis unfolding checkAllowlist_def first_error_accepts by simp
qed

lemma checkRedirections_accepts:
  "checkRedirections parse resolve command = [] \<longleftrightarrow> (\<exists>f. parse command = Inr f \<and> redirects_inside resolve f)"
proof -
  have one: "redirect_error resolve (Redirect opr target ns) = [] \<longleftrightarrow> isHeredocRedirect opr
      \<or> (\<exists>w v p. target = Some w \<and> staticWordValue w = Some v \<and> resolve v = Inr p)" for opr target ns
    by (auto simp: redirect_error_def split: option.splits sum.splits)
  have other: "redirect_error resolve n = []" if "\<And>opr target ns. n \<noteq> Redirect opr target ns" for n
    using that by (cases n) (auto simp: redirect_error_def)
  have "(\<forall>n \<in> set (subnodes f). redirect_error resolve n = []) \<longleftrightarrow> redirects_inside resolve f" for f
    unfolding redirects_inside_def using one other by metis
  then show ?thesis unfolding checkRedirections_def first_error_accepts by simp
qed

section \<open>The strictest policy\<close>

text \<open>The policies that match some call of a command, as the code reads it.\<close>

definition matches_command :: "shell_node \<Rightarrow> bash_command_policy \<Rightarrow> bool" where
  "matches_command f p \<longleftrightarrow> (\<exists>args ns head as. CallExpr args ns \<in> set (subnodes f) \<and> staticCall args = Some (head, as)
     \<and> policy_matches head (normalizeCommandArgs head as) p)"

text \<open>The order of policies: stricter first, then longer prefix, then earlier in the list.\<close>

definition policy_key :: "bash_command_policy list \<Rightarrow> nat \<Rightarrow> int \<times> int \<times> int" where
  "policy_key ps i =
     (bashCommandPolicyRank (policy_Default (bp_Policy (ps ! i))), int (length (bp_ArgsPrefix (ps ! i))), - int i)"

definition key_le :: "int \<times> int \<times> int \<Rightarrow> int \<times> int \<times> int \<Rightarrow> bool" where
  "key_le a b \<longleftrightarrow> (case a of (a1, a2, a3) \<Rightarrow> case b of (b1, b2, b3) \<Rightarrow>
     a1 < b1 \<or> a1 = b1 \<and> (a2 < b2 \<or> a2 = b2 \<and> a3 \<le> b3))"

lemma key_le_trans: "key_le a b \<Longrightarrow> key_le b c \<Longrightarrow> key_le a c"
  by (auto simp: key_le_def split: prod.splits)

lemma key_le_refl: "key_le a a"
  by (auto simp: key_le_def split: prod.splits)

definition entry :: "bash_command_policy list \<Rightarrow> nat \<Rightarrow> decision \<times> int \<times> int" where
  "entry ps i = (policy_decision (ps ! i), int i, int (length (bp_ArgsPrefix (ps ! i))))"

text \<open>\<open>st\<close> is the best of the indices seen.\<close>

definition best_of :: "bash_command_policy list \<Rightarrow> nat set \<Rightarrow> best_match \<Rightarrow> bool" where
  "best_of ps seen st \<longleftrightarrow>
     (case st of
        None \<Rightarrow> seen = {}
      | Some m \<Rightarrow> \<exists>i \<in> seen. m = entry ps i \<and> (\<forall>j \<in> seen. key_le (policy_key ps j) (policy_key ps i)))"

lemma better_key:
  "betterBashCommandPolicyMatch (dc_Policy (policy_decision (ps ! i))) (int (length (bp_ArgsPrefix (ps ! i)))) (int i)
     (dc_Policy (policy_decision (ps ! j))) (int (length (bp_ArgsPrefix (ps ! j)))) (int j)
   \<longleftrightarrow> \<not> key_le (policy_key ps i) (policy_key ps j)"
  by (auto simp: betterBashCommandPolicyMatch_def key_le_def policy_key_def policy_decision_def)

lemma key_le_total: "key_le a b \<or> key_le b a"
  by (auto simp: key_le_def split: prod.splits)

lemma consider_policy_best:
  assumes "best_of ps seen st"
  shows "best_of ps (if policy_matches head as (ps ! i) then insert i seen else seen) (consider_policy head as (i, ps ! i) st)"
proof (cases "policy_matches head as (ps ! i)")
  case True
  show ?thesis
  proof (cases st)
    case None
    with True assms show ?thesis by (simp add: best_of_def consider_policy_def entry_def key_le_refl Let_def)
  next
    case (Some m)
    with assms obtain k where k: "k \<in> seen" "m = entry ps k" "\<forall>j \<in> seen. key_le (policy_key ps j) (policy_key ps k)"
      by (auto simp: best_of_def)
    show ?thesis
    proof (cases "key_le (policy_key ps i) (policy_key ps k)")
      case le: True
      then have "consider_policy head as (i, ps ! i) st = st"
        using True Some k(2) better_key [of ps i k] by (simp add: consider_policy_def entry_def Let_def)
      with True Some k le show ?thesis by (auto simp: best_of_def)
    next
      case False
      then have "consider_policy head as (i, ps ! i) st = Some (entry ps i)"
        using True Some k(2) better_key [of ps i k] by (simp add: consider_policy_def entry_def Let_def)
      moreover have "\<forall>j \<in> insert i seen. key_le (policy_key ps j) (policy_key ps i)"
        using False key_le_total key_le_trans key_le_refl k(3) by blast
      ultimately show ?thesis using True by (auto simp: best_of_def)
    qed
  qed
qed (use assms in \<open>simp add: consider_policy_def\<close>)

lemma consider_policies_best:
  "best_of ps seen st \<Longrightarrow> set is \<subseteq> {..<length ps} \<Longrightarrow>
   best_of ps (seen \<union> {i \<in> set is. policy_matches head as (ps ! i)})
     (fold (consider_policy head as) (map (\<lambda>i. (i, ps ! i)) is) st)"
proof (induction "is" arbitrary: seen st)
  case (Cons i "is")
  let ?seen = "if policy_matches head as (ps ! i) then insert i seen else seen"
  have "seen \<union> {j \<in> set (i # is). policy_matches head as (ps ! j)} = ?seen \<union> {j \<in> set is. policy_matches head as (ps ! j)}" by auto
  with Cons.IH [OF consider_policy_best [OF Cons.prems(1)]] Cons.prems(2) show ?case by simp
qed simp

lemma enumerate_indices: "enumerate 0 ps = map (\<lambda>i. (i, ps ! i)) [0..<length ps]"
  by (rule nth_equalityI) (simp_all add: nth_enumerate_eq)

definition call_matches :: "bash_command_policy list \<Rightarrow> shell_node \<Rightarrow> nat set" where
  "call_matches ps n = {i. i < length ps \<and> (\<exists>args ns head as. n = CallExpr args ns \<and> staticCall args = Some (head, as)
     \<and> policy_matches head (normalizeCommandArgs head as) (ps ! i))}"

lemma consider_call_best:
  assumes "best_of ps seen st"
  shows "best_of ps (seen \<union> call_matches ps n) (consider_call ps n st)"
proof (cases "\<exists>args ns head as. n = CallExpr args ns \<and> staticCall args = Some (head, as)")
  case True
  then obtain args ns head as where n: "n = CallExpr args ns" "staticCall args = Some (head, as)" by blast
  have "call_matches ps n = {i \<in> set [0..<length ps]. policy_matches head (normalizeCommandArgs head as) (ps ! i)}"
    using n by (auto simp: call_matches_def)
  with consider_policies_best [OF assms, of "[0..<length ps]" head "normalizeCommandArgs head as"] n show ?thesis
    by (simp add: consider_call_def enumerate_indices atLeast0LessThan)
next
  case False
  then have "call_matches ps n = {}" by (auto simp: call_matches_def)
  moreover have "consider_call ps n st = st" using False by (cases n) (auto simp: consider_call_def split: option.splits)
  ultimately show ?thesis using assms by simp
qed

lemma consider_all_best:
  "best_of ps seen st \<Longrightarrow> best_of ps (seen \<union> (\<Union>n \<in> set ns. call_matches ps n)) (fold (consider_call ps) ns st)"
proof (induction ns arbitrary: seen st)
  case (Cons n ns)
  from Cons.IH [OF consider_call_best [OF Cons.prems]] show ?case by (simp add: Un_assoc)
qed simp

definition matching :: "shell_node \<Rightarrow> bash_command_policy list \<Rightarrow> nat set" where
  "matching f ps = {i. i < length ps \<and> matches_command f (ps ! i)}"

lemma classify_best:
  assumes "parse command = Inr f" "classifyBashCommandPolicy parse command ps = Inr st"
  shows "best_of ps (matching f ps) st"
proof -
  have M: "(\<Union>n \<in> set (subnodes f). call_matches ps n) = matching f ps"
    by (auto simp: call_matches_def matches_command_def matching_def)
  show ?thesis
  proof (cases "ps = []")
    case True
    with assms(2) show ?thesis by (simp add: classifyBashCommandPolicy_def best_of_def matching_def)
  next
    case False
    with assms have "st = fold (consider_call ps) (subnodes f) None"
      by (simp add: classifyBashCommandPolicy_def walk_all)
    with consider_all_best [of ps "{}" None "subnodes f"] M show ?thesis by (simp add: best_of_def)
  qed
qed

text \<open>C21. A command policy matches a command when it matches, by head and by argument prefix, a call whose words
  are all static.  The policy that decides a command is the strictest of those that match it, then the one
  with the longest argument prefix, then the first in the list; and when none is reported, none matches.\<close>

theorem strictest_policy_wins:
  assumes "parse command = Inr f" "classifyBashCommandPolicy parse command ps = Inr st"
  shows "(st = None \<longrightarrow> (\<forall>p \<in> set ps. \<not> matches_command f p))
    \<and> (\<forall>d i l. st = Some (d, i, l) \<longrightarrow> 0 \<le> i \<and> nat i < length ps \<and> d = policy_decision (ps ! nat i)
         \<and> matches_command f (ps ! nat i)
         \<and> (\<forall>j < length ps. matches_command f (ps ! j) \<longrightarrow> key_le (policy_key ps j) (policy_key ps (nat i))))"
proof (intro conjI impI allI)
  note best = classify_best [OF assms]
  show "\<forall>p \<in> set ps. \<not> matches_command f p" if "st = None"
    using best that by (auto simp: best_of_def matching_def in_set_conv_nth)
  fix d i l assume "st = Some (d, i, l)"
  with best obtain k where "k \<in> matching f ps" "d = policy_decision (ps ! k)" "i = int k"
    "\<forall>j \<in> matching f ps. key_le (policy_key ps j) (policy_key ps k)" by (auto simp: best_of_def entry_def)
  then show "0 \<le> i" "nat i < length ps" "d = policy_decision (ps ! nat i)" "matches_command f (ps ! nat i)"
    "\<And>j. j < length ps \<Longrightarrow> matches_command f (ps ! j) \<Longrightarrow> key_le (policy_key ps j) (policy_key ps (nat i))"
    by (auto simp: matching_def)
qed

section \<open>What the tool runs\<close>

text \<open>
  A command the tool may run in world \<open>w\<close>: it parses, its heads are on the allowlist, its
  redirections resolve inside the workspace, the check of the URL allowlist accepts it, so that with
  a URL allowlist every \<^verbatim>\<open>curl\<close> and \<^verbatim>\<open>wget\<close> it executes in the sense of \<open>executes\<close> is allowed, no
  policy that matches a call of static words is off, and if approval is needed it is given.
\<close>

definition permitted ::
  "'w bash_env \<Rightarrow> bash_config \<Rightarrow> 'w call_ctx \<Rightarrow> bash_command_policy list \<Rightarrow> 'w \<Rightarrow> string \<Rightarrow> bool" where
  "permitted e cfg cx ps w command \<longleftrightarrow> (\<exists>f. be_parse e command = Inr f
     \<and> (\<forall>allow. resolveAllowlist cfg = Some allow \<longrightarrow> head_allowed allow f)
     \<and> redirects_inside (ResolvePath (be_fs e w) (be_workspace e)) f
     \<and> checkURLAllowlist (be_parse e) (be_url e) (bc_urlAllowlist cfg) command = []
     \<and> (\<forall>name args. bc_urlAllowlist cfg \<noteq> [] \<longrightarrow> executes (be_parse e) command name args \<longrightarrow> is_fetcher name \<longrightarrow>
          fetch_allowed (be_url e) (bc_urlAllowlist cfg) name args)
     \<and> (\<forall>p \<in> set ps. matches_command f p \<longrightarrow> policy_Default (bp_Policy p) \<noteq> ExecPolicyOff)
     \<and> (\<forall>d i l. classifyBashCommandPolicy (be_parse e) command ps = Inr (Some (d, i, l)) \<longrightarrow>
          dc_Policy d = ExecPolicyNeedApprove \<longrightarrow> snd (fst (RequestApproval cx (policy_request d) w)) = []))"

lemma checks_permit:
  assumes "bash_checks e cfg command w = []"
  shows "\<exists>f. be_parse e command = Inr f \<and> (\<forall>allow. resolveAllowlist cfg = Some allow \<longrightarrow> head_allowed allow f)
    \<and> redirects_inside (ResolvePath (be_fs e w) (be_workspace e)) f
    \<and> checkURLAllowlist (be_parse e) (be_url e) (bc_urlAllowlist cfg) command = []"
proof -
  have r: "checkRedirections (be_parse e) (ResolvePath (be_fs e w) (be_workspace e)) command = []"
    and h: "\<forall>allow. resolveAllowlist cfg = Some allow \<longrightarrow> checkAllowlist (be_parse e) allow command = []"
    and u: "checkURLAllowlist (be_parse e) (be_url e) (bc_urlAllowlist cfg) command = []"
    using assms by (auto simp: bash_checks_def Let_def split: if_splits option.splits)
  from r h u show ?thesis unfolding checkRedirections_accepts checkAllowlist_accepts by auto
qed

lemma rank_off: "bashCommandPolicyRank p = 2 \<longleftrightarrow> p = ExecPolicyOff"
  by (simp add: bashCommandPolicyRank_def)

lemma rank_le: "bashCommandPolicyRank p \<le> 2"
  by (simp add: bashCommandPolicyRank_def)

lemma not_off:
  assumes "best_of ps (matching f ps) st"
    and "\<forall>d i l. st = Some (d, i, l) \<longrightarrow> dc_Policy d \<noteq> ExecPolicyOff" "p \<in> set ps" "matches_command f p"
  shows "policy_Default (bp_Policy p) \<noteq> ExecPolicyOff"
proof -
  obtain j where j: "j \<in> matching f ps" "p = ps ! j" using assms(3,4) by (auto simp: in_set_conv_nth matching_def)
  with assms(1) obtain k where k: "st = Some (entry ps k)" "key_le (policy_key ps j) (policy_key ps k)"
    by (cases st) (auto simp: best_of_def)
  then have "dc_Policy (policy_decision (ps ! k)) \<noteq> ExecPolicyOff" using assms(2) by (simp add: entry_def)
  then have "bashCommandPolicyRank (policy_Default (bp_Policy (ps ! k))) \<noteq> 2" by (simp add: rank_off policy_decision_def)
  moreover have "bashCommandPolicyRank (policy_Default (bp_Policy p)) \<le> bashCommandPolicyRank (policy_Default (bp_Policy (ps ! k)))"
    using k(2) unfolding key_le_def policy_key_def j(2) prod.case by linarith
  moreover have "bashCommandPolicyRank (policy_Default (bp_Policy (ps ! k))) \<le> 2" by (rule rank_le)
  ultimately have "bashCommandPolicyRank (policy_Default (bp_Policy p)) \<noteq> 2" by linarith
  then show ?thesis unfolding rank_off .
qed

lemma request_keeps:
  assumes "\<forall>ap req v. cx_approver cx = Some ap \<longrightarrow> Q v \<longrightarrow> Q (snd (ap req v))" "Q w"
  shows "Q (snd (RequestApproval cx req w))"
proof (cases "cx_approver cx")
  case (Some ap)
  have "Q (snd (ap (fill_request (cx_meta cx) req) w))" using assms Some by blast
  with Some show ?thesis by (auto simp: RequestApproval_def Let_def split: prod.splits)
qed (use assms(2) in \<open>simp add: RequestApproval_def Let_def\<close>)

text \<open>A path the workspace has resolved at some time.\<close>

definition resolved_path :: "'w bash_env \<Rightarrow> string \<Rightarrow> bool" where
  "resolved_path e p \<longleftrightarrow> (\<exists>v file. ResolvePath (be_fs e v) (be_workspace e) file = Inr p)"

lemma run_bash_keeps:
  assumes "Q w"
    and "\<forall>t v. Q v \<longrightarrow> Q (snd (be_CombinedOutput e t (ba_Command a) v))"
    and "\<forall>t p v. resolved_path e p \<longrightarrow> Q v \<longrightarrow> Q (snd (be_RunToFile e t (ba_Command a) p v))"
    and "\<forall>p v. resolved_path e p \<longrightarrow> Q v \<longrightarrow> Q (snd (be_MkdirAll e (path_Dir p) v)) \<and> Q (snd (be_Create e p v))"
  shows "Q (snd (run_bash e a w))"
proof (cases "ba_OutputFile a = []")
  case True
  show ?thesis
    using assms(1,2) True by (simp add: run_bash_def runBashBuffered_def split: prod.splits) (metis snd_conv)
next
  case False
  show ?thesis
  proof (cases "ResolvePath (be_fs e w) (be_workspace e) (ba_OutputFile a)")
    case (Inl err)
    with False assms(1) show ?thesis by (simp add: run_bash_def runBashToFile_def)
  next
    case (Inr p)
    then have rp: "resolved_path e p" by (auto simp: resolved_path_def)
    obtain e1 w1 where mk: "be_MkdirAll e (path_Dir p) w = (e1, w1)" by (cases "be_MkdirAll e (path_Dir p) w")
    obtain e2 w2 where cr: "be_Create e p w1 = (e2, w2)" by (cases "be_Create e p w1")
    have q: "Q w1" "Q w2" using assms(1,4) rp mk cr by (metis snd_conv)+
    have "Q (snd (be_RunToFile e (bash_timeout a) (ba_Command a) p w2))" using assms(3) rp q(2) by blast
    with False Inr mk cr q show ?thesis
      by (cases e1; cases e2) (auto simp: run_bash_def runBashToFile_def split: prod.splits)
  qed
qed

text \<open>C22. The bash tool touches the world only through the approver, through the output file,
  which lies in the workspace, and by running commands that it has let pass: the command parses; unless the
  allowlist is disabled, the head of every call is static and on it; every redirection is static
  and resolves inside the workspace; the check of the URL allowlist accepts the command, so that the fetches of its
  calls, of \<^verbatim>\<open>env\<close> with plain options and of \<^verbatim>\<open>bash -c\<close> are allowed; no policy that matches a
  call of static words is off; and approval is given if the deciding policy asks for it.
  \<open>Q\<close> is any property of the world that these actions keep.\<close>

theorem bash_runs_only_permitted:
  assumes "Q w"
    and "\<forall>ap req v. cx_approver cx = Some ap \<longrightarrow> Q v \<longrightarrow> Q (snd (ap req v))"
    and "\<forall>t command v. permitted e cfg cx ps w command \<longrightarrow> Q v \<longrightarrow> Q (snd (be_CombinedOutput e t command v))"
    and "\<forall>t command p v. permitted e cfg cx ps w command \<longrightarrow> resolved_path e p \<longrightarrow> Q v \<longrightarrow>
      Q (snd (be_RunToFile e t command p v))"
    and "\<forall>p v. resolved_path e p \<longrightarrow> Q v \<longrightarrow> Q (snd (be_MkdirAll e (path_Dir p) v)) \<and> Q (snd (be_Create e p v))"
  shows "Q (snd (snd (snd (bash_Execute e cfg cx arguments ps w))))"
proof (cases "\<exists>a st. be_args e arguments = Inr a \<and> TrimSpace (ba_Command a) \<noteq> [] \<and> \<not> ba_TimeoutSeconds a < 0
      \<and> bash_checks e cfg (ba_Command a) w = []
      \<and> classifyBashCommandPolicy (be_parse e) (ba_Command a) ps = Inr st")
  case False
  then show ?thesis using assms(1) by (auto simp: bash_Execute_def split: sum.splits)
next
  case True
  then obtain a st where a: "be_args e arguments = Inr a" "TrimSpace (ba_Command a) \<noteq> []" "\<not> ba_TimeoutSeconds a < 0"
    "bash_checks e cfg (ba_Command a) w = []" "classifyBashCommandPolicy (be_parse e) (ba_Command a) ps = Inr st" by blast
  obtain f where f: "be_parse e (ba_Command a) = Inr f" "\<forall>allow. resolveAllowlist cfg = Some allow \<longrightarrow> head_allowed allow f"
    "redirects_inside (ResolvePath (be_fs e w) (be_workspace e)) f"
    "checkURLAllowlist (be_parse e) (be_url e) (bc_urlAllowlist cfg) (ba_Command a) = []"
    using checks_permit [OF a(4)] by blast
  have run: "Q (snd (run_bash e a v))" if "permitted e cfg cx ps w (ba_Command a)" "Q v" for v
    using that(1) assms(3-5) by (intro run_bash_keeps [of Q, OF that(2)]) blast+
  have ok: "permitted e cfg cx ps w (ba_Command a)"
    if "\<forall>d i l. st = Some (d, i, l) \<longrightarrow> dc_Policy d \<noteq> ExecPolicyOff
       \<and> (dc_Policy d = ExecPolicyNeedApprove \<longrightarrow> snd (fst (RequestApproval cx (policy_request d) w)) = [])"
    using f that not_off [OF classify_best [OF f(1) a(5)]] a(5) executed_fetch_allowed [OF f(4)] unfolding permitted_def by auto
  note start = bash_Execute_def a(1) sum.case a(5)
  show ?thesis
  proof (cases st)
    case None
    with ok run [OF _ assms(1)] a(2-4) show ?thesis unfolding start by (auto split: prod.splits)
  next
    case (Some m)
    obtain d i l where m: "st = Some (d, i, l)" using Some by (cases m) auto
    obtain resp err w1 where ra: "RequestApproval cx (policy_request d) w = ((resp, err), w1)" by (metis prod.collapse)
    have w1: "Q w1" using request_keeps [OF assms(2,1), of "policy_request d"] ra by simp
    consider "dc_Policy d = ExecPolicyOff" | "dc_Policy d = ExecPolicyNeedApprove" "err \<noteq> []"
      | "dc_Policy d = ExecPolicyNeedApprove" "err = []" | "dc_Policy d \<noteq> ExecPolicyOff" "dc_Policy d \<noteq> ExecPolicyNeedApprove" by blast
    then show ?thesis
    proof cases
      case 3
      have "Q (snd (run_bash e a w1))" using ok run [OF _ w1] 3 m ra by (simp add: ExecPolicyOff_def ExecPolicyNeedApprove_def)
      with 3 m ra a(2-4) show ?thesis
        unfolding start by (auto simp: Let_def ExecPolicyOff_def ExecPolicyNeedApprove_def split: prod.splits)
    next
      case 4
      have "Q (snd (run_bash e a w))" using ok run [OF _ assms(1)] 4 m by simp
      with 4 m a(2-4) show ?thesis unfolding start by (auto split: prod.splits)
    qed (use m ra a(2-4) assms(1) w1 in \<open>auto simp: start Let_def ExecPolicyOff_def ExecPolicyNeedApprove_def\<close>)
  qed
qed

section \<open>Evading a policy\<close>

text \<open>A call with an argument that is not static is matched by no policy: adding one evades every
  command policy, also one that turns the whole command off.\<close>

theorem dynamic_argument_evades_policy:
  assumes "parse command = Inr (CallExpr (w # ws) [])" "static_values ws = None"
  shows "classifyBashCommandPolicy parse command ps = Inr None"
proof -
  have "subnodes (CallExpr (w # ws) []) = [CallExpr (w # ws) []]" by (simp add: subnodes.simps)
  moreover have "staticCall (w # ws) = None" using assms(2) by (simp add: staticCall_def split: option.splits)
  ultimately show ?thesis using assms(1) by (simp add: classifyBashCommandPolicy_def walk_all consider_call_def)
qed

section \<open>Gated tools\<close>

definition tool_request :: "capability_ref \<Rightarrow> approval_request" where
  "tool_request ref =
     \<lparr>aq_CallID = [], aq_ToolName = [], aq_ArgumentsSummary = [], aq_Capability = ref, aq_Policy = ExecPolicyNeedApprove,
      aq_Reason = ''capability policy''\<rparr>"

text \<open>What the approver says about a request.\<close>

definition approval_outcome :: "'w call_ctx \<Rightarrow> approval_request \<Rightarrow> 'w \<Rightarrow> string" where
  "approval_outcome cx req w =
     (case cx_approver cx of
        None \<Rightarrow> ApprovalOutcomeDeny
      | Some ap \<Rightarrow>
          (case ap (fill_request (cx_meta cx) req) w of ((resp, err), _) \<Rightarrow>
             if err \<noteq> [] then ApprovalOutcomeDeny else ar_Outcome resp))"

definition approving :: "string \<Rightarrow> bool" where
  "approving out \<longleftrightarrow> out = ApprovalOutcomeApprove \<or> out = ApprovalOutcomeApproveForSession"

lemma outcome_names: "\<not> approving ApprovalOutcomeDeny" "ApprovalOutcomeApprove \<noteq> ApprovalOutcomeApproveForSession"
  by (simp_all add: approving_def ApprovalOutcomeDeny_def ApprovalOutcomeApprove_def ApprovalOutcomeApproveForSession_def)

lemma settle_approving:
  "snd (settle_outcome ref resp) = [] \<longleftrightarrow> approving (ar_Outcome resp)"
  "approving (ar_Outcome resp) \<Longrightarrow> fst (settle_outcome ref resp) = resp"
  by (simp_all add: settle_outcome_def approving_def Let_def)

lemma request_outcome:
  "(snd (fst (RequestApproval cx req w)) = []) = approving (approval_outcome cx req w)"
  "approving (approval_outcome cx req w) \<Longrightarrow> ar_Outcome (fst (fst (RequestApproval cx req w))) = approval_outcome cx req w"
proof -
  show "(snd (fst (RequestApproval cx req w)) = []) = approving (approval_outcome cx req w)"
    by (auto simp: RequestApproval_def approval_outcome_def outcome_names settle_approving Let_def split: option.splits prod.splits)
  show "approving (approval_outcome cx req w) \<Longrightarrow> ar_Outcome (fst (fst (RequestApproval cx req w))) = approval_outcome cx req w"
    by (auto simp: RequestApproval_def approval_outcome_def outcome_names settle_approving Let_def split: option.splits prod.splits)
qed

text \<open>C23. A tool whose policy is off, or needs an approval that is not given, does not run: the
  result, an error, is the same whatever the tool would have done, and no policy changes.  An
  approval for the session makes every later call of the tool pass.\<close>

theorem gated_tool_needs_permission:
  "let P = resolvePolicy ps ref name; out = approval_outcome cx (tool_request ref) w;
       r = policyTool_Execute ref name body cx a ps w
   in (P = ExecPolicyOff \<or> P = ExecPolicyNeedApprove \<and> \<not> approving out \<longrightarrow>
        policyTool_Execute ref name body2 cx a ps w = r \<and> snd (fst r) \<noteq> [] \<and> fst (snd (snd r)) = ps)
    \<and> (P = ExecPolicyNeedApprove \<and> out = ApprovalOutcomeApproveForSession \<longrightarrow>
        resolvePolicy (fst (snd (snd r))) ref name = ExecPolicyPassby)"
proof -
  obtain resp err w1 where ra: "RequestApproval cx (tool_request ref) w = ((resp, err), w1)" by (metis prod.collapse)
  note o = request_outcome [of cx "tool_request ref" w, unfolded ra fst_conv snd_conv]
  have req: "\<lparr>aq_CallID = [], aq_ToolName = [], aq_ArgumentsSummary = [], aq_Capability = ref,
      aq_Policy = ExecPolicyNeedApprove, aq_Reason = ''capability policy''\<rparr> = tool_request ref" by (simp add: tool_request_def)
  have gate: "ExecPolicyNeedApprove \<noteq> ExecPolicyOff" by (simp add: ExecPolicyNeedApprove_def ExecPolicyOff_def)
  have pass: "resolvePolicy (map_set ps ref ExecPolicyPassby) ref name = ExecPolicyPassby"
    using map_get_set [of ps ref ExecPolicyPassby ref]
    by (cases ps) (simp_all add: resolvePolicy_def policy_Default_def ExecPolicyPassby_def)
  show ?thesis
  proof (cases "resolvePolicy ps ref name = ExecPolicyNeedApprove")
    case True
    note x = policyTool_Execute_def Let_def True
    show ?thesis
    proof (cases "err = []")
      case no_err: True
      then have "approving (approval_outcome cx (tool_request ref) w)" "ar_Outcome resp = approval_outcome cx (tool_request ref) w"
        using o by simp_all
      then show ?thesis using True gate ra req no_err pass by (auto simp: x split: prod.splits)
    next
      case False
      then have na: "\<not> approving (approval_outcome cx (tool_request ref) w)" using o(1) by simp
      then have "approval_outcome cx (tool_request ref) w \<noteq> ApprovalOutcomeApproveForSession" by (auto simp: approving_def)
      then show ?thesis using True gate ra req False na by (simp add: x)
    qed
  next
    case False
    then show ?thesis by (simp add: policyTool_Execute_def Let_def)
  qed
qed

section \<open>Examples\<close>

text \<open>Two policies on \<^verbatim>\<open>git\<close>, the second stricter, and a command with a global option.\<close>

definition git_policies :: "bash_command_policy list" where
  "git_policies =
     [\<lparr>bp_Command = ''git'', bp_ArgsPrefix = [], bp_Policy = ExecPolicyPassby\<rparr>,
      \<lparr>bp_Command = ''git'', bp_ArgsPrefix = [''push''], bp_Policy = ExecPolicyNeedApprove\<rparr>]"

definition git_tree :: shell_node where
  "git_tree = CallExpr [[Lit ''/usr/bin/git''], [Lit ''-C''], [Lit ''repo''], [Lit ''push''], [Lit ''origin'']] []"

definition bash_parser :: shell_parser where
  "bash_parser s = (if s = ''ls'' then Inr (CallExpr [[Lit ''ls'']] []) else if s = ''push'' then Inr git_tree else Inl [''syntax error''])"

theorem strictest_policy_wins_witness:
  "classifyBashCommandPolicy bash_parser ''push'' git_policies = Inr (Some (policy_decision (git_policies ! 1), 1, 1))
    \<and> matches_command git_tree (git_policies ! 1)"
proof -
  have c: "classifyBashCommandPolicy bash_parser ''push'' git_policies = Inr (Some (policy_decision (git_policies ! 1), 1, 1))"
    by code_simp
  have "bash_parser ''push'' = Inr git_tree" by (simp add: bash_parser_def)
  from strictest_policy_wins [OF this c] c show ?thesis by simp
qed

text \<open>The world logs the commands that are run.\<close>

definition log_env :: "string list bash_env" where
  "log_env =
     \<lparr>be_parse = bash_parser, be_url = url_example,
      be_args = (\<lambda>s. Inr \<lparr>ba_Command = s, ba_TimeoutSeconds = 0, ba_LongRunning = False, ba_OutputFile = []\<rparr>),
      be_fs = (\<lambda>_. play_fs), be_workspace = Some play_ws,
      be_CombinedOutput = (\<lambda>_ c w. ((''ok'', [], False), w @ [c])), be_MkdirAll = (\<lambda>_ w. ([], w)), be_Create = (\<lambda>_ w. ([], w)),
      be_RunToFile = (\<lambda>_ c _ w. ((0, [], False), w @ [c]))\<rparr>"

definition log_config :: bash_config where
  "log_config = \<lparr>bc_allowlist = None, bc_allowlistDisabled = False, bc_urlAllowlist = []\<rparr>"

definition log_ctx :: "string list call_ctx" where
  "log_ctx = \<lparr>cx_meta = \<lparr>cm_CallID = ''1'', cm_ToolName = ''bash'', cm_ArgumentsSummary = []\<rparr>, cx_approver = None\<rparr>"

theorem bash_runs_only_permitted_witness:
  "snd (snd (snd (bash_Execute log_env log_config log_ctx ''ls'' git_policies []))) = [''ls'']
    \<and> permitted log_env log_config log_ctx git_policies [] ''ls''
    \<and> snd (snd (snd (bash_Execute log_env log_config log_ctx ''push'' git_policies []))) = []"
proof -
  have run: "snd (snd (snd (bash_Execute log_env log_config log_ctx ''ls'' git_policies []))) = [''ls'']" by code_simp
  let ?Q = "\<lambda>v. \<forall>c \<in> set v. permitted log_env log_config log_ctx git_policies [] c"
  have "?Q (snd (snd (snd (bash_Execute log_env log_config log_ctx ''ls'' git_policies []))))"
    by (rule bash_runs_only_permitted) (simp_all add: log_ctx_def log_env_def)
  with run have "permitted log_env log_config log_ctx git_policies [] ''ls''" by simp
  moreover have "snd (snd (snd (bash_Execute log_env log_config log_ctx ''push'' git_policies []))) = []" by code_simp
  ultimately show ?thesis using run by simp
qed

theorem gated_tool_needs_permission_witness:
  "let ref = BuiltinCapability ''bash''; ps = [(ref, ExecPolicyNeedApprove)];
       body = (\<lambda>_ a w. ((''ran'', []), None, w @ [a]));
       session = log_ctx\<lparr>cx_approver := Some (\<lambda>_ w. ((\<lparr>ar_Outcome = ApprovalOutcomeApproveForSession, ar_Reason = []\<rparr>, []), w))\<rparr>
   in snd (fst (policyTool_Execute ref ''bash'' body log_ctx ''ls'' ps [])) \<noteq> []
    \<and> resolvePolicy (fst (snd (snd (policyTool_Execute ref ''bash'' body session ''ls'' ps [])))) ref ''bash'' = ExecPolicyPassby"
proof -
  let ?ref = "BuiltinCapability ''bash''"
  let ?ps = "[(?ref, ExecPolicyNeedApprove)]"
  let ?body = "(\<lambda>_ a w. ((''ran'', []), None, w @ [a])) :: string list tool_body"
  let ?session = "log_ctx\<lparr>cx_approver := Some (\<lambda>_ w. ((\<lparr>ar_Outcome = ApprovalOutcomeApproveForSession, ar_Reason = []\<rparr>, []), w))\<rparr>"
  have p: "resolvePolicy ?ps ?ref ''bash'' = ExecPolicyNeedApprove" by code_simp
  have no: "\<not> approving (approval_outcome log_ctx (tool_request ?ref) [])"
    by (simp add: approval_outcome_def log_ctx_def outcome_names)
  have yes: "approval_outcome ?session (tool_request ?ref) [] = ApprovalOutcomeApproveForSession"
    by (simp add: approval_outcome_def log_ctx_def)
  show ?thesis
    using gated_tool_needs_permission [of ?ps ?ref "''bash''" log_ctx "[]" ?body "''ls''" ?body] p no
      gated_tool_needs_permission [of ?ps ?ref "''bash''" ?session "[]" ?body "''ls''" ?body] yes
    unfolding Let_def by simp
qed

end
