(* ===== verification/File_Tools.thy ===== *)
theory File_Tools
  imports Go_Text Workspace "HOL-Library.List_Lexorder" "HOL-Library.Char_ord"
begin

text \<open>
  The built-in file tools of \<^verbatim>\<open>llm/internal/builtin\<close>: \<^verbatim>\<open>read_file\<close>, \<^verbatim>\<open>write_file\<close>, \<^verbatim>\<open>edit_file\<close>,
  \<^verbatim>\<open>delete_file\<close>, \<^verbatim>\<open>move_file\<close>, \<^verbatim>\<open>list_dir\<close>, \<^verbatim>\<open>pwd\<close>, \<^verbatim>\<open>grep\<close>, \<^verbatim>\<open>file_excerpt\<close> and
  \<^verbatim>\<open>pipeline_search_replace\<close>.

  The operations of package \<^verbatim>\<open>os\<close> act on a world \<open>'w\<close> and may fail at any call; the arguments of a
  tool are decoded by a parameter that stands for \<^verbatim>\<open>json.Unmarshal\<close>, and regular expressions are
  those of package \<^verbatim>\<open>regexp\<close>, a parameter too.  A result is the text for the model and an error.
\<close>

section \<open>The environment\<close>

record 'w file_env =
  fe_fs :: "'w \<Rightarrow> fs"
  fe_workspace :: "workspace option"
  fe_ReadFile :: "string \<Rightarrow> 'w \<Rightarrow> go_error + string"
  fe_Stat :: "string \<Rightarrow> 'w \<Rightarrow> go_error + nat"   \<comment> \<open>the file mode\<close>
  fe_ReadDir :: "string \<Rightarrow> 'w \<Rightarrow> go_error + (string \<times> bool) list"   \<comment> \<open>name, is it a directory\<close>
  fe_MkdirAll :: "string \<Rightarrow> 'w \<Rightarrow> go_error \<times> 'w"
  fe_WriteFile :: "string \<Rightarrow> string \<Rightarrow> 'w \<Rightarrow> go_error \<times> 'w"
  fe_Remove :: "string \<Rightarrow> 'w \<Rightarrow> go_error \<times> 'w"
  fe_RemoveAll :: "string \<Rightarrow> 'w \<Rightarrow> go_error \<times> 'w"
  fe_Rename :: "string \<Rightarrow> string \<Rightarrow> 'w \<Rightarrow> go_error \<times> 'w"
  fe_CreateTemp :: "string \<Rightarrow> string \<Rightarrow> 'w \<Rightarrow> (go_error + string) \<times> 'w"
  fe_Chmod :: "string \<Rightarrow> nat \<Rightarrow> 'w \<Rightarrow> go_error \<times> 'w"
  fe_Write :: "string \<Rightarrow> string \<Rightarrow> 'w \<Rightarrow> go_error \<times> 'w"
  fe_Close :: "string \<Rightarrow> 'w \<Rightarrow> go_error \<times> 'w"

type_synonym 'w tool_run = "(string \<times> go_error) \<times> 'w"

definition fe_ResolvePath :: "'w file_env \<Rightarrow> 'w \<Rightarrow> string \<Rightarrow> go_error + string" where
  "fe_ResolvePath e w p = ResolvePath (fe_fs e w) (fe_workspace e) p"

text \<open>\<^verbatim>\<open>return "", fmt.Errorf("tool: %w", err)\<close>.\<close>

definition tool_fail :: "string \<Rightarrow> go_error \<Rightarrow> string \<times> go_error" where
  "tool_fail name err = ([], [name @ '': '' @ error_text err])"

definition tool_refuse :: "string \<Rightarrow> string \<Rightarrow> string \<times> go_error" where
  "tool_refuse name msg = ([], [name @ '': '' @ msg])"

definition nl :: string where "nl = [CHR 0x0A]"

section \<open>Reading\<close>

record read_args =
  ra_Path :: string
  ra_StartLine :: "int option"
  ra_EndLine :: "int option"

text \<open>The slice of lines, on the text of the file.\<close>

definition read_slice :: "int option \<Rightarrow> int option \<Rightarrow> string \<Rightarrow> string \<times> go_error" where
  "read_slice startLine endLine data =
     (if startLine = None \<and> endLine = None then (data, [])
      else
        let ls = Split data nl;
            start = (case startLine of Some s \<Rightarrow> s | None \<Rightarrow> 1);
            end = (case endLine of Some e \<Rightarrow> e | None \<Rightarrow> int (length ls))
        in if start < 1 then tool_refuse ''read_file'' ''start_line must be >= 1''
           else if end < start then tool_refuse ''read_file'' ''end_line must be >= start_line''
           else if start > int (length ls) then ([], [])
           else
             let end = (if end > int (length ls) then int (length ls) else end)
             in (Join (take (nat (end - (start - 1))) (drop (nat (start - 1)) ls)) nl, []))"

definition read_file :: "'w file_env \<Rightarrow> (string \<Rightarrow> go_error + read_args) \<Rightarrow> string \<Rightarrow> 'w \<Rightarrow> 'w tool_run" where
  "read_file e dec arguments w =
     (case dec arguments of
        Inl err \<Rightarrow> (tool_refuse ''read_file'' (''parse arguments: '' @ error_text err), w)
      | Inr args \<Rightarrow>
          (case fe_ResolvePath e w (ra_Path args) of
             Inl err \<Rightarrow> (tool_fail ''read_file'' err, w)
           | Inr p \<Rightarrow>
               (case fe_ReadFile e p w of
                  Inl err \<Rightarrow> (tool_fail ''read_file'' err, w)
                | Inr data \<Rightarrow> (read_slice (ra_StartLine args) (ra_EndLine args) data, w))))"

definition entry_name :: "string \<times> bool \<Rightarrow> string" where
  "entry_name x = (case x of (name, isDir) \<Rightarrow> if isDir then name @ ''/'' else name)"

definition list_dir :: "'w file_env \<Rightarrow> (string \<Rightarrow> go_error + string) \<Rightarrow> string \<Rightarrow> 'w \<Rightarrow> 'w tool_run" where
  "list_dir e dec arguments w =
     (case dec arguments of
        Inl err \<Rightarrow> (tool_refuse ''list_dir'' (''parse arguments: '' @ error_text err), w)
      | Inr path \<Rightarrow>
          (case fe_ResolvePath e w (if path = [] then ''.'' else path) of
             Inl err \<Rightarrow> (tool_fail ''list_dir'' err, w)
           | Inr p \<Rightarrow>
               (case fe_ReadDir e p w of
                  Inl err \<Rightarrow> (tool_fail ''list_dir'' err, w)
                | Inr entries \<Rightarrow> ((Join (sort (map entry_name entries)) nl, []), w))))"

text \<open>\<^verbatim>\<open>WorkDir\<close> of a workspace is its temp root.\<close>

definition pwd :: "workspace \<Rightarrow> string" where
  "pwd ws =
     (if ws_skillRoot ws \<noteq> [] then ''skill_root: '' @ ws_skillRoot ws @ nl else [])
     @ ''temp_root: '' @ ws_tempRoot ws @ nl
     @ ''workdir: '' @ ws_tempRoot ws
     @ concat (map (\<lambda>dir. nl @ ''accessible_dir: '' @ dir) (ws_extraRoots ws))"

section \<open>Writing\<close>

record write_args =
  wa_Path :: string
  wa_Content :: string

definition write_file :: "'w file_env \<Rightarrow> (string \<Rightarrow> go_error + write_args) \<Rightarrow> string \<Rightarrow> 'w \<Rightarrow> 'w tool_run" where
  "write_file e dec arguments w =
     (case dec arguments of
        Inl err \<Rightarrow> (tool_refuse ''write_file'' (''parse arguments: '' @ error_text err), w)
      | Inr args \<Rightarrow>
          (case fe_ResolvePath e w (wa_Path args) of
             Inl err \<Rightarrow> (tool_fail ''write_file'' err, w)
           | Inr p \<Rightarrow>
               (case fe_MkdirAll e (path_Dir p) w of (err, w) \<Rightarrow>
                  if err \<noteq> [] then (tool_fail ''write_file'' err, w)
                  else
                    (case fe_WriteFile e p (wa_Content args) w of (err, w) \<Rightarrow>
                       if err \<noteq> [] then (tool_fail ''write_file'' err, w)
                       else ((''wrote '' @ itoa_digits (length (wa_Content args)) @ '' bytes to '' @ wa_Path args, []), w)))))"

record edit_args =
  ea_Path :: string
  ea_OldString :: string
  ea_NewString :: string

definition edit_file :: "'w file_env \<Rightarrow> (string \<Rightarrow> go_error + edit_args) \<Rightarrow> string \<Rightarrow> 'w \<Rightarrow> 'w tool_run" where
  "edit_file e dec arguments w =
     (case dec arguments of
        Inl err \<Rightarrow> (tool_refuse ''edit_file'' (''parse arguments: '' @ error_text err), w)
      | Inr args \<Rightarrow>
          if ea_OldString args = [] then (tool_refuse ''edit_file'' ''old_string must not be empty'', w)
          else
            (case fe_ResolvePath e w (ea_Path args) of
               Inl err \<Rightarrow> (tool_fail ''edit_file'' err, w)
             | Inr p \<Rightarrow>
                 (case fe_ReadFile e p w of
                    Inl err \<Rightarrow> (tool_fail ''edit_file'' err, w)
                  | Inr data \<Rightarrow>
                      let count = Count data (ea_OldString args) in
                      if count = 0 then (tool_refuse ''edit_file'' (''old_string not found in '' @ ea_Path args), w)
                      else if count > 1 then
                        (tool_refuse ''edit_file'' (''old_string is not unique in '' @ ea_Path args @ '' (found '' @ itoa_digits count @ '' matches)''), w)
                      else
                        (case fe_WriteFile e p (Replace data (ea_OldString args) (ea_NewString args) 1) w of (err, w) \<Rightarrow>
                           if err \<noteq> [] then (tool_fail ''edit_file'' err, w)
                           else ((''replaced 1 occurrence in '' @ ea_Path args, []), w)))))"

record delete_args =
  da_Path :: string
  da_Recursive :: bool

definition delete_file :: "'w file_env \<Rightarrow> (string \<Rightarrow> go_error + delete_args) \<Rightarrow> string \<Rightarrow> 'w \<Rightarrow> 'w tool_run" where
  "delete_file e dec arguments w =
     (case dec arguments of
        Inl err \<Rightarrow> (tool_refuse ''delete_file'' (''parse arguments: '' @ error_text err), w)
      | Inr args \<Rightarrow>
          (case fe_ResolvePath e w (da_Path args) of
             Inl err \<Rightarrow> (tool_fail ''delete_file'' err, w)
           | Inr p \<Rightarrow>
               if da_Recursive args then
                 (case fe_RemoveAll e p w of (err, w) \<Rightarrow>
                    if err \<noteq> [] then (tool_fail ''delete_file'' err, w)
                    else ((''removed '' @ da_Path args @ '' (recursive)'', []), w))
               else
                 (case fe_Remove e p w of (err, w) \<Rightarrow>
                    if err \<noteq> [] then (tool_fail ''delete_file'' err, w)
                    else ((''removed '' @ da_Path args, []), w))))"

record move_args =
  ma_Src :: string
  ma_Dst :: string

definition move_file :: "'w file_env \<Rightarrow> (string \<Rightarrow> go_error + move_args) \<Rightarrow> string \<Rightarrow> 'w \<Rightarrow> 'w tool_run" where
  "move_file e dec arguments w =
     (case dec arguments of
        Inl err \<Rightarrow> (tool_refuse ''move_file'' (''parse arguments: '' @ error_text err), w)
      | Inr args \<Rightarrow>
          (case fe_ResolvePath e w (ma_Src args) of
             Inl err \<Rightarrow> (tool_refuse ''move_file'' (''src: '' @ error_text err), w)
           | Inr srcAbs \<Rightarrow>
               (case fe_ResolvePath e w (ma_Dst args) of
                  Inl err \<Rightarrow> (tool_refuse ''move_file'' (''dst: '' @ error_text err), w)
                | Inr dstAbs \<Rightarrow>
                    (case fe_MkdirAll e (path_Dir dstAbs) w of (err, w) \<Rightarrow>
                       if err \<noteq> [] then (tool_fail ''move_file'' err, w)
                       else
                         (case fe_Rename e srcAbs dstAbs w of (err, w) \<Rightarrow>
                            if err \<noteq> [] then (tool_fail ''move_file'' err, w)
                            else ((''moved '' @ ma_Src args @ '' -> '' @ ma_Dst args, []), w))))))"

section \<open>Searching\<close>

text \<open>A compiled regular expression.  A match is the list of its submatch indices; its first two
  elements are where it starts and ends.\<close>

record regex =
  rx_MatchString :: "string \<Rightarrow> bool"
  rx_FindAll :: "string \<Rightarrow> int \<Rightarrow> nat list list"
  rx_Expand :: "string \<Rightarrow> string \<Rightarrow> nat list \<Rightarrow> string"

type_synonym regexp_Compile = "string \<Rightarrow> go_error + regex"

definition newLineMatcher :: "regexp_Compile \<Rightarrow> string \<Rightarrow> bool \<Rightarrow> go_error + (string \<Rightarrow> bool)" where
  "newLineMatcher compile pattern regex =
     (if regex then (case compile pattern of Inl err \<Rightarrow> Inl err | Inr re \<Rightarrow> Inr (rx_MatchString re))
      else Inr (\<lambda>line. Contains line pattern))"

definition numbered :: "string \<Rightarrow> nat \<Rightarrow> string list \<Rightarrow> string" where
  "numbered sep j ls = itoa_digits (Suc j) @ sep @ '' '' @ ls ! j"

definition truncation_note :: "nat \<Rightarrow> nat \<Rightarrow> string" where
  "truncation_note maxMatches remaining =
     nl @ ''... (truncated at '' @ itoa_digits maxMatches @ '' matches, '' @ itoa_digits remaining @ '' more)''"

definition grepDefaultMaxMatches :: int where "grepDefaultMaxMatches = 50"

text \<open>The loop of \<^verbatim>\<open>grep\<close>.  The number of context lines is an \<^verbatim>\<open>int\<close> of Go, of 64 bits, that the
  caller chooses: the sum \<^verbatim>\<open>i + args.ContextLines\<close> wraps around.  \<open>lastPrint\<close> is the highest line index
  already printed.\<close>

definition int64 :: "int \<Rightarrow> int" where
  "int64 x = (x + 2 ^ 63) mod 2 ^ 64 - 2 ^ 63"

primrec grep_loop ::
  "(string \<Rightarrow> bool) \<Rightarrow> string list \<Rightarrow> int \<Rightarrow> nat \<Rightarrow> nat list \<Rightarrow> string list \<Rightarrow> nat \<Rightarrow> int \<Rightarrow> string list \<times> bool \<times> int" where
  "grep_loop matcher ls ctx maxMatches [] out matchCount lastPrint = (out, False, lastPrint)"
| "grep_loop matcher ls ctx maxMatches (i # is) out matchCount lastPrint =
     (if \<not> matcher (ls ! i) then grep_loop matcher ls ctx maxMatches is out matchCount lastPrint
      else if Suc matchCount > maxMatches then (out, True, lastPrint)
      else
        let start = (if int i - ctx < 0 then 0 else int i - ctx);
            end = (if int64 (int i + ctx) \<ge> int (length ls) then int (length ls) - 1 else int64 (int i + ctx));
            out = (if lastPrint \<ge> 0 \<and> ctx > 0 then out @ [''--''] else out);
            start = (if start \<le> lastPrint then lastPrint + 1 else start)
        in grep_loop matcher ls ctx maxMatches is
             (out @ map (\<lambda>j. numbered (if j = i then '':'' else ''-'') j ls) [nat start..<nat (end + 1)]) (Suc matchCount) end)"

text \<open>Counting the remaining matches indexes the lines from \<^verbatim>\<open>lastPrint + 1\<close>: None is the panic when
  that is negative.\<close>

definition grep_text :: "(string \<Rightarrow> bool) \<Rightarrow> int \<Rightarrow> nat \<Rightarrow> string \<Rightarrow> string option" where
  "grep_text matcher ctx maxMatches source =
     (let ls = Split source nl in
      (case grep_loop matcher ls ctx maxMatches [0..<length ls] [] 0 (- 1) of (out, truncated, lastPrint) \<Rightarrow>
         if out = [] then Some []
         else if \<not> truncated then Some (Join out nl)
         else if lastPrint + 1 < 0 then None
         else Some (Join out nl @ truncation_note maxMatches (length (filter matcher (drop (nat (lastPrint + 1)) ls))))))"

record grep_args =
  ga_Pattern :: string
  ga_Path :: string
  ga_Text :: "string option"
  ga_Regex :: bool
  ga_ContextLines :: int
  ga_MaxMatches :: int

definition grep_source :: "'w file_env \<Rightarrow> grep_args \<Rightarrow> 'w \<Rightarrow> go_error + string" where
  "grep_source e args w =
     (case ga_Text args of
        Some t \<Rightarrow> Inr t
      | None \<Rightarrow>
          (case fe_ResolvePath e w (ga_Path args) of
             Inl err \<Rightarrow> Inl err
           | Inr p \<Rightarrow> fe_ReadFile e p w))"

text \<open>The result is None when the tool panics.\<close>

definition grep ::
  "'w file_env \<Rightarrow> regexp_Compile \<Rightarrow> (string \<Rightarrow> go_error + grep_args) \<Rightarrow> string \<Rightarrow> 'w \<Rightarrow> (string \<times> go_error) option \<times> 'w" where
  "grep e compile dec arguments w =
     (case dec arguments of
        Inl err \<Rightarrow> (Some (tool_refuse ''grep'' (''parse arguments: '' @ error_text err)), w)
      | Inr args \<Rightarrow>
          if ga_Pattern args = [] then (Some (tool_refuse ''grep'' ''pattern is required''), w)
          else if ga_Path args = [] \<and> ga_Text args = None \<or> ga_Path args \<noteq> [] \<and> ga_Text args \<noteq> None then
            (Some (tool_refuse ''grep'' ''specify exactly one of path or text''), w)
          else if ga_ContextLines args < 0 then (Some (tool_refuse ''grep'' ''context_lines must be >= 0''), w)
          else
            let maxMatches = (if ga_MaxMatches args \<le> 0 then grepDefaultMaxMatches else ga_MaxMatches args) in
            (case grep_source e args w of
               Inl err \<Rightarrow> (Some (tool_fail ''grep'' err), w)
             | Inr source \<Rightarrow>
                 (case newLineMatcher compile (ga_Pattern args) (ga_Regex args) of
                    Inl err \<Rightarrow> (Some (tool_refuse ''grep'' (''invalid regex: '' @ error_text err)), w)
                  | Inr matcher \<Rightarrow>
                      (map_option (\<lambda>out. (out, [])) (grep_text matcher (ga_ContextLines args) (nat maxMatches) source), w))))"

section \<open>Excerpts\<close>

definition fileExcerptDefaultMaxMatches :: int where "fileExcerptDefaultMaxMatches = 5"

text \<open>The windows of the first matches, in order, and the line where the limit was exceeded.\<close>

primrec excerpt_windows ::
  "(string \<Rightarrow> bool) \<Rightarrow> string list \<Rightarrow> nat \<Rightarrow> nat \<Rightarrow> nat \<Rightarrow> nat list \<Rightarrow> nat \<Rightarrow> (nat \<times> nat \<times> nat) list \<times> bool \<times> nat" where
  "excerpt_windows matcher ls before after maxMatches [] matchCount = ([], False, length ls)"
| "excerpt_windows matcher ls before after maxMatches (i # is) matchCount =
     (if \<not> matcher (ls ! i) then excerpt_windows matcher ls before after maxMatches is matchCount
      else if Suc matchCount > maxMatches then ([], True, i)
      else
        let start = (if before < i then i - before else 0);
            end = (if after < length ls - 1 - i then i + after else length ls - 1)
        in (case excerpt_windows matcher ls before after maxMatches is (Suc matchCount) of (ws, truncated, overLimit) \<Rightarrow>
              ((i, start, end) # ws, truncated, overLimit)))"

primrec excerpt_print ::
  "string list \<Rightarrow> nat set \<Rightarrow> nat \<Rightarrow> (nat \<times> nat \<times> nat) list \<Rightarrow> string list \<Rightarrow> nat \<Rightarrow> string list" where
  "excerpt_print ls anchors overLimit [] out next = out"
| "excerpt_print ls anchors overLimit (window # ws) out next =
     (case window of (i, start, end) \<Rightarrow>
        let end = (if end \<ge> overLimit then overLimit - 1 else end) in
        if end < start then excerpt_print ls anchors overLimit ws out next
        else
          let out = (if next > 0 \<and> start > next then out @ [''--''] else out);
              start = (if start < next then next else start)
          in excerpt_print ls anchors overLimit ws
               (out @ map (\<lambda>j. numbered (if j \<in> anchors then '':'' else ''-'') j ls) [start..<Suc end]) (Suc end))"

definition renderFileExcerpt :: "string \<Rightarrow> (string \<Rightarrow> bool) \<Rightarrow> nat \<Rightarrow> nat \<Rightarrow> nat \<Rightarrow> string" where
  "renderFileExcerpt source matcher before after maxMatches =
     (let ls = Split source nl in
      (case excerpt_windows matcher ls before after maxMatches [0..<length ls] 0 of (ws, truncated, overLimit) \<Rightarrow>
         if ws = [] then []
         else Join (excerpt_print ls (fst ` set ws) overLimit ws [] 0) nl
           @ (if truncated
              then truncation_note maxMatches (length (filter matcher ls) - maxMatches)
              else [])))"

record excerpt_args =
  xa_Path :: string
  xa_AnchorPattern :: string
  xa_Before :: int
  xa_After :: int
  xa_Regex :: bool
  xa_MaxMatches :: int

definition file_excerpt ::
  "'w file_env \<Rightarrow> regexp_Compile \<Rightarrow> (string \<Rightarrow> go_error + excerpt_args) \<Rightarrow> string \<Rightarrow> 'w \<Rightarrow> 'w tool_run" where
  "file_excerpt e compile dec arguments w =
     (case dec arguments of
        Inl err \<Rightarrow> (tool_refuse ''file_excerpt'' (''parse arguments: '' @ error_text err), w)
      | Inr args \<Rightarrow>
          if xa_AnchorPattern args = [] then (tool_refuse ''file_excerpt'' ''anchor_pattern is required'', w)
          else if xa_Before args < 0 then (tool_refuse ''file_excerpt'' ''before must be >= 0'', w)
          else if xa_After args < 0 then (tool_refuse ''file_excerpt'' ''after must be >= 0'', w)
          else if xa_MaxMatches args < 0 then (tool_refuse ''file_excerpt'' ''max_matches must be >= 0'', w)
          else
            let maxMatches = (if xa_MaxMatches args = 0 then fileExcerptDefaultMaxMatches else xa_MaxMatches args) in
            (case fe_ResolvePath e w (xa_Path args) of
               Inl err \<Rightarrow> (tool_fail ''file_excerpt'' err, w)
             | Inr p \<Rightarrow>
                 (case fe_ReadFile e p w of
                    Inl err \<Rightarrow> (tool_fail ''file_excerpt'' err, w)
                  | Inr data \<Rightarrow>
                      (case newLineMatcher compile (xa_AnchorPattern args) (xa_Regex args) of
                         Inl err \<Rightarrow> (tool_refuse ''file_excerpt'' (''invalid regex: '' @ error_text err), w)
                       | Inr matcher \<Rightarrow>
                           ((renderFileExcerpt data matcher (nat (xa_Before args)) (nat (xa_After args)) (nat maxMatches), []), w)))))"

section \<open>Replacing\<close>

text \<open>The loop over the matches of a regular expression: \<open>lst\<close> is where the previous one ended.\<close>

primrec expand_matches :: "regex \<Rightarrow> string \<Rightarrow> string \<Rightarrow> nat \<Rightarrow> nat list list \<Rightarrow> string" where
  "expand_matches re replacement content lst [] = drop lst content"
| "expand_matches re replacement content lst (m # ms) =
     take (m ! 0 - lst) (drop lst content) @ rx_Expand re replacement content m
     @ expand_matches re replacement content (m ! 1) ms"

definition replacePipelineMatches ::
  "regexp_Compile \<Rightarrow> string \<Rightarrow> string \<Rightarrow> string \<Rightarrow> bool \<Rightarrow> nat \<Rightarrow> go_error + string \<times> nat" where
  "replacePipelineMatches compile content pattern replacement regex maxReplacements =
     (if \<not> regex then
        (let count = Count content pattern;
             count = (if maxReplacements > 0 \<and> count > maxReplacements then maxReplacements else count)
         in if count = 0 then Inr (content, 0) else Inr (Replace content pattern replacement count, count))
      else
        (case compile pattern of
           Inl err \<Rightarrow> Inl [''pipeline_search_replace: invalid regex: '' @ error_text err]
         | Inr re \<Rightarrow>
             let matches = rx_FindAll re content (if maxReplacements > 0 then int maxReplacements else - 1) in
             if matches = [] then Inr (content, 0)
             else Inr (expand_matches re replacement content 0 matches, length matches)))"

text \<open>\<^verbatim>\<open>replaceFileAtomically\<close>: every error after the temporary file exists removes it again.\<close>

definition drop_temp :: "'w file_env \<Rightarrow> string \<Rightarrow> go_error \<Rightarrow> 'w \<Rightarrow> go_error \<times> 'w" where
  "drop_temp e tmpPath err w = (err, snd (fe_Remove e tmpPath w))"

definition close_and_drop :: "'w file_env \<Rightarrow> string \<Rightarrow> go_error \<Rightarrow> 'w \<Rightarrow> go_error \<times> 'w" where
  "close_and_drop e tmpPath err w = drop_temp e tmpPath err (snd (fe_Close e tmpPath w))"

definition replaceFileAtomically :: "'w file_env \<Rightarrow> string \<Rightarrow> string \<Rightarrow> nat \<Rightarrow> 'w \<Rightarrow> go_error \<times> 'w" where
  "replaceFileAtomically e path data mode w =
     (case fe_CreateTemp e (path_Dir path) ''.pipeline-search-replace-*'' w of
        (Inl err, w) \<Rightarrow> (err, w)
      | (Inr tmpPath, w) \<Rightarrow>
          (case fe_Chmod e tmpPath mode w of (err, w) \<Rightarrow>
             if err \<noteq> [] then close_and_drop e tmpPath err w
             else
               (case fe_Write e tmpPath data w of (err, w) \<Rightarrow>
                  if err \<noteq> [] then close_and_drop e tmpPath err w
                  else
                    (case fe_Close e tmpPath w of (err, w) \<Rightarrow>
                       if err \<noteq> [] then drop_temp e tmpPath err w
                       else
                         (case fe_Rename e tmpPath path w of (err, w) \<Rightarrow>
                            if err \<noteq> [] then drop_temp e tmpPath err w else ([], w))))))"

record pipeline_args =
  pa_Path :: string
  pa_Pattern :: string
  pa_Replacement :: string
  pa_Regex :: bool
  pa_MaxReplacements :: int

definition pipeline_search_replace ::
  "'w file_env \<Rightarrow> regexp_Compile \<Rightarrow> (string \<Rightarrow> go_error + pipeline_args) \<Rightarrow> string \<Rightarrow> 'w \<Rightarrow> 'w tool_run" where
  "pipeline_search_replace e compile dec arguments w =
     (let name = ''pipeline_search_replace'' in
      case dec arguments of
        Inl err \<Rightarrow> (tool_refuse name (''parse arguments: '' @ error_text err), w)
      | Inr args \<Rightarrow>
          if pa_Pattern args = [] then (tool_refuse name ''pattern is required'', w)
          else if pa_MaxReplacements args < 0 then (tool_refuse name ''max_replacements must be >= 0'', w)
          else
            (case fe_ResolvePath e w (pa_Path args) of
               Inl err \<Rightarrow> (tool_fail name err, w)
             | Inr p \<Rightarrow>
                 (case fe_Stat e p w of
                    Inl err \<Rightarrow> (tool_fail name err, w)
                  | Inr mode \<Rightarrow>
                      (case fe_ReadFile e p w of
                         Inl err \<Rightarrow> (tool_fail name err, w)
                       | Inr content \<Rightarrow>
                           (case replacePipelineMatches compile content (pa_Pattern args) (pa_Replacement args)
                                   (pa_Regex args) (nat (pa_MaxReplacements args)) of
                              Inl err \<Rightarrow> (([], err), w)
                            | Inr (updated, replacements) \<Rightarrow>
                                let res = (''replaced '' @ itoa_digits replacements @ '' occurrence(s) in '' @ pa_Path args, []) in
                                if replacements > 0 then
                                  (case replaceFileAtomically e p updated mode w of (err, w) \<Rightarrow>
                                     if err \<noteq> [] then (tool_fail name err, w) else (res, w))
                                else (res, w))))))"

end
