(* ===== verification/File_Tools_Theorems.thy ===== *)
theory File_Tools_Theorems
  imports File_Tools
begin

text \<open>
  Properties of the file tools: what an excerpt shows, what an edit changes, that replacing is
  all or nothing, and that no tool touches a path outside the workspace.
\<close>

section \<open>Excerpts\<close>

text \<open>
  The reference: of the lines before the limit, those close enough to a match are shown in order,
  each once, with a separator wherever lines are left out in between.
\<close>

definition matches_at :: "(string \<Rightarrow> bool) \<Rightarrow> string list \<Rightarrow> nat list" where
  "matches_at matcher ls = filter (\<lambda>i. matcher (ls ! i)) [0..<length ls]"

definition limit_line :: "string list \<Rightarrow> nat list \<Rightarrow> nat" where
  "limit_line ls rest = (case rest of [] \<Rightarrow> length ls | i # _ \<Rightarrow> i)"

definition near :: "nat \<Rightarrow> nat \<Rightarrow> nat list \<Rightarrow> nat \<Rightarrow> bool" where
  "near before after anchors j \<longleftrightarrow> list_ex (\<lambda>i. i \<le> j + before \<and> j \<le> i + after) anchors"

definition shown_piece :: "(nat \<Rightarrow> bool) \<Rightarrow> (nat \<Rightarrow> string) \<Rightarrow> nat \<Rightarrow> string list" where
  "shown_piece P num j =
     (if P j then (if j > 0 \<and> \<not> P (j - 1) \<and> list_ex P [0..<j] then [''--''] else []) @ [num j] else [])"

definition shown_lines :: "(nat \<Rightarrow> bool) \<Rightarrow> (nat \<Rightarrow> string) \<Rightarrow> nat \<Rightarrow> string list" where
  "shown_lines P num n = concat (map (shown_piece P num) [0..<n])"

text \<open>The computation of windows.\<close>

definition excerpt_window :: "string list \<Rightarrow> nat \<Rightarrow> nat \<Rightarrow> nat \<Rightarrow> nat \<times> nat \<times> nat" where
  "excerpt_window ls before after i = (i, i - before, min (i + after) (length ls - 1))"

lemma excerpt_windows_result:
  "\<forall>i \<in> set is. i < length ls \<Longrightarrow>
   excerpt_windows matcher ls before after maxMatches is k
     = (let F = filter (\<lambda>i. matcher (ls ! i)) is
        in (map (excerpt_window ls before after) (take (maxMatches - k) F), maxMatches - k < length F,
            limit_line ls (drop (maxMatches - k) F)))"
proof (induction "is" arbitrary: k)
  case Nil
  then show ?case by (simp add: limit_line_def)
next
  case (Cons i "is")
  have w: "(if before < i then i - before else 0) = i - before" by simp
  have e: "(if after < length ls - 1 - i then i + after else length ls - 1) = min (i + after) (length ls - 1)"
    using Cons.prems by (auto simp: min_def)
  show ?case
  proof (cases "matcher (ls ! i)")
    case False
    then show ?thesis using Cons by simp
  next
    case True
    show ?thesis
    proof (cases "Suc k > maxMatches")
      case True
      then show ?thesis using \<open>matcher (ls ! i)\<close> by (simp add: limit_line_def)
    next
      case False
      then obtain d where d: "maxMatches - k = Suc d" "maxMatches - Suc k = d" by (metis Suc_diff_Suc not_less_eq)
      show ?thesis
        using Cons.IH [of "Suc k"] Cons.prems False \<open>matcher (ls ! i)\<close> d
        by (simp add: Let_def w e excerpt_window_def)
    qed
  qed
qed

lemma upt_split: "a \<le> b \<Longrightarrow> b \<le> c \<Longrightarrow> [a..<c] = [a..<b] @ [b..<c]"
  by (metis le_add_diff_inverse upt_add_eq_append)

lemma shown_extend:
  assumes old: "\<And>j. j < nx \<Longrightarrow> P j = Q j" "\<And>j. Q j \<Longrightarrow> j < nx" "nx > 0 \<Longrightarrow> Q (nx - 1)"
    and new: "\<And>j. nx \<le> j \<Longrightarrow> P j \<longleftrightarrow> s \<le> j \<and> j < t" and le: "nx \<le> s" "s < t" "t \<le> n"
  shows "shown_lines P num n = shown_lines Q num n @ (if nx > 0 \<and> s > nx then [''--''] else []) @ map num [s..<t]"
proof -
  have ex: "list_ex R [0..<m] \<longleftrightarrow> (\<exists>k < m. R k)" for R m by (auto simp: list_ex_iff)
  have split: "[0..<n] = [0..<nx] @ [nx..<s] @ [s..<t] @ [t..<n]" "[0..<n] = [0..<nx] @ [nx..<n]"
    using le upt_split [of 0 nx n] upt_split [of nx s n] upt_split [of s t n] by simp_all
  have q: "concat (map (shown_piece Q num) [nx..<n]) = []" using old(2) by (force simp: shown_piece_def)
  have a: "concat (map (shown_piece P num) [0..<nx]) = concat (map (shown_piece Q num) [0..<nx])"
  proof -
    have "shown_piece P num j = shown_piece Q num j" if "j < nx" for j
      using that old(1) [of j] old(1) [of "j - 1"] old(1) by (auto simp: shown_piece_def ex)
    then show ?thesis by (intro arg_cong [where f = concat] map_cong) auto
  qed
  have b: "concat (map (shown_piece P num) [nx..<s]) = []" "concat (map (shown_piece P num) [t..<n]) = []"
    using new le by (auto simp: shown_piece_def)
  have first: "shown_piece P num s = (if nx > 0 \<and> s > nx then [''--''] else []) @ [num s]"
  proof -
    have "P s" using new le by simp
    moreover have "(s > 0 \<and> \<not> P (s - 1) \<and> (\<exists>k < s. P k)) \<longleftrightarrow> nx > 0 \<and> s > nx"
    proof (cases "s = nx")
      case True
      then show ?thesis using old(1) [of "nx - 1"] old(3) by (cases "nx > 0") auto
    next
      case False
      then have "nx < s" using le by simp
      then have "\<not> P (s - 1)" using new [of "s - 1"] le by auto
      moreover have "(\<exists>k < s. P k) \<longleftrightarrow> nx > 0"
      proof
        assume "\<exists>k < s. P k"
        then obtain k where "k < s" "P k" by blast
        then show "nx > 0" using new [of k] by (cases "k < nx") auto
      next
        assume "nx > 0"
        then have "P (nx - 1)" using old(1) [of "nx - 1"] old(3) by simp
        moreover have "nx - 1 < s" using \<open>nx < s\<close> by simp
        ultimately show "\<exists>k < s. P k" by blast
      qed
      ultimately show ?thesis using \<open>nx < s\<close> by simp
    qed
    ultimately show ?thesis by (simp add: shown_piece_def ex)
  qed
  have rest: "concat (map (shown_piece P num) [Suc s..<t]) = map num [Suc s..<t]"
  proof -
    have "shown_piece P num j = [num j]" if "s < j" "j < t" for j
    proof -
      have "P j" "P (j - 1)" using that new [of j] new [of "j - 1"] le by auto
      then show ?thesis by (simp add: shown_piece_def)
    qed
    then have "map (shown_piece P num) [Suc s..<t] = map (\<lambda>j. [num j]) [Suc s..<t]" by auto
    moreover have "concat (map (\<lambda>j. [num j]) js) = map num js" for js by (induction js) simp_all
    ultimately show ?thesis by metis
  qed
  have "[s..<t] = s # [Suc s..<t]" using le by (simp add: upt_conv_Cons)
  then have "concat (map (shown_piece P num) [s..<t]) = (if nx > 0 \<and> s > nx then [''--''] else []) @ map num [s..<t]"
    using first rest by simp
  moreover have "shown_lines P num n = concat (map (shown_piece P num) [0..<nx]) @ concat (map (shown_piece P num) [s..<t])"
    unfolding shown_lines_def split(1) by (simp only: map_append concat_append b append_Nil append_Nil2)
  moreover have "shown_lines Q num n = concat (map (shown_piece Q num) [0..<nx])"
    unfolding shown_lines_def split(2) by (simp only: map_append concat_append q append_Nil2)
  ultimately show ?thesis using a by simp
qed

text \<open>Printing window by window gives the lines near an anchor.\<close>

definition after_windows :: "nat \<Rightarrow> nat \<Rightarrow> nat list \<Rightarrow> nat" where
  "after_windows after lim pre = (if pre = [] then 0 else Suc (min (last pre + after) (lim - 1)))"

abbreviation excerpt_num :: "string list \<Rightarrow> nat set \<Rightarrow> nat \<Rightarrow> string" where
  "excerpt_num ls anchors j \<equiv> numbered (if j \<in> anchors then '':'' else ''-'') j ls"

lemma near_snoc: "near b a (pre @ [i]) j \<longleftrightarrow> near b a pre j \<or> i \<le> j + b \<and> j \<le> i + a"
  by (auto simp: near_def)

lemma near_last:
  assumes "sorted (pre @ [i])" "near b a (pre @ [i]) j"
  shows "j \<le> i + a"
  using assms by (fastforce simp: near_def list_ex_iff sorted_append)

lemma excerpt_print_result:
  assumes "sorted (pre @ as)" "\<forall>i \<in> set (pre @ as). i < lim" "lim \<le> length ls"
  shows "excerpt_print ls anchors lim (map (excerpt_window ls before after) as)
      (shown_lines (\<lambda>j. j < lim \<and> near before after pre j) (excerpt_num ls anchors) lim) (after_windows after lim pre)
    = shown_lines (\<lambda>j. j < lim \<and> near before after (pre @ as) j) (excerpt_num ls anchors) lim"
  using assms
proof (induction as arbitrary: pre)
  case (Cons i as)
  let ?Q = "\<lambda>j. j < lim \<and> near before after pre j" and ?P = "\<lambda>j. j < lim \<and> near before after (pre @ [i]) j"
  let ?nx = "after_windows after lim pre" and ?num = "excerpt_num ls anchors"
  define e where "e = min (i + after) (lim - 1)"
  have i: "i < lim" "i < length ls" using Cons.prems by auto
  then have e: "e < lim" "i \<le> e" by (auto simp: e_def)
  have cut: "(if min (i + after) (length ls - 1) \<ge> lim then lim - 1 else min (i + after) (length ls - 1)) = e"
    using Cons.prems(3) i by (auto simp: e_def)
  have Q: "j < ?nx" if "?Q j" for j
  proof (cases pre rule: rev_cases)
    case (snoc pre' k)
    then have "j \<le> k + after" using near_last [of pre' k before after j] that Cons.prems(1) by (simp add: sorted_append)
    with that snoc show ?thesis by (auto simp: after_windows_def)
  qed (use that in \<open>simp add: near_def\<close>)
  have Qlast: "?Q (?nx - 1)" if "?nx > 0"
  proof (cases pre rule: rev_cases)
    case (snoc pre' k)
    then have "k < lim" using Cons.prems(2) by simp
    with snoc show ?thesis by (auto simp: after_windows_def near_def)
  qed (use that in \<open>simp add: after_windows_def\<close>)
  have nx: "?nx \<le> Suc e" using Cons.prems(1) by (cases pre rule: rev_cases) (auto simp: after_windows_def e_def sorted_append)
  have PQ: "?P j = ?Q j" if "j < ?nx" for j
  proof -
    have "near before after pre j" if "i \<le> j + before" "j \<le> i + after" "j < lim"
    proof (cases pre rule: rev_cases)
      case Nil
      with \<open>j < ?nx\<close> show ?thesis by (simp add: after_windows_def)
    next
      case (snoc pre' k)
      have "k \<le> i" using Cons.prems(1) snoc by (simp add: sorted_append)
      with snoc that \<open>j < ?nx\<close> show ?thesis by (auto simp: near_def after_windows_def)
    qed
    then show ?thesis by (auto simp: near_snoc)
  qed
  have Pnew: "?P j \<longleftrightarrow> max (i - before) ?nx \<le> j \<and> j < Suc e" if "?nx \<le> j" for j
    using Q [of j] that i by (auto simp: near_snoc e_def)
  have step: "shown_lines ?P ?num lim = (if ?nx > 0 \<and> i - before > ?nx then shown_lines ?Q ?num lim @ [''--''] else shown_lines ?Q ?num lim)
      @ map ?num [if i - before < ?nx then ?nx else i - before..<Suc e]"
  proof (cases "?nx = Suc e")
    case True
    have "?P j = ?Q j" for j using PQ [of j] Pnew [of j] Q [of j] True by (cases "j < ?nx") auto
    moreover have "i - before < ?nx" using True e by simp
    ultimately show ?thesis using True by simp
  next
    case False
    have "shown_lines ?P ?num lim = shown_lines ?Q ?num lim @ (if ?nx > 0 \<and> max (i - before) ?nx > ?nx then [''--''] else [])
        @ map ?num [max (i - before) ?nx..<Suc e]"
      by (rule shown_extend [of ?nx ?P ?Q]) (use PQ Q Qlast Pnew False nx e in auto)
    then show ?thesis by (auto simp: max_def)
  qed
  have nx': "Suc e = after_windows after lim (pre @ [i])" by (simp add: after_windows_def e_def)
  have "\<not> e < i - before" using e by simp
  then have "excerpt_print ls anchors lim (map (excerpt_window ls before after) (i # as)) (shown_lines ?Q ?num lim) ?nx
      = excerpt_print ls anchors lim (map (excerpt_window ls before after) as) (shown_lines ?P ?num lim) (Suc e)"
    unfolding list.map excerpt_window_def excerpt_print.simps prod.case Let_def cut step by (simp only: if_False)
  also have "\<dots> = shown_lines (\<lambda>j. j < lim \<and> near before after ((pre @ [i]) @ as) j) ?num lim"
    unfolding nx' by (rule Cons.IH) (use Cons.prems in simp_all)
  finally show ?case by simp
qed simp

text \<open>C1. An excerpt consists of exactly the lines that are at most \<open>before\<close> lines before or \<open>after\<close>
  lines after one of the first matches and before the match that exceeds the limit, in order and
  each once, a match marked by a colon, with a separator exactly where lines are left out; when
  the limit was exceeded, the number of matches not shown follows.\<close>

theorem excerpt_shows_lines_near_matches:
  assumes "0 < maxMatches"
  shows "renderFileExcerpt source matcher before after maxMatches =
    (let ls = Split source nl; F = matches_at matcher ls; lim = limit_line ls (drop maxMatches F)
     in Join (shown_lines (\<lambda>j. j < lim \<and> near before after (take maxMatches F) j)
               (\<lambda>j. numbered (if matcher (ls ! j) then '':'' else ''-'') j ls) lim) nl
        @ (if maxMatches < length F then truncation_note maxMatches (length F - maxMatches) else []))"
proof -
  define ls where "ls = Split source nl"
  define F where "F = matches_at matcher ls"
  define lim where "lim = limit_line ls (drop maxMatches F)"
  let ?A = "take maxMatches F"
  have F: "sorted F" "distinct F" "\<forall>i \<in> set F. i < length ls \<and> matcher (ls ! i)"
    by (auto simp: F_def matches_at_def intro: sorted_wrt_filter)
  have windows: "excerpt_windows matcher ls before after maxMatches [0..<length ls] 0
      = (map (excerpt_window ls before after) ?A, maxMatches < length F, lim)"
    by (subst excerpt_windows_result) (simp_all add: Let_def lim_def F_def matches_at_def)
  have lim: "lim \<le> length ls"
  proof (cases "drop maxMatches F")
    case (Cons k ks)
    then have "k \<in> set F" by (metis in_set_dropD list.set_intros(1))
    then show ?thesis using F(3) Cons by (auto simp: lim_def limit_line_def)
  qed (simp add: lim_def limit_line_def)
  have below: "\<forall>i \<in> set ?A. i < lim"
  proof (cases "drop maxMatches F")
    case Nil
    then show ?thesis using F(3) by (auto simp: lim_def limit_line_def dest: in_set_takeD)
  next
    case (Cons k ks)
    have "sorted (?A @ k # ks)" "distinct (?A @ k # ks)" using F(1,2) Cons by (metis append_take_drop_id)+
    with Cons show ?thesis by (auto simp: lim_def limit_line_def sorted_append le_less)
  qed
  have marks: "matcher (ls ! j) \<longleftrightarrow> j \<in> set ?A" if "j < lim" for j
  proof
    assume "matcher (ls ! j)"
    then have "j \<in> set F" using that lim by (simp add: F_def matches_at_def)
    then have "j \<in> set ?A \<or> j \<in> set (drop maxMatches F)" by (metis Un_iff append_take_drop_id set_append)
    moreover have "j \<notin> set (drop maxMatches F)"
    proof (cases "drop maxMatches F")
      case (Cons k ks)
      have "sorted (k # ks)" using F(1) Cons by (metis sorted_wrt_drop)
      with Cons that show ?thesis by (auto simp: lim_def limit_line_def)
    qed simp
    ultimately show "j \<in> set ?A" by blast
  qed (use F(3) in \<open>auto dest: in_set_takeD\<close>)
  have none: "shown_lines (\<lambda>j. j < lim \<and> near before after [] j) num lim = []" for num
    by (simp add: shown_lines_def shown_piece_def near_def)
  have "excerpt_print ls (set ?A) lim (map (excerpt_window ls before after) ?A) [] 0
      = shown_lines (\<lambda>j. j < lim \<and> near before after ?A j) (excerpt_num ls (set ?A)) lim"
    using excerpt_print_result [of "[]" ?A lim ls "set ?A" before after] F(1) below lim
    by (simp add: sorted_wrt_take none after_windows_def)
  also have "\<dots> = shown_lines (\<lambda>j. j < lim \<and> near before after ?A j)
      (\<lambda>j. numbered (if matcher (ls ! j) then '':'' else ''-'') j ls) lim"
    unfolding shown_lines_def by (intro arg_cong [where f = concat] map_cong) (auto simp: shown_piece_def marks)
  finally have print: "excerpt_print ls (set ?A) lim (map (excerpt_window ls before after) ?A) [] 0 = \<dots>" .
  have anchors: "fst ` set (map (excerpt_window ls before after) ?A) = set ?A" by (force simp: excerpt_window_def)
  have total: "length (filter matcher ls) = length F"
  proof -
    have "filter matcher ls = map ((!) ls) F"
      using filter_map [of matcher "(!) ls" "[0..<length ls]"] unfolding map_nth F_def matches_at_def o_def .
    then show ?thesis by simp
  qed
  show ?thesis
  proof (cases "F = []")
    case True
    with windows none show ?thesis
      unfolding renderFileExcerpt_def Let_def ls_def [symmetric] F_def [symmetric] lim_def [symmetric] by simp
  next
    case False
    then have ne: "map (excerpt_window ls before after) ?A \<noteq> []" using assms by simp
    show ?thesis
      unfolding renderFileExcerpt_def Let_def ls_def [symmetric] F_def [symmetric] lim_def [symmetric] windows prod.case
        if_not_P [OF ne] anchors print total ..
  qed
qed

text \<open>The limit in action: of three matches two are shown, with one line after each.\<close>

theorem excerpt_shows_lines_near_matches_witness:
  "renderFileExcerpt (Join [''x'', ''a'', ''b'', ''x'', ''c'', ''x''] nl) (\<lambda>l. l = ''x'') 0 1 2
    = Join [''1: x'', ''2- a'', ''--'', ''4: x'', ''5- c''] nl @ truncation_note 2 1"
proof -
  have "(0::nat) < 2" by simp
  then show ?thesis by (subst excerpt_shows_lines_near_matches) (assumption, code_simp)
qed

section \<open>Matches that look like context\<close>

text \<open>\<^verbatim>\<open>grep\<close> prints a match that falls into the context of the one before as a context line, followed
  by a separator with nothing behind it; and its count of further matches starts behind the
  printed lines, so that it misses such a match.\<close>

theorem grep_hides_adjacent_match:
  "grep_text (\<lambda>l. l = ''x'') 1 50 (''x'' @ nl @ ''x'') = Some (''1: x'' @ nl @ ''2- x'' @ nl @ ''--'')"
  "grep_text (\<lambda>l. l = ''x'') 1 1 (''x'' @ nl @ ''x'') = Some (''1: x'' @ nl @ ''2- x'' @ truncation_note 1 0)"
  by code_simp+

text \<open>As long as the context fits behind the last line number in 64 bits, \<^verbatim>\<open>grep\<close> does not panic; with
  the largest context it does, on the third of three matching lines.\<close>

lemma grep_loop_last:
  assumes "0 \<le> ctx" "ctx + int (length ls) < 2 ^ 63"
  shows "\<forall>i \<in> set is. i < length ls \<Longrightarrow> - 1 \<le> lp \<Longrightarrow>
    grep_loop matcher ls ctx k is out n lp = (out', tr, lp') \<Longrightarrow> - 1 \<le> lp'"
proof (induction "is" arbitrary: out n lp)
  case (Cons i "is")
  have "int64 (int i + ctx) = int i + ctx" using Cons.prems(1) assms by (simp add: int64_def)
  then have last: "- 1 \<le> (if int64 (int i + ctx) \<ge> int (length ls) then int (length ls) - 1 else int64 (int i + ctx))"
    using assms(1) by simp
  show ?case
  proof (cases "matcher (ls ! i) \<and> Suc n \<le> k")
    case True
    then show ?thesis using Cons.prems(1,3) Cons.IH [OF _ last] by (simp add: Let_def)
  next
    case False
    then show ?thesis using Cons.prems Cons.IH [OF _ Cons.prems(2)] by (auto split: if_splits)
  qed
qed simp

lemma grep_no_panic:
  assumes "0 \<le> ctx" "ctx + int (length (Split source nl)) < 2 ^ 63"
  shows "\<exists>s. grep_text matcher ctx maxMatches source = Some s"
proof -
  obtain out' tr lp where l: "grep_loop matcher (Split source nl) ctx maxMatches [0..<length (Split source nl)] [] 0 (- 1) = (out', tr, lp)"
    by (metis prod_cases3)
  have "- 1 \<le> lp" by (rule grep_loop_last [OF assms _ _ l]) simp_all
  then show ?thesis using l by (simp add: grep_text_def Let_def)
qed

theorem grep_context_overflow_panics:
  "grep_text (\<lambda>l. l = ''x'') 9223372036854775807 2 (''x'' @ nl @ ''x'' @ nl @ ''x'') = None"
  by code_simp

section \<open>Edits\<close>

text \<open>An edit with a single counted match writes the file with the first occurrence replaced and
  nothing else changed; with no match or several it reports an error and writes nothing.\<close>

theorem edit_replaces_first_occurrence:
  assumes "dec arguments = Inr args" "ea_OldString args \<noteq> []" "fe_ResolvePath e w (ea_Path args) = Inr p"
    and "fe_ReadFile e p w = Inr data"
  shows "(Count data (ea_OldString args) = 1 \<longrightarrow>
      (\<exists>a b. data = a @ ea_OldString args @ b \<and> \<not> Contains b (ea_OldString args)
         \<and> (\<forall>x y. data = x @ ea_OldString args @ y \<longrightarrow> length a \<le> length x)
         \<and> (\<forall>err v. fe_WriteFile e p (a @ ea_NewString args @ b) w = (err, v) \<longrightarrow>
              snd (edit_file e dec arguments w) = v \<and> (snd (fst (edit_file e dec arguments w)) = [] \<longleftrightarrow> err = []))))
    \<and> (Count data (ea_OldString args) \<noteq> 1 \<longrightarrow>
      snd (edit_file e dec arguments w) = w \<and> snd (fst (edit_file e dec arguments w)) \<noteq> [])"
proof (intro conjI impI)
  assume one: "Count data (ea_OldString args) = 1"
  then have run: "edit_file e dec arguments w =
      (case fe_WriteFile e p (Replace data (ea_OldString args) (ea_NewString args) 1) w of (err, v) \<Rightarrow>
         if err \<noteq> [] then (tool_fail ''edit_file'' err, v)
         else ((''replaced 1 occurrence in '' @ ea_Path args, []), v))"
    unfolding edit_file_def assms(1,3,4) sum.case Let_def using assms(2) by simp
  from one obtain a b where ab: "data = a @ ea_OldString args @ b"
    "Replace data (ea_OldString args) (ea_NewString args) 1 = a @ ea_NewString args @ b"
    "\<not> Contains b (ea_OldString args)" "free_of a (ea_OldString args @ b) (ea_OldString args)" by (rule Count_one)
  have "\<forall>x y. data = x @ ea_OldString args @ y \<longrightarrow> length a \<le> length x"
    unfolding ab(1) by (intro allI impI) (rule free_of_first [OF ab(4)])
  moreover have "\<forall>err v. fe_WriteFile e p (a @ ea_NewString args @ b) w = (err, v) \<longrightarrow>
      snd (edit_file e dec arguments w) = v \<and> (snd (fst (edit_file e dec arguments w)) = [] \<longleftrightarrow> err = [])"
  proof (intro allI impI)
    fix err v assume "fe_WriteFile e p (a @ ea_NewString args @ b) w = (err, v)"
    then have "edit_file e dec arguments w = (if err \<noteq> [] then (tool_fail ''edit_file'' err, v)
        else ((''replaced 1 occurrence in '' @ ea_Path args, []), v))" unfolding run ab(2) by simp
    then show "snd (edit_file e dec arguments w) = v \<and> (snd (fst (edit_file e dec arguments w)) = [] \<longleftrightarrow> err = [])"
      by (simp add: tool_fail_def)
  qed
  ultimately show "\<exists>a b. data = a @ ea_OldString args @ b \<and> \<not> Contains b (ea_OldString args)
      \<and> (\<forall>x y. data = x @ ea_OldString args @ y \<longrightarrow> length a \<le> length x)
      \<and> (\<forall>err v. fe_WriteFile e p (a @ ea_NewString args @ b) w = (err, v) \<longrightarrow>
           snd (edit_file e dec arguments w) = v \<and> (snd (fst (edit_file e dec arguments w)) = [] \<longleftrightarrow> err = []))"
    using ab(1,3) by blast
next
  assume "Count data (ea_OldString args) \<noteq> 1"
  then show "snd (edit_file e dec arguments w) = w" "snd (fst (edit_file e dec arguments w)) \<noteq> []"
    unfolding edit_file_def assms(1,3,4) sum.case Let_def using assms(2) by (simp_all add: tool_refuse_def)
qed

text \<open>A disk that holds files by path, on which every operation but those on missing files succeeds.\<close>

definition disk_env :: "(string, string) gomap file_env" where
  "disk_env =
     \<lparr>fe_fs = (\<lambda>_. play_fs), fe_workspace = Some play_ws,
      fe_ReadFile = (\<lambda>p d. case map_get d p of Some s \<Rightarrow> Inr s | None \<Rightarrow> Inl [''no such file'']),
      fe_Stat = (\<lambda>p d. if map_has d p then Inr 420 else Inl [''no such file'']),
      fe_ReadDir = (\<lambda>p d. Inl [''not a directory'']),
      fe_MkdirAll = (\<lambda>p d. ([], d)),
      fe_WriteFile = (\<lambda>p s d. ([], map_set d p s)),
      fe_Remove = (\<lambda>p d. (if map_has d p then [] else [''no such file''], map_delete d p)),
      fe_RemoveAll = (\<lambda>p d. ([], map_delete d p)),
      fe_Rename = (\<lambda>p q d. case map_get d p of Some s \<Rightarrow> ([], map_set (map_delete d p) q s) | None \<Rightarrow> ([''no such file''], d)),
      fe_CreateTemp = (\<lambda>p pat d. let t = p @ ''/.tmp'' in if map_has d t then (Inl [''file exists''], d) else (Inr t, map_set d t [])),
      fe_Chmod = (\<lambda>p m d. ([], d)),
      fe_Write = (\<lambda>p s d. case map_get d p of Some x \<Rightarrow> ([], map_set d p (x @ s)) | None \<Rightarrow> ([''no such file''], d)),
      fe_Close = (\<lambda>p d. ([], d))\<rparr>"

definition edit_example :: "string \<Rightarrow> go_error + edit_args" where
  "edit_example _ = Inr \<lparr>ea_Path = ''f'', ea_OldString = ''old'', ea_NewString = ''new''\<rparr>"

theorem edit_replaces_first_occurrence_witness:
  "snd (edit_file disk_env edit_example [] [(''/tmp/w/f'', ''old text'')]) = [(''/tmp/w/f'', ''new text'')]"
proof -
  let ?d = "[(''/tmp/w/f'', ''old text'')]" and ?args = "\<lparr>ea_Path = ''f'', ea_OldString = ''old'', ea_NewString = ''new''\<rparr>"
  have h: "edit_example [] = Inr ?args" "ea_OldString ?args \<noteq> []" "fe_ResolvePath disk_env ?d (ea_Path ?args) = Inr ''/tmp/w/f''"
    "fe_ReadFile disk_env ''/tmp/w/f'' ?d = Inr ''old text''" "Count ''old text'' (ea_OldString ?args) = 1" by code_simp+
  from edit_replaces_first_occurrence [of edit_example "[]" ?args disk_env ?d "''/tmp/w/f''" "''old text''", OF h(1-4)] h(5) obtain a b where
    ab: "''old text'' = a @ ''old'' @ b" "\<forall>x y. ''old text'' = x @ ''old'' @ y \<longrightarrow> length a \<le> length x"
    "\<forall>err v. fe_WriteFile disk_env ''/tmp/w/f'' (a @ ''new'' @ b) ?d = (err, v) \<longrightarrow> snd (edit_file disk_env edit_example [] ?d) = v"
    by auto
  from ab(2) have "length a \<le> length ([]::string)" by (metis append_Nil append_Cons)
  with ab(1) have "a = []" "b = '' text''" by simp_all
  with ab(3) show ?thesis by (simp add: disk_env_def)
qed

text \<open>Overlapping occurrences are counted once: the edit goes ahead although the text to replace
  occurs twice.\<close>

theorem edit_accepts_overlapping_occurrences:
  "Count ''aaa'' ''aa'' = 1 \<and> ''aaa'' = [] @ ''aa'' @ ''a'' \<and> ''aaa'' = ''a'' @ ''aa'' @ []"
  by code_simp

section \<open>Replacing all or nothing\<close>

text \<open>
  What package \<^verbatim>\<open>os\<close> documents, as far as the contents of files go: a temporary file is new and
  empty; changing, writing, closing or removing it leaves every other file alone; writing appends;
  renaming moves the contents, or does nothing when it fails; and a file that was removed or renamed
  successfully is gone.
\<close>

definition readable :: "'w file_env \<Rightarrow> string \<Rightarrow> 'w \<Rightarrow> bool" where
  "readable e p v \<longleftrightarrow> \<not> isl (fe_ReadFile e p v)"

definition os_laws :: "'w file_env \<Rightarrow> bool" where
  "os_laws e \<longleftrightarrow>
     (\<forall>d pat v r v'. fe_CreateTemp e d pat v = (r, v') \<longrightarrow>
        (case r of Inl err \<Rightarrow> err \<noteq> [] \<and> (\<forall>p. fe_ReadFile e p v' = fe_ReadFile e p v)
         | Inr t \<Rightarrow> fe_ReadFile e t v' = Inr [] \<and> (\<forall>p. p \<noteq> t \<longrightarrow> fe_ReadFile e p v' = fe_ReadFile e p v)
             \<and> (\<forall>s. fe_ReadFile e t v \<noteq> Inr s)))
     \<and> (\<forall>t m v p. fe_ReadFile e p (snd (fe_Chmod e t m v)) = fe_ReadFile e p v)
     \<and> (\<forall>t v p. fe_ReadFile e p (snd (fe_Close e t v)) = fe_ReadFile e p v)
     \<and> (\<forall>t v p. p \<noteq> t \<longrightarrow> fe_ReadFile e p (snd (fe_Remove e t v)) = fe_ReadFile e p v)
     \<and> (\<forall>t s v p. p \<noteq> t \<longrightarrow> fe_ReadFile e p (snd (fe_Write e t s v)) = fe_ReadFile e p v)
     \<and> (\<forall>t s v x. fe_ReadFile e t v = Inr x \<longrightarrow> fst (fe_Write e t s v) = [] \<longrightarrow>
          fe_ReadFile e t (snd (fe_Write e t s v)) = Inr (x @ s))
     \<and> (\<forall>t q v p. fst (fe_Rename e t q v) \<noteq> [] \<longrightarrow> fe_ReadFile e p (snd (fe_Rename e t q v)) = fe_ReadFile e p v)
     \<and> (\<forall>t q v p. t \<noteq> q \<longrightarrow> fst (fe_Rename e t q v) = [] \<longrightarrow> p \<noteq> t \<longrightarrow>
          fe_ReadFile e p (snd (fe_Rename e t q v)) = (if p = q then fe_ReadFile e t v else fe_ReadFile e p v))
     \<and> (\<forall>t v. fst (fe_Remove e t v) = [] \<longrightarrow> \<not> readable e t (snd (fe_Remove e t v)))
     \<and> (\<forall>t q v. t \<noteq> q \<longrightarrow> fst (fe_Rename e t q v) = [] \<longrightarrow> \<not> readable e t (snd (fe_Rename e t q v)))"

lemma os_temp:
  assumes "os_laws e"
  shows "fe_CreateTemp e d pat v = (Inl err, v') \<Longrightarrow> err \<noteq> [] \<and> fe_ReadFile e p v' = fe_ReadFile e p v"
    and "fe_CreateTemp e d pat v = (Inr t, v') \<Longrightarrow> fe_ReadFile e t v' = Inr []"
    and "fe_CreateTemp e d pat v = (Inr t, v') \<Longrightarrow> p \<noteq> t \<Longrightarrow> fe_ReadFile e p v' = fe_ReadFile e p v"
    and "fe_CreateTemp e d pat v = (Inr t, v') \<Longrightarrow> fe_ReadFile e q v = Inr s \<Longrightarrow> q \<noteq> t"
  using assms unfolding os_laws_def by (auto split: sum.splits) fastforce+

lemma os_keeps:
  assumes "os_laws e"
  shows "fe_ReadFile e p (snd (fe_Chmod e t m v)) = fe_ReadFile e p v"
    and "fe_ReadFile e p (snd (fe_Close e t v)) = fe_ReadFile e p v"
    and "p \<noteq> t \<Longrightarrow> fe_ReadFile e p (snd (fe_Remove e t v)) = fe_ReadFile e p v"
    and "p \<noteq> t \<Longrightarrow> fe_ReadFile e p (snd (fe_Write e t s v)) = fe_ReadFile e p v"
    and "fst (fe_Rename e t q v) \<noteq> [] \<Longrightarrow> fe_ReadFile e p (snd (fe_Rename e t q v)) = fe_ReadFile e p v"
    and "fe_ReadFile e t v = Inr x \<Longrightarrow> fst (fe_Write e t s v) = [] \<Longrightarrow> fe_ReadFile e t (snd (fe_Write e t s v)) = Inr (x @ s)"
    and "t \<noteq> q \<Longrightarrow> fst (fe_Rename e t q v) = [] \<Longrightarrow> p \<noteq> t \<Longrightarrow>
      fe_ReadFile e p (snd (fe_Rename e t q v)) = (if p = q then fe_ReadFile e t v else fe_ReadFile e p v)"
    and "fst (fe_Remove e t v) = [] \<Longrightarrow> \<not> readable e t (snd (fe_Remove e t v))"
    and "t \<noteq> q \<Longrightarrow> fst (fe_Rename e t q v) = [] \<Longrightarrow> \<not> readable e t (snd (fe_Rename e t q v))"
  using assms unfolding os_laws_def by simp_all

lemma replace_atomically:
  assumes os: "os_laws e" and pre: "fe_ReadFile e path w = Inr old" and run: "replaceFileAtomically e path data mode w = (err, v)"
    and q: "fe_ReadFile e q w = Inr s"
  shows "fe_ReadFile e q v = Inr (if q = path \<and> err = [] then data else s)"
proof (cases "fe_CreateTemp e (path_Dir path) ''.pipeline-search-replace-*'' w")
  case (Pair r w1)
  note keeps = os_keeps [OF os]
  show ?thesis
  proof (cases r)
    case (Inl er)
    then show ?thesis using run Pair q os_temp(1) [OF os, of _ _ w er w1 q] by (auto simp: replaceFileAtomically_def)
  next
    case (Inr t)
    obtain e2 w2 where ch: "fe_Chmod e t mode w1 = (e2, w2)" by (cases "fe_Chmod e t mode w1")
    obtain e3 w3 where wr: "fe_Write e t data w2 = (e3, w3)" by (cases "fe_Write e t data w2")
    obtain e4 w4 where cl: "fe_Close e t w3 = (e4, w4)" by (cases "fe_Close e t w3")
    obtain e5 w5 where mv: "fe_Rename e t path w4 = (e5, w5)" by (cases "fe_Rename e t path w4")
    have qt: "q \<noteq> t" "t \<noteq> path" using os_temp(4) [OF os Pair [unfolded Inr]] q pre by blast+
    have q1: "fe_ReadFile e q w1 = Inr s" using os_temp(3) [OF os Pair [unfolded Inr] qt(1)] q by simp
    have q2: "fe_ReadFile e q w2 = Inr s" using keeps(1) [of q t mode w1] ch q1 by simp
    have q3: "fe_ReadFile e q w3 = Inr s" using keeps(4) [OF qt(1), of data w2] wr q2 by simp
    have q4: "fe_ReadFile e q w4 = Inr s" using keeps(2) [of q t w3] cl q3 by simp
    have q5: "fe_ReadFile e q w5 = Inr s" if "e5 \<noteq> []" using keeps(5) [of t path w4 q] mv q4 that by simp
    have gone: "fe_ReadFile e q (snd (fe_Remove e t u)) = fe_ReadFile e q u" for u using keeps(3) [OF qt(1)] .
    have closed: "fe_ReadFile e q (snd (fe_Close e t u)) = fe_ReadFile e q u" for u using keeps(2) .
    have ok: "fe_ReadFile e q w5 = Inr (if q = path then data else s)" if "e3 = []" "e5 = []"
    proof -
      have "fe_ReadFile e t w2 = Inr []" using keeps(1) [of t t mode w1] ch os_temp(2) [OF os Pair [unfolded Inr]] by simp
      then have "fe_ReadFile e t w4 = Inr data" using keeps(6) [of t w2 "[]" data] keeps(2) [of t t w3] wr cl that by simp
      then show ?thesis using keeps(7) [OF qt(2), of w4 q] mv qt(1) q4 that by simp
    qed
    show ?thesis
      using run Pair Inr ch wr cl mv q2 q3 q4 q5 ok gone closed
      by (auto simp: replaceFileAtomically_def close_and_drop_def drop_temp_def split: if_splits)
  qed
qed

text \<open>A file that is there only after the call is one whose removal, the last thing the call did, failed.\<close>

lemma replace_leaves:
  assumes os: "os_laws e" and pre: "readable e path w" and run: "replaceFileAtomically e path data mode w = (err, v)"
    and q: "readable e q v"
  shows "readable e q w \<or> (\<exists>u. v = snd (fe_Remove e q u) \<and> fst (fe_Remove e q u) \<noteq> [])"
proof (cases "fe_CreateTemp e (path_Dir path) ''.pipeline-search-replace-*'' w")
  case (Pair r w1)
  note keeps = os_keeps [OF os]
  show ?thesis
  proof (cases r)
    case (Inl er)
    then show ?thesis using run Pair q os_temp(1) [OF os, of _ _ w er w1 q] by (auto simp: replaceFileAtomically_def readable_def)
  next
    case (Inr t)
    obtain e2 w2 where ch: "fe_Chmod e t mode w1 = (e2, w2)" by (cases "fe_Chmod e t mode w1")
    obtain e3 w3 where wr: "fe_Write e t data w2 = (e3, w3)" by (cases "fe_Write e t data w2")
    obtain e4 w4 where cl: "fe_Close e t w3 = (e4, w4)" by (cases "fe_Close e t w3")
    obtain e5 w5 where mv: "fe_Rename e t path w4 = (e5, w5)" by (cases "fe_Rename e t path w4")
    have tp: "t \<noteq> path" using os_temp(4) [OF os Pair [unfolded Inr]] pre by (cases "fe_ReadFile e path w") (auto simp: readable_def)
    have v: "(\<exists>u \<in> {snd (fe_Close e t w2), snd (fe_Close e t w3), w4, w5}. v = snd (fe_Remove e t u)) \<and> err \<noteq> []
        \<or> v = w5 \<and> e5 = []"
      using run Pair Inr ch wr cl mv
      by (auto simp: replaceFileAtomically_def close_and_drop_def drop_temp_def split: if_splits)
    show ?thesis
    proof (cases "q = t")
      case True
      have "\<not> readable e t w5" if "e5 = []" using keeps(9) [OF tp, of w4] mv that by simp
      with v q True keeps(8) show ?thesis by blast
    next
      case False
      have w1: "fe_ReadFile e q w1 = fe_ReadFile e q w" using os_temp(3) [OF os Pair [unfolded Inr] False] .
      have w2: "fe_ReadFile e q w2 = fe_ReadFile e q w" using keeps(1) [of q t mode w1] ch w1 by simp
      have w3: "fe_ReadFile e q w3 = fe_ReadFile e q w" using keeps(4) [OF False, of data w2] wr w2 by simp
      have w4: "fe_ReadFile e q w4 = fe_ReadFile e q w" using keeps(2) [of q t w3] cl w3 by simp
      have w5: "fe_ReadFile e q w5 = fe_ReadFile e q w" if "q \<noteq> path"
        using keeps(5) [of t path w4 q] keeps(7) [OF tp, of w4 q] mv False that w4 by (cases "e5 = []") auto
      have "fe_ReadFile e q v = fe_ReadFile e q w" if "q \<noteq> path"
        using v w2 w3 w4 w5 [OF that] keeps(2) keeps(3) [OF False] by auto
      with q pre show ?thesis by (cases "q = path") (auto simp: readable_def)
    qed
  qed
qed

lemma no_replacement: "replacePipelineMatches compile content pattern replacement regex n = Inr (updated, 0) \<Longrightarrow> updated = content"
  by (auto simp: replacePipelineMatches_def Let_def split: if_splits sum.splits)

lemma literal_replaced:
  assumes "replacePipelineMatches compile content pattern replacement False k = Inr (updated, n)"
  shows "n = (if k = 0 then Count content pattern else min k (Count content pattern)) \<and> replaced pattern replacement n content updated"
proof -
  have n: "n = (if k = 0 then Count content pattern else min k (Count content pattern))"
    and up: "updated = (if n = 0 then content else Replace content pattern replacement n)"
    using assms by (auto simp: replacePipelineMatches_def Let_def split: if_splits)
  have "n \<le> Count content pattern" using n by auto
  then have "replaced pattern replacement n content (Replace content pattern replacement n)" by (rule Replace_replaced)
  with n up show ?thesis by auto
qed

text \<open>C25. Search and replace on a file that can be read is all or nothing, whatever call fails: on an error the
  file has its old contents, otherwise the replaced ones, and no other file changes.  A file that was not there
  before is left behind only when its removal, the last call of the run, failed.  In literal mode
  the replaced contents have the first matches from the left, as many as the limit allows, each replaced once.\<close>

theorem search_replace_all_or_nothing:
  assumes "os_laws e" "dec arguments = Inr args" "fe_ResolvePath e w (pa_Path args) = Inr p" "fe_ReadFile e p w = Inr content"
    and run: "pipeline_search_replace e compile dec arguments w = ((out, err), v)"
  shows "(\<forall>q s. q \<noteq> p \<longrightarrow> fe_ReadFile e q w = Inr s \<longrightarrow> fe_ReadFile e q v = Inr s)
    \<and> (\<forall>q. readable e q v \<and> \<not> readable e q w \<longrightarrow> (\<exists>u. v = snd (fe_Remove e q u) \<and> fst (fe_Remove e q u) \<noteq> []))
    \<and> (err \<noteq> [] \<longrightarrow> fe_ReadFile e p v = Inr content)
    \<and> (err = [] \<longrightarrow> (\<exists>updated n. fe_ReadFile e p v = Inr updated
         \<and> replacePipelineMatches compile content (pa_Pattern args) (pa_Replacement args) (pa_Regex args) (nat (pa_MaxReplacements args)) = Inr (updated, n)
         \<and> (\<not> pa_Regex args \<longrightarrow>
              n = (if pa_MaxReplacements args = 0 then Count content (pa_Pattern args)
                   else min (nat (pa_MaxReplacements args)) (Count content (pa_Pattern args)))
              \<and> replaced (pa_Pattern args) (pa_Replacement args) n content updated)))"
proof -
  let ?R = "replacePipelineMatches compile content (pa_Pattern args) (pa_Replacement args) (pa_Regex args) (nat (pa_MaxReplacements args))"
  consider (stop) "v = w" "err \<noteq> []"
    | (none) updated n where "?R = Inr (updated, n)" "n = 0" "v = w" "err = []" "\<not> pa_MaxReplacements args < 0"
    | (some) updated n mode e1 where "?R = Inr (updated, n)" "replaceFileAtomically e p updated mode w = (e1, v)"
        "err = [] \<longleftrightarrow> e1 = []" "\<not> pa_MaxReplacements args < 0"
  proof (cases "pa_Pattern args = [] \<or> pa_MaxReplacements args < 0")
    case True
    then show ?thesis using run assms(2) stop by (auto simp: pipeline_search_replace_def tool_refuse_def Let_def split: if_splits)
  next
    case False
    note start = run [unfolded pipeline_search_replace_def assms(2-4) Let_def sum.case]
    show ?thesis
    proof (cases "fe_Stat e p w")
      case (Inl e1)
      then show ?thesis using start False stop by (auto simp: tool_fail_def)
    next
      case (Inr mode)
      show ?thesis
      proof (cases ?R)
        case (Inl e1)
        moreover have "e1 \<noteq> []" using Inl by (auto simp: replacePipelineMatches_def Let_def split: if_splits sum.splits)
        ultimately show ?thesis using start False Inr stop by auto
      next
        case R: (Inr up)
        obtain updated n where up: "up = (updated, n)" by (cases up)
        obtain e1 v1 where at: "replaceFileAtomically e p updated mode w = (e1, v1)"
          by (cases "replaceFileAtomically e p updated mode w")
        have "(n = 0 \<longrightarrow> v = w \<and> err = []) \<and> (n \<noteq> 0 \<longrightarrow> v = v1 \<and> (err = [] \<longleftrightarrow> e1 = []))"
          using start False Inr R up at by (auto simp: tool_fail_def split: if_splits)
        then show ?thesis using none some R up at False by (cases "n = 0") auto
      qed
    qed
  qed
  then show ?thesis
  proof cases
    case stop
    then show ?thesis using assms(4) by simp
  next
    case none
    then show ?thesis using assms(4) no_replacement literal_replaced [of compile content "pa_Pattern args"] by fastforce
  next
    case some
    then have "fe_ReadFile e p v = Inr (if err = [] then updated else content)"
      using replace_atomically [OF assms(1,4) some(2) assms(4)] by simp
    moreover have "fe_ReadFile e q v = Inr s" if "q \<noteq> p" "fe_ReadFile e q w = Inr s" for q s
      using replace_atomically [OF assms(1,4) some(2) that(2)] that(1) by simp
    moreover have "n = (if pa_MaxReplacements args = 0 then Count content (pa_Pattern args)
          else min (nat (pa_MaxReplacements args)) (Count content (pa_Pattern args)))
        \<and> replaced (pa_Pattern args) (pa_Replacement args) n content updated" if "\<not> pa_Regex args"
      using literal_replaced [of compile content "pa_Pattern args"] some(1,4) that by fastforce
    moreover have "readable e q w \<or> (\<exists>u. v = snd (fe_Remove e q u) \<and> fst (fe_Remove e q u) \<noteq> [])" if "readable e q v" for q
      using replace_leaves [OF assms(1) _ some(2) that] assms(4) by (simp add: readable_def)
    ultimately show ?thesis using some(1) by auto
  qed
qed

lemma disk_laws: "os_laws disk_env"
  unfolding os_laws_def disk_env_def by (auto simp: readable_def map_has_iff Let_def split: option.splits if_splits sum.splits)

definition pipeline_example :: "string \<Rightarrow> go_error + pipeline_args" where
  "pipeline_example _ = Inr \<lparr>pa_Path = ''f'', pa_Pattern = ''a'', pa_Replacement = ''bb'', pa_Regex = False, pa_MaxReplacements = 2\<rparr>"

theorem search_replace_all_or_nothing_witness:
  "\<exists>v. pipeline_search_replace disk_env (\<lambda>_. Inl [''no regex'']) pipeline_example [] [(''/tmp/w/f'', ''xaxaxa''), (''/tmp/w/g'', ''keep'')]
      = ((''replaced 2 occurrence(s) in f'', []), v)
    \<and> fe_ReadFile disk_env ''/tmp/w/f'' v = Inr ''xbbxbbxa'' \<and> fe_ReadFile disk_env ''/tmp/w/g'' v = Inr ''keep''"
proof -
  let ?d = "[(''/tmp/w/f'', ''xaxaxa''), (''/tmp/w/g'', ''keep'')]" and ?c = "\<lambda>_. Inl [''no regex'']"
  let ?args = "\<lparr>pa_Path = ''f'', pa_Pattern = ''a'', pa_Replacement = ''bb'', pa_Regex = False, pa_MaxReplacements = 2\<rparr>"
  have h: "pipeline_example [] = Inr ?args" "fe_ResolvePath disk_env ?d (pa_Path ?args) = Inr ''/tmp/w/f''"
    "fe_ReadFile disk_env ''/tmp/w/f'' ?d = Inr ''xaxaxa''" "fe_ReadFile disk_env ''/tmp/w/g'' ?d = Inr ''keep''"
    "fst (pipeline_search_replace disk_env ?c pipeline_example [] ?d) = (''replaced 2 occurrence(s) in f'', [])"
    "replacePipelineMatches ?c ''xaxaxa'' (pa_Pattern ?args) (pa_Replacement ?args) (pa_Regex ?args) (nat (pa_MaxReplacements ?args))
       = Inr (''xbbxbbxa'', 2)" by code_simp+
  define v where "v = snd (pipeline_search_replace disk_env ?c pipeline_example [] ?d)"
  have run: "pipeline_search_replace disk_env ?c pipeline_example [] ?d = ((''replaced 2 occurrence(s) in f'', []), v)"
    using h(5) by (simp add: v_def prod_eq_iff)
  from search_replace_all_or_nothing [of disk_env pipeline_example "[]" ?args ?d "''/tmp/w/f''" "''xaxaxa''" ?c, OF disk_laws h(1-3) run] h(4,6)
  show ?thesis using run by auto
qed

section \<open>Staying inside the workspace\<close>

definition inside :: "workspace \<Rightarrow> string \<Rightarrow> bool" where
  "inside ws p \<longleftrightarrow> clean_abs p \<and> (\<exists>root \<in> set (ws_roots ws). below root p)"

definition temp_beside :: "'w file_env \<Rightarrow> workspace \<Rightarrow> string \<Rightarrow> bool" where
  "temp_beside e ws t \<longleftrightarrow> (\<exists>p pat v. inside ws p \<and> fst (fe_CreateTemp e (path_Dir p) pat v) = Inr t)"

text \<open>A property of the world that survives what the tools do to paths in the workspace, to the
  directory a path in the workspace is in, and to a temporary file created there.\<close>

definition kept_inside :: "'w file_env \<Rightarrow> workspace \<Rightarrow> ('w \<Rightarrow> bool) \<Rightarrow> bool" where
  "kept_inside e ws Q \<longleftrightarrow>
     (\<forall>p v. inside ws p \<longrightarrow> Q v \<longrightarrow>
        Q (snd (fe_MkdirAll e (path_Dir p) v)) \<and> (\<forall>s. Q (snd (fe_WriteFile e p s v)))
        \<and> Q (snd (fe_Remove e p v)) \<and> Q (snd (fe_RemoveAll e p v)) \<and> (\<forall>pat. Q (snd (fe_CreateTemp e (path_Dir p) pat v)))
        \<and> (\<forall>q. inside ws q \<or> temp_beside e ws q \<longrightarrow> Q (snd (fe_Rename e q p v))))
     \<and> (\<forall>t v. temp_beside e ws t \<longrightarrow> Q v \<longrightarrow>
        (\<forall>m. Q (snd (fe_Chmod e t m v))) \<and> (\<forall>s. Q (snd (fe_Write e t s v))) \<and> Q (snd (fe_Close e t v)) \<and> Q (snd (fe_Remove e t v)))"

lemma kept_insideD:
  assumes "kept_inside e ws Q" "Q v"
  shows "inside ws p \<Longrightarrow> Q (snd (fe_MkdirAll e (path_Dir p) v))" "inside ws p \<Longrightarrow> Q (snd (fe_WriteFile e p s v))"
    "inside ws p \<Longrightarrow> Q (snd (fe_Remove e p v))" "inside ws p \<Longrightarrow> Q (snd (fe_RemoveAll e p v))"
    "inside ws p \<Longrightarrow> Q (snd (fe_CreateTemp e (path_Dir p) pat v))"
    "inside ws p \<Longrightarrow> inside ws q \<or> temp_beside e ws q \<Longrightarrow> Q (snd (fe_Rename e q p v))"
    "temp_beside e ws t \<Longrightarrow> Q (snd (fe_Chmod e t m v))" "temp_beside e ws t \<Longrightarrow> Q (snd (fe_Write e t s v))"
    "temp_beside e ws t \<Longrightarrow> Q (snd (fe_Close e t v))" "temp_beside e ws t \<Longrightarrow> Q (snd (fe_Remove e t v))"
  using assms unfolding kept_inside_def by blast+

lemma kept_pairs:
  assumes "kept_inside e ws Q" "Q v"
  shows "inside ws p \<Longrightarrow> fe_MkdirAll e (path_Dir p) v = (r, v') \<Longrightarrow> Q v'" "inside ws p \<Longrightarrow> fe_WriteFile e p s v = (r, v') \<Longrightarrow> Q v'"
    "inside ws p \<Longrightarrow> fe_Remove e p v = (r, v') \<Longrightarrow> Q v'" "inside ws p \<Longrightarrow> fe_RemoveAll e p v = (r, v') \<Longrightarrow> Q v'"
    "inside ws p \<Longrightarrow> fe_CreateTemp e (path_Dir p) pat v = (r', v') \<Longrightarrow> Q v'"
    "inside ws p \<Longrightarrow> inside ws q \<or> temp_beside e ws q \<Longrightarrow> fe_Rename e q p v = (r, v') \<Longrightarrow> Q v'"
    "temp_beside e ws t \<Longrightarrow> fe_Chmod e t m v = (r, v') \<Longrightarrow> Q v'" "temp_beside e ws t \<Longrightarrow> fe_Write e t s v = (r, v') \<Longrightarrow> Q v'"
    "temp_beside e ws t \<Longrightarrow> fe_Close e t v = (r, v') \<Longrightarrow> Q v'"
  using kept_insideD [OF assms] by (metis snd_conv)+

lemma replace_kept:
  assumes keep: "kept_inside e ws Q" and "Q w" and p: "inside ws p"
  shows "Q (snd (replaceFileAtomically e p data mode w))"
proof (cases "fe_CreateTemp e (path_Dir p) ''.pipeline-search-replace-*'' w")
  case (Pair r w1)
  have q1: "Q w1" using kept_pairs(5) [OF keep assms(2) p Pair] .
  show ?thesis
  proof (cases r)
    case (Inl err)
    with Pair q1 show ?thesis by (simp add: replaceFileAtomically_def)
  next
    case (Inr t)
    have t: "temp_beside e ws t" unfolding temp_beside_def using Pair Inr p by (metis fst_conv)
    obtain e2 w2 where ch: "fe_Chmod e t mode w1 = (e2, w2)" by (cases "fe_Chmod e t mode w1")
    obtain e3 w3 where wr: "fe_Write e t data w2 = (e3, w3)" by (cases "fe_Write e t data w2")
    obtain e4 w4 where cl: "fe_Close e t w3 = (e4, w4)" by (cases "fe_Close e t w3")
    obtain e5 w5 where mv: "fe_Rename e t p w4 = (e5, w5)" by (cases "fe_Rename e t p w4")
    note kp = kept_pairs [OF keep]
    have q: "Q w2" "Q w3" "Q w4" "Q w5" using kp(7) [OF q1 t ch] kp(8) [OF _ t wr] kp(9) [OF _ t cl] kp(6) [OF _ p _ mv] t by auto
    have dropped: "Q (snd (drop_temp e t er u))" "Q (snd (close_and_drop e t er u))" if "Q u" for er u
      using that kept_insideD(9,10) [OF keep _ t] by (simp_all add: drop_temp_def close_and_drop_def)
    show ?thesis using Pair Inr ch wr cl mv q dropped by (simp add: replaceFileAtomically_def)
  qed
qed

text \<open>C24. Whatever arguments the model gives them, the file tools change the world only at paths in the
  workspace, in the directories these are in, and at temporary files there; the tools that read
  change nothing.\<close>

theorem file_tools_stay_inside:
  assumes "\<forall>v. fs_ok (fe_fs e v)" "fe_workspace e = Some ws" "ws_ok ws" "kept_inside e ws Q" "Q w"
  shows "Q (snd (write_file e dw arguments w)) \<and> Q (snd (edit_file e de arguments w)) \<and> Q (snd (delete_file e dd arguments w))
    \<and> Q (snd (move_file e dm arguments w)) \<and> Q (snd (pipeline_search_replace e compile dp arguments w))
    \<and> snd (read_file e dr arguments w) = w \<and> snd (list_dir e dl arguments w) = w
    \<and> snd (grep e compile dg arguments w) = w \<and> snd (file_excerpt e compile dx arguments w) = w"
proof -
  have res: "inside ws p" if "fe_ResolvePath e w x = Inr p" for x p
    using resolve_inside [of "fe_fs e w" ws x p] that assms(1-3) by (auto simp: fe_ResolvePath_def inside_def)
  note kp = kept_pairs [OF assms(4)] and q = assms(5)
  have "Q (snd (write_file e dw arguments w))"
    using q by (auto simp: write_file_def split: sum.splits prod.splits dest: res kp(1) kp(2))
  moreover have "Q (snd (edit_file e de arguments w))"
    using q by (auto simp: edit_file_def Let_def split: sum.splits prod.splits dest: res kp(2))
  moreover have "Q (snd (delete_file e dd arguments w))"
    using q by (auto simp: delete_file_def split: sum.splits prod.splits dest: res kp(3) kp(4))
  moreover have "Q (snd (move_file e dm arguments w))"
  proof -
    have mv: "Q v'" if "fe_MkdirAll e (path_Dir b) w = (r, v)" "fe_Rename e a b v = (r', v')"
      "fe_ResolvePath e w x = Inr a" "fe_ResolvePath e w y = Inr b" for a b r r' v v' x y
      using kp(6) [OF kp(1) [OF q res [OF that(4)] that(1)] res [OF that(4)] _ that(2)] res [OF that(3)] by blast
    show ?thesis using q by (auto simp: move_file_def split: sum.splits prod.splits dest: res kp(1) mv)
  qed
  moreover have "Q (snd (pipeline_search_replace e compile dp arguments w))"
  proof -
    have rp: "Q v" if "fe_ResolvePath e w x = Inr p" "replaceFileAtomically e p data mode w = (r, v)" for x p data mode r v
      using replace_kept [OF assms(4,5) res [OF that(1)], of data mode] that(2) by simp
    show ?thesis using q by (auto simp: pipeline_search_replace_def Let_def split: sum.splits prod.splits dest: rp)
  qed
  moreover have "snd (read_file e dr arguments w) = w" "snd (list_dir e dl arguments w) = w"
    by (auto simp: read_file_def list_dir_def split: sum.splits)
  moreover have "snd (grep e compile dg arguments w) = w" "snd (file_excerpt e compile dx arguments w) = w"
    by (auto simp: grep_def file_excerpt_def Let_def split: sum.splits)
  ultimately show ?thesis by blast
qed

text \<open>On the disk: the files are in the playground before, hence after, whatever the tools are asked.\<close>

definition in_playground :: "(string, string) gomap \<Rightarrow> bool" where
  "in_playground d \<longleftrightarrow> (\<forall>p \<in> set (map fst d). inside play_ws p \<or> temp_beside disk_env play_ws p)"

lemma in_playground_set:
  "in_playground d \<Longrightarrow> inside play_ws p \<or> temp_beside disk_env play_ws p \<Longrightarrow> in_playground (map_set d p s)"
  unfolding in_playground_def keys_map_set by blast

lemma in_playground_delete: "in_playground d \<Longrightarrow> in_playground (map_delete d p)"
  unfolding in_playground_def keys_map_delete by blast

lemma disk_ops:
  "fe_MkdirAll disk_env p d = ([], d)" "fe_WriteFile disk_env p s d = ([], map_set d p s)"
  "snd (fe_Remove disk_env p d) = map_delete d p" "fe_RemoveAll disk_env p d = ([], map_delete d p)"
  "snd (fe_Rename disk_env p q d) = (case map_get d p of Some s \<Rightarrow> map_set (map_delete d p) q s | None \<Rightarrow> d)"
  "snd (fe_CreateTemp disk_env p pat d) = (if map_has d (p @ ''/.tmp'') then d else map_set d (p @ ''/.tmp'') [])"
  "fe_Chmod disk_env p m d = ([], d)" "fe_Close disk_env p d = ([], d)"
  "snd (fe_Write disk_env p s d) = (case map_get d p of Some x \<Rightarrow> map_set d p (x @ s) | None \<Rightarrow> d)"
  by (simp_all add: disk_env_def Let_def split: option.split)

theorem file_tools_stay_inside_witness:
  "in_playground (snd (write_file disk_env (\<lambda>_. Inr \<lparr>wa_Path = ''link/f'', wa_Content = ''hello''\<rparr>) [] []))
    \<and> snd (write_file disk_env (\<lambda>_. Inr \<lparr>wa_Path = ''link/f'', wa_Content = ''hello''\<rparr>) [] []) = [(''/tmp/w/data/f'', ''hello'')]"
proof -
  have "clean_abs ''/tmp/w/data''" "clean_abs ''/etc''" "IsAbs ''/''" by code_simp+
  then have fs: "\<forall>v. fs_ok (fe_fs disk_env v)" by (auto simp: fs_ok_def play_fs_def disk_env_def)
  have ws: "fe_workspace disk_env = Some play_ws" by (simp add: disk_env_def)
  have "clean_abs ''/tmp/w''" by code_simp
  then have ok: "ws_ok play_ws" by (simp add: ws_ok_def play_ws_def)
  have keep: "kept_inside disk_env play_ws in_playground"
  proof -
    have tmp: "temp_beside disk_env play_ws (path_Dir p @ ''/.tmp'')" if "inside play_ws p" for p
      unfolding temp_beside_def by (intro exI [of _ p] exI [of _ "[]"] conjI that) (simp add: disk_env_def Let_def)
    show ?thesis unfolding kept_inside_def
      using tmp by (auto simp: disk_ops in_playground_set in_playground_delete split: option.splits if_splits)
  qed
  have "in_playground []" by (simp add: in_playground_def)
  from file_tools_stay_inside [OF fs ws ok keep this] have
    "in_playground (snd (write_file disk_env (\<lambda>_. Inr \<lparr>wa_Path = ''link/f'', wa_Content = ''hello''\<rparr>) [] []))" by blast
  moreover have "snd (write_file disk_env (\<lambda>_. Inr \<lparr>wa_Path = ''link/f'', wa_Content = ''hello''\<rparr>) [] []) = [(''/tmp/w/data/f'', ''hello'')]"
    by code_simp
  ultimately show ?thesis by blast
qed

end
