(* ===== verification/Front_Matter.thy ===== *)
theory Front_Matter
  imports Go_Text Runner_Types
begin

text \<open>
  Front matter of markdown documents, \<^verbatim>\<open>internal/frontmatter/frontmatter.go\<close>: skill files, handoff
  and exchange documents all start with it.  The decoders of YAML and TOML are parameters.

  The reader is the byte string it will deliver, and the error it then reports instead of the end
  of the file, if any.  \<open>outp\<close> is what has been read, so that \<^verbatim>\<open>p.read\<close> is its length.
\<close>

record ('m, 'v) fm_codec =
  yaml_Unmarshal :: "string \<Rightarrow> go_error + 'v"
  yaml_Marshal :: "'m \<Rightarrow> go_error + string"
  toml_Decode :: "string \<Rightarrow> go_error + 'm"

definition unmarshalTOML :: "('m, 'v) fm_codec \<Rightarrow> string \<Rightarrow> go_error + 'v" where
  "unmarshalTOML cd data =
     (case toml_Decode cd data of
        Inl err \<Rightarrow> Inl err
      | Inr meta \<Rightarrow> (case yaml_Marshal cd meta of Inl err \<Rightarrow> Inl err | Inr yamlData \<Rightarrow> yaml_Unmarshal cd yamlData))"

record fm_format =
  ff_start :: string
  ff_end :: string
  ff_toml :: bool

definition fm_formats :: "fm_format list" where
  "fm_formats =
     [\<lparr>ff_start = ''---'', ff_end = ''---'', ff_toml = False\<rparr>,
      \<lparr>ff_start = ''---yaml'', ff_end = ''---'', ff_toml = False\<rparr>,
      \<lparr>ff_start = ''+++'', ff_end = ''+++'', ff_toml = True\<rparr>,
      \<lparr>ff_start = ''---toml'', ff_end = ''---'', ff_toml = True\<rparr>]"

definition fm_unmarshal :: "('m, 'v) fm_codec \<Rightarrow> fm_format \<Rightarrow> string \<Rightarrow> go_error + 'v" where
  "fm_unmarshal cd f data = (if ff_toml f then unmarshalTOML cd data else yaml_Unmarshal cd data)"

text \<open>One line with its newline, what is left, and whether the end was reached.\<close>

definition fm_readLine :: "go_error \<Rightarrow> string \<Rightarrow> go_error + string \<times> string \<times> bool" where
  "fm_readLine readErr rest =
     (case IndexByte rest (CHR 0x0A) of
        Some i \<Rightarrow> Inr (take (Suc i) rest, drop (Suc i) rest, False)
      | None \<Rightarrow> if readErr \<noteq> [] then Inl readErr else Inr (rest, [], True))"

lemma readLine_shorter: "fm_readLine readErr rest = Inr (line, rest', False) \<Longrightarrow> length rest' < length rest"
  by (auto simp: fm_readLine_def IndexByte_def Let_def split: option.splits if_splits)

text \<open>\<^verbatim>\<open>detect\<close>: the format whose start line is the first line that is not blank.\<close>

function fm_detect :: "go_error \<Rightarrow> string \<Rightarrow> string \<Rightarrow> go_error + fm_format option \<times> string \<times> string" where
  "fm_detect readErr outp rest =
     (case fm_readLine readErr rest of
        Inl err \<Rightarrow> Inl err
      | Inr (raw, rest', atEOF) \<Rightarrow>
          let line = TrimSpace raw in
          if line = [] then
            (if atEOF then Inr (None, outp @ raw, rest') else fm_detect readErr (outp @ raw) rest')
          else Inr (find (\<lambda>f. ff_start f = line) fm_formats, outp @ raw, rest'))"
  by pat_completeness auto
termination
  by (relation "measure (\<lambda>(_, _, rest). length rest)") (auto dest: readLine_shorter)

text \<open>\<^verbatim>\<open>extract\<close>: the metadata from \<open>start\<close> up to the end line, and everything read.\<close>

function fm_extract ::
  "('m, 'v) fm_codec \<Rightarrow> go_error \<Rightarrow> fm_format \<Rightarrow> nat \<Rightarrow> string \<Rightarrow> string \<Rightarrow> go_error + 'v \<times> string \<times> string" where
  "fm_extract cd readErr f start outp rest =
     (case fm_readLine readErr rest of
        Inl err \<Rightarrow> Inl err
      | Inr (raw, rest', atEOF) \<Rightarrow>
          if TrimSpace raw = ff_end f then
            (case fm_unmarshal cd f (drop start outp) of
               Inl err \<Rightarrow> Inl err
             | Inr v \<Rightarrow> Inr (v, outp @ raw, rest'))
          else if atEOF then Inl [''front matter block is not closed: '' @ ff_start f]
          else fm_extract cd readErr f start (outp @ raw) rest')"
  by pat_completeness auto
termination
  by (relation "measure (\<lambda>(_, _, _, _, _, rest). length rest)") (auto dest: readLine_shorter)

declare fm_detect.simps [simp del] fm_extract.simps [simp del]

text \<open>\<^verbatim>\<open>Parse\<close>: the metadata, if there is any, and the body.\<close>

definition fm_Parse :: "('m, 'v) fm_codec \<Rightarrow> go_error \<Rightarrow> string \<Rightarrow> go_error + 'v option \<times> string" where
  "fm_Parse cd readErr data =
     (case fm_detect readErr [] data of
        Inl err \<Rightarrow> Inl err
      | Inr (None, outp, rest) \<Rightarrow> if readErr \<noteq> [] then Inl readErr else Inr (None, outp @ rest)
      | Inr (Some f, outp, rest) \<Rightarrow>
          (case fm_extract cd readErr f (length outp) outp rest of
             Inl err \<Rightarrow> Inl err
           | Inr (v, outp, rest) \<Rightarrow>
               if readErr \<noteq> [] then Inl readErr else Inr (Some v, drop (length outp) (outp @ rest))))"

section \<open>Lemmas\<close>

lemma readLine_line: "CHR 0x0A \<notin> set l \<Longrightarrow> fm_readLine readErr (l @ CHR 0x0A # rest) = Inr (l @ [CHR 0x0A], rest, False)"
  by (simp add: fm_readLine_def IndexByte_append)

lemma detect_keeps: "fm_detect readErr outp rest = Inr (f, outp', rest') \<Longrightarrow> outp' @ rest' = outp @ rest"
proof (induction readErr outp rest rule: fm_detect.induct)
  case (1 readErr outp rest)
  have line: "raw @ rest'' = rest" if "fm_readLine readErr rest = Inr (raw, rest'', atEOF)" for raw rest'' atEOF
    using that by (auto simp: fm_readLine_def split: option.splits if_splits)
  show ?case
  proof (cases "fm_readLine readErr rest")
    case (Inl err)
    with "1.prems" show ?thesis by (simp add: fm_detect.simps)
  next
    case (Inr r)
    obtain raw rest'' atEOF where r: "r = (raw, rest'', atEOF)" by (cases r)
    have eq: "raw @ rest'' = rest" using line Inr r by blast
    show ?thesis
    proof (cases "TrimSpace raw = [] \<and> \<not> atEOF")
      case True
      then have "fm_detect readErr (outp @ raw) rest'' = Inr (f, outp', rest')"
        using "1.prems" Inr r by (subst (asm) fm_detect.simps) (simp add: Let_def)
      then have "outp' @ rest' = (outp @ raw) @ rest''"
        by (intro "1.IH" [of "(raw, rest'', atEOF)" raw "(rest'', atEOF)" rest'' atEOF]) (use Inr r True in simp_all)
      with eq show ?thesis by simp
    next
      case False
      then have "outp' = outp @ raw" "rest' = rest''"
        using "1.prems" Inr r by (subst (asm) fm_detect.simps, auto simp: Let_def split: if_splits)+
      with eq show ?thesis by simp
    qed
  qed
qed

text \<open>The metadata lines: each ends with a newline, and none of them closes the block.\<close>

definition open_lines :: "fm_format \<Rightarrow> string list \<Rightarrow> bool" where
  "open_lines f ls \<longleftrightarrow> (\<forall>l \<in> set ls. CHR 0x0A \<notin> set l \<and> TrimSpace (l @ [CHR 0x0A]) \<noteq> ff_end f)"

definition unlines :: "string list \<Rightarrow> string" where
  "unlines ls = concat (map (\<lambda>l. l @ [CHR 0x0A]) ls)"

lemma extract_lines:
  assumes "open_lines f ls" "CHR 0x0A \<notin> set fin" "TrimSpace (fin @ [CHR 0x0A]) = ff_end f"
    and "start \<le> length outp" "fm_unmarshal cd f (drop start outp @ unlines ls) = Inr v"
  shows "fm_extract cd [] f start outp (unlines ls @ fin @ CHR 0x0A # body)
    = Inr (v, outp @ unlines ls @ fin @ [CHR 0x0A], body)"
  using assms
proof (induction ls arbitrary: outp)
  case Nil
  then show ?case by (subst fm_extract.simps) (simp add: unlines_def readLine_line)
next
  case (Cons l ls)
  have l: "CHR 0x0A \<notin> set l" "TrimSpace (l @ [CHR 0x0A]) \<noteq> ff_end f" using Cons.prems(1) by (auto simp: open_lines_def)
  have step: "fm_extract cd [] f start outp (unlines (l # ls) @ fin @ CHR 0x0A # body)
      = fm_extract cd [] f start (outp @ l @ [CHR 0x0A]) (unlines ls @ fin @ CHR 0x0A # body)"
    using l by (subst fm_extract.simps) (simp add: unlines_def readLine_line)
  show ?case unfolding step
    by (subst Cons.IH) (use Cons.prems in \<open>auto simp: open_lines_def unlines_def\<close>)
qed

lemma detect_lines:
  assumes "f \<in> set fm_formats" "\<forall>l \<in> set blank. CHR 0x0A \<notin> set l \<and> TrimSpace (l @ [CHR 0x0A]) = []"
    and "CHR 0x0A \<notin> set l0" "TrimSpace (l0 @ [CHR 0x0A]) = ff_start f"
  shows "fm_detect [] out (unlines blank @ l0 @ CHR 0x0A # rest) = Inr (Some f, out @ unlines blank @ l0 @ [CHR 0x0A], rest)"
  using assms(2)
proof (induction blank arbitrary: out)
  case Nil
  have "ff_start f \<noteq> []" "find (\<lambda>g. ff_start g = ff_start f) fm_formats = Some f" using assms(1) by (auto simp: fm_formats_def)
  then show ?case using assms(3,4) by (subst fm_detect.simps) (simp add: unlines_def readLine_line Let_def)
next
  case (Cons l blank)
  have "fm_detect [] out (unlines (l # blank) @ l0 @ CHR 0x0A # rest)
      = fm_detect [] (out @ l @ [CHR 0x0A]) (unlines blank @ l0 @ CHR 0x0A # rest)"
    using Cons.prems by (subst fm_detect.simps) (simp add: unlines_def readLine_line Let_def)
  then show ?case using Cons.IH [of "out @ l @ [CHR 0x0A]"] Cons.prems by (simp add: unlines_def)
qed

lemma parse_block:
  assumes "f \<in> set fm_formats" "\<forall>l \<in> set blank. CHR 0x0A \<notin> set l \<and> TrimSpace (l @ [CHR 0x0A]) = []"
    and "CHR 0x0A \<notin> set l0" "TrimSpace (l0 @ [CHR 0x0A]) = ff_start f"
    and "open_lines f ls" "CHR 0x0A \<notin> set fin" "TrimSpace (fin @ [CHR 0x0A]) = ff_end f"
    and "fm_unmarshal cd f (unlines ls) = Inr v"
  shows "fm_Parse cd [] (unlines blank @ l0 @ CHR 0x0A # unlines ls @ fin @ CHR 0x0A # body) = Inr (Some v, body)"
proof -
  let ?o = "unlines blank @ l0 @ [CHR 0x0A]"
  have "fm_extract cd [] f (length ?o) ?o (unlines ls @ fin @ CHR 0x0A # body) = Inr (v, ?o @ unlines ls @ fin @ [CHR 0x0A], body)"
    by (rule extract_lines) (use assms(5-8) in simp_all)
  then show ?thesis unfolding fm_Parse_def detect_lines [OF assms(1-4)] append_Nil by simp
qed

text \<open>A document that opens with a start line, continues with metadata that does not contain the
  end line, and closes the block gives exactly the decoded metadata and, byte for byte, the rest as
  body; a document whose first line that is not blank is no start line comes back unchanged.\<close>

theorem front_matter_splits_document:
  assumes "f \<in> set fm_formats" "\<forall>l \<in> set blank. CHR 0x0A \<notin> set l \<and> TrimSpace (l @ [CHR 0x0A]) = []"
    and "CHR 0x0A \<notin> set l0" "TrimSpace (l0 @ [CHR 0x0A]) = ff_start f"
    and "open_lines f ls" "CHR 0x0A \<notin> set fin" "TrimSpace (fin @ [CHR 0x0A]) = ff_end f"
    and "fm_unmarshal cd f (unlines ls) = Inr v"
  shows "fm_Parse cd [] (unlines blank @ l0 @ CHR 0x0A # unlines ls @ fin @ CHR 0x0A # body) = Inr (Some v, body)
    \<and> (\<forall>data b. fm_Parse cd [] data = Inr (None, b) \<longrightarrow> b = data)"
proof -
  have "b = data" if "fm_Parse cd [] data = Inr (None, b)" for data b
    using that detect_keeps [of "[]" "[]" data] by (auto simp: fm_Parse_def split: sum.splits option.splits)
  then show ?thesis using parse_block [OF assms] by blast
qed

text \<open>A skill file: a blank line, a TOML block, a body that contains another rule.\<close>

definition fm_example :: "(string, string) fm_codec" where
  "fm_example = \<lparr>yaml_Unmarshal = Inr, yaml_Marshal = Inr, toml_Decode = Inr\<rparr>"

theorem front_matter_splits_document_witness:
  "fm_Parse fm_example [] (unlines [[], ''+++ '', ''name = 1'', ''+++'', ''body'', ''+++'']) = Inr (Some (unlines [''name = 1'']), unlines [''body'', ''+++''])"
proof -
  let ?f = "\<lparr>ff_start = ''+++'', ff_end = ''+++'', ff_toml = True\<rparr>"
  have h: "?f \<in> set fm_formats" "\<forall>l \<in> set [[]]. CHR 0x0A \<notin> set l \<and> TrimSpace (l @ [CHR 0x0A]) = []"
    "CHR 0x0A \<notin> set ''+++ ''" "TrimSpace (''+++ '' @ [CHR 0x0A]) = ff_start ?f" "open_lines ?f [''name = 1'']" "CHR 0x0A \<notin> set ''+++''"
    "TrimSpace (''+++'' @ [CHR 0x0A]) = ff_end ?f" "fm_unmarshal fm_example ?f (unlines [''name = 1'']) = Inr (unlines [''name = 1''])"
    by code_simp+
  have doc: "unlines [[], ''+++ '', ''name = 1'', ''+++'', ''body'', ''+++'']
      = unlines [[]] @ ''+++ '' @ CHR 0x0A # unlines [''name = 1''] @ ''+++'' @ CHR 0x0A # unlines [''body'', ''+++'']"
    by (simp add: unlines_def)
  show ?thesis unfolding doc
    using front_matter_splits_document [of ?f "[[]]" "''+++ ''" "[''name = 1'']" "''+++''" fm_example "unlines [''name = 1'']", OF h] by blast
qed

end
