(* ===== verification/File_Preview.thy ===== *)
theory File_Preview
  imports File_Tools Front_Matter
begin

text \<open>
  The two built-in tools that summarise files: \<^verbatim>\<open>artifact_catalog.go\<close>, a table of a directory merged
  with the front matter of a handoff, and \<^verbatim>\<open>structured_preview.go\<close>, the shape of a JSON, JSON Lines
  or YAML file.
\<close>

section \<open>Artifact catalog\<close>

definition defaultArtifactCatalogPath :: string where "defaultArtifactCatalogPath = ''downstream/artifacts''"
definition defaultArtifactCatalogHandoff :: string where "defaultArtifactCatalogHandoff = ''downstream/handoff.md''"
definition defaultArtifactCatalogMaxEntries :: int where "defaultArtifactCatalogMaxEntries = 50"

record catalog_row =
  cr_Path :: string
  cr_Kind :: string
  cr_Size :: string
  cr_Type :: string
  cr_Description :: string
  cr_Status :: string

record handoff_artifact =
  ha_Path :: string
  ha_Type :: string
  ha_Description :: string

text \<open>\<^verbatim>\<open>filepath.ToSlash\<close> is the identity on Unix.\<close>

definition normalizeCatalogPath :: "string \<Rightarrow> string" where
  "normalizeCatalogPath raw = (let trimmed = TrimSpace raw in if trimmed = [] then [] else Clean trimmed)"

definition joinSlashPath :: "string \<Rightarrow> string \<Rightarrow> string" where
  "joinSlashPath basePath name =
     (let base = normalizeCatalogPath basePath in
      if base = [] \<or> base = ''.'' then normalizeCatalogPath name
      else normalizeCatalogPath (base @ ''/'' @ name))"

definition escapeTableCell :: "string \<Rightarrow> string" where
  "escapeTableCell value =
     concat (map (\<lambda>c. if c = CHR ''|'' then [CHR 0x5C, CHR ''|''] else if c = CHR 0x0A then ''<br>''
                      else if c = CHR 0x0D then [] else [c]) value)"

definition orDash :: "string \<Rightarrow> string" where
  "orDash value = (if value = [] then ''-'' else value)"

text \<open>The artifacts a handoff declares, by normalized path; the last declaration of a path counts.\<close>

definition add_artifact :: "handoff_artifact \<Rightarrow> (string, handoff_artifact) gomap \<Rightarrow> (string, handoff_artifact) gomap" where
  "add_artifact a manifest =
     (let normalized = normalizeCatalogPath (ha_Path a) in
      if normalized = [] then manifest else map_set manifest normalized (a\<lparr>ha_Path := normalized\<rparr>))"

definition manifest_of :: "handoff_artifact list \<Rightarrow> (string, handoff_artifact) gomap" where
  "manifest_of artifacts = fold add_artifact artifacts []"

text \<open>\<open>opened\<close> is what opening the handoff gives: nothing if it does not exist, an error, or its text.\<close>

definition loadHandoffArtifacts ::
  "('m, handoff_artifact list) fm_codec \<Rightarrow> go_error + string option \<Rightarrow> go_error + (string, handoff_artifact) gomap" where
  "loadHandoffArtifacts cd opened =
     (case opened of
        Inl err \<Rightarrow> Inl err
      | Inr None \<Rightarrow> Inr []
      | Inr (Some content) \<Rightarrow>
          (case fm_Parse cd [] content of
             Inl err \<Rightarrow> Inl [''parse handoff front matter: '' @ error_text err]
           | Inr (None, _) \<Rightarrow> Inr []
           | Inr (Some artifacts, _) \<Rightarrow> Inr (manifest_of artifacts)))"

text \<open>An entry of the directory: its name, whether it is a directory, and its size or why it is unknown.\<close>

type_synonym dir_entry = "string \<times> bool \<times> (go_error + nat)"

fun disk_rows ::
  "string \<Rightarrow> dir_entry list \<Rightarrow> (string, handoff_artifact) gomap \<Rightarrow> string list \<Rightarrow> (string, catalog_row) gomap
     \<Rightarrow> go_error + string list \<times> (string, catalog_row) gomap \<times> (string, handoff_artifact) gomap" where
  "disk_rows basePath [] manifest paths rows = Inr (paths, rows, manifest)"
| "disk_rows basePath ((name, isDir, info) # entries) manifest paths rows =
     (case info of
        Inl err \<Rightarrow> Inl [''inspect '' @ name @ '': '' @ error_text err]
      | Inr sz \<Rightarrow>
          let relPath = joinSlashPath basePath name;
              row = \<lparr>cr_Path = relPath, cr_Kind = (if isDir then ''dir'' else ''file''),
                     cr_Size = (if isDir then ''-'' else itoa_digits sz), cr_Type = [], cr_Description = [], cr_Status = ''unlisted''\<rparr>
          in (case map_get manifest relPath of
                Some declared \<Rightarrow>
                  disk_rows basePath entries (map_delete manifest relPath) (paths @ [relPath])
                    (map_set rows relPath (row\<lparr>cr_Type := ha_Type declared, cr_Description := ha_Description declared, cr_Status := ''listed''\<rparr>))
              | None \<Rightarrow> disk_rows basePath entries manifest (paths @ [relPath]) (map_set rows relPath row)))"

definition missing_row :: "string \<times> handoff_artifact \<Rightarrow> catalog_row" where
  "missing_row d =
     \<lparr>cr_Path = fst d, cr_Kind = ''-'', cr_Size = ''-'', cr_Type = ha_Type (snd d), cr_Description = ha_Description (snd d),
      cr_Status = ''missing''\<rparr>"

definition buildArtifactCatalogRows ::
  "go_error + dir_entry list \<Rightarrow> string \<Rightarrow> go_error + (string, handoff_artifact) gomap \<Rightarrow> go_error + catalog_row list" where
  "buildArtifactCatalogRows entries basePath loaded =
     (case entries of
        Inl err \<Rightarrow> Inl err
      | Inr es \<Rightarrow>
          (case loaded of
             Inl err \<Rightarrow> Inl err
           | Inr manifest \<Rightarrow>
               (case disk_rows basePath es manifest [] [] of
                  Inl err \<Rightarrow> Inl err
                | Inr (paths, rows, manifest) \<Rightarrow>
                    Inr (List.map_filter (map_get rows) (sort paths)
                         @ map missing_row (List.map_filter (\<lambda>p. map_option (Pair p) (map_get manifest p)) (sort (map_keys manifest)))))))"

definition catalog_line :: "catalog_row \<Rightarrow> string" where
  "catalog_line r =
     ''| '' @ escapeTableCell (cr_Path r) @ '' | '' @ escapeTableCell (orDash (cr_Kind r)) @ '' | ''
     @ escapeTableCell (orDash (cr_Size r)) @ '' | '' @ escapeTableCell (orDash (cr_Type r)) @ '' | ''
     @ escapeTableCell (orDash (cr_Description r)) @ '' | '' @ escapeTableCell (orDash (cr_Status r)) @ '' |'' @ nl"

definition TrimSuffix :: "string \<Rightarrow> string \<Rightarrow> string" where
  "TrimSuffix s suf = (if HasSuffix s suf then take (length s - length suf) s else s)"

definition renderArtifactCatalog :: "catalog_row list \<Rightarrow> nat \<Rightarrow> string" where
  "renderArtifactCatalog rows maxEntries =
     (let limit = (if maxEntries < length rows then maxEntries else length rows) in
      TrimSuffix
        (''| path | kind | size | type | description | status |'' @ nl
         @ ''| --- | --- | --- | --- | --- | --- |'' @ nl
         @ concat (map catalog_line (take limit rows))
         @ (if limit < length rows then nl @ ''('' @ itoa_digits (length rows - limit) @ '' more, truncated)'' else [])) nl)"

record catalog_args =
  ca_Path :: string
  ca_HandoffPath :: string
  ca_MaxEntries :: "int option"

definition artifact_catalog ::
  "'w file_env \<Rightarrow> (string \<Rightarrow> 'w \<Rightarrow> go_error + dir_entry list) \<Rightarrow> (string \<Rightarrow> 'w \<Rightarrow> go_error + string option)
     \<Rightarrow> ('m, handoff_artifact list) fm_codec \<Rightarrow> (string \<Rightarrow> go_error + catalog_args) \<Rightarrow> string \<Rightarrow> 'w \<Rightarrow> 'w tool_run" where
  "artifact_catalog e readDir openFile cd dec arguments w =
     (case dec arguments of
        Inl err \<Rightarrow> (tool_refuse ''artifact_catalog'' (''parse arguments: '' @ error_text err), w)
      | Inr args \<Rightarrow>
          let path = (if ca_Path args = [] then defaultArtifactCatalogPath else ca_Path args);
              handoff = (if ca_HandoffPath args = [] then defaultArtifactCatalogHandoff else ca_HandoffPath args);
              maxEntries = (case ca_MaxEntries args of Some n \<Rightarrow> n | None \<Rightarrow> defaultArtifactCatalogMaxEntries)
          in if maxEntries < 0 then (tool_refuse ''artifact_catalog'' ''max_entries must be >= 0'', w)
             else
               (case fe_ResolvePath e w path of
                  Inl err \<Rightarrow> (tool_fail ''artifact_catalog'' err, w)
                | Inr artifactDir \<Rightarrow>
                    (case fe_ResolvePath e w handoff of
                       Inl err \<Rightarrow> (tool_fail ''artifact_catalog'' err, w)
                     | Inr handoffPath \<Rightarrow>
                         (case buildArtifactCatalogRows (readDir artifactDir w) path (loadHandoffArtifacts cd (openFile handoffPath w)) of
                            Inl err \<Rightarrow> (tool_fail ''artifact_catalog'' err, w)
                          | Inr rows \<Rightarrow> ((renderArtifactCatalog rows (nat maxEntries), []), w)))))"

section \<open>Structured preview\<close>

text \<open>A decoded document.  \<open>PAnyMap\<close> is a YAML map with keys that are not strings, shown as
  \<^verbatim>\<open>fmt.Sprint\<close> prints them.\<close>

datatype pval =
    PNull | PBool | PString | PNumber | PUnknown
  | PObject "(string \<times> pval) list"
  | PArray "pval list"
  | PAnyMap "(string \<times> pval) list"

record preview_cfg =
  pc_maxKeysPerLevel :: nat
  pc_maxDepth :: nat
  pc_sampleRows :: nat

definition structuredTypeName :: "pval \<Rightarrow> string" where
  "structuredTypeName v =
     (case v of PNull \<Rightarrow> ''null'' | PBool \<Rightarrow> ''boolean'' | PString \<Rightarrow> ''string'' | PNumber \<Rightarrow> ''number''
      | PObject _ \<Rightarrow> ''object'' | PArray _ \<Rightarrow> ''array'' | _ \<Rightarrow> ''unknown'')"

definition mapsKeys :: "(string \<times> 'a) list \<Rightarrow> string list" where
  "mapsKeys m = sort (map fst m)"

definition previewKeys :: "(string \<times> 'a) list \<Rightarrow> nat \<Rightarrow> string list" where
  "previewKeys m maxKeys = take maxKeys (mapsKeys m)"

definition truncated_mark :: "bool \<Rightarrow> string" where
  "truncated_mark b = (if b then '' (truncated)'' else [])"

definition objectSummary :: "preview_cfg \<Rightarrow> (string \<times> pval) list \<Rightarrow> nat \<Rightarrow> string \<times> bool" where
  "objectSummary cfg value depth =
     (let keys = previewKeys value (pc_maxKeysPerLevel cfg);
          truncatedKeys = length value - length keys;
          truncated = truncatedKeys > 0 \<or> depth \<ge> pc_maxDepth cfg \<and> length value > 0
      in (''object{keys:['' @ Join keys '', '' @ '']''
          @ (if truncatedKeys > 0 then '', truncated:'' @ itoa_digits truncatedKeys else []) @ ''}'' @ truncated_mark truncated,
          truncated))"

definition first_object :: "pval list \<Rightarrow> (string \<times> pval) list option" where
  "first_object vs = (case List.map_filter (\<lambda>v. case v of PObject kvs \<Rightarrow> Some kvs | _ \<Rightarrow> None) vs of [] \<Rightarrow> None | x # _ \<Rightarrow> Some x)"

definition first_array :: "pval list \<Rightarrow> pval list option" where
  "first_array vs = (case List.map_filter (\<lambda>v. case v of PArray xs \<Rightarrow> Some xs | _ \<Rightarrow> None) vs of [] \<Rightarrow> None | x # _ \<Rightarrow> Some x)"

lemma first_array_smaller: "first_array vs = Some xs \<Longrightarrow> size_list size xs < size_list size vs"
proof -
  assume "first_array vs = Some xs"
  then have "PArray xs \<in> set vs"
    by (induction vs) (auto simp: first_array_def List.map_filter_simps split: pval.splits list.splits)
  then have "size (PArray xs) \<le> size_list size vs" by (rule size_list_estimation') simp
  then show ?thesis by simp
qed

function arraySummary :: "preview_cfg \<Rightarrow> pval list \<Rightarrow> nat \<Rightarrow> string \<times> bool" where
  "arraySummary cfg value depth =
     (let types = sort (remdups (map structuredTypeName value));
          elem = (if value = [] then (''unknown'', False)
                  else if length types = 1 then
                    (case first_object value of
                       Some ob \<Rightarrow> objectSummary cfg ob (depth + 1)
                     | None \<Rightarrow>
                         (case first_array value of
                            Some xs \<Rightarrow> arraySummary cfg xs (depth + 1)
                          | None \<Rightarrow> (hd types, False)))
                  else (''mixed['' @ Join types '', '' @ '']'', False));
          truncated = snd elem \<or> depth \<ge> pc_maxDepth cfg \<and> length value > 0
      in (''array[len='' @ itoa_digits (length value) @ '', elem:'' @ fst elem @ '']'' @ truncated_mark truncated, truncated))"
  by pat_completeness auto
termination
  by (relation "measure (\<lambda>(_, vs, _). size_list size vs)") (auto dest: first_array_smaller)

declare arraySummary.simps [simp del]

definition inlineStructuredSummary :: "preview_cfg \<Rightarrow> pval \<Rightarrow> nat \<Rightarrow> string \<times> bool" where
  "inlineStructuredSummary cfg v depth =
     (case v of
        PObject kvs \<Rightarrow> objectSummary cfg kvs depth
      | PArray xs \<Rightarrow> arraySummary cfg xs depth
      | _ \<Rightarrow> (structuredTypeName v, False))"

text \<open>The recursion of \<^verbatim>\<open>renderStructuredObject\<close> on the levels that are left, \<open>maxDepth - depth\<close>.\<close>

fun render_object :: "nat \<Rightarrow> preview_cfg \<Rightarrow> (string \<times> pval) list \<Rightarrow> nat \<Rightarrow> string \<Rightarrow> string \<Rightarrow> string list" where
  "render_object 0 cfg value depth indent label = [indent @ label @ fst (objectSummary cfg value depth)]"
| "render_object (Suc left) cfg value depth indent label =
     (indent @ label @ fst (objectSummary cfg value depth))
     # concat (map (\<lambda>key.
          (case map_get value key of
             Some (PObject kvs) \<Rightarrow> render_object left cfg kvs (depth + 1) (indent @ ''  '') (key @ '': '')
           | Some v \<Rightarrow> [indent @ ''  '' @ key @ '': '' @ fst (inlineStructuredSummary cfg v (depth + 1))]
           | None \<Rightarrow> []))
        (previewKeys value (pc_maxKeysPerLevel cfg)))"

definition renderStructuredObject :: "(string \<times> pval) list \<Rightarrow> preview_cfg \<Rightarrow> nat \<Rightarrow> string \<Rightarrow> string \<Rightarrow> string list" where
  "renderStructuredObject value cfg depth indent label = render_object (pc_maxDepth cfg - depth) cfg value depth indent label"

definition renderStructuredSketch :: "pval \<Rightarrow> preview_cfg \<Rightarrow> string" where
  "renderStructuredSketch v cfg =
     (case v of
        PObject kvs \<Rightarrow> Join (renderStructuredObject kvs cfg 0 [] []) nl
      | _ \<Rightarrow> fst (inlineStructuredSummary cfg v 0))"

primrec normalizeYAMLValue :: "pval \<Rightarrow> pval"
    and norm_fields :: "(string \<times> pval) list \<Rightarrow> (string \<times> pval) list"
    and norm_elems :: "pval list \<Rightarrow> pval list" and norm_field :: "string \<times> pval \<Rightarrow> string \<times> pval" where
  "normalizeYAMLValue PNull = PNull"
| "normalizeYAMLValue PBool = PBool"
| "normalizeYAMLValue PString = PString"
| "normalizeYAMLValue PNumber = PNumber"
| "normalizeYAMLValue PUnknown = PUnknown"
| "normalizeYAMLValue (PObject kvs) = PObject (norm_fields kvs)"
| "normalizeYAMLValue (PArray xs) = PArray (norm_elems xs)"
| "normalizeYAMLValue (PAnyMap kvs) = PObject (fold (\<lambda>(k, v) m. map_set m k v) (norm_fields kvs) [])"
| "norm_fields [] = []"
| "norm_fields (kv # kvs) = norm_field kv # norm_fields kvs"
| "norm_elems [] = []"
| "norm_elems (x # xs) = normalizeYAMLValue x # norm_elems xs"
| "norm_field (Pair k v) = (k, normalizeYAMLValue v)"

text \<open>\<^verbatim>\<open>filepath.Ext\<close> and \<^verbatim>\<open>strings.ToLower\<close> on the ASCII letters of an extension.\<close>

definition path_Ext :: "string \<Rightarrow> string" where
  "path_Ext p = (let name = rev (takeWhile (\<lambda>c. c \<noteq> CHR ''/'') (rev p)) in
     if CHR ''.'' \<in> set name then CHR ''.'' # rev (takeWhile (\<lambda>c. c \<noteq> CHR ''.'') (rev name)) else [])"

definition ascii_lower :: "string \<Rightarrow> string" where
  "ascii_lower s = map (\<lambda>c. if 65 \<le> (of_char c :: nat) \<and> (of_char c :: nat) \<le> 90 then char_of ((of_char c :: nat) + 32) else c) s"

definition structuredPreviewFormat :: "string \<Rightarrow> string \<Rightarrow> go_error + string" where
  "structuredPreviewFormat raw path =
     (let fmt = ascii_lower (TrimSpace raw); fmt = (if fmt = [] then ''auto'' else fmt) in
      if fmt \<in> {''json'', ''jsonl'', ''yaml''} then Inr fmt
      else if fmt = ''auto'' then
        (let ext = ascii_lower (path_Ext path) in
         if ext = ''.json'' then Inr ''json''
         else if ext \<in> {''.jsonl'', ''.ndjson''} then Inr ''jsonl''
         else if ext \<in> {''.yaml'', ''.yml''} then Inr ''yaml''
         else Inl [''auto format is unknown; set format explicitly''])
      else Inl [''format must be one of auto, json, jsonl, yaml''])"

record jsonl_field_stats =
  js_nulls :: nat
  js_types :: "string list"

definition add_type :: "string \<Rightarrow> jsonl_field_stats \<Rightarrow> jsonl_field_stats" where
  "add_type ty st = (if ty \<in> set (js_types st) then st else st\<lparr>js_types := js_types st @ [ty]\<rparr>)"

definition add_null :: "jsonl_field_stats \<Rightarrow> jsonl_field_stats" where
  "add_null st = add_type ''null'' (st\<lparr>js_nulls := Suc (js_nulls st)\<rparr>)"

text \<open>One field of a row: a field seen for the first time starts with a null for every earlier row.\<close>

definition count_field ::
  "nat \<Rightarrow> string \<times> pval \<Rightarrow> (string, jsonl_field_stats) gomap \<Rightarrow> (string, jsonl_field_stats) gomap" where
  "count_field rowsScanned kv stats =
     (case kv of (key, v) \<Rightarrow>
        let st = (case map_get stats key of Some st \<Rightarrow> st | None \<Rightarrow> \<lparr>js_nulls = rowsScanned, js_types = []\<rparr>)
        in map_set stats key (if v = PNull then add_null st else add_type (structuredTypeName v) st))"

definition miss_fields :: "(string \<times> pval) list \<Rightarrow> (string, jsonl_field_stats) gomap \<Rightarrow> (string, jsonl_field_stats) gomap" where
  "miss_fields row stats = map (\<lambda>(key, st). (key, if map_has row key then st else add_null st)) stats"

definition count_row :: "(string \<times> pval) list \<Rightarrow> nat \<Rightarrow> (string, jsonl_field_stats) gomap \<Rightarrow> (string, jsonl_field_stats) gomap" where
  "count_row row rowsScanned stats = miss_fields row (fold (count_field rowsScanned) row stats)"

primrec jsonl_loop ::
  "(string \<Rightarrow> go_error + pval) \<Rightarrow> nat \<Rightarrow> string list \<Rightarrow> nat \<Rightarrow> (string, jsonl_field_stats) gomap
     \<Rightarrow> go_error + (string, jsonl_field_stats) gomap \<times> nat \<times> bool" where
  "jsonl_loop dec sampleRows [] rowsScanned stats = Inr (stats, rowsScanned, False)"
| "jsonl_loop dec sampleRows (line # ls) rowsScanned stats =
     (if rowsScanned \<ge> sampleRows then Inr (stats, rowsScanned, True)
      else if TrimSpace line = [] then jsonl_loop dec sampleRows ls rowsScanned stats
      else
        (case dec (TrimSpace line) of
           Inl err \<Rightarrow> Inl [''parse jsonl row '' @ itoa_digits (Suc rowsScanned) @ '': '' @ error_text err]
         | Inr (PObject row) \<Rightarrow> jsonl_loop dec sampleRows ls (Suc rowsScanned) (count_row row rowsScanned stats)
         | Inr _ \<Rightarrow> Inl [''jsonl row '' @ itoa_digits (Suc rowsScanned) @ '' must be an object'']))"

definition structuredPreviewJSONLMaxRowBytes :: nat where "structuredPreviewJSONLMaxRowBytes = 8 * 1024 * 1024"

text \<open>\<open>rate\<close> prints \<^verbatim>\<open>nullRate\<close> with two decimals.\<close>

definition jsonl_line :: "(nat \<Rightarrow> nat \<Rightarrow> string) \<Rightarrow> nat \<Rightarrow> (string, jsonl_field_stats) gomap \<Rightarrow> string \<Rightarrow> string" where
  "jsonl_line rate rows stats key =
     (case map_get stats key of
        None \<Rightarrow> []
      | Some st \<Rightarrow> ''  '' @ key @ '': types=['' @ Join (sort (js_types st)) '', '' @ ''], null_rate='' @ rate (js_nulls st) rows)"

definition render_jsonl :: "(nat \<Rightarrow> nat \<Rightarrow> string) \<Rightarrow> preview_cfg \<Rightarrow> (string, jsonl_field_stats) gomap \<Rightarrow> nat \<Rightarrow> bool \<Rightarrow> string" where
  "render_jsonl rate cfg stats rows rowsTruncated =
     (let keys = previewKeys stats (pc_maxKeysPerLevel cfg);
          truncatedKeys = length stats - length keys;
          header = ''jsonl{rows_scanned:'' @ itoa_digits rows @ '', keys:['' @ Join keys '', '' @ '']''
            @ (if truncatedKeys > 0 then '', truncated:'' @ itoa_digits truncatedKeys else []) @ ''}''
            @ truncated_mark (rowsTruncated \<or> truncatedKeys > 0)
      in Join (header # map (jsonl_line rate rows stats) keys) nl)"

definition renderJSONLPreview ::
  "(string \<Rightarrow> go_error + pval) \<Rightarrow> (nat \<Rightarrow> nat \<Rightarrow> string) \<Rightarrow> string \<Rightarrow> preview_cfg \<Rightarrow> go_error + string" where
  "renderJSONLPreview dec rate data cfg =
     (case scan_lines structuredPreviewJSONLMaxRowBytes [] data of (ls, long) \<Rightarrow>
        (case jsonl_loop dec (pc_sampleRows cfg) ls 0 [] of
           Inl err \<Rightarrow> Inl err
         | Inr (stats, rows, rowsTruncated) \<Rightarrow>
             if \<not> rowsTruncated \<and> long then Inl [''scan jsonl: bufio.Scanner: token too long'']
             else Inr (render_jsonl rate cfg stats rows rowsTruncated)))"

record preview_args =
  va_Path :: string
  va_Format :: string
  va_MaxKeysPerLevel :: "int option"
  va_MaxDepth :: "int option"
  va_SampleRows :: "int option"

definition int_or :: "int \<Rightarrow> int option \<Rightarrow> int" where
  "int_or d x = (case x of Some n \<Rightarrow> n | None \<Rightarrow> d)"

definition preview_text ::
  "(string \<Rightarrow> go_error + pval) \<Rightarrow> (string \<Rightarrow> go_error + pval) \<Rightarrow> (nat \<Rightarrow> nat \<Rightarrow> string) \<Rightarrow> preview_cfg \<Rightarrow> string \<Rightarrow> string
     \<Rightarrow> go_error + string" where
  "preview_text json yaml rate cfg fmt data =
     (if fmt = ''json'' then
        (case json data of Inl err \<Rightarrow> Inl [''parse json: '' @ error_text err] | Inr v \<Rightarrow> Inr (renderStructuredSketch v cfg))
      else if fmt = ''jsonl'' then renderJSONLPreview json rate data cfg
      else
        (case yaml data of
           Inl err \<Rightarrow> Inl [''parse yaml: '' @ error_text err]
         | Inr v \<Rightarrow> Inr (renderStructuredSketch (normalizeYAMLValue v) cfg)))"

definition structured_preview ::
  "'w file_env \<Rightarrow> (string \<Rightarrow> go_error + pval) \<Rightarrow> (string \<Rightarrow> go_error + pval) \<Rightarrow> (nat \<Rightarrow> nat \<Rightarrow> string)
     \<Rightarrow> (string \<Rightarrow> go_error + preview_args) \<Rightarrow> string \<Rightarrow> 'w \<Rightarrow> 'w tool_run" where
  "structured_preview e json yaml rate dec arguments w =
     (let name = ''structured_preview'' in
      case dec arguments of
        Inl err \<Rightarrow> (tool_refuse name (''parse arguments: '' @ error_text err), w)
      | Inr args \<Rightarrow>
          let maxKeys = int_or 20 (va_MaxKeysPerLevel args); maxDepth = int_or 3 (va_MaxDepth args);
              sampleRows = int_or 5 (va_SampleRows args)
          in if va_Path args = [] then (tool_refuse name ''path is required'', w)
             else if maxKeys < 1 then (tool_refuse name ''max_keys_per_level must be >= 1'', w)
             else if maxDepth < 0 then (tool_refuse name ''max_depth must be >= 0'', w)
             else if sampleRows < 1 then (tool_refuse name ''sample_rows must be >= 1'', w)
             else
               (case fe_ResolvePath e w (va_Path args) of
                  Inl err \<Rightarrow> (tool_fail name err, w)
                | Inr p \<Rightarrow>
                    (case fe_ReadFile e p w of
                       Inl err \<Rightarrow> (tool_fail name err, w)
                     | Inr data \<Rightarrow>
                         (case structuredPreviewFormat (va_Format args) (va_Path args) of
                            Inl err \<Rightarrow> (tool_fail name err, w)
                          | Inr fmt \<Rightarrow>
                              (case preview_text json yaml rate
                                      \<lparr>pc_maxKeysPerLevel = nat maxKeys, pc_maxDepth = nat maxDepth, pc_sampleRows = nat sampleRows\<rparr> fmt data of
                                 Inl err \<Rightarrow> (tool_fail name err, w)
                               | Inr txt \<Rightarrow> ((txt, []), w))))))"

end
