(* ===== verification/File_Preview_Theorems.thy ===== *)
theory File_Preview_Theorems
  imports File_Preview
begin

text \<open>
  Properties of the summarising tools: the size of a sketch, what the statistics of JSON Lines
  count, and which rows a catalog has.
\<close>

section \<open>Sketches\<close>

lemma render_object_length: "length (render_object left cfg v depth indent label) \<le> (\<Sum>i\<le>left. pc_maxKeysPerLevel cfg ^ i)"
proof (induction left arbitrary: v depth indent label)
  case (Suc left)
  let ?k = "pc_maxKeysPerLevel cfg" and ?S = "\<Sum>i\<le>left. pc_maxKeysPerLevel cfg ^ i"
  have one: "1 \<le> ?S" by (induction left) auto
  let ?f = "\<lambda>key. case map_get v key of
      Some (PObject kvs) \<Rightarrow> render_object left cfg kvs (depth + 1) (indent @ ''  '') (key @ '': '')
    | Some v \<Rightarrow> [indent @ ''  '' @ key @ '': '' @ fst (inlineStructuredSummary cfg v (depth + 1))] | None \<Rightarrow> []"
  have each: "length (?f key) \<le> ?S" for key
    using Suc.IH one by (auto split: option.split pval.split)
  have "length (concat (map ?f ks)) \<le> length ks * ?S" for ks
  proof (induction ks)
    case (Cons key ks)
    then show ?case using each [of key] by simp
  qed simp
  moreover have "length (previewKeys v ?k) \<le> ?k" by (simp add: previewKeys_def)
  ultimately have "length (concat (map ?f (previewKeys v ?k))) \<le> ?k * ?S" by (meson mult_le_mono1 order_trans)
  moreover have "(\<Sum>i\<le>Suc left. ?k ^ i) = 1 + ?k * ?S"
    by (simp add: sum.atMost_Suc_shift sum_distrib_left del: sum.atMost_Suc)
  ultimately show ?case by simp
qed simp

text \<open>The sketch of a document, however large, has at most one line for itself and, on each of the
  \<open>maxDepth\<close> levels below, \<open>maxKeysPerLevel\<close> times as many as on the level above.\<close>

theorem sketch_size_bounded:
  "length (renderStructuredObject v cfg 0 indent label) \<le> (\<Sum>i\<le>pc_maxDepth cfg. pc_maxKeysPerLevel cfg ^ i)"
  using render_object_length [of "pc_maxDepth cfg"] by (simp add: renderStructuredObject_def)

section \<open>Statistics of JSON Lines\<close>

definition null_in :: "string \<Rightarrow> (string \<times> pval) list \<Rightarrow> bool" where
  "null_in key row \<longleftrightarrow> map_get row key = None \<or> map_get row key = Some PNull"

definition field_step :: "pval option \<Rightarrow> jsonl_field_stats \<Rightarrow> jsonl_field_stats" where
  "field_step x st = (case x of Some v \<Rightarrow> if v = PNull then add_null st else add_type (structuredTypeName v) st | None \<Rightarrow> add_null st)"

lemma count_fields_get:
  "map_ok row \<Longrightarrow> map_get (fold (count_field n) row stats) key =
     (case map_get row key of
        None \<Rightarrow> map_get stats key
      | Some v \<Rightarrow> Some (field_step (Some v) (case map_get stats key of Some st \<Rightarrow> st | None \<Rightarrow> \<lparr>js_nulls = n, js_types = []\<rparr>)))"
proof (induction row arbitrary: stats)
  case (Cons kv row)
  obtain k v where kv: "kv = (k, v)" by (cases kv)
  have ok: "map_ok row" "map_get row k = None"
    using Cons.prems kv by (auto simp: map_ok_def map_get_def map_of_eq_None_iff)
  show ?case
  proof (cases "k = key")
    case True
    then show ?thesis using Cons.IH [OF ok(1)] ok(2) kv by (simp add: count_field_def field_step_def Let_def)
  next
    case False
    then show ?thesis using Cons.IH [OF ok(1)] kv by (simp add: count_field_def Let_def split: option.split)
  qed
qed simp

lemma miss_fields_get: "map_get (miss_fields row stats) key = map_option (\<lambda>st. if map_has row key then st else add_null st) (map_get stats key)"
  by (induction stats) (auto simp: miss_fields_def)

lemma count_row_get:
  assumes "map_ok row"
  shows "map_get (count_row row n stats) key =
    (case map_get row key of
       None \<Rightarrow> map_option add_null (map_get stats key)
     | Some v \<Rightarrow> Some (field_step (Some v) (case map_get stats key of Some st \<Rightarrow> st | None \<Rightarrow> \<lparr>js_nulls = n, js_types = []\<rparr>)))"
  using count_fields_get [OF assms, of n stats key]
  by (auto simp: count_row_def miss_fields_get map_has_iff split: option.split)

text \<open>What the statistics of a field say about the rows read so far.\<close>

definition field_ok :: "(string \<times> pval) list list \<Rightarrow> string \<Rightarrow> jsonl_field_stats option \<Rightarrow> bool" where
  "field_ok rows key st \<longleftrightarrow>
     (case st of
        None \<Rightarrow> \<forall>r \<in> set rows. \<not> map_has r key
      | Some st \<Rightarrow> (\<exists>r \<in> set rows. map_has r key)
          \<and> js_nulls st = length (filter (null_in key) rows)
          \<and> (''null'' \<in> set (js_types st) \<longleftrightarrow> (\<exists>i < length rows. null_in key (rows ! i) \<and> (\<exists>j \<le> i. map_has (rows ! j) key)))
          \<and> set (js_types st) - {''null''} = {structuredTypeName v |v r. r \<in> set rows \<and> map_get r key = Some v \<and> v \<noteq> PNull})"

lemma type_not_null: "v \<noteq> PNull \<Longrightarrow> structuredTypeName v \<noteq> ''null''"
  by (cases v) (simp_all add: structuredTypeName_def)

lemma types_of_step: "set (js_types (field_step x st)) = set (js_types st)
    \<union> (case x of Some v \<Rightarrow> {if v = PNull then ''null'' else structuredTypeName v} | None \<Rightarrow> {''null''})"
  and nulls_of_step: "js_nulls (field_step x st) = js_nulls st + (if x = None \<or> x = Some PNull then 1 else 0)"
  by (auto simp: field_step_def add_null_def add_type_def split: option.split)

lemma ex_less_Suc: "(\<exists>i < Suc n. P i) \<longleftrightarrow> (\<exists>i < n. P i) \<or> P n"
  by (auto simp: less_Suc_eq)

lemma field_ok_step:
  assumes "field_ok rows key st"
    and "st' = (case map_get row key of
       None \<Rightarrow> map_option add_null st
     | Some v \<Rightarrow> Some (field_step (Some v) (case st of Some st \<Rightarrow> st | None \<Rightarrow> \<lparr>js_nulls = length rows, js_types = []\<rparr>)))"
  shows "field_ok (rows @ [row]) key st'"
proof (cases "st = None \<and> map_get row key = None")
  case True
  then show ?thesis using assms by (auto simp: field_ok_def map_has_iff)
next
  case False
  define s0 where "s0 = (case st of Some s \<Rightarrow> s | None \<Rightarrow> \<lparr>js_nulls = length rows, js_types = []\<rparr>)"
  have add: "add_null s = field_step None s" for s by (simp add: field_step_def)
  have st': "st' = Some (field_step (map_get row key) s0)"
    using False assms(2) by (auto simp: s0_def add split: option.splits)
  let ?nth = "\<lambda>i. (rows @ [row]) ! i"
  have none: "filter (null_in key) rows = rows" "\<not> (\<exists>r \<in> set rows. map_has r key)" if "st = None"
    using assms(1) that by (auto simp: field_ok_def null_in_def map_has_iff filter_id_conv)
  have some: "\<exists>r \<in> set (rows @ [row]). map_has r key"
    using False assms(1) by (auto simp: field_ok_def map_has_iff split: option.splits)
  have nulls: "js_nulls (field_step (map_get row key) s0) = length (filter (null_in key) (rows @ [row]))"
    using assms(1) none(1) by (auto simp: nulls_of_step s0_def field_ok_def null_in_def split: option.splits)
  have old: "(\<exists>j \<le> i. map_has (?nth j) key) \<longleftrightarrow> (\<exists>j \<le> i. map_has (rows ! j) key)" if "i < length rows" for i
    using that by (metis le_less_trans nth_append)
  have null: "''null'' \<in> set (js_types (field_step (map_get row key) s0)) \<longleftrightarrow>
      (\<exists>i < length (rows @ [row]). null_in key (?nth i) \<and> (\<exists>j \<le> i. map_has (?nth j) key))"
  proof -
    have a: "''null'' \<in> set (js_types s0) \<longleftrightarrow> (\<exists>i < length rows. null_in key (rows ! i) \<and> (\<exists>j \<le> i. map_has (rows ! j) key))"
      using assms(1) none(2) by (auto simp: field_ok_def s0_def split: option.splits)
    have b: "null_in key row \<longrightarrow> (\<exists>j \<le> length rows. map_has (?nth j) key)"
    proof -
      obtain r where r: "r \<in> set (rows @ [row])" "map_has r key" using some by blast
      then obtain j where "j < length (rows @ [row])" "?nth j = r" by (metis in_set_conv_nth)
      then have "j \<le> length rows" "map_has (?nth j) key" using r(2) by simp_all
      then show ?thesis by blast
    qed
    have "(\<exists>i < length rows. null_in key (?nth i) \<and> (\<exists>j \<le> i. map_has (?nth j) key)) \<longleftrightarrow>
        (\<exists>i < length rows. null_in key (rows ! i) \<and> (\<exists>j \<le> i. map_has (rows ! j) key))"
      by (intro ex_cong1 conj_cong refl old) (simp_all add: nth_append)
    then have "(\<exists>i < length (rows @ [row]). null_in key (?nth i) \<and> (\<exists>j \<le> i. map_has (?nth j) key)) \<longleftrightarrow>
        (\<exists>i < length rows. null_in key (rows ! i) \<and> (\<exists>j \<le> i. map_has (rows ! j) key)) \<or> null_in key row"
      unfolding length_append_singleton ex_less_Suc nth_append_length using b by metis
    moreover have "''null'' \<in> set (js_types (field_step (map_get row key) s0)) \<longleftrightarrow> ''null'' \<in> set (js_types s0) \<or> null_in key row"
      using type_not_null by (auto simp: types_of_step null_in_def split: option.splits dest: sym)
    ultimately show ?thesis using a by blast
  qed
  have kinds: "set (js_types (field_step (map_get row key) s0)) - {''null''}
      = {structuredTypeName v |v r. r \<in> set (rows @ [row]) \<and> map_get r key = Some v \<and> v \<noteq> PNull}"
  proof -
    have a: "set (js_types s0) - {''null''} = {structuredTypeName v |v r. r \<in> set rows \<and> map_get r key = Some v \<and> v \<noteq> PNull}"
      using assms(1) none(2) by (auto simp: field_ok_def s0_def map_has_iff split: option.splits)
    have "{structuredTypeName v |v r. r \<in> set (rows @ [row]) \<and> map_get r key = Some v \<and> v \<noteq> PNull}
        = {structuredTypeName v |v r. r \<in> set rows \<and> map_get r key = Some v \<and> v \<noteq> PNull}
          \<union> {structuredTypeName v |v. map_get row key = Some v \<and> v \<noteq> PNull}" by auto
    also have "\<dots> = set (js_types (field_step (map_get row key) s0)) - {''null''}"
      unfolding a [symmetric] types_of_step using type_not_null by (auto split: option.splits)
    finally show ?thesis by simp
  qed
  show ?thesis using st' some nulls null kinds by (simp add: field_ok_def)
qed

text \<open>The rows the loop reads: the first lines that are not blank.\<close>

definition nonblank :: "string list \<Rightarrow> string list" where
  "nonblank ls = filter (\<lambda>l. l \<noteq> []) (map TrimSpace ls)"

lemma jsonl_loop_rows:
  assumes "\<forall>l row. dec l = Inr (PObject row) \<longrightarrow> map_ok row"
    and "jsonl_loop dec k ls (length rows) stats = Inr (stats', n, tr)" "\<forall>key. field_ok rows key (map_get stats key)"
  shows "\<exists>rs. n = length (rows @ rs) \<and> map dec (take (length rs) (nonblank ls)) = map (Inr \<circ> PObject) rs
    \<and> (tr \<longrightarrow> k \<le> n) \<and> (\<not> tr \<longrightarrow> length rs = length (nonblank ls)) \<and> (\<forall>key. field_ok (rows @ rs) key (map_get stats' key))"
  using assms(2,3)
proof (induction ls arbitrary: rows stats)
  case Nil
  then show ?case by (intro exI [of _ "[]"]) (auto simp: nonblank_def)
next
  case (Cons line ls)
  show ?case
  proof (cases "length rows \<ge> k")
    case True
    then show ?thesis using Cons.prems by (intro exI [of _ "[]"]) auto
  next
    case False
    show ?thesis
    proof (cases "TrimSpace line = []")
      case True
      then have "jsonl_loop dec k ls (length rows) stats = Inr (stats', n, tr)" using Cons.prems(1) False by simp
      with Cons.IH Cons.prems(2) True show ?thesis by (simp add: nonblank_def)
    next
      case nb: False
      then obtain row where row: "dec (TrimSpace line) = Inr (PObject row)"
        and rec: "jsonl_loop dec k ls (length (rows @ [row])) (count_row row (length rows) stats) = Inr (stats', n, tr)"
        using Cons.prems(1) False by (auto split: sum.splits pval.splits)
      have "map_ok row" using assms(1) row by blast
      then have "\<forall>key. field_ok (rows @ [row]) key (map_get (count_row row (length rows) stats) key)"
        using field_ok_step [OF Cons.prems(2) [rule_format]] count_row_get by metis
      from Cons.IH [OF rec this] obtain rs where
        "n = length ((rows @ [row]) @ rs)" "map dec (take (length rs) (nonblank ls)) = map (Inr \<circ> PObject) rs" "tr \<longrightarrow> k \<le> n"
        "\<not> tr \<longrightarrow> length rs = length (nonblank ls)" "\<forall>key. field_ok ((rows @ [row]) @ rs) key (map_get stats' key)" by blast
      with row nb show ?thesis by (intro exI [of _ "row # rs"]) (auto simp: nonblank_def)
    qed
  qed
qed

text \<open>The statistics of a JSON Lines preview describe the first rows of the file, all of them
  unless the preview says it is truncated: a field is reported if a row has it, its nulls are the
  rows in which it is absent or null, and its types are those of its values.  The type \<^verbatim>\<open>null\<close> is
  reported only for rows from the first one that has the field on, although the earlier ones
  count as nulls.\<close>

theorem jsonl_statistics_exact:
  assumes "\<forall>l row. dec l = Inr (PObject row) \<longrightarrow> map_ok row" "jsonl_loop dec sampleRows ls 0 [] = Inr (stats, n, truncated)"
  shows "\<exists>rows. n = length rows \<and> map dec (take n (nonblank ls)) = map (Inr \<circ> PObject) rows
    \<and> (truncated \<longrightarrow> sampleRows \<le> n) \<and> (\<not> truncated \<longrightarrow> n = length (nonblank ls))
    \<and> (\<forall>key. field_ok rows key (map_get stats key))"
  using jsonl_loop_rows [OF assms(1), of sampleRows ls "[]" "[]" stats n truncated] assms(2)
  by (auto simp: field_ok_def)

definition rows_example :: "string \<Rightarrow> go_error + pval" where
  "rows_example l = Inr (PObject (if l = ''1'' then [(''a'', PNumber)] else [(''a'', PString), (''b'', PBool)]))"

theorem jsonl_statistics_exact_witness:
  "\<exists>stats. jsonl_loop rows_example 5 [''1'', [], ''2''] 0 [] = Inr (stats, 2, False)
    \<and> map_get stats ''b'' = Some \<lparr>js_nulls = 1, js_types = [''boolean'']\<rparr>
    \<and> field_ok [[(''a'', PNumber)], [(''a'', PString), (''b'', PBool)]] ''b'' (map_get stats ''b'')"
proof -
  let ?s = "[(''a'', \<lparr>js_nulls = 0, js_types = [''number'', ''string'']\<rparr>), (''b'', \<lparr>js_nulls = 1, js_types = [''boolean'']\<rparr>)]"
  have ok: "\<forall>l row. rows_example l = Inr (PObject row) \<longrightarrow> map_ok row" by (auto simp: rows_example_def map_ok_def)
  have run: "jsonl_loop rows_example 5 [''1'', [], ''2''] 0 [] = Inr (?s, 2, False)" by code_simp
  have lines: "nonblank [''1'', [], ''2''] = [''1'', ''2'']" by code_simp
  from jsonl_statistics_exact [OF ok run] obtain rows where
    "map rows_example (take 2 [''1'', ''2'']) = map (Inr \<circ> PObject) rows" "\<forall>key. field_ok rows key (map_get ?s key)"
    unfolding lines by blast
  moreover from this(1) have "rows = [[(''a'', PNumber)], [(''a'', PString), (''b'', PBool)]]"
    by (auto simp: rows_example_def Cons_eq_map_conv)
  ultimately have "field_ok [[(''a'', PNumber)], [(''a'', PString), (''b'', PBool)]] ''b'' (map_get ?s ''b'')" by blast
  moreover have "map_get ?s ''b'' = Some \<lparr>js_nulls = 1, js_types = [''boolean'']\<rparr>" by code_simp
  ultimately show ?thesis using run by (intro exI [of _ ?s] conjI)
qed

section \<open>Catalogs\<close>

text \<open>The reference: one row per entry of the directory, in the order of the paths, then one per
  declared artifact that is not there.\<close>

definition entry_path :: "string \<Rightarrow> dir_entry \<Rightarrow> string" where
  "entry_path basePath entry = joinSlashPath basePath (fst entry)"

definition entry_row :: "string \<Rightarrow> (string, handoff_artifact) gomap \<Rightarrow> dir_entry \<Rightarrow> catalog_row" where
  "entry_row basePath manifest entry =
     (case entry of (name, isDir, info) \<Rightarrow>
        let declared = map_get manifest (joinSlashPath basePath name) in
        \<lparr>cr_Path = joinSlashPath basePath name, cr_Kind = (if isDir then ''dir'' else ''file''),
         cr_Size = (if isDir then ''-'' else itoa_digits (projr info)),
         cr_Type = (case declared of Some d \<Rightarrow> ha_Type d | None \<Rightarrow> []),
         cr_Description = (case declared of Some d \<Rightarrow> ha_Description d | None \<Rightarrow> []),
         cr_Status = (case declared of Some d \<Rightarrow> ''listed'' | None \<Rightarrow> ''unlisted'')\<rparr>)"

definition catalog_spec :: "string \<Rightarrow> (string, handoff_artifact) gomap \<Rightarrow> dir_entry list \<Rightarrow> catalog_row list" where
  "catalog_spec basePath manifest entries =
     map (entry_row basePath manifest) (sort_key (entry_path basePath) entries)
     @ map missing_row (sort_key fst (filter (\<lambda>d. fst d \<notin> entry_path basePath ` set entries) manifest))"

lemma disk_rows_spec:
  assumes "disk_rows base es man paths rows = Inr (paths', rows', man')" "distinct (map (entry_path base) es)"
  shows "paths' = paths @ map (entry_path base) es \<and> man' = filter (\<lambda>d. fst d \<notin> entry_path base ` set es) man
    \<and> (\<forall>p. p \<notin> entry_path base ` set es \<longrightarrow> map_get rows' p = map_get rows p)
    \<and> (\<forall>x \<in> set es. map_get rows' (entry_path base x) = Some (entry_row base man x))"
  using assms
proof (induction es arbitrary: man paths rows)
  case (Cons x es)
  obtain name isDir info where x: "x = (name, isDir, info)" by (metis prod_cases3)
  let ?p = "joinSlashPath base name"
  have p: "entry_path base x = ?p" by (simp add: entry_path_def x)
  obtain sz where sz: "info = Inr sz" using Cons.prems(1) x by (cases info) auto
  define row where "row = entry_row base man x"
  have rec: "disk_rows base es (map_delete man ?p) (paths @ [?p]) (map_set rows ?p row) = Inr (paths', rows', man')"
  proof (cases "map_get man ?p")
    case None
    have "filter (\<lambda>d. fst d \<noteq> ?p) man = man" using None by (force simp: filter_id_conv map_get_def map_of_eq_None_iff)
    with None Cons.prems(1) show ?thesis by (cases isDir) (simp_all add: x sz row_def entry_row_def Let_def map_delete_def)
  next
    case (Some d)
    with Cons.prems(1) show ?thesis by (cases isDir) (simp_all add: x sz row_def entry_row_def Let_def)
  qed
  have dist: "distinct (map (entry_path base) es)" and new: "?p \<notin> entry_path base ` set es" using Cons.prems(2) p by auto
  note IH = Cons.IH [OF rec dist]
  have same: "entry_row base (map_delete man ?p) y = entry_row base man y" if "y \<in> set es" for y
  proof -
    have "entry_path base y \<noteq> ?p" using new that by (metis imageI)
    then have "joinSlashPath base (fst y) \<noteq> ?p" by (simp add: entry_path_def)
    then show ?thesis by (cases y) (simp add: entry_row_def)
  qed
  have "man' = filter (\<lambda>d. fst d \<notin> entry_path base ` set (x # es)) man"
    using IH p by (auto simp: map_delete_def intro: filter_cong)
  moreover have "map_get rows' ?p = Some row" using IH new by simp
  ultimately show ?case using IH p same by (auto simp: row_def)
qed simp

lemma map_filter_over: "\<forall>x \<in> set xs. f (h x) = Some (g x) \<Longrightarrow> List.map_filter f (map h xs) = map g xs"
  by (induction xs) (simp_all add: List.map_filter_simps)

lemma map_insort_key: "map f (insort_key f x xs) = insort (f x) (map f xs)"
  by (induction xs) simp_all

lemma map_sort_key: "map f (sort_key f xs) = sort (map f xs)"
  by (induction xs) (simp_all add: map_insort_key)

text \<open>When no two entries have the same normalized path, the catalog has exactly one row per entry
  of the directory, listed if the handoff declares it and unlisted if not, in the order of the paths,
  followed by the declared artifacts that are missing.\<close>

theorem catalog_rows_exact:
  assumes "buildArtifactCatalogRows (Inr entries) basePath (Inr manifest) = Inr rows"
    and "distinct (map (entry_path basePath) entries)" "map_ok manifest"
  shows "rows = catalog_spec basePath manifest entries"
proof -
  obtain paths rs man where d: "disk_rows basePath entries manifest [] [] = Inr (paths, rs, man)"
    using assms(1) by (auto simp: buildArtifactCatalogRows_def split: sum.splits)
  note spec = disk_rows_spec [OF d assms(2)]
  have "sort paths = map (entry_path basePath) (sort_key (entry_path basePath) entries)" using spec by (simp add: map_sort_key)
  then have disk: "List.map_filter (map_get rs) (sort paths) = map (entry_row basePath manifest) (sort_key (entry_path basePath) entries)"
    using spec by (simp add: map_filter_over)
  have "map_ok man" using spec assms(3) by (simp add: map_ok_def distinct_map_filter)
  then have "\<forall>x \<in> set man. map_get man (fst x) = Some (snd x)" by (simp add: map_get_def map_ok_def)
  then have missing: "List.map_filter (\<lambda>p. map_option (Pair p) (map_get man p)) (sort (map_keys man)) = sort_key fst man"
    unfolding map_keys_def map_sort_key [symmetric] by (subst map_filter_over [of _ _ _ "\<lambda>x. x"]) simp_all
  show ?thesis using assms(1) d disk missing spec by (simp add: buildArtifactCatalogRows_def catalog_spec_def)
qed

theorem catalog_rows_exact_witness:
  "\<exists>rows. buildArtifactCatalogRows (Inr [(''b'', True, Inr 0), (''a'', False, Inr 12)]) ''out''
     (Inr (manifest_of [\<lparr>ha_Path = ''./out/a'', ha_Type = ''csv'', ha_Description = ''d''\<rparr>, \<lparr>ha_Path = ''out/c'', ha_Type = [], ha_Description = []\<rparr>]))
       = Inr rows
    \<and> map (\<lambda>r. (cr_Path r, cr_Status r)) rows = [(''out/a'', ''listed''), (''out/b'', ''unlisted''), (''out/c'', ''missing'')]"
proof -
  let ?es = "[(''b'', True, Inr 0), (''a'', False, Inr 12)] :: dir_entry list"
  let ?man = "manifest_of [\<lparr>ha_Path = ''./out/a'', ha_Type = ''csv'', ha_Description = ''d''\<rparr>, \<lparr>ha_Path = ''out/c'', ha_Type = [], ha_Description = []\<rparr>]"
  have "\<not> isl (buildArtifactCatalogRows (Inr ?es) ''out'' (Inr ?man))" by code_simp
  then obtain rows where r: "buildArtifactCatalogRows (Inr ?es) ''out'' (Inr ?man) = Inr rows"
    by (cases "buildArtifactCatalogRows (Inr ?es) ''out'' (Inr ?man)") auto
  have "distinct (map (entry_path ''out'') ?es)" "map_ok ?man" by code_simp+
  from catalog_rows_exact [OF r this] have "rows = catalog_spec ''out'' ?man ?es" .
  moreover have "map (\<lambda>r. (cr_Path r, cr_Status r)) (catalog_spec ''out'' ?man ?es)
      = [(''out/a'', ''listed''), (''out/b'', ''unlisted''), (''out/c'', ''missing'')]" by code_simp
  ultimately show ?thesis using r by (intro exI [of _ rows] conjI) simp_all
qed

text \<open>Without that hypothesis the catalog is wrong: two files whose names differ in trailing blanks
  have the same normalized path, and the row of the second is printed twice.\<close>

theorem catalog_confuses_blank_names:
  "map (\<lambda>r. (cr_Path r, cr_Size r)) (projr (buildArtifactCatalogRows (Inr [(''a'', False, Inr 1), (''a '', False, Inr 2)]) ''out'' (Inr [])))
    = [(''out/a'', ''2''), (''out/a'', ''2'')]"
  by code_simp

end
