(* ===== verification/Event_Log.thy ===== *)
theory Event_Log
  imports Stream_Event Go_Filepath Tool_Policy Go_Text
begin

text \<open>
  The file stores of package \<^verbatim>\<open>store\<close>: the striped locks of \<^verbatim>\<open>striped_locks.go\<close>, the request event
  log of \<^verbatim>\<open>event_log.go\<close> and the snapshot cursors of \<^verbatim>\<open>cursor.go\<close>.

  The files below the root are a map from paths to contents.  What the operating system does with
  the calls of an operation is a record of faults, one field per call; a failed write may have
  written a prefix.  \<open>enc\<close> stands for \<^verbatim>\<open>json.Marshal\<close>, \<open>dec\<close> for one \<^verbatim>\<open>Decode\<close> of a \<^verbatim>\<open>json.Decoder\<close>
  on the bytes that are left.  Operations on one request run under its lock, so each is one step.
\<close>

unbundle bit_operations_syntax

section \<open>Striped locks\<close>

definition defaultStripedStoreLockCount :: nat where "defaultStripedStoreLockCount = 64"

text \<open>The locks are the list of flags that tell which of them are held.\<close>

definition newStripedStoreLocks :: "int \<Rightarrow> bool list" where
  "newStripedStoreLocks n = replicate (if n \<le> 0 then defaultStripedStoreLockCount else nat n) False"

text \<open>The 32-bit FNV-1a hash of \<^verbatim>\<open>hash/fnv\<close>.\<close>

definition fnv_step :: "32 word \<Rightarrow> char \<Rightarrow> 32 word" where
  "fnv_step h c = (h XOR of_nat (of_char c)) * 16777619"

definition fnv32a :: "string \<Rightarrow> 32 word" where
  "fnv32a s = foldl fnv_step 2166136261 s"

definition stripedStoreLockIndex :: "string \<Rightarrow> nat \<Rightarrow> nat" where
  "stripedStoreLockIndex key n = unat (fnv32a key mod of_nat n)"

text \<open>None when the caller blocks; otherwise the lock to release, if any, and the locks.\<close>

definition striped_Lock :: "string \<Rightarrow> bool list \<Rightarrow> (nat option \<times> bool list) option" where
  "striped_Lock key locks =
     (if locks = [] then Some (None, locks)
      else
        let i = stripedStoreLockIndex key (length locks) in
        if locks ! i then None else Some (Some i, locks[i := True]))"

definition striped_Unlock :: "nat option \<Rightarrow> bool list \<Rightarrow> bool list" where
  "striped_Unlock i locks = (case i of None \<Rightarrow> locks | Some i \<Rightarrow> locks[i := False])"

section \<open>Files by request id\<close>

type_synonym files = "(string, string) gomap"

definition validateStoreID :: "string \<Rightarrow> string \<Rightarrow> go_error" where
  "validateStoreID kind rid =
     (if rid = [] then [''store: '' @ kind @ '' id must not be empty'']
      else if ContainsAny rid [CHR ''/'', CHR 0x5C] \<or> Contains rid ''..''
      then [''store: '' @ kind @ '' id '' @ go_quote rid @ '' contains path separators'']
      else if HasPrefix rid ''.''
      then [''store: '' @ kind @ '' id '' @ go_quote rid @ '' must not start with '' @ [CHR 0x27, CHR ''.'', CHR 0x27]]
      else [])"

definition store_path :: "string \<Rightarrow> string \<Rightarrow> string \<Rightarrow> go_error + string" where
  "store_path root ext requestID =
     (let err = validateStoreID ''request'' requestID in
      if err \<noteq> [] then Inl err else Inr (path_Join [root, requestID @ ext]))"

definition newJSONStore :: "string \<Rightarrow> go_error \<Rightarrow> string \<Rightarrow> go_error + string" where
  "newJSONStore name mkdirErr dir =
     (if TrimSpace dir = [] then Inl [''store: '' @ name @ '' requires a non-empty directory'']
      else if mkdirErr \<noteq> [] then Inl [''store: '' @ name @ '' mkdir '' @ go_quote dir @ '': '' @ error_text mkdirErr]
      else Inr dir)"

section \<open>The event log\<close>

definition validateJSONEventLogEvent :: "event \<Rightarrow> go_error" where
  "validateJSONEventLogEvent ev =
     (if RequestID (Scope ev) = [] then [''store: request event missing scope.request_id'']
      else if SequenceNumber ev = 0 then [''store: request event missing sequence_number'']
      else if LogicalTime ev = 0 then [''store: request event missing logical_time'']
      else if EventType ev = [] then [''store: request event missing event_type'']
      else if Layer (From ev) = [] then [''store: request event missing from.layer'']
      else if Status ev = [] then [''store: request event missing status'']
      else if time_IsZero (Timestamp ev) then [''store: request event missing timestamp'']
      else if (case Delta ev of None \<Rightarrow> False | Some d \<Rightarrow> \<not> json_Valid d) then [''store: request event has invalid delta JSON'']
      else [])"

record log_fault =
  lf_open :: go_error
  lf_write :: "nat \<times> go_error"
  lf_sync :: go_error

definition file_of :: "files \<Rightarrow> string \<Rightarrow> string" where
  "file_of fs p = (case map_get fs p of Some c \<Rightarrow> c | None \<Rightarrow> [])"

definition log_entry :: "event \<Rightarrow> string" where
  "log_entry ev = go_quote (RequestID (Scope ev)) @ ''/'' @ itoa_digits (unat (SequenceNumber ev))"

definition AppendEvent :: "(event \<Rightarrow> go_error + string) \<Rightarrow> string \<Rightarrow> log_fault \<Rightarrow> event \<Rightarrow> files \<Rightarrow> go_error \<times> files" where
  "AppendEvent enc root io ev fs =
     (let err = validateJSONEventLogEvent ev in
      if err \<noteq> [] then (err, fs)
      else
        (case store_path root ''.jsonl'' (RequestID (Scope ev)) of
           Inl err \<Rightarrow> (err, fs)
         | Inr path \<Rightarrow>
             if lf_open io \<noteq> [] then ([''store: open event log '' @ go_quote path @ '': '' @ error_text (lf_open io)], fs)
             else
               let fs = map_set fs path (file_of fs path) in
               (case enc ev of
                  Inl err \<Rightarrow> ([''store: encode event log '' @ log_entry ev @ '': '' @ error_text err], fs)
                | Inr line \<Rightarrow>
                    let data = line @ [newline] in
                    (case lf_write io of (n, err) \<Rightarrow>
                       if err \<noteq> [] then ([''store: write event log '' @ log_entry ev @ '': '' @ error_text err], map_set fs path (file_of fs path @ take n data))
                       else
                         let fs = map_set fs path (file_of fs path @ data) in
                         if lf_sync io \<noteq> [] then ([''store: sync event log '' @ log_entry ev @ '': '' @ error_text (lf_sync io)], fs)
                         else ([], fs)))))"

text \<open>What \<^verbatim>\<open>Decode\<close> finds on the bytes that are left: their end, an error, or a value and the rest.\<close>

datatype 'a decoded = DecEOF | DecErr go_error | DecValue 'a string

text \<open>The loop ends when the decoder comes to the end of the file; None is a run that does not.\<close>

partial_function (option) load_loop ::
  "string \<Rightarrow> (string \<Rightarrow> event decoded) \<Rightarrow> u64 \<Rightarrow> event_filter \<Rightarrow> nat \<Rightarrow> string \<Rightarrow> event list \<Rightarrow> (go_error + event list) option" where
  "load_loop requestID dec start filt i bytes out =
     (case dec bytes of
        DecEOF \<Rightarrow> Some (Inr out)
      | DecErr err \<Rightarrow> Some (Inl [''store: decode event log '' @ go_quote requestID @ '' entry '' @ itoa_digits i @ '': '' @ error_text err])
      | DecValue ev rest \<Rightarrow>
          if SequenceNumber ev < start then load_loop requestID dec start filt (Suc i) rest out
          else if Match filt ev then load_loop requestID dec start filt (Suc i) rest (out @ [ev])
          else load_loop requestID dec start filt (Suc i) rest out)"

definition LoadEvents ::
  "(string \<Rightarrow> event decoded) \<Rightarrow> string \<Rightarrow> go_error \<Rightarrow> scope \<Rightarrow> u64 \<Rightarrow> event_filter \<Rightarrow> files \<Rightarrow> (go_error + event list) option" where
  "LoadEvents dec root openErr sc start filt fs =
     (if RequestID sc = [] then Some (Inl [''store: request event replay requires scope.request_id''])
      else
        (case store_path root ''.jsonl'' (RequestID sc) of
           Inl err \<Rightarrow> Some (Inl err)
         | Inr path \<Rightarrow>
             (case map_get fs path of
                None \<Rightarrow> Some (Inr [])
              | Some content \<Rightarrow>
                  if openErr \<noteq> [] then Some (Inl [''store: read event log '' @ go_quote path @ '': '' @ error_text openErr])
                  else load_loop (RequestID sc) dec (if start = 0 then 1 else start) filt 1 content [])))"

section \<open>Snapshot cursors\<close>

record snapshot_cursor =
  sc_RequestID :: string
  sc_RunnerID :: string
  sc_CheckpointSequence :: int
  sc_EventSequence :: u64
  sc_UpdatedAt :: time

definition ErrSnapshotCursorNotFound :: string where
  "ErrSnapshotCursorNotFound = ''store: snapshot cursor not found''"

definition validateJSONSnapshotCursor :: "snapshot_cursor \<Rightarrow> go_error" where
  "validateJSONSnapshotCursor c =
     (if sc_RequestID c = [] then [''store: snapshot cursor missing request_id'']
      else if sc_CheckpointSequence c < 0 then [''store: snapshot cursor checkpoint_sequence must be non-negative'']
      else [])"

text \<open>\<open>cf_name\<close> is the random part of the temporary file's name; \<open>cf_remove\<close> an error of the deferred
  removal, which is ignored.\<close>

record cursor_fault =
  cf_temp :: go_error
  cf_name :: string
  cf_write :: "nat \<times> go_error"
  cf_sync :: go_error
  cf_close :: go_error
  cf_rename :: go_error
  cf_remove :: go_error

definition temp_path :: "string \<Rightarrow> cursor_fault \<Rightarrow> string \<Rightarrow> string" where
  "temp_path root io path = path_Join [root, path_Base path @ ''.'' @ cf_name io @ ''.tmp'']"

definition remove_temp :: "cursor_fault \<Rightarrow> string \<Rightarrow> files \<Rightarrow> files" where
  "remove_temp io tmp fs = (if cf_remove io = [] then map_delete fs tmp else fs)"

definition replace_cursor :: "string \<Rightarrow> cursor_fault \<Rightarrow> string \<Rightarrow> string \<Rightarrow> string \<Rightarrow> files \<Rightarrow> go_error \<times> files" where
  "replace_cursor root io requestID path data fs =
     (if cf_temp io \<noteq> [] then ([''store: create temp snapshot cursor '' @ go_quote requestID @ '': '' @ error_text (cf_temp io)], fs)
      else
        let tmp = temp_path root io path; fs = map_set fs tmp [] in
        (case cf_write io of (n, err) \<Rightarrow>
           if err \<noteq> [] then
             ([''store: write snapshot cursor '' @ go_quote requestID @ '': '' @ error_text err], remove_temp io tmp (map_set fs tmp (take n data)))
           else
             let fs = map_set fs tmp data in
             if cf_sync io \<noteq> [] then ([''store: sync snapshot cursor '' @ go_quote requestID @ '': '' @ error_text (cf_sync io)], remove_temp io tmp fs)
             else if cf_close io \<noteq> [] then ([''store: close snapshot cursor '' @ go_quote requestID @ '': '' @ error_text (cf_close io)], remove_temp io tmp fs)
             else if cf_rename io \<noteq> [] then ([''store: replace snapshot cursor '' @ go_quote requestID @ '': '' @ error_text (cf_rename io)], remove_temp io tmp fs)
             else ([], remove_temp io tmp (map_set (map_delete fs tmp) path (file_of fs tmp)))))"

definition SaveCursor ::
  "(snapshot_cursor \<Rightarrow> go_error + string) \<Rightarrow> string \<Rightarrow> cursor_fault \<Rightarrow> time \<Rightarrow> snapshot_cursor \<Rightarrow> files \<Rightarrow> go_error \<times> files" where
  "SaveCursor enc root io now c fs =
     (let err = validateJSONSnapshotCursor c in
      if err \<noteq> [] then (err, fs)
      else
        (case store_path root ''.json'' (sc_RequestID c) of
           Inl err \<Rightarrow> (err, fs)
         | Inr path \<Rightarrow>
             let c = (if time_IsZero (sc_UpdatedAt c) then c\<lparr>sc_UpdatedAt := now\<rparr> else c) in
             (case enc c of
                Inl err \<Rightarrow> ([''store: encode snapshot cursor '' @ go_quote (sc_RequestID c) @ '': '' @ error_text err], fs)
              | Inr data \<Rightarrow> replace_cursor root io (sc_RequestID c) path data fs)))"

definition LoadCursor ::
  "(string \<Rightarrow> go_error + snapshot_cursor) \<Rightarrow> string \<Rightarrow> go_error \<Rightarrow> string \<Rightarrow> files \<Rightarrow> go_error + snapshot_cursor" where
  "LoadCursor dec root readErr requestID fs =
     (case store_path root ''.json'' requestID of
        Inl err \<Rightarrow> Inl err
      | Inr path \<Rightarrow>
          (case map_get fs path of
             None \<Rightarrow> Inl [ErrSnapshotCursorNotFound]
           | Some data \<Rightarrow>
               if readErr \<noteq> [] then Inl [''store: read snapshot cursor '' @ go_quote requestID @ '': '' @ error_text readErr]
               else
                 (case dec data of
                    Inl err \<Rightarrow> Inl [''store: decode snapshot cursor '' @ go_quote requestID @ '': '' @ error_text err]
                  | Inr c \<Rightarrow> Inr c)))"

end
