(* ===== verification/Request_Log.thy ===== *)
theory Request_Log
  imports Stream_Bundle Event_Log Fifo_Spec
begin

text \<open>
  The persistence of a request's events, from \<^verbatim>\<open>orchestrator/request.go\<close>: \<^verbatim>\<open>requestEventLogQueue\<close>, the
  goroutine \<^verbatim>\<open>drainRequestEventLogSubscription\<close> that fills it from a subscription, and the goroutine
  \<^verbatim>\<open>persistQueuedRequestEventLog\<close> that empties it into the event log.

  The two goroutines interleave at the granularity of the queue's mutex: each step below is one
  critical section, one receive or one call of the event log.
\<close>

section \<open>The queue\<close>

record log_queue =
  lq_events :: "event list"
  lq_head :: nat
  lq_closed :: bool
  lq_wake :: bool   \<comment> \<open>whether the one-element channel \<^verbatim>\<open>wake\<close> is full\<close>

definition newRequestEventLogQueue :: log_queue where
  "newRequestEventLogQueue = \<lparr>lq_events = [], lq_head = 0, lq_closed = False, lq_wake = False\<rparr>"

definition signalLocked :: "log_queue \<Rightarrow> log_queue" where
  "signalLocked q = q\<lparr>lq_wake := True\<rparr>"

definition log_Enqueue :: "event \<Rightarrow> log_queue \<Rightarrow> bool \<times> log_queue" where
  "log_Enqueue ev q =
     (if lq_closed q then (False, q) else (True, signalLocked (q\<lparr>lq_events := lq_events q @ [ev]\<rparr>)))"

definition log_Close :: "log_queue \<Rightarrow> log_queue" where
  "log_Close q = (if lq_closed q then q else signalLocked (q\<lparr>lq_closed := True\<rparr>))"

text \<open>The critical section of \<^verbatim>\<open>Next\<close>: it returns an event, or finds the queue closed, or goes on to
  wait on \<^verbatim>\<open>ctx.Done\<close> and \<^verbatim>\<open>wake\<close>.\<close>

datatype next_try = GotEvent event | QueueClosed | MustWait

definition log_Next :: "log_queue \<Rightarrow> next_try \<times> log_queue" where
  "log_Next q =
     (if lq_head q < length (lq_events q) then
        let ev = lq_events q ! lq_head q;
            q = q\<lparr>lq_events := (lq_events q)[lq_head q := zero_event], lq_head := lq_head q + 1\<rparr>
        in (GotEvent ev,
            if lq_head q = length (lq_events q) then q\<lparr>lq_events := [], lq_head := 0\<rparr>
            else if lq_head q \<ge> 1024 \<and> lq_head q * 2 \<ge> length (lq_events q)
            then q\<lparr>lq_events := drop (lq_head q) (lq_events q), lq_head := 0\<rparr>
            else q)
      else if lq_closed q then (QueueClosed, q)
      else (MustWait, q))"

section \<open>The end of a request\<close>

text \<open>\<open>phase_of\<close> stands for decoding the fields \<^verbatim>\<open>phase\<close> and \<^verbatim>\<open>status\<close> of a payload.\<close>

definition settled_delta :: "(bytes option \<Rightarrow> (string \<times> string) option) \<Rightarrow> bytes option \<Rightarrow> bool" where
  "settled_delta phase_of d =
     (case phase_of d of
        None \<Rightarrow> False
      | Some (phase, status) \<Rightarrow> phase = ''settled'' \<and> status \<in> {''idle'', ''failed'', ''canceled''})"

definition terminal_event :: "(bytes option \<Rightarrow> (string \<times> string) option) \<Rightarrow> event \<Rightarrow> bool" where
  "terminal_event phase_of ev \<longleftrightarrow>
     Layer (From ev) = ''orchestrator'' \<and> EventType ev = EventStatusFailed
     \<or> EventType ev = EventRunnerPhaseChanged \<and> settled_delta phase_of (Delta ev)"

definition requestStreamTerminal :: "codec \<Rightarrow> (bytes option \<Rightarrow> (string \<times> string) option) \<Rightarrow> event \<Rightarrow> bool" where
  "requestStreamTerminal cd phase_of ev =
     (case ExpandBundleEvent cd ev of
        Inl _ \<Rightarrow> False
      | Inr evs \<Rightarrow> list_ex (terminal_event phase_of) evs)"

section \<open>The goroutines\<close>

datatype drain_pc = Draining | DrainClosing | DrainDone
datatype persist_pc = Checking | Waiting | Appending event | PersistDone

text \<open>\<open>rl_input\<close> are the frames the subscription still delivers, \<open>rl_log\<close> the calls of \<^verbatim>\<open>AppendEvent\<close> so
  far, each with the error it returned (the empty list is nil).  \<open>rl_taken\<close> (the frames the queue accepted) and \<open>rl_canceled\<close> record history.\<close>

record request_log =
  rl_input :: "event list"
  rl_queue :: log_queue
  rl_drain :: drain_pc
  rl_persist :: persist_pc
  rl_log :: "(event \<times> go_error) list"
  rl_taken :: "event list"
  rl_canceled :: bool

definition log_start :: "event list \<Rightarrow> request_log" where
  "log_start input = \<lparr>rl_input = input, rl_queue = newRequestEventLogQueue, rl_drain = Draining, rl_persist = Checking,
     rl_log = [], rl_taken = [], rl_canceled = False\<rparr>"

text \<open>One round of the draining loop, on a frame; then the deferred calls.\<close>

definition drain_event :: "(event \<Rightarrow> bool) \<Rightarrow> event \<Rightarrow> event list \<Rightarrow> request_log \<Rightarrow> request_log" where
  "drain_event terminal ev rest s =
     (case log_Enqueue ev (rl_queue s) of (ok, q) \<Rightarrow>
        s\<lparr>rl_input := rest, rl_queue := q, rl_taken := (if ok then rl_taken s @ [ev] else rl_taken s),
          rl_drain := (if \<not> ok \<or> terminal ev then DrainClosing else Draining)\<rparr>)"

definition drain_close :: "request_log \<Rightarrow> request_log" where
  "drain_close s = s\<lparr>rl_queue := log_Close (rl_queue s), rl_drain := DrainDone\<rparr>"

text \<open>The critical section of \<^verbatim>\<open>Next\<close> in the persisting loop.\<close>

definition persist_check :: "request_log \<Rightarrow> request_log" where
  "persist_check s =
     (case log_Next (rl_queue s) of (r, q) \<Rightarrow>
        s\<lparr>rl_queue := q,
          rl_persist := (case r of GotEvent ev \<Rightarrow> Appending ev | QueueClosed \<Rightarrow> PersistDone | MustWait \<Rightarrow> Waiting)\<rparr>)"

definition persist_wake :: "request_log \<Rightarrow> request_log" where
  "persist_wake s = s\<lparr>rl_queue := (rl_queue s)\<lparr>lq_wake := False\<rparr>, rl_persist := Checking\<rparr>"

definition persist_cancel :: "request_log \<Rightarrow> request_log" where
  "persist_cancel s = s\<lparr>rl_persist := PersistDone, rl_canceled := True\<rparr>"

text \<open>\<^verbatim>\<open>AppendEvent\<close> returned \<open>err\<close>: an error is reported to the logger, and the loop goes on with the next
  event either way.\<close>

definition persist_append :: "event \<Rightarrow> go_error \<Rightarrow> request_log \<Rightarrow> request_log" where
  "persist_append ev err s = s\<lparr>rl_log := rl_log s @ [(ev, err)], rl_persist := Checking\<rparr>"

inductive log_step :: "(event \<Rightarrow> bool) \<Rightarrow> request_log \<Rightarrow> request_log \<Rightarrow> bool" for terminal where
  frame: "rl_drain s = Draining \<Longrightarrow> rl_input s = ev # rest \<Longrightarrow> log_step terminal s (drain_event terminal ev rest s)"
| subscription_ends: "rl_drain s = Draining \<Longrightarrow> log_step terminal s (s\<lparr>rl_drain := DrainClosing\<rparr>)"
| close: "rl_drain s = DrainClosing \<Longrightarrow> log_step terminal s (drain_close s)"
| check: "rl_persist s = Checking \<Longrightarrow> log_step terminal s (persist_check s)"
| wake: "rl_persist s = Waiting \<Longrightarrow> lq_wake (rl_queue s) \<Longrightarrow> log_step terminal s (persist_wake s)"
| cancel: "rl_persist s = Waiting \<Longrightarrow> log_step terminal s (persist_cancel s)"
| append: "rl_persist s = Appending ev \<Longrightarrow> log_step terminal s (persist_append ev err s)"

text \<open>The events handed to the store, and those the store accepted.\<close>

definition rl_calls :: "request_log \<Rightarrow> event list" where
  "rl_calls s = map fst (rl_log s)"

definition rl_written :: "request_log \<Rightarrow> event list" where
  "rl_written s = map fst (filter (\<lambda>(ev, err). err = []) (rl_log s))"

inductive_cases log_stepE: "log_step terminal s t"

section \<open>The queue is a FIFO\<close>

definition lq_contents :: "log_queue \<Rightarrow> event list" where
  "lq_contents q = drop (lq_head q) (lq_events q)"

definition lq_ok :: "log_queue \<Rightarrow> bool" where
  "lq_ok q \<longleftrightarrow> lq_head q < length (lq_events q) \<or> lq_head q = 0 \<and> lq_events q = []"

lemma Enqueue_contents:
  "lq_ok q \<Longrightarrow> log_Enqueue ev q = (True, q') \<Longrightarrow> lq_ok q' \<and> lq_contents q' = lq_contents q @ [ev] \<and> lq_wake q' \<and> lq_closed q' = lq_closed q"
  by (auto simp: log_Enqueue_def signalLocked_def lq_ok_def lq_contents_def split: if_splits)

lemma Next_contents:
  assumes "lq_ok q" "log_Next q = (GotEvent ev, q')"
  shows "lq_ok q' \<and> lq_contents q = ev # lq_contents q' \<and> lq_wake q' = lq_wake q \<and> lq_closed q' = lq_closed q"
proof -
  have h: "lq_head q < length (lq_events q)" and ev: "ev = lq_events q ! lq_head q"
    using assms(2) by (auto simp: log_Next_def Let_def split: if_splits)
  have "lq_contents q = ev # drop (Suc (lq_head q)) (lq_events q)" using h ev by (simp add: lq_contents_def Cons_nth_drop_Suc)
  then show ?thesis using assms(2) h
    by (auto simp: log_Next_def Let_def lq_ok_def lq_contents_def drop_update_cancel split: if_splits)
qed

lemma Next_empty: "lq_ok q \<Longrightarrow> log_Next q = (r, q') \<Longrightarrow> \<forall>ev. r \<noteq> GotEvent ev \<Longrightarrow>
    q' = q \<and> lq_contents q = [] \<and> r = (if lq_closed q then QueueClosed else MustWait)"
  by (auto simp: log_Next_def Let_def lq_ok_def lq_contents_def split: if_splits)

interpretation request_queue: fifo_queue
  "\<lambda>q ev. case log_Enqueue ev q of (ok, q') \<Rightarrow> if ok then Some q' else None"
  "\<lambda>q. case log_Next q of (GotEvent ev, q') \<Rightarrow> Some (ev, q') | _ \<Rightarrow> None"
  lq_contents lq_ok
  by unfold_locales
    (auto split: prod.splits if_splits next_try.splits dest: Enqueue_contents Next_contents Next_empty)

end
