(* ===== verification/Event_Log_Theorems.thy ===== *)
theory Event_Log_Theorems
  imports Event_Log Stream_Bundle
begin

text \<open>
  Properties of the file stores: request ids name distinct files directly below the root, an event
  log gives back what was appended to it, and a cursor is replaced as a whole or not at all.
\<close>

section \<open>Locks\<close>

lemma striped_index_less: "0 < n \<Longrightarrow> n < 2 ^ 32 \<Longrightarrow> stripedStoreLockIndex key n < n"
proof -
  assume n: "0 < n" "n < 2 ^ 32"
  then have "unat (of_nat n :: 32 word) = n" by (simp add: unat_of_nat take_bit_nat_eq_self)
  then show ?thesis using n unfolding stripedStoreLockIndex_def by (simp add: unat_mod)
qed

text \<open>With the locks of a new store, the lock of a key exists, keeps a second holder of the same
  key out, and is free again after its release.\<close>

theorem striped_lock_excludes:
  assumes "n < 2 ^ 32" "length locks = length (newStripedStoreLocks n)"
  shows "stripedStoreLockIndex key (length locks) < length locks
    \<and> (\<forall>i locks'. striped_Lock key locks = Some (i, locks') \<longrightarrow>
        striped_Lock key locks' = None \<and> striped_Unlock i locks' = locks)"
proof -
  let ?i = "stripedStoreLockIndex key (length locks)"
  have pos: "0 < length locks" "length locks < 2 ^ 32"
    using assms by (auto simp: newStripedStoreLocks_def defaultStripedStoreLockCount_def split: if_splits)
  have i: "?i < length locks" by (rule striped_index_less [OF pos])
  have "striped_Lock key locks' = None \<and> striped_Unlock j locks' = locks"
    if "striped_Lock key locks = Some (j, locks')" for j locks'
  proof -
    have l: "\<not> locks ! ?i" "j = Some ?i" "locks' = locks[?i := True]"
      using that pos by (auto simp: striped_Lock_def Let_def split: if_splits)
    have "locks[?i := False] = locks" using l(1) by (metis list_update_id)
    then show ?thesis using l i by (auto simp: striped_Lock_def striped_Unlock_def Let_def)
  qed
  then show ?thesis using i by blast
qed

theorem striped_lock_excludes_witness:
  "stripedStoreLockIndex ''req'' 64 < 64 \<and> striped_Lock ''req'' ((replicate 64 False)[stripedStoreLockIndex ''req'' 64 := True]) = None"
proof -
  have a: "(0::int) < 2 ^ 32" by simp
  have l: "length (replicate 64 False) = length (newStripedStoreLocks 0)"
    by (simp add: newStripedStoreLocks_def defaultStripedStoreLockCount_def)
  note lock = striped_lock_excludes [OF a l, of "''req''"]
  then have "stripedStoreLockIndex ''req'' 64 < 64" by simp
  moreover from this have "striped_Lock ''req'' (replicate 64 False)
      = Some (Some (stripedStoreLockIndex ''req'' 64), (replicate 64 False)[stripedStoreLockIndex ''req'' 64 := True])"
    by (simp add: striped_Lock_def Let_def)
  ultimately show ?thesis using lock by blast
qed

section \<open>Paths\<close>

lemma valid_id_plain: "validateStoreID kind rid = [] \<Longrightarrow> ext \<noteq> [] \<Longrightarrow> slash \<notin> set ext \<Longrightarrow> plain_comp (rid @ ext)"
proof -
  assume v: "validateStoreID kind rid = []" and ext: "ext \<noteq> []" "slash \<notin> set ext"
  have r: "rid \<noteq> []" "slash \<notin> set rid" "\<not> HasPrefix rid ''.''"
    using v by (auto simp: validateStoreID_def ContainsAny_def slash_def split: if_splits)
  then have "hd rid \<noteq> CHR ''.''" by (cases rid) (auto simp: HasPrefix_def)
  then have "rid @ ext \<noteq> dot" "rid @ ext \<noteq> dotdot" using r(1) by (cases rid; simp add: dot_def dotdot_def)+
  with r ext show ?thesis by (simp add: plain_comp_def)
qed

lemma store_path_join:
  "store_path root ext a = Inr p \<Longrightarrow> p = path_Join [root, a @ ext] \<and> validateStoreID ''request'' a = []"
  by (auto simp: store_path_def Let_def split: if_splits)

lemma store_path_inject:
  assumes "clean_abs root" "ext \<noteq> []" "slash \<notin> set ext" "store_path root ext a = Inr p" "store_path root ext b = Inr p"
  shows "a = b"
proof -
  note pa = store_path_join [OF assms(4)] and pb = store_path_join [OF assms(5)]
  have "a @ ext = b @ ext"
    by (rule Join_name_inject [OF assms(1)]) (use pa pb valid_id_plain [OF _ assms(2,3)] in auto)
  then show ?thesis by simp
qed

text \<open>The file of an accepted request id lies directly below the root under its own name, so no
  two ids share a file.\<close>

theorem store_paths_distinct_below_root:
  assumes "clean_abs root" "ext \<noteq> []" "slash \<notin> set ext" "store_path root ext a = Inr p" "store_path root ext b = Inr q"
  shows "p = of_comps True (path_comps root @ [a @ ext]) \<and> (p = q \<longleftrightarrow> a = b)"
proof -
  have "p = of_comps True (path_comps root @ [a @ ext])"
    using Join_name [OF assms(1) valid_id_plain [OF _ assms(2,3)]] store_path_join [OF assms(4)] by blast
  moreover have "p = q \<Longrightarrow> a = b" using store_path_inject [OF assms(1-4)] assms(5) by simp
  moreover have "a = b \<Longrightarrow> p = q" using assms(4,5) by simp
  ultimately show ?thesis by blast
qed

theorem store_paths_distinct_below_root_witness:
  "store_path ''/data'' ''.jsonl'' ''r1'' = Inr ''/data/r1.jsonl'' \<and> of_comps True (path_comps ''/data'' @ [''r1'' @ ''.jsonl'']) = ''/data/r1.jsonl''
    \<and> ''/data/r1.jsonl'' \<noteq> ''/data/r2.jsonl''"
proof -
  have root: "clean_abs ''/data''" and paths: "store_path ''/data'' ''.jsonl'' ''r1'' = Inr ''/data/r1.jsonl''"
      "store_path ''/data'' ''.jsonl'' ''r2'' = Inr ''/data/r2.jsonl''" by code_simp+
  have ext: "''.jsonl'' \<noteq> []" "slash \<notin> set ''.jsonl''" by (simp_all add: slash_def)
  have shape: "of_comps True (path_comps ''/data'' @ [''r1'' @ ''.jsonl'']) = ''/data/r1.jsonl''" by code_simp
  have "(''/data/r1.jsonl'' = ''/data/r2.jsonl'') = (''r1'' = ''r2'')"
    using store_paths_distinct_below_root [OF root ext paths] by (rule conjunct2)
  then have "''/data/r1.jsonl'' \<noteq> ''/data/r2.jsonl''" by simp
  with paths(1) shape show ?thesis by blast
qed

section \<open>Event logs\<close>

text \<open>What is known of the codec on an event: its line is decoded, also behind the line break of the
  line before, to \<open>norm ev\<close>, what JSON keeps of it, and the decoder stops behind it.\<close>

definition codes :: "(event \<Rightarrow> go_error + string) \<Rightarrow> (string \<Rightarrow> event decoded) \<Rightarrow> (event \<Rightarrow> event) \<Rightarrow> event \<Rightarrow> bool" where
  "codes enc dec norm ev \<longleftrightarrow>
     (\<forall>line rest sep. enc ev = Inr line \<longrightarrow> sep = [] \<or> sep = [newline] \<longrightarrow>
        dec (sep @ line @ newline # rest) = DecValue (norm ev) (newline # rest))"

definition ends :: "(string \<Rightarrow> event decoded) \<Rightarrow> bool" where
  "ends dec \<longleftrightarrow> dec [] = DecEOF \<and> dec [newline] = DecEOF"

text \<open>The events whose line a run of appends puts in the file of a request: also those whose \<^verbatim>\<open>Sync\<close>
  fails, although the caller gets an error for them.\<close>

definition in_log :: "(event \<Rightarrow> go_error + string) \<Rightarrow> string \<Rightarrow> log_fault \<times> event \<Rightarrow> bool" where
  "in_log enc rid x \<longleftrightarrow>
     (case x of (io, ev) \<Rightarrow> RequestID (Scope ev) = rid \<and> validateJSONEventLogEvent ev = [] \<and> lf_open io = []
        \<and> \<not> isl (enc ev) \<and> snd (lf_write io) = [])"

definition append_run :: "(event \<Rightarrow> go_error + string) \<Rightarrow> string \<Rightarrow> (log_fault \<times> event) list \<Rightarrow> files \<Rightarrow> files" where
  "append_run enc root xs fs = fold (\<lambda>(io, ev) fs. snd (AppendEvent enc root io ev fs)) xs fs"

text \<open>A write that fails leaves nothing behind.\<close>

definition untorn :: "log_fault \<Rightarrow> bool" where
  "untorn io \<longleftrightarrow> snd (lf_write io) \<noteq> [] \<longrightarrow> fst (lf_write io) = 0"

definition line_of :: "(event \<Rightarrow> go_error + string) \<Rightarrow> event \<Rightarrow> string" where
  "line_of enc ev = projr (enc ev) @ [newline]"

lemma file_of_set [simp]: "file_of (map_set fs p c) q = (if q = p then c else file_of fs q)"
  by (simp add: file_of_def)

text \<open>The bytes an append adds to the file of a request.\<close>

definition appended :: "(event \<Rightarrow> go_error + string) \<Rightarrow> string \<Rightarrow> log_fault \<times> event \<Rightarrow> string" where
  "appended enc rid x =
     (case x of (io, ev) \<Rightarrow>
        if RequestID (Scope ev) = rid \<and> validateJSONEventLogEvent ev = [] \<and> lf_open io = [] \<and> \<not> isl (enc ev)
        then if snd (lf_write io) \<noteq> [] then take (fst (lf_write io)) (line_of enc ev) else line_of enc ev
        else [])"

lemma append_file:
  assumes "clean_abs root" "store_path root ''.jsonl'' rid = Inr p"
  shows "file_of (snd (AppendEvent enc root io ev fs)) p = file_of fs p @ appended enc rid (io, ev)"
proof (cases "validateJSONEventLogEvent ev = [] \<and> \<not> isl (store_path root ''.jsonl'' (RequestID (Scope ev)))")
  case False
  then have "snd (AppendEvent enc root io ev fs) = fs" by (auto simp: AppendEvent_def Let_def split: sum.splits)
  moreover have "appended enc rid (io, ev) = []" using False assms(2) by (auto simp: appended_def)
  ultimately show ?thesis by simp
next
  case True
  then obtain q where q: "store_path root ''.jsonl'' (RequestID (Scope ev)) = Inr q" by (metis sum.collapse(2))
  have same: "p = q \<longleftrightarrow> RequestID (Scope ev) = rid"
    using store_path_inject [OF assms(1) _ _ q, of rid] assms(2) q by (auto simp: slash_def)
  obtain n err where w: "lf_write io = (n, err)" by (cases "lf_write io")
  show ?thesis
    using True q same w by (auto simp: AppendEvent_def Let_def appended_def line_of_def split: sum.splits)
qed

lemma run_file:
  assumes "clean_abs root" "store_path root ''.jsonl'' rid = Inr p"
  shows "file_of (append_run enc root xs fs) p = file_of fs p @ concat (map (appended enc rid) xs)"
proof (induction xs arbitrary: fs)
  case (Cons x xs)
  obtain io ev where x: "x = (io, ev)" by (cases x)
  from append_file [OF assms, of enc io ev fs] Cons x show ?case by (simp add: append_run_def)
qed (simp add: append_run_def)

lemma untorn_appended: "untorn io \<Longrightarrow> appended enc rid (io, ev) = (if in_log enc rid (io, ev) then line_of enc ev else [])"
  by (auto simp: appended_def in_log_def untorn_def)

lemma untorn_lines:
  "\<forall>(io, ev) \<in> set xs. untorn io \<Longrightarrow> concat (map (appended enc rid) xs) = concat (map (line_of enc) (map snd (filter (in_log enc rid) xs)))"
  by (induction xs) (auto simp: untorn_appended)

lemma load_lines:
  assumes "ends dec" "\<forall>ev \<in> set evs. codes enc dec norm ev \<and> \<not> isl (enc ev)" "sep = [] \<or> sep = [newline]"
  shows "load_loop rid dec start filt i (sep @ concat (map (line_of enc) evs)) out
    = Some (Inr (out @ filter (\<lambda>ev. \<not> SequenceNumber ev < start \<and> Match filt ev) (map norm evs)))"
  using assms(2,3)
proof (induction evs arbitrary: i sep out)
  case Nil
  then show ?case using assms(1) by (subst load_loop.simps) (auto simp: ends_def)
next
  case (Cons ev evs)
  obtain line where line: "enc ev = Inr line" using Cons.prems(1) by (metis list.set_intros(1) sum.collapse(2))
  have d: "dec (sep @ concat (map (line_of enc) (ev # evs))) = DecValue (norm ev) ([newline] @ concat (map (line_of enc) evs))"
    using Cons.prems line by (auto simp: codes_def line_of_def)
  have IH: "load_loop rid dec start filt j ([newline] @ concat (map (line_of enc) evs)) o'
      = Some (Inr (o' @ filter (\<lambda>ev. \<not> SequenceNumber ev < start \<and> Match filt ev) (map norm evs)))" for j o'
    using Cons.IH [of "[newline]"] Cons.prems(1) by simp
  show ?case unfolding load_loop.simps [of rid dec start filt i "sep @ concat (map (line_of enc) (ev # evs))"] d decoded.case IH
    by simp
qed

lemma load_after_appends:
  assumes "clean_abs root" "store_path root ''.jsonl'' (RequestID sc) = Inr p" "\<not> map_has fs p"
    and "\<forall>(io, ev) \<in> set xs. untorn io \<and> codes enc dec norm ev" "ends dec"
  shows "LoadEvents dec root [] sc from filt (append_run enc root xs fs)
    = Some (Inr (filter (\<lambda>ev. from \<le> SequenceNumber ev \<and> 1 \<le> SequenceNumber ev \<and> Match filt ev)
        (map (norm \<circ> snd) (filter (in_log enc (RequestID sc)) xs))))"
proof -
  define evs where "evs = map snd (filter (in_log enc (RequestID sc)) xs)"
  let ?fs = "append_run enc root xs fs"
  have f: "file_of ?fs p = concat (map (line_of enc) evs)"
    using run_file [OF assms(1,2), of enc xs fs] untorn_lines [of xs enc "RequestID sc"] assms(3,4)
    by (auto simp: evs_def file_of_def map_has_iff)
  have start: "(\<not> s < (if from = 0 then 1 else from)) = (from \<le> s \<and> 1 \<le> s)" for s :: u64
    by (simp add: not_less) (metis not_less word_le_sub1 word_not_simps(1) order.trans)
  have evs: "\<forall>ev \<in> set evs. codes enc dec norm ev \<and> \<not> isl (enc ev)" using assms(4) by (auto simp: evs_def in_log_def)
  have ne: "RequestID sc \<noteq> []" using assms(2) by (auto simp: store_path_def validateStoreID_def)
  show ?thesis
  proof (cases "map_get ?fs p")
    case None
    with f have "concat (map (line_of enc) evs) = []" by (simp add: file_of_def)
    then have "evs = []" by (cases evs) (auto simp: line_of_def)
    then show ?thesis using None ne assms(2) unfolding LoadEvents_def evs_def by simp
  next
    case (Some c)
    then have "c = concat (map (line_of enc) evs)" using f by (simp add: file_of_def)
    with load_lines [OF assms(5) evs, of "[]"] Some ne assms(2) show ?thesis
      unfolding LoadEvents_def by (simp add: start evs_def comp_def)
  qed
qed

lemma filter_same_events:
  assumes "\<forall>ev \<in> set evs. same_event rd (norm ev) ev"
  shows "list_all2 (same_event rd) (filter (\<lambda>ev. from \<le> SequenceNumber ev \<and> 1 \<le> SequenceNumber ev \<and> Match filt ev) (map norm evs))
    (filter (\<lambda>ev. from \<le> SequenceNumber ev \<and> 1 \<le> SequenceNumber ev \<and> Match filt ev) evs)"
  using assms
proof (induction evs)
  case (Cons ev evs)
  then have "same_event rd (norm ev) ev" by simp
  then have "SequenceNumber (norm ev) = SequenceNumber ev" "Match filt (norm ev) = Match filt ev"
    by (simp_all add: same_event_def same_envelope_def Match_same_event [of rd "norm ev" ev])
  with Cons show ?case by simp
qed simp

text \<open>C26. Whatever is appended to a new log, for this request or others, and whichever calls fail, as long as
  no failed write leaves a partial line and JSON keeps the events, loading the log of a request returns the
  events whose lines were written, in the order of the appends, from the wanted sequence number on and
  selected by the filter: each with the type, source, numbers, status, time and scope it had, its delta
  compacted and its metadata as JSON reads it back.\<close>

theorem event_log_roundtrip:
  assumes "clean_abs root" "store_path root ''.jsonl'' (RequestID sc) = Inr p" "\<not> map_has fs p"
    and "\<forall>(io, ev) \<in> set xs. untorn io \<and> codes enc dec norm ev \<and> same_event rd (norm ev) ev" "ends dec"
  shows "\<exists>evs. LoadEvents dec root [] sc from filt (append_run enc root xs fs) = Some (Inr evs)
    \<and> list_all2 (same_event rd) evs (filter (\<lambda>ev. from \<le> SequenceNumber ev \<and> 1 \<le> SequenceNumber ev \<and> Match filt ev)
        (map snd (filter (in_log enc (RequestID sc)) xs)))"
proof -
  have "\<forall>(io, ev) \<in> set xs. untorn io \<and> codes enc dec norm ev" using assms(4) by auto
  from load_after_appends [OF assms(1-3) this assms(5)]
  have "LoadEvents dec root [] sc from filt (append_run enc root xs fs)
      = Some (Inr (filter (\<lambda>ev. from \<le> SequenceNumber ev \<and> 1 \<le> SequenceNumber ev \<and> Match filt ev)
          (map norm (map snd (filter (in_log enc (RequestID sc)) xs)))))" by simp
  moreover have "\<forall>ev \<in> set (map snd (filter (in_log enc (RequestID sc)) xs)). same_event rd (norm ev) ev"
    using assms(4) by auto
  ultimately show ?thesis using filter_same_events by blast
qed

text \<open>An example codec: the line of an event is its sequence number, in unary and between brackets.\<close>

definition unary_event :: "u64 \<Rightarrow> event" where
  "unary_event n = zero_event\<lparr>EventType := ''t'', From := empty_source\<lparr>Layer := ''l''\<rparr>, SequenceNumber := n, Status := ''s'',
     Delta := Some ''null'', LogicalTime := 1, Timestamp := 1, Scope := empty_scope\<lparr>RequestID := ''r''\<rparr>\<rparr>"

definition unary_enc :: "event \<Rightarrow> go_error + string" where
  "unary_enc ev = Inr (CHR ''<'' # replicate (unat (SequenceNumber ev)) (CHR ''1'') @ [CHR ''>''])"

definition unary_dec :: "string \<Rightarrow> event decoded" where
  "unary_dec bytes =
     (case dropWhile (\<lambda>c. c = newline) bytes of
        [] \<Rightarrow> DecEOF
      | c # s \<Rightarrow>
          if c \<noteq> CHR ''<'' then DecErr [''unexpected character'']
          else
            (case dropWhile (\<lambda>c. c = CHR ''1'') s of
               [] \<Rightarrow> DecErr [''unexpected end'']
             | d # rest \<Rightarrow>
                 if d \<noteq> CHR ''>'' then DecErr [''unexpected character'']
                 else DecValue (unary_event (of_nat (length (takeWhile (\<lambda>c. c = CHR ''1'') s)))) rest))"

definition fine :: log_fault where "fine = \<lparr>lf_open = [], lf_write = (0, []), lf_sync = []\<rparr>"

lemma while_ones:
  "c \<noteq> CHR ''1'' \<Longrightarrow> dropWhile (\<lambda>c. c = CHR ''1'') (replicate n (CHR ''1'') @ c # rest) = c # rest"
  "c \<noteq> CHR ''1'' \<Longrightarrow> takeWhile (\<lambda>c. c = CHR ''1'') (replicate n (CHR ''1'') @ c # rest) = replicate n (CHR ''1'')"
  by (induction n) simp_all

lemma unary_codes: "codes unary_enc unary_dec (\<lambda>ev. unary_event (SequenceNumber ev)) ev"
  unfolding codes_def unary_dec_def unary_enc_def by (auto simp: while_ones newline_def)

lemma unary_ends: "ends unary_dec"
  by (simp add: ends_def unary_dec_def)

lemma unary_same: "same_event AnyJSON (unary_event n) (unary_event n)"
proof -
  have "json_compact ''null'' = ''null''" by code_simp
  then show ?thesis by (simp add: same_event_def same_envelope_def same_payload_def metadata_get_def unary_event_def zero_event_def)
qed

theorem event_log_roundtrip_witness:
  "\<exists>evs. LoadEvents unary_dec ''/d'' [] (empty_scope\<lparr>RequestID := ''r''\<rparr>) 0 empty_filter
     (append_run unary_enc ''/d'' [(fine, unary_event 1), (fine\<lparr>lf_write := (0, [''disk full''])\<rparr>, unary_event 2),
        (fine\<lparr>lf_sync := [''io'']\<rparr>, unary_event 3)] []) = Some (Inr evs)
   \<and> list_all2 (same_event AnyJSON) evs [unary_event 1, unary_event 3]"
proof -
  let ?xs = "[(fine, unary_event 1), (fine\<lparr>lf_write := (0, [''disk full''])\<rparr>, unary_event 2), (fine\<lparr>lf_sync := [''io'']\<rparr>, unary_event 3)]"
  let ?norm = "\<lambda>ev. unary_event (SequenceNumber ev)"
  have a: "clean_abs ''/d''" and b: "store_path ''/d'' ''.jsonl'' (RequestID (empty_scope\<lparr>RequestID := ''r''\<rparr>)) = Inr ''/d/r.jsonl''"
    by code_simp+
  have c: "\<not> map_has [] ''/d/r.jsonl''" by simp
  have "SequenceNumber (unary_event n) = n" for n by (simp add: unary_event_def)
  then have d: "\<forall>(io, ev) \<in> set ?xs. untorn io \<and> codes unary_enc unary_dec ?norm ev \<and> same_event AnyJSON (?norm ev) ev"
    by (auto simp: untorn_def fine_def unary_same intro!: unary_codes)
  have f: "filter (\<lambda>ev. 0 \<le> SequenceNumber ev \<and> 1 \<le> SequenceNumber ev \<and> Match empty_filter ev)
      (map snd (filter (in_log unary_enc (RequestID (empty_scope\<lparr>RequestID := ''r''\<rparr>))) ?xs))
      = [unary_event 1, unary_event 3]" by code_simp
  show ?thesis using event_log_roundtrip [OF a b c d unary_ends, of 0 empty_filter] unfolding f .
qed

section \<open>Torn lines\<close>

lemma load_lines_then:
  assumes "\<forall>ev \<in> set evs. codes enc dec norm ev \<and> \<not> isl (enc ev)" "sep = [] \<or> sep = [newline]"
    and "dec tail = DecErr err" "dec (newline # tail) = DecErr err"
  shows "\<exists>e. load_loop rid dec start filt i (sep @ concat (map (line_of enc) evs) @ tail) out = Some (Inl e)"
  using assms(1,2)
proof (induction evs arbitrary: i sep out)
  case Nil
  then have "dec (sep @ tail) = DecErr err" using assms(3,4) by auto
  then show ?case by (subst load_loop.simps) simp
next
  case (Cons ev evs)
  obtain line where line: "enc ev = Inr line" using Cons.prems(1) by (metis list.set_intros(1) sum.collapse(2))
  have d: "dec (sep @ concat (map (line_of enc) (ev # evs)) @ tail) = DecValue (norm ev) ([newline] @ concat (map (line_of enc) evs) @ tail)"
    using Cons.prems line by (auto simp: codes_def line_of_def)
  have IH: "\<exists>e. load_loop rid dec start filt j ([newline] @ concat (map (line_of enc) evs) @ tail) o' = Some (Inl e)" for j o'
    using Cons.IH [of "[newline]"] Cons.prems(1) by simp
  show ?case unfolding load_loop.simps [of rid dec start filt i "sep @ concat (map (line_of enc) (ev # evs)) @ tail"] d decoded.case
    using IH by auto
qed

text \<open>A failed write that leaves part of its line makes the log unreadable for good: when the
  decoder refuses the torn line followed by what is appended later, every load of the request fails,
  and the events before the torn line are lost with those behind it.\<close>

theorem torn_line_blocks_log:
  assumes "clean_abs root" "store_path root ''.jsonl'' (RequestID sc) = Inr p" "\<not> map_has fs p"
    and "\<forall>(io, ev) \<in> set before. untorn io \<and> codes enc dec norm ev"
    and "tail = concat (map (appended enc (RequestID sc)) later)" "tail \<noteq> []"
    and "dec tail = DecErr err" "dec (newline # tail) = DecErr err"
  shows "\<exists>e. LoadEvents dec root [] sc from filt (append_run enc root (before @ later) fs) = Some (Inl e)"
proof -
  define evs where "evs = map snd (filter (in_log enc (RequestID sc)) before)"
  let ?fs = "append_run enc root (before @ later) fs"
  have f: "file_of ?fs p = concat (map (line_of enc) evs) @ tail"
    using run_file [OF assms(1,2), of enc "before @ later" fs] untorn_lines [of before enc "RequestID sc"] assms(3-5)
    by (auto simp: evs_def file_of_def map_has_iff)
  have evs: "\<forall>ev \<in> set evs. codes enc dec norm ev \<and> \<not> isl (enc ev)" using assms(4) by (auto simp: evs_def in_log_def)
  have ne: "RequestID sc \<noteq> []" using assms(2) by (auto simp: store_path_def validateStoreID_def)
  obtain c where c: "map_get ?fs p = Some c" using f assms(6) by (auto simp: file_of_def split: option.splits)
  then have "c = concat (map (line_of enc) evs) @ tail" using f by (simp add: file_of_def)
  with load_lines_then [OF evs _ assms(7,8), of "[]"] c ne assms(2) show ?thesis
    unfolding LoadEvents_def by simp
qed

theorem torn_line_blocks_log_witness:
  "\<exists>e. LoadEvents unary_dec ''/d'' [] (empty_scope\<lparr>RequestID := ''r''\<rparr>) 0 empty_filter
     (append_run unary_enc ''/d'' ([(fine, unary_event 1)] @ [(fine\<lparr>lf_write := (1, [''disk full''])\<rparr>, unary_event 2), (fine, unary_event 2)]) [])
   = Some (Inl e)"
proof -
  let ?later = "[(fine\<lparr>lf_write := (1, [''disk full''])\<rparr>, unary_event 2), (fine, unary_event 2)]"
  have a: "clean_abs ''/d''" and b: "store_path ''/d'' ''.jsonl'' (RequestID (empty_scope\<lparr>RequestID := ''r''\<rparr>)) = Inr ''/d/r.jsonl''"
    by code_simp+
  have c: "\<not> map_has [] ''/d/r.jsonl''" by simp
  have d: "\<forall>(io, ev) \<in> set [(fine, unary_event 1)]. untorn io \<and> codes unary_enc unary_dec (\<lambda>ev. unary_event (SequenceNumber ev)) ev"
    by (auto simp: untorn_def fine_def intro!: unary_codes)
  have tail: "''<<11>'' @ [newline] = concat (map (appended unary_enc (RequestID (empty_scope\<lparr>RequestID := ''r''\<rparr>))) ?later)" by code_simp
  have bad: "unary_dec (''<<11>'' @ [newline]) = DecErr [''unexpected character'']"
    "unary_dec (newline # ''<<11>'' @ [newline]) = DecErr [''unexpected character'']" by code_simp+
  show ?thesis by (rule torn_line_blocks_log [OF a b c d tail _ bad]) simp
qed

section \<open>Cursors\<close>

lemma path_of_names:
  assumes "clean_abs root" "store_path root ''.json'' rid = Inr p"
  shows "path_Base p = rid @ ''.json''"
    and "slash \<notin> set (cf_name io) \<Longrightarrow> store_path root ''.json'' other = Inr q \<Longrightarrow> q \<noteq> temp_path root io p"
proof -
  have v: "validateStoreID ''request'' rid = []" "p = path_Join [root, rid @ ''.json'']" using store_path_join [OF assms(2)] by blast+
  have pl: "plain_comp (rid @ ''.json'')" by (rule valid_id_plain [OF v(1)]) (simp_all add: slash_def)
  show base: "path_Base p = rid @ ''.json''"
    unfolding v(2) Join_name [OF assms(1) pl]
    by (rule Dir_Base_abs(2)) (use clean_abs_comps [OF assms(1)] pl in blast)+
  assume name: "slash \<notin> set (cf_name io)" and q: "store_path root ''.json'' other = Inr q"
  have o': "validateStoreID ''request'' other = []" "q = path_Join [root, other @ ''.json'']" using store_path_join [OF q] by blast+
  have plo: "plain_comp (other @ ''.json'')" by (rule valid_id_plain [OF o'(1)]) (simp_all add: slash_def)
  have plt: "plain_comp (rid @ ''.json.'' @ cf_name io @ ''.tmp'')"
    by (rule valid_id_plain [OF v(1)]) (use name in \<open>simp_all add: slash_def\<close>)
  show "q \<noteq> temp_path root io p"
  proof
    assume "q = temp_path root io p"
    then have "other @ ''.json'' = rid @ ''.json.'' @ cf_name io @ ''.tmp''"
      using Join_name_inject [OF assms(1) plo plt] o'(2) base by (simp add: temp_path_def)
    then have "last (other @ ''.json'') = last (rid @ ''.json.'' @ cf_name io @ ''.tmp'')" by simp
    then show False by simp
  qed
qed

lemma replace_cursor_effect:
  assumes "replace_cursor root io rid path data fs = (err, fs')" "path \<noteq> temp_path root io path"
  shows "err = [] \<Longrightarrow> map_get fs' path = Some data"
    and "q \<noteq> temp_path root io path \<Longrightarrow> err \<noteq> [] \<or> q \<noteq> path \<Longrightarrow> map_get fs' q = map_get fs q"
    and "cf_remove io = [] \<Longrightarrow> \<not> map_has fs (temp_path root io path) \<Longrightarrow> \<not> map_has fs' (temp_path root io path)"
  using assms by (auto simp: replace_cursor_def Let_def remove_temp_def file_of_def split: prod.splits if_splits)

definition stamped_cursor :: "time \<Rightarrow> snapshot_cursor \<Rightarrow> snapshot_cursor" where
  "stamped_cursor now c = (if time_IsZero (sc_UpdatedAt c) then c\<lparr>sc_UpdatedAt := now\<rparr> else c)"

text \<open>A cursor is saved as a whole or not at all: after a success it is what is loaded for its
  request, after a failure every request has the cursor it had, and the cursors of other requests and
  the files beside them are untouched; no temporary file is left if it could be removed.\<close>

theorem cursor_saved_whole_or_not:
  assumes "clean_abs root" "slash \<notin> set (cf_name io)" "\<forall>c data. enc c = Inr data \<longrightarrow> dec data = Inr c"
    and "store_path root ''.json'' (sc_RequestID c) = Inr path" "\<not> map_has fs (temp_path root io path)"
    and "SaveCursor enc root io now c fs = (err, fs')"
  shows "(err = [] \<longrightarrow> LoadCursor dec root [] (sc_RequestID c) fs' = Inr (stamped_cursor now c))
    \<and> (\<forall>rid readErr. err \<noteq> [] \<or> rid \<noteq> sc_RequestID c \<longrightarrow> LoadCursor dec root readErr rid fs' = LoadCursor dec root readErr rid fs)
    \<and> (cf_remove io = [] \<longrightarrow> \<not> map_has fs' (temp_path root io path))"
proof (cases "\<exists>data. validateJSONSnapshotCursor c = [] \<and> enc (stamped_cursor now c) = Inr data")
  case False
  then have "err \<noteq> [] \<and> fs' = fs"
    using assms(4,6) by (auto simp: SaveCursor_def Let_def stamped_cursor_def split: sum.splits if_splits)
  then show ?thesis using assms(5) by simp
next
  case True
  then obtain data where data: "enc (stamped_cursor now c) = Inr data" and ok: "validateJSONSnapshotCursor c = []" by blast
  have "sc_RequestID (stamped_cursor now c) = sc_RequestID c" by (simp add: stamped_cursor_def)
  then have rep: "replace_cursor root io (sc_RequestID c) path data fs = (err, fs')"
    using assms(4,6) data ok by (auto simp: SaveCursor_def Let_def stamped_cursor_def split: if_splits)
  have tmp: "q \<noteq> temp_path root io path" if "store_path root ''.json'' rid = Inr q" for rid q
    by (rule path_of_names(2) [OF assms(1,4,2) that])
  note eff = replace_cursor_effect [OF rep tmp [OF assms(4)]]
  have "LoadCursor dec root [] (sc_RequestID c) fs' = Inr (stamped_cursor now c)" if "err = []"
    using eff(1) [OF that] assms(3,4) data by (simp add: LoadCursor_def)
  moreover have "LoadCursor dec root readErr rid fs' = LoadCursor dec root readErr rid fs" if "err \<noteq> [] \<or> rid \<noteq> sc_RequestID c" for rid readErr
  proof (cases "store_path root ''.json'' rid")
    case (Inr q)
    have "err \<noteq> [] \<or> q \<noteq> path" using that store_path_inject [OF assms(1) _ _ assms(4)] Inr by (auto simp: slash_def)
    from eff(2) [OF tmp [OF Inr] this] Inr show ?thesis by (simp add: LoadCursor_def)
  qed (simp add: LoadCursor_def)
  ultimately show ?thesis using eff(3) assms(5) by blast
qed

definition cursor_enc :: "snapshot_cursor \<Rightarrow> go_error + string" where
  "cursor_enc c = (if c = \<lparr>sc_RequestID = ''r'', sc_RunnerID = [], sc_CheckpointSequence = 3, sc_EventSequence = 7, sc_UpdatedAt = 9\<rparr>
     then Inr ''{}'' else Inl [''unsupported''])"

definition cursor_dec :: "string \<Rightarrow> go_error + snapshot_cursor" where
  "cursor_dec data = (if data = ''{}'' then Inr \<lparr>sc_RequestID = ''r'', sc_RunnerID = [], sc_CheckpointSequence = 3, sc_EventSequence = 7, sc_UpdatedAt = 9\<rparr>
     else Inl [''syntax''])"

theorem cursor_saved_whole_or_not_witness:
  "let io = \<lparr>cf_temp = [], cf_name = ''42'', cf_write = (0, []), cf_sync = [], cf_close = [], cf_rename = [], cf_remove = []\<rparr>;
       c = \<lparr>sc_RequestID = ''r'', sc_RunnerID = [], sc_CheckpointSequence = 3, sc_EventSequence = 7, sc_UpdatedAt = 0\<rparr>
   in SaveCursor cursor_enc ''/d'' io 9 c [] = ([], [(''/d/r.json'', ''{}'')])
     \<and> LoadCursor cursor_dec ''/d'' [] ''r'' [(''/d/r.json'', ''{}'')] = Inr (stamped_cursor 9 c)"
proof -
  define io where "io = \<lparr>cf_temp = [], cf_name = ''42'', cf_write = (0, []), cf_sync = [], cf_close = [], cf_rename = [], cf_remove = []\<rparr>"
  define c where "c = \<lparr>sc_RequestID = ''r'', sc_RunnerID = [], sc_CheckpointSequence = 3, sc_EventSequence = 7, sc_UpdatedAt = 0\<rparr>"
  have a: "clean_abs ''/d''" by code_simp
  have b: "slash \<notin> set (cf_name io)" by (simp add: io_def slash_def)
  have l: "\<forall>c data. cursor_enc c = Inr data \<longrightarrow> cursor_dec data = Inr c" by (auto simp: cursor_enc_def cursor_dec_def)
  have r: "sc_RequestID c = ''r''" by (simp add: c_def)
  have p: "store_path ''/d'' ''.json'' (sc_RequestID c) = Inr ''/d/r.json''" unfolding r by code_simp
  have s: "SaveCursor cursor_enc ''/d'' io 9 c [] = ([], [(''/d/r.json'', ''{}'')])" unfolding io_def c_def by code_simp
  have "\<not> map_has [] (temp_path ''/d'' io ''/d/r.json'')" by simp
  from cursor_saved_whole_or_not [OF a b l p this s] have "LoadCursor cursor_dec ''/d'' [] ''r'' [(''/d/r.json'', ''{}'')] = Inr (stamped_cursor 9 c)"
    unfolding r by blast
  with s show ?thesis unfolding io_def c_def Let_def by blast
qed

end
