(* ===== verification/Request_Log_Theorems.thy ===== *)
theory Request_Log_Theorems
  imports Request_Log Event_Log_Theorems
begin

text \<open>
  Properties of the persistence of a request's events: the queue with its compaction is a FIFO, no
  wake-up is lost between the two goroutines, and what the queue accepted is what the log holds in
  the end.
\<close>

section \<open>The goroutines\<close>

text \<open>The frames up to and including the first that ends the request.\<close>

fun through :: "('a \<Rightarrow> bool) \<Rightarrow> 'a list \<Rightarrow> 'a list" where
  "through P [] = []"
| "through P (x # xs) = x # (if P x then [] else through P xs)"

lemma through_append: "\<forall>x \<in> set xs. \<not> P x \<Longrightarrow> through P (xs @ ys) = xs @ through P ys"
  by (induction xs) simp_all

definition in_hand :: "persist_pc \<Rightarrow> event list" where
  "in_hand p = (case p of Appending ev \<Rightarrow> [ev] | _ \<Rightarrow> [])"

definition log_inv :: "(event \<Rightarrow> bool) \<Rightarrow> event list \<Rightarrow> request_log \<Rightarrow> bool" where
  "log_inv terminal input s \<longleftrightarrow>
     lq_ok (rl_queue s)
     \<and> rl_calls s @ in_hand (rl_persist s) @ lq_contents (rl_queue s) = rl_taken s
     \<and> rl_taken s @ rl_input s = input
     \<and> (lq_closed (rl_queue s) \<longleftrightarrow> rl_drain s = DrainDone)
     \<and> (rl_drain s = Draining \<longrightarrow> (\<forall>ev \<in> set (rl_taken s). \<not> terminal ev))
     \<and> (rl_taken s \<noteq> [] \<longrightarrow> (\<forall>ev \<in> set (butlast (rl_taken s)). \<not> terminal ev))
     \<and> (rl_persist s = Waiting \<longrightarrow> lq_contents (rl_queue s) \<noteq> [] \<or> lq_closed (rl_queue s) \<longrightarrow> lq_wake (rl_queue s))
     \<and> (rl_persist s = PersistDone \<longrightarrow> rl_canceled s \<or> lq_closed (rl_queue s) \<and> lq_contents (rl_queue s) = [])"

lemma log_inv_start: "log_inv terminal input (log_start input)"
  by (simp add: log_inv_def rl_calls_def log_start_def newRequestEventLogQueue_def lq_ok_def lq_contents_def in_hand_def)

lemma log_inv_frame:
  assumes "log_inv terminal input s" "rl_drain s = Draining" "rl_input s = ev # rest"
  shows "log_inv terminal input (drain_event terminal ev rest s)"
proof -
  have o': "\<not> lq_closed (rl_queue s)" and ok: "lq_ok (rl_queue s)" using assms(1,2) by (auto simp: log_inv_def rl_calls_def)
  obtain q where q: "log_Enqueue ev (rl_queue s) = (True, q)" using o' by (auto simp: log_Enqueue_def)
  from Enqueue_contents [OF ok q] assms o' q show ?thesis by (auto simp: log_inv_def rl_calls_def drain_event_def)
qed

lemma log_inv_check:
  assumes "log_inv terminal input s" "rl_persist s = Checking"
  shows "log_inv terminal input (persist_check s)"
proof -
  have ok: "lq_ok (rl_queue s)" using assms(1) by (simp add: log_inv_def rl_calls_def)
  obtain r q where n: "log_Next (rl_queue s) = (r, q)" by force
  show ?thesis
  proof (cases "\<exists>ev. r = GotEvent ev")
    case True
    then obtain ev where r: "r = GotEvent ev" ..
    from Next_contents [OF ok n [unfolded r]] assms n r show ?thesis
      by (simp add: log_inv_def rl_calls_def persist_check_def in_hand_def)
  next
    case False
    then have "\<forall>ev. r \<noteq> GotEvent ev" by blast
    from Next_empty [OF ok n this] assms n show ?thesis
      by (auto simp: log_inv_def rl_calls_def persist_check_def in_hand_def)
  qed
qed

lemma log_inv_step: "log_inv terminal input s \<Longrightarrow> log_step terminal s t \<Longrightarrow> log_inv terminal input t"
proof (erule log_stepE)
  assume i: "log_inv terminal input s"
  show "log_inv terminal input t" if "t = drain_event terminal ev rest s" "rl_drain s = Draining" "rl_input s = ev # rest" for ev rest
    using log_inv_frame [OF i that(2,3)] that(1) by simp
  show "log_inv terminal input t" if "t = s\<lparr>rl_drain := DrainClosing\<rparr>" "rl_drain s = Draining"
    using i that by (auto simp: log_inv_def rl_calls_def)
  show "log_inv terminal input t" if "t = drain_close s" "rl_drain s = DrainClosing"
    using i that by (auto simp: log_inv_def rl_calls_def drain_close_def log_Close_def signalLocked_def lq_ok_def lq_contents_def)
  show "log_inv terminal input t" if "t = persist_check s" "rl_persist s = Checking"
    using log_inv_check [OF i that(2)] that(1) by simp
  show "log_inv terminal input t" if "t = persist_wake s" "rl_persist s = Waiting"
    using i that by (auto simp: log_inv_def rl_calls_def persist_wake_def lq_ok_def lq_contents_def in_hand_def)
  show "log_inv terminal input t" if "t = persist_cancel s" "rl_persist s = Waiting"
    using i that by (auto simp: log_inv_def rl_calls_def persist_cancel_def in_hand_def)
  show "log_inv terminal input t" if "t = persist_append ev err s" "rl_persist s = Appending ev" for ev err
    using i that by (auto simp: log_inv_def rl_calls_def persist_append_def in_hand_def)
qed

interpretation request_logs: inductive_invariant "\<lambda>s. s = log_start input" "log_step terminal" "log_inv terminal input"
  for terminal input
  by unfold_locales (auto intro: log_inv_start log_inv_step)

lemma written_calls: "subseq (rl_written s) (rl_calls s)"
  unfolding rl_written_def rl_calls_def by (rule subseq_map) (rule subseq_filter_left)

lemma all_written: "\<forall>err \<in> snd ` set (rl_log s). err = [] \<Longrightarrow> rl_written s = rl_calls s"
  unfolding rl_written_def rl_calls_def by (rule arg_cong [of _ _ "map fst"]) (auto simp: filter_id_conv)

text \<open>C27. However the goroutines interleave and whichever appends fail, the events handed to the event log
  are a prefix of the frames the queue accepted, and these are a prefix of the subscription's frames that stops
  at the first one that ends the request; no wake-up is lost; when the persisting goroutine ends without a
  cancellation it has handed over all of them, each once.  The events that the log accepted keep their order,
  and they are all of them when no append failed: a failed append leaves a gap.\<close>

theorem request_log_in_order:
  assumes "reach (\<lambda>s. s = log_start input) (log_step terminal) s"
  shows "(\<exists>rest. rl_taken s = rl_calls s @ rest) \<and> (\<exists>rest. through terminal input = rl_taken s @ rest)
    \<and> (rl_persist s = Waiting \<and> (lq_contents (rl_queue s) \<noteq> [] \<or> lq_closed (rl_queue s)) \<longrightarrow> lq_wake (rl_queue s))
    \<and> (rl_persist s = PersistDone \<and> \<not> rl_canceled s \<longrightarrow> rl_drain s = DrainDone \<and> rl_calls s = rl_taken s)
    \<and> subseq (rl_written s) (rl_taken s) \<and> ((\<forall>err \<in> snd ` set (rl_log s). err = []) \<longrightarrow> rl_written s = rl_calls s)"
proof -
  have i: "log_inv terminal input s" by (rule request_logs.reach_inv [OF assms])
  have "\<exists>rest. through terminal input = rl_taken s @ rest"
  proof (cases "rl_taken s" rule: rev_cases)
    case (snoc xs x)
    then have "\<forall>ev \<in> set xs. \<not> terminal ev" "input = xs @ x # rl_input s" using i by (auto simp: log_inv_def)
    then show ?thesis using snoc by (simp add: through_append)
  qed simp
  moreover have taken: "rl_taken s = rl_calls s @ in_hand (rl_persist s) @ lq_contents (rl_queue s)" using i by (simp add: log_inv_def)
  moreover have "rl_drain s = DrainDone \<and> rl_calls s = rl_taken s" if "rl_persist s = PersistDone" "\<not> rl_canceled s"
    using i that by (auto simp: log_inv_def in_hand_def)
  moreover have "subseq (rl_written s) (rl_taken s)"
    unfolding taken by (rule subseq_order.trans [OF written_calls]) (rule subseq_rev_drop_many; simp)
  moreover note all_written [of s]
  moreover have "rl_persist s = Waiting \<and> (lq_contents (rl_queue s) \<noteq> [] \<or> lq_closed (rl_queue s)) \<longrightarrow> lq_wake (rl_queue s)"
    using i by (simp add: log_inv_def)
  ultimately show ?thesis by blast
qed

text \<open>A run: one frame that ends the request, drained and persisted.\<close>

definition done_run :: request_log where
  "done_run = persist_check (persist_append (unary_event 1) [] (persist_check (drain_close
     (drain_event (\<lambda>_. True) (unary_event 1) [] (log_start [unary_event 1])))))"

abbreviation one_frame :: "request_log \<Rightarrow> bool" where
  "one_frame s \<equiv> s = log_start [unary_event 1]"

definition drained_run :: request_log where
  "drained_run = drain_close (drain_event (\<lambda>_. True) (unary_event 1) [] (log_start [unary_event 1]))"

lemma drained_run_reach: "reach one_frame (log_step (\<lambda>_. True)) drained_run"
proof -
  have "reach one_frame (log_step (\<lambda>_. True)) (log_start [unary_event 1])" by (rule reach_start) simp
  then have "reach one_frame (log_step (\<lambda>_. True)) (drain_event (\<lambda>_. True) (unary_event 1) [] (log_start [unary_event 1]))"
    by (rule reach_step) (rule log_step.frame; simp add: log_start_def)
  then show ?thesis unfolding drained_run_def by (rule reach_step) (rule log_step.close; code_simp)
qed

lemma done_run_reach: "reach one_frame (log_step (\<lambda>_. True)) done_run"
proof -
  have "reach one_frame (log_step (\<lambda>_. True)) (persist_check drained_run)"
    by (rule reach_step [OF drained_run_reach]) (rule log_step.check; code_simp)
  then have "reach one_frame (log_step (\<lambda>_. True)) (persist_append (unary_event 1) [] (persist_check drained_run))"
    by (rule reach_step) (rule log_step.append; code_simp)
  then show ?thesis unfolding done_run_def drained_run_def by (rule reach_step) (rule log_step.check; code_simp)
qed

theorem request_log_in_order_witness:
  "rl_persist done_run = PersistDone \<and> \<not> rl_canceled done_run \<and> rl_calls done_run = rl_taken done_run \<and> rl_calls done_run = [unary_event 1]"
proof -
  have "rl_persist done_run = PersistDone" "\<not> rl_canceled done_run" "rl_calls done_run = [unary_event 1]" by code_simp+
  with request_log_in_order [OF done_run_reach] show ?thesis by blast
qed

section \<open>Progress\<close>

definition work_left :: "request_log \<Rightarrow> nat" where
  "work_left s = 2 * length (lq_contents (rl_queue s))
     + (case rl_persist s of Waiting \<Rightarrow> 2 | Appending _ \<Rightarrow> 2 | Checking \<Rightarrow> 1 | PersistDone \<Rightarrow> 0)"

lemma check_decreases:
  assumes "lq_ok (rl_queue s)" "lq_closed (rl_queue s)" "rl_persist s = Checking"
  shows "work_left (persist_check s) < work_left s"
proof -
  obtain r q where n: "log_Next (rl_queue s) = (r, q)" by force
  show ?thesis
  proof (cases "\<exists>ev. r = GotEvent ev")
    case True
    then obtain ev where r: "r = GotEvent ev" ..
    from Next_contents [OF assms(1) n [unfolded r]] assms(3) n r show ?thesis by (simp add: work_left_def persist_check_def)
  next
    case False
    then have "\<forall>ev. r \<noteq> GotEvent ev" by blast
    from Next_empty [OF assms(1) n this] assms(2,3) n show ?thesis by (simp add: work_left_def persist_check_def)
  qed
qed

text \<open>Once the subscription has been drained, the persisting goroutine comes to an end: every step
  reduces the work that is left, and until it is done some step is possible.\<close>

theorem persisting_ends:
  assumes "reach (\<lambda>s. s = log_start input) (log_step terminal) s" "rl_drain s = DrainDone"
  shows "(\<forall>t. log_step terminal s t \<longrightarrow> rl_drain t = DrainDone \<and> work_left t < work_left s)
    \<and> (rl_persist s = PersistDone \<or> (\<exists>t. log_step terminal s t \<and> rl_canceled t = rl_canceled s))"
proof -
  have i: "log_inv terminal input s" by (rule request_logs.reach_inv [OF assms(1)])
  have cl: "lq_ok (rl_queue s)" "lq_closed (rl_queue s)" using i assms(2) by (simp_all add: log_inv_def rl_calls_def)
  have "rl_drain t = DrainDone \<and> work_left t < work_left s" if "log_step terminal s t" for t
    using that
  proof (cases rule: log_step.cases)
    case check
    then show ?thesis using check_decreases [OF cl] assms(2) by (auto simp: persist_check_def split: prod.splits)
  qed (use assms(2) in \<open>auto simp: work_left_def persist_wake_def persist_cancel_def persist_append_def lq_contents_def\<close>)
  moreover have "\<exists>t. log_step terminal s t \<and> rl_canceled t = rl_canceled s" if "rl_persist s \<noteq> PersistDone"
  proof (cases "rl_persist s")
    case Checking
    then have "log_step terminal s (persist_check s)" by (rule log_step.check)
    moreover have "rl_canceled (persist_check s) = rl_canceled s" by (simp add: persist_check_def split: prod.split)
    ultimately show ?thesis by blast
  next
    case Waiting
    then have "lq_wake (rl_queue s)" using i cl(2) by (simp add: log_inv_def rl_calls_def)
    then have "log_step terminal s (persist_wake s)" using Waiting by (rule log_step.wake [rotated])
    moreover have "rl_canceled (persist_wake s) = rl_canceled s" by (simp add: persist_wake_def)
    ultimately show ?thesis by blast
  next
    case (Appending ev)
    then have "log_step terminal s (persist_append ev [] s)" by (rule log_step.append)
    moreover have "rl_canceled (persist_append ev [] s) = rl_canceled s" by (simp add: persist_append_def)
    ultimately show ?thesis by blast
  qed (use that in simp)
  ultimately show ?thesis by metis
qed

theorem persisting_ends_witness:
  "rl_drain drained_run = DrainDone \<and> (\<exists>t. log_step (\<lambda>_. True) drained_run t)"
proof -
  have "rl_drain drained_run = DrainDone" "rl_persist drained_run \<noteq> PersistDone" by code_simp+
  with persisting_ends [OF drained_run_reach] show ?thesis by blast
qed

section \<open>From the stream to the log\<close>

text \<open>Every event that \<^verbatim>\<open>prepare\<close> lets into the stream of a request passes the checks of the event
  log.\<close>

theorem prepared_events_are_loggable:
  assumes "prepare ev sc sequence logicalTime now = Inr ev'" "RequestID sc \<noteq> []" "sequence \<noteq> 0" "logicalTime \<noteq> 0" "\<not> time_IsZero now"
  shows "validateJSONEventLogEvent ev' = []"
proof -
  have "Timestamp ev' \<noteq> 0" using assms(1,5) by (auto simp: prepare_Inr_iff with_defaults_def time_IsZero_def)
  moreover have "RequestID (Scope ev') \<noteq> []"
    using prepare_fields(6) [OF assms(1)] assms(2) by (simp add: mergeScope_def or_default_def)
  ultimately show ?thesis
    using prepare_valid [OF assms(1)] prepare_fields(1,2) [OF assms(1)] assms(3,4)
    by (auto simp: validateJSONEventLogEvent_def event_valid_def time_IsZero_def)
qed

theorem prepared_events_are_loggable_witness:
  "\<exists>ev'. prepare (unary_event 0) (empty_scope\<lparr>RequestID := ''r''\<rparr>) 1 1 5 = Inr ev' \<and> validateJSONEventLogEvent ev' = []"
proof -
  have "\<not> isl (prepare (unary_event 0) (empty_scope\<lparr>RequestID := ''r''\<rparr>) 1 1 5)" by code_simp
  then obtain ev' where p: "prepare (unary_event 0) (empty_scope\<lparr>RequestID := ''r''\<rparr>) 1 1 5 = Inr ev'" by (metis sum.collapse(2))
  have "validateJSONEventLogEvent ev' = []"
    by (rule prepared_events_are_loggable [OF p]) (simp_all add: time_IsZero_def)
  with p show ?thesis by blast
qed

lemma zip_snd_filter: "length xs = length ys \<Longrightarrow> \<forall>x \<in> set (zip xs ys). P x \<Longrightarrow> map (f \<circ> snd) (filter P (zip xs ys)) = map f ys"
  by (induction xs ys rule: list_induct2) auto

text \<open>C28. When the persisting goroutine has ended without a cancellation and the file system did its
  work, loading the event log of the request returns the frames the queue accepted, in the order in
  which the stream delivered them, as JSON keeps them.\<close>

theorem persisted_request_replays:
  assumes "reach (\<lambda>s. s = log_start input) (log_step terminal) s" "rl_persist s = PersistDone" "\<not> rl_canceled s"
    and "clean_abs root" "store_path root ''.jsonl'' (RequestID sc) = Inr p" "length ios = length (rl_calls s)"
    and "\<forall>(io, ev) \<in> set (zip ios (rl_calls s)). in_log enc (RequestID sc) (io, ev) \<and> codes enc dec norm ev"
    and "ends dec" "\<forall>ev. SequenceNumber (norm ev) = SequenceNumber ev"
  shows "LoadEvents dec root [] sc 0 empty_filter (append_run enc root (zip ios (rl_calls s)) []) = Some (Inr (map norm (rl_taken s)))"
proof -
  let ?xs = "zip ios (rl_calls s)"
  have log: "rl_calls s = rl_taken s"
    using request_logs.reach_inv [OF assms(1)] assms(2,3) by (auto simp: log_inv_def in_hand_def)
  have ok: "\<forall>(io, ev) \<in> set ?xs. untorn io \<and> codes enc dec norm ev" using assms(7) by (auto simp: in_log_def untorn_def)
  have "\<forall>x \<in> set ?xs. in_log enc (RequestID sc) x" using assms(7) by auto
  then have m: "map (norm \<circ> snd) (filter (in_log enc (RequestID sc)) ?xs) = map norm (rl_calls s)"
    using zip_snd_filter [OF assms(6)] by blast
  have "1 \<le> SequenceNumber (norm ev) \<and> Match empty_filter (norm ev)" if "ev \<in> set (rl_calls s)" for ev
  proof -
    have "\<exists>io. (io, ev) \<in> set ?xs" using that assms(6) by (metis in_set_impl_in_set_zip2)
    then obtain io where "(io, ev) \<in> set ?xs" ..
    then have "SequenceNumber ev \<noteq> 0" using assms(7) by (auto simp: in_log_def validateJSONEventLogEvent_def split: if_splits)
    then have "1 \<le> SequenceNumber (norm ev)" using assms(9) by (metis not_less word_less_1)
    then show ?thesis by simp
  qed
  then have "filter (\<lambda>ev. 0 \<le> SequenceNumber ev \<and> 1 \<le> SequenceNumber ev \<and> Match empty_filter ev) (map norm (rl_calls s)) = map norm (rl_calls s)"
    by (auto simp: filter_id_conv)
  with load_after_appends [OF assms(4,5) _ ok assms(8), of "[]" 0 empty_filter] m log show ?thesis by simp
qed

theorem persisted_request_replays_witness:
  "LoadEvents unary_dec ''/d'' [] (empty_scope\<lparr>RequestID := ''r''\<rparr>) 0 empty_filter
     (append_run unary_enc ''/d'' (zip [fine] (rl_calls done_run)) []) = Some (Inr [unary_event 1])"
proof -
  let ?sc = "empty_scope\<lparr>RequestID := ''r''\<rparr>" and ?norm = "\<lambda>ev. unary_event (SequenceNumber ev)"
  have s: "rl_persist done_run = PersistDone" "\<not> rl_canceled done_run" "rl_calls done_run = [unary_event 1]"
    "map ?norm (rl_taken done_run) = [unary_event 1]" by code_simp+
  have a: "clean_abs ''/d''" and b: "store_path ''/d'' ''.jsonl'' (RequestID ?sc) = Inr ''/d/r.jsonl''" by code_simp+
  have l: "length [fine] = length (rl_calls done_run)" by (simp add: s)
  have "in_log unary_enc (RequestID ?sc) (fine, unary_event 1)" by code_simp
  then have c: "\<forall>(io, ev) \<in> set (zip [fine] (rl_calls done_run)). in_log unary_enc (RequestID ?sc) (io, ev) \<and> codes unary_enc unary_dec ?norm ev"
    using unary_codes by (simp add: s)
  have n: "\<forall>ev. SequenceNumber (?norm ev) = SequenceNumber ev" by (simp add: unary_event_def)
  from persisted_request_replays [OF done_run_reach s(1,2) a b l c unary_ends n] show ?thesis unfolding s(4) .
qed

end
