(* ===== verification/Skill_Tools.thy ===== *)
theory Skill_Tools
  imports Front_Matter Workspace Tool_Policy Conversation Bash_Guard
begin

text \<open>
  Skills before and while they are bound: \<^verbatim>\<open>llm/skill.go\<close>, \<^verbatim>\<open>llm/builtin_tools.go\<close>, \<^verbatim>\<open>llm/mcp.go\<close> and
  \<^verbatim>\<open>Tools\<close> of \<^verbatim>\<open>llm/internal/builtin/builtin.go\<close>.

  A tool is known by its name and, if it is built in, by the workspace its handler resolves paths
  with and the bash configuration.  A nil tool is None.  The conversation of a bound skill has the
  type \<open>'c\<close>; creating it and opening its session are arguments of \<open>Bind\<close>.
\<close>

section \<open>Tools\<close>

record tool_ref =
  tl_name :: string
  tl_workspace :: "workspace option"
  tl_bash :: "bash_config option"

definition builtin_tool :: "workspace \<Rightarrow> string \<Rightarrow> tool_ref" where
  "builtin_tool ws name = \<lparr>tl_name = name, tl_workspace = Some ws, tl_bash = None\<rparr>"

definition coreTools :: "workspace \<Rightarrow> bash_config \<Rightarrow> tool_ref list" where
  "coreTools ws cfg =
     (builtin_tool ws ''bash'')\<lparr>tl_bash := Some cfg\<rparr>
     # map (builtin_tool ws)
         [''read_file'', ''write_file'', ''edit_file'', ''delete_file'', ''move_file'', ''grep'', ''pipeline_search_replace'',
          ''file_excerpt'', ''artifact_catalog'', ''structured_preview'']"

definition extraTool :: "workspace \<Rightarrow> string \<Rightarrow> tool_ref option" where
  "extraTool ws name = (if name = ''list_dir'' \<or> name = ''pwd'' then Some (builtin_tool ws name) else None)"

fun add_extras :: "workspace \<Rightarrow> string list \<Rightarrow> string list \<Rightarrow> tool_ref list \<Rightarrow> go_error + tool_ref list" where
  "add_extras ws seen [] tools = Inr tools"
| "add_extras ws seen (name # names) tools =
     (case extraTool ws name of
        None \<Rightarrow> Inl [''builtin: unknown extra tool '' @ go_quote name]
      | Some extra \<Rightarrow>
          if name \<in> set seen then add_extras ws seen names tools
          else add_extras ws (name # seen) names (tools @ [extra]))"

definition builtin_Tools :: "workspace \<Rightarrow> tool_set_config \<Rightarrow> go_error + tool_ref list" where
  "builtin_Tools ws cfg = add_extras ws [] (tsc_Extras cfg) (coreTools ws (tools_config cfg))"

fun validate_loop :: "string list \<Rightarrow> tool_ref option list \<Rightarrow> go_error" where
  "validate_loop seen [] = []"
| "validate_loop seen (None # ts) = [''skill: received nil tool'']"
| "validate_loop seen (Some t # ts) =
     (if tl_name t = [] then [''skill: tool has empty name'']
      else if tl_name t \<in> set seen then [''skill: duplicate tool name '' @ go_quote (tl_name t)]
      else validate_loop (tl_name t # seen) ts)"

definition validateTools :: "tool_ref option list \<Rightarrow> go_error" where
  "validateTools tools = validate_loop [] tools"

section \<open>Skills\<close>

record 'c skill =
  sk_Name :: string
  sk_Description :: string
  sk_License :: string
  sk_Instruction :: string
  sk_workspace :: "workspace option"
  sk_envFiles :: "string list"
  sk_toolSet :: tool_set_config
  sk_tools :: "tool_ref option list"
  sk_conv :: "'c option"

definition DefaultToolSetConfig :: tool_set_config where
  "DefaultToolSetConfig = \<lparr>tsc_BashAllow = [], tsc_BashBlock = [], tsc_BashURLAllowlist = [], tsc_Extras = [], tsc_Policies = [], tsc_BashCommandPolicies = []\<rparr>"

definition copyToolSetConfig :: "tool_set_config \<Rightarrow> tool_set_config" where
  "copyToolSetConfig cfg = cfg\<lparr>tsc_Policies := copy_map (tsc_Policies cfg)\<rparr>"

text \<open>Values are not shared in the model, so copying keeps everything but the conversation.\<close>

definition skill_copy :: "'c skill \<Rightarrow> 'c skill" where
  "skill_copy s = s\<lparr>sk_toolSet := copyToolSetConfig (sk_toolSet s), sk_conv := None\<rparr>"

definition BuiltinTools :: "'c skill \<Rightarrow> go_error + tool_ref list" where
  "BuiltinTools s =
     (case sk_workspace s of
        None \<Rightarrow> Inl [''skill: built-in tools require a temp workspace'']
      | Some ws \<Rightarrow>
          if ws_tempRoot ws = [] then Inl [''skill: built-in tools require a temp workspace'']
          else
            (case builtin_Tools ws (copyToolSetConfig (sk_toolSet s)) of
               Inl err \<Rightarrow> Inl [''skill: configure built-in tools: '' @ error_text err]
             | Inr ts \<Rightarrow> Inr ts))"

definition AddTools :: "tool_ref option list \<Rightarrow> 'c skill \<Rightarrow> go_error + 'c skill" where
  "AddTools tools s =
     (if sk_conv s \<noteq> None then Inl [''skill: AddTools requires an unbound skill'']
      else
        let combined = sk_tools s @ tools; err = validateTools combined in
        if err \<noteq> [] then Inl err else Inr ((skill_copy s)\<lparr>sk_tools := combined\<rparr>))"

text \<open>\<^verbatim>\<open>SetAccessibleDirs\<close> changes the workspace of the skill in place.\<close>

definition SetAccessibleDirs :: "fs \<Rightarrow> string list \<Rightarrow> 'c skill \<Rightarrow> go_error \<times> 'c skill" where
  "SetAccessibleDirs fs dirs s =
     (if sk_conv s \<noteq> None then ([''skill: SetAccessibleDirs requires an unbound skill''], s)
      else
        (case sk_workspace s of
           None \<Rightarrow> ([''skill: SetAccessibleDirs requires a skill workspace''], s)
         | Some ws \<Rightarrow> (case setAccessibleDirs fs dirs ws of (err, ws) \<Rightarrow> (err, s\<lparr>sk_workspace := Some ws\<rparr>))))"

definition is_custom :: "tool_ref option \<Rightarrow> bool" where
  "is_custom t \<longleftrightarrow> (case t of None \<Rightarrow> False | Some t \<Rightarrow> \<not> isBuiltinToolName (tl_name t))"

definition SetAccessibleDirsAndBuiltinTools :: "fs \<Rightarrow> string list \<Rightarrow> 'c skill \<Rightarrow> go_error + 'c skill" where
  "SetAccessibleDirsAndBuiltinTools fs dirs s =
     (if sk_conv s \<noteq> None then Inl [''skill: SetAccessibleDirsAndBuiltinTools requires an unbound skill'']
      else
        let c = skill_copy s; c = c\<lparr>sk_tools := filter is_custom (sk_tools c)\<rparr> in
        (case SetAccessibleDirs fs dirs c of (err, c) \<Rightarrow>
           if err \<noteq> [] then Inl err
           else
             (case BuiltinTools c of
                Inl err \<Rightarrow> Inl err
              | Inr ts \<Rightarrow>
                  let c = c\<lparr>sk_tools := sk_tools c @ map Some ts\<rparr>; err = validateTools (sk_tools c) in
                  if err \<noteq> [] then Inl err else Inr c)))"

definition AccessibleDirs :: "'c skill \<Rightarrow> string list" where
  "AccessibleDirs s = (case sk_workspace s of None \<Rightarrow> [] | Some ws \<Rightarrow> ws_extraRoots ws)"

definition WithToolSetConfig :: "fs \<Rightarrow> tool_set_config \<Rightarrow> 'c skill \<Rightarrow> go_error + 'c skill" where
  "WithToolSetConfig fs cfg s =
     (if sk_conv s \<noteq> None then Inl [''skill: WithToolSetConfig requires an unbound skill'']
      else
        let c = (skill_copy s)\<lparr>sk_toolSet := copyToolSetConfig cfg\<rparr> in
        if list_ex (\<lambda>t. t \<noteq> None \<and> \<not> is_custom t) (sk_tools c)
        then SetAccessibleDirsAndBuiltinTools fs (AccessibleDirs c) c
        else Inr c)"

section \<open>Loading\<close>

record skill_meta =
  me_Name :: string
  me_Description :: string
  me_License :: string

definition SkillFile :: string where "SkillFile = ''SKILL.md''"

text \<open>\<open>opened\<close> is what opening \<^verbatim>\<open>SKILL.md\<close> gives: nothing if it does not exist, an error, or its text.\<close>

definition newFromFS ::
  "('m, skill_meta) fm_codec \<Rightarrow> string \<Rightarrow> workspace \<Rightarrow> string list \<Rightarrow> tool_set_config \<Rightarrow> go_error + string option \<Rightarrow> go_error + 'c skill" where
  "newFromFS cd displayDir ws envFiles cfg opened =
     (case opened of
        Inl err \<Rightarrow> Inl [''open '' @ SkillFile @ '' in '' @ go_quote displayDir @ '': '' @ error_text err]
      | Inr None \<Rightarrow> Inl [''skill directory '' @ go_quote displayDir @ '' is missing required '' @ SkillFile]
      | Inr (Some content) \<Rightarrow>
          (case fm_Parse cd [] content of
             Inl err \<Rightarrow> Inl err
           | Inr (meta, body) \<Rightarrow>
               let me = (case meta of Some me \<Rightarrow> me | None \<Rightarrow> \<lparr>me_Name = [], me_Description = [], me_License = []\<rparr>) in
               Inr \<lparr>sk_Name = me_Name me, sk_Description = me_Description me, sk_License = me_License me, sk_Instruction = body,
                    sk_workspace = Some ws, sk_envFiles = envFiles, sk_toolSet = copyToolSetConfig cfg, sk_tools = [], sk_conv = None\<rparr>))"

definition WithTools :: "tool_ref option list \<Rightarrow> 'c skill \<Rightarrow> go_error + 'c skill" where
  "WithTools tools s =
     (let combined = sk_tools s @ tools; err = validateTools combined in
      if err \<noteq> [] then Inl err else Inr (s\<lparr>sk_tools := combined\<rparr>))"

fun applySkillOptions :: "nat \<Rightarrow> ('c skill \<Rightarrow> go_error + 'c skill) option list \<Rightarrow> 'c skill \<Rightarrow> go_error + 'c skill" where
  "applySkillOptions i [] s = Inr s"
| "applySkillOptions i (opt # opts) s =
     (case opt of
        None \<Rightarrow> Inl [''skill: option '' @ itoa_digits i @ '' is nil'']
      | Some f \<Rightarrow> (case f s of Inl err \<Rightarrow> Inl err | Inr s \<Rightarrow> applySkillOptions (Suc i) opts s))"

text \<open>The result of loading, and the temporary directories that are left on the disk.\<close>

definition load_into ::
  "('m, skill_meta) fm_codec \<Rightarrow> string \<Rightarrow> workspace \<Rightarrow> string list \<Rightarrow> tool_set_config \<Rightarrow> ('c skill \<Rightarrow> go_error + 'c skill) option list
     \<Rightarrow> go_error + string option \<Rightarrow> (go_error + 'c skill) \<times> string list" where
  "load_into cd displayDir ws envFiles cfg opts opened =
     (case newFromFS cd displayDir ws envFiles cfg opened of
        Inl err \<Rightarrow> (Inl err, [])
      | Inr s \<Rightarrow> (case applySkillOptions 0 opts s of Inl err \<Rightarrow> (Inl err, []) | Inr s \<Rightarrow> (Inr s, [ws_tempRoot ws])))"

definition NewSkill_fs ::
  "('m, skill_meta) fm_codec \<Rightarrow> fs \<Rightarrow> tool_set_config \<Rightarrow> ('c skill \<Rightarrow> go_error + 'c skill) option list \<Rightarrow> go_error + string option
     \<Rightarrow> (go_error + 'c skill) \<times> string list" where
  "NewSkill_fs cd fs cfg opts opened =
     (case newTempWorkspaceRoot fs of
        Inl err \<Rightarrow> (Inl err, [])
      | Inr ws \<Rightarrow> load_into cd ''skill filesystem'' ws [] cfg opts opened)"

text \<open>\<open>statEnv\<close> is what \<^verbatim>\<open>os.Stat\<close> says of the \<^verbatim>\<open>.env\<close> file: it exists, it does not, or an error.\<close>

definition NewSkill_dir ::
  "('m, skill_meta) fm_codec \<Rightarrow> fs \<Rightarrow> (string \<Rightarrow> go_error + bool) \<Rightarrow> tool_set_config \<Rightarrow> ('c skill \<Rightarrow> go_error + 'c skill) option list
     \<Rightarrow> (string \<Rightarrow> go_error + string option) \<Rightarrow> string \<Rightarrow> (go_error + 'c skill) \<times> string list" where
  "NewSkill_dir cd fs statEnv cfg opts openFile dir =
     (case newWorkspaceRoot fs dir of
        Inl err \<Rightarrow> (Inl err, [])
      | Inr ws \<Rightarrow>
          let envFile = path_Join [ws_skillRoot ws, ''.env''] in
          (case statEnv envFile of
             Inl err \<Rightarrow> (Inl [''skill: inspect env file '' @ go_quote envFile @ '': '' @ error_text err], [])
           | Inr exists \<Rightarrow>
               load_into cd (ws_skillRoot ws) ws (if exists then [envFile] else []) cfg opts
                 (openFile (path_Join [ws_skillRoot ws, SkillFile]))))"

section \<open>Binding\<close>

definition prependSystemInstruction :: "string \<Rightarrow> string \<Rightarrow> string" where
  "prependSystemInstruction systemInstructions instruction =
     (let system = TrimSpace systemInstructions; body = TrimSpace instruction in
      if system = [] then instruction
      else if body = [] then system
      else system @ [newline, newline] @ body)"

definition trim_newlines :: "string \<Rightarrow> string" where
  "trim_newlines s = rev (dropWhile (\<lambda>c. c = newline) (rev s))"

definition appendWorkspaceInstruction :: "string \<Rightarrow> workspace \<Rightarrow> string" where
  "appendWorkspaceInstruction instruction ws =
     (let head = trim_newlines instruction in
      head @ (if head = [] then [] else [newline, newline]) @ ''Workspace access:'' @ [newline]
      @ (if ws_skillRoot ws = [] then []
         else ''- Source workspace: '' @ ws_skillRoot ws
           @ ''. Prefer this area for durable skill work when the task belongs with the skill. Use absolute paths under this directory.'' @ [newline])
      @ ''- Temp playground: '' @ ws_tempRoot ws
      @ ''. Relative file paths and shell commands run here. Use it for drafts, experiments, generated logs, and other disposable work.'' @ [newline]
      @ (if ws_extraRoots ws = [] then []
         else ''- User-added directories: use absolute paths under these roots exactly as requested by the user. Access is recursive within each root.''
           @ [newline] @ concat (map (\<lambda>d. ''  - '' @ d @ [newline]) (ws_extraRoots ws)))
      @ ''Do not access paths outside these roots.'')"

definition runtimeInstruction :: "string \<Rightarrow> 'c skill \<Rightarrow> string" where
  "runtimeInstruction systemInstructions s =
     (let body = prependSystemInstruction systemInstructions (sk_Instruction s) in
      case sk_workspace s of None \<Rightarrow> body | Some ws \<Rightarrow> appendWorkspaceInstruction body ws)"

text \<open>The stores are given by what \<^verbatim>\<open>Load\<close> returns for an id; a nil store is None.\<close>

fun find_session :: "string \<Rightarrow> nat \<Rightarrow> (string \<Rightarrow> go_error) option list \<Rightarrow> go_error + string" where
  "find_session sid i [] = Inl [''skill: session '' @ go_quote sid @ '' not found'', ErrSessionNotFound]"
| "find_session sid i (store # stores) =
     (case store of
        None \<Rightarrow> Inl [''skill: session store '' @ itoa_digits i @ '' is nil'']
      | Some load \<Rightarrow>
          let err = load sid in
          if err = [] then Inr sid
          else if error_Is err ErrSessionNotFound then find_session sid (Suc i) stores
          else Inl ((''skill: load session '' @ go_quote sid @ '' store '' @ itoa_digits i) # err))"

definition resolveSessionID :: "string \<Rightarrow> string option \<Rightarrow> (string \<Rightarrow> go_error) option list \<Rightarrow> go_error + string" where
  "resolveSessionID fresh sessID stores =
     (if stores = [] then Inl [''skill: session id requires at least one session store'']
      else
        (case sessID of
           None \<Rightarrow> Inr fresh
         | Some sid \<Rightarrow> if sid = [] then Inl [''skill: session id must not be empty''] else find_session sid 0 stores))"

text \<open>\<open>newConv\<close> stands for \<^verbatim>\<open>NewConversation\<close> on the instruction and the tools wrapped with the policies of
  the tool set, \<open>openSession\<close> for \<^verbatim>\<open>OpenSession\<close>; \<open>envClient\<close> is what \<^verbatim>\<open>NewClientFromEnv\<close> returns.\<close>

definition Bind ::
  "string \<Rightarrow> string \<Rightarrow> (string list \<Rightarrow> go_error + 'cl) \<Rightarrow> ('cl \<Rightarrow> string \<Rightarrow> tool_ref option list \<Rightarrow> tool_set_config \<Rightarrow> go_error + 'c)
     \<Rightarrow> (string \<Rightarrow> 'c \<Rightarrow> go_error \<times> 'c) \<Rightarrow> 'cl option \<Rightarrow> string option \<Rightarrow> (string \<Rightarrow> go_error) option list \<Rightarrow> 'c skill \<Rightarrow> go_error + 'c skill" where
  "Bind systemInstructions fresh envClient newConv openSession client sessionID stores s =
     (case (case client of Some c \<Rightarrow> Inr c | None \<Rightarrow> envClient (sk_envFiles s)) of
        Inl err \<Rightarrow> Inl ((''skill: bind client from environment'') # err)
      | Inr client \<Rightarrow>
          let bound = skill_copy s in
          (case newConv client (runtimeInstruction systemInstructions s) (sk_tools bound) (sk_toolSet bound) of
             Inl err \<Rightarrow> Inl err
           | Inr conv \<Rightarrow>
               if stores \<noteq> [] \<or> sessionID \<noteq> None then
                 (case resolveSessionID fresh sessionID stores of
                    Inl err \<Rightarrow> Inl err
                  | Inr sid \<Rightarrow>
                      (case openSession sid conv of (err, conv) \<Rightarrow>
                         if err \<noteq> [] then Inl ((''skill: open session '' @ go_quote sid) # err)
                         else Inr (bound\<lparr>sk_conv := Some conv\<rparr>)))
               else Inr (bound\<lparr>sk_conv := Some conv\<rparr>)))"

section \<open>Tools of MCP servers\<close>

record mcp_server =
  srv_Name :: string
  srv_Tools :: "string list"

definition MCPTools :: "mcp_server option \<Rightarrow> tool_ref option list" where
  "MCPTools srv =
     (case srv of
        None \<Rightarrow> []
      | Some srv \<Rightarrow> map (\<lambda>name. Some \<lparr>tl_name = namespacedMCPName (srv_Name srv) name, tl_workspace = None, tl_bash = None\<rparr>) (srv_Tools srv))"

definition collectMCPTools :: "mcp_server option list \<Rightarrow> mcp_server option list \<Rightarrow> tool_ref option list" where
  "collectMCPTools globals perSkill = concat (map MCPTools globals) @ concat (map MCPTools perSkill)"

section \<open>What the operations keep\<close>

lemma fresh_Cons:
  "(\<forall>x \<in> set xs. P x \<and> f x \<notin> set (k # seen)) \<longleftrightarrow> (\<forall>x \<in> set xs. P x \<and> f x \<notin> set seen) \<and> k \<notin> set (map f xs)"
  by (auto simp: image_iff)

lemma validate_loop_iff:
  "validate_loop seen tools = [] \<longleftrightarrow>
     (\<forall>t \<in> set tools. (t \<noteq> None \<and> tl_name (the t) \<noteq> []) \<and> tl_name (the t) \<notin> set seen) \<and> distinct (map (\<lambda>t. tl_name (the t)) tools)"
proof (induction seen tools rule: validate_loop.induct)
  case (3 seen t ts)
  then show ?case unfolding fresh_Cons [of ts _ "\<lambda>t. tl_name (the t)"] by auto
qed auto

lemma validateTools_iff:
  "validateTools tools = [] \<longleftrightarrow> (\<forall>t \<in> set tools. t \<noteq> None \<and> tl_name (the t) \<noteq> []) \<and> distinct (map (tl_name \<circ> the) tools)"
  by (auto simp: validateTools_def validate_loop_iff comp_def)

lemma extras_cases:
  "add_extras ws seen names tools = Inr ts \<Longrightarrow>
     \<exists>es. ts = tools @ es \<and> (\<forall>t \<in> set es. tl_workspace t = Some ws \<and> isBuiltinToolName (tl_name t))"
proof (induction ws seen names tools rule: add_extras.induct)
  case (2 ws seen name names tools)
  obtain e where e: "extraTool ws name = Some e" using 2 by (auto split: option.splits)
  then have b: "tl_workspace e = Some ws \<and> isBuiltinToolName (tl_name e)"
    by (auto simp: extraTool_def builtin_tool_def isBuiltinToolName_def ParseExtraTool_def split: if_splits)
  show ?case
  proof (cases "name \<in> set seen")
    case True
    then show ?thesis using 2 e by simp
  next
    case False
    then obtain es where "ts = (tools @ [e]) @ es" "\<forall>t \<in> set es. tl_workspace t = Some ws \<and> isBuiltinToolName (tl_name t)"
      using "2.IH"(2) [OF e False] "2.prems" e by auto
    with b show ?thesis by (intro exI [of _ "e # es"]) simp
  qed
qed simp

lemma builtin_Tools_all:
  assumes "builtin_Tools ws cfg = Inr ts"
  shows "\<exists>es. ts = coreTools ws (tools_config cfg) @ es"
    and "\<forall>t \<in> set ts. tl_workspace t = Some ws \<and> isBuiltinToolName (tl_name t)"
proof -
  obtain es where es: "ts = coreTools ws (tools_config cfg) @ es" "\<forall>t \<in> set es. tl_workspace t = Some ws \<and> isBuiltinToolName (tl_name t)"
    using assms extras_cases unfolding builtin_Tools_def by blast
  have "\<forall>t \<in> set (coreTools ws c). tl_workspace t = Some ws \<and> isBuiltinToolName (tl_name t)" for c
    by (simp add: coreTools_def builtin_tool_def isBuiltinToolName_def)
  with es show "\<exists>es. ts = coreTools ws (tools_config cfg) @ es" "\<forall>t \<in> set ts. tl_workspace t = Some ws \<and> isBuiltinToolName (tl_name t)"
    by auto
qed

end
