(* ===== verification/Skill_Registry.thy ===== *)
theory Skill_Registry
  imports Skill_Tools "HOL-Library.Multiset" "HOL-Library.List_Lexorder" "HOL-Library.Char_ord"
begin

text \<open>
  The configuration of an orchestrator, from \<^verbatim>\<open>orchestrator/orchestrator.go\<close>, \<^verbatim>\<open>orchestrator/mcp.go\<close> and
  \<^verbatim>\<open>orchestrator/skill.go\<close>: the registry of skills with its resolution of name conflicts, the MCP
  servers, the client and the orchestrator's own skill.

  Client and conversation configuration of a registration are forwarded unchanged; they are the
  field \<open>rg_runtime\<close>.  \<open>visit\<close> is the order in which a range over the map of candidates meets them.
\<close>

section \<open>State\<close>

record ('c, 'r) skill_registration =
  rg_Skill :: "'c skill option"
  rg_Alias :: string
  rg_IsUserSupplied :: bool
  rg_AccessibleDirs :: "string list"
  rg_runtime :: 'r
  rg_MCPServers :: "mcp_server option list"

record ('c, 'r, 'cl) registry =
  og_configLocked :: bool
  og_skills :: "(string, ('c, 'r) skill_registration) gomap"
  og_globalMCPServers :: "mcp_server list"
  og_mcpServerByName :: "(string, mcp_server) gomap"
  og_envClientDone :: bool
  og_envClient :: "'cl option"
  og_envClientErr :: go_error
  og_orchestratorSkill :: "'c skill"

section \<open>Skills\<close>

definition prepare_registration ::
  "fs \<Rightarrow> mcp_server list \<Rightarrow> nat \<Rightarrow> ('c, 'r) skill_registration \<Rightarrow> go_error + ('c, 'r) skill_registration" where
  "prepare_registration fs globalMCP i reg =
     (case rg_Skill reg of
        None \<Rightarrow> Inl [''orchestrate: add skill config '' @ itoa_digits i @ '' requires a non-nil skill'']
      | Some s \<Rightarrow>
          if sk_conv s \<noteq> None then Inl [''orchestrate: add skill config '' @ itoa_digits i @ '' requires a lightweight unbound skill'']
          else
            (case SetAccessibleDirsAndBuiltinTools fs (rg_AccessibleDirs reg) s of
               Inl err \<Rightarrow> Inl err
             | Inr sk \<Rightarrow>
                 if sk_Name sk = [] then Inl [''orchestrate: add skill config '' @ itoa_digits i @ '' has empty skill name'']
                 else
                   let sk = (if rg_Alias reg \<noteq> [] then sk\<lparr>sk_Name := rg_Alias reg\<rparr> else sk);
                       mcpTools = collectMCPTools (map Some globalMCP) (rg_MCPServers reg)
                   in (case (if mcpTools \<noteq> [] then AddTools mcpTools sk else Inr sk) of
                         Inl err \<Rightarrow> Inl ((''orchestrate: add skill config '' @ itoa_digits i @ '': attach MCP tools'') # err)
                       | Inr sk \<Rightarrow> Inr (reg\<lparr>rg_Skill := Some sk\<rparr>))))"

fun prepare_all ::
  "fs \<Rightarrow> mcp_server list \<Rightarrow> nat \<Rightarrow> ('c, 'r) skill_registration list \<Rightarrow> go_error + ('c, 'r) skill_registration list" where
  "prepare_all fs globalMCP i [] = Inr []"
| "prepare_all fs globalMCP i (reg # regs) =
     (case prepare_registration fs globalMCP i reg of
        Inl err \<Rightarrow> Inl err
      | Inr p \<Rightarrow> (case prepare_all fs globalMCP (Suc i) regs of Inl err \<Rightarrow> Inl err | Inr ps \<Rightarrow> Inr (p # ps)))"

definition effective_name :: "('c, 'r) skill_registration \<Rightarrow> string" where
  "effective_name reg = (case rg_Skill reg of Some s \<Rightarrow> sk_Name s | None \<Rightarrow> [])"

definition tentative ::
  "(string, ('c, 'r) skill_registration) gomap \<Rightarrow> ('c, 'r) skill_registration list \<Rightarrow> (string, ('c, 'r) skill_registration list) gomap" where
  "tentative skills news =
     fold (\<lambda>reg m. append_edge m (effective_name reg) reg) news (fold (\<lambda>(name, reg) m. append_edge m name reg) skills [])"

definition name_conflict :: "string \<Rightarrow> string \<Rightarrow> go_error" where
  "name_conflict name which =
     [''orchestrate: name conflict for skill '' @ go_quote name @ '': multiple '' @ which
      @ '' skills. Please use an alias to resolve the conflict'']"

fun resolve_all ::
  "(string \<times> ('c, 'r) skill_registration list) list \<Rightarrow> (string, ('c, 'r) skill_registration) gomap
     \<Rightarrow> go_error + (string, ('c, 'r) skill_registration) gomap" where
  "resolve_all [] resolved = Inr resolved"
| "resolve_all ((name, regs) # groups) resolved =
     (if length regs = 1 then resolve_all groups (map_set resolved name (hd regs))
      else
        let userSupplied = filter rg_IsUserSupplied regs in
        if length userSupplied > 1 then Inl (name_conflict name ''user-supplied'')
        else if userSupplied = [] then Inl (name_conflict name ''system-provided'')
        else resolve_all groups (map_set resolved name (hd userSupplied)))"

definition AddSkills ::
  "fs \<Rightarrow> ((string \<times> ('c, 'r) skill_registration list) list \<Rightarrow> (string \<times> ('c, 'r) skill_registration list) list)
     \<Rightarrow> ('c, 'r) skill_registration list \<Rightarrow> ('c, 'r, 'cl) registry \<Rightarrow> go_error \<times> ('c, 'r, 'cl) registry" where
  "AddSkills fs visit cfgs o' =
     (if cfgs = [] then ([], o')
      else
        (case prepare_all fs (og_globalMCPServers o') 0 cfgs of
           Inl err \<Rightarrow> (err, o')
         | Inr news \<Rightarrow>
             (case resolve_all (visit (tentative (og_skills o') news)) [] of
                Inl err \<Rightarrow> (err, o')
              | Inr resolved \<Rightarrow> ([], o'\<lparr>og_skills := resolved\<rparr>))))"

fun check_removals :: "(string, 'a) gomap \<Rightarrow> nat \<Rightarrow> string list \<Rightarrow> string list \<Rightarrow> go_error" where
  "check_removals skills i seen [] = []"
| "check_removals skills i seen (name # names) =
     (if name = [] then [''orchestrate: remove skill name '' @ itoa_digits i @ '' must be non-empty'']
      else if name \<in> set seen then [''orchestrate: skill '' @ go_quote name @ '' already provided in RemoveSkills'']
      else if \<not> map_has skills name then [''orchestrate: skill '' @ go_quote name @ '' is not registered'']
      else check_removals skills (Suc i) (name # seen) names)"

definition RemoveSkills :: "string list \<Rightarrow> ('c, 'r, 'cl) registry \<Rightarrow> go_error \<times> ('c, 'r, 'cl) registry" where
  "RemoveSkills names o' =
     (let err = check_removals (og_skills o') 0 [] names in
      if err \<noteq> [] then (err, o') else ([], o'\<lparr>og_skills := fold (\<lambda>name m. map_delete m name) names (og_skills o')\<rparr>))"

definition cloneSkillMap :: "(string, ('c, 'r) skill_registration) gomap \<Rightarrow> (string, 'c skill option) gomap" where
  "cloneSkillMap skills = map (\<lambda>(name, cfg). (name, rg_Skill cfg)) skills"

definition skillSummariesFromRegistry :: "(string, 'c skill option) gomap \<Rightarrow> (string \<times> string option) list" where
  "skillSummariesFromRegistry skills = sort_key fst (map (\<lambda>(name, sk). (name, map_option sk_Description sk)) skills)"

section \<open>MCP servers\<close>

fun check_servers :: "nat \<Rightarrow> mcp_server option list \<Rightarrow> go_error" where
  "check_servers i [] = []"
| "check_servers i (srv # srvs) =
     (case srv of
        None \<Rightarrow> [''orchestrate: AddMCPServers entry '' @ itoa_digits i @ '' is nil'']
      | Some s \<Rightarrow>
          if srv_Name s = [] then [''orchestrate: AddMCPServers entry '' @ itoa_digits i @ '' has empty server name'']
          else check_servers (Suc i) srvs)"

fun check_duplicates :: "(string, mcp_server) gomap \<Rightarrow> string list \<Rightarrow> mcp_server list \<Rightarrow> go_error" where
  "check_duplicates byName seen [] = []"
| "check_duplicates byName seen (srv # srvs) =
     (if srv_Name srv \<in> set seen then [''orchestrate: MCP server '' @ go_quote (srv_Name srv) @ '' provided twice in one AddMCPServers call'']
      else if map_has byName (srv_Name srv) then [''orchestrate: MCP server '' @ go_quote (srv_Name srv) @ '' is already registered'']
      else check_duplicates byName (srv_Name srv # seen) srvs)"

definition AddMCPServers :: "mcp_server option list \<Rightarrow> ('c, 'r, 'cl) registry \<Rightarrow> go_error \<times> ('c, 'r, 'cl) registry" where
  "AddMCPServers servers o' =
     (if servers = [] then ([], o')
      else
        let err = check_servers 0 servers; srvs = map the servers in
        if err \<noteq> [] then (err, o')
        else if og_configLocked o' then ([''orchestrate: AddMCPServers can only be called during startup''], o')
        else
          let err = check_duplicates (og_mcpServerByName o') [] srvs in
          if err \<noteq> [] then (err, o')
          else
            ([], o'\<lparr>og_globalMCPServers := og_globalMCPServers o' @ srvs,
                   og_mcpServerByName := fold (\<lambda>srv m. map_set m (srv_Name srv) srv) srvs (og_mcpServerByName o')\<rparr>))"

text \<open>\<open>closeErr\<close> is what closing a server returns.\<close>

definition orchestrator_Close :: "(mcp_server \<Rightarrow> go_error) \<Rightarrow> ('c, 'r, 'cl) registry \<Rightarrow> go_error \<times> ('c, 'r, 'cl) registry" where
  "orchestrator_Close closeErr o' =
     (fold (\<lambda>srv firstErr. if closeErr srv \<noteq> [] \<and> firstErr = [] then closeErr srv else firstErr) (og_globalMCPServers o') [],
      o'\<lparr>og_globalMCPServers := [], og_mcpServerByName := []\<rparr>)"

section \<open>Startup settings\<close>

definition resolveEnvClient ::
  "go_error + 'cl \<Rightarrow> ('c, 'r, 'cl) registry \<Rightarrow> ('cl option \<times> go_error) \<times> ('c, 'r, 'cl) registry" where
  "resolveEnvClient fromEnv o' =
     (let o' = (if og_envClientDone o' then o'
                else o'\<lparr>og_envClientDone := True, og_envClient := (case fromEnv of Inr c \<Rightarrow> Some c | Inl _ \<Rightarrow> None),
                        og_envClientErr := (case fromEnv of Inl err \<Rightarrow> err | Inr _ \<Rightarrow> [])\<rparr>)
      in ((og_envClient o', og_envClientErr o'), o'))"

definition SetClient ::
  "('cl \<Rightarrow> 'c skill \<Rightarrow> go_error + 'c skill) \<Rightarrow> 'cl option \<Rightarrow> ('c, 'r, 'cl) registry \<Rightarrow> go_error \<times> ('c, 'r, 'cl) registry" where
  "SetClient bind client o' =
     (case client of
        None \<Rightarrow> ([''orchestrate: SetClient requires a non-nil client''], o')
      | Some cl \<Rightarrow>
          if og_configLocked o' then ([''orchestrate: SetClient can only be called during startup''], o')
          else
            let o' = o'\<lparr>og_envClientDone := True, og_envClient := Some cl, og_envClientErr := []\<rparr> in
            (case bind cl (og_orchestratorSkill o') of
               Inl err \<Rightarrow> (err, o')
             | Inr sk \<Rightarrow> ([], o'\<lparr>og_orchestratorSkill := sk\<rparr>)))"

text \<open>A skill that is bound has both its client and its conversation.\<close>

definition configuredOrchestratorSkill ::
  "('cl \<Rightarrow> 'c skill \<Rightarrow> go_error + 'c skill) \<Rightarrow> 'c skill \<Rightarrow> go_error + 'cl \<Rightarrow> 'c skill option \<Rightarrow> ('c, 'r, 'cl) registry
     \<Rightarrow> (go_error + 'c skill) \<times> ('c, 'r, 'cl) registry" where
  "configuredOrchestratorSkill bind defaultSkill fromEnv sk o' =
     (let sk = (case sk of Some s \<Rightarrow> s | None \<Rightarrow> defaultSkill) in
      if sk_conv sk \<noteq> None then (Inr sk, o')
      else
        (case resolveEnvClient fromEnv o' of ((client, err), o') \<Rightarrow>
           (case client of
              None \<Rightarrow> (Inr sk, o')
            | Some cl \<Rightarrow> if err \<noteq> [] then (Inr sk, o') else (bind cl sk, o'))))"

definition SetOrchestratorSkill ::
  "('cl \<Rightarrow> 'c skill \<Rightarrow> go_error + 'c skill) \<Rightarrow> 'c skill \<Rightarrow> go_error + 'cl \<Rightarrow> 'c skill option \<Rightarrow> ('c, 'r, 'cl) registry
     \<Rightarrow> go_error \<times> ('c, 'r, 'cl) registry" where
  "SetOrchestratorSkill bind defaultSkill fromEnv sk o' =
     (case configuredOrchestratorSkill bind defaultSkill fromEnv sk o' of
        (Inl err, o') \<Rightarrow> (err, o')
      | (Inr configured, o') \<Rightarrow>
          if og_configLocked o' then ([''orchestrate: SetOrchestratorSkill can only be called during startup''], o')
          else if sk_Name configured = [] then ([''orchestrate: orchestrator skill requires a non-empty name''], o')
          else ([], o'\<lparr>og_orchestratorSkill := configured\<rparr>))"

section \<open>Skills by directory\<close>

text \<open>\<open>loadDir\<close> is \<^verbatim>\<open>NewSkill\<close> on a directory with the default configuration; \<open>runtime\<close> pairs the client with the
  conversation configuration of the call.\<close>

fun load_dirs ::
  "(string \<Rightarrow> go_error + 'c skill) \<Rightarrow> ('cl option \<Rightarrow> 'r) \<Rightarrow> 'cl option \<Rightarrow> nat \<Rightarrow> string list \<Rightarrow> go_error + ('c, 'r) skill_registration list" where
  "load_dirs loadDir runtime client i [] = Inr []"
| "load_dirs loadDir runtime client i (dir # dirs) =
     (if dir = [] then Inl [''orchestrate: add skill dir '' @ itoa_digits i @ '' must not be empty'']
      else
        (case loadDir dir of
           Inl err \<Rightarrow> Inl err
         | Inr sk \<Rightarrow>
             (case load_dirs loadDir runtime client (Suc i) dirs of
                Inl err \<Rightarrow> Inl err
              | Inr cfgs \<Rightarrow>
                  Inr (\<lparr>rg_Skill = Some sk, rg_Alias = [], rg_IsUserSupplied = True, rg_AccessibleDirs = [],
                        rg_runtime = runtime client, rg_MCPServers = []\<rparr> # cfgs))))"

definition AddSkillDirs ::
  "fs \<Rightarrow> ((string \<times> ('c, 'r) skill_registration list) list \<Rightarrow> (string \<times> ('c, 'r) skill_registration list) list)
     \<Rightarrow> (string \<Rightarrow> go_error + 'c skill) \<Rightarrow> ('cl option \<Rightarrow> 'r) \<Rightarrow> go_error + 'cl \<Rightarrow> string list
     \<Rightarrow> ('c, 'r, 'cl) registry \<Rightarrow> go_error \<times> ('c, 'r, 'cl) registry" where
  "AddSkillDirs fs visit loadDir runtime fromEnv dirs o' =
     (if dirs = [] then ([], o')
      else
        (case resolveEnvClient fromEnv o' of ((client, _), o') \<Rightarrow>
           (case load_dirs loadDir runtime client 0 dirs of
              Inl err \<Rightarrow> (err, o')
            | Inr cfgs \<Rightarrow> AddSkills fs visit cfgs o')))"

definition loadOrchestratorSkill ::
  "('m, skill_meta) fm_codec \<Rightarrow> fs \<Rightarrow> go_error + string option \<Rightarrow> tool_ref option list \<Rightarrow> go_error + 'c skill" where
  "loadOrchestratorSkill cd fs opened extraTools =
     (let opts = (if extraTools \<noteq> [] then [Some (WithTools extraTools)] else []);
          cfg = DefaultToolSetConfig\<lparr>tsc_Extras := [''list_dir'', ''pwd'']\<rparr>
      in case fst (NewSkill_fs cd fs cfg opts opened) of
           Inl err \<Rightarrow> Inl (''load embedded orchestrator skill'' # err)
         | Inr sk \<Rightarrow>
             (case SetAccessibleDirsAndBuiltinTools fs [] sk of
                Inl err \<Rightarrow> Inl (''attach builtin tools to orchestrator skill'' # err)
              | Inr sk \<Rightarrow> Inr sk))"

end
