(* ===== verification/Skill_Registry_Theorems.thy ===== *)
theory Skill_Registry_Theorems
  imports Skill_Registry
begin

text \<open>
  Properties of the skill registry: how the tools of a skill are rebuilt, who wins a name conflict
  whatever the order of the map, that a batch is added or removed as a whole, and what every
  registered skill has.
\<close>

section \<open>Rebuilding tools\<close>

lemma tools_config_copy [simp]: "tools_config (copyToolSetConfig cfg) = tools_config cfg"
  by (simp add: tools_config_def copyToolSetConfig_def)

lemma builtin_Tools_copy: "builtin_Tools ws (copyToolSetConfig cfg) = builtin_Tools ws cfg"
  by (simp add: builtin_Tools_def) (simp add: copyToolSetConfig_def)

lemma rebuilt_skill:
  assumes "SetAccessibleDirsAndBuiltinTools fs dirs s = Inr s'"
  shows "\<exists>ws ts. sk_conv s = None \<and> sk_workspace s' = Some ws \<and> builtin_Tools ws (sk_toolSet s') = Inr ts
    \<and> setAccessibleDirs fs dirs (the (sk_workspace s)) = ([], ws)
    \<and> sk_tools s' = filter is_custom (sk_tools s) @ map Some ts \<and> validateTools (sk_tools s') = []
    \<and> sk_conv s' = None \<and> sk_Name s' = sk_Name s \<and> sk_Instruction s' = sk_Instruction s"
proof -
  have un: "sk_conv s = None" using assms by (auto simp: SetAccessibleDirsAndBuiltinTools_def split: if_splits)
  define c where "c = (skill_copy s)\<lparr>sk_tools := filter is_custom (sk_tools (skill_copy s))\<rparr>"
  obtain c' where c': "SetAccessibleDirs fs dirs c = ([], c')"
    and rest: "(case BuiltinTools c' of Inl err \<Rightarrow> Inl err
       | Inr ts \<Rightarrow> let c = c'\<lparr>sk_tools := sk_tools c' @ map Some ts\<rparr>; err = validateTools (sk_tools c)
                   in if err \<noteq> [] then Inl err else Inr c) = Inr s'"
    using assms un unfolding SetAccessibleDirsAndBuiltinTools_def c_def Let_def by (auto split: prod.splits if_splits)
  have cf: "sk_workspace c = sk_workspace s" "sk_conv c = None" "sk_tools c = filter is_custom (sk_tools s)" "sk_Name c = sk_Name s"
    "sk_Instruction c = sk_Instruction s" by (simp_all add: c_def skill_copy_def)
  obtain w ws where ws: "sk_workspace s = Some w" "setAccessibleDirs fs dirs w = ([], ws)" "c' = c\<lparr>sk_workspace := Some ws\<rparr>"
    using c' cf unfolding SetAccessibleDirs_def by (auto split: option.splits prod.splits if_splits)
  obtain ts where ts: "BuiltinTools c' = Inr ts" and s': "s' = c'\<lparr>sk_tools := sk_tools c' @ map Some ts\<rparr>" "validateTools (sk_tools s') = []"
    using rest by (auto simp: Let_def split: sum.splits if_splits)
  have "builtin_Tools ws (sk_toolSet s') = Inr ts"
    using ts s'(1) ws(3) by (auto simp: BuiltinTools_def builtin_Tools_copy split: if_splits sum.splits)
  then show ?thesis using un ws s' cf by (intro exI [of _ ws] exI [of _ ts]) simp
qed


definition custom_tool :: "string \<Rightarrow> tool_ref option" where
  "custom_tool name = Some \<lparr>tl_name = name, tl_workspace = None, tl_bash = None\<rparr>"

definition plain_skill :: "string \<Rightarrow> tool_ref option list \<Rightarrow> unit skill" where
  "plain_skill name tools = \<lparr>sk_Name = name, sk_Description = [], sk_License = [], sk_Instruction = [], sk_workspace = Some play_ws,
     sk_envFiles = [], sk_toolSet = DefaultToolSetConfig, sk_tools = tools, sk_conv = None\<rparr>"


text \<open>A tool of the caller's own that is called like an extra that is not enabled disappears without a
  replacement and without an error.\<close>

theorem custom_pwd_disappears:
  "map_option tl_name ` set (sk_tools (projr (SetAccessibleDirsAndBuiltinTools play_fs [] (plain_skill ''a'' [custom_tool ''pwd'']))))
    = Some ` set (map tl_name (coreTools play_ws (tools_config DefaultToolSetConfig)))"
  by code_simp

section \<open>Registration\<close>

definition reg_ok :: "('c, 'r) skill_registration \<Rightarrow> bool" where
  "reg_ok reg \<longleftrightarrow> (\<exists>s ws. rg_Skill reg = Some s \<and> sk_Name s \<noteq> [] \<and> sk_conv s = None \<and> sk_workspace s = Some ws
     \<and> validateTools (sk_tools s) = [] \<and> Some ` set (coreTools ws (tools_config (sk_toolSet s))) \<subseteq> set (sk_tools s))"

definition registry_ok :: "('c, 'r, 'cl) registry \<Rightarrow> bool" where
  "registry_ok o' \<longleftrightarrow> map_ok (og_skills o') \<and> (\<forall>(name, reg) \<in> set (og_skills o'). reg_ok reg \<and> effective_name reg = name)"

lemma prepare_registration_ok:
  assumes "prepare_registration fs globalMCP i reg = Inr p"
  shows "reg_ok p \<and> effective_name p \<noteq> [] \<and> rg_IsUserSupplied p = rg_IsUserSupplied reg"
proof -
  obtain s where s: "rg_Skill reg = Some s" "sk_conv s = None"
    using assms by (auto simp: prepare_registration_def split: option.splits if_splits)
  obtain sk where sk: "SetAccessibleDirsAndBuiltinTools fs (rg_AccessibleDirs reg) s = Inr sk" "sk_Name sk \<noteq> []"
    using assms s by (auto simp: prepare_registration_def split: sum.splits if_splits)
  define named where "named = (if rg_Alias reg \<noteq> [] then sk\<lparr>sk_Name := rg_Alias reg\<rparr> else sk)"
  define mcp where "mcp = collectMCPTools (map Some globalMCP) (rg_MCPServers reg)"
  obtain fin where fin: "(if mcp \<noteq> [] then AddTools mcp named else Inr named) = Inr fin" and p: "p = reg\<lparr>rg_Skill := Some fin\<rparr>"
    using assms s sk unfolding prepare_registration_def named_def mcp_def Let_def by (auto split: sum.splits)
  obtain ws ts where r: "sk_workspace sk = Some ws" "builtin_Tools ws (sk_toolSet sk) = Inr ts"
    "sk_tools sk = filter is_custom (sk_tools s) @ map Some ts" "validateTools (sk_tools sk) = []" "sk_conv sk = None"
    using rebuilt_skill [OF sk(1)] by blast
  have core: "Some ` set (coreTools ws (tools_config (sk_toolSet sk))) \<subseteq> set (sk_tools sk)"
    using builtin_Tools_all(1) [OF r(2)] r(3) by auto
  have named: "sk_workspace named = Some ws" "sk_toolSet named = sk_toolSet sk" "sk_tools named = sk_tools sk" "sk_conv named = None" "sk_Name named \<noteq> []"
    using r sk(2) by (simp_all add: named_def)
  have "sk_workspace fin = Some ws" "tools_config (sk_toolSet fin) = tools_config (sk_toolSet sk)" "set (sk_tools sk) \<subseteq> set (sk_tools fin)"
    "validateTools (sk_tools fin) = []" "sk_conv fin = None" "sk_Name fin \<noteq> []"
    using fin named r(4) by (auto simp: AddTools_def Let_def skill_copy_def split: if_splits)
  then show ?thesis using p core by (auto simp: reg_ok_def effective_name_def)
qed

lemma prepare_all_ok: "prepare_all fs globalMCP i regs = Inr ps \<Longrightarrow> \<forall>p \<in> set ps. reg_ok p \<and> effective_name p \<noteq> []"
  by (induction fs globalMCP i regs arbitrary: ps rule: prepare_all.induct)
    (auto split: sum.splits dest: prepare_registration_ok)

text \<open>The candidates for a name: the registered one, then the new ones.\<close>

definition candidates :: "(string, ('c, 'r) skill_registration) gomap \<Rightarrow> ('c, 'r) skill_registration list \<Rightarrow> string \<Rightarrow> ('c, 'r) skill_registration list" where
  "candidates skills news name =
     (case map_get skills name of Some reg \<Rightarrow> [reg] | None \<Rightarrow> []) @ filter (\<lambda>reg. effective_name reg = name) news"

lemma fold_append_edge_get:
  "map_get (fold (\<lambda>x m. append_edge m (f x) (g x)) xs m) k =
     (case map_get m k of
        None \<Rightarrow> if filter (\<lambda>x. f x = k) xs = [] then None else Some (map g (filter (\<lambda>x. f x = k) xs))
      | Some ys \<Rightarrow> Some (ys @ map g (filter (\<lambda>x. f x = k) xs)))"
  by (induction xs arbitrary: m) (auto simp: append_edge_def split: option.splits)

lemma fold_append_edge_ok: "map_ok m \<Longrightarrow> map_ok (fold (\<lambda>x m. append_edge m (f x) (g x)) xs m)"
  by (induction xs arbitrary: m) (simp_all add: append_edge_def)

lemma filter_key: "map_ok m \<Longrightarrow> map snd (filter (\<lambda>x. fst x = k) m) = (case map_get m k of Some v \<Rightarrow> [v] | None \<Rightarrow> [])"
proof (induction m)
  case (Cons kv m)
  obtain k' v where kv: "kv = (k', v)" by (cases kv)
  have "filter (\<lambda>x. fst x = k) m = []" if "k' = k" using Cons.prems kv that by (auto simp: map_ok_def filter_empty_conv)
  with Cons kv show ?case by (auto simp: map_ok_def)
qed simp

lemma tentative_get:
  assumes "map_ok skills"
  shows "map_ok (tentative skills news)"
    and "map_get (tentative skills news) name = (if candidates skills news name = [] then None else Some (candidates skills news name))"
proof -
  have pair: "(\<lambda>(name, reg) m. append_edge m name reg) = (\<lambda>x m. append_edge m (fst x) (snd x))" by auto
  show "map_ok (tentative skills news)" unfolding tentative_def pair
    by (intro fold_append_edge_ok [of _ effective_name "\<lambda>x. x"] fold_append_edge_ok [of _ fst snd]) simp
  have "map_get (fold (\<lambda>x m. append_edge m (fst x) (snd x)) skills []) name = map_option (\<lambda>v. [v]) (map_get skills name)"
    using filter_key [OF assms, of name] by (auto simp: fold_append_edge_get split: option.splits)
  then show "map_get (tentative skills news) name = (if candidates skills news name = [] then None else Some (candidates skills news name))"
    unfolding tentative_def pair fold_append_edge_get [of effective_name "\<lambda>x. x"]
    by (auto simp: candidates_def split: option.splits)
qed

text \<open>Who gets a name: the only candidate, or the only one that is user-supplied.\<close>

definition unambiguous :: "('c, 'r) skill_registration list \<Rightarrow> bool" where
  "unambiguous regs \<longleftrightarrow> length regs = 1 \<or> length (filter rg_IsUserSupplied regs) = 1"

definition winner :: "('c, 'r) skill_registration list \<Rightarrow> ('c, 'r) skill_registration" where
  "winner regs = (if length regs = 1 then hd regs else hd (filter rg_IsUserSupplied regs))"

lemma resolve_all_spec:
  "distinct (map fst groups) \<Longrightarrow>
   if \<forall>g \<in> set groups. unambiguous (snd g)
   then \<exists>m. resolve_all groups resolved = Inr m \<and> (map_ok resolved \<longrightarrow> map_ok m)
     \<and> (\<forall>k. map_get m k = (case map_get groups k of Some regs \<Rightarrow> Some (winner regs) | None \<Rightarrow> map_get resolved k))
   else \<exists>err. resolve_all groups resolved = Inl err \<and> err \<noteq> []"
proof (induction groups resolved rule: resolve_all.induct)
  case (2 name regs groups resolved)
  have new: "map_get groups name = None" using 2 by (auto simp: map_get_def map_of_eq_None_iff)
  let ?us = "filter rg_IsUserSupplied regs"
  show ?case
  proof (cases "length regs = 1")
    case True
    then show ?thesis using "2.IH"(1) [OF True] "2.prems" new by (auto simp: unambiguous_def winner_def split: if_splits option.split)
  next
    case one: False
    show ?thesis
    proof (cases "length ?us = 1")
      case True
      then have n: "\<not> length ?us > 1" "?us \<noteq> []" by (auto simp: length_0_conv [symmetric] simp del: length_0_conv)
      from "2.IH"(2) [OF one refl n] "2.prems" new one True n show ?thesis
        by (auto simp: unambiguous_def winner_def Let_def split: if_splits option.split)
    next
      case False
      then have "length ?us > 1 \<or> ?us = []" by (cases ?us) auto
      with one False show ?thesis by (auto simp: unambiguous_def Let_def name_conflict_def)
    qed
  qed
qed simp

lemma get_permuted:
  assumes "mset ys = mset xs" "map_ok xs"
  shows "map_get ys k = map_get xs k" "distinct (map fst ys)" "set ys = set xs"
proof -
  show s: "set ys = set xs" using assms(1) by (rule mset_eq_setD)
  have "mset (map fst ys) = mset (map fst xs)" using assms(1) by (metis mset_map)
  then show d: "distinct (map fst ys)" using assms(2) mset_eq_imp_distinct_iff unfolding map_ok_def by blast
  show "map_get ys k = map_get xs k" using map_of_inject_set [of ys xs] d assms(2) s by (simp add: map_get_def map_ok_def)
qed

lemma AddSkills_resolves:
  assumes "\<forall>xs. mset (visit xs) = mset xs" "map_ok (og_skills o')" "cfgs \<noteq> []"
    and "prepare_all fs (og_globalMCPServers o') 0 cfgs = Inr news"
  shows "if \<forall>name. candidates (og_skills o') news name \<noteq> [] \<longrightarrow> unambiguous (candidates (og_skills o') news name)
    then \<exists>m. AddSkills fs visit cfgs o' = ([], o'\<lparr>og_skills := m\<rparr>) \<and> map_ok m
      \<and> (\<forall>name. map_get m name = (if candidates (og_skills o') news name = [] then None else Some (winner (candidates (og_skills o') news name))))
    else \<exists>err. AddSkills fs visit cfgs o' = (err, o') \<and> err \<noteq> []"
proof -
  let ?t = "tentative (og_skills o') news"
  have vt: "mset (visit ?t) = mset ?t" using assms(1) by blast
  note t = tentative_get [OF assms(2), of news] and v = get_permuted [OF vt tentative_get(1) [OF assms(2)]]
  have amb: "(\<forall>g \<in> set (visit ?t). unambiguous (snd g)) \<longleftrightarrow>
      (\<forall>name. candidates (og_skills o') news name \<noteq> [] \<longrightarrow> unambiguous (candidates (og_skills o') news name))" (is "?L \<longleftrightarrow> ?R")
  proof
    assume ?L
    show ?R
    proof (intro allI impI)
      fix name assume "candidates (og_skills o') news name \<noteq> []"
      then have "(name, candidates (og_skills o') news name) \<in> set ?t" using t(2) map_get_mem by metis
      with \<open>?L\<close> v(3) show "unambiguous (candidates (og_skills o') news name)" by fastforce
    qed
  next
    assume ?R
    show ?L
    proof
      fix g assume "g \<in> set (visit ?t)"
      then have "map_get ?t (fst g) = Some (snd g)" using v(3) t(1) by (simp add: map_get_def map_ok_def)
      with t(2) [of "fst g"] \<open>?R\<close> show "unambiguous (snd g)" by (auto split: if_splits)
    qed
  qed
  show ?thesis
    using resolve_all_spec [OF v(2), of "[]"] assms(3,4)
    unfolding amb v(1) t(2) AddSkills_def by (auto split: if_splits)
qed

text \<open>C30. Whatever the order in which the map of candidates is visited, a batch of skills that prepares
  well is added exactly if every name has one candidate or exactly one that is user-supplied, which then
  gets the name; otherwise there is an error and the registry is unchanged.\<close>

theorem skill_conflicts_resolved:
  assumes "\<forall>xs. mset (visit xs) = mset xs" "registry_ok o'" "cfgs \<noteq> []"
    and "prepare_all fs (og_globalMCPServers o') 0 cfgs = Inr news"
  shows "if \<forall>name. candidates (og_skills o') news name \<noteq> [] \<longrightarrow> unambiguous (candidates (og_skills o') news name)
    then \<exists>m. AddSkills fs visit cfgs o' = ([], o'\<lparr>og_skills := m\<rparr>)
      \<and> (\<forall>name. map_get m name = (if candidates (og_skills o') news name = [] then None else Some (winner (candidates (og_skills o') news name))))
    else \<exists>err. AddSkills fs visit cfgs o' = (err, o') \<and> err \<noteq> []"
  using AddSkills_resolves [OF assms(1) _ assms(3,4)] assms(2) by (auto simp: registry_ok_def split: if_splits)

definition example_reg :: "string \<Rightarrow> bool \<Rightarrow> (unit, string) skill_registration" where
  "example_reg name user = \<lparr>rg_Skill = Some (plain_skill name []), rg_Alias = [], rg_IsUserSupplied = user, rg_AccessibleDirs = [],
     rg_runtime = [], rg_MCPServers = []\<rparr>"

definition empty_registry :: "(unit, string, unit) registry" where
  "empty_registry = \<lparr>og_configLocked = False, og_skills = [], og_globalMCPServers = [], og_mcpServerByName = [], og_envClientDone = False,
     og_envClient = None, og_envClientErr = [], og_orchestratorSkill = plain_skill ''orchestrator'' []\<rparr>"

theorem skill_conflicts_resolved_witness:
  "\<exists>m reg. AddSkills play_fs rev [example_reg ''a'' False, example_reg ''b'' False, example_reg ''a'' True] empty_registry
      = ([], empty_registry\<lparr>og_skills := m\<rparr>)
    \<and> map_get m ''a'' = Some reg \<and> rg_IsUserSupplied reg"
proof -
  let ?cfgs = "[example_reg ''a'' False, example_reg ''b'' False, example_reg ''a'' True]"
  let ?p = "prepare_all play_fs (og_globalMCPServers empty_registry) 0 ?cfgs"
  have "\<not> isl ?p" by code_simp
  then obtain news where news: "?p = Inr news" by (metis sum.collapse(2))
  have facts: "map effective_name (projr ?p) = [''a'', ''b'', ''a'']" "map rg_IsUserSupplied (projr ?p) = [False, False, True]" by code_simp+
  obtain x y z where xyz: "news = [x, y, z]" using facts(1) news by (auto simp: map_eq_Cons_conv)
  have n: "effective_name x = ''a''" "effective_name y = ''b''" "effective_name z = ''a''" "\<not> rg_IsUserSupplied x" "\<not> rg_IsUserSupplied y" "rg_IsUserSupplied z"
    using facts news xyz by simp_all
  have c: "candidates (og_skills empty_registry) news name = (if name = ''a'' then [x, z] else if name = ''b'' then [y] else [])" for name
    using n xyz by (auto simp: candidates_def empty_registry_def)
  have v: "\<forall>xs. mset (rev xs) = mset xs" by simp
  have ok: "registry_ok empty_registry" by (simp add: registry_ok_def empty_registry_def)
  have "\<forall>name. candidates (og_skills empty_registry) news name \<noteq> [] \<longrightarrow> unambiguous (candidates (og_skills empty_registry) news name)"
    using n by (simp add: c unambiguous_def)
  with skill_conflicts_resolved [OF v ok _ news] obtain m where
    "AddSkills play_fs rev ?cfgs empty_registry = ([], empty_registry\<lparr>og_skills := m\<rparr>)"
    "\<forall>name. map_get m name = (if candidates (og_skills empty_registry) news name = [] then None else Some (winner (candidates (og_skills empty_registry) news name)))"
    by auto
  then show ?thesis using n by (intro exI [of _ m] exI [of _ z]) (simp add: c winner_def)
qed

section \<open>Removal\<close>

lemma check_removals_iff:
  "check_removals skills i seen names = [] \<longleftrightarrow>
     (\<forall>name \<in> set names. name \<noteq> [] \<and> map_has skills name \<and> name \<notin> set seen) \<and> distinct names"
  by (induction skills i seen names rule: check_removals.induct) auto

lemma fold_delete_get: "map_get (fold (\<lambda>name m. map_delete m name) names m) k = (if k \<in> set names then None else map_get m k)"
  by (induction names arbitrary: m) auto

lemma fold_delete_ok: "map_ok m \<Longrightarrow> map_ok (fold (\<lambda>name m. map_delete m name) names m)"
  by (induction names arbitrary: m) auto

lemma fold_delete_subset: "set (fold (\<lambda>name m. map_delete m name) names m) \<subseteq> set m"
proof (induction names arbitrary: m)
  case (Cons name names)
  have "set (map_delete m name) \<subseteq> set m" by (auto simp: map_delete_def)
  with Cons [of "map_delete m name"] show ?case by auto
qed simp

text \<open>Skills are removed all or none: the call succeeds exactly if the names are non-empty, distinct
  and registered, and then exactly these are gone.\<close>

theorem skills_removed_all_or_none:
  "if [] \<notin> set names \<and> distinct names \<and> (\<forall>name \<in> set names. map_has (og_skills o') name)
   then \<exists>m. RemoveSkills names o' = ([], o'\<lparr>og_skills := m\<rparr>)
     \<and> (\<forall>k. map_get m k = (if k \<in> set names then None else map_get (og_skills o') k))
   else \<exists>err. RemoveSkills names o' = (err, o') \<and> err \<noteq> []"
proof (cases "check_removals (og_skills o') 0 [] names = []")
  case True
  then show ?thesis unfolding RemoveSkills_def Let_def
    using check_removals_iff [of "og_skills o'" 0 "[]" names] by (auto simp: fold_delete_get)
next
  case False
  then show ?thesis unfolding RemoveSkills_def Let_def
    using check_removals_iff [of "og_skills o'" 0 "[]" names] by auto
qed

theorem skills_removed_all_or_none_witness:
  "\<exists>m. RemoveSkills [''a''] (empty_registry\<lparr>og_skills := [(''a'', example_reg ''a'' True)]\<rparr>)
      = ([], empty_registry\<lparr>og_skills := [(''a'', example_reg ''a'' True)], og_skills := m\<rparr>) \<and> map_get m ''a'' = None"
proof -
  have "[] \<notin> set [''a''] \<and> distinct [''a'']
      \<and> (\<forall>name \<in> set [''a'']. map_has (og_skills (empty_registry\<lparr>og_skills := [(''a'', example_reg ''a'' True)]\<rparr>)) name)"
    by (simp add: map_has_def)
  with skills_removed_all_or_none [of "[''a'']" "empty_registry\<lparr>og_skills := [(''a'', example_reg ''a'' True)]\<rparr>"]
  show ?thesis by auto
qed

section \<open>Reachable registries\<close>

definition mcp_ok :: "('c, 'r, 'cl) registry \<Rightarrow> bool" where
  "mcp_ok o' \<longleftrightarrow> og_mcpServerByName o' = map (\<lambda>srv. (srv_Name srv, srv)) (og_globalMCPServers o')
     \<and> distinct (map srv_Name (og_globalMCPServers o')) \<and> [] \<notin> set (map srv_Name (og_globalMCPServers o'))"

definition registry_inv :: "('c, 'r, 'cl) registry \<Rightarrow> bool" where
  "registry_inv o' \<longleftrightarrow> registry_ok o' \<and> mcp_ok o'"

inductive registry_step :: "('c, 'r, 'cl) registry \<Rightarrow> ('c, 'r, 'cl) registry \<Rightarrow> bool" where
  add_skills: "\<forall>xs. mset (visit xs) = mset xs \<Longrightarrow> registry_step o' (snd (AddSkills fs visit cfgs o'))"
| remove_skills: "registry_step o' (snd (RemoveSkills names o'))"
| add_servers: "registry_step o' (snd (AddMCPServers servers o'))"
| close: "registry_step o' (snd (orchestrator_Close closeErr o'))"
| set_client: "registry_step o' (snd (SetClient bind client o'))"
| set_skill: "registry_step o' (snd (SetOrchestratorSkill bind def fromEnv sk o'))"
| add_dirs: "\<forall>xs. mset (visit xs) = mset xs \<Longrightarrow> registry_step o' (snd (AddSkillDirs fs visit loadDir runtime fromEnv dirs o'))"
| lock: "registry_step o' (o'\<lparr>og_configLocked := True\<rparr>)"

definition registry_start :: "('c, 'r, 'cl) registry \<Rightarrow> bool" where
  "registry_start o' \<longleftrightarrow> og_skills o' = [] \<and> og_globalMCPServers o' = [] \<and> og_mcpServerByName o' = []"

lemma winner_mem: "regs \<noteq> [] \<Longrightarrow> unambiguous regs \<Longrightarrow> winner regs \<in> set regs"
proof -
  assume r: "regs \<noteq> []" "unambiguous regs"
  show ?thesis
  proof (cases "length regs = 1")
    case False
    then have "filter rg_IsUserSupplied regs \<noteq> []" using r(2) by (auto simp: unambiguous_def)
    then have "hd (filter rg_IsUserSupplied regs) \<in> set (filter rg_IsUserSupplied regs)" by (rule hd_in_set)
    then show ?thesis using False by (simp add: winner_def)
  qed (use r(1) in \<open>simp add: winner_def\<close>)
qed

lemma add_keeps_ok:
  assumes "registry_ok o'" "\<forall>xs. mset (visit xs) = mset xs"
  shows "registry_ok (snd (AddSkills fs visit cfgs o'))"
proof (cases "cfgs = [] \<or> isl (prepare_all fs (og_globalMCPServers o') 0 cfgs)")
  case True
  then show ?thesis using assms(1) by (auto simp: AddSkills_def split: sum.splits)
next
  case False
  then obtain news where news: "prepare_all fs (og_globalMCPServers o') 0 cfgs = Inr news" by (metis sum.collapse(2))
  have mo: "map_ok (og_skills o')" using assms(1) by (simp add: registry_ok_def)
  note res = AddSkills_resolves [OF assms(2) mo _ news]
  show ?thesis
  proof (cases "\<forall>name. candidates (og_skills o') news name \<noteq> [] \<longrightarrow> unambiguous (candidates (og_skills o') news name)")
    case nf: False
    with res False have "\<exists>err. AddSkills fs visit cfgs o' = (err, o')" by auto
    with assms(1) show ?thesis by auto
  next
    case un: True
    with res False obtain m where m: "AddSkills fs visit cfgs o' = ([], o'\<lparr>og_skills := m\<rparr>)" "map_ok m"
      "\<And>name. map_get m name = (if candidates (og_skills o') news name = [] then None else Some (winner (candidates (og_skills o') news name)))"
      by auto
    have "reg_ok reg \<and> effective_name reg = name" if "(name, reg) \<in> set m" for name reg
    proof -
      let ?c = "candidates (og_skills o') news name"
      have "map_get m name = Some reg" using that m(2) by (simp add: map_get_def map_ok_def)
      then have "?c \<noteq> []" "reg = winner ?c" using m(3) by (auto split: if_splits)
      then have "reg \<in> set ?c" using un winner_mem by blast
      then consider "map_get (og_skills o') name = Some reg" | "reg \<in> set news" "effective_name reg = name"
        by (auto simp: candidates_def split: option.splits)
      then show ?thesis
      proof cases
        case 1
        then show ?thesis using assms(1) map_get_mem by (fastforce simp: registry_ok_def)
      next
        case 2
        then show ?thesis using prepare_all_ok [OF news] by blast
      qed
    qed
    then show ?thesis using m(1,2) by (auto simp: registry_ok_def)
  qed
qed

lemma check_duplicates_iff:
  "check_duplicates byName seen srvs = [] \<longleftrightarrow>
     (\<forall>srv \<in> set srvs. \<not> map_has byName (srv_Name srv) \<and> srv_Name srv \<notin> set seen) \<and> distinct (map srv_Name srvs)"
proof (induction byName seen srvs rule: check_duplicates.induct)
  case (2 byName seen srv srvs)
  then show ?case unfolding fresh_Cons [of srvs _ srv_Name] by auto
qed simp

lemma check_servers_iff: "check_servers i servers = [] \<longleftrightarrow> (\<forall>s \<in> set servers. s \<noteq> None \<and> srv_Name (the s) \<noteq> [])"
  by (induction i servers rule: check_servers.induct) (auto split: option.splits)

lemma fold_set_fresh:
  "distinct (map srv_Name srvs) \<Longrightarrow> \<forall>srv \<in> set srvs. \<not> map_has m (srv_Name srv) \<Longrightarrow>
   fold (\<lambda>srv m. map_set m (srv_Name srv) srv) srvs m = m @ map (\<lambda>srv. (srv_Name srv, srv)) srvs"
proof (induction srvs arbitrary: m)
  case (Cons srv srvs)
  have "map_set m (srv_Name srv) srv = m @ [(srv_Name srv, srv)]"
    using Cons.prems(2) by (induction m) (auto simp: map_has_def)
  moreover have "\<forall>s \<in> set srvs. \<not> map_has (m @ [(srv_Name srv, srv)]) (srv_Name s)"
    using Cons.prems by (auto simp: map_has_def image_iff)
  ultimately show ?case using Cons.IH [of "m @ [(srv_Name srv, srv)]"] Cons.prems(1) by simp
qed simp

lemma add_servers_keeps:
  assumes "mcp_ok o'" shows "mcp_ok (snd (AddMCPServers servers o'))"
proof (cases "snd (AddMCPServers servers o') = o'")
  case False
  define srvs where "srvs = map the servers"
  have c: "check_servers 0 servers = []" "check_duplicates (og_mcpServerByName o') [] srvs = []"
    and r: "snd (AddMCPServers servers o') = o'\<lparr>og_globalMCPServers := og_globalMCPServers o' @ srvs,
       og_mcpServerByName := fold (\<lambda>srv m. map_set m (srv_Name srv) srv) srvs (og_mcpServerByName o')\<rparr>"
    using False by (auto simp: AddMCPServers_def Let_def srvs_def split: if_splits)
  have d: "distinct (map srv_Name srvs)" "\<forall>srv \<in> set srvs. \<not> map_has (og_mcpServerByName o') (srv_Name srv)"
    using c(2) by (auto simp: check_duplicates_iff)
  have "[] \<notin> set (map srv_Name srvs)" using c(1) by (auto simp: check_servers_iff srvs_def)
  then show ?thesis using assms d r fold_set_fresh [OF d] by (auto simp: mcp_ok_def map_has_def image_iff) metis
qed (use assms in simp)

definition same_registry :: "('c, 'r, 'cl) registry \<Rightarrow> ('c, 'r, 'cl) registry \<Rightarrow> bool" where
  "same_registry p q \<longleftrightarrow> og_skills p = og_skills q \<and> og_globalMCPServers p = og_globalMCPServers q
     \<and> og_mcpServerByName p = og_mcpServerByName q"

lemma same_registry_inv: "same_registry q p \<Longrightarrow> registry_inv p \<Longrightarrow> registry_inv q"
  by (simp add: same_registry_def registry_inv_def registry_ok_def mcp_ok_def)

lemma client_keeps: "same_registry (snd (SetClient bind client p)) p"
  by (simp add: same_registry_def SetClient_def Let_def split: option.split sum.split)

lemma env_keeps: "same_registry (snd (resolveEnvClient fromEnv p)) p"
  by (simp add: same_registry_def resolveEnvClient_def Let_def)

lemma configured_keeps: "same_registry (snd (configuredOrchestratorSkill bind df fromEnv sk p)) p"
proof -
  obtain c err q where "resolveEnvClient fromEnv p = ((c, err), q)" by (metis surj_pair)
  then show ?thesis using env_keeps [of fromEnv p]
    by (simp add: configuredOrchestratorSkill_def Let_def same_registry_def split: option.split)
qed

lemma skill_keeps: "same_registry (snd (SetOrchestratorSkill bind df fromEnv sk p)) p"
proof -
  obtain r q where "configuredOrchestratorSkill bind df fromEnv sk p = (r, q)" by force
  then show ?thesis using configured_keeps [of bind df fromEnv sk p]
    by (simp add: SetOrchestratorSkill_def same_registry_def split: sum.split)
qed

lemma add_keeps_inv:
  assumes "registry_inv o'" "\<forall>xs. mset (visit xs) = mset xs"
  shows "registry_inv (snd (AddSkills fs visit cfgs o'))"
proof -
  have "mcp_ok (snd (AddSkills fs visit cfgs o')) = mcp_ok o'" by (auto simp: AddSkills_def mcp_ok_def split: sum.splits)
  moreover have "registry_ok (snd (AddSkills fs visit cfgs o'))"
    by (rule add_keeps_ok [OF _ assms(2)]) (use assms(1) in \<open>simp add: registry_inv_def\<close>)
  ultimately show ?thesis using assms(1) by (simp add: registry_inv_def)
qed

lemma add_dirs_keeps_inv:
  assumes "registry_inv o'" "\<forall>xs. mset (visit xs) = mset xs"
  shows "registry_inv (snd (AddSkillDirs fs visit loadDir runtime fromEnv dirs o'))"
proof -
  obtain c err q where q: "resolveEnvClient fromEnv o' = ((c, err), q)" by (metis surj_pair)
  then have "registry_inv q" using same_registry_inv [OF env_keeps assms(1), of fromEnv] by simp
  from add_keeps_inv [OF this assms(2)] this show ?thesis using assms(1) q by (simp add: AddSkillDirs_def split: sum.split)
qed

lemma registry_inv_step: "registry_inv o' \<Longrightarrow> registry_step o' o'' \<Longrightarrow> registry_inv o''"
proof (erule registry_step.cases)
  assume i: "registry_inv o'"
  show "registry_inv o''" if "o' = p" "o'' = snd (AddSkills fs visit cfgs p)" "\<forall>xs. mset (visit xs) = mset xs" for p fs visit cfgs
    using i that add_keeps_inv by blast
  show "registry_inv o''" if "o' = p" "o'' = snd (AddSkillDirs fs visit loadDir runtime fromEnv dirs p)" "\<forall>xs. mset (visit xs) = mset xs"
    for p fs visit loadDir runtime fromEnv dirs using i that add_dirs_keeps_inv by blast
  show "registry_inv o''" if "o' = p" "o'' = snd (RemoveSkills names p)" for p names
    using i that fold_delete_subset [of names "og_skills p"]
    by (auto simp: registry_inv_def RemoveSkills_def Let_def registry_ok_def mcp_ok_def fold_delete_ok)
  show "registry_inv o''" if "o' = p" "o'' = snd (AddMCPServers servers p)" for p servers
  proof -
    have "og_skills (snd (AddMCPServers servers p)) = og_skills p" by (auto simp: AddMCPServers_def Let_def)
    then show ?thesis using add_servers_keeps [of p servers] i that by (simp add: registry_inv_def registry_ok_def)
  qed
  show "registry_inv o''" if "o' = p" "o'' = snd (orchestrator_Close closeErr p)" for p closeErr
    using i that by (simp add: registry_inv_def registry_ok_def mcp_ok_def orchestrator_Close_def)
  show "registry_inv o''" if "o' = p" "o'' = snd (SetClient bind client p)" for p bind client
    using i that same_registry_inv [OF client_keeps] by blast
  show "registry_inv o''" if "o' = p" "o'' = snd (SetOrchestratorSkill bind df fromEnv sk p)" for p bind df fromEnv sk
    using i that same_registry_inv [OF skill_keeps] by blast
  show "registry_inv o''" if "o' = p" "o'' = p\<lparr>og_configLocked := True\<rparr>" for p
    using i that by (simp add: registry_inv_def registry_ok_def mcp_ok_def)
qed

interpretation registries: inductive_invariant registry_start registry_step registry_inv
proof unfold_locales
  show "registry_inv s" if "registry_start s" for s :: "('a, 'b, 'c) registry"
    using that by (simp add: registry_start_def registry_inv_def registry_ok_def mcp_ok_def)
  show "registry_inv t" if "registry_inv s" "registry_step s t" for s t :: "('a, 'b, 'c) registry"
    by (rule registry_inv_step [OF that])
qed

text \<open>C31. In every reachable registry each skill is registered under its own name, is not bound to a
  conversation, has tools with distinct names, among them every core tool on its own workspace; and the
  MCP servers have distinct names that the index knows.\<close>

theorem registered_skills_wellformed:
  assumes "reach registry_start registry_step o'" "map_get (og_skills o') name = Some reg"
  shows "\<exists>s ws. rg_Skill reg = Some s \<and> sk_Name s = name \<and> name \<noteq> [] \<and> sk_conv s = None \<and> sk_workspace s = Some ws
      \<and> distinct (map (tl_name \<circ> the) (sk_tools s)) \<and> Some ` set (coreTools ws (tools_config (sk_toolSet s))) \<subseteq> set (sk_tools s)
      \<and> distinct (map srv_Name (og_globalMCPServers o'))"
proof -
  have i: "registry_inv o'" by (rule registries.reach_inv [OF assms(1)])
  have "reg_ok reg \<and> effective_name reg = name" using i assms(2) map_get_mem by (fastforce simp: registry_inv_def registry_ok_def)
  then show ?thesis using i by (auto simp: reg_ok_def effective_name_def registry_inv_def mcp_ok_def validateTools_iff)
qed

theorem registered_skills_wellformed_witness:
  "\<exists>(o' :: (unit, string, unit) registry) reg s. reach registry_start registry_step o' \<and> map_get (og_skills o') ''a'' = Some reg \<and> rg_Skill reg = Some s
    \<and> sk_Name s = ''a'' \<and> distinct (map (tl_name \<circ> the) (sk_tools s))"
proof -
  let ?o = "snd (AddSkills play_fs rev [example_reg ''a'' True] empty_registry)"
  have "reach registry_start registry_step empty_registry"
    by (rule reach_start) (simp add: registry_start_def empty_registry_def)
  then have r: "reach registry_start registry_step ?o"
    by (rule reach_step) (rule registry_step.add_skills, simp)
  let ?p = "prepare_all play_fs [] 0 [example_reg ''a'' True]"
  have f: "\<not> isl ?p" "map effective_name (projr ?p) = [''a'']" by code_simp+
  then obtain reg where reg: "?p = Inr [reg]" "effective_name reg = ''a''" by (cases ?p) (auto simp: map_eq_Cons_conv)
  have p: "prepare_all play_fs (og_globalMCPServers empty_registry) 0 [example_reg ''a'' True] = Inr [reg]"
    using reg(1) by (simp only: empty_registry_def registry.simps)
  have c: "candidates (og_skills empty_registry) [reg] name = (if name = ''a'' then [reg] else [])" for name
    by (simp add: candidates_def empty_registry_def reg(2))
  have v: "\<forall>xs. mset (rev xs) = mset xs" by simp
  have ok: "map_ok (og_skills empty_registry)" by (simp add: empty_registry_def)
  have "\<forall>name. candidates (og_skills empty_registry) [reg] name \<noteq> [] \<longrightarrow> unambiguous (candidates (og_skills empty_registry) [reg] name)"
    by (simp add: c unambiguous_def)
  with AddSkills_resolves [OF v ok _ p] obtain m where
    m: "AddSkills play_fs rev [example_reg ''a'' True] empty_registry = ([], empty_registry\<lparr>og_skills := m\<rparr>)"
    "\<forall>name. map_get m name = (if candidates (og_skills empty_registry) [reg] name = [] then None else Some (winner (candidates (og_skills empty_registry) [reg] name)))"
    by auto
  have "map_get m ''a'' = Some (winner [reg])" using m(2) [rule_format, of "''a''"] unfolding c by simp
  then have reg: "map_get (og_skills ?o) ''a'' = Some reg" unfolding m(1) by (simp add: winner_def)
  from registered_skills_wellformed [OF r reg] obtain s where
    "rg_Skill reg = Some s" "sk_Name s = ''a''" "distinct (map (tl_name \<circ> the) (sk_tools s))" by (elim exE conjE)
  with r reg show ?thesis by (intro exI [of _ ?o] exI [of _ reg] exI [of _ s] conjI)
qed

end
