(* ===== verification/Channel_Docs.thy ===== *)
theory Channel_Docs
  imports Front_Matter Go_Filepath Tool_Policy
begin

text \<open>
  The markdown documents that nodes of a runner pass to each other: \<^verbatim>\<open>runner/exchange.go\<close>,
  \<^verbatim>\<open>runner/handoff.go\<close>, \<^verbatim>\<open>runner/memo.go\<close> and \<^verbatim>\<open>runner/channel_document_parse.go\<close>.

  A document has the fields of its front matter and a body, so its record extends the one of the
  front matter.  The YAML encoder and decoder are parameters: \<open>enc\<close> is \<^verbatim>\<open>yaml.Marshal\<close> on the front
  matter, and the codec holds what \<^verbatim>\<open>frontmatter.Parse\<close> uses.
\<close>

section \<open>Data\<close>

definition ChannelKindExchange :: string where "ChannelKindExchange = ''exchange''"
definition ChannelKindHandoff :: string where "ChannelKindHandoff = ''handoff''"
definition ChannelKindMemo :: string where "ChannelKindMemo = ''memo''"

lemmas channel_kinds = ChannelKindExchange_def ChannelKindHandoff_def ChannelKindMemo_def

record channel_header =
  ch_Kind :: string
  ch_Version :: int
  ch_RunnerID :: string
  ch_CreatedAt :: time

definition zero_header :: channel_header where
  "zero_header = \<lparr>ch_Kind = [], ch_Version = 0, ch_RunnerID = [], ch_CreatedAt = 0\<rparr>"

record exchange_front =
  ex_Header :: channel_header
  ex_NodeID :: string
  ex_SkillName :: string
  ex_Title :: string

record exchange_doc = exchange_front + ex_Body :: string

record doc_artifact =
  da_Path :: string
  da_Type :: string
  da_Description :: string

record handoff_front =
  hf_Header :: channel_header
  hf_FromNode :: string
  hf_ToNodes :: "string list"
  hf_Intent :: string
  hf_Artifacts :: "doc_artifact list"

record handoff_doc = handoff_front + hf_Body :: string

record memo_front =
  mm_Header :: channel_header
  mm_NodeID :: string
  mm_SkillName :: string
  mm_Path :: string

record memo_doc = memo_front + mm_Body :: string

definition DocVersion :: int where "DocVersion = 1"

section \<open>What the three kinds share\<close>

text \<open>The defaults that \<^verbatim>\<open>Markdown\<close> sets: the kind and version before the checks, the time after them.\<close>

definition default_kind :: "string \<Rightarrow> channel_header \<Rightarrow> channel_header" where
  "default_kind kind h =
     h\<lparr>ch_Kind := (if ch_Kind h = [] then kind else ch_Kind h), ch_Version := (if ch_Version h = 0 then DocVersion else ch_Version h)\<rparr>"

definition default_time :: "time \<Rightarrow> channel_header \<Rightarrow> channel_header" where
  "default_time now h = h\<lparr>ch_CreatedAt := (if time_IsZero (ch_CreatedAt h) then now else ch_CreatedAt h)\<rparr>"

definition document :: "string \<Rightarrow> string \<Rightarrow> string" where
  "document front body = ''---'' @ [newline] @ front @ ''---'' @ [newline, newline] @ TrimSpace body @ [newline]"

definition render :: "string \<Rightarrow> go_error + string \<Rightarrow> string \<Rightarrow> go_error + string" where
  "render what front body =
     (case front of
        Inl err \<Rightarrow> Inl ((''runner: marshal '' @ what @ '' front matter'') # err)
      | Inr front \<Rightarrow> Inr (document front body))"

definition parse_with ::
  "string \<Rightarrow> ('m, 'f) fm_codec \<Rightarrow> 'f \<Rightarrow> ('f \<Rightarrow> string \<Rightarrow> go_error + 'd) \<Rightarrow> string \<Rightarrow> go_error + 'd" where
  "parse_with what cd zero build raw =
     (case fm_Parse cd [] raw of
        Inl err \<Rightarrow> Inl ((''runner: parse '' @ what @ '' front matter'') # err)
      | Inr (meta, body) \<Rightarrow> build (case meta of Some f \<Rightarrow> f | None \<Rightarrow> zero) (TrimSpace body))"

definition itoa_int :: "int \<Rightarrow> string" where
  "itoa_int z = (if z < 0 then CHR ''-'' # itoa_digits (nat (- z)) else itoa_digits (nat z))"

definition check_header :: "string \<Rightarrow> string \<Rightarrow> channel_header \<Rightarrow> go_error" where
  "check_header what kind h =
     (if ch_Kind h \<noteq> kind then [''runner: '' @ what @ '' kind = '' @ go_quote (ch_Kind h) @ '', want '' @ go_quote kind]
      else if ch_Version h \<noteq> DocVersion then [''runner: '' @ what @ '' version = '' @ itoa_int (ch_Version h) @ '', want '' @ itoa_int DocVersion]
      else [])"

definition must_not_be_empty :: "string \<Rightarrow> string \<Rightarrow> go_error" where
  "must_not_be_empty what field = [''runner: '' @ what @ '' '' @ field @ '' must not be empty'']"

section \<open>Exchange documents\<close>

definition exchange_fields :: "'a exchange_front_scheme \<Rightarrow> go_error" where
  "exchange_fields d =
     (if ch_RunnerID (ex_Header d) = [] then must_not_be_empty ''exchange doc'' ''runner_id''
      else if ex_NodeID d = [] then must_not_be_empty ''exchange doc'' ''node_id''
      else [])"

definition exchange_Markdown :: "(exchange_front \<Rightarrow> go_error + string) \<Rightarrow> time \<Rightarrow> exchange_doc \<Rightarrow> go_error + string" where
  "exchange_Markdown enc now doc =
     (let doc = doc\<lparr>ex_Header := default_kind ChannelKindExchange (ex_Header doc)\<rparr>;
          err = exchange_fields doc
      in if err \<noteq> [] then Inl err
         else
           let doc = doc\<lparr>ex_Header := default_time now (ex_Header doc)\<rparr>
           in render ''exchange doc'' (enc (exchange_front.truncate doc)) (ex_Body doc))"

definition buildExchangeDoc :: "exchange_front \<Rightarrow> string \<Rightarrow> go_error + exchange_doc" where
  "buildExchangeDoc meta body =
     (let err = check_header ''exchange doc'' ChannelKindExchange (ex_Header meta) in
      if err \<noteq> [] then Inl err
      else if exchange_fields meta \<noteq> [] then Inl (exchange_fields meta)
      else if time_IsZero (ch_CreatedAt (ex_Header meta)) then Inl (must_not_be_empty ''exchange doc'' ''created_at'')
      else Inr (exchange_front.extend meta (exchange_doc.fields body)))"

definition zero_exchange :: exchange_front where
  "zero_exchange = \<lparr>ex_Header = zero_header, ex_NodeID = [], ex_SkillName = [], ex_Title = []\<rparr>"

definition ParseExchangeDocMarkdown :: "('m, exchange_front) fm_codec \<Rightarrow> string \<Rightarrow> go_error + exchange_doc" where
  "ParseExchangeDocMarkdown cd raw = parse_with ''exchange doc'' cd zero_exchange buildExchangeDoc raw"

section \<open>Handoff documents\<close>

definition validateHandoffArtifactPath :: "string \<Rightarrow> go_error" where
  "validateHandoffArtifactPath raw =
     (let trimmed = TrimSpace raw; clean = Clean trimmed in
      if trimmed = [] then [''runner: handoff doc artifact path must not be empty'']
      else if trimmed \<noteq> raw then [''runner: handoff doc artifact path must not contain leading or trailing whitespace'']
      else if IsAbs trimmed then [''runner: handoff doc artifact path must be relative: '' @ go_quote trimmed]
      else if clean = dot \<or> clean = dotdot \<or> HasPrefix clean (dotdot @ [slash])
      then [''runner: handoff doc artifact path must not escape workspace: '' @ go_quote trimmed]
      else [])"

fun check_to_nodes :: "string list \<Rightarrow> go_error" where
  "check_to_nodes [] = []"
| "check_to_nodes (to # tos) =
     (if TrimSpace to = [] then [''runner: handoff doc to_nodes must not contain empty values'']
      else if TrimSpace to \<noteq> to then [''runner: handoff doc to_nodes must not contain leading or trailing whitespace'']
      else check_to_nodes tos)"

fun check_artifacts :: "doc_artifact list \<Rightarrow> go_error" where
  "check_artifacts [] = []"
| "check_artifacts (a # as) =
     (let err = validateHandoffArtifactPath (da_Path a) in if err \<noteq> [] then err else check_artifacts as)"

definition handoff_fields :: "'a handoff_front_scheme \<Rightarrow> go_error" where
  "handoff_fields d =
     (if ch_RunnerID (hf_Header d) = [] then must_not_be_empty ''handoff doc'' ''runner_id''
      else if hf_FromNode d = [] then must_not_be_empty ''handoff doc'' ''from_node''
      else if hf_ToNodes d = [] then must_not_be_empty ''handoff doc'' ''to_nodes''
      else if check_to_nodes (hf_ToNodes d) \<noteq> [] then check_to_nodes (hf_ToNodes d)
      else check_artifacts (hf_Artifacts d))"

definition handoff_Markdown :: "(handoff_front \<Rightarrow> go_error + string) \<Rightarrow> time \<Rightarrow> handoff_doc \<Rightarrow> go_error + string" where
  "handoff_Markdown enc now doc =
     (let doc = doc\<lparr>hf_Header := default_kind ChannelKindHandoff (hf_Header doc)\<rparr>;
          err = handoff_fields doc
      in if err \<noteq> [] then Inl err
         else
           let doc = doc\<lparr>hf_Header := default_time now (hf_Header doc)\<rparr>
           in render ''handoff doc'' (enc (handoff_front.truncate doc)) (hf_Body doc))"

definition buildHandoffDoc :: "handoff_front \<Rightarrow> string \<Rightarrow> go_error + handoff_doc" where
  "buildHandoffDoc meta body =
     (let err = check_header ''handoff doc'' ChannelKindHandoff (hf_Header meta) in
      if err \<noteq> [] then Inl err
      else if handoff_fields meta \<noteq> [] then Inl (handoff_fields meta)
      else if time_IsZero (ch_CreatedAt (hf_Header meta)) then Inl (must_not_be_empty ''handoff doc'' ''created_at'')
      else Inr (handoff_front.extend meta (handoff_doc.fields body)))"

definition zero_handoff :: handoff_front where
  "zero_handoff = \<lparr>hf_Header = zero_header, hf_FromNode = [], hf_ToNodes = [], hf_Intent = [], hf_Artifacts = []\<rparr>"

definition ParseHandoffMarkdown :: "('m, handoff_front) fm_codec \<Rightarrow> string \<Rightarrow> go_error + handoff_doc" where
  "ParseHandoffMarkdown cd raw = parse_with ''handoff doc'' cd zero_handoff buildHandoffDoc raw"

section \<open>Memo documents\<close>

definition memo_fields :: "'a memo_front_scheme \<Rightarrow> go_error" where
  "memo_fields d =
     (if ch_RunnerID (mm_Header d) = [] then must_not_be_empty ''memo document'' ''runner_id''
      else if mm_NodeID d = [] then must_not_be_empty ''memo document'' ''node_id''
      else if mm_Path d = [] then must_not_be_empty ''memo document'' ''path''
      else [])"

definition memo_Markdown :: "(memo_front \<Rightarrow> go_error + string) \<Rightarrow> time \<Rightarrow> memo_doc \<Rightarrow> go_error + string" where
  "memo_Markdown enc now doc =
     (let doc = doc\<lparr>mm_Header := default_kind ChannelKindMemo (mm_Header doc)\<rparr>;
          err = memo_fields doc
      in if err \<noteq> [] then Inl err
         else
           let doc = doc\<lparr>mm_Header := default_time now (mm_Header doc)\<rparr>
           in render ''memo'' (enc (memo_front.truncate doc)) (mm_Body doc))"

definition buildMemoDocument :: "memo_front \<Rightarrow> string \<Rightarrow> go_error + memo_doc" where
  "buildMemoDocument meta body =
     (let err = check_header ''memo document'' ChannelKindMemo (mm_Header meta) in
      if err \<noteq> [] then Inl err
      else if memo_fields meta \<noteq> [] then Inl (memo_fields meta)
      else if time_IsZero (ch_CreatedAt (mm_Header meta)) then Inl (must_not_be_empty ''memo document'' ''created_at'')
      else Inr (memo_front.extend meta (memo_doc.fields body)))"

definition zero_memo :: memo_front where
  "zero_memo = \<lparr>mm_Header = zero_header, mm_NodeID = [], mm_SkillName = [], mm_Path = []\<rparr>"

definition ParseMemoMarkdown :: "('m, memo_front) fm_codec \<Rightarrow> string \<Rightarrow> go_error + memo_doc" where
  "ParseMemoMarkdown cd raw = parse_with ''memo'' cd zero_memo buildMemoDocument raw"

section \<open>Documents of any kind\<close>

record channel_front =
  cf_Header :: channel_header
  cf_FromNode :: string
  cf_ToNodes :: "string list"
  cf_Intent :: string
  cf_Artifacts :: "doc_artifact list"
  cf_NodeID :: string
  cf_SkillName :: string
  cf_Title :: string
  cf_Path :: string

definition zero_front :: channel_front where
  "zero_front = \<lparr>cf_Header = zero_header, cf_FromNode = [], cf_ToNodes = [], cf_Intent = [], cf_Artifacts = [],
     cf_NodeID = [], cf_SkillName = [], cf_Title = [], cf_Path = []\<rparr>"

datatype channel_document = HandoffDocument handoff_doc | ExchangeDocument exchange_doc | MemoDoc memo_doc

definition build_channel :: "channel_front \<Rightarrow> string \<Rightarrow> go_error + channel_document" where
  "build_channel meta trimmedBody =
     (if ch_Kind (cf_Header meta) = ChannelKindHandoff then
        map_sum id HandoffDocument (buildHandoffDoc
          \<lparr>hf_Header = cf_Header meta, hf_FromNode = cf_FromNode meta, hf_ToNodes = cf_ToNodes meta,
           hf_Intent = cf_Intent meta, hf_Artifacts = cf_Artifacts meta\<rparr> trimmedBody)
      else if ch_Kind (cf_Header meta) = ChannelKindExchange then
        map_sum id ExchangeDocument (buildExchangeDoc
          \<lparr>ex_Header = cf_Header meta, ex_NodeID = cf_NodeID meta, ex_SkillName = cf_SkillName meta, ex_Title = cf_Title meta\<rparr> trimmedBody)
      else if ch_Kind (cf_Header meta) = ChannelKindMemo then
        map_sum id MemoDoc (buildMemoDocument
          \<lparr>mm_Header = cf_Header meta, mm_NodeID = cf_NodeID meta, mm_SkillName = cf_SkillName meta, mm_Path = cf_Path meta\<rparr> trimmedBody)
      else Inl [''runner: channel document kind = '' @ go_quote (ch_Kind (cf_Header meta)) @ '', want handoff, exchange, or memo''])"

definition parseChannelDocument :: "('m, channel_front) fm_codec \<Rightarrow> string \<Rightarrow> go_error + channel_document" where
  "parseChannelDocument cd raw = parse_with ''channel doc'' cd zero_front build_channel raw"

end
