(* ===== verification/Channel_Docs_Theorems.thy ===== *)
theory Channel_Docs_Theorems
  imports Channel_Docs
begin

text \<open>
  A document that is written is read back.  The locale states once what \<^verbatim>\<open>Markdown\<close>, the builder and
  the parser of a kind promise each other, for exchange, handoff and memo documents alike; the
  round trip follows from it.
\<close>

section \<open>The contract of a kind\<close>

definition yaml_format :: fm_format where
  "yaml_format = \<lparr>ff_start = ''---'', ff_end = ''---'', ff_toml = False\<rparr>"

definition fill :: "string \<Rightarrow> time \<Rightarrow> channel_header \<Rightarrow> channel_header" where
  "fill kind now h = default_time now (default_kind kind h)"

definition header_ok :: "string \<Rightarrow> channel_header \<Rightarrow> bool" where
  "header_ok kind h \<longleftrightarrow> ch_Kind h = kind \<and> ch_Version h = DocVersion \<and> \<not> time_IsZero (ch_CreatedAt h)"

text \<open>The encoded front matter ends its lines, and none of them reads like the closing rule.\<close>

definition yaml_text :: "string \<Rightarrow> bool" where
  "yaml_text t \<longleftrightarrow> (\<exists>ls. t = unlines ls \<and> open_lines yaml_format ls)"

lemma parse_document:
  assumes "yaml_text t" "yaml_Unmarshal cd t = Inr f"
  shows "parse_with what cd zero build (document t body) = build f (TrimSpace body)"
proof -
  obtain ls where ls: "t = unlines ls" "open_lines yaml_format ls" using assms(1) by (auto simp: yaml_text_def)
  have f: "yaml_format \<in> set fm_formats" by (simp add: fm_formats_def yaml_format_def)
  have rule: "CHR 0x0A \<notin> set ''---''" "TrimSpace (''---'' @ [CHR 0x0A]) = ff_start yaml_format" "TrimSpace (''---'' @ [CHR 0x0A]) = ff_end yaml_format"
    by code_simp+
  have "fm_Parse cd [] (unlines [] @ ''---'' @ CHR 0x0A # unlines ls @ ''---'' @ CHR 0x0A # (CHR 0x0A # TrimSpace body @ [CHR 0x0A]))
      = Inr (Some f, CHR 0x0A # TrimSpace body @ [CHR 0x0A])"
    by (rule parse_block [OF f _ rule(1,2) ls(2) rule(1,3)]) (use assms(2) ls(1) in \<open>simp_all add: fm_unmarshal_def yaml_format_def\<close>)
  then show ?thesis by (simp add: parse_with_def document_def newline_def ls(1) TrimSpace_newlines unlines_def)
qed

locale channel_kind =
  fixes kind :: string
    and header :: "'d \<Rightarrow> channel_header"
    and set_header :: "channel_header \<Rightarrow> 'd \<Rightarrow> 'd"
    and body :: "'d \<Rightarrow> string"
    and set_body :: "string \<Rightarrow> 'd \<Rightarrow> 'd"
    and front :: "'d \<Rightarrow> 'f"
    and fields :: "'d \<Rightarrow> go_error"
    and Markdown :: "('f \<Rightarrow> go_error + string) \<Rightarrow> time \<Rightarrow> 'd \<Rightarrow> go_error + string"
    and build :: "'f \<Rightarrow> string \<Rightarrow> go_error + 'd"
  assumes Markdown_Inr: "Markdown enc now d = Inr raw \<longleftrightarrow>
      (fields (set_header (fill kind now (header d)) d) = []
       \<and> (\<exists>t. enc (front (set_header (fill kind now (header d)) d)) = Inr t \<and> raw = document t (body d)))"
    and build_Inr: "header_ok kind (header d) \<Longrightarrow> fields d = [] \<Longrightarrow> build (front d) b = Inr (set_body b d)"
    and build_Inl: "\<not> header_ok kind (header d) \<Longrightarrow> isl (build (front d) b)"
    and header_set: "header (set_header h d) = h"
begin

lemma markdown_parses:
  assumes "Markdown enc now d = Inr raw" and filled: "d' = set_header (fill kind now (header d)) d"
    and "\<And>t. enc (front d') = Inr t \<Longrightarrow> yaml_text t \<and> yaml_Unmarshal cd t = Inr (front d')"
  shows "if header_ok kind (header d') then parse_with what cd zero build raw = Inr (set_body (TrimSpace (body d)) d')
    else isl (parse_with what cd zero build raw)"
proof -
  from assms(1) obtain t where t: "fields d' = []" "enc (front d') = Inr t" "raw = document t (body d)"
    by (auto simp: Markdown_Inr filled)
  have "parse_with what cd zero build raw = build (front d') (TrimSpace (body d))"
    unfolding t(3) by (rule parse_document) (use assms(3) t(2) in simp_all)
  then show ?thesis using build_Inr [OF _ t(1)] build_Inl by simp
qed

end

lemma check_header_Nil: "check_header what kind h = [] \<longleftrightarrow> ch_Kind h = kind \<and> ch_Version h = DocVersion"
  by (simp add: check_header_def)

lemmas kind_defs = Let_def render_def fill_def must_not_be_empty_def header_ok_def

interpretation exchange_docs: channel_kind ChannelKindExchange ex_Header "\<lambda>h d. d\<lparr>ex_Header := h\<rparr>" ex_Body "\<lambda>b d. d\<lparr>ex_Body := b\<rparr>"
  exchange_front.truncate exchange_fields exchange_Markdown buildExchangeDoc
  by unfold_locales (auto simp: exchange_Markdown_def buildExchangeDoc_def kind_defs exchange_fields_def check_header_Nil default_time_def
    exchange_front.defs exchange_doc.defs split: sum.splits if_splits)

interpretation memo_docs: channel_kind ChannelKindMemo mm_Header "\<lambda>h d. d\<lparr>mm_Header := h\<rparr>" mm_Body "\<lambda>b d. d\<lparr>mm_Body := b\<rparr>"
  memo_front.truncate memo_fields memo_Markdown buildMemoDocument
  by unfold_locales (auto simp: memo_Markdown_def buildMemoDocument_def kind_defs memo_fields_def check_header_Nil default_time_def
    memo_front.defs memo_doc.defs split: sum.splits if_splits)

interpretation handoff_docs: channel_kind ChannelKindHandoff hf_Header "\<lambda>h d. d\<lparr>hf_Header := h\<rparr>" hf_Body "\<lambda>b d. d\<lparr>hf_Body := b\<rparr>"
  handoff_front.truncate handoff_fields handoff_Markdown buildHandoffDoc
  by unfold_locales (auto simp: handoff_Markdown_def buildHandoffDoc_def kind_defs handoff_fields_def check_header_Nil default_time_def
    handoff_front.defs handoff_doc.defs split: sum.splits if_splits)

section \<open>Any kind\<close>

record doc_encoders =
  en_handoff :: "handoff_front \<Rightarrow> go_error + string"
  en_exchange :: "exchange_front \<Rightarrow> go_error + string"
  en_memo :: "memo_front \<Rightarrow> go_error + string"

primrec channel_Markdown :: "doc_encoders \<Rightarrow> time \<Rightarrow> channel_document \<Rightarrow> go_error + string" where
  "channel_Markdown en now (HandoffDocument d) = handoff_Markdown (en_handoff en) now d"
| "channel_Markdown en now (ExchangeDocument d) = exchange_Markdown (en_exchange en) now d"
| "channel_Markdown en now (MemoDoc d) = memo_Markdown (en_memo en) now d"

text \<open>What is expected back: the defaults are set and the body is trimmed.\<close>

primrec written :: "time \<Rightarrow> channel_document \<Rightarrow> channel_document" where
  "written now (HandoffDocument d) =
     HandoffDocument (d\<lparr>hf_Header := fill ChannelKindHandoff now (hf_Header d), hf_Body := TrimSpace (hf_Body d)\<rparr>)"
| "written now (ExchangeDocument d) =
     ExchangeDocument (d\<lparr>ex_Header := fill ChannelKindExchange now (ex_Header d), ex_Body := TrimSpace (ex_Body d)\<rparr>)"
| "written now (MemoDoc d) = MemoDoc (d\<lparr>mm_Header := fill ChannelKindMemo now (mm_Header d), mm_Body := TrimSpace (mm_Body d)\<rparr>)"

text \<open>The front matter as the encoder of its kind writes it, and as the common decoder should read it.\<close>

primrec front_text :: "doc_encoders \<Rightarrow> channel_document \<Rightarrow> go_error + string" where
  "front_text en (HandoffDocument d) = en_handoff en (handoff_front.truncate d)"
| "front_text en (ExchangeDocument d) = en_exchange en (exchange_front.truncate d)"
| "front_text en (MemoDoc d) = en_memo en (memo_front.truncate d)"

primrec common_front :: "channel_document \<Rightarrow> channel_front" where
  "common_front (HandoffDocument d) = zero_front\<lparr>cf_Header := hf_Header d, cf_FromNode := hf_FromNode d, cf_ToNodes := hf_ToNodes d,
     cf_Intent := hf_Intent d, cf_Artifacts := hf_Artifacts d\<rparr>"
| "common_front (ExchangeDocument d) = zero_front\<lparr>cf_Header := ex_Header d, cf_NodeID := ex_NodeID d, cf_SkillName := ex_SkillName d,
     cf_Title := ex_Title d\<rparr>"
| "common_front (MemoDoc d) = zero_front\<lparr>cf_Header := mm_Header d, cf_NodeID := mm_NodeID d, cf_SkillName := mm_SkillName d,
     cf_Path := mm_Path d\<rparr>"

text \<open>The header leaves kind and version to the defaults or gives the ones of its type.\<close>

primrec own_header :: "channel_document \<Rightarrow> bool" where
  "own_header (HandoffDocument d) \<longleftrightarrow> ch_Kind (hf_Header d) \<in> {[], ChannelKindHandoff} \<and> ch_Version (hf_Header d) \<in> {0, DocVersion}"
| "own_header (ExchangeDocument d) \<longleftrightarrow> ch_Kind (ex_Header d) \<in> {[], ChannelKindExchange} \<and> ch_Version (ex_Header d) \<in> {0, DocVersion}"
| "own_header (MemoDoc d) \<longleftrightarrow> ch_Kind (mm_Header d) \<in> {[], ChannelKindMemo} \<and> ch_Version (mm_Header d) \<in> {0, DocVersion}"

lemma fill_ok:
  "ch_Kind h \<in> {[], kind} \<Longrightarrow> ch_Version h \<in> {0, DocVersion} \<Longrightarrow> \<not> time_IsZero now \<Longrightarrow> header_ok kind (fill kind now h)"
  by (auto simp: header_ok_def fill_def default_time_def default_kind_def)

lemma build_common:
  "header_ok ChannelKindHandoff (hf_Header d) \<Longrightarrow> handoff_fields d = [] \<Longrightarrow>
     build_channel (common_front (HandoffDocument d)) b = Inr (HandoffDocument (d\<lparr>hf_Body := b\<rparr>))"
  "header_ok ChannelKindExchange (ex_Header e) \<Longrightarrow> exchange_fields e = [] \<Longrightarrow>
     build_channel (common_front (ExchangeDocument e)) b = Inr (ExchangeDocument (e\<lparr>ex_Body := b\<rparr>))"
  "header_ok ChannelKindMemo (mm_Header m) \<Longrightarrow> memo_fields m = [] \<Longrightarrow>
     build_channel (common_front (MemoDoc m)) b = Inr (MemoDoc (m\<lparr>mm_Body := b\<rparr>))"
proof -
  show "build_channel (common_front (HandoffDocument d)) b = Inr (HandoffDocument (d\<lparr>hf_Body := b\<rparr>))"
    if "header_ok ChannelKindHandoff (hf_Header d)" "handoff_fields d = []"
    using handoff_docs.build_Inr [OF that, of b] that(1) by (simp add: build_channel_def header_ok_def handoff_front.defs zero_front_def)
  show "build_channel (common_front (ExchangeDocument e)) b = Inr (ExchangeDocument (e\<lparr>ex_Body := b\<rparr>))"
    if "header_ok ChannelKindExchange (ex_Header e)" "exchange_fields e = []"
    using exchange_docs.build_Inr [OF that, of b] that(1)
    by (simp add: build_channel_def header_ok_def exchange_front.defs zero_front_def channel_kinds)
  show "build_channel (common_front (MemoDoc m)) b = Inr (MemoDoc (m\<lparr>mm_Body := b\<rparr>))"
    if "header_ok ChannelKindMemo (mm_Header m)" "memo_fields m = []"
    using memo_docs.build_Inr [OF that, of b] that(1)
    by (simp add: build_channel_def header_ok_def memo_front.defs zero_front_def channel_kinds)
qed

text \<open>C32. A handoff, exchange or memo document that \<^verbatim>\<open>Markdown\<close> writes is read back by the runner's common
  parser as the same document, with the defaults set and the body trimmed, when the YAML text of its
  front matter has no line that reads like the closing rule and the decoder inverts the encoder on it.\<close>

theorem channel_documents_roundtrip:
  assumes "channel_Markdown en now doc = Inr raw" "own_header doc" "\<not> time_IsZero now"
    and "\<And>t. front_text en (written now doc) = Inr t \<Longrightarrow> yaml_text t \<and> yaml_Unmarshal cd t = Inr (common_front (written now doc))"
  shows "parseChannelDocument cd raw = Inr (written now doc)"
proof (cases doc)
  case (HandoffDocument d)
  let ?d = "d\<lparr>hf_Header := fill ChannelKindHandoff now (hf_Header d)\<rparr>"
  from assms(1) obtain t where t: "handoff_fields ?d = []" "en_handoff en (handoff_front.truncate ?d) = Inr t" "raw = document t (hf_Body d)"
    by (auto simp: HandoffDocument handoff_docs.Markdown_Inr)
  have y: "yaml_text t" "yaml_Unmarshal cd t = Inr (common_front (HandoffDocument ?d))"
    using assms(4) [of t] t(2) by (simp_all add: HandoffDocument handoff_front.defs)
  have "header_ok ChannelKindHandoff (hf_Header ?d)" using assms(2,3) fill_ok by (auto simp: HandoffDocument)
  from build_common(1) [OF this t(1)] show ?thesis
    unfolding parseChannelDocument_def t(3) parse_document [OF y] by (simp add: HandoffDocument)
next
  case (ExchangeDocument d)
  let ?d = "d\<lparr>ex_Header := fill ChannelKindExchange now (ex_Header d)\<rparr>"
  from assms(1) obtain t where t: "exchange_fields ?d = []" "en_exchange en (exchange_front.truncate ?d) = Inr t" "raw = document t (ex_Body d)"
    by (auto simp: ExchangeDocument exchange_docs.Markdown_Inr)
  have y: "yaml_text t" "yaml_Unmarshal cd t = Inr (common_front (ExchangeDocument ?d))"
    using assms(4) [of t] t(2) by (simp_all add: ExchangeDocument exchange_front.defs)
  have "header_ok ChannelKindExchange (ex_Header ?d)" using assms(2,3) fill_ok by (auto simp: ExchangeDocument)
  from build_common(2) [OF this t(1)] show ?thesis
    unfolding parseChannelDocument_def t(3) parse_document [OF y] by (simp add: ExchangeDocument)
next
  case (MemoDoc d)
  let ?d = "d\<lparr>mm_Header := fill ChannelKindMemo now (mm_Header d)\<rparr>"
  from assms(1) obtain t where t: "memo_fields ?d = []" "en_memo en (memo_front.truncate ?d) = Inr t" "raw = document t (mm_Body d)"
    by (auto simp: MemoDoc memo_docs.Markdown_Inr)
  have y: "yaml_text t" "yaml_Unmarshal cd t = Inr (common_front (MemoDoc ?d))"
    using assms(4) [of t] t(2) by (simp_all add: MemoDoc memo_front.defs)
  have "header_ok ChannelKindMemo (mm_Header ?d)" using assms(2,3) fill_ok by (auto simp: MemoDoc)
  from build_common(3) [OF this t(1)] show ?thesis
    unfolding parseChannelDocument_def t(3) parse_document [OF y] by (simp add: MemoDoc)
qed

definition example_handoff :: handoff_doc where
  "example_handoff = \<lparr>hf_Header = \<lparr>ch_Kind = [], ch_Version = 0, ch_RunnerID = ''r'', ch_CreatedAt = 0\<rparr>, hf_FromNode = ''a'',
     hf_ToNodes = [''b''], hf_Intent = ''go on'', hf_Artifacts = [\<lparr>da_Path = ''downstream/artifacts/x'', da_Type = ''file'', da_Description = []\<rparr>],
     hf_Body = '' text '' @ [newline]\<rparr>"

definition example_encoders :: doc_encoders where
  "example_encoders = \<lparr>en_handoff = (\<lambda>f. Inr (''from_node: '' @ hf_FromNode f @ [newline])), en_exchange = (\<lambda>_. Inl []), en_memo = (\<lambda>_. Inl [])\<rparr>"

definition example_codec :: "(string, channel_front) fm_codec" where
  "example_codec = \<lparr>yaml_Unmarshal = (\<lambda>t. if HasPrefix t ''from_node: ''
       then Inr (common_front (written 5 (HandoffDocument (example_handoff\<lparr>hf_FromNode := butlast (drop 11 t)\<rparr>)))) else Inl [''yaml: error'']),
     yaml_Marshal = Inr, toml_Decode = Inr\<rparr>"

theorem channel_documents_roundtrip_witness:
  "\<exists>raw d. channel_Markdown example_encoders 5 (HandoffDocument example_handoff) = Inr raw
    \<and> parseChannelDocument example_codec raw = Inr (HandoffDocument d) \<and> hf_Body d = ''text'' \<and> ch_CreatedAt (hf_Header d) = 5"
proof -
  let ?doc = "HandoffDocument example_handoff"
  have "\<not> isl (channel_Markdown example_encoders 5 ?doc)" by code_simp
  then obtain raw where raw: "channel_Markdown example_encoders 5 ?doc = Inr raw" by (metis sum.collapse(2))
  have t: "front_text example_encoders (written 5 ?doc) = Inr (unlines [''from_node: a''])" by code_simp
  have u: "HasPrefix (unlines [''from_node: a'']) ''from_node: ''" "butlast (drop 11 (unlines [''from_node: a''])) = hf_FromNode example_handoff" by code_simp+
  have "open_lines yaml_format [''from_node: a'']" by code_simp
  then have y: "yaml_text t \<and> yaml_Unmarshal example_codec t = Inr (common_front (written 5 ?doc))"
    if "front_text example_encoders (written 5 ?doc) = Inr t" for t
    using that u unfolding t yaml_text_def by (auto simp: example_codec_def)
  have "own_header ?doc" "\<not> time_IsZero 5" by code_simp+
  from channel_documents_roundtrip [OF raw this y] have "parseChannelDocument example_codec raw = Inr (written 5 ?doc)" .
  moreover have "TrimSpace (hf_Body example_handoff) = ''text''" "ch_CreatedAt (fill ChannelKindHandoff 5 (hf_Header example_handoff)) = 5" by code_simp+
  ultimately show ?thesis using raw by simp
qed

text \<open>A line of the front matter that reads like the closing rule, as a literal block of YAML may contain
  one, ends it: the rest of the metadata becomes part of the body.\<close>

theorem rule_line_cuts_front_matter:
  assumes "open_lines yaml_format ls" "CHR 0x0A \<notin> set l" "TrimSpace (l @ [CHR 0x0A]) = ''---''" "yaml_Unmarshal cd (unlines ls) = Inr f"
  shows "parse_with what cd zero build (document (unlines (ls @ l # rest)) body)
    = build f (TrimSpace (unlines rest @ ''---'' @ [newline, newline] @ TrimSpace body @ [newline]))"
proof -
  have f: "yaml_format \<in> set fm_formats" by (simp add: fm_formats_def yaml_format_def)
  have rule: "CHR 0x0A \<notin> set ''---''" "TrimSpace (''---'' @ [CHR 0x0A]) = ff_start yaml_format" by code_simp+
  let ?b = "unlines rest @ ''---'' @ [newline, newline] @ TrimSpace body @ [newline]"
  have "fm_Parse cd [] (unlines [] @ ''---'' @ CHR 0x0A # unlines ls @ l @ CHR 0x0A # ?b) = Inr (Some f, ?b)"
    by (rule parse_block [OF f _ rule assms(1,2)]) (use assms(3,4) in \<open>simp_all add: fm_unmarshal_def yaml_format_def\<close>)
  then show ?thesis by (simp add: parse_with_def document_def newline_def unlines_def)
qed

text \<open>A document whose kind or version its own parser refuses is written all the same.\<close>

theorem foreign_kind_is_written:
  "\<exists>raw. memo_Markdown (\<lambda>_. Inr []) 5 \<lparr>mm_Header = \<lparr>ch_Kind = ChannelKindExchange, ch_Version = 7, ch_RunnerID = ''r'', ch_CreatedAt = 0\<rparr>,
      mm_NodeID = ''a'', mm_SkillName = [], mm_Path = ''p'', mm_Body = []\<rparr> = Inr raw"
  by (simp add: memo_docs.Markdown_Inr memo_fields_def fill_def default_time_def default_kind_def)

end
