(* ===== verification/Runner_Workspace.thy ===== *)
theory Runner_Workspace
  imports Channel_Docs Workspace
begin

text \<open>
  The directories a runner gives to its nodes, \<^verbatim>\<open>runner/workspace.go\<close>, \<^verbatim>\<open>runner/runtime_paths.go\<close> and
  \<^verbatim>\<open>runner/workspace_binding.go\<close>, and the artifacts of handoff documents in them,
  \<^verbatim>\<open>runner/handoff_artifacts.go\<close>.

  The operations of package \<^verbatim>\<open>os\<close> act on a world \<open>'w\<close> and may fail at any call.  \<^verbatim>\<open>WalkDir\<close> is what it
  presents to its function: a path with its kind, or an error.
\<close>

section \<open>The environment\<close>

datatype file_info = NoFile | InfoErr go_error | FileInfo bool bool   \<comment> \<open>is a symbolic link, is a directory\<close>

record 'w os_env =
  oe_fs :: "'w \<Rightarrow> fs"
  oe_Stat :: "string \<Rightarrow> 'w \<Rightarrow> file_info"
  oe_Lstat :: "string \<Rightarrow> 'w \<Rightarrow> file_info"
  oe_MkdirAll :: "string \<Rightarrow> 'w \<Rightarrow> go_error \<times> 'w"
  oe_RemoveAll :: "string \<Rightarrow> 'w \<Rightarrow> go_error \<times> 'w"
  oe_Symlink :: "string \<Rightarrow> string \<Rightarrow> 'w \<Rightarrow> go_error \<times> 'w"
  oe_WalkDir :: "string \<Rightarrow> 'w \<Rightarrow> (string \<times> (go_error + bool)) list"   \<comment> \<open>is it a directory\<close>

text \<open>\<^verbatim>\<open>fmt.Errorf("...: %w", err)\<close>.\<close>

definition wrap :: "string \<Rightarrow> go_error \<Rightarrow> go_error" where
  "wrap msg err = msg # err"

section \<open>The layout\<close>

record skill_ws =
  sw_NodeID :: string
  sw_Root :: string
  sw_MemoDir :: string
  sw_UpstreamDir :: string
  sw_DownstreamDir :: string
  sw_ScratchDir :: string
  sw_accessibleDirs :: "string list"

record runner_ws =
  rw_globalRoot :: string
  rw_runnerID :: string
  rw_root :: string
  rw_exchange :: string
  rw_archive :: string
  rw_skills :: "(string, skill_ws) gomap"

definition ensureCanonicalDir :: "'w os_env \<Rightarrow> string \<Rightarrow> 'w \<Rightarrow> (go_error + string) \<times> 'w" where
  "ensureCanonicalDir e root w =
     (if root = [] then (Inl [''runner: workspace root is required''], w)
      else
        (case path_Abs (oe_fs e w) root of
           Inl err \<Rightarrow> (Inl err, w)
         | Inr absRoot \<Rightarrow>
             (case oe_MkdirAll e absRoot w of (err, w) \<Rightarrow>
                if err \<noteq> [] then (Inl err, w)
                else
                  (case fs_EvalSymlinks (oe_fs e w) absRoot of
                     Inl err \<Rightarrow> (Inl err, w)
                   | Inr real \<Rightarrow>
                       (case oe_Stat e real w of
                          NoFile \<Rightarrow> (Inl [''file does not exist''], w)
                        | InfoErr err \<Rightarrow> (Inl err, w)
                        | FileInfo _ isDir \<Rightarrow>
                            if \<not> isDir then (Inl [''runner: workspace root is not a directory''], w) else (Inr real, w))))))"

definition validateRulePath :: "string \<Rightarrow> go_error + string" where
  "validateRulePath subdir =
     (if subdir = [] then Inl [''runner: path rule returned empty path'']
      else if IsAbs subdir then Inl [''runner: path rule returned absolute path '' @ go_quote subdir]
      else
        let clean = Clean subdir in
        if clean = dot then Inl [''runner: path rule returned empty path'']
        else if Contains clean [slash] then Inl [''runner: path rule must return a single path element '' @ go_quote clean]
        else Inr clean)"

definition validateNodeID :: "string \<Rightarrow> go_error" where
  "validateNodeID nodeID =
     (if nodeID = [] then [''runner: node id is required'']
      else if Contains nodeID [slash] \<or> nodeID = dot \<or> nodeID = dotdot then [''runner: invalid node id '' @ go_quote nodeID]
      else [])"

definition defaultWorkspacePathRule :: "string \<Rightarrow> string" where
  "defaultWorkspacePathRule runnerID = ''task_'' @ runnerID"

fun mkdirs :: "'w os_env \<Rightarrow> string list \<Rightarrow> 'w \<Rightarrow> go_error \<times> 'w" where
  "mkdirs e [] w = ([], w)"
| "mkdirs e (dir # dirs) w =
     (case oe_MkdirAll e dir w of (err, w) \<Rightarrow>
        if err \<noteq> [] then (wrap ''runner: create skill workspace dir'' err, w) else mkdirs e dirs w)"

definition skill_layout :: "string \<Rightarrow> string \<Rightarrow> string \<Rightarrow> skill_ws" where
  "skill_layout skillsRoot exchange nodeID =
     (let skillRoot = path_Join [skillsRoot, nodeID];
          memo = path_Join [skillRoot, ''memo'']; upstream = path_Join [skillRoot, ''upstream''];
          downstream = path_Join [skillRoot, ''downstream'']; scratch = path_Join [skillRoot, ''scratch'']
      in \<lparr>sw_NodeID = nodeID, sw_Root = skillRoot, sw_MemoDir = memo, sw_UpstreamDir = upstream, sw_DownstreamDir = downstream,
          sw_ScratchDir = scratch, sw_accessibleDirs = [memo, upstream, downstream, scratch, exchange]\<rparr>)"

fun provision_skills ::
  "'w os_env \<Rightarrow> string \<Rightarrow> string \<Rightarrow> string list \<Rightarrow> (string, skill_ws) gomap \<Rightarrow> 'w \<Rightarrow> (go_error + (string, skill_ws) gomap) \<times> 'w" where
  "provision_skills e skillsRoot exchange [] skills w = (Inr skills, w)"
| "provision_skills e skillsRoot exchange (nodeID # nodeIDs) skills w =
     (let err = validateNodeID nodeID in
      if err \<noteq> [] then (Inl err, w)
      else
        let sk = skill_layout skillsRoot exchange nodeID in
        (case mkdirs e [sw_MemoDir sk, sw_UpstreamDir sk, sw_DownstreamDir sk, sw_ScratchDir sk] w of (err, w) \<Rightarrow>
           if err \<noteq> [] then (Inl err, w)
           else provision_skills e skillsRoot exchange nodeIDs (map_set skills nodeID sk) w))"

definition ProvisionWorkspace ::
  "'w os_env \<Rightarrow> string \<Rightarrow> string \<Rightarrow> string list \<Rightarrow> (string \<Rightarrow> string) option \<Rightarrow> 'w \<Rightarrow> (go_error + runner_ws) \<times> 'w" where
  "ProvisionWorkspace e globalRoot runnerID nodeIDs rule w =
     (case ensureCanonicalDir e globalRoot w of
        (Inl err, w) \<Rightarrow> (Inl (wrap ''runner: resolve workspace root'' err), w)
      | (Inr root, w) \<Rightarrow>
          if runnerID = [] then (Inl [''runner: runner id is required''], w)
          else
            (case validateRulePath (case rule of None \<Rightarrow> defaultWorkspacePathRule runnerID | Some f \<Rightarrow> f runnerID) of
               Inl err \<Rightarrow> (Inl err, w)
             | Inr subdir \<Rightarrow>
                 let runnerRoot = path_Join [root, subdir] in
                 if \<not> pathWithinRoot root runnerRoot then (Inl [''runner: path rule output '' @ go_quote subdir @ '' escapes workspace root''], w)
                 else
                   (case oe_Stat e runnerRoot w of
                      FileInfo _ _ \<Rightarrow> (Inl [''runner: workspace path collision: '' @ runnerRoot], w)
                    | InfoErr err \<Rightarrow> (Inl (wrap ''runner: stat workspace root'' err), w)
                    | NoFile \<Rightarrow>
                        let exchange = path_Join [runnerRoot, ''exchange'']; skillsRoot = path_Join [runnerRoot, ''skills''];
                            archive = path_Join [runnerRoot, ''archive'']
                        in (case oe_MkdirAll e exchange w of (err, w) \<Rightarrow>
                              if err \<noteq> [] then (Inl (wrap ''runner: create exchange dir'' err), w)
                              else
                                (case oe_MkdirAll e skillsRoot w of (err, w) \<Rightarrow>
                                   if err \<noteq> [] then (Inl (wrap ''runner: create skills dir'' err), w)
                                   else
                                     (case oe_MkdirAll e archive w of (err, w) \<Rightarrow>
                                        if err \<noteq> [] then (Inl (wrap ''runner: create archive dir'' err), w)
                                        else
                                          (case provision_skills e skillsRoot exchange nodeIDs [] w of
                                             (Inl err, w) \<Rightarrow> (Inl err, w)
                                           | (Inr skills, w) \<Rightarrow>
                                               (Inr \<lparr>rw_globalRoot = root, rw_runnerID = runnerID, rw_root = runnerRoot, rw_exchange = exchange,
                                                     rw_archive = archive, rw_skills = skills\<rparr>, w))))))))"

definition ws_Skill :: "runner_ws option \<Rightarrow> string \<Rightarrow> skill_ws option" where
  "ws_Skill ws nodeID = (case ws of None \<Rightarrow> None | Some ws \<Rightarrow> map_get (rw_skills ws) nodeID)"

definition ws_AccessibleDirs :: "runner_ws option \<Rightarrow> string \<Rightarrow> go_error + string list" where
  "ws_AccessibleDirs ws nodeID =
     (case ws_Skill ws nodeID of
        None \<Rightarrow> Inl [''runner: unknown workspace skill '' @ go_quote nodeID]
      | Some sk \<Rightarrow> Inr (sw_accessibleDirs sk))"

section \<open>Handing over\<close>

definition symlinkFileIfExists :: "'w os_env \<Rightarrow> string \<Rightarrow> string \<Rightarrow> 'w \<Rightarrow> go_error \<times> 'w" where
  "symlinkFileIfExists e src dst w =
     (case oe_Lstat e src w of
        NoFile \<Rightarrow> ([], w)
      | InfoErr err \<Rightarrow> (wrap (''runner: stat source file '' @ go_quote src) err, w)
      | FileInfo isLink isDir \<Rightarrow>
          if isLink then ([''runner: source file '' @ go_quote src @ '' must not be a symbolic link''], w)
          else if isDir then ([''runner: source '' @ go_quote src @ '' is a directory''], w)
          else
            (case oe_MkdirAll e (path_Dir dst) w of (err, w) \<Rightarrow>
               if err \<noteq> [] then (wrap ''runner: create destination parent'' err, w)
               else
                 (case oe_Symlink e src dst w of (err, w) \<Rightarrow>
                    if err \<noteq> [] then (wrap (''runner: symlink file '' @ go_quote src @ '' -> '' @ go_quote dst) err, w) else ([], w))))"

definition link_entry :: "'w os_env \<Rightarrow> string \<Rightarrow> string \<Rightarrow> string \<Rightarrow> go_error + bool \<Rightarrow> 'w \<Rightarrow> go_error \<times> 'w" where
  "link_entry e src dst path d w =
     (case d of
        Inl walkErr \<Rightarrow> (walkErr, w)
      | Inr isDir \<Rightarrow>
          (case oe_Lstat e path w of
             NoFile \<Rightarrow> ([''file does not exist''], w)
           | InfoErr err \<Rightarrow> (err, w)
           | FileInfo isLink _ \<Rightarrow>
               if isLink then ([''runner: source path '' @ go_quote path @ '' must not be a symbolic link''], w)
               else
                 (case path_Rel src path of
                    Inl err \<Rightarrow> (err, w)
                  | Inr rel \<Rightarrow>
                      let target = path_Join [dst, rel] in
                      if isDir then oe_MkdirAll e target w else symlinkFileIfExists e path target w)))"

fun link_entries :: "'w os_env \<Rightarrow> string \<Rightarrow> string \<Rightarrow> (string \<times> (go_error + bool)) list \<Rightarrow> 'w \<Rightarrow> go_error \<times> 'w" where
  "link_entries e src dst [] w = ([], w)"
| "link_entries e src dst ((path, d) # entries) w =
     (case link_entry e src dst path d w of (err, w) \<Rightarrow> if err \<noteq> [] then (err, w) else link_entries e src dst entries w)"

definition symlinkTreeIfExists :: "'w os_env \<Rightarrow> string \<Rightarrow> string \<Rightarrow> 'w \<Rightarrow> go_error \<times> 'w" where
  "symlinkTreeIfExists e src dst w =
     (case oe_Lstat e src w of
        NoFile \<Rightarrow> ([], w)
      | InfoErr err \<Rightarrow> (wrap (''runner: stat source dir '' @ go_quote src) err, w)
      | FileInfo isLink isDir \<Rightarrow>
          if isLink then ([''runner: source dir '' @ go_quote src @ '' must not be a symbolic link''], w)
          else if \<not> isDir then ([''runner: source '' @ go_quote src @ '' is not a directory''], w)
          else link_entries e src dst (oe_WalkDir e src w) w)"

definition ws_Handoff :: "'w os_env \<Rightarrow> runner_ws option \<Rightarrow> string \<Rightarrow> string \<Rightarrow> 'w \<Rightarrow> go_error \<times> 'w" where
  "ws_Handoff e ws producerID successorID w =
     (case ws_Skill ws producerID of
        None \<Rightarrow> ([''runner: unknown producer skill '' @ go_quote producerID], w)
      | Some producer \<Rightarrow>
          (case ws_Skill ws successorID of
             None \<Rightarrow> ([''runner: unknown successor skill '' @ go_quote successorID], w)
           | Some successor \<Rightarrow>
               let dst = path_Join [sw_UpstreamDir successor, producerID] in
               (case oe_RemoveAll e dst w of (err, w) \<Rightarrow>
                  if err \<noteq> [] then (wrap ''runner: reset upstream route dir'' err, w)
                  else
                    (case oe_MkdirAll e dst w of (err, w) \<Rightarrow>
                       if err \<noteq> [] then (wrap ''runner: create upstream route dir'' err, w)
                       else
                         (case symlinkFileIfExists e (path_Join [sw_DownstreamDir producer, ''handoff.md'']) (path_Join [dst, ''handoff.md'']) w of (err, w) \<Rightarrow>
                            if err \<noteq> [] then (err, w)
                            else symlinkTreeIfExists e (path_Join [sw_DownstreamDir producer, ''artifacts'']) (path_Join [dst, ''artifacts'']) w)))))"

section \<open>Artifacts\<close>

definition HandoffArtifactFile :: string where "HandoffArtifactFile = ''file''"
definition HandoffArtifactDir :: string where "HandoffArtifactDir = ''dir''"

definition rewriteLeadingPathSegment :: "string \<Rightarrow> string \<Rightarrow> string \<Rightarrow> string" where
  "rewriteLeadingPathSegment path old new =
     (if path = old then new
      else
        let prefix = old @ [slash] in
        if HasPrefix path prefix then path_Join [new, drop (length prefix) path] else path)"

definition normalizeLegacyWorkspacePath :: "string \<Rightarrow> string" where
  "normalizeLegacyWorkspacePath path =
     rewriteLeadingPathSegment
       (rewriteLeadingPathSegment (rewriteLeadingPathSegment path ''outbox'' ''downstream'') ''inbox'' ''upstream'') ''workspace'' ''scratch''"

definition resolveHandoffArtifactPath :: "skill_ws \<Rightarrow> string \<Rightarrow> string option" where
  "resolveHandoffArtifactPath ws declaredPath =
     (let declaredPath = TrimSpace declaredPath in
      if sw_Root ws = [] then None
      else if declaredPath = [] \<or> IsAbs declaredPath then None
      else
        let clean = normalizeLegacyWorkspacePath (Clean declaredPath) in
        if clean = dot \<or> clean = dotdot \<or> HasPrefix clean (dotdot @ [slash]) then None
        else
          let resolved = path_Join [sw_Root ws, clean] in
          if \<not> pathWithinRoot (sw_Root ws) resolved then None else Some resolved)"

definition canonicalExistingDir :: "fs \<Rightarrow> string \<Rightarrow> string option" where
  "canonicalExistingDir fs dir =
     (case fs_EvalSymlinks fs dir of
        Inl _ \<Rightarrow> None
      | Inr real \<Rightarrow> (case fs_Stat fs real of Inl _ \<Rightarrow> None | Inr isDir \<Rightarrow> if isDir then Some real else None))"

definition under_root :: "string \<Rightarrow> string \<Rightarrow> bool" where
  "under_root dir root \<longleftrightarrow>
     root \<noteq> [] \<and> (Clean dir @ [slash] = Clean root @ [slash] \<or> HasPrefix (Clean dir @ [slash]) (Clean root @ [slash]))"

definition dirUnderAllowedRoots :: "string \<Rightarrow> string list \<Rightarrow> bool" where
  "dirUnderAllowedRoots dir allowedRoots \<longleftrightarrow> allowedRoots = [] \<or> list_ex (under_root dir) allowedRoots"

definition handoffArtifactDir :: "fs \<Rightarrow> doc_artifact \<Rightarrow> string list \<Rightarrow> string option" where
  "handoffArtifactDir fs artifact allowedRoots =
     (let path = da_Path artifact in
      if path = [] \<or> \<not> IsAbs path then None
      else
        (case (if da_Type artifact = HandoffArtifactDir then canonicalExistingDir fs path
               else if da_Type artifact = HandoffArtifactFile then canonicalExistingDir fs (path_Dir path)
               else
                 (case fs_Stat fs path of
                    Inl _ \<Rightarrow> None
                  | Inr isDir \<Rightarrow> canonicalExistingDir fs (if isDir then path else path_Dir path))) of
           None \<Rightarrow> None
         | Some dir \<Rightarrow> if \<not> dirUnderAllowedRoots dir allowedRoots then None else Some dir))"

definition add_artifact_dir :: "fs \<Rightarrow> skill_ws \<Rightarrow> string list \<Rightarrow> doc_artifact \<Rightarrow> string list \<Rightarrow> string list" where
  "add_artifact_dir fs producer allowedRoots artifact dirs =
     (case resolveHandoffArtifactPath producer (da_Path artifact) of
        None \<Rightarrow> dirs
      | Some resolved \<Rightarrow>
          (case handoffArtifactDir fs (artifact\<lparr>da_Path := resolved\<rparr>) allowedRoots of
             None \<Rightarrow> dirs
           | Some dir \<Rightarrow> if dir \<in> set dirs then dirs else dirs @ [dir]))"

text \<open>The outputs of the parents; an output that is not text is None.\<close>

definition handoffArtifactDirsFromOutputs ::
  "fs \<Rightarrow> ('m, channel_front) fm_codec \<Rightarrow> (string, string option) gomap \<Rightarrow> string list \<Rightarrow> runner_ws option \<Rightarrow> string list" where
  "handoffArtifactDirsFromOutputs fs cd outputs allowedRoots ws =
     (if outputs = [] \<or> ws = None then []
      else
        fold (\<lambda>(producerID, outp) dirs.
          (case outp of
             None \<Rightarrow> dirs
           | Some text' \<Rightarrow>
               (case ws_Skill ws producerID of
                  None \<Rightarrow> dirs
                | Some producer \<Rightarrow>
                    (case parseChannelDocument cd text' of
                       Inr (HandoffDocument doc) \<Rightarrow> fold (add_artifact_dir fs producer allowedRoots) (hf_Artifacts doc) dirs
                     | _ \<Rightarrow> dirs)))) outputs [])"

section \<open>Paths of a node\<close>

definition resourceAllowedRoots :: "fs \<Rightarrow> runner_ws option \<Rightarrow> string list" where
  "resourceAllowedRoots fs ws =
     (case ws of
        None \<Rightarrow> []
      | Some ws \<Rightarrow> (case canonicalExistingDir fs (rw_root ws) of Some root \<Rightarrow> [root] | None \<Rightarrow> []))"

definition nodeAccessibleDirs ::
  "fs \<Rightarrow> ('m, channel_front) fm_codec \<Rightarrow> runner_ws option \<Rightarrow> string \<Rightarrow> (string, string option) gomap \<Rightarrow> string list" where
  "nodeAccessibleDirs fs cd ws nodeID inputs =
     (let dirs = (if ws \<noteq> None \<and> nodeID \<noteq> [] then (case ws_AccessibleDirs ws nodeID of Inl _ \<Rightarrow> [] | Inr ds \<Rightarrow> ds) else []);
          allowedRoots = resourceAllowedRoots fs ws
      in if allowedRoots \<noteq> [] then
           fold (\<lambda>dir dirs. if dir \<in> set dirs then dirs else dirs @ [dir]) (handoffArtifactDirsFromOutputs fs cd inputs allowedRoots ws) dirs
         else dirs)"

record runtime_paths =
  rp_RunnerID :: string
  rp_NodeID :: string
  rp_SkillName :: string
  rp_MemoDir :: string
  rp_UpstreamDir :: string
  rp_DownstreamDir :: string
  rp_ScratchDir :: string
  rp_ExchangeDir :: string
  rp_ArchiveMemoDir :: string
  rp_AccessibleDirs :: "string list"

definition ws_AgentRuntimePaths :: "runner_ws \<Rightarrow> string \<Rightarrow> string \<Rightarrow> string list \<Rightarrow> go_error + runtime_paths" where
  "ws_AgentRuntimePaths ws nodeID skillName accessibleDirs =
     (case map_get (rw_skills ws) nodeID of
        None \<Rightarrow> Inl [''runner: unknown workspace skill '' @ go_quote nodeID]
      | Some sk \<Rightarrow>
          Inr \<lparr>rp_RunnerID = rw_runnerID ws, rp_NodeID = nodeID, rp_SkillName = skillName, rp_MemoDir = sw_MemoDir sk,
               rp_UpstreamDir = sw_UpstreamDir sk, rp_DownstreamDir = sw_DownstreamDir sk, rp_ScratchDir = sw_ScratchDir sk,
               rp_ExchangeDir = rw_exchange ws, rp_ArchiveMemoDir = path_Join [rw_archive ws, ''memo'', nodeID],
               rp_AccessibleDirs = (if accessibleDirs = [] then sw_accessibleDirs sk else accessibleDirs)\<rparr>)"

definition nodeRuntimePaths ::
  "fs \<Rightarrow> ('m, channel_front) fm_codec \<Rightarrow> string \<Rightarrow> runner_ws option \<Rightarrow> string \<Rightarrow> string \<Rightarrow> (string, string option) gomap \<Rightarrow> go_error + runtime_paths" where
  "nodeRuntimePaths fs cd runnerID ws nodeID skillName inputs =
     (let dirs = nodeAccessibleDirs fs cd ws nodeID inputs in
      case (if nodeID = [] then None else ws) of
        None \<Rightarrow> Inr \<lparr>rp_RunnerID = runnerID, rp_NodeID = nodeID, rp_SkillName = skillName, rp_MemoDir = [], rp_UpstreamDir = [],
                    rp_DownstreamDir = [], rp_ScratchDir = [], rp_ExchangeDir = [], rp_ArchiveMemoDir = [], rp_AccessibleDirs = dirs\<rparr>
      | Some w \<Rightarrow>
          (case ws_AgentRuntimePaths w nodeID skillName dirs of
             Inl err \<Rightarrow> Inl (wrap (''runner: resolve runtime paths for node '' @ go_quote nodeID) err)
           | Inr paths \<Rightarrow> Inr paths))"

definition provisionWorkspace ::
  "'w os_env \<Rightarrow> string \<Rightarrow> string \<Rightarrow> string list \<Rightarrow> runner_ws option \<Rightarrow> 'w \<Rightarrow> (go_error \<times> runner_ws option) \<times> 'w" where
  "provisionWorkspace e workspaceRoot runnerID nodeIDs ws w =
     (if workspaceRoot = [] then (([], ws), w)
      else
        (case ProvisionWorkspace e workspaceRoot runnerID nodeIDs None w of
           (Inl err, w) \<Rightarrow> ((err, ws), w)
         | (Inr workspace, w) \<Rightarrow> (([], Some workspace), w)))"

end
