(* ===== verification/Runner_Workspace_Theorems.thy ===== *)
theory Runner_Workspace_Theorems
  imports Runner_Workspace
begin

text \<open>
  The directories of different nodes are disjoint, delivering a handoff touches nothing but the
  directory it is delivered to, and a node is only given directories of its runner.
\<close>

section \<open>Paths\<close>

lemma Join_names:
  assumes "clean_abs r" "\<forall>c \<in> set ts. plain_comp c"
  shows "path_Join [r, Join ts [slash]] = of_comps True (path_comps r @ ts)"
proof (cases "ts = []")
  case False
  have cs: "\<forall>c \<in> set (path_comps r). plain_comp c" and r: "r = of_comps True (path_comps r)"
    using clean_abs_comps [OF assms(1)] by blast+
  have ts: "split_on slash (Join ts [slash]) = ts" using False assms(2) by (intro split_on_Join) (auto simp: plain_comp_def)
  have "split_on slash (slash # Join (path_comps r) [slash]) = [] # (if path_comps r = [] then [[]] else path_comps r)"
    using cs by (auto simp: split_on_Join plain_comp_def)
  then have "split_on slash (r @ slash # Join ts [slash]) = [] # (if path_comps r = [] then [[]] else path_comps r) @ ts"
    using ts r by (metis append_Cons of_comps_def split_on_append)
  moreover have abs: "IsAbs (r @ slash # Join ts [slash])" using assms(1) by (cases r) (auto simp: clean_abs_def)
  ultimately have "path_comps (r @ slash # Join ts [slash]) = path_comps r @ ts"
    using clean_plain [of "path_comps r @ ts" True "[]"] cs assms(2) by (auto simp: path_comps_def [of "r @ slash # Join ts [slash]"])
  moreover have "r \<noteq> []" using assms(1) by (auto simp: clean_abs_def)
  ultimately show ?thesis using abs by (simp add: path_Join_def Clean_def)
next
  case True
  have ne: "r \<noteq> []" using assms(1) by (auto simp: clean_abs_def)
  have abs: "IsAbs (r @ [slash])" using assms(1) by (cases r) (auto simp: clean_abs_def)
  have "path_comps (r @ [slash]) = path_comps r"
    using abs assms(1) by (simp add: path_comps_def split_on_append clean_comps_append_empty clean_abs_def)
  then show ?thesis using True abs ne by (simp add: path_Join_def Clean_def)
qed

lemma plain_below:
  assumes "clean_abs r" "plain_comp m"
  shows "clean_abs (path_Join [r, m])" "path_comps (path_Join [r, m]) = path_comps r @ [m]"
proof -
  have "\<forall>c \<in> set (path_comps r @ [m]). plain_comp c" using clean_abs_comps [OF assms(1)] assms(2) by simp
  then show "clean_abs (path_Join [r, m])" "path_comps (path_Join [r, m]) = path_comps r @ [m]"
    using Join_name [OF assms] clean_abs_of_comps comps_of_abs(1) by simp_all
qed

lemma Rel_below:
  assumes "clean_abs src" "clean_abs p" "below src p" "path_Rel src p = Inr rel" "clean_abs dst"
  shows "\<exists>ts. path_comps p = path_comps src @ ts \<and> path_Join [dst, rel] = of_comps True (path_comps dst @ ts)"
proof -
  obtain ts where ts: "path_comps p = path_comps src @ ts" using assms(3) by (auto simp: below_def prefix_def)
  have plain: "\<forall>c \<in> set ts. plain_comp c" using clean_abs_comps [OF assms(2)] ts by simp
  have abs: "IsAbs src" "IsAbs p" using assms(1,2) by (simp_all add: clean_abs_def)
  show ?thesis
  proof (cases "ts = []")
    case True
    then have "Clean src = Clean p" using Clean_eq_abs [OF abs] ts by simp
    then have "rel = dot" using assms(4) by (simp add: path_Rel_def)
    moreover have "path_Join [dst, dot] = dst"
    proof -
      obtain x where x: "dst = slash # x" using assms(5) by (cases dst) (auto simp: clean_abs_def)
      have "split_on slash (dst @ slash # dot) = split_on slash dst @ [dot]" by (simp add: split_on_append split_on_single dot_def slash_def)
      moreover have "clean_comps True acc (cs @ [dot]) = clean_comps True acc cs" for acc cs
        by (induction cs arbitrary: acc) (simp_all add: dot_def)
      ultimately have "Clean (dst @ slash # dot) = Clean dst" by (simp add: Clean_def path_comps_def x)
      then show ?thesis using assms(5) x by (simp add: path_Join_def clean_abs_def)
    qed
    ultimately show ?thesis using True ts clean_abs_comps [OF assms(5)] by auto
  next
    case False
    then have "Clean src \<noteq> Clean p" using Clean_eq_abs [OF abs] ts by simp
    then have "rel = Join ts [slash]" using assms(4) abs ts by (simp add: path_Rel_def strip_common_of_prefix)
    then show ?thesis using Join_names [OF assms(5) plain] ts by auto
  qed
qed

lemma plain_names: "plain_comp ''exchange''" "plain_comp ''skills''" "plain_comp ''archive''" "plain_comp ''memo''" "plain_comp ''upstream''"
    "plain_comp ''downstream''" "plain_comp ''scratch''" "plain_comp ''handoff.md''" "plain_comp ''artifacts''"
  by code_simp+

lemma Contains_single: "Contains s [c] \<longleftrightarrow> c \<in> set s"
  by (auto simp: Contains_iff in_set_conv_decomp)

lemma validateNodeID_plain: "validateNodeID n = [] \<Longrightarrow> plain_comp n"
  by (auto simp: validateNodeID_def plain_comp_def Contains_single split: if_splits)

section \<open>The layout\<close>

lemma provision_skills_get:
  "provision_skills e root ex ids skills w = (Inr m, w') \<Longrightarrow>
   (\<forall>n. map_get m n = (if n \<in> set ids then Some (skill_layout root ex n) else map_get skills n)) \<and> (\<forall>n \<in> set ids. plain_comp n)"
proof (induction ids arbitrary: skills w)
  case (Cons n ids)
  obtain err w2 where mk: "mkdirs e [sw_MemoDir (skill_layout root ex n), sw_UpstreamDir (skill_layout root ex n),
      sw_DownstreamDir (skill_layout root ex n), sw_ScratchDir (skill_layout root ex n)] w = (err, w2)" by force
  have v: "validateNodeID n = []" "err = []" "provision_skills e root ex ids (map_set skills n (skill_layout root ex n)) w2 = (Inr m, w')"
    using Cons.prems mk unfolding provision_skills.simps Let_def mk by (auto split: if_splits)
  from Cons.IH [OF v(3)] validateNodeID_plain [OF v(1)] show ?case by auto
qed simp

definition node_root :: "runner_ws \<Rightarrow> string \<Rightarrow> string list" where
  "node_root ws n = path_comps (rw_root ws) @ [''skills'', n]"

text \<open>What provisioning returns.\<close>

definition ws_layout :: "string list \<Rightarrow> runner_ws \<Rightarrow> bool" where
  "ws_layout ids ws \<longleftrightarrow> clean_abs (rw_globalRoot ws) \<and> clean_abs (rw_root ws) \<and> below (rw_globalRoot ws) (rw_root ws)
     \<and> rw_exchange ws = path_Join [rw_root ws, ''exchange''] \<and> rw_archive ws = path_Join [rw_root ws, ''archive'']
     \<and> (\<forall>n \<in> set ids. plain_comp n)
     \<and> (\<forall>n. map_get (rw_skills ws) n
          = (if n \<in> set ids then Some (skill_layout (path_Join [rw_root ws, ''skills'']) (rw_exchange ws) n) else None))"

lemma path_Abs_clean: "fs_ok fs \<Longrightarrow> path_Abs fs p = Inr a \<Longrightarrow> clean_abs a"
  using clean_abs_Clean abs_join by (auto simp: path_Abs_def fs_ok_def split: if_splits sum.splits)

lemma ensureCanonicalDir_ok:
  assumes "\<forall>v. fs_ok (oe_fs e v)" "ensureCanonicalDir e root w = (Inr r, w')"
  shows "clean_abs r"
proof -
  from assms(2) obtain a w2 where a: "path_Abs (oe_fs e w) root = Inr a" "fs_EvalSymlinks (oe_fs e w2) a = Inr r"
    by (auto simp: ensureCanonicalDir_def split: if_splits sum.splits prod.splits file_info.splits)
  have fs: "fs_ok (oe_fs e w)" "fs_ok (oe_fs e w2)" using assms(1) by blast+
  show ?thesis using path_Abs_clean [OF fs(1) a(1)] fs(2) a(2) by (auto simp: fs_ok_def)
qed

lemma ProvisionWorkspace_layout:
  assumes "\<forall>v. fs_ok (oe_fs e v)" "ProvisionWorkspace e g rid ids rule w = (Inr ws, w')"
  shows "ws_layout ids ws"
proof -
  obtain c w1 where c: "ensureCanonicalDir e g w = (c, w1)" by force
  from assms(2) obtain root where root: "c = Inr root" by (cases c) (auto simp: ProvisionWorkspace_def c)
  note cr = ensureCanonicalDir_ok [OF assms(1) c [unfolded root]]
  from assms(2) obtain sub w2 skills w3 where s: "pathWithinRoot root (path_Join [root, sub])"
    and p: "provision_skills e (path_Join [path_Join [root, sub], ''skills'']) (path_Join [path_Join [root, sub], ''exchange'']) ids [] w2 = (Inr skills, w3)"
    and ws: "ws = \<lparr>rw_globalRoot = root, rw_runnerID = rid, rw_root = path_Join [root, sub], rw_exchange = path_Join [path_Join [root, sub], ''exchange''],
      rw_archive = path_Join [path_Join [root, sub], ''archive''], rw_skills = skills\<rparr>"
    by (auto simp: ProvisionWorkspace_def c root Let_def split: if_splits sum.splits prod.splits file_info.splits)
  have "clean_abs (path_Join [root, sub])" using abs_join cr by (simp add: clean_abs_def)
  with cr s within_below provision_skills_get [OF p] show ?thesis by (simp add: ws ws_layout_def)
qed

lemma layout_skill:
  assumes "ws_layout ids ws" "map_get (rw_skills ws) n = Some sk"
  shows "n \<in> set ids" "clean_abs (sw_Root sk)" "path_comps (sw_Root sk) = node_root ws n"
    and "sw_UpstreamDir sk = path_Join [sw_Root sk, ''upstream'']" "sw_DownstreamDir sk = path_Join [sw_Root sk, ''downstream'']"
    and "set (sw_accessibleDirs sk) = insert (rw_exchange ws) ((\<lambda>d. path_Join [sw_Root sk, d]) ` {''memo'', ''upstream'', ''downstream'', ''scratch''})"
proof -
  have n: "n \<in> set ids" and sk: "sk = skill_layout (path_Join [rw_root ws, ''skills'']) (rw_exchange ws) n"
    using assms by (auto simp: ws_layout_def split: if_splits)
  have r: "clean_abs (rw_root ws)" "plain_comp n" using assms(1) n by (auto simp: ws_layout_def)
  note s = plain_below [OF r(1) plain_names(2)]
  note t = plain_below [OF s(1) r(2)]
  show "n \<in> set ids" by (rule n)
  show "clean_abs (sw_Root sk)" "path_comps (sw_Root sk) = node_root ws n" using s t by (simp_all add: sk skill_layout_def node_root_def Let_def)
  show "sw_UpstreamDir sk = path_Join [sw_Root sk, ''upstream'']" "sw_DownstreamDir sk = path_Join [sw_Root sk, ''downstream'']"
    by (simp_all add: sk skill_layout_def Let_def)
  show "set (sw_accessibleDirs sk) = insert (rw_exchange ws) ((\<lambda>d. path_Join [sw_Root sk, d]) ` {''memo'', ''upstream'', ''downstream'', ''scratch''})"
    by (auto simp: sk skill_layout_def Let_def)
qed

lemma layout_exchange:
  assumes "ws_layout ids ws"
  shows "path_comps (rw_exchange ws) = path_comps (rw_root ws) @ [''exchange'']" "path_comps (rw_archive ws) = path_comps (rw_root ws) @ [''archive'']"
  using assms plain_below(2) plain_names by (auto simp: ws_layout_def)

lemma below_trans: "below a b \<Longrightarrow> below b c \<Longrightarrow> below a c"
  by (meson below_def prefix_order.order_trans)

lemma below_extend: "path_comps b = path_comps a @ cs \<Longrightarrow> below a b"
  by (simp add: below_def)

lemma layout_disjoint:
  assumes l: "ws_layout ids ws" and n: "map_get (rw_skills ws) n = Some sk" and p: "below (sw_Root sk) p"
  shows "\<not> below (rw_exchange ws) p" "\<not> below (rw_archive ws) p"
    and "map_get (rw_skills ws) m = Some sm \<Longrightarrow> m \<noteq> n \<Longrightarrow> \<not> below (sw_Root sm) p"
proof -
  obtain rest where r: "path_comps p = path_comps (rw_root ws) @ ''skills'' # n # rest"
    using p layout_skill(3) [OF l n] by (auto simp: below_def node_root_def prefix_def)
  show "\<not> below (rw_exchange ws) p" "\<not> below (rw_archive ws) p" by (auto simp: below_def layout_exchange [OF l] r prefix_def)
  show "\<not> below (sw_Root sm) p" if "map_get (rw_skills ws) m = Some sm" "m \<noteq> n"
    using layout_skill(3) [OF l that(1)] that(2) by (auto simp: below_def node_root_def r prefix_def)
qed

lemma accessible_below_root:
  assumes l: "ws_layout ids ws" and n: "map_get (rw_skills ws) n = Some sk" and d: "d \<in> set (sw_accessibleDirs sk)"
  shows "clean_abs d \<and> (d = rw_exchange ws \<or> below (sw_Root sk) d)"
proof (cases "d = rw_exchange ws")
  case True
  then show ?thesis using plain_below(1) plain_names l by (auto simp: ws_layout_def)
next
  case False
  then obtain x where x: "x \<in> {''memo'', ''upstream'', ''downstream'', ''scratch''}" "d = path_Join [sw_Root sk, x]"
    using d layout_skill(6) [OF l n] by auto
  then have "plain_comp x" using plain_names by auto
  from plain_below [OF layout_skill(2) [OF l n] this] x(2) below_extend show ?thesis by simp
qed

text \<open>C33. The directories that a runner provisions lie below its workspace root, itself below the
  configured root.  Every node gets one, and a path below the directory of a node is below no other
  node's directory, nor below the exchange or the archive: nodes share the exchange directory only.\<close>

theorem node_workspaces_disjoint:
  assumes "\<forall>v. fs_ok (oe_fs e v)" "ProvisionWorkspace e g rid ids rule w = (Inr ws, w')"
  shows "below (rw_globalRoot ws) (rw_root ws) \<and> (\<forall>n. map_get (rw_skills ws) n \<noteq> None \<longleftrightarrow> n \<in> set ids)
    \<and> (\<forall>n sk. map_get (rw_skills ws) n = Some sk \<longrightarrow>
        below (rw_root ws) (sw_Root sk) \<and> sw_Root sk \<noteq> rw_root ws
        \<and> (\<forall>d \<in> set (sw_accessibleDirs sk). d = rw_exchange ws \<or> below (sw_Root sk) d)
        \<and> (\<forall>p. below (sw_Root sk) p \<longrightarrow> \<not> below (rw_exchange ws) p \<and> \<not> below (rw_archive ws) p
             \<and> (\<forall>m sm. map_get (rw_skills ws) m = Some sm \<longrightarrow> m \<noteq> n \<longrightarrow> \<not> below (sw_Root sm) p)))"
proof -
  have l: "ws_layout ids ws" by (rule ProvisionWorkspace_layout [OF assms])
  have "below (rw_root ws) (sw_Root sk) \<and> sw_Root sk \<noteq> rw_root ws" if "map_get (rw_skills ws) n = Some sk" for n sk
    using layout_skill(3) [OF l that] by (auto simp: below_def node_root_def)
  then show ?thesis using l layout_disjoint [OF l] accessible_below_root [OF l] by (auto simp: ws_layout_def)
qed

text \<open>A world that records the paths it was changed at, and a runner with two nodes.\<close>

definition demo_fs :: fs where
  "demo_fs = \<lparr>fs_Lstat = (\<lambda>_. Exists),
     fs_EvalSymlinks = (\<lambda>p. Inr (if p = ''/g/task_r/skills/b/upstream/a/handoff.md'' then ''/g/task_r/skills/a/downstream/handoff.md'' else p)),
     fs_Stat = (\<lambda>_. Inr True), fs_Getwd = Inr ''/'', fs_MkdirTemp = Inr ''/tmp''\<rparr>"

definition demo_env :: "string list os_env" where
  "demo_env = \<lparr>oe_fs = (\<lambda>_. demo_fs), oe_Stat = (\<lambda>p _. if p = ''/g'' then FileInfo False True else NoFile),
     oe_Lstat = (\<lambda>p _. FileInfo False (path_Base p = ''artifacts'')), oe_MkdirAll = (\<lambda>p w. ([], p # w)), oe_RemoveAll = (\<lambda>p w. ([], p # w)),
     oe_Symlink = (\<lambda>src dst w. ([], dst # w)), oe_WalkDir = (\<lambda>root _. [(root, Inr True), (path_Join [root, ''x''], Inr False)])\<rparr>"

definition demo_run :: "(go_error + runner_ws) \<times> string list" where
  "demo_run = ProvisionWorkspace demo_env ''/g'' ''r'' [''a'', ''b''] None []"

lemma demo_fs_ok: "fs_ok demo_fs" "\<forall>v. fs_ok (oe_fs demo_env v)"
proof -
  have "clean_abs ''/g/task_r/skills/a/downstream/handoff.md''" "IsAbs ''/''" by code_simp+
  then show "fs_ok demo_fs" by (auto simp: fs_ok_def demo_fs_def)
  then show "\<forall>v. fs_ok (oe_fs demo_env v)" by (simp add: demo_env_def)
qed

lemma demo_ws:
  obtains ws w' a b where "ProvisionWorkspace demo_env ''/g'' ''r'' [''a'', ''b''] None [] = (Inr ws, w')"
    "map_get (rw_skills ws) ''a'' = Some a" "map_get (rw_skills ws) ''b'' = Some b"
proof -
  have "\<not> isl (fst demo_run)" by code_simp
  then obtain ws where "fst demo_run = Inr ws" by (metis sum.collapse(2))
  then have ws: "ProvisionWorkspace demo_env ''/g'' ''r'' [''a'', ''b''] None [] = (Inr ws, snd demo_run)"
    by (metis demo_run_def prod.collapse)
  from ProvisionWorkspace_layout [OF demo_fs_ok(2) ws] have
    "map_get (rw_skills ws) ''a'' \<noteq> None" "map_get (rw_skills ws) ''b'' \<noteq> None" by (simp_all add: ws_layout_def)
  with ws that show ?thesis by blast
qed

theorem node_workspaces_disjoint_witness:
  "\<exists>ws w' a b. ProvisionWorkspace demo_env ''/g'' ''r'' [''a'', ''b''] None [] = (Inr ws, w')
    \<and> map_get (rw_skills ws) ''a'' = Some a \<and> map_get (rw_skills ws) ''b'' = Some b \<and> \<not> below (sw_Root b) (sw_Root a)"
proof -
  obtain ws w' a b where ws: "ProvisionWorkspace demo_env ''/g'' ''r'' [''a'', ''b''] None [] = (Inr ws, w')"
    "map_get (rw_skills ws) ''a'' = Some a" "map_get (rw_skills ws) ''b'' = Some b" by (rule demo_ws)
  have "below (sw_Root a) (sw_Root a)" by (simp add: below_def)
  moreover have "''b'' \<noteq> ''a''" by simp
  ultimately have "\<not> below (sw_Root b) (sw_Root a)"
    using node_workspaces_disjoint [OF demo_fs_ok(2) ws(1), THEN conjunct2, THEN conjunct2, rule_format, OF ws(2)] ws(3) by blast
  with ws show ?thesis by blast
qed

section \<open>Handing over\<close>

text \<open>A property of the world that changes below \<open>dst\<close> cannot break, links into \<open>src\<close> included; and the walk
  of a directory presents paths below it.\<close>

definition kept_below :: "'w os_env \<Rightarrow> string \<Rightarrow> string \<Rightarrow> ('w \<Rightarrow> bool) \<Rightarrow> bool" where
  "kept_below e src dst Q \<longleftrightarrow> (\<forall>p v. below dst p \<longrightarrow> Q v \<longrightarrow>
     Q (snd (oe_MkdirAll e p v)) \<and> Q (snd (oe_RemoveAll e p v)) \<and> (\<forall>s. below src s \<longrightarrow> Q (snd (oe_Symlink e s p v))))"

definition walk_ok :: "'w os_env \<Rightarrow> bool" where
  "walk_ok e \<longleftrightarrow> (\<forall>root v p d. clean_abs root \<longrightarrow> (p, d) \<in> set (oe_WalkDir e root v) \<longrightarrow> clean_abs p \<and> below root p)"

lemma keptD:
  assumes "kept_below e src dst Q" "below dst p" "Q v"
  shows "oe_MkdirAll e p v = (err, v') \<Longrightarrow> Q v'" "oe_RemoveAll e p v = (err, v') \<Longrightarrow> Q v'"
    "below src s \<Longrightarrow> oe_Symlink e s p v = (err, v') \<Longrightarrow> Q v'"
  using assms unfolding kept_below_def by (metis snd_conv)+

lemma names_below:
  assumes "clean_abs dst" "\<forall>c \<in> set cs. plain_comp c" "c = of_comps True (path_comps dst @ cs)" "cs \<noteq> []"
  shows "below dst c" "below dst (path_Dir c)"
proof -
  have pl: "\<forall>c \<in> set (path_comps dst @ cs). plain_comp c" using clean_abs_comps [OF assms(1), THEN conjunct2] assms(2) by auto
  show "below dst c" using comps_of_abs(1) [OF pl] by (simp add: below_def assms(3))
  obtain ds d where cs: "cs = ds @ [d]" using assms(4) by (metis rev_exhaust)
  have ds: "\<forall>c \<in> set (path_comps dst @ ds). plain_comp c" "plain_comp d" using pl cs by auto
  have "path_Dir c = of_comps True (path_comps dst @ ds)" using Dir_Base_abs(1) [OF ds] by (simp add: assms(3) cs)
  then show "below dst (path_Dir c)" using comps_of_abs(1) [OF ds(1)] by (simp add: below_def)
qed

lemma symlinkFile_keeps:
  assumes "kept_below e src dst Q" "below src s" "below dst t" "below dst (path_Dir t)" "Q w"
  shows "Q (snd (symlinkFileIfExists e s t w))"
proof -
  obtain err v where m: "oe_MkdirAll e (path_Dir t) w = (err, v)" by force
  obtain err' v' where l: "oe_Symlink e s t v = (err', v')" by force
  have "Q v" using keptD(1) [OF assms(1,4,5) m] .
  moreover have "Q v'" using keptD(3) [OF assms(1,3) \<open>Q v\<close> assms(2) l] .
  ultimately show ?thesis using assms(5) m l by (simp add: symlinkFileIfExists_def split: file_info.split)
qed

lemma link_entry_keeps:
  assumes k: "kept_below e src dst Q" and c: "clean_abs asrc" "clean_abs dst" and a: "below src asrc"
    and p: "clean_abs p" "below asrc p" and q: "Q w"
  shows "Q (snd (link_entry e asrc (path_Join [dst, ''artifacts'']) p d w))"
proof (cases "\<exists>isDir l x rel. d = Inr isDir \<and> oe_Lstat e p w = FileInfo l x \<and> \<not> l \<and> path_Rel asrc p = Inr rel")
  case True
  then obtain isDir l x rel where h: "d = Inr isDir" "oe_Lstat e p w = FileInfo l x" "\<not> l" "path_Rel asrc p = Inr rel" by blast
  note art = plain_below [OF c(2) plain_names(9)]
  let ?t = "path_Join [path_Join [dst, ''artifacts''], rel]"
  obtain ts where ts: "path_comps p = path_comps asrc @ ts" "?t = of_comps True (path_comps dst @ ''artifacts'' # ts)"
    using Rel_below [OF c(1) p h(4) art(1)] art(2) by auto
  have "\<forall>c \<in> set (''artifacts'' # ts). plain_comp c" using clean_abs_comps [OF p(1)] ts(1) plain_names(9) by simp
  note t = names_below [OF c(2) this ts(2)]
  obtain err v where m: "oe_MkdirAll e ?t w = (err, v)" by force
  have "Q v" using keptD(1) [OF k t(1) q m] by simp
  moreover have "Q (snd (symlinkFileIfExists e p ?t w))" using symlinkFile_keeps [OF k below_trans [OF a p(2)] t q] by simp
  ultimately show ?thesis using h m by (simp add: link_entry_def Let_def)
next
  case False
  then show ?thesis using q by (auto simp: link_entry_def split: sum.splits file_info.splits)
qed

lemma link_entries_keep:
  assumes "kept_below e src dst Q" "clean_abs asrc" "clean_abs dst" "below src asrc" "\<forall>(p, d) \<in> set entries. clean_abs p \<and> below asrc p" "Q w"
  shows "Q (snd (link_entries e asrc (path_Join [dst, ''artifacts'']) entries w))"
  using assms(5,6)
proof (induction entries arbitrary: w)
  case (Cons x entries)
  obtain p d where x: "x = (p, d)" by force
  obtain err v where v: "link_entry e asrc (path_Join [dst, ''artifacts'']) p d w = (err, v)" by force
  have "Q v" using link_entry_keeps [OF assms(1-4), of p w d] Cons.prems x v by simp
  then show ?case using Cons.IH [of v] Cons.prems(1) v x by simp
qed simp

text \<open>C34. Delivering a handoff changes the file system only below the directory \<^verbatim>\<open>upstream/<producer>\<close> of the
  successor, and every link it creates points below the producer's \<^verbatim>\<open>downstream\<close> directory.\<close>

theorem handoff_touches_route_only:
  assumes "\<forall>v. fs_ok (oe_fs e v)" "ProvisionWorkspace e g rid ids rule w0 = (Inr ws, w1)" "walk_ok e"
    and "map_get (rw_skills ws) p = Some producer" "map_get (rw_skills ws) s = Some successor"
    and "kept_below e (sw_DownstreamDir producer) (path_Join [sw_UpstreamDir successor, p]) Q" "Q w"
  shows "Q (snd (ws_Handoff e (Some ws) p s w))"
proof -
  have l: "ws_layout ids ws" by (rule ProvisionWorkspace_layout [OF assms(1,2)])
  let ?dst = "path_Join [sw_UpstreamDir successor, p]" and ?src = "sw_DownstreamDir producer"
  note ps = layout_skill [OF l assms(4)] and ss = layout_skill [OF l assms(5)]
  have up: "clean_abs (sw_UpstreamDir successor)" using plain_below(1) [OF ss(2) plain_names(5)] ss(4) by simp
  have "plain_comp p" using l ps(1) by (auto simp: ws_layout_def)
  note dst = plain_below(1) [OF up this]
  have src: "clean_abs ?src" using plain_below(1) [OF ps(2) plain_names(6)] ps(5) by simp
  note h = plain_below [OF src plain_names(8)] and a = plain_below [OF src plain_names(9)] and dh = plain_below [OF dst plain_names(8)]
  note k = assms(6)
  have self: "below ?dst ?dst" by (simp add: below_def)
  obtain e1 w1 where r: "oe_RemoveAll e ?dst w = (e1, w1)" by force
  obtain e2 w2 where m: "oe_MkdirAll e ?dst w1 = (e2, w2)" by force
  have q: "Q w1" "Q w2" using keptD(2) [OF k self assms(7) r] keptD(1) [OF k self _ m] by blast+
  let ?f = "symlinkFileIfExists e (path_Join [?src, ''handoff.md'']) (path_Join [?dst, ''handoff.md'']) w2"
  have "path_Join [?dst, ''handoff.md''] = of_comps True (path_comps ?dst @ [''handoff.md''])" by (rule Join_name [OF dst plain_names(8)])
  from names_below [OF dst _ this] have b: "below ?dst (path_Join [?dst, ''handoff.md''])" "below ?dst (path_Dir (path_Join [?dst, ''handoff.md'']))"
    using plain_names(8) by auto
  have qf: "Q (snd ?f)" by (rule symlinkFile_keeps [OF k below_extend [OF h(2)] b q(2)])
  have tree: "Q (snd (symlinkTreeIfExists e (path_Join [?src, ''artifacts'']) (path_Join [?dst, ''artifacts'']) v))" if "Q v" for v
  proof -
    have "\<forall>(p, d) \<in> set (oe_WalkDir e (path_Join [?src, ''artifacts'']) v). clean_abs p \<and> below (path_Join [?src, ''artifacts'']) p"
      using assms(3) a(1) by (auto simp: walk_ok_def)
    from link_entries_keep [OF k a(1) dst below_extend [OF a(2)] this that] that show ?thesis
      by (simp add: symlinkTreeIfExists_def split: file_info.split)
  qed
  obtain e3 w3 where f: "?f = (e3, w3)" by force
  have "Q w3" using qf f by simp
  then show ?thesis using assms(4,5,7) q r m f tree [of w3] by (simp add: ws_Handoff_def ws_Skill_def Let_def)
qed

theorem handoff_touches_route_only_witness:
  "\<exists>ws w' a b. ProvisionWorkspace demo_env ''/g'' ''r'' [''a'', ''b''] None [] = (Inr ws, w')
    \<and> map_get (rw_skills ws) ''a'' = Some a \<and> map_get (rw_skills ws) ''b'' = Some b
    \<and> (\<forall>p \<in> set (snd (ws_Handoff demo_env (Some ws) ''a'' ''b'' [])). below (path_Join [sw_UpstreamDir b, ''a'']) p)"
proof -
  obtain ws w' a b where ws: "ProvisionWorkspace demo_env ''/g'' ''r'' [''a'', ''b''] None [] = (Inr ws, w')"
    "map_get (rw_skills ws) ''a'' = Some a" "map_get (rw_skills ws) ''b'' = Some b" by (rule demo_ws)
  have x: "plain_comp ''x''" by code_simp
  have walk: "walk_ok demo_env" using plain_below [OF _ x] by (auto simp: walk_ok_def demo_env_def below_def)
  let ?Q = "\<lambda>w. \<forall>p \<in> set w. below (path_Join [sw_UpstreamDir b, ''a'']) p"
  have "kept_below demo_env (sw_DownstreamDir a) (path_Join [sw_UpstreamDir b, ''a'']) ?Q" by (simp add: kept_below_def demo_env_def)
  from handoff_touches_route_only [OF demo_fs_ok(2) ws(1) walk ws(2,3) this, of "[]"]
  have "?Q (snd (ws_Handoff demo_env (Some ws) ''a'' ''b'' []))" by simp
  with ws show ?thesis by blast
qed

section \<open>Directories of a node\<close>

lemma split_of_comps: "\<forall>c \<in> set cs. plain_comp c \<Longrightarrow> split_on slash (of_comps True cs) = [] # (if cs = [] then [[]] else cs)"
  by (auto simp: of_comps_def split_on_Join plain_comp_def)

lemma plain_prefix: "prefix cs (ds @ [[]]) \<Longrightarrow> \<forall>c \<in> set cs. plain_comp c \<Longrightarrow> cs \<noteq> [] \<Longrightarrow> prefix cs ds"
proof -
  assume p: "prefix cs (ds @ [[]])" and c: "\<forall>c \<in> set cs. plain_comp c"
  have "cs \<noteq> ds @ [[]]"
  proof
    assume "cs = ds @ [[]]"
    then have "plain_comp []" using c by simp
    then show False by (simp add: plain_comp_def)
  qed
  with p show ?thesis by (simp add: prefix_snoc)
qed

lemma of_comps_slash: "cs \<noteq> [] \<Longrightarrow> \<exists>x. of_comps True (cs @ ts) @ [slash] = of_comps True cs @ slash # x"
proof -
  assume "cs \<noteq> []"
  then have "Join (cs @ ts) [slash] = Join cs [slash] @ (if ts = [] then [] else slash # Join ts [slash])"
    by (induction cs "[slash]" rule: Join.induct) (auto simp: neq_Nil_conv)
  then show ?thesis by (cases "ts = []") (simp_all add: of_comps_def)
qed

lemma clean_abs_root: "clean_abs d \<Longrightarrow> path_comps d = [] \<Longrightarrow> d = [slash]"
proof -
  assume c: "clean_abs d" and e: "path_comps d = []"
  have "d = of_comps True (path_comps d)" using clean_abs_comps [OF c] by blast
  also have "\<dots> = [slash]" unfolding e by (simp add: of_comps_def)
  finally show ?thesis .
qed

lemma under_root_iff:
  assumes "clean_abs d" "clean_abs r"
  shows "under_root d r \<longleftrightarrow> (if r = [slash] then d = [slash] else below r d)"
proof -
  have cd: "Clean d = d" "Clean r = r" and ne: "r \<noteq> []" using assms by (auto simp: clean_abs_def)
  note d = clean_abs_comps [OF assms(1), THEN conjunct2] and r = clean_abs_comps [OF assms(2), THEN conjunct2]
    and de = clean_abs_comps [OF assms(1), THEN conjunct1] and re = clean_abs_comps [OF assms(2), THEN conjunct1]
  have sd: "split_on slash d = [] # (if path_comps d = [] then [[]] else path_comps d)"
    and sr: "split_on slash r = [] # (if path_comps r = [] then [[]] else path_comps r)"
    using split_of_comps d r de re by metis+
  have un: "under_root d r \<longleftrightarrow> (\<exists>x. d @ [slash] = r @ slash # x)"
    using ne by (auto simp: under_root_def cd HasPrefix_iff)
  have sl: "split_on slash (d @ [slash]) = split_on slash d @ [[]]" by (simp add: split_on_append)
  show ?thesis
  proof (cases "r = [slash]")
    case True
    have "path_comps d = []" if "d @ [slash] = r @ slash # x" for x
    proof -
      from that have "d @ [slash] = slash # slash # x" by (simp add: True)
      then have "split_on slash d @ [[]] = [] # [] # split_on slash x" using sl by simp
      then show ?thesis using sd d by (cases "path_comps d") (auto simp: plain_comp_def)
    qed
    moreover have "d = [slash]" if "path_comps d = []" by (rule clean_abs_root [OF assms(1) that])
    ultimately have "(\<exists>x. d @ [slash] = r @ slash # x) \<Longrightarrow> d = [slash]" by blast
    moreover have "\<exists>x. d @ [slash] = r @ slash # x" if "d = [slash]" unfolding that True by simp
    ultimately show ?thesis unfolding un if_P [OF True] by blast
  next
    case False
    have rne: "path_comps r \<noteq> []"
      using clean_abs_root [OF assms(2)] False by blast
    have "below r d" if "d @ [slash] = r @ slash # x" for x
    proof -
      have "split_on slash d @ [[]] = split_on slash r @ split_on slash x" using that sl split_on_append by metis
      then have e: "(if path_comps d = [] then [[]] else path_comps d) @ [[]] = path_comps r @ split_on slash x" using sd sr rne by simp
      have "prefix (path_comps r) ((if path_comps d = [] then [[]] else path_comps d) @ [[]])" unfolding e by simp
      from plain_prefix [OF this r rne] have pp: "prefix (path_comps r) (if path_comps d = [] then [[]] else path_comps d)" .
      have "prefix (path_comps r) (path_comps d)"
      proof (cases "path_comps d = []")
        case True
        with pp have "prefix (path_comps r) ([] @ [[]])" by simp
        from plain_prefix [OF this r rne] True show ?thesis by simp
      qed (use pp in simp)
      then show ?thesis by (simp add: below_def)
    qed
    moreover have "\<exists>x. d @ [slash] = r @ slash # x" if b: "below r d"
    proof -
      obtain ts where ts: "path_comps d = path_comps r @ ts" using b by (auto simp: below_def prefix_def)
      have "d = of_comps True (path_comps r @ ts)" using de unfolding ts .
      then show ?thesis using of_comps_slash [OF rne] re by metis
    qed
    ultimately show ?thesis unfolding un if_not_P [OF False] by blast
  qed
qed

text \<open>An allowed root that is the root directory admits nothing but itself.\<close>

theorem root_directory_admits_itself_only:
  "clean_abs d \<Longrightarrow> dirUnderAllowedRoots d [''/''] \<longleftrightarrow> d = ''/''"
proof -
  have r: "clean_abs ''/''" and s: "''/'' = [slash]" by code_simp+
  show "clean_abs d \<Longrightarrow> dirUnderAllowedRoots d [''/''] \<longleftrightarrow> d = ''/''"
    using under_root_iff [OF _ r, of d] s by (simp add: dirUnderAllowedRoots_def)
qed

lemma canonicalExistingDir_ok:
  assumes "fs_ok fs" "clean_abs p" "canonicalExistingDir fs p = Some d"
  shows "clean_abs d \<and> fs_Stat fs d = Inr True"
proof -
  have "fs_EvalSymlinks fs p = Inr d" "fs_Stat fs d = Inr True"
    using assms(3) by (auto simp: canonicalExistingDir_def split: sum.splits if_splits)
  then show ?thesis using assms(1,2) by (auto simp: fs_ok_def)
qed

lemma Dir_clean_abs: "clean_abs p \<Longrightarrow> clean_abs (path_Dir p)"
proof -
  assume c: "clean_abs p"
  show ?thesis
  proof (cases rule: upto_slash_cases [of p])
    case 1
    then show ?thesis using c by (cases p) (auto simp: clean_abs_def)
  next
    case (2 q r)
    then have "IsAbs (upto_slash p)" using c by (cases q) (auto simp: clean_abs_def)
    then show ?thesis by (simp add: path_Dir_def clean_abs_Clean)
  qed
qed

lemma handoffArtifactDir_ok:
  assumes "fs_ok fs" "clean_abs (da_Path a)" "handoffArtifactDir fs a roots = Some d"
  shows "clean_abs d \<and> fs_Stat fs d = Inr True \<and> dirUnderAllowedRoots d roots"
proof -
  obtain p where p: "p = da_Path a \<or> p = path_Dir (da_Path a)" "canonicalExistingDir fs p = Some d" "dirUnderAllowedRoots d roots"
    using assms(3) by (auto simp: handoffArtifactDir_def Let_def split: if_splits option.splits sum.splits)
  then have "clean_abs p" using assms(2) Dir_clean_abs by blast
  with canonicalExistingDir_ok [OF assms(1) this p(2)] p(3) show ?thesis by blast
qed

definition dir_ok :: "fs \<Rightarrow> string list \<Rightarrow> string \<Rightarrow> bool" where
  "dir_ok fs roots d \<longleftrightarrow> clean_abs d \<and> fs_Stat fs d = Inr True \<and> dirUnderAllowedRoots d roots"

lemma add_artifact_dir_ok:
  assumes "fs_ok fs" "clean_abs (sw_Root sk)" "\<forall>d \<in> set dirs. dir_ok fs roots d"
  shows "\<forall>d \<in> set (add_artifact_dir fs sk roots a dirs). dir_ok fs roots d"
proof -
  have "clean_abs r" if "resolveHandoffArtifactPath sk (da_Path a) = Some r" for r
    using that abs_join assms(2) by (auto simp: resolveHandoffArtifactPath_def Let_def clean_abs_def split: if_splits)
  then have "dir_ok fs roots d" if "resolveHandoffArtifactPath sk (da_Path a) = Some r" "handoffArtifactDir fs (a\<lparr>da_Path := r\<rparr>) roots = Some d" for r d
    using handoffArtifactDir_ok [OF assms(1), of "a\<lparr>da_Path := r\<rparr>"] that by (simp add: dir_ok_def)
  then show ?thesis using assms(3) by (auto simp: add_artifact_dir_def split: option.splits)
qed

lemma fold_keeps: "(\<And>x ys. P ys \<Longrightarrow> P (f x ys)) \<Longrightarrow> P ys \<Longrightarrow> P (fold f xs ys)"
  by (induction xs arbitrary: ys) simp_all

lemma output_dirs_ok:
  assumes "fs_ok fs" "ws_layout ids ws" "d \<in> set (handoffArtifactDirsFromOutputs fs cd outputs roots (Some ws))"
  shows "dir_ok fs roots d"
proof -
  have arts: "\<forall>d \<in> set (fold (add_artifact_dir fs sk roots) as dirs). dir_ok fs roots d"
    if "clean_abs (sw_Root sk)" "\<forall>d \<in> set dirs. dir_ok fs roots d" for sk as dirs
    by (rule fold_keeps [where P = "\<lambda>dirs. \<forall>d \<in> set dirs. dir_ok fs roots d"]) (use add_artifact_dir_ok [OF assms(1) that(1)] that(2) in blast)+
  define step where "step = (\<lambda>(producerID, outp) dirs.
          (case outp of
             None \<Rightarrow> dirs
           | Some text' \<Rightarrow>
               (case ws_Skill (Some ws) producerID of
                  None \<Rightarrow> dirs
                | Some producer \<Rightarrow>
                    (case parseChannelDocument cd text' of
                       Inr (HandoffDocument doc) \<Rightarrow> fold (add_artifact_dir fs producer roots) (hf_Artifacts doc) dirs
                     | _ \<Rightarrow> dirs))))"
  have one: "\<forall>d \<in> set (step x dirs). dir_ok fs roots d" if "\<forall>d \<in> set dirs. dir_ok fs roots d" for x dirs
    using that arts [OF layout_skill(2) [OF assms(2)] that]
    by (auto simp: step_def ws_Skill_def split: prod.splits option.splits sum.splits channel_document.splits)
  have "\<forall>d \<in> set (fold step outputs dirs). dir_ok fs roots d" if "\<forall>d \<in> set dirs. dir_ok fs roots d" for dirs
    by (rule fold_keeps [where P = "\<lambda>dirs. \<forall>d \<in> set dirs. dir_ok fs roots d"]) (use one that in blast)+
  from this [of "[]"] show ?thesis
    using assms(3) by (auto simp: handoffArtifactDirsFromOutputs_def step_def [symmetric] split: if_splits)
qed

lemma fold_add: "set (fold (\<lambda>d ds. if d \<in> set ds then ds else ds @ [d]) xs ys) = set ys \<union> set xs"
  by (induction xs arbitrary: ys) auto

lemma node_dirs: "x \<in> set (nodeAccessibleDirs fs cd (Some ws) n inputs) \<Longrightarrow> (\<exists>ds. ws_AccessibleDirs (Some ws) n = Inr ds \<and> x \<in> set ds)
   \<or> (\<exists>root. canonicalExistingDir fs (rw_root ws) = Some root \<and> x \<in> set (handoffArtifactDirsFromOutputs fs cd inputs [root] (Some ws)))"
proof -
  assume a: "x \<in> set (nodeAccessibleDirs fs cd (Some ws) n inputs)"
  define ds where "ds = (if Some ws \<noteq> None \<and> n \<noteq> [] then (case ws_AccessibleDirs (Some ws) n of Inl _ \<Rightarrow> [] | Inr ds \<Rightarrow> ds) else [])"
  have ds: "\<exists>ds. ws_AccessibleDirs (Some ws) n = Inr ds \<and> x \<in> set ds" if "x \<in> set ds"
  proof -
    have "x \<in> set (case ws_AccessibleDirs (Some ws) n of Inl _ \<Rightarrow> [] | Inr ds \<Rightarrow> ds)" using that unfolding ds_def by (rule contrapos_pp) (simp only: if_cancel split: if_split, simp)
    then show ?thesis by (cases "ws_AccessibleDirs (Some ws) n") simp_all
  qed
  show ?thesis
  proof (cases "canonicalExistingDir fs (rw_root ws)")
    case None
    have "nodeAccessibleDirs fs cd (Some ws) n inputs = ds"
      unfolding nodeAccessibleDirs_def Let_def resourceAllowedRoots_def option.case None ds_def by (simp only: refl if_False simp_thms)
    with a ds show ?thesis by simp
  next
    case (Some root)
    have "nodeAccessibleDirs fs cd (Some ws) n inputs = fold (\<lambda>dir dirs. if dir \<in> set dirs then dirs else dirs @ [dir]) (handoffArtifactDirsFromOutputs fs cd inputs [root] (Some ws)) ds"
      unfolding nodeAccessibleDirs_def Let_def resourceAllowedRoots_def option.case Some ds_def by (simp only: list.simps if_True simp_thms)
    then have "x \<in> set ds \<union> set (handoffArtifactDirsFromOutputs fs cd inputs [root] (Some ws))" using a by (simp only: fold_add)
    then show ?thesis using ds Some by blast
  qed
qed

text \<open>C35. Whatever the outputs of its parents say, a node is given access to its own directories, the
  exchange directory and existing directories whose real path lies below the real workspace root of
  the runner.\<close>

theorem node_dirs_inside_runner:
  assumes "fs_ok fs" "\<forall>v. fs_ok (oe_fs e v)" "ProvisionWorkspace e g rid ids rule w = (Inr ws, w')"
    and "d \<in> set (nodeAccessibleDirs fs cd (Some ws) n inputs)"
  shows "(\<exists>sk. map_get (rw_skills ws) n = Some sk \<and> d \<in> set (sw_accessibleDirs sk))
    \<or> (\<exists>root. canonicalExistingDir fs (rw_root ws) = Some root \<and> below root d \<and> clean_abs d \<and> fs_Stat fs d = Inr True)"
proof -
  have l: "ws_layout ids ws" by (rule ProvisionWorkspace_layout [OF assms(2,3)])
  show ?thesis
  proof (cases "\<exists>sk. map_get (rw_skills ws) n = Some sk \<and> d \<in> set (sw_accessibleDirs sk)")
    case True
    then show ?thesis by (rule disjI1)
  next
    case False
    then obtain root where root: "canonicalExistingDir fs (rw_root ws) = Some root"
      and d: "d \<in> set (handoffArtifactDirsFromOutputs fs cd inputs [root] (Some ws))"
      using node_dirs [OF assms(4)] by (auto simp: ws_AccessibleDirs_def ws_Skill_def split: option.splits)
    have cr: "clean_abs root" using canonicalExistingDir_ok [OF assms(1) _ root] l by (simp add: ws_layout_def)
    have cd: "clean_abs d" "fs_Stat fs d = Inr True" "under_root d root"
      using output_dirs_ok [OF assms(1) l d] by (simp_all add: dir_ok_def dirUnderAllowedRoots_def)
    have "below root d" using under_root_iff [OF cd(1) cr] cd(3) by (cases "root = [slash]") (simp_all add: below_def)
    then show ?thesis using root cd(1,2) by blast
  qed
qed

definition demo_codec :: "(string, channel_front) fm_codec" where
  "demo_codec = \<lparr>yaml_Unmarshal = (\<lambda>_. Inr zero_front), yaml_Marshal = Inr, toml_Decode = Inr\<rparr>"

theorem node_dirs_inside_runner_witness:
  "\<exists>ws w' b. ProvisionWorkspace demo_env ''/g'' ''r'' [''a'', ''b''] None [] = (Inr ws, w') \<and> map_get (rw_skills ws) ''b'' = Some b
    \<and> (\<forall>d \<in> set (nodeAccessibleDirs demo_fs demo_codec (Some ws) ''b'' [(''a'', Some (document [] []))]).
        d \<in> set (sw_accessibleDirs b) \<or> (\<exists>root. canonicalExistingDir demo_fs (rw_root ws) = Some root \<and> below root d))"
proof -
  obtain ws w' a b where ws: "ProvisionWorkspace demo_env ''/g'' ''r'' [''a'', ''b''] None [] = (Inr ws, w')"
    "map_get (rw_skills ws) ''a'' = Some a" "map_get (rw_skills ws) ''b'' = Some b" by (rule demo_ws)
  have "d \<in> set (sw_accessibleDirs b) \<or> (\<exists>root. canonicalExistingDir demo_fs (rw_root ws) = Some root \<and> below root d)"
    if "d \<in> set (nodeAccessibleDirs demo_fs demo_codec (Some ws) ''b'' [(''a'', Some (document [] []))])" for d
    using node_dirs_inside_runner [OF demo_fs_ok(1,2) ws(1) that] ws(3) by auto
  with ws show ?thesis by blast
qed

section \<open>Reading what was handed over\<close>

text \<open>A handoff is delivered as a link to a file of the producer, which lies in none of the directories
  of the successor: when the tools of the successor have just these directories, and its own temporary
  and skill directories do not contain the producer's file, they refuse the path that the prompt of
  the successor tells it to inspect.
\<close>

theorem delivered_handoff_unreadable:
  assumes "fs_ok fs" "\<forall>v. fs_ok (oe_fs e v)" "ProvisionWorkspace e g rid ids rule w = (Inr ws, w')"
    and "map_get (rw_skills ws) p = Some producer" "map_get (rw_skills ws) s = Some successor" "p \<noteq> s"
    and target: "target = path_Join [sw_DownstreamDir producer, ''handoff.md'']"
    and link: "link = path_Join [path_Join [sw_UpstreamDir successor, p], ''handoff.md'']"
    and "fs_Lstat fs link = Exists" "fs_EvalSymlinks fs link = Inr target"
    and "ws_ok W" "set (ws_extraRoots W) \<subseteq> set (sw_accessibleDirs successor)"
    and "\<not> below (ws_tempRoot W) target" "ws_skillRoot W = [] \<or> \<not> below (ws_skillRoot W) target"
  shows "ResolvePath fs (Some W) link = Inl (errEscapes link)"
proof -
  have l: "ws_layout ids ws" by (rule ProvisionWorkspace_layout [OF assms(2,3)])
  note ps = layout_skill [OF l assms(4)] and ss = layout_skill [OF l assms(5)]
  have up: "clean_abs (sw_UpstreamDir successor)" using plain_below(1) [OF ss(2) plain_names(5)] ss(4) by simp
  have "plain_comp p" using l ps(1) by (auto simp: ws_layout_def)
  note route = plain_below(1) [OF up this]
  have link_ok: "clean_abs link" unfolding link by (rule plain_below(1) [OF route plain_names(8)])
  note down = plain_below [OF ps(2) plain_names(6), folded ps(5)]
  have target_ok: "clean_abs target" unfolding target by (rule plain_below(1) [OF down(1) plain_names(8)])
  have tb: "below (sw_Root producer) target"
    using plain_below(2) [OF down(1) plain_names(8)] down(2) by (simp add: target below_def)
  note apart = layout_disjoint [OF l assms(4) tb]
  have "\<not> below d target" if "d \<in> set (sw_accessibleDirs successor)" for d
  proof -
    from accessible_below_root [OF l assms(5) that] consider "d = rw_exchange ws" | "below (sw_Root successor) d" by blast
    then show ?thesis using apart(1) apart(3) [OF assms(5)] assms(6) below_trans by cases blast+
  qed
  then have "\<not> below r target" if "r \<in> set (ws_roots W)" for r
    using that assms(12-14) by (auto simp: ws_roots_def split: if_splits)
  moreover have "clean_abs r" if "r \<in> set (ws_roots W)" "r \<noteq> []" for r
    using assms(11) that by (auto simp: ws_ok_def ws_roots_def split: if_splits)
  ultimately have none: "\<not> list_ex (\<lambda>r. r \<noteq> [] \<and> pathWithinRoot r target) (ws_roots W)"
    using within_below [OF _ target_ok] by (auto simp: list_ex_iff)
  have "resolvePathExistingPrefix fs (Clean link) = Inr target"
    using assms(9,10) link_ok by (simp add: resolvePathExistingPrefix_def resolve_loop.simps clean_abs_def)
  then show ?thesis using none link_ok by (simp add: ResolvePath_def resolveAbsolutePath_def clean_abs_def)
qed

theorem delivered_handoff_unreadable_witness:
  "ResolvePath demo_fs (Some \<lparr>ws_skillRoot = [], ws_tempRoot = ''/tmp/t'', ws_extraRoots = [''/g/task_r/skills/b/upstream'', ''/g/task_r/exchange'']\<rparr>)
     ''/g/task_r/skills/b/upstream/a/handoff.md'' = Inl (errEscapes ''/g/task_r/skills/b/upstream/a/handoff.md'')"
proof -
  have get: "map_option sw_DownstreamDir (map_get (rw_skills (projr (fst demo_run))) ''a'') = Some ''/g/task_r/skills/a/downstream''"
    "map_option sw_UpstreamDir (map_get (rw_skills (projr (fst demo_run))) ''b'') = Some ''/g/task_r/skills/b/upstream''"
    "rw_exchange (projr (fst demo_run)) = ''/g/task_r/exchange''" by code_simp+
  obtain ws w' a b where ws: "ProvisionWorkspace demo_env ''/g'' ''r'' [''a'', ''b''] None [] = (Inr ws, w')"
    "map_get (rw_skills ws) ''a'' = Some a" "map_get (rw_skills ws) ''b'' = Some b" by (rule demo_ws)
  have run: "projr (fst demo_run) = ws" using ws(1) by (simp add: demo_run_def)
  have dirs: "sw_DownstreamDir a = ''/g/task_r/skills/a/downstream''" "sw_UpstreamDir b = ''/g/task_r/skills/b/upstream''" "rw_exchange ws = ''/g/task_r/exchange''"
    using get ws(2,3) by (simp_all add: run)
  note l = ProvisionWorkspace_layout [OF demo_fs_ok(2) ws(1)]
  let ?W = "\<lparr>ws_skillRoot = [], ws_tempRoot = ''/tmp/t'', ws_extraRoots = [''/g/task_r/skills/b/upstream'', ''/g/task_r/exchange'']\<rparr>"
  have "set (ws_extraRoots ?W) \<subseteq> set (sw_accessibleDirs b)"
    using layout_skill(4,6) [OF l ws(3)] by (simp add: dirs [symmetric])
  moreover have "''/g/task_r/skills/a/downstream/handoff.md'' = path_Join [''/g/task_r/skills/a/downstream'', ''handoff.md'']"
    "''/g/task_r/skills/b/upstream/a/handoff.md'' = path_Join [path_Join [''/g/task_r/skills/b/upstream'', ''a''], ''handoff.md'']"
    "fs_Lstat demo_fs ''/g/task_r/skills/b/upstream/a/handoff.md'' = Exists"
    "fs_EvalSymlinks demo_fs ''/g/task_r/skills/b/upstream/a/handoff.md'' = Inr ''/g/task_r/skills/a/downstream/handoff.md''"
    "ws_ok ?W" "\<not> below (ws_tempRoot ?W) ''/g/task_r/skills/a/downstream/handoff.md''" "ws_skillRoot ?W = []" by code_simp+
  ultimately show ?thesis using delivered_handoff_unreadable [OF demo_fs_ok(1,2) ws(1) ws(2,3), unfolded dirs, of "''/g/task_r/skills/a/downstream/handoff.md''"
      "''/g/task_r/skills/b/upstream/a/handoff.md''" ?W] by simp
qed

end
