(* ===== verification/Runner_Store.thy ===== *)
theory Runner_Store
  imports Session_Log Runner_Types Go_Filepath
begin

text \<open>
  The runner log on files, \<^verbatim>\<open>runner/store.go\<close> and \<^verbatim>\<open>runner/codec.go\<close>: one JSON Lines file per runner with a
  cached sequence number, as the session store has.  Files, cache entries and the faults of the
  operating system are those of \<open>json_store\<close>; \<open>enc\<close> and \<open>dec\<close> are \<^verbatim>\<open>json.Marshal\<close> and \<^verbatim>\<open>json.Unmarshal\<close> on
  records.  The lemmas show that the store implements an append-only list of numbered records.
\<close>

section \<open>Decoding\<close>

definition ErrRunnerLogNotFound :: string where "ErrRunnerLogNotFound = ''orchestrate: runner log not found''"
definition ErrRunnerLogNotInitialised :: string where
  "ErrRunnerLogNotInitialised = ''orchestrate: runner log must start with an init record''"
definition ErrRunnerLogAlreadyInitialised :: string where "ErrRunnerLogAlreadyInitialised = ''orchestrate: runner log already initialised''"

text \<open>The pending line: none yet, a record, or the number of a line that is none.\<close>

datatype pending_record = NoRecord | GoodRecord runner_record | BadLine nat

fun record_loop ::
  "(string \<Rightarrow> runner_record option) \<Rightarrow> runner_record list \<Rightarrow> pending_record \<Rightarrow> nat \<Rightarrow> string list \<Rightarrow> nat + runner_record list \<times> pending_record" where
  "record_loop dec out p lineNo [] = Inr (out, p)"
| "record_loop dec out p lineNo (line # ls) =
     (if TrimSpace line = [] then record_loop dec out p (Suc lineNo) ls
      else
        (let next = (case dec line of Some rec \<Rightarrow> GoodRecord rec | None \<Rightarrow> BadLine (Suc lineNo)) in
         case p of
           GoodRecord rec \<Rightarrow> record_loop dec (out @ [rec]) next (Suc lineNo) ls
         | BadLine n \<Rightarrow> Inl n
         | NoRecord \<Rightarrow> record_loop dec out next (Suc lineNo) ls))"

definition decodeRunnerRecords :: "(string \<Rightarrow> runner_record option) \<Rightarrow> string \<Rightarrow> go_error \<Rightarrow> string \<Rightarrow> go_error + runner_record list" where
  "decodeRunnerRecords dec p readErr content =
     (case scan_lines maxLine [] content of (ls, long) \<Rightarrow>
        (case record_loop dec [] NoRecord 0 ls of
           Inl n \<Rightarrow> Inl [''orchestrate: JSONRunnerStore decode '' @ go_quote p @ '': corrupt record at line '' @ itoa_digits n]
         | Inr (out, pend) \<Rightarrow>
             if readErr \<noteq> [] then Inl ((''orchestrate: JSONRunnerStore scan '' @ go_quote p) # readErr)
             else if long then Inl [''orchestrate: JSONRunnerStore scan '' @ go_quote p, errTooLong]
             else Inr (case pend of GoodRecord rec \<Rightarrow> out @ [rec] | _ \<Rightarrow> out)))"

definition scan_records :: "runner_record list \<Rightarrow> int \<times> bool" where
  "scan_records recs = fold (\<lambda>rec (l, i). (if Seq rec > l then Seq rec else l, i \<or> rec_Kind rec = RunnerRecordInit)) recs (0, False)"

text \<open>\<open>content\<close> is None when the file does not exist.\<close>

definition scanLastRunnerSeq :: "(string \<Rightarrow> runner_record option) \<Rightarrow> string \<Rightarrow> go_error \<Rightarrow> string option \<Rightarrow> go_error + int \<times> bool" where
  "scanLastRunnerSeq dec p readErr content =
     (case content of
        None \<Rightarrow> Inr (0, False)
      | Some content \<Rightarrow> (case decodeRunnerRecords dec p readErr content of Inl err \<Rightarrow> Inl err | Inr recs \<Rightarrow> Inr (scan_records recs)))"

section \<open>The store\<close>

definition validateRunnerID :: "string \<Rightarrow> go_error" where
  "validateRunnerID rid =
     (if rid = [] then [''orchestrate: runner id must not be empty'']
      else if ContainsAny rid [CHR ''/'', CHR 0x5C] \<or> Contains rid ''..''
      then [''orchestrate: runner id '' @ go_quote rid @ '' contains path separators'']
      else if hd rid = CHR ''.'' then [''orchestrate: runner id '' @ go_quote rid @ '' must not start with '' @ [CHR 0x27, CHR ''.'', CHR 0x27]]
      else [])"

definition runner_path :: "string \<Rightarrow> string \<Rightarrow> go_error + string" where
  "runner_path dir rid = (if validateRunnerID rid \<noteq> [] then Inl (validateRunnerID rid) else Inr (path_Join [dir, rid @ ''.jsonl'']))"

definition stamp_record :: "int \<Rightarrow> time \<Rightarrow> runner_record \<Rightarrow> runner_record" where
  "stamp_record n now rec = rec\<lparr>Seq := n, rec_Timestamp := (if time_IsZero (rec_Timestamp rec) then now else rec_Timestamp rec)\<rparr>"

text \<open>The part of \<^verbatim>\<open>Append\<close> that holds the lock of the file.\<close>

definition append_locked ::
  "(runner_record \<Rightarrow> go_error + string) \<Rightarrow> (string \<Rightarrow> runner_record option) \<Rightarrow> string \<Rightarrow> io_fault \<Rightarrow> time \<Rightarrow> runner_record \<Rightarrow> string
     \<Rightarrow> session_state \<Rightarrow> (go_error + int) \<times> string \<times> session_state" where
  "append_locked enc dec p io now rec content m =
     (if f_lock io \<noteq> [] then (Inl ((''orchestrate: JSONRunnerStore flock '' @ go_quote p) # f_lock io), content, m)
      else if f_stat io \<noteq> [] then (Inl ((''orchestrate: JSONRunnerStore stat '' @ go_quote p) # f_stat io), content, m)
      else
        (case (if ss_cached m \<and> length content = ss_size m then Inr (ss_lastSeq m, ss_hasInit m)
               else scanLastRunnerSeq dec p (f_read io) (Some content)) of
           Inl e \<Rightarrow> (Inl e, content, m)
         | Inr (lastSeq, hasInit) \<Rightarrow>
             if rec_Kind rec = RunnerRecordInit \<and> hasInit then (Inl [ErrRunnerLogAlreadyInitialised], content, m)
             else if rec_Kind rec \<noteq> RunnerRecordInit \<and> \<not> hasInit then (Inl [ErrRunnerLogNotInitialised], content, m)
             else
               let rec = stamp_record (lastSeq + 1) now rec in
               (case enc rec of
                  Inl e \<Rightarrow> (Inl (''orchestrate: JSONRunnerStore encode record'' # e), content, m)
                | Inr line \<Rightarrow>
                    (case f_write io of (written, werr) \<Rightarrow>
                       if werr \<noteq> [] then
                         (Inl ((''orchestrate: JSONRunnerStore write '' @ go_quote p) # werr), content @ take written (line @ [newline]), m\<lparr>ss_cached := False\<rparr>)
                       else
                         let content = content @ line @ [newline] in
                         if f_sync io \<noteq> [] then (Inl ((''orchestrate: JSONRunnerStore sync '' @ go_quote p) # f_sync io), content, m\<lparr>ss_cached := False\<rparr>)
                         else if f_restat io = [] then
                           (Inr (Seq rec), content,
                            \<lparr>ss_lastSeq = Seq rec, ss_hasInit = hasInit \<or> rec_Kind rec = RunnerRecordInit, ss_size = length content, ss_cached = True\<rparr>)
                         else (Inr (Seq rec), content, m\<lparr>ss_cached := False\<rparr>)))))"

definition runner_Append ::
  "(runner_record \<Rightarrow> go_error + string) \<Rightarrow> (string \<Rightarrow> runner_record option) \<Rightarrow> string \<Rightarrow> string \<Rightarrow> time \<Rightarrow> runner_record option \<Rightarrow> json_store
     \<Rightarrow> (go_error + int) \<times> json_store" where
  "runner_Append enc dec dir rid now rec s =
     (case rec of
        None \<Rightarrow> (Inl [''orchestrate: JSONRunnerStore.Append requires a non-nil record''], s)
      | Some rec \<Rightarrow>
          (case runner_path dir rid of
             Inl err \<Rightarrow> (Inl err, s)
           | Inr p \<Rightarrow>
            (case next_fault s of (io, s) \<Rightarrow>
               let m = getState s rid; s = setState rid m s in
               if f_open io \<noteq> [] then (Inl ((''orchestrate: JSONRunnerStore open '' @ go_quote p) # f_open io), s)
               else
                 (case append_locked enc dec p io now rec (file_content s rid) m of (r, content, m) \<Rightarrow>
                    (r, setState rid m (set_file rid content s))))))"

definition runner_Load :: "(string \<Rightarrow> runner_record option) \<Rightarrow> string \<Rightarrow> string \<Rightarrow> json_store \<Rightarrow> (go_error + runner_record list) \<times> json_store" where
  "runner_Load dec dir rid s =
     (case runner_path dir rid of
        Inl err \<Rightarrow> (Inl err, s)
      | Inr p \<Rightarrow>
        (case next_fault s of (io, s) \<Rightarrow>
           let s = setState rid (getState s rid) s in
           (case map_get (js_files s) rid of
              None \<Rightarrow> (Inl [ErrRunnerLogNotFound], s)
            | Some content \<Rightarrow>
                if f_open io \<noteq> [] then (Inl ((''orchestrate: JSONRunnerStore read '' @ go_quote p) # f_open io), s)
                else (decodeRunnerRecords dec p (f_read io) content, s))))"

definition runner_Delete :: "string \<Rightarrow> string \<Rightarrow> json_store \<Rightarrow> go_error \<times> json_store" where
  "runner_Delete dir rid s =
     (case runner_path dir rid of
        Inl err \<Rightarrow> (err, s)
      | Inr p \<Rightarrow>
        (case next_fault s of (io, s) \<Rightarrow>
           let s = uncache rid s in
           if map_get (js_files s) rid = None then ([ErrRunnerLogNotFound], s)
           else if f_open io \<noteq> [] then ((''orchestrate: JSONRunnerStore delete '' @ go_quote p) # f_open io, s)
           else ([], s\<lparr>js_files := map_delete (js_files s) rid\<rparr>)))"

section \<open>The list it implements\<close>

definition seq_numbered :: "runner_record list \<Rightarrow> bool" where
  "seq_numbered recs \<longleftrightarrow> (\<forall>i < length recs. Seq (recs ! i) = int i + 1 \<and> (rec_Kind (recs ! i) = RunnerRecordInit \<longleftrightarrow> i = 0))"

definition spec_append :: "time \<Rightarrow> runner_record \<Rightarrow> runner_record list \<Rightarrow> go_error + runner_record list" where
  "spec_append now rec recs =
     (if rec_Kind rec = RunnerRecordInit \<and> recs \<noteq> [] then Inl [ErrRunnerLogAlreadyInitialised]
      else if rec_Kind rec \<noteq> RunnerRecordInit \<and> recs = [] then Inl [ErrRunnerLogNotInitialised]
      else Inr (recs @ [stamp_record (int (length recs) + 1) now rec]))"

definition record_file :: "(runner_record \<Rightarrow> go_error + string) \<Rightarrow> (string \<Rightarrow> runner_record option) \<Rightarrow> string \<Rightarrow> runner_record list \<Rightarrow> bool" where
  "record_file enc dec f recs \<longleftrightarrow> seq_numbered recs
     \<and> (\<exists>ls. f = lines_text ls \<and> list_all2 (\<lambda>l rec. plain_line l \<and> dec l = Some rec) ls recs)"

definition cached_right :: "session_state \<Rightarrow> string \<Rightarrow> runner_record list \<Rightarrow> bool" where
  "cached_right m f recs \<longleftrightarrow> (ss_cached m \<and> length f = ss_size m \<longrightarrow>
     ss_lastSeq m = int (length recs) \<and> (ss_hasInit m \<longleftrightarrow> recs \<noteq> []))"

definition storable_record :: "(runner_record \<Rightarrow> go_error + string) \<Rightarrow> (string \<Rightarrow> runner_record option) \<Rightarrow> runner_record \<Rightarrow> bool" where
  "storable_record enc dec rec \<longleftrightarrow>
     (\<exists>l. enc rec = Inr l \<and> dec l = Some rec \<and> plain_line l)"

text \<open>The abstraction: \<open>logs\<close> gives the records of every runner.\<close>

definition represents ::
  "(runner_record \<Rightarrow> go_error + string) \<Rightarrow> (string \<Rightarrow> runner_record option) \<Rightarrow> json_store \<Rightarrow> (string \<Rightarrow> runner_record list) \<Rightarrow> bool" where
  "represents enc dec s logs \<longleftrightarrow>
     (\<forall>rid. record_file enc dec (file_content s rid) (logs rid) \<and> cached_right (getState s rid) (file_content s rid) (logs rid))"

lemma numbered_snoc:
  "seq_numbered (recs @ [rec]) \<longleftrightarrow> seq_numbered recs \<and> Seq rec = int (length recs) + 1 \<and> (rec_Kind rec = RunnerRecordInit \<longleftrightarrow> recs = [])"
  by (auto simp: seq_numbered_def nth_append less_Suc_eq)

lemma stamp_record_simps [simp]: "Seq (stamp_record n t rec) = n" "rec_Kind (stamp_record n t rec) = rec_Kind rec"
  by (simp_all add: stamp_record_def)

lemma scan_records_numbered: "seq_numbered recs \<Longrightarrow> scan_records recs = (int (length recs), recs \<noteq> [])"
proof (induction recs rule: rev_induct)
  case (snoc rec recs)
  then show ?case by (simp add: numbered_snoc scan_records_def)
qed (simp add: scan_records_def)

lemma record_lines:
  assumes "list_all2 (\<lambda>l rec. plain_line l \<and> dec l = Some rec) ls recs"
  shows "record_loop dec out p n ls =
    (case p of
       BadLine k \<Rightarrow> if ls = [] then Inr (out, p) else Inl k
     | NoRecord \<Rightarrow> Inr (if recs = [] then (out, NoRecord) else (out @ butlast recs, GoodRecord (last recs)))
     | GoodRecord rec \<Rightarrow> Inr (out @ butlast (rec # recs), GoodRecord (last (rec # recs))))"
  using assms
  by (induction arbitrary: out p n) (auto simp: plain_line_def split: pending_record.splits)

lemma decode_record_file:
  assumes "record_file enc dec f recs"
  shows "decodeRunnerRecords dec p [] f = Inr recs"
proof -
  obtain ls where f: "f = lines_text ls" and ls: "list_all2 (\<lambda>l rec. plain_line l \<and> dec l = Some rec) ls recs"
    using assms by (auto simp: record_file_def)
  have "\<forall>l \<in> set ls. plain_line l" using ls by (auto simp: list_all2_conv_all_nth in_set_conv_nth)
  from scan_text [OF this, of "[]"] f have "scan_lines maxLine [] f = (ls, False)" by (simp add: maxLine_def)
  then show ?thesis using record_lines [OF ls, of "[]" NoRecord 0] by (simp add: decodeRunnerRecords_def)
qed

lemma record_file_snoc:
  assumes "record_file enc dec f recs" "dec l = Some rec" "plain_line l" "seq_numbered (recs @ [rec])"
  shows "record_file enc dec (f @ l @ [newline]) (recs @ [rec])"
proof -
  obtain ls where ls: "f = lines_text ls" "list_all2 (\<lambda>l rec. plain_line l \<and> dec l = Some rec) ls recs"
    using assms(1) by (auto simp: record_file_def)
  then have "f @ l @ [newline] = lines_text (ls @ [l])" "list_all2 (\<lambda>l rec. plain_line l \<and> dec l = Some rec) (ls @ [l]) (recs @ [rec])"
    using assms(2,3) by (simp_all add: list_all2_appendI)
  then show ?thesis using assms(4) unfolding record_file_def by blast
qed

lemma append_locked_spec:
  assumes "record_file enc dec f recs" "cached_right m f recs" "storable_record enc dec (stamp_record (int (length recs) + 1) now rec)"
  shows "case spec_append now rec recs of
      Inl err \<Rightarrow> append_locked enc dec p no_fault now rec f m = (Inl err, f, m)
    | Inr recs' \<Rightarrow> \<exists>f' m'. append_locked enc dec p no_fault now rec f m = (Inr (int (length recs')), f', m')
        \<and> record_file enc dec f' recs' \<and> cached_right m' f' recs'"
proof -
  have num: "seq_numbered recs" using assms(1) by (simp add: record_file_def)
  have pos: "(if ss_cached m \<and> length f = ss_size m then Inr (ss_lastSeq m, ss_hasInit m)
      else scanLastRunnerSeq dec p (f_read no_fault) (Some f)) = Inr (int (length recs), recs \<noteq> [])"
    using assms(2) decode_record_file [OF assms(1)] scan_records_numbered [OF num]
    by (simp add: cached_right_def scanLastRunnerSeq_def no_fault_def)
  let ?r = "stamp_record (int (length recs) + 1) now rec"
  obtain l where l: "enc ?r = Inr l" "dec l = Some ?r" "plain_line l" using assms(3) by (auto simp: storable_record_def)
  show ?thesis
  proof (cases "spec_append now rec recs")
    case (Inl err)
    then show ?thesis using pos by (auto simp: append_locked_def spec_append_def no_fault_def split: if_splits)
  next
    case (Inr recs')
    then have k: "rec_Kind rec = RunnerRecordInit \<longleftrightarrow> recs = []" and r: "recs' = recs @ [?r]" by (auto simp: spec_append_def split: if_splits)
    have "record_file enc dec (f @ l @ [newline]) recs'"
      unfolding r by (rule record_file_snoc [OF assms(1) l(2,3)]) (simp add: numbered_snoc num k)
    moreover have "append_locked enc dec p no_fault now rec f m = (Inr (int (length recs')), f @ l @ [newline],
        \<lparr>ss_lastSeq = int (length recs'), ss_hasInit = True, ss_size = length (f @ l @ [newline]), ss_cached = True\<rparr>)"
      using pos l(1) k by (auto simp: append_locked_def no_fault_def r Let_def)
    ultimately show ?thesis using Inr r by (auto simp: cached_right_def)
  qed
qed

lemma represents_update:
  assumes "represents enc dec s logs" "record_file enc dec f recs" "cached_right m f recs"
  shows "represents enc dec (setState rid m (set_file rid f s)) (logs(rid := recs))"
  using assms by (auto simp: represents_def)

lemma record_file_Nil [simp]: "record_file enc dec [] recs \<longleftrightarrow> recs = []"
proof -
  have eq: "([] = lines_text ls) \<longleftrightarrow> ls = []" for ls by (cases ls) auto
  show ?thesis unfolding record_file_def eq by (auto simp: seq_numbered_def)
qed

lemma represents_touch: "represents enc dec s logs \<Longrightarrow> represents enc dec (setState rid (getState s rid) s) logs"
  by (auto simp: represents_def)

lemma no_faults: "faults s = [] \<Longrightarrow> next_fault s = (no_fault, s)"
  by (simp add: next_fault_def)

text \<open>C36. Without I/O faults, and for records that are storable (the line stays below the 8 MiB that the reader
  accepts, and decodes to the record), the files implement one append-only list of records per runner: an
  append adds the record under the next number or is refused for the reason the list gives, a load returns the
  list, a deletion empties it, and the lists of other runners stay as they are.\<close>

theorem runner_store_refines_log:
  assumes "represents enc dec s logs" "faults s = []" "validateRunnerID rid = []"
    and "storable_record enc dec (stamp_record (int (length (logs rid)) + 1) now rec)"
  shows "(case spec_append now rec (logs rid) of
       Inl err \<Rightarrow> \<exists>s'. runner_Append enc dec dir rid now (Some rec) s = (Inl err, s') \<and> represents enc dec s' logs
     | Inr recs \<Rightarrow> \<exists>s'. runner_Append enc dec dir rid now (Some rec) s = (Inr (int (length recs)), s')
         \<and> represents enc dec s' (logs(rid := recs)) \<and> faults s' = [])
    \<and> (\<exists>s'. runner_Load dec dir rid s = (if map_get (js_files s) rid = None then Inl [ErrRunnerLogNotFound] else Inr (logs rid), s')
         \<and> represents enc dec s' logs)
    \<and> (\<exists>err s'. runner_Delete dir rid s = (err, s') \<and> represents enc dec s' (logs(rid := []))
         \<and> (err = [] \<longleftrightarrow> map_get (js_files s) rid \<noteq> None))"
proof -
  define p where "p = path_Join [dir, rid @ ''.jsonl'']"
  have path: "runner_path dir rid = Inr p" using assms(3) by (simp add: runner_path_def p_def)
  note nf = no_faults [OF assms(2)]
  let ?s = "setState rid (getState s rid) s"
  have rep: "represents enc dec ?s logs" by (rule represents_touch [OF assms(1)])
  have f: "record_file enc dec (file_content s rid) (logs rid)" "cached_right (getState s rid) (file_content s rid) (logs rid)"
    using assms(1) by (auto simp: represents_def)
  have app: "runner_Append enc dec dir rid now (Some rec) s =
      (case append_locked enc dec p no_fault now rec (file_content s rid) (getState s rid) of (r, content, m) \<Rightarrow>
         (r, setState rid m (set_file rid content ?s)))"
    using nf by (simp add: runner_Append_def path Let_def no_fault_def)
  have "case spec_append now rec (logs rid) of
       Inl err \<Rightarrow> \<exists>s'. runner_Append enc dec dir rid now (Some rec) s = (Inl err, s') \<and> represents enc dec s' logs
     | Inr recs \<Rightarrow> \<exists>s'. runner_Append enc dec dir rid now (Some rec) s = (Inr (int (length recs)), s')
         \<and> represents enc dec s' (logs(rid := recs)) \<and> faults s' = []"
  proof (cases "spec_append now rec (logs rid)")
    case (Inl err)
    then show ?thesis using append_locked_spec [OF f assms(4), where p = p] represents_update [OF rep f, of rid] by (simp add: app)
  next
    case (Inr recs)
    then obtain f' m' where a: "append_locked enc dec p no_fault now rec (file_content s rid) (getState s rid) = (Inr (int (length recs)), f', m')"
      "record_file enc dec f' recs" "cached_right m' f' recs"
      using append_locked_spec [OF f assms(4), where p = p] by auto
    then show ?thesis using Inr represents_update [OF rep a(2,3), of rid] assms(2) by (simp add: app)
  qed
  moreover have "\<exists>s'. runner_Load dec dir rid s = (if map_get (js_files s) rid = None then Inl [ErrRunnerLogNotFound] else Inr (logs rid), s')
      \<and> represents enc dec s' logs"
    using nf rep decode_record_file [OF f(1)]
    by (auto simp: runner_Load_def path Let_def no_fault_def file_content_def split: option.splits)
  moreover have "\<exists>err s'. runner_Delete dir rid s = (err, s') \<and> represents enc dec s' (logs(rid := []))
      \<and> (err = [] \<longleftrightarrow> map_get (js_files s) rid \<noteq> None)"
  proof -
    let ?u = "uncache rid s"
    have fields: "js_files ?u = js_files s" "file_content (?u\<lparr>js_files := map_delete (js_files s) rid\<rparr>) q = (if q = rid then [] else file_content s q)"
      "getState (?u\<lparr>js_files := fs\<rparr>) q = getState ?u q" "file_content ?u q = file_content s q"
      "getState ?u q = (if q = rid then (getState s rid)\<lparr>ss_cached := False\<rparr> else getState s q)" for q fs
      by (simp_all add: uncache_def setState_def file_content_def getState_def)
    have "represents enc dec (?u\<lparr>js_files := map_delete (js_files s) rid\<rparr>) (logs(rid := []))"
      using assms(1) by (auto simp: represents_def fields cached_right_def)
    moreover have "represents enc dec ?u (logs(rid := []))" if "map_get (js_files s) rid = None"
      using assms(1) that by (auto simp: represents_def fields cached_right_def file_content_def)
    ultimately show ?thesis using nf by (auto simp: runner_Delete_def path Let_def no_fault_def fields)
  qed
  ultimately show ?thesis by blast
qed

definition empty_store :: json_store where
  "empty_store = \<lparr>js_files = [], js_states = [], faults = []\<rparr>"

definition one_enc :: "runner_record \<Rightarrow> go_error + string" where
  "one_enc rec = (if rec = stamp_record 1 5 (record_of RunnerRecordInit) then Inr ''{1}'' else Inl [''json: unsupported value''])"

definition one_dec :: "string \<Rightarrow> runner_record option" where
  "one_dec l = (if l = ''{1}'' then Some (stamp_record 1 5 (record_of RunnerRecordInit)) else None)"

lemma empty_represents: "represents enc dec empty_store (\<lambda>_. [])"
  by (simp add: represents_def empty_store_def file_content_def getState_def zero_state_def cached_right_def)

lemma one_plain: "plain_line ''{1}''" "plain_line ''{1''"
proof -
  have "TrimSpace ''{1}'' = ''{1}''" "TrimSpace ''{1'' = ''{1''" by code_simp+
  then show "plain_line ''{1}''" "plain_line ''{1''" by (simp_all add: plain_line_def maxLine_def newline_def drop_cr_def)
qed

theorem runner_store_refines_log_witness:
  "\<exists>s'. runner_Append one_enc one_dec ''/d'' ''r'' 5 (Some (record_of RunnerRecordInit)) empty_store = (Inr 1, s')
    \<and> represents one_enc one_dec s' ((\<lambda>_. [])(''r'' := [stamp_record 1 5 (record_of RunnerRecordInit)]))"
proof -
  have "validateRunnerID ''r'' = []" by code_simp
  moreover have "storable_record one_enc one_dec (stamp_record (int (length ((\<lambda>_. []) ''r'')) + 1) 5 (record_of RunnerRecordInit))"
    using one_plain by (auto simp: storable_record_def one_enc_def one_dec_def)
  ultimately show ?thesis
    using runner_store_refines_log [OF empty_represents _ _ _, of "''r''" one_enc one_dec 5 "record_of RunnerRecordInit" "''/d''"]
    by (simp add: empty_store_def spec_append_def record_of_def) blast
qed

text \<open>A refused append leaves an empty file behind: the log of a runner that has none exists afterwards.\<close>

theorem refused_append_creates_log:
  "\<exists>s1 s2. runner_Append one_enc one_dec ''/d'' ''r'' 5 (Some (record_of RunnerRecordStatus)) empty_store = (Inl [ErrRunnerLogNotInitialised], s1)
    \<and> runner_Load one_dec ''/d'' ''r'' empty_store = (Inl [ErrRunnerLogNotFound], s2) \<and> fst (runner_Load one_dec ''/d'' ''r'' s1) = Inr []"
proof -
  have v: "runner_path ''/d'' ''r'' = Inr ''/d/r.jsonl''" by code_simp
  show ?thesis
    by (simp add: v runner_Append_def runner_Load_def empty_store_def next_fault_def Let_def no_fault_def append_locked_def getState_def zero_state_def
        setState_def set_file_def file_content_def scanLastRunnerSeq_def decodeRunnerRecords_def scan_records_def record_of_def maxLine_def)
qed

end
