(* ===== verification/Agent_Prompt.thy ===== *)
theory Agent_Prompt
  imports Skill_Tools Runner_Workspace "HOL-Library.List_Lexorder" "HOL-Library.Char_ord"
begin

text \<open>
  The prompts of an agent, \<^verbatim>\<open>agent/prompt.go\<close>, with the state they are written from, \<^verbatim>\<open>agent/agent.go\<close>.

  What an agent reads and does is in its environment: the files it lists and reads, the stage notes
  that are embedded in the program, the layout of a time, and the codecs of the documents.
\<close>

section \<open>State\<close>

record execution_planner =
  pl_ID :: string
  pl_TaskDescription :: string
  pl_SourceInput :: string
  pl_ArtifactsDir :: string
  pl_Reason :: string
  pl_Solution :: string
  pl_Version :: "32 word"

record agent_result =
  er_Success :: bool
  er_Message :: string
  er_Handoff :: bool
  er_SharedData :: "(string \<times> string) list"

text \<open>An output: nothing, a text, a result, or a value with the text that \<^verbatim>\<open>formatAny\<close> makes of it.\<close>

datatype agent_output = OutNil | OutText string | OutResult agent_result | OutOther string

datatype agent_status = AgentPending | AgentRunning | AgentDone | AgentFailed

record 'c agent =
  ag_skill :: "'c skill option"
  ag_planner :: "execution_planner option"
  ag_runtimeCfg :: tool_set_config
  ag_runtime :: "'c skill option"
  ag_runtimePaths :: runtime_paths
  ag_Result :: "agent_result option"
  ag_Status :: agent_status

record ('w, 'm) agent_env =
  ae_os :: "'w os_env"
  ae_ReadDir :: "string \<Rightarrow> 'w \<Rightarrow> go_error + (string \<times> bool) list"   \<comment> \<open>name, is it a directory\<close>
  ae_ReadFile :: "string \<Rightarrow> 'w \<Rightarrow> go_error + string"
  ae_WriteFile :: "string \<Rightarrow> string \<Rightarrow> 'w \<Rightarrow> go_error \<times> 'w"
  ae_Now :: "'w \<Rightarrow> time"
  ae_noteFile :: "string \<Rightarrow> go_error + string"   \<comment> \<open>the embedded notes\<close>
  ae_formatTime :: "time \<Rightarrow> string"
  ae_formatResult :: "agent_result \<Rightarrow> string"
  ae_handoff_codec :: "('m, handoff_front) fm_codec"
  ae_exchange_codec :: "('m, exchange_front) fm_codec"
  ae_enc_handoff :: "handoff_front \<Rightarrow> go_error + string"
  ae_enc_exchange :: "exchange_front \<Rightarrow> go_error + string"
  ae_enc_memo :: "memo_front \<Rightarrow> go_error + string"

definition currentRuntimePaths :: "'c agent \<Rightarrow> runtime_paths" where
  "currentRuntimePaths a =
     (let paths = ag_runtimePaths a;
          paths = (if rp_RunnerID paths = [] then paths\<lparr>rp_RunnerID := ''runner''\<rparr> else paths);
          paths = (case ag_planner a of Some pl \<Rightarrow> if rp_NodeID paths = [] then paths\<lparr>rp_NodeID := pl_ID pl\<rparr> else paths | None \<Rightarrow> paths);
          paths = (if rp_NodeID paths = [] then paths\<lparr>rp_NodeID := ''node''\<rparr> else paths)
      in case ag_skill a of Some sk \<Rightarrow> if rp_SkillName paths = [] then paths\<lparr>rp_SkillName := sk_Name sk\<rparr> else paths | None \<Rightarrow> paths)"

text \<open>\<^verbatim>\<open>internal/instructions/instructions.go\<close>.\<close>

definition stage_char :: "char \<Rightarrow> bool" where
  "stage_char r \<longleftrightarrow> (CHR ''a'' \<le> r \<and> r \<le> CHR ''z'') \<or> (CHR ''0'' \<le> r \<and> r \<le> CHR ''9'') \<or> r = CHR ''-'' \<or> r = CHR ''_''"

definition validStageName :: "string \<Rightarrow> bool" where
  "validStageName name \<longleftrightarrow> name \<noteq> [] \<and> list_all stage_char name"

definition StageNote :: "(string \<Rightarrow> go_error + string) \<Rightarrow> string \<Rightarrow> go_error + string" where
  "StageNote noteFile stage =
     (let name = TrimSpace stage in
      if name = [] then Inl [''instructions: stage must not be empty'']
      else if \<not> validStageName name then Inl [''instructions: invalid stage '' @ go_quote stage]
      else
        (case noteFile (name @ ''.md'') of
           Inl err \<Rightarrow> Inl ((''instructions: read '' @ name @ '' note'') # err)
         | Inr raw \<Rightarrow> Inr (TrimSpace raw)))"

section \<open>Markdown\<close>

definition backtick :: string where "backtick = [CHR 0x60]"

definition code_span :: "string \<Rightarrow> string" where
  "code_span s = backtick @ s @ backtick"

definition para :: string where "para = [newline, newline]"

definition dash :: string where "dash = '' '' @ [CHR 0xE2, CHR 0x80, CHR 0x94] @ '' ''"

definition appendMarkdownSection :: "string \<Rightarrow> string \<Rightarrow> string \<Rightarrow> string" where
  "appendMarkdownSection base heading body =
     (let trimmed = TrimSpace body in
      if trimmed = [] then TrimSpace base
      else TrimSpace (TrimSpace base @ para @ ''## '' @ heading @ para @ trimmed))"

definition exchangeReferenceInstruction :: "string \<Rightarrow> string" where
  "exchangeReferenceInstruction stage =
     (if stage = ''execute'' then ''Inspect these shared public exchange documents with tools only when the stage task needs their contents.''
      else ''This stage does not allow tool use, so do not inspect exchange documents during this stage.'')"

definition upstreamHandoffReferenceInstruction :: "string \<Rightarrow> string" where
  "upstreamHandoffReferenceInstruction stage =
     (if stage = ''execute'' then ''Inspect these directed upstream handoffs with tools when the task depends on parent output.''
      else ''This stage does not allow tool use, so do not inspect directed upstream handoffs during this stage.'')"

section \<open>References\<close>

definition exchange_line :: "('w, 'm) agent_env \<Rightarrow> string \<Rightarrow> string \<Rightarrow> string" where
  "exchange_line e path raw =
     (case ParseExchangeDocMarkdown (ae_exchange_codec e) raw of
        Inr doc \<Rightarrow>
          ''- '' @ code_span path @ dash @ ''node '' @ code_span (ex_NodeID doc)
          @ (if ex_SkillName doc \<noteq> [] then '', skill '' @ code_span (ex_SkillName doc) else [])
          @ (if ex_Title doc \<noteq> [] then '', title '' @ go_quote (ex_Title doc) else [])
          @ (if \<not> time_IsZero (ch_CreatedAt (ex_Header doc)) then '', created '' @ code_span (ae_formatTime e (ch_CreatedAt (ex_Header doc))) else [])
      | Inl _ \<Rightarrow> ''- '' @ code_span path @ dash @ ''markdown file with unavailable exchange metadata'')"

definition exchange_refs :: "('w, 'm) agent_env \<Rightarrow> string \<Rightarrow> (string \<times> bool) list \<Rightarrow> 'w \<Rightarrow> (string \<times> string) list" where
  "exchange_refs e dir entries w =
     concat (map (\<lambda>(name, isDir).
       if isDir \<or> \<not> HasSuffix name ''.md'' then []
       else
         let path = path_Join [dir, name] in
         (case ae_ReadFile e path w of Inl _ \<Rightarrow> [] | Inr raw \<Rightarrow> [(name, exchange_line e path raw)])) entries)"

definition exchangeReferencesMarkdown :: "('w, 'm) agent_env \<Rightarrow> 'c agent \<Rightarrow> string \<Rightarrow> 'w \<Rightarrow> string" where
  "exchangeReferencesMarkdown e a stage w =
     (let paths = currentRuntimePaths a; intro = exchangeReferenceInstruction stage; dir = rp_ExchangeDir paths;
          head = ''### Exchange references'' @ para @ intro @ para
      in if dir = [] then head @ ''No exchange directory is available.''
         else
           (case ae_ReadDir e dir w of
              Inl _ \<Rightarrow> head @ ''Exchange directory: '' @ code_span dir @ para @ ''No exchange references are currently readable.''
            | Inr entries \<Rightarrow>
                let refs = sort_key fst (exchange_refs e dir entries w) in
                if refs = [] then head @ ''No exchange references are currently available.''
                else TrimSpace (head @ concat (map (\<lambda>ref. snd ref @ [newline]) refs))))"

definition handoff_line :: "('w, 'm) agent_env \<Rightarrow> string \<Rightarrow> string \<Rightarrow> string \<Rightarrow> string" where
  "handoff_line e name path raw =
     (case ParseHandoffMarkdown (ae_handoff_codec e) raw of
        Inr doc \<Rightarrow>
          ''- From '' @ code_span (hf_FromNode doc) @ '': '' @ code_span path
          @ (if hf_Intent doc \<noteq> [] then '', intent '' @ code_span (hf_Intent doc) else [])
          @ (if hf_ToNodes doc \<noteq> [] then '', to '' @ code_span (Join (hf_ToNodes doc) (backtick @ '', '' @ backtick)) else [])
          @ (if \<not> time_IsZero (ch_CreatedAt (hf_Header doc)) then '', created '' @ code_span (ae_formatTime e (ch_CreatedAt (hf_Header doc))) else [])
          @ (if hf_Artifacts doc \<noteq> [] then '', artifacts:'' @ concat (map (\<lambda>art. '' '' @ code_span (da_Path art)) (hf_Artifacts doc)) else [])
      | Inl _ \<Rightarrow> ''- From '' @ code_span name @ '': '' @ code_span path)"

definition upstreamHandoffReferences :: "('w, 'm) agent_env \<Rightarrow> 'c agent \<Rightarrow> 'w \<Rightarrow> string list" where
  "upstreamHandoffReferences e a w =
     (let dir = rp_UpstreamDir (currentRuntimePaths a) in
      if dir = [] then []
      else
        (case ae_ReadDir e dir w of
           Inl _ \<Rightarrow> []
         | Inr entries \<Rightarrow>
             sort (concat (map (\<lambda>(name, isDir).
               if \<not> isDir then []
               else
                 let path = path_Join [dir, name, ''handoff.md''] in
                 (case ae_ReadFile e path w of Inl _ \<Rightarrow> [] | Inr raw \<Rightarrow> [handoff_line e name path raw])) entries))))"

definition upstreamHandoffReferencesMarkdown :: "'c agent \<Rightarrow> string \<Rightarrow> string list \<Rightarrow> string" where
  "upstreamHandoffReferencesMarkdown a stage refs =
     (let intro = upstreamHandoffReferenceInstruction stage;
          head = ''## Directed upstream handoff references'' @ para @ intro @ para
      in if rp_UpstreamDir (currentRuntimePaths a) = [] then head @ ''No directed upstream handoff directory is available.''
         else if refs = [] then head @ ''No directed upstream handoffs are currently available.''
         else TrimSpace (head @ concat (map (\<lambda>ref. ref @ [newline]) refs)))"

section \<open>Prompts\<close>

definition path_line :: "string \<Rightarrow> string \<Rightarrow> string" where
  "path_line label path = (if path = [] then [] else ''- '' @ code_span label @ '': '' @ code_span path @ [newline])"

definition runtimeContextMarkdown :: "('w, 'm) agent_env \<Rightarrow> 'c agent \<Rightarrow> string \<Rightarrow> 'w \<Rightarrow> string" where
  "runtimeContextMarkdown e a stage w =
     (let paths = currentRuntimePaths a in
      TrimSpace (''## Runtime context'' @ para
        @ ''- Runner ID: '' @ rp_RunnerID paths @ [newline] @ ''- Node ID: '' @ rp_NodeID paths @ [newline]
        @ (if rp_SkillName paths \<noteq> [] then ''- Skill name: '' @ rp_SkillName paths @ [newline] else [])
        @ [newline] @ ''### Workspace channel paths'' @ para
        @ path_line ''memo/'' (rp_MemoDir paths) @ path_line ''upstream/'' (rp_UpstreamDir paths) @ path_line ''downstream/'' (rp_DownstreamDir paths)
        @ (if rp_DownstreamDir paths \<noteq> [] then path_line ''downstream/artifacts/'' (path_Join [rp_DownstreamDir paths, ''artifacts'']) else [])
        @ path_line ''scratch/'' (rp_ScratchDir paths) @ path_line ''exchange/'' (rp_ExchangeDir paths)
        @ (if rp_AccessibleDirs paths \<noteq> [] then
             [newline] @ ''### Accessible roots'' @ para
             @ concat (map (\<lambda>dir. if dir \<noteq> [] then ''- '' @ code_span dir @ [newline] else []) (rp_AccessibleDirs paths))
           else [])
        @ [newline] @ exchangeReferencesMarkdown e a stage w))"

definition stagePromptWithUpstreamReferences :: "('w, 'm) agent_env \<Rightarrow> 'c agent \<Rightarrow> string \<Rightarrow> string \<Rightarrow> string list \<Rightarrow> 'w \<Rightarrow> string" where
  "stagePromptWithUpstreamReferences e a stage task upstreamRefs w =
     (let note = (case StageNote (ae_noteFile e) stage of Inr n \<Rightarrow> n | Inl _ \<Rightarrow> ''# '' @ stage @ '' stage'') in
      TrimSpace (note @ para @ runtimeContextMarkdown e a stage w @ para @ ''## Stage task'' @ para
        @ (if TrimSpace task = [] then ''No task description was provided.'' else TrimSpace task)
        @ para @ upstreamHandoffReferencesMarkdown a stage upstreamRefs))"

definition stagePrompt :: "('w, 'm) agent_env \<Rightarrow> 'c agent \<Rightarrow> string \<Rightarrow> string \<Rightarrow> 'w \<Rightarrow> string" where
  "stagePrompt e a stage task w = stagePromptWithUpstreamReferences e a stage task (upstreamHandoffReferences e a w) w"

definition executionPrompt :: "('w, 'm) agent_env \<Rightarrow> 'c agent \<Rightarrow> (string, agent_output) gomap \<Rightarrow> 'w \<Rightarrow> string" where
  "executionPrompt e a parentOutputs w =
     (let task = (case ag_planner a of Some pl \<Rightarrow> pl_TaskDescription pl | None \<Rightarrow> []);
          sourceInput = (case ag_planner a of Some pl \<Rightarrow> pl_SourceInput pl | None \<Rightarrow> []);
          upstreamRefs = upstreamHandoffReferences e a w;
          prompt = stagePromptWithUpstreamReferences e a ''execute'' task upstreamRefs w
      in if sourceInput \<noteq> [] \<and> parentOutputs = [] \<and> upstreamRefs = [] then appendMarkdownSection prompt ''Original root request input'' sourceInput
         else prompt)"

definition polishPrompt :: "('w, 'm) agent_env \<Rightarrow> 'c agent \<Rightarrow> 'w \<Rightarrow> string" where
  "polishPrompt e a w =
     (case ag_planner a of
        None \<Rightarrow> stagePrompt e a ''polish'' [] w
      | Some pl \<Rightarrow>
          let prompt = stagePrompt e a ''polish'' (pl_TaskDescription pl) w;
              draft = (if pl_Version pl \<noteq> 0 then ''- Version: '' @ itoa_digits (unat (pl_Version pl)) @ [newline] else [])
                @ (if pl_Reason pl \<noteq> [] then ''- Reason: '' @ pl_Reason pl @ [newline] else [])
                @ (if pl_Solution pl \<noteq> [] then ''- Solution: '' @ pl_Solution pl @ [newline] else [])
          in if TrimSpace draft \<noteq> [] then appendMarkdownSection prompt ''Current planner draft'' draft else prompt)"

definition formatAny :: "('w, 'm) agent_env \<Rightarrow> agent_output \<Rightarrow> string" where
  "formatAny e v = (case v of OutNil \<Rightarrow> [] | OutText t \<Rightarrow> t | OutResult r \<Rightarrow> ae_formatResult e r | OutOther t \<Rightarrow> t)"

definition reportPrompt :: "('w, 'm) agent_env \<Rightarrow> 'c agent \<Rightarrow> agent_output \<Rightarrow> 'w \<Rightarrow> string" where
  "reportPrompt e a outp w =
     appendMarkdownSection (stagePrompt e a ''report'' ''Summarize this agent output.'' w) ''Agent output'' (formatAny e outp)"

end
