(* ===== verification/Agent_Stages.thy ===== *)
theory Agent_Stages
  imports Agent_Prompt
begin

text \<open>
  The work of an agent on its node: binding, the polish, execute and report stages and what they leave
  in the workspace, from \<^verbatim>\<open>agent/agent.go\<close>, \<^verbatim>\<open>agent/stage.go\<close> and \<^verbatim>\<open>agent/workspace.go\<close>.

  \<open>ctxErr\<close> is \<^verbatim>\<open>ctx.Err()\<close> at the moment it is asked (no context is one without error), \<open>run\<close> the run of
  the bound skill on a prompt, and \<open>model\<close> the model of the client a skill is bound to, empty when
  there is no client.  \<^verbatim>\<open>NewAgent\<close> insists on a planner, so an agent has one.
\<close>

section \<open>Agents\<close>

definition zero_paths :: runtime_paths where
  "zero_paths = \<lparr>rp_RunnerID = [], rp_NodeID = [], rp_SkillName = [], rp_MemoDir = [], rp_UpstreamDir = [], rp_DownstreamDir = [],
     rp_ScratchDir = [], rp_ExchangeDir = [], rp_ArchiveMemoDir = [], rp_AccessibleDirs = []\<rparr>"

definition NewAgent :: "'c skill option \<Rightarrow> execution_planner option \<Rightarrow> go_error + 'c agent" where
  "NewAgent sk planner =
     (case sk of
        None \<Rightarrow> Inl [''orchestrate: agent requires a non-nil skill'']
      | Some s \<Rightarrow>
          (case planner of
             None \<Rightarrow> Inl [''orchestrate: agent requires a non-nil planner'']
           | Some pl \<Rightarrow>
               Inr \<lparr>ag_skill = Some s, ag_planner = Some pl, ag_runtimeCfg = copyToolSetConfig (sk_toolSet s), ag_runtime = None,
                    ag_runtimePaths = zero_paths, ag_Result = None, ag_Status = AgentPending\<rparr>))"

definition planTask :: "'c agent \<Rightarrow> 'c agent" where
  "planTask a =
     a\<lparr>ag_planner := map_option (\<lambda>pl. pl\<lparr>pl_Reason := ''The task requires processing data and generating a report.'',
         pl_Solution := ''Use a data processing library to analyze the data and generate the report.'', pl_Version := pl_Version pl + 1\<rparr>) (ag_planner a)\<rparr>"

definition SetRuntimeToolSetConfig :: "tool_set_config \<Rightarrow> 'c agent \<Rightarrow> 'c agent" where
  "SetRuntimeToolSetConfig cfg a = a\<lparr>ag_runtimeCfg := cfg\<rparr>"

text \<open>The session is the one of the conversation that \<^verbatim>\<open>Bind\<close> made, if any.\<close>

definition BindForRunner ::
  "fs \<Rightarrow> (string option \<Rightarrow> (string \<Rightarrow> go_error) option list \<Rightarrow> 'c skill \<Rightarrow> go_error + 'c skill) \<Rightarrow> ('c \<Rightarrow> string) \<Rightarrow> string option \<Rightarrow> runtime_paths
     \<Rightarrow> (string \<Rightarrow> go_error) option list \<Rightarrow> 'c agent \<Rightarrow> (go_error + string) \<times> 'c agent" where
  "BindForRunner fs bind sessionID sessID paths stores a =
     (case ag_skill a of
        None \<Rightarrow> (Inl [''orchestrate: agent requires a non-nil skill''], a)
      | Some s \<Rightarrow>
          (case WithToolSetConfig fs (ag_runtimeCfg a) s of
             Inl err \<Rightarrow> (Inl err, a)
           | Inr sk \<Rightarrow>
               (case (if rp_AccessibleDirs paths \<noteq> [] then SetAccessibleDirsAndBuiltinTools fs (AccessibleDirs s @ rp_AccessibleDirs paths) sk else Inr sk) of
                  Inl err \<Rightarrow> (Inl err, a)
                | Inr sk \<Rightarrow>
                    (case bind sessID stores sk of
                       Inl err \<Rightarrow> (Inl err, a)
                     | Inr bound \<Rightarrow>
                         (Inr (case sk_conv bound of Some c \<Rightarrow> sessionID c | None \<Rightarrow> []), a\<lparr>ag_runtime := Some bound, ag_runtimePaths := paths\<rparr>)))))"

definition captureResult :: "agent_output \<Rightarrow> 'c agent \<Rightarrow> 'c agent" where
  "captureResult outp a = (case outp of OutResult r \<Rightarrow> a\<lparr>ag_Result := Some r\<rparr> | _ \<Rightarrow> a)"

definition runnableRuntimeSkill :: "('c skill \<Rightarrow> string) \<Rightarrow> 'c agent \<Rightarrow> go_error + bool" where
  "runnableRuntimeSkill model a =
     (case ag_runtime a of
        None \<Rightarrow> Inl [''orchestrate: agent skill '' @ go_quote (case ag_skill a of Some s \<Rightarrow> sk_Name s | None \<Rightarrow> []) @ '' has not been bound by the runner'']
      | Some rt \<Rightarrow> Inr (model rt \<noteq> []))"

section \<open>Memo snapshots\<close>

definition memo_is_link :: "('w, 'm) agent_env \<Rightarrow> string \<Rightarrow> 'w \<Rightarrow> bool" where
  "memo_is_link e path w = (case oe_Lstat (ae_os e) path w of FileInfo isLink _ \<Rightarrow> isLink | _ \<Rightarrow> False)"

definition snapshot_entry ::
  "('w, 'm) agent_env \<Rightarrow> runtime_paths \<Rightarrow> string \<Rightarrow> string \<Rightarrow> string \<Rightarrow> go_error + bool \<Rightarrow> 'w \<Rightarrow> go_error \<times> 'w" where
  "snapshot_entry e paths memoRoot stageRoot path d w =
     (case d of
        Inl walkErr \<Rightarrow> (walkErr, w)
      | Inr isDir \<Rightarrow>
          if isDir then ([], w)
          else if memo_is_link e path w then ([], w)
          else
            (case fs_EvalSymlinks (oe_fs (ae_os e) w) path of
               Inl err \<Rightarrow> (err, w)
             | Inr realPath \<Rightarrow>
                 (case path_Abs (oe_fs (ae_os e) w) realPath of
                    Inl err \<Rightarrow> (err, w)
                  | Inr resolved \<Rightarrow>
                      if \<not> pathWithinRoot memoRoot resolved then ([''orchestrate: memo snapshot path escapes memo dir: '' @ path], w)
                      else
                        (case path_Rel (rp_MemoDir paths) path of
                           Inl err \<Rightarrow> (err, w)
                         | Inr rel \<Rightarrow>
                             (case ae_ReadFile e path w of
                                Inl err \<Rightarrow> (err, w)
                              | Inr body \<Rightarrow>
                                  (case memo_Markdown (ae_enc_memo e) (ae_Now e w)
                                      \<lparr>mm_Header = zero_header\<lparr>ch_RunnerID := rp_RunnerID paths, ch_CreatedAt := ae_Now e w\<rparr>, mm_NodeID = rp_NodeID paths,
                                       mm_SkillName = rp_SkillName paths, mm_Path = path_Join [''memo'', rel], mm_Body = body\<rparr> of
                                     Inl err \<Rightarrow> (err, w)
                                   | Inr raw \<Rightarrow>
                                       let dst = path_Join [stageRoot, rel @ ''.memo.md''] in
                                       (case oe_MkdirAll (ae_os e) (path_Dir dst) w of (err, w) \<Rightarrow>
                                          if err \<noteq> [] then (err, w) else ae_WriteFile e dst raw w)))))))"

fun snapshot_entries ::
  "('w, 'm) agent_env \<Rightarrow> runtime_paths \<Rightarrow> string \<Rightarrow> string \<Rightarrow> (string \<times> (go_error + bool)) list \<Rightarrow> 'w \<Rightarrow> go_error \<times> 'w" where
  "snapshot_entries e paths memoRoot stageRoot [] w = ([], w)"
| "snapshot_entries e paths memoRoot stageRoot ((path, d) # entries) w =
     (case snapshot_entry e paths memoRoot stageRoot path d w of (err, w) \<Rightarrow>
        if err \<noteq> [] then (err, w) else snapshot_entries e paths memoRoot stageRoot entries w)"

definition snapshotMemos :: "('w, 'm) agent_env \<Rightarrow> string \<Rightarrow> runtime_paths \<Rightarrow> 'w \<Rightarrow> go_error \<times> 'w" where
  "snapshotMemos e stage paths w =
     (if rp_MemoDir paths = [] \<or> rp_ArchiveMemoDir paths = [] then ([], w)
      else
        (case fs_EvalSymlinks (oe_fs (ae_os e) w) (rp_MemoDir paths) of
           Inl err \<Rightarrow> (wrap ''orchestrate: resolve memo dir'' err, w)
         | Inr realPath \<Rightarrow>
             (case path_Abs (oe_fs (ae_os e) w) realPath of
                Inl err \<Rightarrow> (wrap ''orchestrate: resolve memo dir abs path'' err, w)
              | Inr memoRoot \<Rightarrow>
                  let stageRoot = path_Join [rp_ArchiveMemoDir paths, stage] in
                  (case oe_MkdirAll (ae_os e) stageRoot w of (err, w) \<Rightarrow>
                     if err \<noteq> [] then (wrap ''orchestrate: create memo snapshot dir'' err, w)
                     else snapshot_entries e paths memoRoot stageRoot (oe_WalkDir (ae_os e) (rp_MemoDir paths) w) w))))"

section \<open>Stage outputs\<close>

definition exchangeDocMarkdown :: "('w, 'm) agent_env \<Rightarrow> runtime_paths \<Rightarrow> string \<Rightarrow> string \<Rightarrow> 'w \<Rightarrow> go_error + string" where
  "exchangeDocMarkdown e paths stage body w =
     exchange_Markdown (ae_enc_exchange e) (ae_Now e w)
       \<lparr>ex_Header = zero_header\<lparr>ch_RunnerID := rp_RunnerID paths, ch_CreatedAt := ae_Now e w\<rparr>, ex_NodeID = rp_NodeID paths,
        ex_SkillName = rp_SkillName paths, ex_Title = stage, ex_Body = TrimSpace body\<rparr>"

definition stage_handoff :: "('w, 'm) agent_env \<Rightarrow> runtime_paths \<Rightarrow> string \<Rightarrow> string list \<Rightarrow> string \<Rightarrow> 'w \<Rightarrow> handoff_doc" where
  "stage_handoff e paths intent toNodes body w =
     \<lparr>hf_Header = zero_header\<lparr>ch_RunnerID := rp_RunnerID paths, ch_CreatedAt := ae_Now e w\<rparr>, hf_FromNode = rp_NodeID paths,
      hf_ToNodes = toNodes, hf_Intent = intent, hf_Artifacts = [], hf_Body = TrimSpace body\<rparr>"

definition write_exchange :: "('w, 'm) agent_env \<Rightarrow> runtime_paths \<Rightarrow> string \<Rightarrow> string \<Rightarrow> 'w \<Rightarrow> go_error \<times> 'w" where
  "write_exchange e paths stage body w =
     (if rp_ExchangeDir paths = [] then ([], w)
      else
        (case oe_MkdirAll (ae_os e) (rp_ExchangeDir paths) w of (err, w) \<Rightarrow>
           if err \<noteq> [] then (wrap ''orchestrate: create exchange dir'' err, w)
           else
             let fileName = stage @ ''-'' @ rp_NodeID paths @ ''-'' @ itoa_int (ae_Now e w) @ ''.md'' in
             (case exchangeDocMarkdown e paths stage body w of
                Inl err \<Rightarrow> (err, w)
              | Inr raw \<Rightarrow>
                  (case ae_WriteFile e (path_Join [rp_ExchangeDir paths, fileName]) raw w of (err, w) \<Rightarrow>
                     if err \<noteq> [] then (wrap ''orchestrate: write exchange markdown'' err, w) else ([], w)))))"

definition write_handoff :: "('w, 'm) agent_env \<Rightarrow> runtime_paths \<Rightarrow> string \<Rightarrow> 'w \<Rightarrow> go_error \<times> 'w" where
  "write_handoff e paths raw w =
     (if rp_DownstreamDir paths = [] then ([], w)
      else
        (case oe_MkdirAll (ae_os e) (rp_DownstreamDir paths) w of (err, w) \<Rightarrow>
           if err \<noteq> [] then (wrap ''orchestrate: create downstream dir'' err, w)
           else
             (case ae_WriteFile e (path_Join [rp_DownstreamDir paths, ''handoff.md'']) raw w of (err, w) \<Rightarrow>
                if err \<noteq> [] then (wrap ''orchestrate: write handoff markdown'' err, w) else ([], w))))"

definition renderStageOutputs ::
  "('w, 'm) agent_env \<Rightarrow> 'c agent \<Rightarrow> string \<Rightarrow> string \<Rightarrow> string list \<Rightarrow> string \<Rightarrow> 'w \<Rightarrow> (go_error + string) \<times> 'w" where
  "renderStageOutputs e a stage intent toNodes body w =
     (let paths = currentRuntimePaths a in
      case handoff_Markdown (ae_enc_handoff e) (ae_Now e w) (stage_handoff e paths intent toNodes body w) of
        Inl err \<Rightarrow> (Inl err, w)
      | Inr raw \<Rightarrow>
          (case write_handoff e paths raw w of (err, w) \<Rightarrow>
             if err \<noteq> [] then (Inl err, w)
             else
               (case write_exchange e paths stage body w of (err, w) \<Rightarrow>
                  if err \<noteq> [] then (Inl err, w)
                  else (case snapshotMemos e stage paths w of (err, w) \<Rightarrow> if err \<noteq> [] then (Inl err, w) else (Inr raw, w)))))"

section \<open>Stages\<close>

definition formatParentOutputs :: "('w, 'm) agent_env \<Rightarrow> (string, agent_output) gomap \<Rightarrow> string" where
  "formatParentOutputs e outs =
     (if outs = [] then ''No parent handoffs.''
      else TrimSpace (concat (map (\<lambda>key. ''### '' @ key @ para @ (case map_get outs key of Some v \<Rightarrow> formatAny e v | None \<Rightarrow> []) @ para) (sort (map fst outs)))))"

definition fallbackExecutionHandoff :: "('w, 'm) agent_env \<Rightarrow> string \<Rightarrow> (string, agent_output) gomap \<Rightarrow> string" where
  "fallbackExecutionHandoff e task outs =
     TrimSpace (''Task accepted for execution without a runnable LLM client.'' @ para
       @ (if task \<noteq> [] then ''Task:'' @ [newline] @ task @ para else [])
       @ (if outs \<noteq> [] then ''Parent outputs:'' @ [newline] @ formatParentOutputs e outs else []))"

text \<open>The body of a stage: the default, or what the bound skill answers to the prompt when that is not blank.\<close>

definition stage_body ::
  "('c skill \<Rightarrow> string) \<Rightarrow> (string \<Rightarrow> 'w \<Rightarrow> (go_error + string) \<times> 'w) \<Rightarrow> 'c agent \<Rightarrow> string \<Rightarrow> string \<Rightarrow> 'w \<Rightarrow> (go_error + string) \<times> 'w" where
  "stage_body model run a prompt dflt w =
     (case runnableRuntimeSkill model a of
        Inl err \<Rightarrow> (Inl err, w)
      | Inr ok \<Rightarrow>
          if \<not> ok then (Inr dflt, w)
          else
            (case run prompt w of
               (Inl err, w) \<Rightarrow> (Inl err, w)
             | (Inr raw, w) \<Rightarrow> let body = TrimSpace raw in (Inr (if body = [] then dflt else body), w)))"

definition run_stage ::
  "('w, 'm) agent_env \<Rightarrow> ('c skill \<Rightarrow> string) \<Rightarrow> (string \<Rightarrow> 'w \<Rightarrow> (go_error + string) \<times> 'w) \<Rightarrow> 'c agent \<Rightarrow> string \<Rightarrow> string \<Rightarrow> string list
     \<Rightarrow> string \<Rightarrow> string \<Rightarrow> 'w \<Rightarrow> (go_error + string) \<times> 'w" where
  "run_stage e model run a stage intent toNodes prompt dflt w =
     (case stage_body model run a prompt dflt w of
        (Inl err, w) \<Rightarrow> (Inl err, w)
      | (Inr body, w) \<Rightarrow> renderStageOutputs e a stage intent toNodes body w)"

definition runExecuteStage ::
  "('w, 'm) agent_env \<Rightarrow> ('c skill \<Rightarrow> string) \<Rightarrow> (string \<Rightarrow> 'w \<Rightarrow> (go_error + string) \<times> 'w) \<Rightarrow> 'c agent \<Rightarrow> (string, agent_output) gomap
     \<Rightarrow> 'w \<Rightarrow> (go_error + string) \<times> 'w" where
  "runExecuteStage e model run a outs w =
     run_stage e model run a ''execute'' ''continue'' [''downstream''] (executionPrompt e a outs w)
       (fallbackExecutionHandoff e (case ag_planner a of Some pl \<Rightarrow> pl_TaskDescription pl | None \<Rightarrow> []) outs) w"

definition polish_default :: "'c agent \<Rightarrow> string" where
  "polish_default a =
     (case ag_planner a of
        None \<Rightarrow> TrimSpace (''Task description:'' @ para @ para @ ''Planner version: 0'' @ para @ ''Reason:'' @ [newline] @ para @ ''Solution:'' @ [newline])
      | Some pl \<Rightarrow>
          TrimSpace (''Task description:'' @ para @ pl_TaskDescription pl @ para @ ''Planner version: '' @ itoa_digits (unat (pl_Version pl))
            @ para @ ''Reason:'' @ [newline] @ pl_Reason pl @ para @ ''Solution:'' @ [newline] @ pl_Solution pl))"

definition runPolishStage ::
  "('w, 'm) agent_env \<Rightarrow> ('c skill \<Rightarrow> string) \<Rightarrow> (string \<Rightarrow> 'w \<Rightarrow> (go_error + string) \<times> 'w) \<Rightarrow> 'c agent \<Rightarrow> 'w \<Rightarrow> (go_error + string) \<times> 'w" where
  "runPolishStage e model run a w =
     run_stage e model run a ''polish'' ''review'' [''orchestrator''] (polishPrompt e a w) (polish_default a) w"

definition agent_runReportStage ::
  "('w, 'm) agent_env \<Rightarrow> ('c skill \<Rightarrow> string) \<Rightarrow> (string \<Rightarrow> 'w \<Rightarrow> (go_error + string) \<times> 'w) \<Rightarrow> 'c agent \<Rightarrow> agent_output \<Rightarrow> 'w \<Rightarrow> (go_error + string) \<times> 'w" where
  "agent_runReportStage e model run a outp w =
     run_stage e model run a ''report'' ''summarize'' [''orchestrator''] (reportPrompt e a outp w) (TrimSpace (formatAny e outp)) w"

type_synonym ('n, 'w) run_override = "(string, agent_output) gomap \<Rightarrow> 'w \<Rightarrow> (go_error + agent_output \<times> 'n list) \<times> 'w"

definition Execute ::
  "('w, 'm) agent_env \<Rightarrow> ('c skill \<Rightarrow> string) \<Rightarrow> (string \<Rightarrow> 'w \<Rightarrow> (go_error + string) \<times> 'w) \<Rightarrow> ('w \<Rightarrow> go_error) \<Rightarrow> ('n, 'w) run_override option
     \<Rightarrow> (string, agent_output) gomap \<Rightarrow> 'c agent \<Rightarrow> 'w \<Rightarrow> (go_error + agent_output \<times> 'n list) \<times> 'c agent \<times> 'w" where
  "Execute e model run ctxErr runE outs a w =
     (if ctxErr w \<noteq> [] then (Inl (ctxErr w), a\<lparr>ag_Status := AgentFailed\<rparr>, w)
      else
        let a = a\<lparr>ag_Status := AgentRunning\<rparr> in
        (case runE of
           Some f \<Rightarrow>
             (case f outs w of
                (Inl err, w) \<Rightarrow> (Inl err, a\<lparr>ag_Status := AgentFailed\<rparr>, w)
              | (Inr (outp, nodes), w) \<Rightarrow>
                  let a = (captureResult outp a)\<lparr>ag_Status := AgentDone\<rparr> in
                  if ctxErr w \<noteq> [] then (Inl (ctxErr w), a\<lparr>ag_Status := AgentFailed\<rparr>, w) else (Inr (outp, nodes), a, w))
         | None \<Rightarrow>
             (case runExecuteStage e model run a outs w of
                (Inl err, w) \<Rightarrow> (Inl err, a\<lparr>ag_Status := AgentFailed\<rparr>, w)
              | (Inr text', w) \<Rightarrow> (Inr (OutText text', []), (captureResult (OutText text') a)\<lparr>ag_Status := AgentDone\<rparr>, w))))"

text \<open>\<open>before\<close> and \<open>after\<close> are the state of the context around the planning.\<close>

definition Polish ::
  "('w, 'm) agent_env \<Rightarrow> ('c skill \<Rightarrow> string) \<Rightarrow> (string \<Rightarrow> 'w \<Rightarrow> (go_error + string) \<times> 'w) \<Rightarrow> go_error \<Rightarrow> go_error \<Rightarrow> 'c agent \<Rightarrow> 'w
     \<Rightarrow> (go_error + string) \<times> 'c agent \<times> 'w" where
  "Polish e model run before after a w =
     (if before \<noteq> [] then (Inl before, a, w)
      else
        let a = planTask a in
        if after \<noteq> [] then (Inl after, a, w)
        else (case runPolishStage e model run a w of (r, w) \<Rightarrow> (r, a, w)))"

definition Report ::
  "('w, 'm) agent_env \<Rightarrow> ('c skill \<Rightarrow> string) \<Rightarrow> (string \<Rightarrow> 'w \<Rightarrow> (go_error + string) \<times> 'w) \<Rightarrow> ('w \<Rightarrow> go_error) \<Rightarrow> agent_output \<Rightarrow> 'c agent \<Rightarrow> 'w
     \<Rightarrow> (go_error + string) \<times> 'w" where
  "Report e model run ctxErr outp a w =
     (if ctxErr w \<noteq> [] then (Inl (ctxErr w), w) else agent_runReportStage e model run a outp w)"

end
