(* ===== verification/Agent_Theorems.thy ===== *)
theory Agent_Theorems
  imports Agent_Stages Channel_Docs_Theorems Runner_Workspace_Theorems
begin

text \<open>
  What an agent returns is a document its successors can read, its status tells how the execution
  ended, and the snapshots of its memos stay in the archive.
\<close>

section \<open>Status\<close>

text \<open>An execution ends with the status done exactly when it returns an output; otherwise the status is
  failed, also when the context is cancelled before or after an overriding function ran.\<close>

theorem execute_sets_status:
  "case Execute e model run ctxErr runE outs a w of (r, a', w') \<Rightarrow>
     ag_Status a' = (case r of Inr _ \<Rightarrow> AgentDone | Inl _ \<Rightarrow> AgentFailed) \<and> ag_skill a' = ag_skill a \<and> ag_planner a' = ag_planner a
     \<and> (\<forall>outp nodes. r = Inr (outp, nodes) \<longrightarrow> ctxErr w = [] \<and> (runE = None \<longrightarrow> nodes = [] \<and> (\<exists>raw. outp = OutText raw)))"
  by (auto simp: Execute_def Let_def captureResult_def split: sum.splits prod.splits option.splits agent_output.splits)

section \<open>Outputs\<close>

text \<open>The front matter that a stage renders.\<close>

definition stage_front :: "runtime_paths \<Rightarrow> string \<Rightarrow> string list \<Rightarrow> time \<Rightarrow> handoff_front" where
  "stage_front paths intent toNodes now =
     \<lparr>hf_Header = \<lparr>ch_Kind = ChannelKindHandoff, ch_Version = DocVersion, ch_RunnerID = rp_RunnerID paths, ch_CreatedAt = now\<rparr>,
      hf_FromNode = rp_NodeID paths, hf_ToNodes = toNodes, hf_Intent = intent, hf_Artifacts = []\<rparr>"

text \<open>The YAML text of a front matter has no line that reads like the closing rule, and decodes to it.\<close>

definition front_survives :: "('w, 'm) agent_env \<Rightarrow> handoff_front \<Rightarrow> bool" where
  "front_survives e f \<longleftrightarrow> (\<forall>t. ae_enc_handoff e f = Inr t \<longrightarrow> yaml_text t \<and> yaml_Unmarshal (ae_handoff_codec e) t = Inr f)"

lemma stage_front_filled:
  assumes "\<not> time_IsZero (ae_Now e w)"
  shows "handoff_front.truncate ((stage_handoff e paths intent toNodes body w)
      \<lparr>hf_Header := fill ChannelKindHandoff (ae_Now e w) (hf_Header (stage_handoff e paths intent toNodes body w))\<rparr>)
    = stage_front paths intent toNodes (ae_Now e w)"
  using assms by (simp add: stage_front_def stage_handoff_def handoff_front.defs fill_def default_time_def default_kind_def zero_header_def)

lemma render_reads_back:
  assumes r: "renderStageOutputs e a stage intent toNodes body w = (Inr raw, w')" and now: "\<not> time_IsZero (ae_Now e w)"
    and codec: "front_survives e (stage_front (currentRuntimePaths a) intent toNodes (ae_Now e w))"
  shows "ParseHandoffMarkdown (ae_handoff_codec e) raw = Inr ((stage_handoff e (currentRuntimePaths a) intent toNodes body w)
      \<lparr>hf_Header := fill ChannelKindHandoff (ae_Now e w) (zero_header\<lparr>ch_RunnerID := rp_RunnerID (currentRuntimePaths a), ch_CreatedAt := ae_Now e w\<rparr>)\<rparr>)"
proof -
  let ?p = "currentRuntimePaths a"
  let ?d = "stage_handoff e ?p intent toNodes body w"
  let ?d' = "?d\<lparr>hf_Header := fill ChannelKindHandoff (ae_Now e w) (hf_Header ?d)\<rparr>"
  have m: "handoff_Markdown (ae_enc_handoff e) (ae_Now e w) ?d = Inr raw"
    using r by (auto simp: renderStageOutputs_def Let_def split: sum.splits prod.splits if_splits)
  have "if header_ok ChannelKindHandoff (hf_Header ?d')
      then parse_with ''handoff doc'' (ae_handoff_codec e) zero_handoff buildHandoffDoc raw = Inr (?d'\<lparr>hf_Body := TrimSpace (hf_Body ?d)\<rparr>)
      else isl (parse_with ''handoff doc'' (ae_handoff_codec e) zero_handoff buildHandoffDoc raw)"
    by (rule handoff_docs.markdown_parses [OF m refl]) (use codec in \<open>simp add: stage_front_filled [OF now] front_survives_def\<close>)
  moreover have "header_ok ChannelKindHandoff (hf_Header ?d')"
    using fill_ok [of "hf_Header ?d" ChannelKindHandoff "ae_Now e w"] now by (simp add: stage_handoff_def zero_header_def)
  ultimately show ?thesis by (simp add: ParseHandoffMarkdown_def stage_handoff_def TrimSpace_idem)
qed

text \<open>C37. When an execution without an overriding function succeeds, its output is a handoff document: the
  parser of the runner reads it back with the node and the runner it comes from, the addressee downstream, the
  intent to continue and no artifacts, provided that the YAML library keeps this one front matter, with these
  ids and the time of the clock, and that the clock is not at Go's zero time.\<close>

theorem execute_returns_handoff:
  assumes "Execute e model run ctxErr None outs a w = (Inr (outp, nodes), a', w')" "\<And>v. \<not> time_IsZero (ae_Now e v)"
    and "\<And>v. front_survives e (stage_front (currentRuntimePaths a) ''continue'' [''downstream''] (ae_Now e v))"
  shows "\<exists>raw d. outp = OutText raw \<and> ParseHandoffMarkdown (ae_handoff_codec e) raw = Inr d \<and> hf_FromNode d = rp_NodeID (currentRuntimePaths a)
    \<and> ch_RunnerID (hf_Header d) = rp_RunnerID (currentRuntimePaths a) \<and> hf_ToNodes d = [''downstream''] \<and> hf_Intent d = ''continue'' \<and> hf_Artifacts d = []"
proof -
  let ?a = "a\<lparr>ag_Status := AgentRunning\<rparr>"
  have p: "currentRuntimePaths ?a = currentRuntimePaths a" by (simp add: currentRuntimePaths_def)
  obtain raw where raw: "outp = OutText raw" "runExecuteStage e model run ?a outs w = (Inr raw, w')"
    using assms(1) by (auto simp: Execute_def Let_def split: if_splits sum.splits prod.splits)
  obtain body v where "renderStageOutputs e ?a ''execute'' ''continue'' [''downstream''] body v = (Inr raw, w')"
    using raw(2) by (auto simp: runExecuteStage_def run_stage_def split: sum.splits prod.splits)
  from render_reads_back [OF this assms(2)] assms(3) [of v] raw(1) show ?thesis
    by (simp add: p stage_handoff_def fill_def default_time_def default_kind_def)
qed

section \<open>Snapshots\<close>

definition kept_writes :: "('w, 'm) agent_env \<Rightarrow> string \<Rightarrow> ('w \<Rightarrow> bool) \<Rightarrow> bool" where
  "kept_writes e dir Q \<longleftrightarrow> (\<forall>p v. below dir p \<longrightarrow> Q v \<longrightarrow> Q (snd (oe_MkdirAll (ae_os e) p v)) \<and> (\<forall>c. Q (snd (ae_WriteFile e p c v))))"

lemma kept_writesD:
  assumes "kept_writes e dir Q" "below dir p" "Q v"
  shows "oe_MkdirAll (ae_os e) p v = (err, v') \<Longrightarrow> Q v'" "Q (snd (ae_WriteFile e p c v))"
  using assms unfolding kept_writes_def by (metis snd_conv)+

lemma suffix_plain: "slash \<notin> set c \<Longrightarrow> plain_comp (c @ ''.memo.md'')"
proof -
  assume c: "slash \<notin> set c"
  have "c @ ''.memo.md'' \<noteq> s" if "length s < 3" for s
  proof
    assume e: "c @ ''.memo.md'' = s"
    have "length (c @ ''.memo.md'') < 3" unfolding e by (rule that)
    then show False by simp
  qed
  moreover have "slash \<notin> set ''.memo.md''" by (simp add: slash_def)
  ultimately show ?thesis using c by (simp add: plain_comp_def dot_def dotdot_def)
qed

lemma snapshot_target:
  assumes "clean_abs memo" "clean_abs p" "below memo p" "path_Rel memo p = Inr rel" "clean_abs sroot"
  shows "\<exists>cs. cs \<noteq> [] \<and> (\<forall>c \<in> set cs. plain_comp c) \<and> path_Join [sroot, rel @ ''.memo.md''] = of_comps True (path_comps sroot @ cs)"
proof -
  obtain ts where ts: "path_comps p = path_comps memo @ ts" using assms(3) by (auto simp: below_def prefix_def)
  have plain: "\<forall>c \<in> set ts. plain_comp c" using clean_abs_comps [OF assms(2), THEN conjunct2] ts by simp
  have abs: "IsAbs memo" "IsAbs p" using assms(1,2) by (simp_all add: clean_abs_def)
  show ?thesis
  proof (cases ts rule: rev_cases)
    case Nil
    then have "Clean memo = Clean p" using Clean_eq_abs [OF abs] ts by simp
    then have "rel = dot" using assms(4) by (simp add: path_Rel_def)
    moreover have "plain_comp (dot @ ''.memo.md'')" by (rule suffix_plain) (simp add: dot_def slash_def)
    ultimately show ?thesis using Join_name [OF assms(5)] by (intro exI [of _ "[dot @ ''.memo.md'']"]) simp
  next
    case (snoc us u)
    then have "Clean memo \<noteq> Clean p" using Clean_eq_abs [OF abs] ts by simp
    then have "rel = Join (us @ [u]) [slash]" using assms(4) abs ts snoc by (simp add: path_Rel_def strip_common_of_prefix)
    moreover have "Join (us @ [u]) [slash] @ x = Join (us @ [u @ x]) [slash]" for x
      by (induction us "[slash]" rule: Join.induct) (auto simp: neq_Nil_conv)
    moreover have "\<forall>c \<in> set (us @ [u @ ''.memo.md'']). plain_comp c" using plain snoc suffix_plain [of u] by (auto simp: plain_comp_def)
    ultimately show ?thesis using Join_names [OF assms(5)] by (intro exI [of _ "us @ [u @ ''.memo.md'']"]) simp
  qed
qed

lemma snapshot_entry_keeps:
  assumes k: "kept_writes e sroot Q" and c: "clean_abs (rp_MemoDir paths)" "clean_abs sroot" and p: "clean_abs p" "below (rp_MemoDir paths) p" and q: "Q w"
  shows "Q (snd (snapshot_entry e paths memoRoot sroot p d w))"
proof (cases "path_Rel (rp_MemoDir paths) p")
  case (Inr rel)
  let ?dst = "path_Join [sroot, rel @ ''.memo.md'']"
  obtain cs where cs: "cs \<noteq> []" "\<forall>c \<in> set cs. plain_comp c" "?dst = of_comps True (path_comps sroot @ cs)"
    using snapshot_target [OF c(1) p Inr c(2)] by blast
  note b = names_below [OF c(2) cs(2,3,1)]
  obtain err v where m: "oe_MkdirAll (ae_os e) (path_Dir ?dst) w = (err, v)" by force
  have "Q v" by (rule kept_writesD(1) [OF k b(2) q m])
  moreover have "Q (snd (ae_WriteFile e ?dst raw v))" for raw by (rule kept_writesD(2) [OF k b(1) \<open>Q v\<close>])
  ultimately show ?thesis using q m Inr by (auto simp: snapshot_entry_def Let_def split: sum.split)
next
  case (Inl err)
  then show ?thesis using q by (auto simp: snapshot_entry_def split: sum.split)
qed

lemma snapshot_entries_keep:
  assumes "kept_writes e sroot Q" "clean_abs (rp_MemoDir paths)" "clean_abs sroot"
    and "\<forall>(p, d) \<in> set entries. clean_abs p \<and> below (rp_MemoDir paths) p" "Q w"
  shows "Q (snd (snapshot_entries e paths memoRoot sroot entries w))"
  using assms(4,5)
proof (induction entries arbitrary: w)
  case (Cons x entries)
  obtain p d where x: "x = (p, d)" by force
  obtain err v where v: "snapshot_entry e paths memoRoot sroot p d w = (err, v)" by force
  have "Q v" using snapshot_entry_keeps [OF assms(1-3), of p w memoRoot d] Cons.prems x v by simp
  then show ?case using Cons.IH [of v] Cons.prems(1) v x by simp
qed simp

text \<open>Taking the snapshots of a stage creates directories and files only below the directory of that
  stage in the archive of the node, whatever files and links the memo directory contains.\<close>

theorem snapshots_stay_in_archive:
  assumes "walk_ok (ae_os e)" "clean_abs (rp_MemoDir paths)" "clean_abs (rp_ArchiveMemoDir paths)" "plain_comp stage"
    and "kept_writes e (path_Join [rp_ArchiveMemoDir paths, stage]) Q" "Q w"
  shows "Q (snd (snapshotMemos e stage paths w))"
proof -
  let ?root = "path_Join [rp_ArchiveMemoDir paths, stage]"
  have root: "clean_abs ?root" by (rule plain_below(1) [OF assms(3,4)])
  have self: "below ?root ?root" by (simp add: below_def)
  obtain err v where m: "oe_MkdirAll (ae_os e) ?root w = (err, v)" by force
  have q: "Q v" by (rule kept_writesD(1) [OF assms(5) self assms(6) m])
  have "\<forall>(p, d) \<in> set (oe_WalkDir (ae_os e) (rp_MemoDir paths) v). clean_abs p \<and> below (rp_MemoDir paths) p"
    using assms(1,2) by (auto simp: walk_ok_def)
  from snapshot_entries_keep [OF assms(5,2) root this q] q assms(6) m show ?thesis
    by (auto simp: snapshotMemos_def Let_def split: sum.split)
qed

section \<open>An agent at work\<close>

text \<open>An agent without a runnable client, in a world that records the paths written to.\<close>

definition demo_skill :: "unit skill" where
  "demo_skill = \<lparr>sk_Name = ''writer'', sk_Description = [], sk_License = [], sk_Instruction = [], sk_workspace = None, sk_envFiles = [],
     sk_toolSet = DefaultToolSetConfig, sk_tools = [], sk_conv = None\<rparr>"

definition demo_agent :: "unit agent" where
  "demo_agent = \<lparr>ag_skill = Some demo_skill,
     ag_planner = Some \<lparr>pl_ID = ''n1'', pl_TaskDescription = ''write'', pl_SourceInput = [], pl_ArtifactsDir = [], pl_Reason = [], pl_Solution = [], pl_Version = 0\<rparr>,
     ag_runtimeCfg = DefaultToolSetConfig, ag_runtime = Some demo_skill, ag_runtimePaths = zero_paths, ag_Result = None, ag_Status = AgentPending\<rparr>"

text \<open>A codec for the documents of one runner at one time, from any node.\<close>

definition demo_front :: "string \<Rightarrow> handoff_front" where
  "demo_front node = stage_front (zero_paths\<lparr>rp_RunnerID := ''runner'', rp_NodeID := node\<rparr>) ''continue'' [''downstream''] 5"

definition demo_agent_env :: "(string list, unit) agent_env" where
  "demo_agent_env = \<lparr>ae_os = demo_env, ae_ReadDir = (\<lambda>_ _. Inr []), ae_ReadFile = (\<lambda>_ _. Inr []), ae_WriteFile = (\<lambda>p _ w. ([], p # w)), ae_Now = (\<lambda>_. 5),
     ae_noteFile = (\<lambda>_. Inl []), ae_formatTime = (\<lambda>_. []), ae_formatResult = (\<lambda>_. []),
     ae_handoff_codec = \<lparr>yaml_Unmarshal = (\<lambda>t. if HasPrefix t ''from_node: '' then Inr (demo_front (butlast (drop 11 t))) else Inl [''yaml: error'']), yaml_Marshal = (\<lambda>_. Inl []), toml_Decode = (\<lambda>_. Inl [])\<rparr>,
     ae_exchange_codec = \<lparr>yaml_Unmarshal = (\<lambda>_. Inl []), yaml_Marshal = (\<lambda>_. Inl []), toml_Decode = (\<lambda>_. Inl [])\<rparr>,
     ae_enc_handoff = (\<lambda>f. if f = demo_front (hf_FromNode f) then Inr (''from_node: '' @ hf_FromNode f @ [newline]) else Inl [''yaml: error'']),
     ae_enc_exchange = (\<lambda>_. Inl [''yaml: error'']), ae_enc_memo = (\<lambda>_. Inl [''yaml: error''])\<rparr>"

lemma demo_paths: "currentRuntimePaths (demo_agent\<lparr>ag_Status := st\<rparr>) = zero_paths\<lparr>rp_RunnerID := ''runner'', rp_NodeID := ''n1'', rp_SkillName := ''writer''\<rparr>"
  by (simp add: currentRuntimePaths_def demo_agent_def demo_skill_def zero_paths_def)

lemma demo_runs:
  "\<exists>raw a' w'. Execute demo_agent_env (\<lambda>_. []) (\<lambda>_ w. (Inl [], w)) (\<lambda>_. []) None [] demo_agent [] = (Inr (OutText raw, []), a', w')"
proof -
  let ?a = "demo_agent\<lparr>ag_Status := AgentRunning\<rparr>"
  have to: "TrimSpace ''downstream'' = ''downstream''" by code_simp
  have md: "\<exists>raw. handoff_Markdown (ae_enc_handoff demo_agent_env) 5 (stage_handoff demo_agent_env (currentRuntimePaths ?a) ''continue'' [''downstream''] body w) = Inr raw"
    for body w
    by (simp add: handoff_docs.Markdown_Inr demo_paths stage_handoff_def handoff_fields_def to fill_def default_time_def default_kind_def zero_header_def
        demo_agent_env_def handoff_front.defs demo_front_def stage_front_def DocVersion_def zero_paths_def)
  have "\<exists>raw w'. renderStageOutputs demo_agent_env ?a ''execute'' ''continue'' [''downstream''] body w = (Inr raw, w')" for body w
    using md [of body w]
    by (auto simp: renderStageOutputs_def Let_def demo_paths write_handoff_def write_exchange_def snapshotMemos_def zero_paths_def demo_agent_env_def)
  then have "\<exists>raw w'. runExecuteStage demo_agent_env (\<lambda>_. []) (\<lambda>_ w. (Inl [], w)) ?a [] [] = (Inr raw, w')"
    by (simp add: runExecuteStage_def run_stage_def stage_body_def runnableRuntimeSkill_def demo_agent_def)
  then show ?thesis by (auto simp: Execute_def Let_def)
qed

theorem execute_returns_handoff_witness:
  "\<exists>raw a' w' d. Execute demo_agent_env (\<lambda>_. []) (\<lambda>_ w. (Inl [], w)) (\<lambda>_. []) None [] demo_agent [] = (Inr (OutText raw, [] :: unit list), a', w')
    \<and> ParseHandoffMarkdown (ae_handoff_codec demo_agent_env) raw = Inr d \<and> hf_FromNode d = ''n1'' \<and> hf_Artifacts d = []"
proof -
  obtain raw a' w' where r: "Execute demo_agent_env (\<lambda>_. []) (\<lambda>_ w. (Inl [], w)) (\<lambda>_. []) None [] demo_agent [] = (Inr (OutText raw, [] :: unit list), a', w')"
    using demo_runs by blast
  have f: "stage_front (currentRuntimePaths demo_agent) ''continue'' [''downstream''] (ae_Now demo_agent_env v) = demo_front ''n1''" for v
    using demo_paths [of "ag_Status demo_agent"] by (simp add: stage_front_def demo_front_def demo_agent_env_def)
  have t: "ae_enc_handoff demo_agent_env (demo_front ''n1'') = Inr (unlines [''from_node: n1''])"
    "yaml_Unmarshal (ae_handoff_codec demo_agent_env) (unlines [''from_node: n1'']) = Inr (demo_front ''n1'')"
    "open_lines yaml_format [''from_node: n1'']" by code_simp+
  then have "front_survives demo_agent_env (demo_front ''n1'')"
    unfolding front_survives_def t(1) yaml_text_def by auto
  then have s: "front_survives demo_agent_env (stage_front (currentRuntimePaths demo_agent) ''continue'' [''downstream''] (ae_Now demo_agent_env v))" for v
    unfolding f .
  from execute_returns_handoff [OF r _ s] obtain d where
    "ParseHandoffMarkdown (ae_handoff_codec demo_agent_env) raw = Inr d" "hf_FromNode d = rp_NodeID (currentRuntimePaths demo_agent)" "hf_Artifacts d = []"
    by (auto simp: demo_agent_env_def time_IsZero_def)
  moreover have "rp_NodeID (currentRuntimePaths demo_agent) = ''n1''" by code_simp
  ultimately show ?thesis using r by auto
qed

theorem execute_sets_status_witness:
  "\<exists>raw a' w'. Execute demo_agent_env (\<lambda>_. []) (\<lambda>_ w. (Inl [], w)) (\<lambda>_. []) None [] demo_agent [] = (Inr (OutText raw, [] :: unit list), a', w')
    \<and> ag_Status a' = AgentDone"
proof -
  obtain raw a' w' where r: "Execute demo_agent_env (\<lambda>_. []) (\<lambda>_ w. (Inl [], w)) (\<lambda>_. []) None [] demo_agent [] = (Inr (OutText raw, [] :: unit list), a', w')"
    using demo_runs by blast
  then show ?thesis using execute_sets_status [where e = demo_agent_env and a = demo_agent and model = "\<lambda>_. []" and run = "\<lambda>_ w. (Inl [], w)"
      and ctxErr = "\<lambda>_. []" and runE = "None :: (unit, string list) run_override option" and outs = "[]" and w = "[]"]
    by auto
qed

theorem snapshots_stay_in_archive_witness:
  "set (snd (snapshotMemos demo_agent_env ''execute'' (zero_paths\<lparr>rp_MemoDir := ''/g/memo'', rp_ArchiveMemoDir := ''/g/archive''\<rparr>) []))
     \<subseteq> {p. below (path_Join [''/g/archive'', ''execute'']) p}"
proof -
  let ?paths = "zero_paths\<lparr>rp_MemoDir := ''/g/memo'', rp_ArchiveMemoDir := ''/g/archive''\<rparr>"
  let ?Q = "\<lambda>w. \<forall>p \<in> set w. below (path_Join [''/g/archive'', ''execute'']) p"
  have x: "plain_comp ''x''" by code_simp
  have walk: "walk_ok (ae_os demo_agent_env)" using plain_below [OF _ x] by (auto simp: walk_ok_def demo_env_def demo_agent_env_def below_def)
  have c: "clean_abs (rp_MemoDir ?paths)" "clean_abs (rp_ArchiveMemoDir ?paths)" "plain_comp ''execute''" by code_simp+
  have "kept_writes demo_agent_env (path_Join [rp_ArchiveMemoDir ?paths, ''execute'']) ?Q"
    by (simp add: kept_writes_def demo_agent_env_def demo_env_def)
  from snapshots_stay_in_archive [OF walk c this, of "[]"] show ?thesis by auto
qed

end
