(* ===== verification/Describe_View.thy ===== *)
theory Describe_View
  imports Event_Log_Theorems Request_Log Runner_Types Conversation_Stream
begin

text \<open>
  The description of a request, rebuilt from its event log: \<^verbatim>\<open>orchestrator/describe.go\<close>.

  \<^verbatim>\<open>ReplayDescribeView\<close> changes the view it is given, also when it fails halfway; a call therefore returns
  its result and the object the caller passed as the call leaves it.  The decoders of the deltas stand
  for \<^verbatim>\<open>json.Unmarshal\<close> into the anonymous structs of the code.  An event log that does not return makes
  the call not return (\<open>None\<close>).
\<close>

section \<open>Views\<close>

definition EventStatusStarted :: string where "EventStatusStarted = ''status.started''"
definition EventArtifactCreated :: string where "EventArtifactCreated = ''artifact.created''"

record describe_node =
  dn_ID :: string
  dn_SkillName :: string
  dn_TaskDescription :: string
  dn_DependsOn :: "string list"
  dn_Status :: string
  dn_Error :: string

record describe_artifact =
  dar_NodeID :: string
  dar_Path :: string
  dar_ResourceType :: string
  dar_Description :: string
  dar_Stage :: string

record describe_view =
  dv_RequestID :: string
  dv_RunnerID :: string
  dv_Phase :: string
  dv_Status :: string
  dv_Nodes :: "(string, describe_node) gomap"
  dv_Artifacts :: "describe_artifact list"
  dv_LatestCheckpointSequence :: int
  dv_LatestEventSequence :: u64

definition zero_node :: describe_node where
  "zero_node = \<lparr>dn_ID = [], dn_SkillName = [], dn_TaskDescription = [], dn_DependsOn = [], dn_Status = [], dn_Error = []\<rparr>"

definition new_view :: "string \<Rightarrow> describe_view" where
  "new_view requestID = \<lparr>dv_RequestID = requestID, dv_RunnerID = [], dv_Phase = [], dv_Status = [], dv_Nodes = [], dv_Artifacts = [],
     dv_LatestCheckpointSequence = 0, dv_LatestEventSequence = 0\<rparr>"

definition zero_cursor :: snapshot_cursor where
  "zero_cursor = \<lparr>sc_RequestID = [], sc_RunnerID = [], sc_CheckpointSequence = 0, sc_EventSequence = 0, sc_UpdatedAt = 0\<rparr>"

section \<open>Deltas and errors\<close>

record added_delta =
  ad_NodeID :: string
  ad_SkillName :: string
  ad_TaskDescription :: string
  ad_DependsOn :: "string list"

record artifact_delta =
  af_Path :: string
  af_ResourceType :: string
  af_Description :: string
  af_Stage :: string

record delta_decoders =
  dd_runner :: "bytes option \<Rightarrow> go_error + string"
  dd_phase :: "bytes option \<Rightarrow> go_error + string \<times> string"
  dd_added :: "bytes option \<Rightarrow> go_error + added_delta"
  dd_node :: "bytes option \<Rightarrow> go_error + string \<times> string"
  dd_artifact :: "bytes option \<Rightarrow> go_error + artifact_delta"

datatype apply_error =
    EventRequestMismatch string string
  | DecodeDelta string go_error
  | AddedMissingNode
  | EventMissingNode
  | ArtifactMissingPath

datatype describe_error =
    DescribeEmptyID
  | EventLogNotConfigured
  | ReplayNeedsLog
  | ReplayNeedsID
  | CursorMismatch string string
  | ViewMismatch string string
  | LoadFailed string go_error
  | ExpandFailed string u64 stream_error
  | ApplyFailed string u64 apply_error
  | SaveFailed string go_error

section \<open>Applying an event\<close>

definition metadataString :: "(string, any_val) gomap option \<Rightarrow> string \<Rightarrow> string" where
  "metadataString metadata key =
     (case metadata of
        None \<Rightarrow> []
      | Some kvs \<Rightarrow> (case map_get kvs key of Some (AnyString text) \<Rightarrow> text | _ \<Rightarrow> []))"

fun firstNonEmpty :: "string list \<Rightarrow> string" where
  "firstNonEmpty [] = []"
| "firstNonEmpty (v # vs) = (if TrimSpace v \<noteq> [] then v else firstNonEmpty vs)"

fun upsert :: "describe_artifact \<Rightarrow> describe_artifact list \<Rightarrow> describe_artifact list" where
  "upsert a [] = [a]"
| "upsert a (b # bs) = (if dar_NodeID b = dar_NodeID a \<and> dar_Path b = dar_Path a then a # bs else b # upsert a bs)"

definition upsertArtifact :: "describe_artifact \<Rightarrow> describe_view \<Rightarrow> describe_view" where
  "upsertArtifact a v = v\<lparr>dv_Artifacts := upsert a (dv_Artifacts v)\<rparr>"

definition view_node :: "describe_view \<Rightarrow> string \<Rightarrow> describe_node" where
  "view_node v nodeID = (case map_get (dv_Nodes v) nodeID of Some n \<Rightarrow> n | None \<Rightarrow> zero_node)"

definition apply_scope :: "scope \<Rightarrow> describe_view \<Rightarrow> apply_error option \<times> describe_view" where
  "apply_scope sc v =
     (let v1 = (if RequestID sc \<noteq> [] \<and> dv_RequestID v = [] then v\<lparr>dv_RequestID := RequestID sc\<rparr> else v) in
      if RequestID sc \<noteq> [] \<and> dv_RequestID v1 \<noteq> RequestID sc then (Some (EventRequestMismatch (RequestID sc) (dv_RequestID v1)), v1)
      else (None, if RunnerID sc \<noteq> [] \<and> dv_RunnerID v1 = [] then v1\<lparr>dv_RunnerID := RunnerID sc\<rparr> else v1))"

definition apply_status :: "delta_decoders \<Rightarrow> event \<Rightarrow> describe_view \<Rightarrow> describe_view" where
  "apply_status dd event v =
     (let v = (case dd_runner dd (Delta event) of
                 Inr runnerID \<Rightarrow> if runnerID \<noteq> [] \<and> dv_RunnerID v = [] then v\<lparr>dv_RunnerID := runnerID\<rparr> else v
               | Inl _ \<Rightarrow> v)
      in if EventType event = EventStatusFailed then v\<lparr>dv_Status := ''failed''\<rparr> else v)"

definition apply_phase :: "delta_decoders \<Rightarrow> event \<Rightarrow> describe_view \<Rightarrow> apply_error option \<times> describe_view" where
  "apply_phase dd event v =
     (case dd_phase dd (Delta event) of
        Inl err \<Rightarrow> (Some (DecodeDelta ''runner phase'' err), v)
      | Inr (phase, status) \<Rightarrow>
          let v = (if phase \<noteq> [] then v\<lparr>dv_Phase := phase\<rparr> else v)
          in (None, if status \<noteq> [] then v\<lparr>dv_Status := status\<rparr> else v))"

definition apply_added :: "delta_decoders \<Rightarrow> event \<Rightarrow> describe_view \<Rightarrow> apply_error option \<times> describe_view" where
  "apply_added dd event v =
     (case dd_added dd (Delta event) of
        Inl err \<Rightarrow> (Some (DecodeDelta ''runner node-added'' err), v)
      | Inr delta \<Rightarrow>
          let nodeID = firstNonEmpty [ad_NodeID delta, NodeID (Scope event)] in
          if nodeID = [] then (Some AddedMissingNode, v)
          else
            let node = view_node v nodeID;
                node = node\<lparr>dn_ID := nodeID,
                  dn_SkillName := firstNonEmpty [ad_SkillName delta, dn_SkillName node, metadataString (Metadata event) ''skill_name''],
                  dn_TaskDescription := firstNonEmpty [ad_TaskDescription delta, dn_TaskDescription node],
                  dn_DependsOn := ad_DependsOn delta, dn_Status := Status event\<rparr>
            in (None, v\<lparr>dv_Nodes := map_set (dv_Nodes v) nodeID node\<rparr>))"

definition apply_node :: "delta_decoders \<Rightarrow> event \<Rightarrow> describe_view \<Rightarrow> apply_error option \<times> describe_view" where
  "apply_node dd event v =
     (case dd_node dd (Delta event) of
        Inl err \<Rightarrow> (Some (DecodeDelta ''runner node'' err), v)
      | Inr (deltaID, deltaErr) \<Rightarrow>
          let nodeID = firstNonEmpty [deltaID, NodeID (Scope event)] in
          if nodeID = [] then (Some EventMissingNode, v)
          else
            let node = view_node v nodeID;
                node = node\<lparr>dn_ID := nodeID, dn_Status := Status event\<rparr>;
                node = (if EventType event = EventRunnerNodeFailed then node\<lparr>dn_Error := TrimSpace deltaErr\<rparr> else node);
                node = (if dn_SkillName node = [] then node\<lparr>dn_SkillName := metadataString (Metadata event) ''skill_name''\<rparr> else node)
            in (None, v\<lparr>dv_Nodes := map_set (dv_Nodes v) nodeID node\<rparr>))"

definition apply_artifact :: "delta_decoders \<Rightarrow> event \<Rightarrow> describe_view \<Rightarrow> apply_error option \<times> describe_view" where
  "apply_artifact dd event v =
     (case dd_artifact dd (Delta event) of
        Inl err \<Rightarrow> (Some (DecodeDelta ''artifact'' err), v)
      | Inr delta \<Rightarrow>
          if TrimSpace (af_Path delta) = [] then (Some ArtifactMissingPath, v)
          else (None, upsertArtifact
                 \<lparr>dar_NodeID = NodeID (Scope event), dar_Path = af_Path delta, dar_ResourceType = af_ResourceType delta,
                  dar_Description = af_Description delta, dar_Stage = af_Stage delta\<rparr> v))"

definition is_status_event :: "event \<Rightarrow> bool" where
  "is_status_event event \<longleftrightarrow> EventType event \<in> {EventStatusStarted, EventStatusProgress, EventStatusCompleted, EventStatusFailed}"

definition is_node_event :: "event \<Rightarrow> bool" where
  "is_node_event event \<longleftrightarrow> EventType event \<in> {EventRunnerNodeStarted, EventRunnerNodeCompleted, EventRunnerNodeFailed}"

definition applyEvent :: "delta_decoders \<Rightarrow> event \<Rightarrow> describe_view \<Rightarrow> apply_error option \<times> describe_view" where
  "applyEvent dd event v =
     (case apply_scope (Scope event) v of
        (Some err, v) \<Rightarrow> (Some err, v)
      | (None, v) \<Rightarrow>
          if is_status_event event then (None, apply_status dd event v)
          else if EventType event = EventRunnerPhaseChanged then apply_phase dd event v
          else if EventType event = EventRunnerNodeAdded then apply_added dd event v
          else if is_node_event event then apply_node dd event v
          else if EventType event = EventArtifactCreated then apply_artifact dd event v
          else (None, v))"

section \<open>Replay\<close>

fun apply_events :: "delta_decoders \<Rightarrow> event list \<Rightarrow> describe_view \<Rightarrow> apply_error option \<times> describe_view" where
  "apply_events dd [] v = (None, v)"
| "apply_events dd (event # events) v =
     (case applyEvent dd event v of
        (Some err, v) \<Rightarrow> (Some err, v)
      | (None, v) \<Rightarrow> apply_events dd events v)"

definition note_frame :: "event \<Rightarrow> describe_view \<Rightarrow> describe_view" where
  "note_frame raw v = (if SequenceNumber raw > dv_LatestEventSequence v then v\<lparr>dv_LatestEventSequence := SequenceNumber raw\<rparr> else v)"

fun replay_frames :: "codec \<Rightarrow> delta_decoders \<Rightarrow> string \<Rightarrow> event list \<Rightarrow> describe_view \<Rightarrow> describe_error option \<times> describe_view" where
  "replay_frames cd dd requestID [] v = (None, v)"
| "replay_frames cd dd requestID (raw # raws) v =
     (case ExpandBundleEvent cd raw of
        Inl err \<Rightarrow> (Some (ExpandFailed requestID (SequenceNumber raw) err), v)
      | Inr events \<Rightarrow>
          (case apply_events dd events v of
             (Some err, v) \<Rightarrow> (Some (ApplyFailed requestID (SequenceNumber raw) err), v)
           | (None, v) \<Rightarrow> replay_frames cd dd requestID raws (note_frame raw v)))"

type_synonym event_log = "scope \<Rightarrow> u64 \<Rightarrow> event_filter \<Rightarrow> (go_error + event list) option"

definition start_view :: "string \<Rightarrow> snapshot_cursor \<Rightarrow> describe_view \<Rightarrow> describe_view" where
  "start_view requestID cursor v =
     (let v = (if sc_CheckpointSequence cursor > dv_LatestCheckpointSequence v
               then v\<lparr>dv_LatestCheckpointSequence := sc_CheckpointSequence cursor\<rparr> else v)
      in if sc_EventSequence cursor > dv_LatestEventSequence v then v\<lparr>dv_LatestEventSequence := sc_EventSequence cursor\<rparr> else v)"

definition replay_from :: "snapshot_cursor \<Rightarrow> u64" where
  "replay_from cursor = (if sc_EventSequence cursor > 0 then sc_EventSequence cursor + 1 else 1)"

definition ReplayDescribeView ::
  "codec \<Rightarrow> delta_decoders \<Rightarrow> string \<Rightarrow> describe_view option \<Rightarrow> snapshot_cursor \<Rightarrow> event_log option
     \<Rightarrow> ((describe_error + describe_view) \<times> describe_view option) option" where
  "ReplayDescribeView cd dd requestID view cursor eventLog =
     (case eventLog of
        None \<Rightarrow> Some (Inl ReplayNeedsLog, view)
      | Some load \<Rightarrow>
          let requestID = (if requestID = [] then sc_RequestID cursor else requestID) in
          if requestID = [] then Some (Inl ReplayNeedsID, view)
          else if sc_RequestID cursor \<noteq> [] \<and> sc_RequestID cursor \<noteq> requestID
          then Some (Inl (CursorMismatch (sc_RequestID cursor) requestID), view)
          else
            let v = (case view of None \<Rightarrow> new_view requestID | Some v \<Rightarrow> v);
                v = (if dv_RequestID v = [] then v\<lparr>dv_RequestID := requestID\<rparr> else v);
                passed = (\<lambda>v. if view = None then None else Some v)
            in
            if dv_RequestID v \<noteq> requestID then Some (Inl (ViewMismatch (dv_RequestID v) requestID), passed v)
            else
              let v = start_view requestID cursor v in
              (case load (empty_scope\<lparr>RequestID := requestID\<rparr>) (replay_from cursor) empty_filter of
                 None \<Rightarrow> None
               | Some (Inl err) \<Rightarrow> Some (Inl (LoadFailed requestID err), passed v)
               | Some (Inr raws) \<Rightarrow>
                   (case replay_frames cd dd requestID raws v of
                      (Some err, v) \<Rightarrow> Some (Inl err, passed v)
                    | (None, v) \<Rightarrow>
                        let v = (if dv_RequestID v = [] then v\<lparr>dv_RequestID := requestID\<rparr> else v)
                        in Some (Inr v, passed v))))"

definition view_SnapshotCursor :: "describe_view \<Rightarrow> snapshot_cursor" where
  "view_SnapshotCursor v =
     \<lparr>sc_RequestID = dv_RequestID v, sc_RunnerID = dv_RunnerID v, sc_CheckpointSequence = dv_LatestCheckpointSequence v,
      sc_EventSequence = dv_LatestEventSequence v, sc_UpdatedAt = 0\<rparr>"

text \<open>\<open>be_log\<close> and \<open>be_cursors\<close> are the stores of the configured backend, on the files it keeps.\<close>

record backend =
  be_log :: "(files \<Rightarrow> event_log) option"
  be_cursors :: "(snapshot_cursor \<Rightarrow> files \<Rightarrow> go_error \<times> files) option"

definition DescribeRequest ::
  "codec \<Rightarrow> delta_decoders \<Rightarrow> backend option \<Rightarrow> string \<Rightarrow> files \<Rightarrow> ((describe_error + describe_view) \<times> files) option" where
  "DescribeRequest cd dd be requestID fs =
     (if TrimSpace requestID = [] then Some (Inl DescribeEmptyID, fs)
      else
        (case Option.bind be be_log of
           None \<Rightarrow> Some (Inl EventLogNotConfigured, fs)
         | Some evlog \<Rightarrow>
             (case ReplayDescribeView cd dd requestID None zero_cursor (Some (evlog fs)) of
                None \<Rightarrow> None
              | Some (Inl err, _) \<Rightarrow> Some (Inl err, fs)
              | Some (Inr view, _) \<Rightarrow>
                  (case Option.bind be be_cursors of
                     None \<Rightarrow> Some (Inr view, fs)
                   | Some save \<Rightarrow>
                       (case save (view_SnapshotCursor view) fs of (err, fs) \<Rightarrow>
                          if err \<noteq> [] then Some (Inl (SaveFailed requestID err), fs) else Some (Inr view, fs))))))"

end
