(* ===== verification/Describe_Theorems.thy ===== *)
theory Describe_Theorems
  imports Describe_View
begin

text \<open>
  What the description of a request shows, and that resuming it from its cursor gives the same as
  reading the whole log again.
\<close>

section \<open>What an event leaves alone\<close>

definition same_marks :: "describe_view \<Rightarrow> describe_view \<Rightarrow> bool" where
  "same_marks v v' \<longleftrightarrow> dv_LatestEventSequence v' = dv_LatestEventSequence v \<and> dv_LatestCheckpointSequence v' = dv_LatestCheckpointSequence v
    \<and> (dv_RequestID v \<noteq> [] \<longrightarrow> dv_RequestID v' = dv_RequestID v)"

lemma same_marks_trans: "same_marks u v \<Longrightarrow> same_marks v w \<Longrightarrow> same_marks u w"
  by (auto simp: same_marks_def)

lemma steps_same_marks:
  "same_marks v (snd (apply_scope sc v))" "same_marks v (apply_status dd ev v)" "same_marks v (snd (apply_phase dd ev v))"
  "same_marks v (snd (apply_added dd ev v))" "same_marks v (snd (apply_node dd ev v))" "same_marks v (snd (apply_artifact dd ev v))"
  by (simp_all add: same_marks_def apply_scope_def apply_status_def apply_phase_def apply_added_def apply_node_def apply_artifact_def
      upsertArtifact_def Let_def split: sum.split prod.split)

lemma applyEvent_keeps: "same_marks v (snd (applyEvent dd ev v))"
proof -
  obtain r u where s: "apply_scope (Scope ev) v = (r, u)" by force
  have "same_marks v u" using steps_same_marks(1) [of v "Scope ev"] s by simp
  moreover have "same_marks u u" by (simp add: same_marks_def)
  ultimately show ?thesis
    using s steps_same_marks(2-6) [of u dd ev] by (auto simp: applyEvent_def split: option.split intro: same_marks_trans)
qed

lemma apply_events_keep: "same_marks v (snd (apply_events dd evs v))"
proof (induction evs arbitrary: v)
  case (Cons ev evs)
  obtain r u where u: "applyEvent dd ev v = (r, u)" by force
  have "same_marks v u" using applyEvent_keeps [of v dd ev] u by simp
  then show ?case using u Cons [of u] by (auto split: option.split intro: same_marks_trans)
qed (simp add: same_marks_def)

lemma apply_events_append:
  "apply_events dd (xs @ ys) v = (case apply_events dd xs v of (Some err, v) \<Rightarrow> (Some err, v) | (None, v) \<Rightarrow> apply_events dd ys v)"
proof (induction xs arbitrary: v)
  case (Cons x xs)
  obtain r u where "applyEvent dd x v = (r, u)" by force
  then show ?case using Cons by (cases r) auto
qed simp

lemma replay_frames_append:
  "replay_frames cd dd rid (xs @ ys) v =
     (case replay_frames cd dd rid xs v of (Some err, v) \<Rightarrow> (Some err, v) | (None, v) \<Rightarrow> replay_frames cd dd rid ys v)"
proof (induction xs arbitrary: v)
  case (Cons x xs)
  show ?case
  proof (cases "ExpandBundleEvent cd x")
    case (Inr evs)
    obtain r u where "apply_events dd evs v = (r, u)" by force
    then show ?thesis using Inr Cons by (cases r) auto
  qed simp
qed simp

lemma replay_frames_keep:
  assumes "replay_frames cd dd rid raws v = (None, v')"
  shows "dv_LatestEventSequence v' = fold (\<lambda>raw n. if SequenceNumber raw > n then SequenceNumber raw else n) raws (dv_LatestEventSequence v)
    \<and> dv_LatestCheckpointSequence v' = dv_LatestCheckpointSequence v \<and> (dv_RequestID v \<noteq> [] \<longrightarrow> dv_RequestID v' = dv_RequestID v)"
  using assms
proof (induction raws arbitrary: v)
  case (Cons x xs)
  from Cons.prems obtain evs where evs: "ExpandBundleEvent cd x = Inr evs" by (auto split: sum.splits)
  obtain r u where u: "apply_events dd evs v = (r, u)" by force
  have "r = None" "replay_frames cd dd rid xs (note_frame x u) = (None, v')" using Cons.prems evs u by (auto split: option.splits)
  with Cons.IH [OF this(2)] apply_events_keep [of v dd evs] u show ?case by (auto simp: same_marks_def note_frame_def)
qed simp

section \<open>Resuming from a cursor\<close>

text \<open>The frames of a request carry the increasing numbers of its stream, below the largest number.\<close>

definition stream_order :: "event list \<Rightarrow> bool" where
  "stream_order evs \<longleftrightarrow> sorted_wrt (\<lambda>a b. SequenceNumber a < SequenceNumber b) evs \<and> (\<forall>ev \<in> set evs. 1 \<le> SequenceNumber ev \<and> SequenceNumber ev < - 1)"

lemma fold_latest:
  "sorted_wrt (\<lambda>a b. SequenceNumber a < SequenceNumber b) evs \<Longrightarrow> \<forall>ev \<in> set evs. n < SequenceNumber ev \<Longrightarrow>
   fold (\<lambda>raw n. if SequenceNumber raw > n then SequenceNumber raw else n) evs n = (if evs = [] then n else SequenceNumber (last evs))"
  by (induction evs arbitrary: n) auto

lemma word_less_neg1_Suc:
  assumes "(n :: u64) < - 1"
  shows "n + 1 \<le> m \<longleftrightarrow> n < m"
proof -
  have "1 + n \<noteq> 0" using assms by (metis add.commute add_eq_0_iff order_less_irrefl)
  from unatSuc [OF this] show ?thesis by (simp add: word_le_nat_alt word_less_nat_alt add.commute Suc_le_eq)
qed

lemma frames_after:
  assumes "stream_order (xs @ ys)"
  shows "filter (\<lambda>ev. replay_from (zero_cursor\<lparr>sc_EventSequence := (if xs = [] then 0 else SequenceNumber (last xs))\<rparr>) \<le> SequenceNumber ev
      \<and> 1 \<le> SequenceNumber ev) (xs @ ys) = ys"
proof (cases "xs = []")
  case True
  then show ?thesis using assms by (auto simp: stream_order_def replay_from_def zero_cursor_def filter_id_conv)
next
  case False
  let ?n = "SequenceNumber (last xs)"
  have n: "1 \<le> ?n" "?n < - 1" using False assms by (auto simp: stream_order_def)
  then have "0 < ?n" by (metis order_less_le_trans word_gt_0 zero_neq_one)
  moreover have "\<not> ?n < SequenceNumber ev" if "ev \<in> set xs" for ev
  proof -
    have "sorted_wrt (\<lambda>a b. SequenceNumber a < SequenceNumber b) (butlast xs @ [last xs])"
      using assms False by (simp add: stream_order_def sorted_wrt_append)
    then have "\<forall>a \<in> set (butlast xs). SequenceNumber a < ?n" by (simp add: sorted_wrt_append)
    moreover have "ev \<in> set (butlast xs) \<or> ev = last xs" using that False by (metis append_butlast_last_id Un_iff empty_iff set_ConsD set_append set_empty)
    ultimately show ?thesis by auto
  qed
  moreover have "?n < SequenceNumber ev \<and> 1 \<le> SequenceNumber ev" if "ev \<in> set ys" for ev
    using assms False that by (auto simp: stream_order_def sorted_wrt_append)
  ultimately show ?thesis
    using n False by (auto simp: replay_from_def word_less_neg1_Suc filter_id_conv filter_empty_conv)
qed

text \<open>The frames that a run of appends left in the log of a request.\<close>

definition logged :: "(event \<Rightarrow> go_error + string) \<Rightarrow> (event \<Rightarrow> event) \<Rightarrow> string \<Rightarrow> (log_fault \<times> event) list \<Rightarrow> event list" where
  "logged enc nrm rid xs = map (nrm \<circ> snd) (filter (in_log enc rid) xs)"

definition file_log :: "(string \<Rightarrow> event decoded) \<Rightarrow> string \<Rightarrow> files \<Rightarrow> event_log" where
  "file_log dec dir fs sc start filt = LoadEvents dec dir [] sc start filt fs"

lemma file_log_frames:
  assumes "clean_abs dir" "store_path dir ''.jsonl'' rid = Inr p" "\<not> map_has fs p"
    and "\<forall>(io, ev) \<in> set xs. untorn io \<and> codes enc dec nrm ev" "ends dec"
  shows "file_log dec dir (append_run enc dir xs fs) (empty_scope\<lparr>RequestID := rid\<rparr>) start empty_filter
    = Some (Inr (filter (\<lambda>ev. start \<le> SequenceNumber ev \<and> 1 \<le> SequenceNumber ev) (logged enc nrm rid xs)))"
  using load_after_appends [OF assms(1) _ assms(3,4,5), of "empty_scope\<lparr>RequestID := rid\<rparr>" start empty_filter] assms(2)
  by (simp add: file_log_def logged_def)

lemma replay_fresh:
  assumes "rid \<noteq> []" "load (empty_scope\<lparr>RequestID := rid\<rparr>) 1 empty_filter = Some (Inr raws)"
  shows "ReplayDescribeView cd dd rid None zero_cursor (Some load) =
    Some (case replay_frames cd dd rid raws (new_view rid) of (Some err, _) \<Rightarrow> Inl err | (None, v) \<Rightarrow> Inr v, None)"
proof -
  obtain r v where r: "replay_frames cd dd rid raws (new_view rid) = (r, v)" by force
  have "dv_RequestID v = rid" if "r = None"
    using replay_frames_keep [of cd dd rid raws "new_view rid" v] r that assms(1) by (simp add: new_view_def)
  with r assms show ?thesis
    by (cases r) (auto simp: ReplayDescribeView_def zero_cursor_def start_view_def replay_from_def Let_def new_view_def)
qed

lemma replay_resumed:
  assumes "rid \<noteq> []" "dv_RequestID v = rid" "load (empty_scope\<lparr>RequestID := rid\<rparr>) (replay_from (view_SnapshotCursor v)) empty_filter = Some (Inr raws)"
  shows "map_option fst (ReplayDescribeView cd dd rid (Some v) (view_SnapshotCursor v) (Some load)) =
    Some (case replay_frames cd dd rid raws v of (Some err, _) \<Rightarrow> Inl err | (None, v) \<Rightarrow> Inr v)"
proof -
  obtain r u where r: "replay_frames cd dd rid raws v = (r, u)" by force
  have "dv_RequestID u = rid" if "r = None"
    using replay_frames_keep [of cd dd rid raws v u] r that assms(1,2) by simp
  moreover have "start_view rid (view_SnapshotCursor v) v = v" by (simp add: start_view_def view_SnapshotCursor_def)
  ultimately show ?thesis using r assms
    by (cases r) (auto simp: ReplayDescribeView_def Let_def view_SnapshotCursor_def)
qed

text \<open>C38. A description that was built from the log of a request and is continued from its own cursor, after
  more events were appended, gives what reading the whole log again gives, also when that is an error.\<close>

theorem describe_resumes_from_cursor:
  assumes "clean_abs dir" "store_path dir ''.jsonl'' rid = Inr p" "\<not> map_has fs p"
    and "\<forall>(io, ev) \<in> set (xs @ ys). untorn io \<and> codes enc dec nrm ev" "ends dec"
    and "stream_order (logged enc nrm rid (xs @ ys))"
    and "ReplayDescribeView cd dd rid None zero_cursor (Some (file_log dec dir (append_run enc dir xs fs))) = Some (Inr v, w)"
  shows "map_option fst (ReplayDescribeView cd dd rid (Some v) (view_SnapshotCursor v) (Some (file_log dec dir (append_run enc dir (xs @ ys) fs))))
    = map_option fst (ReplayDescribeView cd dd rid None zero_cursor (Some (file_log dec dir (append_run enc dir (xs @ ys) fs))))"
proof -
  have rid: "rid \<noteq> []" using assms(2) by (auto simp: store_path_def validateStoreID_def Let_def)
  let ?log = "file_log dec dir (append_run enc dir xs fs)" and ?longer = "file_log dec dir (append_run enc dir (xs @ ys) fs)"
  let ?old = "logged enc nrm rid xs" and ?new = "logged enc nrm rid ys"
  have all: "logged enc nrm rid (xs @ ys) = ?old @ ?new" by (simp add: logged_def)
  have order: "stream_order (?old @ ?new)" "stream_order ?old" using assms(6) by (auto simp: all stream_order_def sorted_wrt_append)
  have whole: "filter (\<lambda>ev. 1 \<le> SequenceNumber ev \<and> 1 \<le> SequenceNumber ev) evs = evs" if "stream_order evs" for evs
    using that by (auto simp: stream_order_def filter_id_conv)
  have "\<forall>(io, ev) \<in> set xs. untorn io \<and> codes enc dec nrm ev" using assms(4) by auto
  note old = file_log_frames [OF assms(1-3) this assms(5), where start = 1] and both = file_log_frames [OF assms(1-5)]
  have v: "replay_frames cd dd rid ?old (new_view rid) = (None, v)"
    using assms(7) replay_fresh [where load = ?log, OF rid old, unfolded whole [OF order(2)]] by (auto split: prod.splits option.splits)
  have "\<forall>ev \<in> set ?old. 0 < SequenceNumber ev" using order(2) by (auto simp: stream_order_def word_le_nat_alt word_less_nat_alt)
  then have marks: "dv_LatestEventSequence v = (if ?old = [] then 0 else SequenceNumber (last ?old))" "dv_RequestID v = rid"
    using replay_frames_keep [OF v] fold_latest [of ?old 0] order(2) rid
    by (auto simp: new_view_def stream_order_def)
  have "replay_from (view_SnapshotCursor v) = replay_from (zero_cursor\<lparr>sc_EventSequence := (if ?old = [] then 0 else SequenceNumber (last ?old))\<rparr>)"
    by (simp add: replay_from_def view_SnapshotCursor_def zero_cursor_def marks(1))
  then have "filter (\<lambda>ev. replay_from (view_SnapshotCursor v) \<le> SequenceNumber ev \<and> 1 \<le> SequenceNumber ev) (?old @ ?new) = ?new"
    using frames_after [OF order(1)] by simp
  note resumed = replay_resumed [where load = ?longer, OF rid marks(2) both [where start = "replay_from (view_SnapshotCursor v)"], unfolded all this]
  show ?thesis
    unfolding resumed replay_fresh [where load = ?longer, OF rid both [where start = 1], unfolded whole [OF assms(6)], unfolded all]
    by (simp add: replay_frames_append v)
qed

section \<open>What a description shows\<close>

text \<open>The node an event is about, the phase it reports and the artifact it announces.\<close>

definition node_of :: "delta_decoders \<Rightarrow> event \<Rightarrow> string option" where
  "node_of dd ev =
     (if EventType ev = EventRunnerNodeAdded then
        (case dd_added dd (Delta ev) of Inr d \<Rightarrow> Some (firstNonEmpty [ad_NodeID d, NodeID (Scope ev)]) | Inl _ \<Rightarrow> None)
      else if is_node_event ev then
        (case dd_node dd (Delta ev) of Inr (n, _) \<Rightarrow> Some (firstNonEmpty [n, NodeID (Scope ev)]) | Inl _ \<Rightarrow> None)
      else None)"

definition phase_of :: "delta_decoders \<Rightarrow> event \<Rightarrow> string" where
  "phase_of dd ev =
     (if EventType ev = EventRunnerPhaseChanged then (case dd_phase dd (Delta ev) of Inr (phase, _) \<Rightarrow> phase | Inl _ \<Rightarrow> []) else [])"

definition artifact_of :: "delta_decoders \<Rightarrow> event \<Rightarrow> describe_artifact option" where
  "artifact_of dd ev =
     (if EventType ev = EventArtifactCreated then
        (case dd_artifact dd (Delta ev) of
           Inr d \<Rightarrow> Some \<lparr>dar_NodeID = NodeID (Scope ev), dar_Path = af_Path d, dar_ResourceType = af_ResourceType d,
                      dar_Description = af_Description d, dar_Stage = af_Stage d\<rparr>
         | Inl _ \<Rightarrow> None)
      else None)"

definition artifact_key :: "describe_artifact \<Rightarrow> string \<times> string" where
  "artifact_key a = (dar_NodeID a, dar_Path a)"

text \<open>The last of the artifacts with the same key.\<close>

definition latest_artifact :: "describe_artifact list \<Rightarrow> describe_artifact \<Rightarrow> bool" where
  "latest_artifact as a \<longleftrightarrow> a \<in> set as \<and> a = last (filter (\<lambda>b. artifact_key b = artifact_key a) as)"

definition shows_events :: "delta_decoders \<Rightarrow> event list \<Rightarrow> describe_view \<Rightarrow> bool" where
  "shows_events dd es v \<longleftrightarrow>
     (\<forall>n. map_get (dv_Nodes v) n \<noteq> None \<longleftrightarrow> Some n \<in> node_of dd ` set es)
   \<and> (\<forall>n node. map_get (dv_Nodes v) n = Some node \<longrightarrow> dn_ID node = n \<and> dn_Status node = Status (last (filter (\<lambda>ev. node_of dd ev = Some n) es)))
   \<and> dv_Phase v = last ([] # filter (\<lambda>p. p \<noteq> []) (map (phase_of dd) es))
   \<and> distinct (map artifact_key (dv_Artifacts v))
   \<and> set (dv_Artifacts v) = Collect (latest_artifact (List.map_filter (artifact_of dd) es))"

lemma upsert_keys: "map artifact_key (upsert a as) = map artifact_key as @ (if artifact_key a \<in> artifact_key ` set as then [] else [artifact_key a])"
  by (induction as) (auto simp: artifact_key_def)

lemma upsert_mem:
  "distinct (map artifact_key as) \<Longrightarrow> b \<in> set (upsert a as) \<longleftrightarrow> b = a \<or> b \<in> set as \<and> artifact_key b \<noteq> artifact_key a"
  by (induction as) (auto simp: artifact_key_def image_iff)

lemma latest_snoc:
  "latest_artifact (as @ [a]) b \<longleftrightarrow> b = a \<or> latest_artifact as b \<and> artifact_key b \<noteq> artifact_key a"
  by (auto simp: latest_artifact_def)

lemmas event_names = EventStatusStarted_def EventStatusProgress_def EventStatusCompleted_def EventStatusFailed_def EventRunnerPhaseChanged_def
  EventRunnerNodeAdded_def EventRunnerNodeStarted_def EventRunnerNodeCompleted_def EventRunnerNodeFailed_def EventArtifactCreated_def

lemma event_kinds:
  "EventType ev = EventRunnerPhaseChanged \<Longrightarrow> \<not> is_node_event ev \<and> EventType ev \<noteq> EventRunnerNodeAdded \<and> EventType ev \<noteq> EventArtifactCreated"
  "EventType ev = EventRunnerNodeAdded \<Longrightarrow> \<not> is_node_event ev \<and> EventType ev \<noteq> EventRunnerPhaseChanged \<and> EventType ev \<noteq> EventArtifactCreated"
  "EventType ev = EventArtifactCreated \<Longrightarrow> \<not> is_node_event ev \<and> EventType ev \<noteq> EventRunnerPhaseChanged \<and> EventType ev \<noteq> EventRunnerNodeAdded"
  by (simp_all add: is_node_event_def event_names)

lemma node_event_kind:
  assumes "is_node_event ev"
  shows "EventType ev \<noteq> EventRunnerPhaseChanged \<and> EventType ev \<noteq> EventRunnerNodeAdded \<and> EventType ev \<noteq> EventArtifactCreated"
  using assms event_kinds [of ev] by blast

lemma status_event_kind:
  assumes "is_status_event ev"
  shows "\<not> is_node_event ev \<and> EventType ev \<noteq> EventRunnerPhaseChanged \<and> EventType ev \<noteq> EventRunnerNodeAdded \<and> EventType ev \<noteq> EventArtifactCreated"
proof -
  consider "EventType ev = EventStatusStarted" | "EventType ev = EventStatusProgress" | "EventType ev = EventStatusCompleted" | "EventType ev = EventStatusFailed"
    using assms by (auto simp: is_status_event_def)
  then show ?thesis by cases (simp_all add: is_node_event_def event_names)
qed

text \<open>What one event that is accepted changes of the parts shown.\<close>

definition shown_step :: "delta_decoders \<Rightarrow> event \<Rightarrow> describe_view \<Rightarrow> describe_view \<Rightarrow> bool" where
  "shown_step dd ev v v' \<longleftrightarrow>
     (case node_of dd ev of
        None \<Rightarrow> dv_Nodes v' = dv_Nodes v
      | Some n \<Rightarrow> \<exists>node. dv_Nodes v' = map_set (dv_Nodes v) n node \<and> dn_ID node = n \<and> dn_Status node = Status ev)
   \<and> dv_Phase v' = (if phase_of dd ev = [] then dv_Phase v else phase_of dd ev)
   \<and> dv_Artifacts v' = (case artifact_of dd ev of None \<Rightarrow> dv_Artifacts v | Some a \<Rightarrow> upsert a (dv_Artifacts v))"

lemmas shown_defs = shown_step_def node_of_def phase_of_def artifact_of_def

lemma shown_parts:
  "is_status_event ev \<Longrightarrow> shown_step dd ev v (apply_status dd ev v)"
  "EventType ev = EventRunnerPhaseChanged \<Longrightarrow> apply_phase dd ev v = (None, v') \<Longrightarrow> shown_step dd ev v v'"
  "EventType ev = EventRunnerNodeAdded \<Longrightarrow> apply_added dd ev v = (None, v') \<Longrightarrow> shown_step dd ev v v'"
  "is_node_event ev \<Longrightarrow> apply_node dd ev v = (None, v') \<Longrightarrow> shown_step dd ev v v'"
  "EventType ev = EventArtifactCreated \<Longrightarrow> apply_artifact dd ev v = (None, v') \<Longrightarrow> shown_step dd ev v v'"
proof -
  show "shown_step dd ev v (apply_status dd ev v)" if "is_status_event ev"
    using status_event_kind [OF that] by (auto simp: apply_status_def Let_def shown_defs split: sum.split)
  show "shown_step dd ev v v'" if "EventType ev = EventRunnerPhaseChanged" "apply_phase dd ev v = (None, v')"
    using event_kinds(1) [OF that(1)] that by (auto simp: apply_phase_def Let_def shown_defs split: sum.splits prod.splits if_splits)
  show "shown_step dd ev v v'" if "EventType ev = EventRunnerNodeAdded" "apply_added dd ev v = (None, v')"
    using event_kinds(2) [OF that(1)] that
    by (auto simp del: firstNonEmpty.simps simp: apply_added_def Let_def shown_defs split: sum.splits if_splits)
  show "shown_step dd ev v v'" if "is_node_event ev" "apply_node dd ev v = (None, v')"
    using node_event_kind [OF that(1)] that
    by (auto simp del: firstNonEmpty.simps simp: apply_node_def Let_def shown_defs split: sum.splits prod.splits if_splits)
  show "shown_step dd ev v v'" if "EventType ev = EventArtifactCreated" "apply_artifact dd ev v = (None, v')"
    using event_kinds(3) [OF that(1)] that
    by (auto simp: apply_artifact_def upsertArtifact_def Let_def shown_defs split: sum.splits if_splits)
qed

lemma applyEvent_shown:
  assumes "applyEvent dd ev v = (None, v')"
  shows "shown_step dd ev v v'"
proof -
  obtain u where u: "apply_scope (Scope ev) v = (None, u)" using assms by (auto simp: applyEvent_def split: prod.splits option.splits)
  have same: "shown_step dd ev v w = shown_step dd ev u w" for w
    using u by (auto simp: shown_step_def apply_scope_def Let_def split: if_splits option.split)
  show ?thesis
  proof (cases "is_status_event ev \<or> EventType ev = EventRunnerPhaseChanged \<or> EventType ev = EventRunnerNodeAdded
      \<or> is_node_event ev \<or> EventType ev = EventArtifactCreated")
    case True
    then show ?thesis using assms u shown_parts [of ev dd u] unfolding same by (auto simp: applyEvent_def split: if_splits)
  next
    case False
    then show ?thesis using assms u unfolding same by (simp add: applyEvent_def shown_defs)
  qed
qed

lemma shows_events_snoc:
  assumes "shows_events dd es v" "shown_step dd ev v v'"
  shows "shows_events dd (es @ [ev]) v'"
proof -
  let ?as = "List.map_filter (artifact_of dd) es"
  have art: "List.map_filter (artifact_of dd) (es @ [ev]) = ?as @ (case artifact_of dd ev of None \<Rightarrow> [] | Some a \<Rightarrow> [a])"
    by (simp add: List.map_filter_def split: option.split)
  have "distinct (map artifact_key (dv_Artifacts v')) \<and> set (dv_Artifacts v') = Collect (latest_artifact (List.map_filter (artifact_of dd) (es @ [ev])))"
  proof (cases "artifact_of dd ev")
    case None
    then show ?thesis using assms unfolding art by (simp add: shows_events_def shown_step_def)
  next
    case (Some a)
    have d: "distinct (map artifact_key (dv_Artifacts v))" using assms(1) by (simp add: shows_events_def)
    have m: "set (dv_Artifacts v) = Collect (latest_artifact ?as)" using assms(1) by (simp add: shows_events_def)
    have n: "dv_Artifacts v' = upsert a (dv_Artifacts v)" using assms(2) Some by (simp add: shown_step_def)
    have "set (dv_Artifacts v') = Collect (latest_artifact (?as @ [a]))"
      unfolding n using upsert_mem [OF d] m latest_snoc [of ?as a] by blast
    moreover have "distinct (map artifact_key (dv_Artifacts v'))" unfolding n upsert_keys using d by auto
    ultimately show ?thesis unfolding art by (simp add: Some)
  qed
  moreover have "dv_Phase v' = last ([] # filter (\<lambda>p. p \<noteq> []) (map (phase_of dd) (es @ [ev])))"
    using assms by (simp add: shows_events_def shown_step_def)
  moreover have "map_get (dv_Nodes v') n \<noteq> None \<longleftrightarrow> Some n \<in> node_of dd ` set (es @ [ev])" for n
    using assms by (cases "node_of dd ev") (auto simp: shows_events_def shown_step_def split: if_splits)
  moreover have "dn_ID node = n \<and> dn_Status node = Status (last (filter (\<lambda>ev. node_of dd ev = Some n) (es @ [ev])))"
    if "map_get (dv_Nodes v') n = Some node" for n node
    using assms that by (cases "node_of dd ev") (auto simp: shows_events_def shown_step_def split: if_splits)
  ultimately show ?thesis unfolding shows_events_def by blast
qed

lemma apply_events_shown:
  assumes "shows_events dd es v" "apply_events dd evs v = (None, v')"
  shows "shows_events dd (es @ evs) v'"
  using assms(2)
proof (induction evs arbitrary: v' rule: rev_induct)
  case Nil
  then show ?case using assms(1) by simp
next
  case (snoc ev evs)
  obtain u where u: "apply_events dd evs v = (None, u)" "applyEvent dd ev u = (None, v')"
    using snoc.prems by (auto simp: apply_events_append split: prod.splits option.splits)
  show ?case using shows_events_snoc [OF snoc.IH [OF u(1)] applyEvent_shown [OF u(2)]] by simp
qed

lemma replay_frames_shown:
  assumes "replay_frames cd dd rid raws (new_view rid) = (None, v)"
  shows "\<exists>ess. list_all2 (\<lambda>raw evs. ExpandBundleEvent cd raw = Inr evs) raws ess \<and> shows_events dd (concat ess) v"
  using assms
proof (induction raws arbitrary: v rule: rev_induct)
  case Nil
  then have "shows_events dd (concat []) v"
    by (auto simp: shows_events_def new_view_def latest_artifact_def List.map_filter_def)
  then show ?case by blast
next
  case (snoc raw raws)
  obtain u where u: "replay_frames cd dd rid raws (new_view rid) = (None, u)" "replay_frames cd dd rid [raw] u = (None, v)"
    using snoc.prems by (auto simp: replay_frames_append simp del: replay_frames.simps split: prod.splits option.splits)
  obtain ess where ess: "list_all2 (\<lambda>raw evs. ExpandBundleEvent cd raw = Inr evs) raws ess" "shows_events dd (concat ess) u"
    using snoc.IH [OF u(1)] by blast
  obtain evs v' where evs: "ExpandBundleEvent cd raw = Inr evs" "apply_events dd evs u = (None, v')" "v = note_frame raw v'"
    using u(2) by (auto split: sum.splits prod.splits option.splits)
  have "shows_events dd (concat (ess @ [evs])) v"
    using apply_events_shown [OF ess(2) evs(2)] by (simp add: evs(3) note_frame_def shows_events_def)
  moreover have "list_all2 (\<lambda>raw evs. ExpandBundleEvent cd raw = Inr evs) (raws @ [raw]) (ess @ [evs])"
    using ess(1) evs(1) by (simp add: list_all2_appendI)
  ultimately show ?case by blast
qed

text \<open>C39. The description of a request has one entry for each node that an event of the log is about, with
  the status of the last such event; its phase is the last one reported; and it lists each artifact
  once, as it was last announced.\<close>

theorem describe_shows_latest:
  assumes "rid \<noteq> []" "load (empty_scope\<lparr>RequestID := rid\<rparr>) 1 empty_filter = Some (Inr raws)"
    and "ReplayDescribeView cd dd rid None zero_cursor (Some load) = Some (Inr v, w)"
  shows "\<exists>ess. list_all2 (\<lambda>raw evs. ExpandBundleEvent cd raw = Inr evs) raws ess \<and> shows_events dd (concat ess) v"
proof -
  have "replay_frames cd dd rid raws (new_view rid) = (None, v)"
    using assms(3) unfolding replay_fresh [where load = load, OF assms(1,2)] by (auto split: prod.splits option.splits)
  then show ?thesis by (rule replay_frames_shown)
qed

section \<open>Examples\<close>

definition plain_codec :: codec where "plain_codec = \<lparr>encode = (\<lambda>_. None), decode = (\<lambda>_. None)\<rparr>"

definition fixed_deltas :: delta_decoders where
  "fixed_deltas = \<lparr>dd_runner = (\<lambda>_. Inl []), dd_phase = (\<lambda>_. Inr (''executing'', ''running'')), dd_added = (\<lambda>_. Inl []),
     dd_node = (\<lambda>_. Inr (''a'', [])), dd_artifact = (\<lambda>_. Inl [])\<rparr>"

definition typed_event :: "string \<Rightarrow> string \<Rightarrow> u64 \<Rightarrow> event" where
  "typed_event ty st n = (unary_event n)\<lparr>EventType := ty, Status := st\<rparr>"

theorem describe_shows_latest_witness:
  "\<exists>v w node. ReplayDescribeView plain_codec fixed_deltas ''r'' None zero_cursor
        (Some (\<lambda>_ _ _. Some (Inr [typed_event ''runner.node.started'' ''running'' 1, typed_event ''runner.node.completed'' ''completed'' 2]))) = Some (Inr v, w)
     \<and> map_get (dv_Nodes v) ''a'' = Some node \<and> dn_Status node = ''completed''"
proof -
  let ?raws = "[typed_event ''runner.node.started'' ''running'' 1, typed_event ''runner.node.completed'' ''completed'' 2]"
  let ?load = "\<lambda>_ _ _. Some (Inr ?raws)"
  have ok: "fst (replay_frames plain_codec fixed_deltas ''r'' ?raws (new_view ''r'')) = None" by code_simp
  then obtain v where v: "replay_frames plain_codec fixed_deltas ''r'' ?raws (new_view ''r'') = (None, v)" by (metis prod.collapse)
  have r: "''r'' \<noteq> []" by simp
  have run: "ReplayDescribeView plain_codec fixed_deltas ''r'' None zero_cursor (Some ?load) = Some (Inr v, None)"
    using replay_fresh [where load = ?load, OF r refl, of plain_codec fixed_deltas] by (simp add: v del: replay_frames.simps)
  have "map (ExpandBundleEvent plain_codec) ?raws = map (\<lambda>e. Inr [e]) ?raws" by code_simp
  then have one: "ExpandBundleEvent plain_codec e = Inr [e]" if "e \<in> set ?raws" for e using that by auto
  obtain ess where ess: "list_all2 (\<lambda>raw evs. ExpandBundleEvent plain_codec raw = Inr evs) ?raws ess" "shows_events fixed_deltas (concat ess) v"
    using describe_shows_latest [where load = ?load, OF r refl run] by blast
  have "concat ess = ?raws" using ess(1) one by (auto simp: list_all2_Cons1)
  then have es: "shows_events fixed_deltas ?raws v" using ess(2) by simp
  have n: "node_of fixed_deltas ` set ?raws = {Some ''a''}" "filter (\<lambda>ev. node_of fixed_deltas ev = Some ''a'') ?raws = ?raws"
    "Status (last ?raws) = ''completed''" by code_simp+
  from es have "map_get (dv_Nodes v) ''a'' \<noteq> None" unfolding shows_events_def n(1) by blast
  then obtain node where node: "map_get (dv_Nodes v) ''a'' = Some node" by blast
  from es have "dn_Status node = Status (last (filter (\<lambda>ev. node_of fixed_deltas ev = Some ''a'') ?raws))"
    unfolding shows_events_def using node by blast
  with run node show ?thesis unfolding n(2,3) by blast
qed

theorem describe_resumes_from_cursor_witness:
  "\<exists>v w. ReplayDescribeView plain_codec fixed_deltas ''r'' None zero_cursor
        (Some (file_log unary_dec ''/d'' (append_run unary_enc ''/d'' [(fine, unary_event 1)] []))) = Some (Inr v, w)
     \<and> map_option fst (ReplayDescribeView plain_codec fixed_deltas ''r'' (Some v) (view_SnapshotCursor v)
          (Some (file_log unary_dec ''/d'' (append_run unary_enc ''/d'' ([(fine, unary_event 1)] @ [(fine, unary_event 2)]) []))))
       = map_option fst (ReplayDescribeView plain_codec fixed_deltas ''r'' None zero_cursor
          (Some (file_log unary_dec ''/d'' (append_run unary_enc ''/d'' ([(fine, unary_event 1)] @ [(fine, unary_event 2)]) []))))"
proof -
  let ?xs = "[(fine, unary_event 1)]" and ?ys = "[(fine, unary_event 2)]" and ?nrm = "\<lambda>ev. unary_event (SequenceNumber ev)"
  let ?log = "file_log unary_dec ''/d'' (append_run unary_enc ''/d'' ?xs [])"
  have path: "clean_abs ''/d''" "store_path ''/d'' ''.jsonl'' ''r'' = Inr ''/d/r.jsonl''" "\<not> map_has [] ''/d/r.jsonl''" by code_simp+
  have codec: "\<forall>(io, ev) \<in> set (?xs @ ?ys). untorn io \<and> codes unary_enc unary_dec ?nrm ev" "\<forall>(io, ev) \<in> set ?xs. untorn io \<and> codes unary_enc unary_dec ?nrm ev"
    by (auto simp: untorn_def fine_def intro!: unary_codes)
  have lg: "logged unary_enc ?nrm ''r'' ?xs = [unary_event 1]" "stream_order (logged unary_enc ?nrm ''r'' (?xs @ ?ys))"
    "filter (\<lambda>ev. 1 \<le> SequenceNumber ev \<and> 1 \<le> SequenceNumber ev) [unary_event 1] = [unary_event 1]" by code_simp+
  have "fst (replay_frames plain_codec fixed_deltas ''r'' [unary_event 1] (new_view ''r'')) = None" by code_simp
  then obtain v where v: "replay_frames plain_codec fixed_deltas ''r'' [unary_event 1] (new_view ''r'') = (None, v)" by (metis prod.collapse)
  have r: "''r'' \<noteq> []" by simp
  note l = file_log_frames [OF path codec(2) unary_ends, where start = 1, unfolded lg(1,3)]
  have run: "ReplayDescribeView plain_codec fixed_deltas ''r'' None zero_cursor (Some ?log) = Some (Inr v, None)"
    using replay_fresh [where load = ?log, OF r l, of plain_codec fixed_deltas] by (simp add: v del: replay_frames.simps)
  with describe_resumes_from_cursor [OF path codec(1) unary_ends lg(2) run] show ?thesis by blast
qed

end
