(* ===== verification/Request_Start.thy ===== *)
theory Request_Start
  imports Channel_Docs Describe_View Runner_Plan Start_Queue "HOL-Library.List_Lexorder" "HOL-Library.Char_ord"
begin

text \<open>
  The start of a request, from \<^verbatim>\<open>orchestrator/request.go\<close> and \<^verbatim>\<open>orchestrator/planning.go\<close>: planning with the
  orchestrator skill, and the materialisation and submission of the runner.

  The skills are values of a type \<open>'k\<close>; binding and running them, merging streams, creating and
  submitting a runner are functions of the environment on an abstract world (they are modelled in
  \<open>Skill_Tools\<close>, \<open>Conversation_Run\<close>, \<open>Stream_Hub\<close>, \<open>Runner_Lifecycle\<close> and \<open>Start_Queue\<close>).  What the start itself does
  with their results is the state below: the events it emits on the request stream, the merges it
  opens and stops, the runners it registers and watches.
\<close>

section \<open>Requests\<close>

record request =
  rq_Input :: string
  rq_Priority :: int
  rq_ArtifactsDir :: string

datatype request_error = RequestRejected "reject_reason option" | RequestFailed go_error

definition request_error_text :: "request_error \<Rightarrow> string" where
  "request_error_text err =
     (case err of
        RequestFailed e \<Rightarrow> error_text e
      | RequestRejected None \<Rightarrow> ''orchestrate: request rejected''
      | RequestRejected (Some r) \<Rightarrow>
          if rj_Summary r \<noteq> [] then ''orchestrate: request rejected: '' @ rj_Summary r else ''orchestrate: request rejected'')"

definition rejectUnconfiguredPlan :: reject_reason where
  "rejectUnconfiguredPlan =
     \<lparr>rj_Summary = ''task cannot proceed'',
      rj_Analysis = ''the orchestrator skill is not bound to an llm client, so the request cannot be planned yet'', rj_MissingSkills = []\<rparr>"

definition errOrchestratorSkillUnconfigured :: string where
  "errOrchestratorSkillUnconfigured = ''orchestrate: orchestrator skill has no runnable llm client''"

record plan_prompt =
  pp_Mode :: string
  pp_Task :: string
  pp_Contract :: string
  pp_Request :: string
  pp_Skills :: "(string \<times> string) list"   \<comment> \<open>name, description\<close>

record bind_config =
  bc_StreamEvents :: bool
  bc_StreamSource :: source
  bc_StreamMetadata :: "(string, any_val) gomap option"

datatype engine_delta = TextDelta string | RunnerCreated string

record ('k, 'w) start_env =
  se_Client :: "'k \<Rightarrow> string option"
  se_Bind :: "'k \<Rightarrow> string option \<Rightarrow> bind_config \<Rightarrow> 'w \<Rightarrow> (go_error + 'k) \<times> 'w"
  se_EventStream :: "'k \<Rightarrow> nat option"
  se_Merge :: "nat \<Rightarrow> 'w \<Rightarrow> (go_error + nat) \<times> 'w"
  se_Run :: "'k \<Rightarrow> string \<Rightarrow> 'w \<Rightarrow> (go_error + string) \<times> 'w"
  se_Turns :: "'k \<Rightarrow> 'w \<Rightarrow> turn list option"
  se_Now :: "'w \<Rightarrow> time"
  se_enc_handoff :: "handoff_front \<Rightarrow> go_error + string"
  se_enc_prompt :: "plan_prompt \<Rightarrow> go_error + string"
  se_dec_plan :: "string \<Rightarrow> string + coarse_plan option \<times> reject_reason option"
  se_letter :: "string \<Rightarrow> bool"
  se_json :: "engine_delta \<Rightarrow> bytes"
  se_MkdirAll :: "string \<Rightarrow> 'w \<Rightarrow> go_error \<times> 'w"
  se_registered :: "string \<Rightarrow> bool"
  se_new_agent :: "coarse_plan_node \<Rightarrow> string option"
  se_NewRunner :: "coarse_plan \<Rightarrow> (string, node) gomap \<Rightarrow> 'w \<Rightarrow> (string \<times> nat option) \<times> 'w"
  se_submit :: "string \<Rightarrow> int \<Rightarrow> 'w \<Rightarrow> go_error \<times> 'w"

record 'w request_run =
  rn_world :: 'w
  rn_emitted :: "event list"
  rn_merges :: "nat list"
  rn_stopped :: "nat list"
  rn_runners :: "string list"
  rn_watched :: "string list"

definition in_world :: "('w \<Rightarrow> 'a \<times> 'w) \<Rightarrow> 'w request_run \<Rightarrow> 'a \<times> 'w request_run" where
  "in_world f s = (case f (rn_world s) of (r, w) \<Rightarrow> (r, s\<lparr>rn_world := w\<rparr>))"

section \<open>Streams\<close>

definition streamSourceOrchestrator :: source where
  "streamSourceOrchestrator = empty_source\<lparr>Layer := ''orchestrator'', ID := ''orchestrator''\<rparr>"

definition emitEngineStreamEvent ::
  "('k, 'w) start_env \<Rightarrow> string \<Rightarrow> string \<Rightarrow> engine_delta \<Rightarrow> scope \<Rightarrow> (string, any_val) gomap option \<Rightarrow> 'w request_run \<Rightarrow> 'w request_run" where
  "emitEngineStreamEvent e eventType status delta sc metadata s =
     s\<lparr>rn_emitted := rn_emitted s @ [zero_event\<lparr>EventType := eventType, From := streamSourceOrchestrator, Status := status,
         Delta := Some (se_json e delta), Scope := sc, Metadata := metadata\<rparr>]\<rparr>"

definition emit_failed :: "('k, 'w) start_env \<Rightarrow> string \<Rightarrow> (string, any_val) gomap option \<Rightarrow> 'w request_run \<Rightarrow> 'w request_run" where
  "emit_failed e msg metadata = emitEngineStreamEvent e EventStatusFailed StatusFailed (TextDelta msg) empty_scope metadata"

definition mergeChildStream :: "('k, 'w) start_env \<Rightarrow> string \<Rightarrow> nat option \<Rightarrow> 'w request_run \<Rightarrow> go_error \<times> 'w request_run" where
  "mergeChildStream e what upstream s =
     (case upstream of
        None \<Rightarrow> ([], s)
      | Some st \<Rightarrow>
          (case in_world (se_Merge e st) s of
             (Inl err, s) \<Rightarrow> ((''orchestrate: merge '' @ what @ '' stream'') # err, s)
           | (Inr mg, s) \<Rightarrow> ([], s\<lparr>rn_merges := rn_merges s @ [mg]\<rparr>)))"

definition stopStreamMerges :: "nat list \<Rightarrow> 'w request_run \<Rightarrow> 'w request_run" where
  "stopStreamMerges merges s = s\<lparr>rn_stopped := rn_stopped s @ merges\<rparr>"

section \<open>Planning\<close>

definition planningConversationConfig :: bind_config where
  "planningConversationConfig = \<lparr>bc_StreamEvents = True, bc_StreamSource = streamSourceOrchestrator, bc_StreamMetadata = Some [(''stage'', AnyString ''planning'')]\<rparr>"

definition runnerPlannerConversationConfig :: bind_config where
  "runnerPlannerConversationConfig = \<lparr>bc_StreamEvents = True, bc_StreamSource = streamSourceOrchestrator, bc_StreamMetadata = None\<rparr>"

text \<open>The client of the skill itself, or the one from the environment when that could be resolved.\<close>

definition runtimeOrchestrator ::
  "('k, 'w) start_env \<Rightarrow> 'k option \<Rightarrow> go_error + string option \<Rightarrow> bind_config \<Rightarrow> 'w request_run \<Rightarrow> (go_error + 'k) \<times> 'w request_run" where
  "runtimeOrchestrator e sk envClient cfg s =
     (case sk of
        None \<Rightarrow> (Inl [errOrchestratorSkillUnconfigured], s)
      | Some sk \<Rightarrow>
          (case se_Client e sk of
             Some client \<Rightarrow> in_world (se_Bind e sk (Some client) cfg) s
           | None \<Rightarrow>
               (case envClient of
                  Inr (Some client) \<Rightarrow> in_world (se_Bind e sk (Some client) cfg) s
                | _ \<Rightarrow> (Inl [errOrchestratorSkillUnconfigured], s))))"

definition collectSkillSummaries :: "(string, string option) gomap \<Rightarrow> (string \<times> string) list" where
  "collectSkillSummaries skills =
     sort_key fst (map (\<lambda>(name, description). (name, case description of None \<Rightarrow> [] | Some d \<Rightarrow> d)) skills)"

definition quoted :: "string \<Rightarrow> string" where "quoted s = [CHR 0x22] @ s @ [CHR 0x22]"

definition braces :: "string \<Rightarrow> string" where "braces s = [CHR 0x7B] @ quoted s @ '':'' @ [CHR 0x7B] @ ''...'' @ [CHR 0x7D, CHR 0x7D]"

definition apostrophe :: string where "apostrophe = [CHR 0x27]"

definition marshalOrchestratorPlanningInput :: "('k, 'w) start_env \<Rightarrow> string \<Rightarrow> (string \<times> string) list \<Rightarrow> go_error + string" where
  "marshalOrchestratorPlanningInput e req skills =
     se_enc_prompt e
       \<lparr>pp_Mode = ''plan'',
        pp_Task = ''Plan the user request using only the listed skills. Reply with one strict JSON object: either '' @ braces ''plan'' @ '' or ''
          @ braces ''reject'' @ ''. No fences, no commentary.'',
        pp_Contract = ''plan.request must repeat the user'' @ apostrophe @ ''s original request verbatim. Each plan.nodes[] needs a snake_case id, a skill_name from data.skills, a self-contained task_description (what to do, inputs, output format, constraints, success criteria), and depends_on for any upstream-consuming node. reject must include summary, analysis, and missing_skills when the gap is a missing capability.'',
        pp_Request = req, pp_Skills = skills\<rparr>"

fun plan_error_text :: "parse_error \<Rightarrow> string" where
  "plan_error_text (NoJSONObject raw) = ''parse plan output: planner returned no JSON object (raw='' @ go_quote raw @ '')''"
| "plan_error_text (BadJSON err raw) = ''parse plan output: '' @ err @ '' (raw='' @ go_quote raw @ '')''"
| "plan_error_text BothPlanAndReject = ''planner returned both a plan and a reject reason''"
| "plan_error_text (NeitherPlanNorReject raw) = ''planner returned neither a plan nor a reject reason (raw='' @ go_quote raw @ '')''"
| "plan_error_text (MissingVerdict raw) = ''review output missing approved or reject (raw='' @ go_quote raw @ '')''"
| "plan_error_text (NoPlan raw) = ''replanner returned no plan (raw='' @ go_quote raw @ '')''"

definition PlannerRetryPrompt :: "string \<Rightarrow> string" where
  "PlannerRetryPrompt reason =
     ''Your previous response could not be parsed: '' @ reason
     @ ''. Reply now with one strict JSON object only '' @ [CHR 0xE2, CHR 0x80, CHR 0x94]
     @ '' no markdown fences, no language tag, no commentary, no leading or trailing prose. ''
     @ ''Match the JSON contract for the current mode exactly.''"

fun latest_reasoning :: "turn list \<Rightarrow> string" where
  "latest_reasoning [] = []"
| "latest_reasoning (t # ts) = (if tn_Role t = RoleReasoning \<and> tn_Text t \<noteq> [] then tn_Text t else latest_reasoning ts)"

definition latestReasoning :: "('k, 'w) start_env \<Rightarrow> 'k \<Rightarrow> 'w \<Rightarrow> string" where
  "latestReasoning e sk w = (case se_Turns e sk w of None \<Rightarrow> [] | Some turns \<Rightarrow> latest_reasoning (rev turns))"

definition planningHandoffMarkdown :: "('k, 'w) start_env \<Rightarrow> 'k \<Rightarrow> string \<Rightarrow> 'w \<Rightarrow> go_error + string" where
  "planningHandoffMarkdown e sk raw w =
     (if TrimSpace raw = [] then Inr []
      else
        let body = ''Planner produced the bootstrap plan handoff.'';
            reasoning = TrimSpace (latestReasoning e sk w);
            body = (if reasoning \<noteq> [] then body @ [newline, newline] @ ''Reasoning:'' @ [newline] @ reasoning else body)
        in handoff_Markdown (se_enc_handoff e) (se_Now e w)
             \<lparr>hf_Header = zero_header\<lparr>ch_RunnerID := ''orchestrator-plan'', ch_CreatedAt := se_Now e w\<rparr>, hf_FromNode = ''orchestrator'',
              hf_ToNodes = [''runner.bootstrap''], hf_Intent = ''plan'', hf_Artifacts = [], hf_Body = TrimSpace body\<rparr>)"

definition parse_plan :: "('k, 'w) start_env \<Rightarrow> string \<Rightarrow> parse_error + coarse_plan option \<times> reject_reason option" where
  "parse_plan e raw = parseOrchestratorPlanningOutput (se_letter e) (se_dec_plan e) raw"

text \<open>The reply that is used and what it parses to.\<close>

definition plan_reply ::
  "('k, 'w) start_env \<Rightarrow> 'k \<Rightarrow> string \<Rightarrow> 'w request_run \<Rightarrow> (go_error + string \<times> coarse_plan option \<times> reject_reason option) \<times> 'w request_run" where
  "plan_reply e sk prompt s =
     (case in_world (se_Run e sk prompt) s of
        (Inl err, s) \<Rightarrow> (Inl err, s)
      | (Inr raw, s) \<Rightarrow>
          (case parse_plan e raw of
             Inr r \<Rightarrow> (Inr (raw, r), s)
           | Inl perr \<Rightarrow>
               (case in_world (se_Run e sk (PlannerRetryPrompt (plan_error_text perr))) s of
                  (Inl err, s) \<Rightarrow> (Inl err, s)
                | (Inr raw, s) \<Rightarrow>
                    (case parse_plan e raw of
                       Inr r \<Rightarrow> (Inr (raw, r), s)
                     | Inl perr \<Rightarrow> (Inl [''orchestrate: '' @ plan_error_text perr @ '' (after one retry)''], s)))))"

definition planning_stage :: "(string, any_val) gomap option" where
  "planning_stage = Some [(''stage'', AnyString ''planning'')]"

definition planWithOrchestrator ::
  "('k, 'w) start_env \<Rightarrow> request \<Rightarrow> (string \<times> string) list \<Rightarrow> 'k \<Rightarrow> 'w request_run
     \<Rightarrow> (go_error + coarse_plan option \<times> reject_reason option) \<times> 'w request_run" where
  "planWithOrchestrator e req skills sk s =
     (case marshalOrchestratorPlanningInput e (rq_Input req) skills of
        Inl err \<Rightarrow> (Inl (''orchestrate: marshal planner input'' # err), s)
      | Inr prompt \<Rightarrow>
          (case plan_reply e sk prompt s of
             (Inl err, s) \<Rightarrow> (Inl err, s)
           | (Inr (raw, r), s) \<Rightarrow>
               (case planningHandoffMarkdown e sk raw (rn_world s) of
                  Inl err \<Rightarrow> (Inl (''orchestrate: build planning handoff'' # err), s)
                | Inr handoff \<Rightarrow>
                    let s = (if handoff \<noteq> []
                             then emitEngineStreamEvent e EventLLMOutputDelta StatusCompleted (TextDelta handoff) empty_scope planning_stage s else s)
                    in (Inr r, emitEngineStreamEvent e EventStatusCompleted StatusCompleted (TextDelta ''orchestrator planning completed'')
                                 empty_scope planning_stage s))))"

section \<open>Starting\<close>

fun build_error_text :: "build_error \<Rightarrow> string" where
  "build_error_text EmptyPlan = ''orchestrate: coarse plan must contain at least one node''"
| "build_error_text EmptyNodeID = ''orchestrate: coarse plan node has empty id''"
| "build_error_text (DuplicateNode n) = ''orchestrate: coarse plan node '' @ go_quote n @ '' is duplicated''"
| "build_error_text (EmptySkillName n) = ''orchestrate: coarse plan node '' @ go_quote n @ '' has empty skill name''"
| "build_error_text (UnregisteredSkill n sk) = ''orchestrate: coarse plan node '' @ go_quote n @ '' references unregistered skill '' @ go_quote sk"
| "build_error_text (AgentError n err) = ''orchestrate: build agent for node '' @ go_quote n @ '': '' @ err"
| "build_error_text (UnknownDependency n p) = ''orchestrate: coarse plan node '' @ go_quote n @ '' depends on unknown node '' @ go_quote p"

definition newRunnerFromPlan ::
  "('k, 'w) start_env \<Rightarrow> request \<Rightarrow> coarse_plan \<Rightarrow> 'w request_run \<Rightarrow> (go_error + string \<times> nat option) \<times> 'w request_run" where
  "newRunnerFromPlan e req plan s =
     (case (if rq_ArtifactsDir req \<noteq> [] then in_world (se_MkdirAll e (rq_ArtifactsDir req)) s else ([], s)) of (err, s) \<Rightarrow>
        if err \<noteq> [] then (Inl ((''orchestrate: create artifacts dir '' @ go_quote (rq_ArtifactsDir req)) # err), s)
        else
          (case buildPlanNodes (se_registered e) (se_new_agent e) (rq_Input req) plan of
             Inl err \<Rightarrow> (Inl [build_error_text err], s)
           | Inr built \<Rightarrow> (case in_world (se_NewRunner e plan built) s of (r, s) \<Rightarrow> (Inr r, s))))"

text \<open>From the plan on: None is the success.\<close>

definition start_runner ::
  "('k, 'w) start_env \<Rightarrow> request \<Rightarrow> 'k \<Rightarrow> string option \<Rightarrow> coarse_plan \<Rightarrow> 'w request_run \<Rightarrow> request_error option \<times> 'w request_run" where
  "start_runner e req sk client plan s =
     (case in_world (se_Bind e sk client runnerPlannerConversationConfig) s of
        (Inl err, s) \<Rightarrow> (Some (RequestFailed err), s)
      | (Inr plannerSkill, s) \<Rightarrow>
          (case mergeChildStream e ''child'' (se_EventStream e plannerSkill) s of (err, s) \<Rightarrow>
             if err \<noteq> [] then (Some (RequestFailed err), s)
             else
               (case newRunnerFromPlan e req plan s of
                  (Inl err, s) \<Rightarrow> (Some (RequestFailed err), s)
                | (Inr (runnerID, stream), s) \<Rightarrow>
                    (case mergeChildStream e ''runner'' stream s of (err, s) \<Rightarrow>
                       if err \<noteq> [] then (Some (RequestFailed err), s)
                       else
                         let s = s\<lparr>rn_runners := rn_runners s @ [runnerID]\<rparr>;
                             s = emitEngineStreamEvent e EventStatusProgress StatusRunning (RunnerCreated runnerID)
                                   (empty_scope\<lparr>RunnerID := runnerID\<rparr>) None s
                         in
                         (case in_world (se_submit e runnerID (rq_Priority req)) s of (err, s) \<Rightarrow>
                            if err \<noteq> [] then (Some (RequestFailed err), s)
                            else (None, s\<lparr>rn_watched := rn_watched s @ [runnerID]\<rparr>))))))"

definition start_planned ::
  "('k, 'w) start_env \<Rightarrow> 'k option \<Rightarrow> go_error + string option \<Rightarrow> (string, string option) gomap \<Rightarrow> request \<Rightarrow> 'w request_run
     \<Rightarrow> request_error option \<times> 'w request_run" where
  "start_planned e orchestratorSkill envClient skills req s =
     (case runtimeOrchestrator e orchestratorSkill envClient planningConversationConfig s of
        (Inl err, s) \<Rightarrow>
          (if errOrchestratorSkillUnconfigured \<in> set err then (Some (RequestRejected (Some rejectUnconfiguredPlan)), s) else (Some (RequestFailed err), s))
      | (Inr planningSkill, s) \<Rightarrow>
          (case mergeChildStream e ''child'' (se_EventStream e planningSkill) s of (err, s) \<Rightarrow>
             if err \<noteq> [] then (Some (RequestFailed err), s)
             else
               let s = emitEngineStreamEvent e EventStatusStarted StatusRunning (TextDelta ''orchestrator planning started'') empty_scope None s in
               (case planWithOrchestrator e req (collectSkillSummaries skills) planningSkill s of
                  (Inl err, s) \<Rightarrow> (Some (RequestFailed err), emit_failed e (error_text err) None s)
                | (Inr (_, Some reject), s) \<Rightarrow>
                    (Some (RequestRejected (Some reject)), emit_failed e (rj_Summary reject) (Some [(''reason'', AnyString (rj_Analysis reject))]) s)
                | (Inr (None, None), s) \<Rightarrow>
                    (Some (RequestFailed [''orchestrate: planner returned neither a plan nor a reject reason'']), s)
                | (Inr (Some plan, None), s) \<Rightarrow>
                    (case orchestratorSkill of
                       None \<Rightarrow> (Some (RequestRejected (Some rejectUnconfiguredPlan)), s)
                     | Some sk \<Rightarrow> start_runner e req sk (se_Client e planningSkill) plan s))))"

text \<open>Planning fails without an orchestrator skill, so there is one when a plan exists.  The merges are stopped
  by the deferred function unless the runner was submitted.\<close>

definition startRequestWithStream ::
  "('k, 'w) start_env \<Rightarrow> 'k option \<Rightarrow> go_error + string option \<Rightarrow> (string, string option) gomap \<Rightarrow> request \<Rightarrow> 'w request_run
     \<Rightarrow> request_error option \<times> 'w request_run" where
  "startRequestWithStream e orchestratorSkill envClient skills req s =
     (case start_planned e orchestratorSkill envClient skills req s of
        (None, s) \<Rightarrow> (None, s)
      | (Some err, s) \<Rightarrow> (Some err, stopStreamMerges (rn_merges s) s))"

text \<open>The goroutine of \<^verbatim>\<open>StartRequest\<close>, which runs after the caller got the stream.\<close>

definition request_goroutine ::
  "('k, 'w) start_env \<Rightarrow> 'k option \<Rightarrow> go_error + string option \<Rightarrow> (string, string option) gomap \<Rightarrow> request \<Rightarrow> 'w request_run \<Rightarrow> 'w request_run" where
  "request_goroutine e orchestratorSkill envClient skills req s =
     (case startRequestWithStream e orchestratorSkill envClient skills req s of
        (None, s) \<Rightarrow> s
      | (Some err, s) \<Rightarrow> emit_failed e (request_error_text err) None s)"

definition new_run :: "'w \<Rightarrow> 'w request_run" where
  "new_run w = \<lparr>rn_world = w, rn_emitted = [], rn_merges = [], rn_stopped = [], rn_runners = [], rn_watched = []\<rparr>"

text \<open>\<open>subscribeErr\<close> is the error of the subscription of the event log, if one is configured.\<close>

definition StartRequest ::
  "('k, 'w) start_env \<Rightarrow> 'k option \<Rightarrow> go_error + string option \<Rightarrow> (string, string option) gomap \<Rightarrow> go_error \<Rightarrow> request \<Rightarrow> 'w
     \<Rightarrow> go_error + 'w request_run" where
  "StartRequest e orchestratorSkill envClient skills subscribeErr req w =
     (if \<not> priority_valid (rq_Priority req) then Inl [''orchestrate: request priority must be between 0 and 4'']
      else if subscribeErr \<noteq> [] then Inl (''orchestrate: subscribe request event log'' # subscribeErr)
      else Inr (request_goroutine e orchestratorSkill envClient skills req (new_run w)))"

end
