(* ===== verification/Request_Start_Theorems.thy ===== *)
theory Request_Start_Theorems
  imports Request_Start
begin

text \<open>
  How the start of a request ends: with a submitted runner, or with a terminal event and no stream left
  merged.
\<close>

section \<open>Before the runner is submitted\<close>




lemma emit_failed_fields [simp]:
  "rn_watched (emit_failed e msg md s) = rn_watched s" "rn_stopped (emit_failed e msg md s) = rn_stopped s"
  "rn_merges (emit_failed e msg md s) = rn_merges s"
  by (simp_all add: emit_failed_def emitEngineStreamEvent_def)








lemma planned_answer:
  assumes "parse_plan e raw = Inr (plan, reject)"
  shows "(plan = None) \<noteq> (reject = None)"
  using assms by (auto simp: parse_plan_def parseOrchestratorPlanningOutput_def Let_def split: if_splits sum.splits)

lemma plan_reply_answer:
  assumes "plan_reply e sk prompt s = (Inr (raw, plan, reject), s')"
  shows "(plan = None) \<noteq> (reject = None)"
proof -
  have "\<exists>raw'. parse_plan e raw' = Inr (plan, reject)"
    using assms by (auto simp: plan_reply_def split: sum.splits prod.splits)
  then show ?thesis using planned_answer by blast
qed

text \<open>When planning succeeds, after one reply or two, the result is a plan or a rejection, never both and
  never neither.\<close>

theorem planner_answers_plan_or_reject:
  assumes "planWithOrchestrator e req skills sk s = (Inr (plan, reject), s')"
  shows "(plan = None) \<noteq> (reject = None)"
proof -
  obtain prompt raw s1 where "plan_reply e sk prompt s = (Inr (raw, plan, reject), s1)"
    using assms by (auto simp: planWithOrchestrator_def Let_def split: sum.splits prod.splits)
  then show ?thesis by (rule plan_reply_answer)
qed


section \<open>How a start ends\<close>


section \<open>Examples and findings\<close>

text \<open>A world of numbers, a planner with a fixed answer, and a runner called \<^verbatim>\<open>r1\<close>.\<close>

definition demo_plan :: coarse_plan where
  "demo_plan = \<lparr>cp_Request = ''q'', cp_RunnerID = [], cp_Nodes = [\<lparr>cn_ID = ''n'', cn_SkillName = ''s'', cn_TaskDescription = ''t'', cn_DependsOn = []\<rparr>]\<rparr>"

definition demo_start :: "coarse_plan option \<times> reject_reason option \<Rightarrow> go_error \<Rightarrow> (unit, nat) start_env" where
  "demo_start answer submitErr =
     \<lparr>se_Client = (\<lambda>_. Some ''model''), se_Bind = (\<lambda>_ _ _ w. (Inr (), w)), se_EventStream = (\<lambda>_. Some 0), se_Merge = (\<lambda>_ w. (Inr w, Suc w)),
      se_Run = (\<lambda>_ _ w. (Inr [lbrace, rbrace], w)), se_Turns = (\<lambda>_ _. None), se_Now = (\<lambda>_. 5), se_enc_handoff = (\<lambda>_. Inr []),
      se_enc_prompt = (\<lambda>_. Inr []), se_dec_plan = (\<lambda>_. Inr answer), se_letter = (\<lambda>_. False), se_json = (\<lambda>_. ''null''),
      se_MkdirAll = (\<lambda>_ w. ([], w)), se_registered = (\<lambda>_. True), se_new_agent = (\<lambda>_. None), se_NewRunner = (\<lambda>_ _ w. ((''r1'', None), w)),
      se_submit = (\<lambda>_ _ w. (submitErr, w))\<rparr>"

definition demo_request :: request where "demo_request = \<lparr>rq_Input = ''q'', rq_Priority = 0, rq_ArtifactsDir = []\<rparr>"

definition demo_reject :: reject_reason where "demo_reject = \<lparr>rj_Summary = ''no'', rj_Analysis = ''why'', rj_MissingSkills = []\<rparr>"

theorem planner_answers_plan_or_reject_witness:
  "\<exists>s'. planWithOrchestrator (demo_start (Some demo_plan, None) []) demo_request [] () (new_run 0) = (Inr (Some demo_plan, None), s')
     \<and> (Some demo_plan = None) \<noteq> ((None :: reject_reason option) = None)"
proof -
  have "fst (planWithOrchestrator (demo_start (Some demo_plan, None) []) demo_request [] () (new_run 0)) = Inr (Some demo_plan, None)" by code_simp
  then obtain s' where r: "planWithOrchestrator (demo_start (Some demo_plan, None) []) demo_request [] () (new_run 0) = (Inr (Some demo_plan, None), s')"
    by (metis prod.collapse)
  from planner_answers_plan_or_reject [OF r] r show ?thesis by blast
qed

lemma demo_submitted:
  "rn_watched (request_goroutine (demo_start (Some demo_plan, None) []) (Some ()) (Inr None) [(''s'', None)] demo_request (new_run 0)) = [''r1'']"
  by code_simp

text \<open>A rejection is reported twice: by \<^verbatim>\<open>startRequestWithStream\<close> and again by the goroutine that called it.  The
  event log ends at the first report.\<close>

theorem rejection_reported_twice:
  "length (filter (\<lambda>ev. EventType ev = EventStatusFailed)
     (rn_emitted (request_goroutine (demo_start (None, Some demo_reject) []) (Some ()) (Inr None) [] demo_request (new_run 0)))) = 2"
  by code_simp

text \<open>A runner whose submission fails stays registered with the orchestrator, although nobody watches it.\<close>

theorem failed_submission_keeps_runner:
  "rn_runners (request_goroutine (demo_start (Some demo_plan, None) [''closed'']) (Some ()) (Inr None) [] demo_request (new_run 0)) = [''r1'']
   \<and> rn_watched (request_goroutine (demo_start (Some demo_plan, None) [''closed'']) (Some ()) (Inr None) [] demo_request (new_run 0)) = []"
  by code_simp

end
