(* ===== verification/Spec2Isabelle.thy ===== *)
theory Spec2Isabelle
  imports Stream_Hub_Theorems Runner_Plan_Theorems Start_Queue_Theorems Conversation_Run_Theorems Bash_Theorems
    File_Tools_Theorems File_Preview_Theorems Request_Log_Theorems
    Skill_Registry_Theorems Channel_Docs_Theorems Runner_Workspace_Theorems Runner_Store Agent_Theorems Describe_Theorems
    Request_Start_Theorems
begin

text \<open>
  A verification development for Dango, an orchestrator of LLM agents written in Go.

  \<^bold>\<open>The program.\<close>  A request is planned into a graph of nodes by the orchestrator
  (\<^verbatim>\<open>orchestrator/\<close>), which admits a limited number of runners at a time.  A runner (\<^verbatim>\<open>runner/\<close>)
  polishes its plan, has it reviewed, executes the nodes in dependency order, gathers reports and
  settles; what it does is recorded and persisted.  A node is worked on by an agent, which holds a
  conversation with a model (\<^verbatim>\<open>llm/\<close>): the conversation sends its turns, executes the tool calls of
  the answers behind a policy, shrinks its history, and logs every change to session stores from
  which it can be rebuilt.  The bash tool checks a command before it runs it, and the file tools stay
  inside the directories of the skill.  Skills are loaded from directories and registered with the
  orchestrator.  A node leaves its work as markdown documents in the workspace of its runner, from
  where it is linked into the directories of its successors.  All parts report progress on event
  streams (\<^verbatim>\<open>stream/\<close>), which number, buffer, replay, filter and merge events; the events of a
  request are persisted in a log (\<^verbatim>\<open>store/\<close>) and read back from it.

  \<^bold>\<open>Theories and sources.\<close>
  \<^item> \<open>Dango_Prelude\<close>, \<open>Go_Strings\<close>, \<open>Go_Json\<close>, \<open>Go_Heap\<close>, \<open>Go_Filepath\<close>: Go's maps, strings,
    \<^verbatim>\<open>json.Valid\<close>, \<^verbatim>\<open>container/heap\<close> and \<^verbatim>\<open>path/filepath\<close>, as far as the program uses them, and the
    shared lemmas.  \<open>Fifo_Spec\<close> and the locales of the prelude state the contracts of queues and
    of invariants over step relations.
  \<^item> \<open>Stream_Event\<close>, \<open>Stream_Bundle\<close>, \<open>Stream_Core\<close>, \<open>Stream_Merge\<close>, \<open>Stream_Hub\<close>: \<^verbatim>\<open>stream/\<close>.  The
    state is the record of the Go struct; the choice of a \<^verbatim>\<open>select\<close>, the order of a map and the
    contents of a channel are explicit.  \<open>Stream_Invariant\<close>, \<open>Stream_Theorems\<close> and
    \<open>Stream_Hub_Theorems\<close> show what the buffer holds, what a replay returns, who receives an event
    and that joining deltas loses no text.
  \<^item> \<open>Runner_Types\<close>, \<open>Runner_Engine\<close>, \<open>Runner_Lifecycle\<close>, \<open>Runner_Plan\<close>: \<^verbatim>\<open>runner/\<close> and the plan
    parsers of \<^verbatim>\<open>orchestrator/\<close>.  \<open>Runner_Engine_Inv\<close> and \<open>Runner_Engine_Theorems\<close> show that nodes
    start exactly when their parents are done; \<open>Runner_Lifecycle_Theorems\<close> treats every
    interleaving of calls and goroutines; \<open>Runner_Plan_Theorems\<close> the extraction and the graph.
  \<^item> \<open>Start_Queue\<close>, \<open>Start_Queue_Theorems\<close>: \<^verbatim>\<open>orchestrator/queue.go\<close>.  The limit holds and slots go
    by priority in every interleaving of the locked sections; the methods are sequences of the sections.
  \<^item> \<open>Conversation\<close>, \<open>Session_Log\<close>, \<open>Session_Store\<close>, \<open>Conversation_Replay\<close>,
    \<open>Conversation_Theorems\<close>: \<^verbatim>\<open>llm/conversation.go\<close>, \<^verbatim>\<open>llm/session.go\<close> and the memory store of
    \<^verbatim>\<open>runner/skill_binding.go\<close>.  The locale \<open>session_log\<close> is the contract of a store; both stores are
    interpretations of it, and replay is proved once in it.  A replay shares the tool payloads of the loaded
    events with the turns; \<open>shared_events\<close> is what it makes of the events before they are mirrored.
  \<^item> \<open>Conversation_Stream\<close>, \<open>Conversation_Run\<close>, \<open>Conversation_Run_Theorems\<close>: the progress events,
    the requests and the tool loop, \<^verbatim>\<open>llm/conversation_stream_events.go\<close>, \<^verbatim>\<open>conversation_send.go\<close>,
    \<^verbatim>\<open>conversation_stream.go\<close> and \<^verbatim>\<open>conversation_run.go\<close>.
  \<^item> \<open>Tool_Policy\<close>: \<^verbatim>\<open>llm/internal/toolpolicy\<close>, \<^verbatim>\<open>llm/tool_policy.go\<close>, \<^verbatim>\<open>runner/tool_policy.go\<close>.
  \<^item> \<open>Workspace\<close>: \<^verbatim>\<open>llm/workspace.go\<close>, that resolved paths stay inside.
  \<^item> \<open>Shell_Ast\<close>, \<open>Url_Allowlist\<close>, \<open>Bash_Guard\<close>, \<open>Bash_Theorems\<close>: the bash tool of
    \<^verbatim>\<open>llm/internal/builtin\<close> and its checks.
  \<^item> \<open>Go_Text\<close>, \<open>File_Tools\<close>, \<open>File_Preview\<close>: the file tools of \<^verbatim>\<open>llm/internal/builtin\<close> and the tools
    that summarise a file.  \<open>File_Tools_Theorems\<close> shows that they change the world only inside the
    allowed directories and that a replacement happens as a whole or not at all;
    \<open>File_Preview_Theorems\<close> that the statistics are those of the file.
  \<^item> \<open>Front_Matter\<close>: \<^verbatim>\<open>internal/frontmatter\<close>, the header of a markdown document.
  \<^item> \<open>Event_Log\<close>, \<open>Event_Log_Theorems\<close>: the file stores of \<^verbatim>\<open>store/\<close>, that what was appended is loaded.
    \<open>Request_Log\<close>, \<open>Request_Log_Theorems\<close>: the queue between a request stream and its log,
    \<^verbatim>\<open>orchestrator/request.go\<close>, as a step relation, composed with the store.  \<open>Describe_View\<close>,
    \<open>Describe_Theorems\<close>: \<^verbatim>\<open>orchestrator/describe.go\<close>, the view of a request that is rebuilt from the log; it
    shows the last events, and resuming it from its cursor is the same as replaying the whole log.
  \<^item> \<open>Request_Start\<close>, \<open>Request_Start_Theorems\<close>: the start of a request in \<^verbatim>\<open>orchestrator/request.go\<close> and
    \<^verbatim>\<open>orchestrator/planning.go\<close>, from the planning prompt to the submission of the runner.  It ends with a runner
    that is watched, or with a terminal event and no stream left merged.
  \<^item> \<open>Skill_Tools\<close>, \<open>Skill_Registry\<close>, \<open>Skill_Registry_Theorems\<close>: \<^verbatim>\<open>llm/skill.go\<close>, \<^verbatim>\<open>llm/builtin_tools.go\<close>
    and the registry in \<^verbatim>\<open>orchestrator/\<close>; the tools a skill has and which skill a name denotes.
  \<^item> \<open>Channel_Docs\<close>, \<open>Channel_Docs_Theorems\<close>: the exchange, handoff and memo documents of \<^verbatim>\<open>runner/\<close>.  The
    locale \<open>channel_kind\<close> is what the three kinds have in common; each is an interpretation.
  \<^item> \<open>Runner_Workspace\<close>, \<open>Runner_Workspace_Theorems\<close>: the directory tree of a runner, the delivery of
    handoffs and the directories of a node, \<^verbatim>\<open>runner/workspace.go\<close>, \<^verbatim>\<open>handoff_artifacts.go\<close> and
    \<^verbatim>\<open>workspace_binding.go\<close>.
  \<^item> \<open>Runner_Store\<close>: \<^verbatim>\<open>runner/store.go\<close> and \<^verbatim>\<open>codec.go\<close>, a refinement of an append-only list.
  \<^item> \<open>Agent_Prompt\<close>, \<open>Agent_Stages\<close>, \<open>Agent_Theorems\<close>: \<^verbatim>\<open>agent/\<close>, the prompts, the stages of a node and
    the documents they leave.

  \<^bold>\<open>Conventions.\<close>  An \<^verbatim>\<open>error\<close> is the list of its messages, empty for \<^verbatim>\<open>nil\<close>; a fallible function
  returns a sum, with the error on the left.  A panic is a value of the result type (\<open>Panics\<close>,
  \<open>Panicked\<close>, \<open>SendPanic\<close>).  A string is the list of its bytes.  A goroutine is a later step of a step relation; a locked section
  is one step.  Numbers are \<open>int\<close> or \<open>nat\<close> where the code cannot overflow them in practice (sequence
  numbers, lengths) and words where bits matter (stream categories).

  \<^bold>\<open>Granularity.\<close>  Some methods leave their lock before they end, and the model has them as one step:
  \<open>flushTick\<close>, \<open>closeUpstream\<close> and \<open>unregisterUpstream\<close> of the merge hub (the emit and the cancellation follow the
  section), and \<open>runner_Start\<close> and \<open>AcceptPolishedPlan\<close> of the runner (the launch of the engine follows the
  section; the engine itself is a later step).  \<open>Subscribe\<close> uses one choice for all sends of its catch-up and is
  one step with respect to the first half of \<^verbatim>\<open>Close\<close>.  The properties of the hub and of the runner are about
  interleavings of these steps.

  \<^bold>\<open>Aliasing.\<close>  Values are copied, except where a property depends on sharing (\<open>shared_events\<close>).  The memory store of
  sessions hands out events that share their turns with the store; the model copies them, which agrees with the code
  as long as no tool details are dropped after a load.

  \<^bold>\<open>Parameters.\<close>  Code outside the repository is an argument of the definitions: the codecs of
  \<^verbatim>\<open>encoding/json\<close> (with the documented round trip), the OpenAI SDK (any answer), the shell parser
  (with, for termination only, that the words of a command are shorter than the command),
  \<^verbatim>\<open>url.Parse\<close>, the file system (with the documented results of \<^verbatim>\<open>EvalSymlinks\<close>), the clock, the agents
  and the approver.  Every property with such a hypothesis has a witness at a concrete instance.

  \<^bold>\<open>Bounds and fuel.\<close>  Loops are structural, or functions with a measure (in the cascade of starts
  of the start queue, for example, every start removes a waiting entry).  Fuel occurs in the tool
  loop, where it is the step budget of the code, and in the URL check, where it is the length of
  the command and shown to be enough.

  The loop of \<^verbatim>\<open>LoadEvents\<close> is a partial function whose value \<open>None\<close> is a loop that does not end; the
  round trip of the event log shows that it returns.

  \<^bold>\<open>Not modelled.\<close>  Logging and terminal rendering, which only produce output; the SQL backends, whose
  behaviour is that of the database; the MCP client, a wrapper of third-party code; the server, the
  construction of clients, and the trace analyzer.
\<close>

end
